(* ===== verification/Nexo_Prelude.thy ===== *)
theory Nexo_Prelude
  imports "HOL-Library.Word"
begin

text \<open>
  Shared vocabulary of the development: the machine types of the Rust sources, little-endian
  encodings (\<^verbatim>\<open>to_le_bytes\<close>, \<^verbatim>\<open>from_le_bytes\<close>), slices, truncated division, the wrap-around of
  \<^verbatim>\<open>i16\<close>, and the file model of the standard library that the log stores use.
  It also holds the two contracts most components share: a step function with an invariant
  (\<open>preserved\<close>) and a keyed store (\<open>keyed_store\<close>).
\<close>

section \<open>Machine types\<close>

type_synonym byte = "8 word"
type_synonym bytes = "byte list"
type_synonym u64 = "64 word"

text \<open>A \<^verbatim>\<open>[u8; 32]\<close> is a byte list; the functions that fix its length do so where they read it.\<close>

type_synonym hash32 = bytes

named_theorems len_simps \<open>lengths of encodings and buffers\<close>

definition zeros :: "nat \<Rightarrow> bytes" where
  "zeros n = replicate n 0"

lemma length_zeros [simp, len_simps]: "length (zeros n) = n"
  by (simp add: zeros_def)

lemma nth_zeros [simp]: "i < n \<Longrightarrow> zeros n ! i = 0"
  by (simp add: zeros_def)

text \<open>
  SHA-256 comes from the crate \<^verbatim>\<open>sha2\<close>, which is not part of the repository: every function that
  hashes takes it as an argument. What the code relies on is that a digest has 32 bytes.
\<close>

definition digest32 :: "(bytes \<Rightarrow> bytes) \<Rightarrow> bool" where
  "digest32 sha \<longleftrightarrow> (\<forall>x. length (sha x) = 32)"

lemma digest32_length [len_simps]: "digest32 sha \<Longrightarrow> length (sha x) = 32"
  by (simp add: digest32_def)

text \<open>The bytes of a text; texts are ASCII.\<close>

definition string_bytes :: "string \<Rightarrow> bytes" where
  "string_bytes s = map of_char s"

section \<open>Slices and little-endian integers\<close>

definition slice :: "'a list \<Rightarrow> nat \<Rightarrow> nat \<Rightarrow> 'a list" where
  "slice xs i j = take (j - i) (drop i xs)"

lemma length_slice [simp, len_simps]: "length (slice xs i j) = min (j - i) (length xs - i)"
  by (simp add: slice_def)

lemma slice_append_left: "j \<le> length xs \<Longrightarrow> slice (xs @ ys) i j = slice xs i j"
  by (simp add: slice_def)

lemma slice_append_right: "length xs \<le> i \<Longrightarrow> slice (xs @ ys) i j = slice ys (i - length xs) (j - length xs)"
  by (simp add: slice_def)

lemma slice_all: "slice xs 0 (length xs) = xs"
  by (simp add: slice_def)

text \<open>\<^verbatim>\<open>buf[off..off+n].copy_from_slice(bs)\<close> for a source of \<open>n\<close> bytes.\<close>

definition put_at :: "nat \<Rightarrow> 'a list \<Rightarrow> 'a list \<Rightarrow> 'a list" where
  "put_at off bs buf = take off buf @ bs @ drop (off + length bs) buf"

lemma length_put_at [simp, len_simps]:
  "off + length bs \<le> length buf \<Longrightarrow> length (put_at off bs buf) = length buf"
  by (simp add: put_at_def)

fun le_bytes :: "nat \<Rightarrow> nat \<Rightarrow> bytes" where
  "le_bytes 0 x = []"
| "le_bytes (Suc n) x = word_of_nat (x mod 256) # le_bytes n (x div 256)"

fun nat_of_le :: "bytes \<Rightarrow> nat" where
  "nat_of_le [] = 0"
| "nat_of_le (b # bs) = unat b + 256 * nat_of_le bs"

lemma length_le_bytes [simp, len_simps]: "length (le_bytes n x) = n"
  by (induction n arbitrary: x) auto

lemma le_bytes_first: "0 < n \<Longrightarrow> le_bytes n x ! 0 = word_of_nat (x mod 256)"
  by (cases n) simp_all

lemma unat_byte_of_nat: "unat (word_of_nat (x mod 256) :: byte) = x mod 256"
  by (simp add: unat_of_nat)

lemma nat_of_le_le_bytes: "nat_of_le (le_bytes n x) = x mod 256 ^ n"
proof (induction n arbitrary: x)
  case (Suc n)
  have "x mod (256 * 256 ^ n) = 256 * (x div 256 mod 256 ^ n) + x mod 256"
    by (rule mod_mult2_eq)
  then show ?case by (simp add: Suc unat_byte_of_nat)
qed simp

definition u64_to_le :: "u64 \<Rightarrow> bytes" where
  "u64_to_le w = le_bytes 8 (unat w)"

definition u64_from_le :: "bytes \<Rightarrow> u64" where
  "u64_from_le bs = word_of_nat (nat_of_le bs)"

lemma length_u64_to_le [simp, len_simps]: "length (u64_to_le w) = 8"
  by (simp add: u64_to_le_def)

lemma u64_le_roundtrip [simp]: "u64_from_le (u64_to_le w) = w"
proof -
  have "unat w < 2 ^ 64" using unsigned_less [of w] by simp
  then have "unat w mod 256 ^ 8 = unat w" by simp
  then show ?thesis by (simp add: u64_from_le_def u64_to_le_def nat_of_le_le_bytes)
qed

section \<open>Arithmetic of the sources\<close>

text \<open>Rust's integer division truncates towards zero.\<close>

definition tdiv :: "int \<Rightarrow> int \<Rightarrow> int" where
  "tdiv a b = sgn a * sgn b * (\<bar>a\<bar> div \<bar>b\<bar>)"

lemma tdiv_nonneg: "0 \<le> a \<Longrightarrow> 0 < b \<Longrightarrow> tdiv a b = a div b"
  by (cases "a = 0") (auto simp: tdiv_def)

lemma tdiv_neg: "a < 0 \<Longrightarrow> 0 < b \<Longrightarrow> tdiv a b = - ((- a) div b)"
  by (auto simp: tdiv_def)

lemma tdiv_abs_le:
  assumes "0 < b" "\<bar>a\<bar> \<le> c * b" shows "\<bar>tdiv a b\<bar> \<le> c"
proof -
  have le: "\<bar>a\<bar> div b \<le> c"
    using assms by (metis div_mult_self_is_m nonzero_mult_div_cancel_right zdiv_mono1 less_imp_neq)
  have nonneg: "0 \<le> \<bar>a\<bar> div b" using assms by (simp add: pos_imp_zdiv_nonneg_iff)
  show ?thesis
  proof (cases "0 \<le> a")
    case True then show ?thesis using le nonneg assms by (simp add: tdiv_nonneg)
  next
    case False then show ?thesis using le nonneg assms by (simp add: tdiv_neg)
  qed
qed

text \<open>The value of an \<^verbatim>\<open>i16\<close> result in a build without overflow checks.\<close>

definition wrap16 :: "int \<Rightarrow> int" where
  "wrap16 x = (x + 32768) mod 65536 - 32768"

lemma wrap16_id: "-32768 \<le> x \<Longrightarrow> x \<le> 32767 \<Longrightarrow> wrap16 x = x"
  by (simp add: wrap16_def)

lemma wrap16_low:
  assumes "-98304 \<le> x" "x < -32768" shows "wrap16 x = x + 65536"
proof -
  have "(x + 32768) mod 65536 = (x + 32768 + 65536) mod 65536" by (simp only: mod_add_self2)
  also have "\<dots> = x + 32768 + 65536" using assms by (intro mod_pos_pos_trivial) auto
  finally show ?thesis by (simp add: wrap16_def)
qed

lemma wrap16_range: "-32768 \<le> wrap16 x \<and> wrap16 x \<le> 32767"
  unfolding wrap16_def by (smt (verit) pos_mod_bound pos_mod_sign)

section \<open>Files\<close>

text \<open>
  \<^verbatim>\<open>std::fs::File\<close>: the contents, the cursor and whether the file was opened with
  \<^verbatim>\<open>OpenOptions::append\<close>. In append mode every write goes to the end of the file, whatever the
  cursor (the documented meaning of \<^verbatim>\<open>O_APPEND\<close>). A write at the cursor overwrites in place
  and extends the file, filling a gap with zero bytes.
\<close>

record fs_file =
  contents :: bytes
  cursor :: nat
  append_mode :: bool

datatype io_error = IoError | UnexpectedEof

definition write_pos :: "fs_file \<Rightarrow> nat" where
  "write_pos f = (if append_mode f then length (contents f) else cursor f)"

definition write_bytes :: "fs_file \<Rightarrow> bytes \<Rightarrow> fs_file" where
  "write_bytes f bs =
     (let p = write_pos f;
          padded = contents f @ zeros (p - length (contents f))
      in f\<lparr>contents := put_at p bs padded, cursor := p + length bs\<rparr>)"

text \<open>
  \<^verbatim>\<open>write_all\<close>: the fault is \<open>None\<close> when every byte is written and \<open>Some n\<close> when the
  operating system reports an error after \<open>n\<close> bytes.
\<close>

definition write_all :: "fs_file \<Rightarrow> bytes \<Rightarrow> nat option \<Rightarrow> (io_error + unit) \<times> fs_file" where
  "write_all f bs fault =
     (case fault of
        None \<Rightarrow> (Inr (), write_bytes f bs)
      | Some n \<Rightarrow> (Inl IoError, write_bytes f (take n bs)))"

definition seek_to :: "fs_file \<Rightarrow> nat \<Rightarrow> fs_file" where
  "seek_to f p = f\<lparr>cursor := p\<rparr>"

lemma write_bytes_at_end:
  assumes "write_pos f = length (contents f)"
  shows "contents (write_bytes f bs) = contents f @ bs"
    and "cursor (write_bytes f bs) = length (contents f) + length bs"
    and "append_mode (write_bytes f bs) = append_mode f"
  using assms by (simp_all add: write_bytes_def put_at_def zeros_def)

lemma write_pos_after: "write_pos f = length (contents f) \<Longrightarrow>
    write_pos (write_bytes f bs) = length (contents (write_bytes f bs))"
  by (auto simp: write_pos_def write_bytes_def put_at_def zeros_def split: if_splits)

section \<open>Shared contracts\<close>

text \<open>A step function together with an invariant that every step keeps.\<close>

locale preserved =
  fixes step :: "'s \<Rightarrow> 'a \<Rightarrow> 's"
    and inv :: "'s \<Rightarrow> bool"
  assumes step_inv: "inv s \<Longrightarrow> inv (step s a)"
begin

lemma run_inv: "inv s \<Longrightarrow> inv (foldl step s as)"
  by (induction as arbitrary: s) (auto intro: step_inv)

lemma prefix_inv: "inv s \<Longrightarrow> inv (foldl step s (take n as))"
  by (rule run_inv)

end

text \<open>
  An accumulator: a state that represents the list of the values added to it, for the values the
  provider accepts.
\<close>

locale accumulator =
  fixes add :: "'s \<Rightarrow> 'v \<Rightarrow> 's"
    and ok :: "'v \<Rightarrow> bool"
    and view :: "'v list \<Rightarrow> 's \<Rightarrow> bool"
  assumes add_view: "view vs s \<Longrightarrow> ok v \<Longrightarrow> view (vs @ [v]) (add s v)"
begin

lemma foldl_view: "view vs s \<Longrightarrow> \<forall>w \<in> set ws. ok w \<Longrightarrow> view (vs @ ws) (foldl add s ws)"
proof (induction ws arbitrary: vs s)
  case (Cons w ws)
  then show ?case using Cons.IH [OF add_view [OF Cons.prems(1)], of w] by simp
qed simp

end

text \<open>A keyed store: what a lookup returns after an insertion.\<close>

locale keyed_store =
  fixes lookup :: "'s \<Rightarrow> 'k \<Rightarrow> 'v option"
    and ins :: "'s \<Rightarrow> 'v \<Rightarrow> 's"
    and key :: "'v \<Rightarrow> 'k"
    and room :: "'s \<Rightarrow> 'v \<Rightarrow> bool"
  assumes lookup_same: "room s v \<Longrightarrow> lookup (ins s v) (key v) = Some v"
    and lookup_other: "k \<noteq> key v \<Longrightarrow> lookup (ins s v) k = lookup s k"
begin

lemma lookup_ins_if: "room s v \<Longrightarrow> lookup (ins s v) k = (if k = key v then Some v else lookup s k)"
  by (simp add: lookup_same lookup_other)

lemma lookup_foldl_other:
  "k \<notin> key ` set vs \<Longrightarrow> lookup (foldl ins s vs) k = lookup s k"
  by (induction vs arbitrary: s) (auto simp: lookup_other)

text \<open>After any sequence of insertions the last value stored under a key is the one found.\<close>

lemma lookup_foldl_last:
  assumes "room (foldl ins s us) v" and "key v \<notin> key ` set ws"
  shows "lookup (foldl ins s (us @ v # ws)) (key v) = Some v"
  using assms by (simp add: lookup_foldl_other lookup_same)

end

end
