(* ===== verification/Mmr.thy ===== *)
theory Mmr
  imports Nexo_Prelude
begin

text \<open>
  The Merkle Mountain Range of \<^verbatim>\<open>nexoia-core/epoch_mmr/src/mmr.rs\<close>: its flat node array, the peaks,
  \<^verbatim>\<open>append\<close> with its merge loop, epoch sealing, leaf queries, nullification and inclusion proofs.
  Counters and array indices are \<open>nat\<close>: the array holds at least one 36-byte node per leaf, so
  the \<^verbatim>\<open>u64\<close> leaf counter and the shift in \<^verbatim>\<open>find_sibling\<close> stay far below their widths
  (\<open>Mmr_Props.sibling_shift_in_range\<close>). The facts about these definitions are in
  \<open>Mmr_Forest\<close> and \<open>Mmr_Props\<close>.
\<close>

section \<open>Data\<close>

record epoch_seal =
  seal_epoch_no :: nat
  seal_root :: hash32
  seal_leaf_count :: nat
  seal_node_count :: nat

record leaf_info =
  info_hash :: hash32
  info_nullified :: bool
  info_index :: nat

record merkle_proof =
  proof_index :: nat
  proof_leaf :: hash32
  proof_siblings :: "(hash32 \<times> bool) list"
  proof_root :: hash32

datatype mmr_error = LeafOutOfBounds nat nat | EmptyMmr

record mmr_node =
  node_hash :: hash32
  node_height :: nat

record mmr =
  nodes :: "mmr_node list"
  peaks :: "nat list"
  leaf_count :: nat
  epoch :: nat
  nullified :: "nat set"

definition mmr_new :: mmr where
  "mmr_new = \<lparr>nodes = [], peaks = [], leaf_count = 0, epoch = 0, nullified = {}\<rparr>"

definition merge_hashes :: "(bytes \<Rightarrow> bytes) \<Rightarrow> hash32 \<Rightarrow> hash32 \<Rightarrow> hash32" where
  "merge_hashes sha l r = sha (l @ r)"

section \<open>Insertion\<close>

text \<open>
  The loop of \<^verbatim>\<open>append\<close>: while the last two peaks have the same height they are replaced by
  their parent, which is pushed to the end of the node array.
\<close>

function merge_peaks ::
  "(bytes \<Rightarrow> bytes) \<Rightarrow> mmr_node list \<Rightarrow> nat list \<Rightarrow> mmr_node list \<times> nat list" where
  "merge_peaks sha ns ps =
     (let n = length ps in
      if n < 2 then (ns, ps)
      else
        let li = ps ! (n - 2); ri = ps ! (n - 1) in
        if node_height (ns ! li) \<noteq> node_height (ns ! ri) then (ns, ps)
        else
          merge_peaks sha
            (ns @ [\<lparr>node_hash = merge_hashes sha (node_hash (ns ! li)) (node_hash (ns ! ri)),
                    node_height = node_height (ns ! li) + 1\<rparr>])
            (take (n - 2) ps @ [length ns]))"
  by pat_completeness auto
termination
  by (relation "measure (\<lambda>(sha, ns, ps). length ps)") auto

declare merge_peaks.simps [simp del]

definition mmr_append :: "(bytes \<Rightarrow> bytes) \<Rightarrow> mmr \<Rightarrow> hash32 \<Rightarrow> nat \<times> mmr" where
  "mmr_append sha m h =
     (let leaf_index = leaf_count m;
          leaf_pos = length (nodes m);
          (ns, ps) = merge_peaks sha (nodes m @ [\<lparr>node_hash = h, node_height = 0\<rparr>])
                       (peaks m @ [leaf_pos])
      in (leaf_index, m\<lparr>nodes := ns, peaks := ps, leaf_count := leaf_count m + 1\<rparr>))"

section \<open>Sealing\<close>

definition bag_peaks :: "(bytes \<Rightarrow> bytes) \<Rightarrow> mmr \<Rightarrow> hash32" where
  "bag_peaks sha m =
     foldl (\<lambda>acc i. merge_hashes sha acc (node_hash (nodes m ! i)))
       (node_hash (nodes m ! (peaks m ! 0))) (drop 1 (peaks m))"

definition current_root :: "(bytes \<Rightarrow> bytes) \<Rightarrow> mmr \<Rightarrow> hash32 option" where
  "current_root sha m = (if peaks m = [] then None else Some (bag_peaks sha m))"

definition seal_epoch :: "(bytes \<Rightarrow> bytes) \<Rightarrow> mmr \<Rightarrow> (mmr_error + epoch_seal) \<times> mmr" where
  "seal_epoch sha m =
     (if leaf_count m = 0 then (Inl EmptyMmr, m)
      else
        (Inr \<lparr>seal_epoch_no = epoch m, seal_root = bag_peaks sha m,
              seal_leaf_count = leaf_count m, seal_node_count = length (nodes m)\<rparr>,
         m\<lparr>epoch := epoch m + 1\<rparr>))"

section \<open>Leaf queries and nullification\<close>

text \<open>\<^verbatim>\<open>u64::count_ones\<close>.\<close>

fun count_ones :: "nat \<Rightarrow> nat" where
  "count_ones n = (if n = 0 then 0 else n mod 2 + count_ones (n div 2))"

declare count_ones.simps [simp del]

text \<open>The subtraction on \<open>nat\<close> stops at zero, as the source's \<^verbatim>\<open>saturating_sub\<close>.\<close>

definition leaf_node_pos :: "mmr \<Rightarrow> nat \<Rightarrow> nat option" where
  "leaf_node_pos m k = (if leaf_count m \<le> k then None else Some (2 * k - count_ones k))"

definition get_leaf :: "mmr \<Rightarrow> nat \<Rightarrow> leaf_info option" where
  "get_leaf m k =
     (if leaf_count m \<le> k then None
      else case leaf_node_pos m k of
             None \<Rightarrow> None
           | Some p \<Rightarrow> Some \<lparr>info_hash = node_hash (nodes m ! p),
                             info_nullified = (k \<in> nullified m), info_index = k\<rparr>)"

definition nullify :: "mmr \<Rightarrow> nat \<Rightarrow> (mmr_error + unit) \<times> mmr" where
  "nullify m k =
     (if leaf_count m \<le> k then (Inl (LeafOutOfBounds k (leaf_count m)), m)
      else (Inr (), m\<lparr>nullified := insert k (nullified m)\<rparr>))"

definition is_nullified :: "mmr \<Rightarrow> nat \<Rightarrow> bool" where
  "is_nullified m k \<longleftrightarrow> k \<in> nullified m"

definition nullified_count :: "mmr \<Rightarrow> nat" where
  "nullified_count m = card (nullified m)"

definition node_count :: "mmr \<Rightarrow> nat" where
  "node_count m = length (nodes m)"

section \<open>Inclusion proofs\<close>

definition find_sibling :: "mmr_node list \<Rightarrow> nat \<Rightarrow> nat \<Rightarrow> nat option" where
  "find_sibling ns pos h =
     (let step = min (2 ^ (h + 1) - 1) (length ns); right = pos + step in
      if right < length ns \<and> node_height (ns ! right) = h then Some right
      else if step \<le> pos \<and> node_height (ns ! (pos - step)) = h then Some (pos - step)
      else None)"

definition find_parent :: "mmr_node list \<Rightarrow> nat \<Rightarrow> nat \<Rightarrow> nat option" where
  "find_parent ns a b =
     (let p = max a b + 1 in
      if p < length ns \<and> node_height (ns ! p) = node_height (ns ! a) + 1 then Some p else None)"

text \<open>
  The loop of \<^verbatim>\<open>collect_siblings\<close>: it pushes a sibling, then climbs to the parent or stops. The
  position grows with every round and stays below the length of the array.
\<close>

function climb :: "mmr_node list \<Rightarrow> nat \<Rightarrow> nat \<Rightarrow> (hash32 \<times> bool) list" where
  "climb ns pos h =
     (case find_sibling ns pos h of
        None \<Rightarrow> []
      | Some sib \<Rightarrow>
          (node_hash (ns ! sib), pos < sib) #
          (case find_parent ns pos sib of
             None \<Rightarrow> []
           | Some par \<Rightarrow> climb ns par (h + 1)))"
  by pat_completeness auto
termination
  by (relation "measure (\<lambda>(ns, pos, h). length ns - pos)")
     (auto simp: find_parent_def Let_def split: if_splits)

declare climb.simps [simp del]

definition collect_siblings :: "mmr \<Rightarrow> nat \<Rightarrow> (hash32 \<times> bool) list" where
  "collect_siblings m start = climb (nodes m) start (node_height (nodes m ! start))"

definition generate_proof :: "(bytes \<Rightarrow> bytes) \<Rightarrow> mmr \<Rightarrow> nat \<Rightarrow> mmr_error + merkle_proof" where
  "generate_proof sha m k =
     (if leaf_count m \<le> k then Inl (LeafOutOfBounds k (leaf_count m))
      else case leaf_node_pos m k of
             None \<Rightarrow> Inl (LeafOutOfBounds k (leaf_count m))
           | Some p \<Rightarrow>
               Inr \<lparr>proof_index = k, proof_leaf = node_hash (nodes m ! p),
                    proof_siblings = collect_siblings m p,
                    proof_root = (case current_root sha m of None \<Rightarrow> zeros 32 | Some r \<Rightarrow> r)\<rparr>)"

definition fold_path :: "(bytes \<Rightarrow> bytes) \<Rightarrow> hash32 \<Rightarrow> (hash32 \<times> bool) list \<Rightarrow> hash32" where
  "fold_path sha leaf path =
     foldl (\<lambda>cur (sib, right). if right then merge_hashes sha cur sib else merge_hashes sha sib cur)
       leaf path"

definition verify_proof :: "(bytes \<Rightarrow> bytes) \<Rightarrow> merkle_proof \<Rightarrow> hash32 \<Rightarrow> bool" where
  "verify_proof sha p root \<longleftrightarrow> fold_path sha (proof_leaf p) (proof_siblings p) = root"

end
