(* ===== verification/Mmr_Forest.thy ===== *)
theory Mmr_Forest
  imports Mmr
begin

text \<open>
  The abstract view of the Merkle Mountain Range: a forest of perfect binary trees, newest tree
  first, with strictly increasing heights, to which a leaf is added with carries. The flat node
  array is the post-order listing of the forest. The facts here connect the merge loop of
  \<^verbatim>\<open>append\<close> with the carry and give the shape of the array; \<open>Mmr_Props\<close> draws the conclusions.
\<close>

section \<open>Trees and forests\<close>

datatype ptree = Tip hash32 | Fork ptree ptree

primrec ht :: "ptree \<Rightarrow> nat" where
  "ht (Tip h) = 0"
| "ht (Fork l r) = ht l + 1"

primrec root_of :: "(bytes \<Rightarrow> bytes) \<Rightarrow> ptree \<Rightarrow> hash32" where
  "root_of sha (Tip h) = h"
| "root_of sha (Fork l r) = merge_hashes sha (root_of sha l) (root_of sha r)"

primrec leaves :: "ptree \<Rightarrow> hash32 list" where
  "leaves (Tip h) = [h]"
| "leaves (Fork l r) = leaves l @ leaves r"

primrec perfect :: "ptree \<Rightarrow> bool" where
  "perfect (Tip h) \<longleftrightarrow> True"
| "perfect (Fork l r) \<longleftrightarrow> perfect l \<and> perfect r \<and> ht l = ht r"

definition root_node :: "(bytes \<Rightarrow> bytes) \<Rightarrow> ptree \<Rightarrow> mmr_node" where
  "root_node sha t = \<lparr>node_hash = root_of sha t, node_height = ht t\<rparr>"

primrec flat :: "(bytes \<Rightarrow> bytes) \<Rightarrow> ptree \<Rightarrow> mmr_node list" where
  "flat sha (Tip h) = [\<lparr>node_hash = h, node_height = 0\<rparr>]"
| "flat sha (Fork l r) = flat sha l @ flat sha r @ [root_node sha (Fork l r)]"

fun fnodes :: "(bytes \<Rightarrow> bytes) \<Rightarrow> ptree list \<Rightarrow> mmr_node list" where
  "fnodes sha [] = []"
| "fnodes sha (t # ts) = fnodes sha ts @ flat sha t"

fun fpeaks :: "(bytes \<Rightarrow> bytes) \<Rightarrow> ptree list \<Rightarrow> nat list" where
  "fpeaks sha [] = []"
| "fpeaks sha (t # ts) = fpeaks sha ts @ [length (fnodes sha ts) + length (flat sha t) - 1]"

fun fleaves :: "ptree list \<Rightarrow> hash32 list" where
  "fleaves [] = []"
| "fleaves (t # ts) = fleaves ts @ leaves t"

fun carry :: "ptree \<Rightarrow> ptree list \<Rightarrow> ptree list" where
  "carry t [] = [t]"
| "carry t (u # us) = (if ht u = ht t then carry (Fork u t) us else t # u # us)"

definition forest :: "hash32 list \<Rightarrow> ptree list" where
  "forest hs = foldl (\<lambda>ts h. carry (Tip h) ts) [] hs"

lemma forest_Nil [simp]: "forest [] = []"
  and forest_snoc [simp]: "forest (hs @ [h]) = carry (Tip h) (forest hs)"
  by (simp_all add: forest_def)

definition forest_ok :: "ptree list \<Rightarrow> bool" where
  "forest_ok ts \<longleftrightarrow> (\<forall>t \<in> set ts. perfect t) \<and> sorted_wrt (<) (map ht ts)"

section \<open>Sizes\<close>

lemma leaves_ne [simp]: "leaves t \<noteq> []"
  by (induction t) auto

lemma length_leaves_pos: "0 < length (leaves t)"
  by simp

lemma length_flat: "length (flat sha t) + 1 = 2 * length (leaves t)"
  by (induction t) auto

lemma length_leaves_perfect: "perfect t \<Longrightarrow> length (leaves t) = 2 ^ ht t"
  by (induction t) auto

lemma length_flat_perfect: "perfect t \<Longrightarrow> length (flat sha t) = 2 ^ (ht t + 1) - 1"
  using length_flat [of sha t] by (simp add: length_leaves_perfect)

lemma flat_ne [simp]: "flat sha t \<noteq> []"
  by (induction t) auto

lemma flat_pos: "0 < length (flat sha t)"
  by simp

lemma flat_root: "flat sha t ! (length (flat sha t) - 1) = root_node sha t"
  by (cases t) (auto simp: nth_append root_node_def)

lemma length_fnodes: "length (fnodes sha ts) + length ts = 2 * length (fleaves ts)"
proof (induction ts)
  case (Cons t ts)
  then show ?case using length_flat [of sha t] by simp
qed simp

lemma length_fpeaks [simp]: "length (fpeaks sha ts) = length ts"
  by (induction ts) auto

section \<open>The merge loop is the carry\<close>

lemma nth_root_mid:
  "(xs @ flat sha t @ ys) ! (length xs + length (flat sha t) - 1) = root_node sha t"
proof -
  have "length xs + length (flat sha t) - 1 = length xs + (length (flat sha t) - 1)"
    using flat_pos [of sha t] by linarith
  moreover have "length (flat sha t) - 1 < length (flat sha t)" using flat_pos [of sha t] by linarith
  ultimately show ?thesis by (simp only: nth_append_length_plus nth_append_left flat_root)
qed

lemma merge_peaks_last_two:
  "merge_peaks sha ns (ps @ [li, ri]) =
     (if node_height (ns ! li) \<noteq> node_height (ns ! ri) then (ns, ps @ [li, ri])
      else merge_peaks sha
             (ns @ [\<lparr>node_hash = merge_hashes sha (node_hash (ns ! li)) (node_hash (ns ! ri)),
                     node_height = node_height (ns ! li) + 1\<rparr>])
             (ps @ [length ns]))"
  by (subst merge_peaks.simps) (simp add: Let_def nth_append)

lemma merge_peaks_carry:
  "merge_peaks sha (fnodes sha (t # ts)) (fpeaks sha (t # ts))
     = (fnodes sha (carry t ts), fpeaks sha (carry t ts))"
proof (induction ts arbitrary: t)
  case Nil
  show ?case by (simp add: merge_peaks.simps)
next
  case (Cons u us)
  let ?ns = "fnodes sha (t # u # us)"
  let ?li = "length (fnodes sha us) + length (flat sha u) - 1"
  let ?ri = "length (fnodes sha us @ flat sha u) + length (flat sha t) - 1"
  have ps: "fpeaks sha (t # u # us) = fpeaks sha us @ [?li, ?ri]" by simp
  have nl: "?ns ! ?li = root_node sha u"
    using nth_root_mid [of "fnodes sha us" sha u "flat sha t"] by simp
  have nr: "?ns ! ?ri = root_node sha t"
    using nth_root_mid [of "fnodes sha us @ flat sha u" sha t "[]"] by simp
  have step: "merge_peaks sha ?ns (fpeaks sha us @ [?li, ?ri]) =
      (if ht u \<noteq> ht t then (?ns, fpeaks sha us @ [?li, ?ri])
       else merge_peaks sha (?ns @ [root_node sha (Fork u t)]) (fpeaks sha us @ [length ?ns]))"
    unfolding merge_peaks_last_two nl nr by (simp add: root_node_def)
  show ?case
  proof (cases "ht u = ht t")
    case False
    then show ?thesis using step by (simp only: ps if_True carry.simps if_False) simp
  next
    case True
    have "?ns @ [root_node sha (Fork u t)] = fnodes sha (Fork u t # us)"
      and "fpeaks sha us @ [length ?ns] = fpeaks sha (Fork u t # us)" by simp_all
    then show ?thesis
      using step Cons.IH [of "Fork u t"] True
      by (simp only: ps simp_thms if_True if_False carry.simps)
  qed
qed

section \<open>Shape of the forest\<close>

lemma fleaves_carry: "fleaves (carry t ts) = fleaves ts @ leaves t"
  by (induction ts arbitrary: t) auto

lemma fleaves_forest [simp]: "fleaves (forest hs) = hs"
  by (induction hs rule: rev_induct) (simp_all add: fleaves_carry)

lemma forest_ok_Nil [simp]: "forest_ok []"
  and forest_ok_Cons [simp]:
    "forest_ok (t # ts) \<longleftrightarrow> perfect t \<and> (\<forall>u \<in> set ts. ht t < ht u) \<and> forest_ok ts"
  by (auto simp: forest_ok_def)

lemma forest_ok_carry:
  "perfect t \<Longrightarrow> forest_ok ts \<Longrightarrow> \<forall>u \<in> set ts. ht t \<le> ht u \<Longrightarrow> forest_ok (carry t ts)"
proof (induction ts arbitrary: t)
  case (Cons u us)
  show ?case
  proof (cases "ht u = ht t")
    case True
    have "forest_ok (carry (Fork u t) us)"
    proof (rule Cons.IH)
      show "perfect (Fork u t)" "forest_ok us" using Cons.prems True by auto
      show "\<forall>v \<in> set us. ht (Fork u t) \<le> ht v" using Cons.prems(2) by (auto simp: Suc_le_eq)
    qed
    then show ?thesis using True by simp
  next
    case False
    then have "ht t < ht u" using Cons.prems(3) by simp
    then show ?thesis using Cons.prems False by (auto dest: less_trans)
  qed
qed simp

lemma forest_ok_forest: "forest_ok (forest hs)"
proof (induction hs rule: rev_induct)
  case Nil show ?case by simp
next
  case (snoc h hs)
  then show ?case by (simp add: forest_ok_carry)
qed

lemma fnodes_carry_prefix: "\<exists>ext. fnodes sha (carry t ts) = fnodes sha ts @ flat sha t @ ext"
proof (induction ts arbitrary: t)
  case (Cons u us)
  obtain ext where "fnodes sha (carry (Fork u t) us) = fnodes sha us @ flat sha (Fork u t) @ ext"
    using Cons.IH by blast
  then show ?case by auto
qed simp

text \<open>The array after \<open>k\<close> leaves is a prefix of every later one, and the next entry is leaf \<open>k\<close>.\<close>

lemma fnodes_split:
  "k < length hs \<Longrightarrow> \<exists>ext. fnodes sha (forest hs) =
     fnodes sha (forest (take k hs)) @ \<lparr>node_hash = hs ! k, node_height = 0\<rparr> # ext"
proof (induction hs rule: rev_induct)
  case (snoc h hs)
  obtain ext where ext: "fnodes sha (forest (hs @ [h])) = fnodes sha (forest hs) @ flat sha (Tip h) @ ext"
    using fnodes_carry_prefix [of sha "Tip h" "forest hs"] by auto
  show ?case
  proof (cases "k < length hs")
    case True
    then show ?thesis using snoc.IH ext by (auto simp: nth_append)
  next
    case False
    then have "k = length hs" using snoc.prems by simp
    then show ?thesis using ext by (simp add: nth_append)
  qed
qed simp

section \<open>The number of peaks is the number of one bits\<close>

lemma count_ones_0 [simp]: "count_ones 0 = 0"
  by (simp add: count_ones.simps)

lemma count_ones_rec: "count_ones n = n mod 2 + count_ones (n div 2)"
  by (cases "n = 0") (simp_all add: count_ones.simps [of n])

lemma count_ones_double [simp]: "count_ones (2 * n) = count_ones n"
  by (cases "n = 0") (simp_all add: count_ones.simps [of "2 * n"])

lemma count_ones_double_Suc [simp]: "count_ones (Suc (2 * n)) = Suc (count_ones n)"
  by (simp add: count_ones.simps [of "Suc (2 * n)"])

lemma count_ones_shift: "count_ones (2 ^ a * n) = count_ones n"
  by (induction a) (simp_all add: mult.assoc)

lemma count_ones_low_bit: "count_ones (2 ^ a + 2 ^ (a + 1) * q) = Suc (count_ones q)"
proof -
  have "2 ^ a + 2 ^ (a + 1) * q = 2 ^ a * Suc (2 * q)" by (simp add: algebra_simps)
  then show ?thesis by (simp only: count_ones_shift count_ones_double_Suc)
qed

lemma sum_powers_dvd:
  "\<forall>y \<in> set xs. a < y \<Longrightarrow> \<exists>q. sum_list (map (\<lambda>h. 2 ^ h) xs) = (2::nat) ^ (a + 1) * q"
proof (induction xs)
  case (Cons x xs)
  then obtain q where q: "sum_list (map (\<lambda>h. 2 ^ h) xs) = (2::nat) ^ (a + 1) * q" by auto
  have "a + 1 + (x - (a + 1)) = x" using Cons.prems by simp
  then have "(2::nat) ^ x = 2 ^ (a + 1) * 2 ^ (x - (a + 1))"
    by (metis power_add)
  then have "sum_list (map (\<lambda>h. 2 ^ h) (x # xs)) = 2 ^ (a + 1) * (2 ^ (x - (a + 1)) + q)"
    using q by (simp add: distrib_left)
  then show ?case by blast
qed simp

lemma count_ones_sorted:
  "sorted_wrt (<) xs \<Longrightarrow> count_ones (sum_list (map (\<lambda>h. 2 ^ h) xs)) = length xs"
proof (induction xs)
  case (Cons x xs)
  then obtain q where q: "sum_list (map (\<lambda>h. 2 ^ h) xs) = (2::nat) ^ (x + 1) * q"
    using sum_powers_dvd [of xs x] by auto
  have "count_ones q = length xs"
    using Cons q by (metis count_ones_shift sorted_wrt.simps(2))
  then show ?case using count_ones_low_bit [of x q] by (simp add: q)
qed simp

lemma length_fleaves_perfect:
  "\<forall>t \<in> set ts. perfect t \<Longrightarrow> length (fleaves ts) = sum_list (map (\<lambda>h. 2 ^ h) (map ht ts))"
  by (induction ts) (auto simp: length_leaves_perfect)

lemma length_forest: "length (forest hs) = count_ones (length hs)"
proof -
  have ok: "forest_ok (forest hs)" by (rule forest_ok_forest)
  then have "length hs = sum_list (map (\<lambda>h. 2 ^ h) (map ht (forest hs)))"
    using length_fleaves_perfect [of "forest hs"] by (simp add: forest_ok_def)
  then show ?thesis
    using count_ones_sorted [of "map ht (forest hs)"] ok by (simp add: forest_ok_def)
qed

lemma length_fnodes_forest: "length (fnodes sha (forest hs)) = 2 * length hs - count_ones (length hs)"
  using length_fnodes [of sha "forest hs"] by (simp add: length_forest)

lemma count_ones_le: "count_ones n \<le> n"
proof (induction n rule: count_ones.induct)
  case (1 n)
  show ?case
  proof (cases "n = 0")
    case False
    then have "count_ones (n div 2) \<le> n div 2" using "1.IH" by blast
    then show ?thesis using False by (simp add: count_ones.simps [of n])
  qed simp
qed

end
