(* ===== verification/Mmr_Climb.thy ===== *)
theory Mmr_Climb
  imports Mmr_Forest
begin

text \<open>
  The sibling search of \<^verbatim>\<open>collect_siblings\<close>. \<^verbatim>\<open>find_sibling\<close> probes one position to the right
  and one to the left and decides by the height stored there. The facts below show that in the
  post-order array of a forest of perfect trees this test never picks a wrong node, so the loop
  collects exactly the Merkle path from a leaf to its peak and stops there.
\<close>

section \<open>Leaf positions and paths inside a tree\<close>

primrec leaf_pos :: "ptree \<Rightarrow> nat \<Rightarrow> nat" where
  "leaf_pos (Tip h) k = 0"
| "leaf_pos (Fork l r) k =
     (if k < length (leaves l) then leaf_pos l k
      else 2 * length (leaves l) - 1 + leaf_pos r (k - length (leaves l)))"

primrec path_in :: "(bytes \<Rightarrow> bytes) \<Rightarrow> ptree \<Rightarrow> nat \<Rightarrow> (hash32 \<times> bool) list" where
  "path_in sha (Tip h) k = []"
| "path_in sha (Fork l r) k =
     (if k < length (leaves l) then path_in sha l k @ [(root_of sha r, True)]
      else path_in sha r (k - length (leaves l)) @ [(root_of sha l, False)])"

text \<open>The peak a leaf belongs to, with the leaf's index inside that tree.\<close>

fun peak_of :: "ptree list \<Rightarrow> nat \<Rightarrow> ptree \<times> nat" where
  "peak_of [] k = (Tip [], 0)"
| "peak_of (t # ts) k =
     (if k < length (fleaves ts) then peak_of ts k else (t, k - length (fleaves ts)))"

lemma fold_path_path_in:
  "k < length (leaves t) \<Longrightarrow> fold_path sha (leaves t ! k) (path_in sha t k) = root_of sha t"
proof (induction t arbitrary: k)
  case (Fork l r)
  show ?case
  proof (cases "k < length (leaves l)")
    case True
    then show ?thesis using Fork.IH(1) [OF True] by (simp add: fold_path_def nth_append)
  next
    case False
    then have "k - length (leaves l) < length (leaves r)" using Fork.prems by auto
    then show ?thesis using Fork.IH(2) False by (simp add: fold_path_def nth_append)
  qed
qed (simp add: fold_path_def)

lemma length_flat_eq: "length (flat sha t) = 2 * length (leaves t) - 1"
  using length_flat [of sha t] by simp

lemma nth_flat_leaf_pos:
  "k < length (leaves t) \<Longrightarrow>
     leaf_pos t k < length (flat sha t) \<and>
     flat sha t ! leaf_pos t k = \<lparr>node_hash = leaves t ! k, node_height = 0\<rparr>"
proof (induction t arbitrary: k)
  case (Fork l r)
  show ?case
  proof (cases "k < length (leaves l)")
    case True
    then show ?thesis using Fork.IH(1) [OF True] by (simp add: nth_append)
  next
    case False
    then have "k - length (leaves l) < length (leaves r)" using Fork.prems by auto
    moreover have "leaf_pos (Fork l r) k = length (flat sha l) + leaf_pos r (k - length (leaves l))"
      using False by (simp add: length_flat_eq)
    ultimately show ?thesis
      using Fork.IH(2) [of "k - length (leaves l)"] False by (simp add: nth_append less_Suc_eq)
  qed
qed simp

lemma count_ones_add_low:
  "k < 2 ^ a \<Longrightarrow> count_ones (2 ^ a * q + k) = count_ones q + count_ones k"
proof (induction a arbitrary: k)
  case (Suc a)
  have "(2 ^ Suc a * q + k) div 2 = 2 ^ a * q + k div 2" by (simp add: mult.assoc)
  moreover have "(2 ^ Suc a * q + k) mod 2 = k mod 2" by (simp add: mult.assoc)
  moreover have "count_ones (2 ^ a * q + k div 2) = count_ones q + count_ones (k div 2)"
    using Suc by simp
  ultimately show ?case
    using count_ones_rec [of "2 ^ Suc a * q + k"] count_ones_rec [of k] by simp
qed simp

lemma leaf_pos_formula:
  "perfect t \<Longrightarrow> k < length (leaves t) \<Longrightarrow> leaf_pos t k + count_ones k = 2 * k"
proof (induction t arbitrary: k)
  case (Fork l r)
  let ?n = "length (leaves l)"
  have n: "?n = 2 ^ ht l" "length (leaves r) = ?n"
    using Fork.prems length_leaves_perfect by auto
  show ?case
  proof (cases "k < ?n")
    case True
    then show ?thesis using Fork by simp
  next
    case False
    define j where "j = k - ?n"
    have k: "k = ?n + j" and j: "j < ?n" using False Fork.prems(2) n by (auto simp: j_def)
    have "count_ones k = Suc (count_ones j)"
      using count_ones_add_low [of j "ht l" 1] j n k count_ones_double_Suc [of 0] by simp
    moreover have "leaf_pos r j + count_ones j = 2 * j" using Fork j n by simp
    moreover obtain m where "?n = Suc m" by (cases ?n) auto
    ultimately show ?thesis using k by simp
  qed
qed simp

section \<open>Every node sits at the end of its own subtree\<close>

definition subtree_ends :: "mmr_node list \<Rightarrow> bool" where
  "subtree_ends ns \<longleftrightarrow>
     (\<forall>q < length ns. 2 ^ (node_height (ns ! q) + 1) \<le> q + 2 \<and>
        node_height (ns ! (q + 2 - 2 ^ (node_height (ns ! q) + 1))) = 0)"

lemma subtree_ends_append:
  assumes "subtree_ends xs" "subtree_ends ys" shows "subtree_ends (xs @ ys)"
  unfolding subtree_ends_def
proof (intro allI impI)
  fix q assume q: "q < length (xs @ ys)"
  let ?h = "node_height ((xs @ ys) ! q)" and ?zs = "xs @ ys"
  show "2 ^ (?h + 1) \<le> q + 2 \<and> node_height (?zs ! (q + 2 - 2 ^ (?h + 1))) = 0"
  proof (cases "q < length xs")
    case True
    then have h: "2 ^ (?h + 1) \<le> q + 2 \<and> node_height (xs ! (q + 2 - 2 ^ (?h + 1))) = 0"
      using assms(1) by (simp add: subtree_ends_def nth_append)
    have "(2::nat) \<le> 2 ^ (?h + 1)" by simp
    then have "q + 2 - 2 ^ (?h + 1) < length xs" using True by linarith
    then show ?thesis using h by (simp add: nth_append_left)
  next
    case False
    define p where "p = q - length xs"
    have p: "p < length ys" "q = length xs + p" using False q by (auto simp: p_def)
    then have h: "2 ^ (?h + 1) \<le> p + 2 \<and> node_height (ys ! (p + 2 - 2 ^ (?h + 1))) = 0"
      using assms(2) by (simp add: subtree_ends_def)
    then have "q + 2 - 2 ^ (?h + 1) = length xs + (p + 2 - 2 ^ (?h + 1))" using p by linarith
    then show ?thesis using h p by (simp only: nth_append_length_plus) linarith
  qed
qed

lemma flat_first: "node_height (flat sha t ! 0) = 0"
  by (induction t) (simp_all add: nth_append)

lemma subtree_ends_snoc_root:
  assumes "subtree_ends xs" "node_height (xs ! 0) = 0" "2 ^ (node_height x + 1) = length xs + 2" "xs \<noteq> []"
  shows "subtree_ends (xs @ [x])"
  using assms unfolding subtree_ends_def
proof (intro allI impI)
  fix q assume q: "q < length (xs @ [x])"
  let ?h = "node_height ((xs @ [x]) ! q)"
  show "2 ^ (?h + 1) \<le> q + 2 \<and> node_height ((xs @ [x]) ! (q + 2 - 2 ^ (?h + 1))) = 0"
  proof (cases "q < length xs")
    case True
    then have h: "2 ^ (?h + 1) \<le> q + 2 \<and> node_height (xs ! (q + 2 - 2 ^ (?h + 1))) = 0"
      using assms(1) by (simp add: subtree_ends_def nth_append)
    have "(2::nat) \<le> 2 ^ (?h + 1)" by simp
    then have "q + 2 - 2 ^ (?h + 1) < length xs" using True by linarith
    then show ?thesis using h by (simp add: nth_append_left)
  next
    case False
    then have "q = length xs" using q by simp
    then show ?thesis using assms(2-4) by (simp add: nth_append_left)
  qed
qed

lemma subtree_ends_flat: "perfect t \<Longrightarrow> subtree_ends (flat sha t)"
proof (induction t)
  case (Tip h)
  show ?case by (simp add: subtree_ends_def)
next
  case (Fork l r)
  let ?xs = "flat sha l @ flat sha r"
  have "subtree_ends (?xs @ [root_node sha (Fork l r)])"
  proof (rule subtree_ends_snoc_root)
    show "subtree_ends ?xs" using Fork by (simp add: subtree_ends_append)
    show "node_height (?xs ! 0) = 0" by (simp add: nth_append flat_first)
    have "length ?xs + 2 = 2 * length (leaves l) + 2 * length (leaves r)"
      using length_flat [of sha l] length_flat [of sha r] by simp
    then show "2 ^ (node_height (root_node sha (Fork l r)) + 1) = length ?xs + 2"
      using Fork.prems by (simp add: root_node_def length_leaves_perfect)
    show "?xs \<noteq> []" by simp
  qed
  then show ?case by simp
qed

lemma subtree_ends_fnodes: "forest_ok ts \<Longrightarrow> subtree_ends (fnodes sha ts)"
proof (induction ts)
  case Nil show ?case by (simp add: subtree_ends_def)
next
  case (Cons t ts)
  then show ?case by (simp add: subtree_ends_append subtree_ends_flat)
qed

section \<open>One round of the loop\<close>

lemma climb_step:
  "find_sibling ns pos h = Some sib \<Longrightarrow> find_parent ns pos sib = Some par \<Longrightarrow>
     climb ns pos h = (node_hash (ns ! sib), pos < sib) # climb ns par (h + 1)"
  by (simp add: climb.simps [of ns pos h])

lemma climb_stop: "find_sibling ns pos h = None \<Longrightarrow> climb ns pos h = []"
  by (simp add: climb.simps [of ns pos h])

lemma find_siblingI_right:
  assumes "2 ^ (h + 1) - 1 \<le> length ns" "pos + (2 ^ (h + 1) - 1) < length ns"
    "node_height (ns ! (pos + (2 ^ (h + 1) - 1))) = h"
  shows "find_sibling ns pos h = Some (pos + (2 ^ (h + 1) - 1))"
  using assms unfolding find_sibling_def Let_def by (simp only: min_absorb1) simp

lemma find_sibling_left_iff:
  assumes "2 ^ (h + 1) - 1 \<le> length ns"
    "\<not> (pos + (2 ^ (h + 1) - 1) < length ns \<and> node_height (ns ! (pos + (2 ^ (h + 1) - 1))) = h)"
  shows "find_sibling ns pos h =
    (if 2 ^ (h + 1) - 1 \<le> pos \<and> node_height (ns ! (pos - (2 ^ (h + 1) - 1))) = h
     then Some (pos - (2 ^ (h + 1) - 1)) else None)"
  using assms unfolding find_sibling_def Let_def by (simp only: min_absorb1) simp

text \<open>Positions of the two children and of their parent in an array that contains a fork.\<close>

lemma fork_nodes:
  assumes ns: "ns = pre @ flat sha (Fork l r) @ post" and p: "perfect (Fork l r)"
  defines "pl \<equiv> length pre + length (flat sha l) - 1"
    and "pr \<equiv> length pre + length (flat sha l) + length (flat sha r) - 1"
    and "s \<equiv> 2 ^ (ht l + 1) - 1"
  shows "ns ! pl = root_node sha l" "ns ! pr = root_node sha r"
    "ns ! (pr + 1) = root_node sha (Fork l r)" "pr = pl + s" "pr + 1 < length ns" "s \<le> pr"
    "pr + 1 = length pre + length (flat sha (Fork l r)) - 1" "ht r = ht l"
proof -
  have s: "length (flat sha l) = s" "length (flat sha r) = s"
    using p length_flat_perfect [of l sha] length_flat_perfect [of r sha] by (auto simp: s_def)
  have pos: "0 < s" using s flat_pos [of sha l] by simp
  show "ns ! pl = root_node sha l"
    using nth_root_mid [of pre sha l "flat sha r @ root_node sha (Fork l r) # post"]
    by (simp add: ns pl_def)
  show "ns ! pr = root_node sha r"
    using nth_root_mid [of "pre @ flat sha l" sha r "root_node sha (Fork l r) # post"]
    by (simp add: ns pr_def)
  have "pr + 1 = length (pre @ flat sha l @ flat sha r)" using s pos by (simp add: pr_def)
  moreover have "ns = (pre @ flat sha l @ flat sha r) @ root_node sha (Fork l r) # post"
    by (simp add: ns)
  ultimately show "ns ! (pr + 1) = root_node sha (Fork l r)" by (simp only: nth_append_length)
  show "pr = pl + s" "pr + 1 < length ns" "s \<le> pr"
    "pr + 1 = length pre + length (flat sha (Fork l r)) - 1" "ht r = ht l"
    using s pos p by (auto simp: pr_def pl_def ns)
qed

lemma climb_from_left:
  assumes ns: "ns = pre @ flat sha (Fork l r) @ post" and p: "perfect (Fork l r)"
  shows "climb ns (length pre + length (flat sha l) - 1) (ht l) =
    (root_of sha r, True) # climb ns (length pre + length (flat sha (Fork l r)) - 1) (ht l + 1)"
proof -
  define pl where "pl = length pre + length (flat sha l) - 1"
  define pr where "pr = length pre + length (flat sha l) + length (flat sha r) - 1"
  define s where "s = (2::nat) ^ (ht l + 1) - 1"
  note f = fork_nodes [OF ns p, folded pl_def pr_def s_def]
  note right = find_siblingI_right [of "ht l" ns pl, folded s_def]
  have sib: "find_sibling ns pl (ht l) = Some pr"
    using right f by (simp add: root_node_def)
  have par: "find_parent ns pl pr = Some (pr + 1)"
    using f by (simp add: find_parent_def Let_def root_node_def)
  have "(1::nat) < 2 ^ (ht l + 1)" by (rule one_less_power) simp_all
  then have "0 < s" unfolding s_def by linarith
  then have "pl < pr" using f(4) by simp
  then show ?thesis
    using climb_step [OF sib par] f(2,7) by (simp only: pl_def [symmetric]) (simp add: root_node_def)
qed

lemma climb_from_right:
  assumes ns: "ns = pre @ flat sha (Fork l r) @ post" and p: "perfect (Fork l r)"
    and ends: "subtree_ends ns"
  shows "climb ns (length pre + length (flat sha l) + length (flat sha r) - 1) (ht l) =
    (root_of sha l, False) # climb ns (length pre + length (flat sha (Fork l r)) - 1) (ht l + 1)"
proof -
  define pl where "pl = length pre + length (flat sha l) - 1"
  define pr where "pr = length pre + length (flat sha l) + length (flat sha r) - 1"
  define s where "s = (2::nat) ^ (ht l + 1) - 1"
  note f = fork_nodes [OF ns p, folded pl_def pr_def s_def]
  have s2: "s + 2 - 2 ^ (ht l + 1) = 1" "2 ^ (ht l + 1) \<le> s + 1"
    using one_le_power [of "2::nat" "ht l + 1"] by (auto simp: s_def)
  have no_right: "\<not> (pr + s < length ns \<and> node_height (ns ! (pr + s)) = ht l)"
  proof
    assume a: "pr + s < length ns \<and> node_height (ns ! (pr + s)) = ht l"
    then have "node_height (ns ! (pr + s + 2 - 2 ^ (ht l + 1))) = 0"
      using ends unfolding subtree_ends_def by metis
    moreover have "pr + s + 2 - 2 ^ (ht l + 1) = pr + 1" using s2 by linarith
    ultimately show False using f(3) by (simp add: root_node_def)
  qed
  have sib: "find_sibling ns pr (ht l) = Some pl"
    using find_sibling_left_iff [of "ht l" ns pr, folded s_def, OF _ no_right] f
    by (simp add: root_node_def)
  have par: "find_parent ns pr pl = Some (pr + 1)"
    using f by (simp add: find_parent_def Let_def root_node_def)
  have "\<not> pr < pl" using f(4) by linarith
  then show ?thesis
    using climb_step [OF sib par] f(1,7) by (simp only: pr_def [symmetric]) (simp add: root_node_def)
qed

text \<open>From a leaf the loop collects the path of its tree and then continues at the root.\<close>

lemma climb_tree:
  "perfect t \<Longrightarrow> subtree_ends ns \<Longrightarrow> ns = pre @ flat sha t @ post \<Longrightarrow> k < length (leaves t) \<Longrightarrow>
     climb ns (length pre + leaf_pos t k) 0 =
     path_in sha t k @ climb ns (length pre + length (flat sha t) - 1) (ht t)"
proof (induction t arbitrary: pre post k)
  case (Fork l r)
  show ?case
  proof (cases "k < length (leaves l)")
    case True
    have "climb ns (length pre + leaf_pos l k) 0 =
        path_in sha l k @ climb ns (length pre + length (flat sha l) - 1) (ht l)"
      by (rule Fork.IH(1) [where post = "flat sha r @ root_node sha (Fork l r) # post"])
         (use Fork.prems True in auto)
    then show ?thesis using climb_from_left [OF Fork.prems(3,1)] True by simp
  next
    case False
    let ?j = "k - length (leaves l)"
    have "climb ns (length (pre @ flat sha l) + leaf_pos r ?j) 0 =
        path_in sha r ?j @ climb ns (length (pre @ flat sha l) + length (flat sha r) - 1) (ht r)"
      by (rule Fork.IH(2) [where post = "root_node sha (Fork l r) # post"])
         (use Fork.prems False in auto)
    moreover have "length pre + leaf_pos (Fork l r) k = length (pre @ flat sha l) + leaf_pos r ?j"
      using False by (simp add: length_flat_eq)
    ultimately show ?thesis
      using climb_from_right [OF Fork.prems(3,1,2)] False Fork.prems(1)
      by (simp only: length_append add.assoc) simp
  qed
qed simp

end
