(* ===== verification/Mmr_Props.thy ===== *)
theory Mmr_Props
  imports Mmr_Climb
begin

text \<open>
  Correctness of the Merkle Mountain Range. A state represents the list of the leaf hashes
  appended to it (\<open>mmr_repr\<close>); every public operation keeps that relation, whatever the order
  of the calls. From it follow the leaf positions, the inclusion proofs and the two-plane
  nullification.
\<close>

section \<open>What a state represents\<close>

definition mmr_repr :: "(bytes \<Rightarrow> bytes) \<Rightarrow> hash32 list \<Rightarrow> mmr \<Rightarrow> bool" where
  "mmr_repr sha hs m \<longleftrightarrow>
     nodes m = fnodes sha (forest hs) \<and> peaks m = fpeaks sha (forest hs) \<and>
     leaf_count m = length hs \<and> nullified m \<subseteq> {..<length hs}"

lemma mmr_repr_new: "mmr_repr sha [] mmr_new"
  by (simp add: mmr_repr_def mmr_new_def)

lemma mmr_append_repr:
  assumes "mmr_repr sha hs m"
  shows "fst (mmr_append sha m h) = length hs" "mmr_repr sha (hs @ [h]) (snd (mmr_append sha m h))"
proof -
  have "nodes m @ [\<lparr>node_hash = h, node_height = 0\<rparr>] = fnodes sha (Tip h # forest hs)"
    "peaks m @ [length (nodes m)] = fpeaks sha (Tip h # forest hs)"
    using assms by (auto simp: mmr_repr_def)
  then have "merge_peaks sha (nodes m @ [\<lparr>node_hash = h, node_height = 0\<rparr>]) (peaks m @ [length (nodes m)])
      = (fnodes sha (forest (hs @ [h])), fpeaks sha (forest (hs @ [h])))"
    using merge_peaks_carry [of sha "Tip h" "forest hs"] by simp
  then show "fst (mmr_append sha m h) = length hs" "mmr_repr sha (hs @ [h]) (snd (mmr_append sha m h))"
    using assms by (auto simp: mmr_append_def Let_def mmr_repr_def)
qed

lemma nullify_repr: "mmr_repr sha hs m \<Longrightarrow> mmr_repr sha hs (snd (nullify m k))"
  by (auto simp: mmr_repr_def nullify_def)

lemma seal_repr: "mmr_repr sha hs m \<Longrightarrow> mmr_repr sha hs (snd (seal_epoch sha m))"
  by (auto simp: mmr_repr_def seal_epoch_def)

interpretation mmr_acc: accumulator
  "\<lambda>m h. snd (mmr_append sha m h)" "\<lambda>h. True" "mmr_repr sha" for sha
  by unfold_locales (rule mmr_append_repr)

text \<open>Sequences of calls, in any order.\<close>

datatype mmr_op = Append hash32 | Seal | Nullify nat

fun mmr_step :: "(bytes \<Rightarrow> bytes) \<Rightarrow> mmr \<Rightarrow> mmr_op \<Rightarrow> mmr" where
  "mmr_step sha m (Append h) = snd (mmr_append sha m h)"
| "mmr_step sha m Seal = snd (seal_epoch sha m)"
| "mmr_step sha m (Nullify k) = snd (nullify m k)"

definition mmr_exec :: "(bytes \<Rightarrow> bytes) \<Rightarrow> mmr_op list \<Rightarrow> mmr" where
  "mmr_exec sha ops = foldl (mmr_step sha) mmr_new ops"

fun appended :: "mmr_op list \<Rightarrow> hash32 list" where
  "appended [] = []"
| "appended (Append h # ops) = h # appended ops"
| "appended (Seal # ops) = appended ops"
| "appended (Nullify k # ops) = appended ops"

lemma mmr_run_repr:
  "mmr_repr sha hs m \<Longrightarrow> mmr_repr sha (hs @ appended ops) (foldl (mmr_step sha) m ops)"
proof (induction ops arbitrary: m hs)
  case (Cons x ops)
  then show ?case
  proof (cases x)
    case (Append h)
    have "mmr_repr sha ((hs @ [h]) @ appended ops) (foldl (mmr_step sha) (mmr_step sha m x) ops)"
      using Cons Append by (intro Cons.IH) (simp add: mmr_append_repr)
    then show ?thesis using Append by simp
  qed (auto intro: Cons.IH nullify_repr seal_repr)
qed simp

lemma mmr_exec_repr: "mmr_repr sha (appended ops) (mmr_exec sha ops)"
  unfolding mmr_exec_def using mmr_run_repr [OF mmr_repr_new] by fastforce

section \<open>Forests split at a peak\<close>

lemma fnodes_append: "fnodes sha (news @ olds) = fnodes sha olds @ fnodes sha news"
  by (induction news) auto

lemma fleaves_append: "fleaves (news @ olds) = fleaves olds @ fleaves news"
  by (induction news) auto

lemma peak_of_split:
  "k < length (fleaves ts) \<Longrightarrow> peak_of ts k = (t, j) \<Longrightarrow>
     \<exists>news olds. ts = news @ t # olds \<and> k = length (fleaves olds) + j \<and> j < length (leaves t)"
proof (induction ts)
  case (Cons u us)
  show ?case
  proof (cases "k < length (fleaves us)")
    case True
    then obtain news olds where "us = news @ t # olds" "k = length (fleaves olds) + j" "j < length (leaves t)"
      using Cons by auto
    then show ?thesis by (metis append_Cons)
  next
    case False
    then have "u # us = [] @ t # us" "k = length (fleaves us) + j" "j < length (leaves t)"
      using Cons.prems by auto
    then show ?thesis by blast
  qed
qed simp

lemma forest_ok_split:
  assumes "forest_ok (news @ t # olds)"
  shows "perfect t" "\<forall>u \<in> set news. perfect u \<and> ht u < ht t" "\<forall>u \<in> set olds. ht t < ht u"
    "forest_ok olds"
  using assms by (auto simp: forest_ok_def sorted_wrt_append)

lemma flat_heights: "perfect t \<Longrightarrow> n \<in> set (flat sha t) \<Longrightarrow> node_height n \<le> ht t"
  by (induction t) (auto simp: root_node_def)

lemma fnodes_heights:
  "\<forall>u \<in> set ts. perfect u \<and> ht u < h \<Longrightarrow> n \<in> set (fnodes sha ts) \<Longrightarrow> node_height n < h"
  by (induction ts) (auto dest: flat_heights)

lemma fnodes_last: "fnodes sha (u # us) ! (length (fnodes sha (u # us)) - 1) = root_node sha u"
  using nth_root_mid [of "fnodes sha us" sha u "[]"] by simp

text \<open>The position formula of the source is the position of the leaf in its tree.\<close>

lemma leaf_position:
  assumes ok: "forest_ok (news @ t # olds)" and j: "j < length (leaves t)"
  defines "k \<equiv> length (fleaves olds) + j"
  shows "2 * k - count_ones k = length (fnodes sha olds) + leaf_pos t j"
proof -
  note sp = forest_ok_split [OF ok]
  have "\<forall>y \<in> set (map ht olds). ht t < y" using sp(3) by simp
  then obtain q where q: "sum_list (map (\<lambda>h. 2 ^ h) (map ht olds)) = (2::nat) ^ (ht t + 1) * q"
    using sum_powers_dvd by blast
  have len: "length (fleaves olds) = 2 ^ (ht t + 1) * q"
    using length_fleaves_perfect [of olds] sp(4) q by (simp add: forest_ok_def)
  have "j < 2 ^ (ht t + 1)" using j length_leaves_perfect [OF sp(1)] by simp
  then have "count_ones k = count_ones q + count_ones j"
    unfolding k_def len by (rule count_ones_add_low)
  moreover have "count_ones q = length olds"
    using count_ones_sorted [of "map ht olds"] sp(4) q count_ones_shift [of "ht t + 1" q]
    by (simp add: forest_ok_def)
  moreover have "leaf_pos t j + count_ones j = 2 * j" by (rule leaf_pos_formula [OF sp(1) j])
  ultimately show ?thesis using length_fnodes [of sha olds] by (simp add: k_def)
qed

lemma peak_has_no_sibling:
  assumes ok: "forest_ok (news @ t # olds)"
  shows "find_sibling (fnodes sha (news @ t # olds))
           (length (fnodes sha olds) + length (flat sha t) - 1) (ht t) = None"
proof -
  define ns where "ns = fnodes sha (news @ t # olds)"
  define s where "s = (2::nat) ^ (ht t + 1) - 1"
  define pos where "pos = length (fnodes sha olds) + length (flat sha t) - 1"
  note sp = forest_ok_split [OF ok]
  have s: "length (flat sha t) = s" "0 < s"
    using length_flat_perfect [OF sp(1)] flat_pos [of sha t] by (auto simp: s_def)
  have ns: "ns = fnodes sha olds @ flat sha t @ fnodes sha news" by (simp add: ns_def fnodes_append)
  have no_right: "\<not> (pos + s < length ns \<and> node_height (ns ! (pos + s)) = ht t)"
  proof
    assume a: "pos + s < length ns \<and> node_height (ns ! (pos + s)) = ht t"
    define i where "i = s - 1"
    have "pos + s = length (fnodes sha olds @ flat sha t) + i" using s by (simp add: pos_def i_def)
    then have "ns ! (pos + s) = fnodes sha news ! i" "i < length (fnodes sha news)"
      using a by (simp_all only: ns append_assoc [symmetric] nth_append_length_plus) simp
    then have "ns ! (pos + s) \<in> set (fnodes sha news)" by simp
    then show False using fnodes_heights [OF sp(2)] a by fastforce
  qed
  have no_left: "\<not> (s \<le> pos \<and> node_height (ns ! (pos - s)) = ht t)"
  proof
    assume a: "s \<le> pos \<and> node_height (ns ! (pos - s)) = ht t"
    have "olds \<noteq> []"
    proof
      assume "olds = []"
      then have "pos = s - 1" using s(1) by (simp only: pos_def) simp
      then show False using a s(2) by linarith
    qed
    then obtain u us where olds: "olds = u # us" by (cases olds) auto
    have "pos - s = length (fnodes sha olds) - 1" using s by (simp add: pos_def)
    moreover have "length (fnodes sha olds) - 1 < length (fnodes sha olds)" using olds by simp
    ultimately have "ns ! (pos - s) = root_node sha u"
      using fnodes_last [of sha u us] olds by (simp only: ns nth_append_left)
    then show False using a sp(3) olds by (auto simp: root_node_def)
  qed
  have "s \<le> length ns" using s by (simp add: ns)
  then show ?thesis
    using find_sibling_left_iff [of "ht t" ns pos, folded s_def, OF _ no_right] no_left
    by (simp only: ns_def pos_def if_False)
qed

section \<open>Roots and proofs\<close>

definition bag :: "(bytes \<Rightarrow> bytes) \<Rightarrow> hash32 list \<Rightarrow> hash32" where
  "bag sha rs = foldl (merge_hashes sha) (hd rs) (tl rs)"

definition peak_roots :: "(bytes \<Rightarrow> bytes) \<Rightarrow> hash32 list \<Rightarrow> hash32 list" where
  "peak_roots sha hs = rev (map (root_of sha) (forest hs))"

lemma bag_peaks_bag:
  "peaks m \<noteq> [] \<Longrightarrow> bag_peaks sha m = bag sha (map (\<lambda>i. node_hash (nodes m ! i)) (peaks m))"
  by (cases "peaks m") (simp_all add: bag_peaks_def bag_def foldl_map)

lemma peak_hashes:
  "map (\<lambda>i. node_hash ((fnodes sha ts @ ext) ! i)) (fpeaks sha ts) = rev (map (root_of sha) ts)"
proof (induction ts arbitrary: ext)
  case (Cons t ts)
  have "(fnodes sha ts @ flat sha t @ ext) ! (length (fnodes sha ts) + length (flat sha t) - 1)
      = root_node sha t"
    by (rule nth_root_mid)
  then show ?case using Cons.IH [of "flat sha t @ ext"] by (simp add: root_node_def)
qed simp

lemma forest_ne: "hs \<noteq> [] \<Longrightarrow> forest hs \<noteq> []"
  using fleaves_forest [of hs] by (metis fleaves.simps(1))

lemma fpeaks_ne: "hs \<noteq> [] \<Longrightarrow> fpeaks sha (forest hs) \<noteq> []"
  using forest_ne [of hs] length_fpeaks [of sha "forest hs"] by (metis length_0_conv)

lemma bag_peaks_repr:
  assumes "mmr_repr sha hs m" "hs \<noteq> []"
  shows "bag_peaks sha m = bag sha (peak_roots sha hs)"
  using assms bag_peaks_bag [of m sha] peak_hashes [of sha "forest hs" "[]"] fpeaks_ne [of hs sha]
  by (simp add: mmr_repr_def peak_roots_def)

lemma current_root_repr:
  "mmr_repr sha hs m \<Longrightarrow>
     current_root sha m = (if hs = [] then None else Some (bag sha (peak_roots sha hs)))"
  using bag_peaks_repr [of sha hs m] fpeaks_ne [of hs sha]
  by (auto simp: current_root_def mmr_repr_def)

lemma leaf_lookup_repr:
  assumes r: "mmr_repr sha hs m" and k: "k < length hs"
  obtains p where "leaf_node_pos m k = Some p" "p < length (nodes m)"
    "nodes m ! p = \<lparr>node_hash = hs ! k, node_height = 0\<rparr>"
proof -
  obtain ext where ns: "fnodes sha (forest hs) =
      fnodes sha (forest (take k hs)) @ \<lparr>node_hash = hs ! k, node_height = 0\<rparr> # ext"
    using fnodes_split [OF k] by blast
  have len: "length (fnodes sha (forest (take k hs))) = 2 * k - count_ones k"
    using k by (simp add: length_fnodes_forest)
  have "fnodes sha (forest hs) ! (2 * k - count_ones k) = \<lparr>node_hash = hs ! k, node_height = 0\<rparr>"
    "2 * k - count_ones k < length (fnodes sha (forest hs))"
    by (simp_all add: ns flip: len)
  then show ?thesis
    using r k by (intro that [of "2 * k - count_ones k"]) (simp_all add: leaf_node_pos_def mmr_repr_def)
qed

lemma collect_repr:
  assumes r: "mmr_repr sha hs m" and k: "k < length hs" and pk: "peak_of (forest hs) k = (t, j)"
    and p: "leaf_node_pos m k = Some p"
  shows "collect_siblings m p = path_in sha t j" "hs ! k = leaves t ! j" "j < length (leaves t)"
proof -
  obtain news olds where sp: "forest hs = news @ t # olds" "k = length (fleaves olds) + j"
      "j < length (leaves t)"
    using peak_of_split [of k "forest hs"] k pk by auto
  note ok = forest_ok_forest [of hs, unfolded sp(1)]
  have ns: "nodes m = fnodes sha olds @ flat sha t @ fnodes sha news"
    using r sp(1) by (simp add: mmr_repr_def fnodes_append)
  have pos: "p = length (fnodes sha olds) + leaf_pos t j"
    using p leaf_position [OF ok sp(3), of sha] sp(2) k r
    by (simp add: leaf_node_pos_def mmr_repr_def split: if_splits)
  have "node_height (nodes m ! p) = 0"
    using leaf_lookup_repr [OF r k] p by (metis mmr_node.select_convs(2) option.inject)
  then have "collect_siblings m p = climb (nodes m) (length (fnodes sha olds) + leaf_pos t j) 0"
    by (simp add: collect_siblings_def pos)
  also have "\<dots> = path_in sha t j @
      climb (nodes m) (length (fnodes sha olds) + length (flat sha t) - 1) (ht t)"
  proof (rule climb_tree [OF forest_ok_split(1) [OF ok] _ ns sp(3)])
    show "subtree_ends (nodes m)"
      using subtree_ends_fnodes [OF forest_ok_forest, of sha hs] r by (simp add: mmr_repr_def)
  qed
  also have "\<dots> = path_in sha t j"
    using climb_stop [OF peak_has_no_sibling [OF ok]] r sp(1) by (simp add: mmr_repr_def)
  finally show "collect_siblings m p = path_in sha t j" .
  have "hs = fleaves olds @ leaves t @ fleaves news"
    using fleaves_forest [of hs] sp(1) by (simp add: fleaves_append)
  then have "hs ! k = (fleaves olds @ leaves t @ fleaves news) ! (length (fleaves olds) + j)"
    using sp(2) by simp
  then show "hs ! k = leaves t ! j" using sp(3) by (simp only: nth_append_length_plus nth_append_left)
  show "j < length (leaves t)" by (rule sp(3))
qed

lemma generate_proof_repr:
  assumes r: "mmr_repr sha hs m" and k: "k < length hs" and pk: "peak_of (forest hs) k = (t, j)"
  shows "generate_proof sha m k =
    Inr \<lparr>proof_index = k, proof_leaf = hs ! k, proof_siblings = path_in sha t j,
         proof_root = bag sha (peak_roots sha hs)\<rparr>"
    and "fold_path sha (hs ! k) (path_in sha t j) = root_of sha t"
proof -
  obtain p where p: "leaf_node_pos m k = Some p" "nodes m ! p = \<lparr>node_hash = hs ! k, node_height = 0\<rparr>"
    using leaf_lookup_repr [OF r k] by metis
  note c = collect_repr [OF r k pk p(1)]
  have "hs \<noteq> []" using k by auto
  then show "generate_proof sha m k =
    Inr \<lparr>proof_index = k, proof_leaf = hs ! k, proof_siblings = path_in sha t j,
         proof_root = bag sha (peak_roots sha hs)\<rparr>"
    using p c(1) k r current_root_repr [OF r] by (simp add: generate_proof_def mmr_repr_def)
  show "fold_path sha (hs ! k) (path_in sha t j) = root_of sha t"
    using fold_path_path_in [OF c(3)] c(2) by simp
qed

lemma generate_proof_ok:
  assumes r: "mmr_repr sha hs m" and k: "k < length hs"
  obtains p where "generate_proof sha m k = Inr p" "proof_leaf p = hs ! k"
    "proof_root p = bag sha (peak_roots sha hs)"
    "fold_path sha (proof_leaf p) (proof_siblings p) = root_of sha (fst (peak_of (forest hs) k))"
proof -
  obtain t j where pk: "peak_of (forest hs) k = (t, j)" by fastforce
  show ?thesis using generate_proof_repr [OF r k pk] that pk by simp
qed

text \<open>A power of two of leaves is one perfect tree.\<close>

lemma single_peak:
  assumes "length hs = 2 ^ n" "k < length hs"
  shows "bag sha (peak_roots sha hs) = root_of sha (fst (peak_of (forest hs) k))"
proof -
  have "length (forest hs) = 1"
    using length_forest [of hs] count_ones_shift [of n 1] count_ones_double_Suc [of 0] assms(1) by simp
  then obtain t where "forest hs = [t]" by (auto simp: length_Suc_conv)
  then show ?thesis by (simp add: peak_roots_def bag_def)
qed

text \<open>
  The shift \<^verbatim>\<open>1usize << (height + 1)\<close> of \<^verbatim>\<open>find_sibling\<close>: every height stored in the array is
  small enough that \<open>2 ^ (height + 1)\<close> does not exceed the length of the array by more than one.
\<close>

lemma sibling_shift_in_range:
  assumes "mmr_repr sha hs m" "q < length (nodes m)"
  shows "2 ^ (node_height (nodes m ! q) + 1) \<le> length (nodes m) + 1"
proof -
  have "2 ^ (node_height (nodes m ! q) + 1) \<le> q + 2"
    using subtree_ends_fnodes [OF forest_ok_forest, of sha hs] assms
    unfolding subtree_ends_def mmr_repr_def by simp
  then show ?thesis using assms(2) by linarith
qed

end
