(* ===== verification/Mmr_Theorems.thy ===== *)
theory Mmr_Theorems
  imports Mmr_Props
begin

text \<open>
  The properties of the Merkle Mountain Range, stated over every sequence of calls
  (\<open>mmr_exec sha ops\<close>, whose leaves are \<open>appended ops\<close>) and over every hash function.
\<close>

lemma merge_peaks_prefix: "\<exists>ext. fst (merge_peaks sha ns ps) = ns @ ext"
proof (induction sha ns ps rule: merge_peaks.induct)
  case (1 sha ns ps)
  show ?case
  proof (cases "length ps < 2 \<or>
      node_height (ns ! (ps ! (length ps - 2))) \<noteq> node_height (ns ! (ps ! (length ps - 1)))")
    case True
    then show ?thesis by (subst merge_peaks.simps) (auto simp: Let_def)
  next
    case False
    then show ?thesis using "1.IH" by (subst merge_peaks.simps) (simp add: Let_def, blast)
  qed
qed

lemma append_prefix:
  "\<exists>ext. nodes (snd (mmr_append sha m h)) = nodes m @ \<lparr>node_hash = h, node_height = 0\<rparr> # ext"
proof -
  let ?ns = "nodes m @ [\<lparr>node_hash = h, node_height = 0\<rparr>]"
  obtain ext where "fst (merge_peaks sha ?ns (peaks m @ [length (nodes m)])) = ?ns @ ext"
    using merge_peaks_prefix by blast
  then show ?thesis by (auto simp: mmr_append_def Let_def split: prod.splits)
qed

lemma step_prefix: "\<exists>ext. nodes (mmr_step sha m x) = nodes m @ ext"
proof (cases x)
  case (Append h)
  then show ?thesis using append_prefix [of sha m h] by auto
qed (auto simp: seal_epoch_def nullify_def)

text \<open>
  C1: after any sequence of appends, seals and nullifications the flat node array is the
  post-order listing of a forest of perfect trees over the appended hashes (binary addition with
  carries), the peaks are the positions of its roots and the counter is the number of leaves.
\<close>

theorem mmr_refines_forest:
  "nodes (mmr_exec sha ops) = fnodes sha (forest (appended ops)) \<and>
   peaks (mmr_exec sha ops) = fpeaks sha (forest (appended ops)) \<and>
   leaf_count (mmr_exec sha ops) = length (appended ops) \<and>
   forest_ok (forest (appended ops)) \<and> fleaves (forest (appended ops)) = appended ops"
  using mmr_exec_repr [of sha ops] forest_ok_forest by (simp add: mmr_repr_def)

text \<open>
  C2: the constant-time position formula is right: for every leaf index the computed position is
  inside the array and holds the leaf's own hash at height 0 (the two debug assertions of
  \<^verbatim>\<open>leaf_node_pos\<close> never fire), \<^verbatim>\<open>get_leaf\<close> returns that hash whether or not the leaf is nullified,
  and out-of-range indices give \<^verbatim>\<open>None\<close>.
\<close>

theorem mmr_leaf_lookup:
  "(\<forall>k < length (appended ops).
      (\<exists>p. leaf_node_pos (mmr_exec sha ops) k = Some p \<and> p < length (nodes (mmr_exec sha ops)) \<and>
           nodes (mmr_exec sha ops) ! p = \<lparr>node_hash = appended ops ! k, node_height = 0\<rparr>) \<and>
      get_leaf (mmr_exec sha ops) k =
        Some \<lparr>info_hash = appended ops ! k, info_nullified = is_nullified (mmr_exec sha ops) k,
              info_index = k\<rparr>) \<and>
   (\<forall>k \<ge> length (appended ops). get_leaf (mmr_exec sha ops) k = None)"
proof -
  let ?m = "mmr_exec sha ops" and ?hs = "appended ops"
  note r = mmr_exec_repr [of sha ops]
  have "(\<exists>p. leaf_node_pos ?m k = Some p \<and> p < length (nodes ?m) \<and>
           nodes ?m ! p = \<lparr>node_hash = ?hs ! k, node_height = 0\<rparr>) \<and>
      get_leaf ?m k = Some \<lparr>info_hash = ?hs ! k, info_nullified = is_nullified ?m k, info_index = k\<rparr>"
    if less: "k < length ?hs" for k
  proof -
    obtain p where p: "leaf_node_pos ?m k = Some p" "p < length (nodes ?m)"
        "nodes ?m ! p = \<lparr>node_hash = ?hs ! k, node_height = 0\<rparr>"
      using leaf_lookup_repr [OF r less] .
    moreover have "\<not> leaf_count ?m \<le> k" using r less by (simp add: mmr_repr_def)
    ultimately show ?thesis by (simp add: get_leaf_def is_nullified_def)
  qed
  moreover have "\<forall>k \<ge> length ?hs. get_leaf ?m k = None"
    using r by (simp add: get_leaf_def mmr_repr_def)
  ultimately show ?thesis by blast
qed

theorem mmr_leaf_lookup_witness:
  "get_leaf (mmr_exec (\<lambda>x. x) [Append [7], Append [8], Nullify 1]) 1 =
     Some \<lparr>info_hash = [8], info_nullified = True, info_index = 1\<rparr>"
proof -
  have "get_leaf (mmr_exec (\<lambda>x. x) [Append [7], Append [8], Nullify 1]) 1 =
     Some \<lparr>info_hash = [8], info_nullified = is_nullified (mmr_exec (\<lambda>x. x) [Append [7], Append [8], Nullify 1]) 1,
           info_index = 1\<rparr>"
    using mmr_leaf_lookup [of "[Append [7], Append [8], Nullify 1]" "\<lambda>x. x"] by simp
  moreover have "leaf_count (mmr_exec (\<lambda>x. x) [Append [7], Append [8]]) = 2"
    using mmr_exec_repr [of "\<lambda>x. x" "[Append [7], Append [8]]"] by (simp add: mmr_repr_def)
  then have "is_nullified (mmr_exec (\<lambda>x. x) [Append [7], Append [8], Nullify 1]) 1"
    by (simp add: mmr_exec_def is_nullified_def nullify_def)
  ultimately show ?thesis by simp
qed

text \<open>
  The node array is append-only from every state, well-formed or not: whatever calls follow,
  the nodes already written stay where they are and unchanged.
\<close>

theorem mmr_nodes_append_only:
  "\<exists>ext. nodes (foldl (mmr_step sha) m ops) = nodes m @ ext"
proof (induction ops arbitrary: m)
  case (Cons x ops)
  obtain e where "nodes (mmr_step sha m x) = nodes m @ e" using step_prefix by blast
  moreover obtain f where "nodes (foldl (mmr_step sha) (mmr_step sha m x) ops) = nodes (mmr_step sha m x) @ f"
    using Cons.IH by blast
  ultimately show ?case by simp
qed simp

text \<open>
  C3: an inclusion proof exists for every leaf; its siblings lead from the leaf's hash exactly to
  the root of the peak the leaf lies under, and it therefore verifies against the epoch root it
  carries exactly when that peak's root equals the bagged root of all peaks.
\<close>

theorem mmr_proof_reaches_peak:
  assumes "k < length (appended ops)"
  shows "\<exists>p. generate_proof sha (mmr_exec sha ops) k = Inr p \<and> proof_leaf p = appended ops ! k \<and>
     fold_path sha (proof_leaf p) (proof_siblings p) =
       root_of sha (fst (peak_of (forest (appended ops)) k)) \<and>
     Some (proof_root p) = current_root sha (mmr_exec sha ops) \<and>
     (verify_proof sha p (proof_root p) \<longleftrightarrow>
        root_of sha (fst (peak_of (forest (appended ops)) k)) = bag sha (peak_roots sha (appended ops)))"
proof -
  note r = mmr_exec_repr [of sha ops]
  obtain p where p: "generate_proof sha (mmr_exec sha ops) k = Inr p" "proof_leaf p = appended ops ! k"
    "proof_root p = bag sha (peak_roots sha (appended ops))"
    "fold_path sha (proof_leaf p) (proof_siblings p) = root_of sha (fst (peak_of (forest (appended ops)) k))"
    using generate_proof_ok [OF r assms] .
  have "appended ops \<noteq> []" using assms by auto
  then have "current_root sha (mmr_exec sha ops) = Some (proof_root p)"
    using current_root_repr [OF r] p(3) by simp
  then show ?thesis using p by (intro exI [of _ p]) (simp add: verify_proof_def)
qed

theorem mmr_proof_reaches_peak_witness:
  "\<exists>p. generate_proof (\<lambda>x. x) (mmr_exec (\<lambda>x. x) [Append [1], Append [2], Append [3]]) 2 = Inr p \<and>
     proof_leaf p = [3]"
  using mmr_proof_reaches_peak [of 2 "[Append [1], Append [2], Append [3]]" "\<lambda>x. x"]
  by (auto simp: numeral_2_eq_2)

text \<open>
  C4: when the number of leaves is a power of two, the proof of every leaf verifies against the
  current root, and still does after any leaf is nullified.
\<close>

theorem mmr_full_tree_proofs_verify:
  assumes "length (appended ops) = 2 ^ n" and "k < length (appended ops)"
  shows "\<exists>p root. generate_proof sha (mmr_exec sha ops) k = Inr p \<and>
     current_root sha (snd (nullify (mmr_exec sha ops) i)) = Some root \<and> verify_proof sha p root"
proof -
  note r = mmr_exec_repr [of sha ops]
  obtain p where p: "generate_proof sha (mmr_exec sha ops) k = Inr p"
    "fold_path sha (proof_leaf p) (proof_siblings p) = root_of sha (fst (peak_of (forest (appended ops)) k))"
    using generate_proof_ok [OF r assms(2)] .
  have "appended ops \<noteq> []" using assms(2) by auto
  then have "current_root sha (snd (nullify (mmr_exec sha ops) i)) = Some (bag sha (peak_roots sha (appended ops)))"
    using current_root_repr [OF nullify_repr [OF r]] by simp
  then show ?thesis using p single_peak [OF assms] by (auto simp: verify_proof_def)
qed

theorem mmr_full_tree_proofs_verify_witness:
  "\<exists>p root. generate_proof (\<lambda>x. x) (mmr_exec (\<lambda>x. x) [Append [1], Append [2], Seal]) 0 = Inr p \<and>
     current_root (\<lambda>x. x) (snd (nullify (mmr_exec (\<lambda>x. x) [Append [1], Append [2], Seal]) 1)) = Some root \<and>
     verify_proof (\<lambda>x. x) p root"
  by (rule mmr_full_tree_proofs_verify [of _ 1]) simp_all

text \<open>
  With three leaves the proof generated for the last leaf has no siblings, so it verifies
  against the epoch root only if that leaf is itself the hash of the root pair: the other peaks
  are missing from the proof.
\<close>

theorem mmr_three_leaves_proof_incomplete:
  "\<exists>p. generate_proof sha (mmr_exec sha [Append a, Append b, Append c]) 2 = Inr p \<and>
     proof_siblings p = [] \<and>
     current_root sha (mmr_exec sha [Append a, Append b, Append c]) =
       Some (merge_hashes sha (merge_hashes sha a b) c) \<and>
     (verify_proof sha p (proof_root p) \<longleftrightarrow> c = merge_hashes sha (merge_hashes sha a b) c)"
proof -
  let ?ops = "[Append a, Append b, Append c]"
  note r = mmr_exec_repr [of sha ?ops]
  have f: "forest [a, b, c] = [Tip c, Fork (Tip a) (Tip b)]" by (simp add: forest_def)
  then have bag: "bag sha (peak_roots sha (appended ?ops)) = merge_hashes sha (merge_hashes sha a b) c"
    by (simp add: bag_def peak_roots_def)
  have pk: "peak_of (forest (appended ?ops)) 2 = (Tip c, 0)" by (simp add: f)
  have "generate_proof sha (mmr_exec sha ?ops) 2 =
      Inr \<lparr>proof_index = 2, proof_leaf = c, proof_siblings = [],
           proof_root = merge_hashes sha (merge_hashes sha a b) c\<rparr>"
    using generate_proof_repr(1) [OF r _ pk] bag by (simp add: numeral_2_eq_2)
  then show ?thesis
    using current_root_repr [OF r] bag by (auto simp: verify_proof_def fold_path_def)
qed

text \<open>
  The two planes of nullification: nullifying an existing leaf sets its flag and changes
  neither the nodes, the peaks, the root, the stored hashes nor any proof; a leaf index out of
  range is refused with the index and the count, and the state stays as it was.
\<close>

theorem mmr_nullify_two_planes:
  "(k < leaf_count m \<longrightarrow> fst (nullify m k) = Inr () \<and> is_nullified (snd (nullify m k)) k) \<and>
   (leaf_count m \<le> k \<longrightarrow> nullify m k = (Inl (LeafOutOfBounds k (leaf_count m)), m)) \<and>
   current_root sha (snd (nullify m k)) = current_root sha m \<and>
   generate_proof sha (snd (nullify m k)) i = generate_proof sha m i \<and>
   map_option info_hash (get_leaf (snd (nullify m k)) i) = map_option info_hash (get_leaf m i) \<and>
   (i \<noteq> k \<longrightarrow> get_leaf (snd (nullify m k)) i = get_leaf m i) \<and>
   fst (seal_epoch sha (snd (nullify m k))) = fst (seal_epoch sha m)"
  by (auto simp: nullify_def is_nullified_def current_root_def bag_peaks_def generate_proof_def
      leaf_node_pos_def collect_siblings_def get_leaf_def seal_epoch_def)

theorem mmr_nullify_two_planes_witness:
  "fst (nullify (mmr_exec (\<lambda>x. x) [Append [1]]) 0) = Inr () \<and>
   nullify (mmr_exec (\<lambda>x. x) [Append [1]]) 4 = (Inl (LeafOutOfBounds 4 1), mmr_exec (\<lambda>x. x) [Append [1]])"
proof -
  have "leaf_count (mmr_exec (\<lambda>x. x) [Append [1]]) = 1"
    using mmr_exec_repr [of "\<lambda>x. x" "[Append [1]]"] by (simp add: mmr_repr_def)
  then show ?thesis
    using mmr_nullify_two_planes [of 0 "mmr_exec (\<lambda>x. x) [Append [1]]"]
      mmr_nullify_two_planes [of 4 "mmr_exec (\<lambda>x. x) [Append [1]]"] by simp
qed

text \<open>
  Sealing an empty range fails and changes nothing; otherwise the seal carries the epoch
  number before the call, the current root, the leaf count and the node count, and only the epoch
  number advances, so consecutive seals of one state carry consecutive epochs and the same root.
\<close>

theorem mmr_seal_epoch:
  "seal_epoch sha (mmr_exec sha ops) =
     (if appended ops = [] then (Inl EmptyMmr, mmr_exec sha ops)
      else (Inr \<lparr>seal_epoch_no = epoch (mmr_exec sha ops),
                 seal_root = the (current_root sha (mmr_exec sha ops)),
                 seal_leaf_count = length (appended ops),
                 seal_node_count = 2 * length (appended ops) - count_ones (length (appended ops))\<rparr>,
            (mmr_exec sha ops)\<lparr>epoch := epoch (mmr_exec sha ops) + 1\<rparr>))"
proof -
  note r = mmr_exec_repr [of sha ops]
  show ?thesis
    using r bag_peaks_repr [OF r] current_root_repr [OF r]
    by (simp add: seal_epoch_def mmr_repr_def length_fnodes_forest)
qed

end
