(* ===== verification/Prov_Registry.thy ===== *)
theory Prov_Registry
  imports Nexo_Prelude
begin

text \<open>
  The second plane of \<^verbatim>\<open>epoch_mmr\<close>, \<^verbatim>\<open>provenance.rs\<close>: who inserted a leaf, when and from where,
  kept in a map by leaf index and nullified independently of the hash plane. The wall clock is an
  argument (\<open>None\<close> when it reads before the epoch, where the source falls back to 0).
\<close>

datatype leaf_source = BioLoopDigest | GossipPeer | CliInput | ZkProofSource

fun leaf_source_str :: "leaf_source \<Rightarrow> string" where
  "leaf_source_str BioLoopDigest = ''bio_loop::digest''"
| "leaf_source_str GossipPeer = ''gossip::peer''"
| "leaf_source_str CliInput = ''cli::input''"
| "leaf_source_str ZkProofSource = ''zk_prover::verified''"

record leaf_provenance =
  prov_leaf :: nat
  inserted_at :: nat
  prov_epoch :: nat
  prov_source :: leaf_source
  prov_peer :: "nat option"
  prov_nullified :: bool

definition leaf_provenance_new :: "nat option \<Rightarrow> nat \<Rightarrow> leaf_source \<Rightarrow> nat \<Rightarrow> leaf_provenance" where
  "leaf_provenance_new clock k src e =
     \<lparr>prov_leaf = k, inserted_at = (case clock of None \<Rightarrow> 0 | Some t \<Rightarrow> t), prov_epoch = e,
      prov_source = src, prov_peer = None, prov_nullified = False\<rparr>"

definition with_peer :: "leaf_provenance \<Rightarrow> nat \<Rightarrow> leaf_provenance" where
  "with_peer p peer = p\<lparr>prov_peer := Some peer\<rparr>"

type_synonym registry = "nat \<rightharpoonup> leaf_provenance"

definition registry_new :: registry where
  "registry_new = Map.empty"

definition registry_record :: "registry \<Rightarrow> leaf_provenance \<Rightarrow> registry" where
  "registry_record r p = r(prov_leaf p \<mapsto> p)"

definition registry_get :: "registry \<Rightarrow> nat \<Rightarrow> leaf_provenance option" where
  "registry_get r k = r k"

definition nullify_prov :: "registry \<Rightarrow> nat \<Rightarrow> bool \<times> registry" where
  "nullify_prov r k =
     (case r k of
        None \<Rightarrow> (False, r)
      | Some p \<Rightarrow> (True, r(k \<mapsto> p\<lparr>prov_nullified := True\<rparr>)))"

definition registry_len :: "registry \<Rightarrow> nat" where
  "registry_len r = card (dom r)"

definition registry_is_empty :: "registry \<Rightarrow> bool" where
  "registry_is_empty r \<longleftrightarrow> dom r = {}"

interpretation reg: keyed_store registry_get registry_record prov_leaf "\<lambda>r p. True"
  by unfold_locales (auto simp: registry_get_def registry_record_def)

section \<open>Histories\<close>

datatype reg_op = Record leaf_provenance | NullifyProv nat

fun reg_step :: "registry \<Rightarrow> reg_op \<Rightarrow> registry" where
  "reg_step r (Record p) = registry_record r p"
| "reg_step r (NullifyProv k) = snd (nullify_prov r k)"

text \<open>
  The specification, newest operation first: the entry of \<open>k\<close> is the one recorded last, and it is
  nullified if it was recorded so or nullified since.
\<close>

fun reg_spec :: "reg_op list \<Rightarrow> nat \<Rightarrow> leaf_provenance option" where
  "reg_spec [] k = None"
| "reg_spec (Record p # ops) k = (if prov_leaf p = k then Some p else reg_spec ops k)"
| "reg_spec (NullifyProv j # ops) k =
     (if j = k then map_option (\<lambda>p. p\<lparr>prov_nullified := True\<rparr>) (reg_spec ops k) else reg_spec ops k)"

lemma nullify_prov_get:
  "registry_get (snd (nullify_prov r j)) k =
     (if j = k then map_option (\<lambda>p. p\<lparr>prov_nullified := True\<rparr>) (registry_get r k) else registry_get r k)"
  by (auto simp: registry_get_def nullify_prov_def split: option.splits)

text \<open>
  After any history of recordings and nullifications a lookup returns the entry recorded last
  for that leaf, with the nullification flag set exactly when it was recorded nullified or
  nullified since; nullifying reports whether the entry existed and never removes one.
\<close>

theorem registry_history:
  "registry_get (foldl reg_step registry_new ops) k = reg_spec (rev ops) k \<and>
   (fst (nullify_prov (foldl reg_step registry_new ops) k) \<longleftrightarrow> reg_spec (rev ops) k \<noteq> None) \<and>
   dom (snd (nullify_prov (foldl reg_step registry_new ops) j)) = dom (foldl reg_step registry_new ops)"
proof -
  have h: "registry_get (foldl reg_step registry_new ops) i = reg_spec (rev ops) i" for i
  proof (induction ops rule: rev_induct)
    case Nil
    show ?case by (simp add: registry_get_def registry_new_def)
  next
    case (snoc x xs)
    then show ?case by (cases x) (simp_all add: reg.lookup_ins_if nullify_prov_get)
  qed
  then show ?thesis
    using h [of k] by (auto simp: nullify_prov_def registry_get_def split: option.splits)
qed

end
