(* ===== verification/Wal.thy ===== *)
theory Wal
  imports Mmr_Props
begin

text \<open>
  The write-ahead log of \<^verbatim>\<open>nexoia-core/epoch_mmr/src/wal.rs\<close>: the 64-byte record format, the
  store over a file, \<^verbatim>\<open>append\<close>, \<^verbatim>\<open>sync\<close> and \<^verbatim>\<open>replay\<close> into a Merkle Mountain Range. The lock and
  the atomic counter serialise whole calls, so a call is one step here. Faults of the operating
  system are arguments: \<open>None\<close> for a write that succeeds, \<open>Some n\<close> for one that fails after \<open>n\<close>
  bytes.
\<close>

section \<open>Records\<close>

definition MAGIC :: bytes where
  "MAGIC = [0x4E, 0x45, 0x58, 0x4F, 0x5F, 0x57, 0x41, 0x4C]"

definition VERSION :: u64 where
  "VERSION = 1"

abbreviation HEADER_SIZE :: nat where
  "HEADER_SIZE \<equiv> 256"

abbreviation RECORD_SIZE :: nat where
  "RECORD_SIZE \<equiv> 64"

datatype record_type = LeafRecord | HeartbeatRecord | EpochSealRecord

fun record_type_to_u8 :: "record_type \<Rightarrow> byte" where
  "record_type_to_u8 LeafRecord = 0x01"
| "record_type_to_u8 HeartbeatRecord = 0x02"
| "record_type_to_u8 EpochSealRecord = 0x03"

definition record_type_from_u8 :: "byte \<Rightarrow> record_type option" where
  "record_type_from_u8 v =
     (if v = 0x01 then Some LeafRecord
      else if v = 0x02 then Some HeartbeatRecord
      else if v = 0x03 then Some EpochSealRecord
      else None)"

record wal_record =
  rec_type :: record_type
  rec_index :: u64
  rec_hash :: hash32
  rec_timestamp :: u64
  rec_content :: u64

definition encode_record :: "wal_record \<Rightarrow> bytes" where
  "encode_record r =
     (let buf = zeros RECORD_SIZE;
          buf = put_at 0 [record_type_to_u8 (rec_type r)] buf;
          buf = put_at 8 (u64_to_le (rec_index r)) buf;
          buf = put_at 16 (rec_hash r) buf;
          buf = put_at 48 (u64_to_le (rec_timestamp r)) buf
      in put_at 56 (u64_to_le (rec_content r)) buf)"

definition decode_record :: "bytes \<Rightarrow> wal_record option" where
  "decode_record buf =
     (case record_type_from_u8 (buf ! 0) of
        None \<Rightarrow> None
      | Some rt \<Rightarrow>
          Some \<lparr>rec_type = rt, rec_index = u64_from_le (slice buf 8 16), rec_hash = slice buf 16 48,
                rec_timestamp = u64_from_le (slice buf 48 56),
                rec_content = u64_from_le (slice buf 56 64)\<rparr>)"

section \<open>The store\<close>

record wal_store =
  wal_file :: fs_file
  monotonic :: u64

definition wal_header :: bytes where
  "wal_header = put_at 8 (u64_to_le VERSION) (put_at 0 MAGIC (zeros HEADER_SIZE))"

definition wal_create :: "nat option \<Rightarrow> io_error + wal_store" where
  "wal_create fault =
     (case write_all \<lparr>contents = [], cursor = 0, append_mode = False\<rparr> wal_header fault of
        (Inl e, _) \<Rightarrow> Inl e
      | (Inr _, f) \<Rightarrow> Inr \<lparr>wal_file = f, monotonic = 1\<rparr>)"

text \<open>
  \<^verbatim>\<open>open\<close>: what is on disk (\<open>None\<close> when the path does not exist), whether a system call on an
  existing file fails, and the write fault of \<^verbatim>\<open>create\<close>. The timestamp of the last record is
  incremented with wrap-around.
\<close>

definition wal_open :: "bytes option \<Rightarrow> bool \<Rightarrow> nat option \<Rightarrow> io_error + wal_store" where
  "wal_open disk rfail fault =
     (case disk of
        None \<Rightarrow> wal_create fault
      | Some data \<Rightarrow>
          if rfail then Inl IoError
          else
            let len = length data in
            if HEADER_SIZE + RECORD_SIZE \<le> len then
              Inr \<lparr>wal_file = \<lparr>contents = data, cursor = len, append_mode = True\<rparr>,
                   monotonic = (case decode_record (slice data (len - RECORD_SIZE) len) of
                                  Some r \<Rightarrow> rec_timestamp r + 1
                                | None \<Rightarrow> 1)\<rparr>
            else
              Inr \<lparr>wal_file = \<lparr>contents = data, cursor = 0, append_mode = True\<rparr>, monotonic = 1\<rparr>)"

definition wal_append ::
  "wal_store \<Rightarrow> record_type \<Rightarrow> u64 \<Rightarrow> hash32 \<Rightarrow> u64 \<Rightarrow> nat option \<Rightarrow> (io_error + u64) \<times> wal_store" where
  "wal_append st rt i h c fault =
     (let ts = monotonic st;
          st = st\<lparr>monotonic := monotonic st + 1\<rparr>;
          buf = encode_record \<lparr>rec_type = rt, rec_index = i, rec_hash = h, rec_timestamp = ts, rec_content = c\<rparr>
      in case write_all (wal_file st) buf fault of
           (Inl e, f) \<Rightarrow> (Inl e, st\<lparr>wal_file := f\<rparr>)
         | (Inr _, f) \<Rightarrow> (Inr ts, st\<lparr>wal_file := f\<rparr>))"

definition wal_append_leaf :: "wal_store \<Rightarrow> u64 \<Rightarrow> hash32 \<Rightarrow> nat option \<Rightarrow> (io_error + u64) \<times> wal_store" where
  "wal_append_leaf st i h fault = wal_append st LeafRecord i h 0 fault"

definition wal_append_seal :: "wal_store \<Rightarrow> u64 \<Rightarrow> hash32 \<Rightarrow> nat option \<Rightarrow> (io_error + u64) \<times> wal_store" where
  "wal_append_seal st e root fault = wal_append st EpochSealRecord e root 0 fault"

text \<open>
  \<^verbatim>\<open>sync\<close> seeks to offset 24, writes the counter there and flushes. The cursor is not moved back,
  and in append mode the write goes to the end of the file.
\<close>

definition wal_sync :: "wal_store \<Rightarrow> nat option \<Rightarrow> bool \<Rightarrow> (io_error + unit) \<times> wal_store" where
  "wal_sync st fault sync_fails =
     (case write_all (seek_to (wal_file st) 24) (u64_to_le (monotonic st)) fault of
        (Inl e, f) \<Rightarrow> (Inl e, st\<lparr>wal_file := f\<rparr>)
      | (Inr _, f) \<Rightarrow> (if sync_fails then Inl IoError else Inr (), st\<lparr>wal_file := f\<rparr>))"

section \<open>Replay\<close>

text \<open>\<^verbatim>\<open>chunks_exact(64)\<close>: a shorter remainder is dropped.\<close>

function chunks :: "bytes \<Rightarrow> bytes list" where
  "chunks data =
     (if length data < RECORD_SIZE then [] else take RECORD_SIZE data # chunks (drop RECORD_SIZE data))"
  by pat_completeness auto
termination
  by (relation "measure length") auto

declare chunks.simps [simp del]

definition replay_chunk :: "(bytes \<Rightarrow> bytes) \<Rightarrow> mmr \<times> nat \<Rightarrow> bytes \<Rightarrow> mmr \<times> nat" where
  "replay_chunk sha s chunk =
     (case decode_record chunk of
        None \<Rightarrow> s
      | Some r \<Rightarrow>
          (case rec_type r of
             LeafRecord \<Rightarrow> (snd (mmr_append sha (fst s) (rec_hash r)), snd s + 1)
           | EpochSealRecord \<Rightarrow> s
           | HeartbeatRecord \<Rightarrow> s))"

text \<open>
  \<^verbatim>\<open>replay\<close> opens the file again and reads it from its first byte, the header included; the buffer
  is only sized for the part after it.
\<close>

definition wal_replay ::
  "(bytes \<Rightarrow> bytes) \<Rightarrow> wal_store \<Rightarrow> mmr \<Rightarrow> bool \<Rightarrow> (io_error + nat) \<times> mmr \<times> wal_store" where
  "wal_replay sha st m rfail =
     (if rfail then (Inl IoError, m, st)
      else
        let data = contents (wal_file st) in
        if length data < HEADER_SIZE then (Inr 0, m, st)
        else
          let (m', count) = foldl (replay_chunk sha) (m, 0) (chunks data);
              st' = (if chunks data = [] then st
                     else case decode_record (last (chunks data)) of
                            Some r \<Rightarrow> st\<lparr>monotonic := rec_timestamp r + 1\<rparr>
                          | None \<Rightarrow> st)
          in (Inr count, m', st'))"

definition wal_record_count :: "wal_store \<Rightarrow> nat" where
  "wal_record_count st =
     (let len = length (contents (wal_file st)) in
      if len < HEADER_SIZE then 0 else (len - HEADER_SIZE) div RECORD_SIZE)"

section \<open>The record format\<close>

lemma length_encode [simp, len_simps]: "length (rec_hash r) = 32 \<Longrightarrow> length (encode_record r) = 64"
  by (simp add: encode_record_def Let_def)

lemma slice_put_at_same:
  "off + length bs \<le> length buf \<Longrightarrow> slice (put_at off bs buf) off (off + length bs) = bs"
  by (simp add: slice_def put_at_def)

lemma slice_put_at_below:
  "j \<le> off \<Longrightarrow> off \<le> length buf \<Longrightarrow> slice (put_at off bs buf) i j = slice buf i j"
  by (simp add: slice_def put_at_def take_drop min_def)

lemma nth_put_at_below: "i < off \<Longrightarrow> off \<le> length buf \<Longrightarrow> put_at off bs buf ! i = buf ! i"
  by (simp add: put_at_def nth_append)

lemma nth_put_at_0: "put_at 0 [b] buf ! 0 = b"
  by (simp add: put_at_def)

lemma record_type_roundtrip [simp]: "record_type_from_u8 (record_type_to_u8 rt) = Some rt"
  by (cases rt) (simp_all add: record_type_from_u8_def)

lemma decode_encode:
  assumes "length (rec_hash r) = 32" shows "decode_record (encode_record r) = Some r"
proof -
  define b0 where "b0 = put_at 0 [record_type_to_u8 (rec_type r)] (zeros 64)"
  define b1 where "b1 = put_at 8 (u64_to_le (rec_index r)) b0"
  define b2 where "b2 = put_at 16 (rec_hash r) b1"
  define b3 where "b3 = put_at 48 (u64_to_le (rec_timestamp r)) b2"
  define b4 where "b4 = put_at 56 (u64_to_le (rec_content r)) b3"
  have len: "length b0 = 64" "length b1 = 64" "length b2 = 64" "length b3 = 64" "length b4 = 64"
    using assms by (simp_all add: b0_def b1_def b2_def b3_def b4_def)
  have e: "encode_record r = b4"
    by (simp add: encode_record_def Let_def b0_def b1_def b2_def b3_def b4_def)
  have ty: "b4 ! 0 = record_type_to_u8 (rec_type r)"
    using len by (simp add: b4_def b3_def b2_def b1_def nth_put_at_below) (simp add: b0_def nth_put_at_0)
  have i: "slice b4 8 16 = u64_to_le (rec_index r)"
    using len slice_put_at_same [of 8 "u64_to_le (rec_index r)" b0]
    by (simp add: b4_def b3_def b2_def slice_put_at_below) (simp add: b1_def)
  have h: "slice b4 16 48 = rec_hash r"
    using len assms slice_put_at_same [of 16 "rec_hash r" b1]
    by (simp add: b4_def b3_def slice_put_at_below) (simp add: b2_def)
  have t: "slice b4 48 56 = u64_to_le (rec_timestamp r)"
    using len slice_put_at_same [of 48 "u64_to_le (rec_timestamp r)" b2]
    by (simp add: b4_def slice_put_at_below) (simp add: b3_def)
  have c: "slice b4 56 64 = u64_to_le (rec_content r)"
    using len slice_put_at_same [of 56 "u64_to_le (rec_content r)" b3] by (simp add: b4_def)
  show ?thesis by (simp add: decode_record_def e ty i h t c)
qed

end
