(* ===== verification/Wal_Props.thy ===== *)
theory Wal_Props
  imports Wal
begin

text \<open>
  What the log guarantees. Appends accumulate records with consecutive timestamps; sessions that
  open, append and close extend one log; replaying it rebuilds the Merkle Mountain Range of its
  leaf records. The last section shows what \<^verbatim>\<open>sync\<close> does to the write position.
\<close>

section \<open>Chunks\<close>

lemma chunks_short: "length data < 64 \<Longrightarrow> chunks data = []"
  by (simp add: chunks.simps)

lemma chunks_Cons: "length x = 64 \<Longrightarrow> chunks (x @ rest) = x # chunks rest"
  by (simp add: chunks.simps [of "x @ rest"])

lemma chunks_concat: "\<forall>x \<in> set xs. length x = 64 \<Longrightarrow> chunks (concat xs @ rest) = xs @ chunks rest"
  by (induction xs) (auto simp: chunks_Cons)

lemma split4:
  assumes "length h = 256"
  shows "h = slice h 0 64 @ slice h 64 128 @ slice h 128 192 @ slice h 192 256"
proof -
  have "slice h i j @ slice h j n = slice h i n" if "i \<le> j" "j \<le> n" for i j n
  proof -
    have e: "n - i = (j - i) + (n - j)" "i + (j - i) = j" using that by auto
    show ?thesis unfolding slice_def e(1) take_add using e(2) by (simp add: add.commute)
  qed
  then show ?thesis using slice_all [of h] assms by simp
qed

lemma chunks_header:
  assumes "length h = 256"
  shows "chunks (h @ rest) = [slice h 0 64, slice h 64 128, slice h 128 192, slice h 192 256] @ chunks rest"
proof -
  have "h = concat [slice h 0 64, slice h 64 128, slice h 128 192, slice h 192 256]"
    using split4 [OF assms] by simp
  then have "chunks (h @ rest) =
      chunks (concat [slice h 0 64, slice h 64 128, slice h 128 192, slice h 192 256] @ rest)" by metis
  also have "\<dots> = [slice h 0 64, slice h 64 128, slice h 128 192, slice h 192 256] @ chunks rest"
    using assms by (intro chunks_concat) simp
  finally show ?thesis .
qed

lemma length_wal_header [simp]: "length wal_header = 256"
  by (simp add: wal_header_def MAGIC_def)

lemma slice_nth: "i < length xs \<Longrightarrow> i < j \<Longrightarrow> slice xs i j ! 0 = xs ! i"
  by (simp add: slice_def)

lemma decode_None: "record_type_from_u8 (buf ! 0) = None \<Longrightarrow> decode_record buf = None"
  by (simp add: decode_record_def)

lemma replay_chunk_None: "decode_record c = None \<Longrightarrow> replay_chunk sha s c = s"
  by (simp add: replay_chunk_def)

text \<open>The header reads as four chunks that hold no record.\<close>

definition inert_header :: "bytes \<Rightarrow> bool" where
  "inert_header h \<longleftrightarrow> length h = 256 \<and>
     (\<forall>i \<in> {0, 64, 128, 192}. record_type_from_u8 (h ! i) = None)"

lemma inert_wal_header: "inert_header wal_header"
  by (simp add: inert_header_def wal_header_def put_at_def MAGIC_def nth_append zeros_def
      record_type_from_u8_def)

lemma foldl_header:
  assumes "inert_header h"
  shows "foldl (replay_chunk sha) s (chunks (h @ rest)) = foldl (replay_chunk sha) s (chunks rest)"
proof -
  have "decode_record (slice h 0 64) = None" "decode_record (slice h 64 128) = None"
    "decode_record (slice h 128 192) = None" "decode_record (slice h 192 256) = None"
    using assms by (auto intro!: decode_None simp: inert_header_def slice_nth)
  then show ?thesis using assms by (simp add: chunks_header inert_header_def replay_chunk_None)
qed

section \<open>Records accumulate\<close>

type_synonym wal_request = "record_type \<times> u64 \<times> hash32 \<times> u64"

fun stamp :: "u64 \<Rightarrow> wal_request list \<Rightarrow> wal_record list" where
  "stamp t [] = []"
| "stamp t ((rt, i, h, c) # qs) =
     \<lparr>rec_type = rt, rec_index = i, rec_hash = h, rec_timestamp = t, rec_content = c\<rparr> # stamp (t + 1) qs"

fun request_hash :: "wal_request \<Rightarrow> hash32" where
  "request_hash (rt, i, h, c) = h"

definition requests_ok :: "wal_request list \<Rightarrow> bool" where
  "requests_ok qs \<longleftrightarrow> (\<forall>q \<in> set qs. length (request_hash q) = 32)"

definition log_bytes :: "wal_record list \<Rightarrow> bytes" where
  "log_bytes rs = wal_header @ concat (map encode_record rs)"

fun request_append :: "wal_store \<Rightarrow> wal_request \<Rightarrow> wal_store" where
  "request_append st (rt, i, h, c) = snd (wal_append st rt i h c None)"

lemma stamp_append: "stamp t (qs @ rs) = stamp t qs @ stamp (t + word_of_nat (length qs)) rs"
  by (induction t qs rule: stamp.induct) (simp_all add: ac_simps)

lemma length_stamp [simp]: "length (stamp t qs) = length qs"
  by (induction t qs rule: stamp.induct) simp_all

lemma stamp_hashes:
  "requests_ok qs \<Longrightarrow> r \<in> set (stamp t qs) \<Longrightarrow> length (rec_hash r) = 32"
  by (induction t qs rule: stamp.induct) (auto simp: requests_ok_def)

lemma last_stamp:
  "qs \<noteq> [] \<Longrightarrow> rec_timestamp (last (stamp t qs)) = t + word_of_nat (length qs) - 1"
proof (induction qs rule: rev_induct)
  case (snoc q qs)
  then show ?case by (cases q) (simp add: stamp_append)
qed simp

definition wal_view :: "bytes \<Rightarrow> u64 \<Rightarrow> wal_request list \<Rightarrow> wal_store \<Rightarrow> bool" where
  "wal_view base t qs st \<longleftrightarrow>
     contents (wal_file st) = base @ concat (map encode_record (stamp t qs)) \<and>
     write_pos (wal_file st) = length (contents (wal_file st)) \<and>
     monotonic st = t + word_of_nat (length qs) \<and> requests_ok qs"

lemma wal_append_view:
  assumes "wal_view base t qs st" "length (request_hash q) = 32"
  shows "wal_view base t (qs @ [q]) (request_append st q)"
proof (cases q)
  case (fields rt i h c)
  then show ?thesis
    using assms write_bytes_at_end(1) [of "wal_file st"] write_pos_after [of "wal_file st"]
    by (simp add: wal_view_def wal_append_def write_all_def Let_def stamp_append requests_ok_def)
qed

interpretation wal_acc: accumulator request_append "\<lambda>q. length (request_hash q) = 32" "wal_view base t"
  for base t
  by unfold_locales (rule wal_append_view)

lemma wal_create_view: "wal_create None = Inr st \<Longrightarrow> wal_view wal_header 1 [] st"
  by (auto simp: wal_create_def write_all_def write_bytes_def write_pos_def put_at_def wal_view_def
      requests_ok_def zeros_def)

lemma slice_last_chunk:
  "length x = 64 \<Longrightarrow> slice (xs @ x) (length (xs @ x) - 64) (length (xs @ x)) = x"
  by (simp add: slice_def)

lemma wal_open_log:
  assumes "wal_open (Some (log_bytes (stamp 1 qs))) False fault = Inr st" "requests_ok qs"
  shows "wal_view (log_bytes (stamp 1 qs)) (1 + word_of_nat (length qs)) [] st"
proof (cases qs rule: rev_cases)
  case Nil
  then show ?thesis
    using assms by (auto simp: wal_open_def Let_def log_bytes_def wal_view_def write_pos_def requests_ok_def)
next
  case (snoc qs' q)
  define r where "r = last (stamp 1 qs)"
  have st: "stamp 1 qs = butlast (stamp 1 qs) @ [r]"
    using snoc length_stamp [of 1 qs] by (metis r_def append_butlast_last_id length_0_conv snoc_eq_iff_butlast)
  then have r: "length (rec_hash r) = 32"
    using stamp_hashes [OF assms(2), of r 1] by (metis in_set_conv_decomp)
  have data: "log_bytes (stamp 1 qs) = log_bytes (butlast (stamp 1 qs)) @ encode_record r"
    by (subst st) (simp add: log_bytes_def)
  have len: "320 \<le> length (log_bytes (stamp 1 qs))"
    using r by (simp add: data) (simp add: log_bytes_def)
  have dec: "decode_record (slice (log_bytes (stamp 1 qs)) (length (log_bytes (stamp 1 qs)) - 64)
      (length (log_bytes (stamp 1 qs)))) = Some r"
    using slice_last_chunk [of "encode_record r" "log_bytes (butlast (stamp 1 qs))"] r
    by (simp only: data length_encode decode_encode)
  have "rec_timestamp r + 1 = 1 + word_of_nat (length qs)"
    using last_stamp [of qs 1] snoc by (simp add: r_def)
  then show ?thesis
    using assms(1) len dec
    by (auto simp: wal_open_def Let_def wal_view_def write_pos_def requests_ok_def)
qed

section \<open>Sessions\<close>

text \<open>One session: open the log, append the requests, close it; the result is what is on disk.\<close>

definition wal_session :: "bytes option \<Rightarrow> wal_request list \<Rightarrow> bytes option" where
  "wal_session disk qs =
     (case wal_open disk False None of
        Inl e \<Rightarrow> disk
      | Inr st \<Rightarrow> Some (contents (wal_file (foldl request_append st qs))))"

lemma wal_open_Inr: "\<exists>st. wal_open disk False None = Inr st"
  by (cases disk) (simp_all add: wal_open_def wal_create_def write_all_def Let_def)

lemma wal_session_fresh: "requests_ok qs \<Longrightarrow> wal_session None qs = Some (log_bytes (stamp 1 qs))"
proof -
  assume ok: "requests_ok qs"
  obtain st where st: "wal_open None False None = Inr st" using wal_open_Inr by blast
  then have "wal_view wal_header 1 ([] @ qs) (foldl request_append st qs)"
    using ok wal_create_view by (intro wal_acc.foldl_view) (simp_all add: wal_open_def requests_ok_def)
  then show ?thesis using st by (simp add: wal_session_def wal_view_def log_bytes_def)
qed

lemma wal_session_next:
  assumes "requests_ok ps" "requests_ok qs"
  shows "wal_session (Some (log_bytes (stamp 1 ps))) qs = Some (log_bytes (stamp 1 (ps @ qs)))"
proof -
  obtain st where st: "wal_open (Some (log_bytes (stamp 1 ps))) False None = Inr st"
    using wal_open_Inr by blast
  then have "wal_view (log_bytes (stamp 1 ps)) (1 + word_of_nat (length ps)) ([] @ qs)
      (foldl request_append st qs)"
    using assms wal_open_log [OF st] by (intro wal_acc.foldl_view) (simp_all add: requests_ok_def)
  then show ?thesis using st by (simp add: wal_session_def wal_view_def log_bytes_def stamp_append)
qed

lemma wal_sessions:
  "\<forall>qs \<in> set (qs # qss). requests_ok qs \<Longrightarrow>
     foldl wal_session None (qs # qss) = Some (log_bytes (stamp 1 (concat (qs # qss))))"
proof (induction qss rule: rev_induct)
  case Nil
  then show ?case by (simp add: wal_session_fresh)
next
  case (snoc rs qss)
  have "requests_ok (concat (qs # qss))" using snoc.prems by (auto simp: requests_ok_def)
  then show ?case
    using snoc wal_session_next [of "concat (qs # qss)" rs] by simp
qed

section \<open>Replay\<close>

definition leaf_hashes :: "wal_record list \<Rightarrow> hash32 list" where
  "leaf_hashes rs = map rec_hash (filter (\<lambda>r. rec_type r = LeafRecord) rs)"

definition add_leaves :: "(bytes \<Rightarrow> bytes) \<Rightarrow> mmr \<Rightarrow> hash32 list \<Rightarrow> mmr" where
  "add_leaves sha m hs = foldl (\<lambda>m h. snd (mmr_append sha m h)) m hs"

lemma replay_records:
  "\<forall>r \<in> set rs. length (rec_hash r) = 32 \<Longrightarrow>
     foldl (replay_chunk sha) (m, n) (map encode_record rs) =
       (add_leaves sha m (leaf_hashes rs), n + length (leaf_hashes rs))"
proof (induction rs arbitrary: m n)
  case (Cons r rs)
  then show ?case
    by (cases "rec_type r")
       (simp_all add: replay_chunk_def decode_encode leaf_hashes_def add_leaves_def)
qed (simp add: leaf_hashes_def add_leaves_def)

lemma add_leaves_repr: "mmr_repr sha hs m \<Longrightarrow> mmr_repr sha (hs @ ls) (add_leaves sha m ls)"
  unfolding add_leaves_def by (rule mmr_acc.foldl_view) simp_all

text \<open>The end of the file adds nothing when its chunks hold no record.\<close>

definition inert_tail :: "bytes \<Rightarrow> bool" where
  "inert_tail rest \<longleftrightarrow> (\<forall>c \<in> set (chunks rest). decode_record c = None)"

lemma inert_tail_short: "length rest < 64 \<Longrightarrow> inert_tail rest"
  by (simp add: inert_tail_def chunks_short)

lemma foldl_inert: "\<forall>c \<in> set cs. decode_record c = None \<Longrightarrow> foldl (replay_chunk sha) s cs = s"
  by (induction cs) (auto simp: replay_chunk_None)

lemma replay_log:
  assumes h: "inert_header h" and rs: "\<forall>r \<in> set rs. length (rec_hash r) = 32"
    and c: "contents (wal_file st) = h @ concat (map encode_record rs) @ rest" and rest: "inert_tail rest"
  shows "\<exists>st'. wal_replay sha st m False =
    (Inr (length (leaf_hashes rs)), add_leaves sha m (leaf_hashes rs), st') \<and> wal_file st' = wal_file st"
proof -
  have "chunks (concat (map encode_record rs) @ rest) = map encode_record rs @ chunks rest"
    using rs by (intro chunks_concat) auto
  then have "foldl (replay_chunk sha) (m, 0) (chunks (contents (wal_file st))) =
      (add_leaves sha m (leaf_hashes rs), length (leaf_hashes rs))"
    using replay_records [OF rs] foldl_header [OF h] foldl_inert rest by (simp add: c inert_tail_def)
  moreover have "256 \<le> length (contents (wal_file st))" using h by (simp add: c inert_header_def)
  ultimately show ?thesis
    by (simp add: wal_replay_def Let_def split: option.splits)
qed

definition request_leaves :: "wal_request list \<Rightarrow> hash32 list" where
  "request_leaves qs = map request_hash (filter (\<lambda>q. fst q = LeafRecord) qs)"

lemma leaf_hashes_stamp: "leaf_hashes (stamp t qs) = request_leaves qs"
  by (induction t qs rule: stamp.induct) (simp_all add: leaf_hashes_def request_leaves_def)

text \<open>Replaying into a fresh range rebuilds exactly the range of the logged leaves.\<close>

lemma replay_requests:
  assumes "inert_header h" "requests_ok qs" "inert_tail rest"
    and "contents (wal_file st) = h @ concat (map encode_record (stamp t qs)) @ rest"
  shows "\<exists>m st'. wal_replay sha st mmr_new False = (Inr (length (request_leaves qs)), m, st') \<and>
    mmr_repr sha (request_leaves qs) m"
proof -
  have "\<forall>r \<in> set (stamp t qs). length (rec_hash r) = 32" using stamp_hashes [OF assms(2)] by blast
  then obtain st' where "wal_replay sha st mmr_new False =
      (Inr (length (leaf_hashes (stamp t qs))), add_leaves sha mmr_new (leaf_hashes (stamp t qs)), st')"
    using replay_log [OF assms(1) _ assms(4,3)] by blast
  then show ?thesis
    using add_leaves_repr [OF mmr_repr_new, of sha "request_leaves qs"] by (auto simp: leaf_hashes_stamp)
qed

section \<open>The write position after a sync\<close>

lemma put_at_prefix:
  "off + length bs \<le> length h \<Longrightarrow> put_at off bs (h @ rest) = put_at off bs h @ rest"
  by (simp add: put_at_def)

lemma append_keeps_mode: "append_mode (wal_file (foldl request_append st qs)) = append_mode (wal_file st)"
proof (induction qs arbitrary: st)
  case (Cons q qs)
  then show ?case
    by (cases q) (simp add: wal_append_def write_all_def write_bytes_def Let_def)
qed simp

lemma encode_hash_slice:
  "length (rec_hash r) = 32 \<Longrightarrow> slice (encode_record r) 16 48 = rec_hash r"
  using decode_encode [of r]
  by (auto simp: decode_record_def split: option.splits) (metis wal_record.select_convs(3))

lemma encode_hash_nth:
  assumes "length (rec_hash r) = 32" "i < 32" shows "encode_record r ! (16 + i) = rec_hash r ! i"
proof -
  have "slice (encode_record r) 16 48 ! i = encode_record r ! (16 + i)"
    using assms by (simp add: slice_def)
  then show ?thesis by (simp add: encode_hash_slice [OF assms(1)])
qed

text \<open>A log created in this session: \<^verbatim>\<open>sync\<close> leaves the cursor at byte 32 of the header.\<close>

definition header_after_sync :: "u64 \<Rightarrow> wal_record \<Rightarrow> bytes" where
  "header_after_sync t r = put_at 32 (encode_record r) (put_at 24 (u64_to_le t) wal_header)"

lemma header_after_sync_inert:
  assumes "length (rec_hash r) = 32" "record_type_from_u8 (rec_hash r ! 16) = None"
  shows "inert_header (header_after_sync t r)"
proof -
  have "wal_header ! 128 = 0" "wal_header ! 192 = 0"
    by (simp_all add: wal_header_def put_at_def MAGIC_def nth_append)
  moreover have "header_after_sync t r ! 0 = wal_header ! 0"
    using assms(1) by (simp add: header_after_sync_def nth_put_at_below)
  moreover have "header_after_sync t r ! 64 = rec_hash r ! 16"
    using encode_hash_nth [OF assms(1), of 16] assms(1)
    by (simp add: header_after_sync_def put_at_def nth_append)
  moreover have "header_after_sync t r ! i = wal_header ! i" if "96 \<le> i" "i < 256" for i
  proof -
    have "\<not> i - 32 < 64" "\<not> i - 24 < 8" using that by linarith+
    then show ?thesis using that assms(1) by (simp add: header_after_sync_def put_at_def nth_append)
  qed
  moreover have "length (header_after_sync t r) = 256" "record_type_from_u8 0 = None"
    using assms(1) by (simp_all add: header_after_sync_def record_type_from_u8_def)
  ultimately show ?thesis
    using assms(2) inert_wal_header by (simp add: inert_header_def)
qed

lemma created_sync_append:
  assumes v: "wal_view wal_header 1 qs st" and m: "\<not> append_mode (wal_file st)"
    and h: "length (rec_hash r) = 32" and t: "rec_timestamp r = monotonic st"
  shows "\<exists>st1 st2. wal_sync st None False = (Inr (), st1) \<and>
    wal_append st1 (rec_type r) (rec_index r) (rec_hash r) (rec_content r) None = (Inr (rec_timestamp r), st2) \<and>
    contents (wal_file st2) = header_after_sync (monotonic st) r @ concat (map encode_record (stamp 1 qs))"
proof -
  define body where "body = concat (map encode_record (stamp 1 qs))"
  have c: "contents (wal_file st) = wal_header @ body" using v by (simp add: wal_view_def body_def)
  define f1 where "f1 = write_bytes (seek_to (wal_file st) 24) (u64_to_le (monotonic st))"
  have f1: "contents f1 = put_at 24 (u64_to_le (monotonic st)) wal_header @ body" "cursor f1 = 32"
    "\<not> append_mode f1"
    using m by (simp_all add: f1_def write_bytes_def write_pos_def seek_to_def c zeros_def put_at_prefix)
  have f2: "contents (write_bytes f1 (encode_record r)) = header_after_sync (monotonic st) r @ body"
    using f1 h by (simp add: write_bytes_def write_pos_def zeros_def put_at_prefix header_after_sync_def)
  have req: "\<lparr>rec_type = rec_type r, rec_index = rec_index r, rec_hash = rec_hash r,
      rec_timestamp = monotonic st, rec_content = rec_content r\<rparr> = r" by (simp flip: t)
  then show ?thesis
    using f2 t by (simp add: wal_sync_def write_all_def wal_append_def Let_def body_def req flip: f1_def)
qed

text \<open>A log opened from disk: \<^verbatim>\<open>sync\<close> appends eight bytes and later records are misaligned.\<close>

lemma reopened_sync_append:
  assumes v: "wal_view base t0 qs st" and m: "append_mode (wal_file st)"
    and t: "rec_timestamp r = monotonic st"
  shows "\<exists>st1 st2. wal_sync st None False = (Inr (), st1) \<and>
    contents (wal_file st1) = contents (wal_file st) @ u64_to_le (monotonic st) \<and>
    wal_append st1 (rec_type r) (rec_index r) (rec_hash r) (rec_content r) None = (Inr (rec_timestamp r), st2) \<and>
    contents (wal_file st2) = contents (wal_file st) @ u64_to_le (monotonic st) @ encode_record r"
proof -
  define f1 where "f1 = write_bytes (seek_to (wal_file st) 24) (u64_to_le (monotonic st))"
  have f1: "contents f1 = contents (wal_file st) @ u64_to_le (monotonic st)" "append_mode f1"
    using m by (simp_all add: f1_def write_bytes_def write_pos_def seek_to_def put_at_def zeros_def)
  have f2: "contents (write_bytes f1 (encode_record r)) =
      contents (wal_file st) @ u64_to_le (monotonic st) @ encode_record r"
    using f1 by (simp add: write_bytes_def write_pos_def put_at_def zeros_def)
  have req: "\<lparr>rec_type = rec_type r, rec_index = rec_index r, rec_hash = rec_hash r,
      rec_timestamp = monotonic st, rec_content = rec_content r\<rparr> = r" by (simp flip: t)
  then show ?thesis
    using f1 f2 t by (simp add: wal_sync_def write_all_def wal_append_def Let_def req flip: f1_def)
qed

lemma misaligned_tail_inert:
  assumes "length (rec_hash r) = 32" "record_type_from_u8 (u64_to_le t ! 0) = None"
  shows "inert_tail (u64_to_le t @ encode_record r)"
proof -
  define x where "x = u64_to_le t @ take 56 (encode_record r)"
  have x: "length x = 64" "u64_to_le t @ encode_record r = x @ drop 56 (encode_record r)"
    using assms(1) by (simp_all add: x_def)
  have "chunks (u64_to_le t @ encode_record r) = [x]"
    using assms(1) by (simp only: x(2) chunks_Cons [OF x(1)]) (simp add: chunks_short)
  moreover have "x ! 0 = u64_to_le t ! 0" by (simp add: x_def nth_append)
  then have "decode_record x = None" using assms(2) by (simp add: decode_None)
  ultimately show ?thesis by (simp add: inert_tail_def)
qed

end
