(* ===== verification/Wal_Theorems.thy ===== *)
theory Wal_Theorems
  imports Wal_Props
begin

text \<open>
  The properties of the write-ahead log: the record format, recovery after any number of
  sessions and after a torn write, and the two ways \<^verbatim>\<open>sync\<close> breaks the layout; and the bridge of the
  host that writes it and replays it at the start.
\<close>

text \<open>
  A record with a 32-byte hash encodes to exactly 64 bytes and decodes to itself, and a buffer
  whose first byte is no record type decodes to nothing.
\<close>

theorem wal_record_roundtrip:
  "(length (rec_hash r) = 32 \<longrightarrow>
      length (encode_record r) = 64 \<and> decode_record (encode_record r) = Some r) \<and>
   (buf ! 0 \<notin> {1, 2, 3} \<longrightarrow> decode_record buf = None)"
  by (simp add: decode_encode decode_None record_type_from_u8_def)

theorem wal_record_roundtrip_witness:
  "decode_record (encode_record \<lparr>rec_type = LeafRecord, rec_index = 42, rec_hash = replicate 32 0xAB,
       rec_timestamp = 12345, rec_content = 6789\<rparr>) =
     Some \<lparr>rec_type = LeafRecord, rec_index = 42, rec_hash = replicate 32 0xAB,
       rec_timestamp = 12345, rec_content = 6789\<rparr> \<and>
   decode_record [9, 1, 1] = None"
  using wal_record_roundtrip [of "\<lparr>rec_type = LeafRecord, rec_index = 42, rec_hash = replicate 32 0xAB,
       rec_timestamp = 12345, rec_content = 6789\<rparr>" "[9, 1, 1]"] by simp

text \<open>
  C5: after any number of sessions that open the log and append records (leaves, heartbeats,
  seals), reopening it continues the timestamps without a gap, the record count is the number of
  records, and replay into an empty range returns the number of leaf records and the range of
  exactly their hashes, in order.
\<close>

theorem wal_sessions_replay:
  assumes "\<forall>s \<in> set (qs # qss). requests_ok s"
  shows "\<exists>data st m st'. foldl wal_session None (qs # qss) = Some data \<and>
     wal_open (Some data) False None = Inr st \<and>
     monotonic st = 1 + word_of_nat (length (concat (qs # qss))) \<and>
     wal_record_count st = length (concat (qs # qss)) \<and>
     wal_replay sha st mmr_new False = (Inr (length (request_leaves (concat (qs # qss)))), m, st') \<and>
     mmr_repr sha (request_leaves (concat (qs # qss))) m"
proof -
  define all where "all = concat (qs # qss)"
  have ok: "requests_ok all" using assms by (auto simp: all_def requests_ok_def)
  have d: "foldl wal_session None (qs # qss) = Some (log_bytes (stamp 1 all))"
    using wal_sessions [OF assms] by (simp only: all_def)
  obtain st where st: "wal_open (Some (log_bytes (stamp 1 all))) False None = Inr st"
    using wal_open_Inr by blast
  note v = wal_open_log [OF st ok]
  have c: "contents (wal_file st) = wal_header @ concat (map encode_record (stamp 1 all)) @ []"
    using v by (simp add: wal_view_def log_bytes_def)
  have "length (concat (map encode_record (stamp 1 all))) = 64 * length all"
    using stamp_hashes [OF ok] by (induction all) (auto simp: length_concat sum_list_triv comp_def cong: map_cong)
  then have "wal_record_count st = length all" using c by (simp add: wal_record_count_def Let_def)
  moreover have "monotonic st = 1 + word_of_nat (length all)" using v by (simp add: wal_view_def)
  ultimately show ?thesis
    using d st replay_requests [OF inert_wal_header ok inert_tail_short [of "[]"] c, of sha]
    unfolding all_def [symmetric] by auto
qed

theorem wal_sessions_replay_witness:
  "\<exists>data st m st'. foldl wal_session None
       [[(LeafRecord, 0, zeros 32, 0)], [(HeartbeatRecord, 0, zeros 32, 0), (LeafRecord, 1, replicate 32 5, 0)]]
       = Some data \<and>
     wal_open (Some data) False None = Inr st \<and>
     wal_replay (\<lambda>x. take 32 x) st mmr_new False = (Inr 2, m, st')"
  using wal_sessions_replay [of "[(LeafRecord, 0, zeros 32, 0)]"
      "[[(HeartbeatRecord, 0, zeros 32, 0), (LeafRecord, 1, replicate 32 5, 0)]]" "\<lambda>x. take 32 x"]
  by (force simp: requests_ok_def request_leaves_def)

text \<open>
  A log created in the running session and then synced takes its next record into its own
  header (bytes 32 to 95): the file does not grow, the record count stays, and when byte 16 of the
  hash is not 1, 2 or 3 the leaf is missing from every later replay.
\<close>

theorem wal_sync_overwrites_header:
  assumes "wal_create None = Inr st0" and "requests_ok qs" and "length h = 32" and "h ! 16 \<notin> {1, 2, 3}"
  shows "\<exists>st1 ts st2. wal_sync (foldl request_append st0 qs) None False = (Inr (), st1) \<and>
     wal_append_leaf st1 i h None = (Inr ts, st2) \<and>
     length (contents (wal_file st2)) = length (contents (wal_file (foldl request_append st0 qs))) \<and>
     slice (contents (wal_file st2)) 32 96 =
       encode_record \<lparr>rec_type = LeafRecord, rec_index = i, rec_hash = h, rec_timestamp = ts, rec_content = 0\<rparr> \<and>
     (\<exists>m st3. wal_replay sha st2 mmr_new False = (Inr (length (request_leaves qs)), m, st3) \<and>
        mmr_repr sha (request_leaves qs) m)"
proof -
  define st where "st = foldl request_append st0 qs"
  define r where "r = \<lparr>rec_type = LeafRecord, rec_index = i, rec_hash = h,
      rec_timestamp = monotonic st, rec_content = 0\<rparr>"
  have "wal_view wal_header 1 ([] @ qs) st"
    unfolding st_def using assms wal_create_view
    by (intro wal_acc.foldl_view) (simp_all add: requests_ok_def)
  then have v: "wal_view wal_header 1 qs st" by simp
  have m: "\<not> append_mode (wal_file st)"
    using assms(1) by (auto simp: st_def append_keeps_mode wal_create_def write_all_def write_bytes_def Let_def)
  have r: "length (rec_hash r) = 32" "rec_timestamp r = monotonic st"
    "record_type_from_u8 (rec_hash r ! 16) = None"
    using assms(3,4) by (simp_all add: r_def record_type_from_u8_def)
  obtain st1 st2 where s: "wal_sync st None False = (Inr (), st1)"
    "wal_append st1 (rec_type r) (rec_index r) (rec_hash r) (rec_content r) None = (Inr (rec_timestamp r), st2)"
    "contents (wal_file st2) = header_after_sync (monotonic st) r @ concat (map encode_record (stamp 1 qs))"
    using created_sync_append [OF v m r(1,2)] by blast
  have hl: "length (header_after_sync (monotonic st) r) = 256"
    using header_after_sync_inert [OF r(1,3)] by (simp add: inert_header_def)
  have "slice (contents (wal_file st2)) 32 96 = encode_record r"
    using slice_put_at_same [of 32 "encode_record r" "put_at 24 (u64_to_le (monotonic st)) wal_header"] r(1) hl
    by (simp add: s(3) slice_append_left) (simp add: header_after_sync_def)
  moreover have "length (contents (wal_file st2)) = length (contents (wal_file st))"
    using v hl by (simp add: s(3) wal_view_def)
  moreover have "\<exists>m st3. wal_replay sha st2 mmr_new False = (Inr (length (request_leaves qs)), m, st3) \<and>
        mmr_repr sha (request_leaves qs) m"
    using replay_requests [OF header_after_sync_inert [OF r(1,3)] assms(2) inert_tail_short [of "[]"]] s(3)
    by simp
  ultimately show ?thesis
    using s(1,2) unfolding st_def [symmetric] by (auto simp: wal_append_leaf_def r_def)
qed

theorem wal_sync_overwrites_header_witness:
  "\<exists>st0 st1 ts st2. wal_create None = Inr st0 \<and>
     wal_sync (foldl request_append st0 [(LeafRecord, 0, zeros 32, 0)]) None False = (Inr (), st1) \<and>
     wal_append_leaf st1 1 (replicate 32 7) None = (Inr ts, st2) \<and>
     (\<exists>m st3. wal_replay (\<lambda>x. x) st2 mmr_new False = (Inr 1, m, st3))"
proof -
  obtain st0 where st0: "wal_create None = Inr st0" by (simp add: wal_create_def write_all_def)
  show ?thesis
    using wal_sync_overwrites_header [OF st0, of "[(LeafRecord, 0, zeros 32, 0)]" "replicate 32 7" 1 "\<lambda>x. x"] st0
    by (force simp: requests_ok_def request_leaves_def)
qed

text \<open>
  A log opened from disk is in append mode, so \<^verbatim>\<open>sync\<close> adds its eight bytes at the end of the
  file instead of updating the header; the next record lies across a record boundary and, unless
  the low byte of the synced counter happens to be a record type, replay does not see it.
\<close>

theorem wal_sync_misaligns_reopened_log:
  assumes "requests_ok qs" and "wal_open (Some (log_bytes (stamp 1 qs))) False None = Inr st"
    and "length h = 32" and "u64_to_le (monotonic st) ! 0 \<notin> {1, 2, 3}"
  shows "\<exists>st1 ts st2. wal_sync st None False = (Inr (), st1) \<and>
     slice (contents (wal_file st1)) 24 32 = slice (contents (wal_file st)) 24 32 \<and>
     wal_append_leaf st1 i h None = (Inr ts, st2) \<and>
     length (contents (wal_file st2)) = length (contents (wal_file st)) + 72 \<and>
     (\<exists>m st3. wal_replay sha st2 mmr_new False = (Inr (length (request_leaves qs)), m, st3) \<and>
        mmr_repr sha (request_leaves qs) m)"
proof -
  define r where "r = \<lparr>rec_type = LeafRecord, rec_index = i, rec_hash = h,
      rec_timestamp = monotonic st, rec_content = 0\<rparr>"
  note v = wal_open_log [OF assms(2,1)]
  have m: "append_mode (wal_file st)" using assms(2) by (auto simp: wal_open_def Let_def split: if_splits)
  have r: "length (rec_hash r) = 32" "rec_timestamp r = monotonic st" using assms(3) by (simp_all add: r_def)
  obtain st1 st2 where s: "wal_sync st None False = (Inr (), st1)"
    "contents (wal_file st1) = contents (wal_file st) @ u64_to_le (monotonic st)"
    "wal_append st1 (rec_type r) (rec_index r) (rec_hash r) (rec_content r) None = (Inr (rec_timestamp r), st2)"
    "contents (wal_file st2) = contents (wal_file st) @ u64_to_le (monotonic st) @ encode_record r"
    using reopened_sync_append [OF v m r(2)] by blast
  have c: "contents (wal_file st) = wal_header @ concat (map encode_record (stamp 1 qs))"
    using v by (simp add: wal_view_def log_bytes_def)
  then have "slice (contents (wal_file st1)) 24 32 = slice (contents (wal_file st)) 24 32"
    by (simp add: s(2) slice_append_left)
  moreover have "inert_tail (u64_to_le (monotonic st) @ encode_record r)"
    using assms(4) by (intro misaligned_tail_inert r) (simp add: record_type_from_u8_def)
  then have "\<exists>m st3. wal_replay sha st2 mmr_new False = (Inr (length (request_leaves qs)), m, st3) \<and>
        mmr_repr sha (request_leaves qs) m"
    using replay_requests [OF inert_wal_header assms(1)] s(4) c by simp
  moreover have "length (contents (wal_file st2)) = length (contents (wal_file st)) + 72"
    using r(1) by (simp add: s(4))
  ultimately show ?thesis using s(1,3) by (auto simp: wal_append_leaf_def r_def)
qed

theorem wal_sync_misaligns_reopened_log_witness:
  "\<exists>st st1 ts st2 m st3.
     wal_open (Some (log_bytes (stamp 1 (replicate 3 (LeafRecord, 0, zeros 32, 0))))) False None = Inr st \<and>
     wal_sync st None False = (Inr (), st1) \<and>
     wal_append_leaf st1 0 (replicate 32 7) None = (Inr ts, st2) \<and>
     wal_replay (\<lambda>x. x) st2 mmr_new False = (Inr 3, m, st3)"
proof -
  define qs :: "wal_request list" where "qs = replicate 3 (LeafRecord, 0, zeros 32, 0)"
  obtain st where st: "wal_open (Some (log_bytes (stamp 1 qs))) False None = Inr st"
    using wal_open_Inr by blast
  have ok: "requests_ok qs" by (simp add: requests_ok_def qs_def)
  have "monotonic st = 4" using wal_open_log [OF st ok] by (simp add: wal_view_def qs_def)
  then have t: "u64_to_le (monotonic st) ! 0 \<notin> {1, 2, 3}"
    by (simp add: u64_to_le_def le_bytes_first)
  have n: "length (request_leaves qs) = 3" by (simp add: request_leaves_def qs_def)
  show ?thesis
    using wal_sync_misaligns_reopened_log [OF ok st _ t, of "replicate 32 7" 0 "\<lambda>x. x"] st n
    unfolding qs_def [symmetric] by force
qed

section \<open>The bridge between the digestor and the registry\<close>

text \<open>
  The bridge between the digestor and the registry (\<^verbatim>\<open>crates/host/src/provenance_bridge.rs\<close>): at the start it
  replays the log into a new range, its consumer thread appends every digest to the range and to the log under the
  lock, and an epoch is sealed on request. A call under the lock is one step; an error of the log is ignored, and is
  an argument.
\<close>

section \<open>The bridge\<close>

record bridge =
  br_mmr :: mmr
  br_wal :: wal_store

record bridge_seal =
  bs_epoch :: nat
  bs_root :: hash32
  bs_leaf_count :: nat

text \<open>\<open>None\<close> is the panic of a log that cannot be opened or read.\<close>

definition bridge_spawn :: "(bytes \<Rightarrow> bytes) \<Rightarrow> bytes option \<Rightarrow> bool \<Rightarrow> nat option \<Rightarrow> bool \<Rightarrow> bridge option" where
  "bridge_spawn sha disk open_fails create_fault replay_fails =
     (case wal_open disk open_fails create_fault of
        Inl e \<Rightarrow> None
      | Inr st \<Rightarrow>
          (case wal_replay sha st mmr_new replay_fails of
             (Inl e, _) \<Rightarrow> None
           | (Inr n, m, st) \<Rightarrow> Some \<lparr>br_mmr = m, br_wal = st\<rparr>))"

text \<open>The body of the consumer's loop, for a message that holds a hash.\<close>

definition bridge_consume :: "(bytes \<Rightarrow> bytes) \<Rightarrow> hash32 \<Rightarrow> nat option \<Rightarrow> bridge \<Rightarrow> bridge" where
  "bridge_consume sha h fault b =
     (let idx = leaf_count (br_mmr b); m = snd (mmr_append sha (br_mmr b) h)
      in \<lparr>br_mmr = m, br_wal = snd (wal_append_leaf (br_wal b) (word_of_nat idx) h fault)\<rparr>)"

definition seal_current_epoch :: "(bytes \<Rightarrow> bytes) \<Rightarrow> bridge \<Rightarrow> bridge_seal option \<times> bridge" where
  "seal_current_epoch sha b =
     (if leaf_count (br_mmr b) = 0 then (None, b)
      else case seal_epoch sha (br_mmr b) of
        (Inl e, m) \<Rightarrow> (None, b\<lparr>br_mmr := m\<rparr>)
      | (Inr s, m) \<Rightarrow> (Some \<lparr>bs_epoch = seal_epoch_no s, bs_root = seal_root s, bs_leaf_count = seal_leaf_count s\<rparr>,
                      b\<lparr>br_mmr := m\<rparr>))"

datatype bridge_event = Digest hash32 | SealNow

fun bridge_step :: "(bytes \<Rightarrow> bytes) \<Rightarrow> bridge \<Rightarrow> bridge_event \<Rightarrow> bridge" where
  "bridge_step sha b (Digest h) = bridge_consume sha h None b"
| "bridge_step sha b SealNow = snd (seal_current_epoch sha b)"

text \<open>One life of the process: what it leaves on disk.\<close>

definition bridge_session :: "(bytes \<Rightarrow> bytes) \<Rightarrow> bytes option \<Rightarrow> bridge_event list \<Rightarrow> bytes option" where
  "bridge_session sha disk evs =
     (case bridge_spawn sha disk False None False of
        None \<Rightarrow> disk
      | Some b \<Rightarrow> Some (contents (wal_file (br_wal (foldl (bridge_step sha) b evs)))))"

section \<open>The log and the range\<close>

fun digests :: "bridge_event list \<Rightarrow> hash32 list" where
  "digests [] = []"
| "digests (Digest h # evs) = h # digests evs"
| "digests (SealNow # evs) = digests evs"

text \<open>The log holds exactly the leaves, in order.\<close>

definition log_of :: "hash32 list \<Rightarrow> bytes \<Rightarrow> bool" where
  "log_of hs data \<longleftrightarrow> (\<exists>rs. data = wal_header @ concat (map encode_record rs) \<and> leaf_hashes rs = hs \<and>
     (\<forall>r \<in> set rs. length (rec_hash r) = 32))"

definition bridge_view :: "(bytes \<Rightarrow> bytes) \<Rightarrow> hash32 list \<Rightarrow> bridge \<Rightarrow> bool" where
  "bridge_view sha hs b \<longleftrightarrow> mmr_repr sha hs (br_mmr b) \<and> log_of hs (contents (wal_file (br_wal b))) \<and>
     write_pos (wal_file (br_wal b)) = length (contents (wal_file (br_wal b)))"

lemma consume_view:
  assumes "bridge_view sha hs b" "length h = 32"
  shows "bridge_view sha (hs @ [h]) (bridge_consume sha h None b)"
proof -
  obtain rs where rs: "contents (wal_file (br_wal b)) = wal_header @ concat (map encode_record rs)" "leaf_hashes rs = hs"
    "\<forall>r \<in> set rs. length (rec_hash r) = 32" using assms(1) by (auto simp: bridge_view_def log_of_def)
  define r where "r = \<lparr>rec_type = LeafRecord, rec_index = word_of_nat (leaf_count (br_mmr b)), rec_hash = h,
      rec_timestamp = monotonic (br_wal b), rec_content = 0\<rparr>"
  let ?f = "wal_file (br_wal (bridge_consume sha h None b))"
  have pos: "write_pos (wal_file (br_wal b)) = length (contents (wal_file (br_wal b)))" using assms(1) by (simp add: bridge_view_def)
  have f: "?f = write_bytes (wal_file (br_wal b)) (encode_record r)"
    by (simp add: bridge_consume_def Let_def wal_append_leaf_def wal_append_def write_all_def r_def)
  have c: "contents ?f = wal_header @ concat (map encode_record (rs @ [r]))"
    unfolding f using write_bytes_at_end(1) [OF pos] rs(1) by simp
  have "write_pos ?f = length (contents ?f)"
    unfolding f using write_pos_after [OF pos] by simp
  moreover have "leaf_hashes (rs @ [r]) = hs @ [h]" using rs(2) by (simp add: leaf_hashes_def r_def)
  moreover have "\<forall>x \<in> set (rs @ [r]). length (rec_hash x) = 32" using rs(3) assms(2) by (simp add: r_def)
  moreover have "mmr_repr sha (hs @ [h]) (br_mmr (bridge_consume sha h None b))"
    using assms(1) mmr_append_repr(2) by (simp add: bridge_consume_def Let_def bridge_view_def)
  ultimately show ?thesis using c unfolding bridge_view_def log_of_def by blast
qed

lemma seal_view: "bridge_view sha hs b \<Longrightarrow> bridge_view sha hs (snd (seal_current_epoch sha b))"
  using seal_repr [of sha hs "br_mmr b"]
  by (auto simp: seal_current_epoch_def bridge_view_def split: prod.splits sum.splits)

lemma run_view:
  "bridge_view sha hs b \<Longrightarrow> \<forall>h \<in> set (digests evs). length h = 32 \<Longrightarrow>
     bridge_view sha (hs @ digests evs) (foldl (bridge_step sha) b evs)"
proof (induction evs arbitrary: hs b)
  case (Cons ev evs)
  show ?case
  proof (cases ev)
    case (Digest h)
    then show ?thesis using Cons.IH [OF consume_view [OF Cons.prems(1), of h]] Cons.prems(2) by simp
  next
    case SealNow
    then show ?thesis using Cons.IH [OF seal_view [OF Cons.prems(1)]] Cons.prems(2) by simp
  qed
qed simp

text \<open>A start on a missing file or on a log.\<close>

definition disk_of :: "hash32 list \<Rightarrow> bytes option \<Rightarrow> bool" where
  "disk_of hs disk \<longleftrightarrow> (case disk of None \<Rightarrow> hs = [] | Some data \<Rightarrow> log_of hs data)"

lemma add_leaves_epoch: "epoch (add_leaves sha m hs) = epoch m"
proof (induction hs arbitrary: m)
  case (Cons h hs)
  have "epoch (snd (mmr_append sha m h)) = epoch m" by (simp add: mmr_append_def Let_def split: prod.splits)
  then show ?case using Cons by (simp add: add_leaves_def)
qed (simp add: add_leaves_def)

lemma spawn_view:
  assumes "disk_of hs disk"
  shows "\<exists>b. bridge_spawn sha disk False None False = Some b \<and> bridge_view sha hs b \<and> epoch (br_mmr b) = 0"
proof -
  obtain st where st: "wal_open disk False None = Inr st" using wal_open_Inr by blast
  have "log_of hs (contents (wal_file st)) \<and> write_pos (wal_file st) = length (contents (wal_file st))"
  proof (cases disk)
    case None
    then have "wal_view wal_header 1 [] st" using st wal_create_view by (simp add: wal_open_def)
    then show ?thesis using assms None by (auto simp: disk_of_def wal_view_def log_of_def leaf_hashes_def intro: exI [of _ "[]"])
  next
    case (Some data)
    then show ?thesis using assms st by (auto simp: disk_of_def wal_open_def Let_def write_pos_def split: if_splits)
  qed
  then obtain rs where rs: "contents (wal_file st) = wal_header @ concat (map encode_record rs)" "leaf_hashes rs = hs"
    "\<forall>r \<in> set rs. length (rec_hash r) = 32" and log: "log_of hs (contents (wal_file st))"
    and pos: "write_pos (wal_file st) = length (contents (wal_file st))" by (auto simp: log_of_def)
  obtain st' where "wal_replay sha st mmr_new False = (Inr (length hs), add_leaves sha mmr_new hs, st')" "wal_file st' = wal_file st"
    using replay_log [OF inert_wal_header rs(3), of st "[]" sha mmr_new] rs(1,2) inert_tail_short by auto
  then show ?thesis
    using st log pos add_leaves_repr [OF mmr_repr_new, of sha hs] add_leaves_epoch [of sha mmr_new hs]
    by (simp add: bridge_spawn_def bridge_view_def) (simp add: mmr_new_def)
qed

lemma session_log:
  assumes "disk_of hs disk" "\<forall>h \<in> set (digests evs). length h = 32"
  shows "\<exists>data. bridge_session sha disk evs = Some data \<and> log_of (hs @ digests evs) data"
proof -
  obtain b where b: "bridge_spawn sha disk False None False = Some b" "bridge_view sha hs b"
    using spawn_view [OF assms(1)] by blast
  then show ?thesis using run_view [OF b(2) assms(2)] by (simp add: bridge_session_def bridge_view_def)
qed

lemma sessions_log:
  "\<forall>evs \<in> set ess. \<forall>h \<in> set (digests evs). length h = 32 \<Longrightarrow> disk_of hs disk \<Longrightarrow>
     disk_of (hs @ concat (map digests ess)) (foldl (bridge_session sha) disk ess)"
proof (induction ess arbitrary: disk hs)
  case (Cons evs ess)
  obtain data where "bridge_session sha disk evs = Some data" "log_of (hs @ digests evs) data"
    using session_log [where disk = disk and hs = hs and evs = evs and sha = sha] Cons.prems by auto
  then show ?case using Cons.IH [where disk = "Some data" and hs = "hs @ digests evs"] Cons.prems(1) by (simp add: disk_of_def)
qed simp

text \<open>The range of a running bridge, whatever happens to its writes.\<close>

lemma consume_range:
  assumes "mmr_repr sha hs (br_mmr b)" "epoch (br_mmr b) = n"
  shows "mmr_repr sha (hs @ map fst ds) (br_mmr (foldl (\<lambda>b (h, fault). bridge_consume sha h fault b) b ds)) \<and>
    epoch (br_mmr (foldl (\<lambda>b (h, fault). bridge_consume sha h fault b) b ds)) = n"
  using assms
proof (induction ds arbitrary: hs b)
  case (Cons d ds)
  obtain h fault where d: "d = (h, fault)" by force
  have "mmr_repr sha (hs @ [h]) (br_mmr (bridge_consume sha h fault b))"
    using Cons.prems(1) mmr_append_repr(2) by (simp add: bridge_consume_def Let_def)
  moreover have "epoch (br_mmr (bridge_consume sha h fault b)) = n"
    using Cons.prems(2) by (simp add: bridge_consume_def Let_def mmr_append_def split: prod.splits)
  ultimately show ?case using Cons.IH [of "hs @ [h]" "bridge_consume sha h fault b"] by (simp add: d)
qed simp

lemma seal_counts:
  assumes "mmr_repr sha hs (br_mmr b)" "epoch (br_mmr b) = n"
  shows "map_option (\<lambda>s. (bs_epoch s, bs_leaf_count s)) (fst (seal_current_epoch sha b)) = (if hs = [] then None else Some (n, length hs))"
  using assms by (auto simp: seal_current_epoch_def seal_epoch_def mmr_repr_def)

section \<open>Property\<close>

text \<open>
  C40: however many times the process is stopped and started, as long as the log can be opened and written, the range it
  starts with holds exactly the digests of all its earlier lives in order, but the number of the epoch starts at zero again:
  the log has no seals. So the first seal of the next life, after whatever digests have come in it and whatever became of their
  writes, has the number zero and counts all leaves of all lives: seals of different content carry the same number.
\<close>

theorem bridge_restart:
  assumes "\<forall>evs \<in> set ess. \<forall>h \<in> set (digests evs). length h = 32"
  shows "\<exists>b. bridge_spawn sha (foldl (bridge_session sha) None ess) False None False = Some b \<and>
    mmr_repr sha (concat (map digests ess)) (br_mmr b) \<and> epoch (br_mmr b) = 0 \<and>
    (\<forall>ds. map_option (\<lambda>s. (bs_epoch s, bs_leaf_count s))
        (fst (seal_current_epoch sha (foldl (\<lambda>b (h, fault). bridge_consume sha h fault b) b ds))) =
      (if concat (map digests ess) = [] \<and> ds = [] then None else Some (0, length (concat (map digests ess)) + length ds)))"
proof -
  have "disk_of (concat (map digests ess)) (foldl (bridge_session sha) None ess)"
    using sessions_log [OF assms, where disk = None and hs = "[]" and sha = sha] by (simp add: disk_of_def)
  from spawn_view [OF this, where sha = sha] obtain b where b: "bridge_spawn sha (foldl (bridge_session sha) None ess) False None False = Some b"
    "bridge_view sha (concat (map digests ess)) b" "epoch (br_mmr b) = 0" by blast
  then have r: "mmr_repr sha (concat (map digests ess)) (br_mmr b)" by (simp add: bridge_view_def)
  show ?thesis
    using b r seal_counts [OF consume_range [OF r b(3), THEN conjunct1] consume_range [OF r b(3), THEN conjunct2]]
    by (intro exI [of _ b] conjI allI) simp_all
qed

theorem bridge_restart_witness:
  "\<exists>b. bridge_spawn (\<lambda>x. take 32 x) (foldl (bridge_session (\<lambda>x. take 32 x)) None [[Digest (zeros 32), SealNow], [Digest (zeros 32), SealNow]]) False None False = Some b \<and>
     map_option (\<lambda>s. (bs_epoch s, bs_leaf_count s))
       (fst (seal_current_epoch (\<lambda>x. take 32 x) (foldl (\<lambda>b (h, fault). bridge_consume (\<lambda>x. take 32 x) h fault b) b [(zeros 32, Some 1)]))) = Some (0, 3)"
proof -
  have "\<forall>evs \<in> set [[Digest (zeros 32), SealNow], [Digest (zeros 32), SealNow]]. \<forall>h \<in> set (digests evs). length h = 32" by simp
  note run = bridge_restart [OF this, of "\<lambda>x. take 32 x"]
  show ?thesis
    using run by (rule ex_forward) (elim conjE, intro conjI, assumption, erule allE [where x = "[(zeros 32, Some 1)]"], simp add: numeral_3_eq_3)
qed

end
