(* ===== verification/Zk_Prover.thy ===== *)
theory Zk_Prover
  imports Mmr_Props
begin

text \<open>
  The proof engine of \<^verbatim>\<open>nexoia-core/zk_prover/src/lib.rs\<close> and its worker thread
  (\<^verbatim>\<open>worker.rs\<close>): statements and witnesses, the stub commitment, the registry of sealed epochs,
  inclusion and nullification proofs. Numbers that come from the range are \<open>nat\<close> as in \<open>Mmr\<close>;
  the commitment encodes them in eight bytes.
\<close>

section \<open>Statements, witnesses and proofs\<close>

record zk_statement =
  st_epoch_root :: hash32
  st_leaf_index :: nat
  st_epoch :: nat
  st_is_nullified :: bool

record zk_witness =
  wit_leaf_hash :: hash32
  wit_merkle_path :: "(hash32 \<times> bool) list"

text \<open>The \<^verbatim>\<open>Drop\<close> of a witness overwrites the leaf hash and every path hash.\<close>

definition witness_drop :: "zk_witness \<Rightarrow> zk_witness" where
  "witness_drop w =
     \<lparr>wit_leaf_hash = zeros 32, wit_merkle_path = map (\<lambda>e. (zeros 32, snd e)) (wit_merkle_path w)\<rparr>"

record zk_proof =
  pf_statement :: zk_statement
  pf_bytes :: hash32
  pf_is_stub :: bool

definition stub_preimage :: "zk_statement \<Rightarrow> bytes" where
  "stub_preimage s =
     st_epoch_root s @ le_bytes 8 (st_leaf_index s) @ le_bytes 8 (st_epoch s) @
       [if st_is_nullified s then 1 else 0]"

definition derive_stub_commitment :: "(bytes \<Rightarrow> bytes) \<Rightarrow> zk_statement \<Rightarrow> hash32" where
  "derive_stub_commitment sha s = sha (stub_preimage s)"

text \<open>\<open>None\<close> is the panic of \<^verbatim>\<open>unimplemented!\<close> for a proof that is no stub.\<close>

definition zk_verify :: "(bytes \<Rightarrow> bytes) \<Rightarrow> zk_proof \<Rightarrow> bool option" where
  "zk_verify sha p =
     (if pf_is_stub p then Some (derive_stub_commitment sha (pf_statement p) = pf_bytes p) else None)"

fun recompute_root :: "(bytes \<Rightarrow> bytes) \<Rightarrow> hash32 \<Rightarrow> (hash32 \<times> bool) list \<Rightarrow> hash32" where
  "recompute_root sha cur [] = cur"
| "recompute_root sha cur ((sib, right) # path) =
     recompute_root sha (if right then merge_hashes sha cur sib else merge_hashes sha sib cur) path"

section \<open>The engine\<close>

datatype prover_error =
    UnknownEpoch nat
  | InvalidWitness
  | LeafNotNullified nat
  | RealProofNotImplemented

record consolidation_result =
  con_epoch :: nat
  con_root :: hash32
  con_ready :: bool

record stub_prover =
  sealed_epochs :: "epoch_seal list"

definition stub_prover_new :: stub_prover where
  "stub_prover_new = \<lparr>sealed_epochs = []\<rparr>"

definition verify_witness_internally ::
  "(bytes \<Rightarrow> bytes) \<Rightarrow> zk_statement \<Rightarrow> zk_witness \<Rightarrow> prover_error + unit" where
  "verify_witness_internally sha s w =
     (if recompute_root sha (wit_leaf_hash w) (wit_merkle_path w) \<noteq> st_epoch_root s
      then Inl InvalidWitness else Inr ())"

definition consolidate :: "stub_prover \<Rightarrow> epoch_seal \<Rightarrow> consolidation_result \<times> stub_prover" where
  "consolidate P seal =
     (\<lparr>con_epoch = seal_epoch_no seal, con_root = seal_root seal, con_ready = True\<rparr>,
      P\<lparr>sealed_epochs := sealed_epochs P @ [seal]\<rparr>)"

definition prove_inclusion ::
  "(bytes \<Rightarrow> bytes) \<Rightarrow> stub_prover \<Rightarrow> zk_statement \<Rightarrow> zk_witness \<Rightarrow> prover_error + zk_proof" where
  "prove_inclusion sha P s w =
     (if \<not> (\<exists>e \<in> set (sealed_epochs P). seal_root e = st_epoch_root s \<and> seal_epoch_no e = st_epoch s)
      then Inl (UnknownEpoch (st_epoch s))
      else case verify_witness_internally sha s w of
             Inl e \<Rightarrow> Inl e
           | Inr _ \<Rightarrow> Inr \<lparr>pf_statement = s, pf_bytes = derive_stub_commitment sha s, pf_is_stub = True\<rparr>)"

definition prove_nullification ::
  "(bytes \<Rightarrow> bytes) \<Rightarrow> stub_prover \<Rightarrow> zk_statement \<Rightarrow> zk_witness \<Rightarrow> prover_error + zk_proof" where
  "prove_nullification sha P s w =
     (if \<not> st_is_nullified s then Inl (LeafNotNullified (st_leaf_index s)) else prove_inclusion sha P s w)"

definition sealed_epoch_count :: "stub_prover \<Rightarrow> nat" where
  "sealed_epoch_count P = length (sealed_epochs P)"

definition get_seal :: "stub_prover \<Rightarrow> nat \<Rightarrow> epoch_seal option" where
  "get_seal P e = find (\<lambda>s. seal_epoch_no s = e) (sealed_epochs P)"

section \<open>The worker\<close>

datatype prover_command = SealCommand epoch_seal | ShutdownCommand

text \<open>
  The loop over the commands the channel delivers; the list ends when the senders are gone. The
  result is the engine and the proofs offered to \<^verbatim>\<open>try_send\<close>, oldest first.
\<close>

definition worker_proof :: "(bytes \<Rightarrow> bytes) \<Rightarrow> consolidation_result \<Rightarrow> zk_proof" where
  "worker_proof sha r =
     (let s = \<lparr>st_epoch_root = con_root r, st_leaf_index = 0, st_epoch = con_epoch r, st_is_nullified = False\<rparr>
      in \<lparr>pf_statement = s, pf_bytes = derive_stub_commitment sha s, pf_is_stub = True\<rparr>)"

fun worker_run :: "(bytes \<Rightarrow> bytes) \<Rightarrow> stub_prover \<Rightarrow> prover_command list \<Rightarrow> stub_prover \<times> zk_proof list" where
  "worker_run sha P [] = (P, [])"
| "worker_run sha P (ShutdownCommand # cmds) = (P, [])"
| "worker_run sha P (SealCommand seal # cmds) =
     (let (r, P') = consolidate P seal;
          (Q, ps) = worker_run sha P' cmds
      in (Q, if con_ready r then worker_proof sha r # ps else ps))"

section \<open>Facts\<close>

lemma recompute_root_fold: "recompute_root sha cur path = fold_path sha cur path"
  by (induction sha cur path rule: recompute_root.induct) (simp_all add: fold_path_def)

lemma verify_witness_ok:
  "verify_witness_internally sha s w = Inr () \<longleftrightarrow>
     fold_path sha (wit_leaf_hash w) (wit_merkle_path w) = st_epoch_root s"
  by (simp add: verify_witness_internally_def recompute_root_fold)

lemma prove_inclusion_Inr:
  "prove_inclusion sha P s w = Inr p \<longleftrightarrow>
     (\<exists>e \<in> set (sealed_epochs P). seal_root e = st_epoch_root s \<and> seal_epoch_no e = st_epoch s) \<and>
     fold_path sha (wit_leaf_hash w) (wit_merkle_path w) = st_epoch_root s \<and>
     p = \<lparr>pf_statement = s, pf_bytes = derive_stub_commitment sha s, pf_is_stub = True\<rparr>"
  by (auto simp: prove_inclusion_def verify_witness_internally_def recompute_root_fold)

lemma stub_proof_verifies:
  "zk_verify sha \<lparr>pf_statement = s, pf_bytes = derive_stub_commitment sha s, pf_is_stub = True\<rparr> = Some True"
  by (simp add: zk_verify_def)

lemma le_bytes_inj: "x < 256 ^ n \<Longrightarrow> y < 256 ^ n \<Longrightarrow> le_bytes n x = le_bytes n y \<Longrightarrow> x = y"
  by (metis nat_of_le_le_bytes mod_less)

definition statement_ok :: "zk_statement \<Rightarrow> bool" where
  "statement_ok s \<longleftrightarrow> length (st_epoch_root s) = 32 \<and> st_leaf_index s < 2 ^ 64 \<and> st_epoch s < 2 ^ 64"

lemma stub_preimage_inj:
  assumes "statement_ok s" "statement_ok t" "stub_preimage s = stub_preimage t" shows "s = t"
proof -
  have "st_epoch_root s = st_epoch_root t \<and> le_bytes 8 (st_leaf_index s) = le_bytes 8 (st_leaf_index t) \<and>
      le_bytes 8 (st_epoch s) = le_bytes 8 (st_epoch t) \<and> st_is_nullified s = st_is_nullified t"
    using assms by (simp add: stub_preimage_def statement_ok_def split: if_splits)
  then show ?thesis
    using assms(1,2) by (auto simp: statement_ok_def intro!: zk_statement.equality le_bytes_inj [of _ 8])
qed

text \<open>Dropping a witness leaves only the shape of its path.\<close>

lemma witness_drop_shape:
  "witness_drop v = witness_drop w \<longleftrightarrow> map snd (wit_merkle_path v) = map snd (wit_merkle_path w)"
  by (auto simp: witness_drop_def list_eq_iff_nth_eq)

fun seals_before_shutdown :: "prover_command list \<Rightarrow> epoch_seal list" where
  "seals_before_shutdown (SealCommand s # cmds) = s # seals_before_shutdown cmds"
| "seals_before_shutdown _ = []"

lemma worker_run_seals:
  "worker_run sha P cmds =
     (P\<lparr>sealed_epochs := sealed_epochs P @ seals_before_shutdown cmds\<rparr>,
      map (\<lambda>s. worker_proof sha (fst (consolidate P s))) (seals_before_shutdown cmds))"
  by (induction sha P cmds rule: worker_run.induct)
     (simp_all add: consolidate_def)

end
