(* ===== verification/Zk_Theorems.thy ===== *)
theory Zk_Theorems
  imports Zk_Prover
begin

text \<open>
  The properties of the proof engine: completeness for a sealed full tree, soundness of an accepted
  path under collision freedom on the inputs that were hashed, what the statement does not
  check, the binding of the stub commitment and the proofs of the worker.
\<close>

section \<open>Soundness of a Merkle path\<close>

text \<open>The inputs hashed to build a tree, and those hashed to check a path.\<close>

primrec tree_inputs :: "(bytes \<Rightarrow> bytes) \<Rightarrow> ptree \<Rightarrow> bytes set" where
  "tree_inputs sha (Tip h) = {}"
| "tree_inputs sha (Fork l r) =
     insert (root_of sha l @ root_of sha r) (tree_inputs sha l \<union> tree_inputs sha r)"

fun path_inputs :: "(bytes \<Rightarrow> bytes) \<Rightarrow> hash32 \<Rightarrow> (hash32 \<times> bool) list \<Rightarrow> bytes set" where
  "path_inputs sha x [] = {}"
| "path_inputs sha x ((s, right) # path) =
     (let i = (if right then x @ s else s @ x) in insert i (path_inputs sha (sha i) path))"

text \<open>The leaf index a path stands for: bit \<open>i\<close> is set when the sibling of round \<open>i\<close> is on the left.\<close>

fun path_index :: "(hash32 \<times> bool) list \<Rightarrow> nat" where
  "path_index [] = 0"
| "path_index ((s, right) # path) = (if right then 0 else 1) + 2 * path_index path"

lemma path_inputs_snoc:
  "path_inputs sha x (path @ [(s, right)]) =
     insert (if right then fold_path sha x path @ s else s @ fold_path sha x path) (path_inputs sha x path)"
  by (induction sha x path rule: path_inputs.induct) (auto simp: fold_path_def merge_hashes_def Let_def)

lemma path_index_snoc:
  "path_index (path @ [(s, right)]) = path_index path + (if right then 0 else 2 ^ length path)"
  by (induction path rule: path_index.induct) auto

lemma path_index_less: "path_index path < 2 ^ length path"
  by (induction path rule: path_index.induct) auto

lemma fold_path_snoc:
  "fold_path sha x (path @ [(s, right)]) =
     (if right then merge_hashes sha (fold_path sha x path) s else merge_hashes sha s (fold_path sha x path))"
  by (simp add: fold_path_def)

lemma length_fold_path:
  assumes "digest32 sha" "length x = 32" shows "length (fold_path sha x path) = 32"
proof (cases path rule: rev_cases)
  case (snoc p e)
  then show ?thesis using assms(1) by (cases e) (simp add: fold_path_snoc merge_hashes_def digest32_length)
qed (simp add: fold_path_def assms)

lemma length_root_of:
  "digest32 sha \<Longrightarrow> \<forall>h \<in> set (leaves t). length h = 32 \<Longrightarrow> length (root_of sha t) = 32"
  by (cases t) (simp_all add: merge_hashes_def digest32_length)

text \<open>
  A path of the height of the tree that folds to its root starts at the leaf it points to, unless
  two different inputs among those hashed collide.
\<close>

lemma merkle_path_sound:
  assumes "digest32 sha"
  shows "perfect t \<Longrightarrow> length path = ht t \<Longrightarrow> length x = 32 \<Longrightarrow> \<forall>e \<in> set path. length (fst e) = 32 \<Longrightarrow>
    \<forall>h \<in> set (leaves t). length h = 32 \<Longrightarrow> inj_on sha (tree_inputs sha t \<union> path_inputs sha x path) \<Longrightarrow>
    fold_path sha x path = root_of sha t \<Longrightarrow> x = leaves t ! path_index path"
proof (induction t arbitrary: path)
  case (Tip h)
  then show ?case by (simp add: fold_path_def)
next
  case (Fork l r)
  then obtain p s d where path: "path = p @ [(s, d)]"
    by (metis ht.simps(2) length_Suc_conv_rev prod.collapse Suc_eq_plus1)
  have len: "length s = 32" "length (fold_path sha x p) = 32" "length (root_of sha l) = 32"
    "length (root_of sha r) = 32"
    using Fork.prems path assms by (auto simp: length_fold_path length_root_of)
  let ?i = "if d then fold_path sha x p @ s else s @ fold_path sha x p"
  have "sha ?i = sha (root_of sha l @ root_of sha r)"
    using Fork.prems(7) by (simp add: path fold_path_snoc merge_hashes_def split: if_splits)
  moreover have "?i \<in> path_inputs sha x path" by (simp add: path path_inputs_snoc)
  ultimately have eq: "?i = root_of sha l @ root_of sha r"
    using Fork.prems(6) by (elim inj_onD) auto
  have sub: "inj_on sha (tree_inputs sha l \<union> path_inputs sha x p)"
    "inj_on sha (tree_inputs sha r \<union> path_inputs sha x p)"
    using Fork.prems(6) by (auto simp: path path_inputs_snoc elim!: inj_on_subset)
  have l: "length (leaves l) = 2 ^ length p"
    using Fork.prems path by (simp add: length_leaves_perfect)
  show ?case
  proof (cases d)
    case True
    then have "x = leaves l ! path_index p"
      using Fork.prems path eq len sub by (intro Fork.IH(1)) auto
    then show ?thesis using path_index_less [of p] l True by (simp add: path path_index_snoc nth_append)
  next
    case False
    then have "x = leaves r ! path_index p"
      using Fork.prems path eq len sub by (intro Fork.IH(2)) auto
    then show ?thesis using l False by (simp add: path path_index_snoc nth_append)
  qed
qed

lemma full_tree:
  assumes "length hs = 2 ^ n"
  obtains t where "forest hs = [t]" "perfect t" "leaves t = hs" "ht t = n"
proof -
  have "length (forest hs) = 1"
    using length_forest [of hs] count_ones_shift [of n 1] count_ones_double_Suc [of 0] assms by simp
  then obtain t where t: "forest hs = [t]" by (auto simp: length_Suc_conv)
  then have p: "perfect t" "leaves t = hs"
    using forest_ok_forest [of hs] fleaves_forest [of hs] by (simp_all add: forest_ok_def)
  then have "(2::nat) ^ ht t = 2 ^ n" using assms length_leaves_perfect [OF p(1)] by simp
  then show ?thesis using that t p by simp
qed

lemma full_tree_root:
  assumes "length (appended ops) = 2 ^ n" "seal_epoch sha (mmr_exec sha ops) = (Inr seal, m')"
  obtains t where "perfect t" "leaves t = appended ops" "ht t = n" "seal_root seal = root_of sha t"
    "forest (appended ops) = [t]"
proof -
  obtain t where t: "forest (appended ops) = [t]" "perfect t" "leaves t = appended ops" "ht t = n"
    using full_tree [OF assms(1)] .
  have ne: "appended ops \<noteq> []" using assms(1) by auto
  have "seal_root seal = bag_peaks sha (mmr_exec sha ops)"
    using assms(2) by (auto simp: seal_epoch_def split: if_splits)
  then have "seal_root seal = root_of sha t"
    using bag_peaks_repr [OF mmr_exec_repr ne] t(1) by (simp add: bag_def peak_roots_def)
  then show ?thesis using that t by blast
qed

section \<open>Properties\<close>

text \<open>
  C7: completeness: once a range whose leaf count is a power of two is sealed and the seal
  consolidated, the proof the range generates for any leaf is a witness the engine accepts, for an
  inclusion statement and, flagged as nullified, for a nullification statement; both proofs
  verify, whether or not the leaf or any other is nullified in the range.
\<close>

theorem zk_inclusion_complete:
  assumes "length (appended ops) = 2 ^ n" and "k < length (appended ops)"
    and "seal_epoch sha (mmr_exec sha ops) = (Inr seal, m')"
  shows "\<exists>p pf pf'. generate_proof sha (snd (nullify m' i)) k = Inr p \<and> proof_leaf p = appended ops ! k \<and>
     prove_inclusion sha (snd (consolidate P seal))
       \<lparr>st_epoch_root = seal_root seal, st_leaf_index = k, st_epoch = seal_epoch_no seal, st_is_nullified = False\<rparr>
       \<lparr>wit_leaf_hash = proof_leaf p, wit_merkle_path = proof_siblings p\<rparr> = Inr pf \<and>
     prove_nullification sha (snd (consolidate P seal))
       \<lparr>st_epoch_root = seal_root seal, st_leaf_index = k, st_epoch = seal_epoch_no seal, st_is_nullified = True\<rparr>
       \<lparr>wit_leaf_hash = proof_leaf p, wit_merkle_path = proof_siblings p\<rparr> = Inr pf' \<and>
     zk_verify sha pf = Some True \<and> zk_verify sha pf' = Some True"
proof -
  obtain t where t: "seal_root seal = root_of sha t" "forest (appended ops) = [t]"
    using full_tree_root [OF assms(1,3)] by metis
  have "m' = snd (seal_epoch sha (mmr_exec sha ops))" using assms(3) by simp
  then have "mmr_repr sha (appended ops) (snd (nullify m' i))"
    using nullify_repr [OF seal_repr [OF mmr_exec_repr]] by simp
  then obtain p where p: "generate_proof sha (snd (nullify m' i)) k = Inr p" "proof_leaf p = appended ops ! k"
    "fold_path sha (proof_leaf p) (proof_siblings p) = root_of sha (fst (peak_of (forest (appended ops)) k))"
    using generate_proof_ok [OF _ assms(2)] by metis
  then show ?thesis
    by (simp add: prove_nullification_def prove_inclusion_Inr consolidate_def t stub_proof_verifies)
qed

theorem zk_inclusion_complete_witness:
  "\<exists>m' seal p pf. seal_epoch (\<lambda>x. x) (mmr_exec (\<lambda>x. x) [Append [1], Append [2]]) = (Inr seal, m') \<and>
     generate_proof (\<lambda>x. x) (snd (nullify m' 1)) 1 = Inr p \<and>
     prove_nullification (\<lambda>x. x) (snd (consolidate stub_prover_new seal))
       \<lparr>st_epoch_root = seal_root seal, st_leaf_index = 1, st_epoch = seal_epoch_no seal, st_is_nullified = True\<rparr>
       \<lparr>wit_leaf_hash = proof_leaf p, wit_merkle_path = proof_siblings p\<rparr> = Inr pf"
proof -
  let ?ops = "[Append [1], Append [2]]"
  have "leaf_count (mmr_exec (\<lambda>x. x) ?ops) = 2"
    using mmr_exec_repr [of "\<lambda>x. x" ?ops] by (simp add: mmr_repr_def)
  then obtain seal m' where s: "seal_epoch (\<lambda>x. x) (mmr_exec (\<lambda>x. x) ?ops) = (Inr seal, m')"
    by (auto simp: seal_epoch_def)
  show ?thesis
    using zk_inclusion_complete [of ?ops 1 1 "\<lambda>x. x" seal m' 1 stub_prover_new] s by fastforce
qed

text \<open>
  C6: soundness: if the engine accepts a witness whose path has the height of the sealed full tree,
  then the witness's leaf is the leaf at the index the path's directions spell, provided the
  hash has no collision among the inputs hashed for the tree and for the path.
\<close>

theorem zk_inclusion_sound:
  assumes "digest32 sha" and "length (appended ops) = 2 ^ n" and "\<forall>h \<in> set (appended ops). length h = 32"
    and "seal_epoch sha (mmr_exec sha ops) = (Inr seal, m')" and "st_epoch_root s = seal_root seal"
    and "prove_inclusion sha P s w = Inr pf" and "length (wit_merkle_path w) = n"
    and "length (wit_leaf_hash w) = 32" and "\<forall>e \<in> set (wit_merkle_path w). length (fst e) = 32"
    and "\<And>t. forest (appended ops) = [t] \<Longrightarrow>
      inj_on sha (tree_inputs sha t \<union> path_inputs sha (wit_leaf_hash w) (wit_merkle_path w))"
  shows "path_index (wit_merkle_path w) < length (appended ops) \<and>
     wit_leaf_hash w = appended ops ! path_index (wit_merkle_path w)"
proof -
  obtain t where t: "perfect t" "leaves t = appended ops" "ht t = n" "seal_root seal = root_of sha t"
    "forest (appended ops) = [t]"
    using full_tree_root [OF assms(2,4)] .
  have "fold_path sha (wit_leaf_hash w) (wit_merkle_path w) = root_of sha t"
    using assms(5,6) t(4) by (simp add: prove_inclusion_Inr)
  then have "wit_leaf_hash w = leaves t ! path_index (wit_merkle_path w)"
    using assms t by (intro merkle_path_sound [OF assms(1) t(1)]) simp_all
  then show ?thesis using path_index_less [of "wit_merkle_path w"] assms(2,7) t(2) by simp
qed

theorem zk_inclusion_sound_witness:
  "\<exists>sha seal m' P s w. seal_epoch sha (mmr_exec sha [Append (replicate 32 1), Append (replicate 32 2)]) = (Inr seal, m') \<and>
     (\<exists>pf. prove_inclusion sha P s w = Inr pf) \<and>
     wit_leaf_hash w = appended [Append (replicate 32 1), Append (replicate 32 2)] ! path_index (wit_merkle_path w)"
proof -
  let ?a = "replicate 32 (1::byte)" and ?b = "replicate 32 (2::byte)"
  let ?ops = "[Append ?a, Append ?b]"
  define sha where "sha = (\<lambda>x :: bytes. replicate 32 (3::byte))"
  have f: "forest (appended ?ops) = [Fork (Tip ?a) (Tip ?b)]" by (simp add: forest_def)
  have "leaf_count (mmr_exec sha ?ops) = 2"
    using mmr_exec_repr [of sha ?ops] by (simp add: mmr_repr_def)
  then obtain seal m' where s: "seal_epoch sha (mmr_exec sha ?ops) = (Inr seal, m')"
    by (auto simp: seal_epoch_def)
  have r: "seal_root seal = sha (?a @ ?b)"
  proof -
    obtain t where "forest (appended ?ops) = [t]" "seal_root seal = root_of sha t"
      by (rule full_tree_root [of ?ops 1 sha seal m', OF _ s]) simp_all
    then show ?thesis using f by (simp add: merge_hashes_def)
  qed
  define st where "st = \<lparr>st_epoch_root = seal_root seal, st_leaf_index = 1, st_epoch = seal_epoch_no seal, st_is_nullified = False\<rparr>"
  define w where "w = \<lparr>wit_leaf_hash = ?b, wit_merkle_path = [(?a, False)]\<rparr>"
  obtain pf where pf: "prove_inclusion sha (snd (consolidate stub_prover_new seal)) st w = Inr pf"
    by (simp add: prove_inclusion_Inr consolidate_def st_def w_def r fold_path_def merge_hashes_def)
  have "wit_leaf_hash w = appended ?ops ! path_index (wit_merkle_path w)"
    using f zk_inclusion_sound [of sha ?ops 1 seal m' st _ w pf, OF _ _ _ s _ pf]
    by (simp add: st_def w_def digest32_def sha_def)
  then show ?thesis using s pf by metis
qed

text \<open>
  The length of the path is not checked and leaves and inner nodes are hashed alike, so an inner
  node of a sealed tree is accepted as if it were a leaf: with four leaves, the hash of the first
  pair with the hash of the second pair as its only sibling.
\<close>

theorem zk_inner_node_accepted:
  assumes "seal_epoch sha (mmr_exec sha [Append a, Append b, Append c, Append d]) = (Inr seal, m')"
  shows "\<exists>pf. prove_inclusion sha (snd (consolidate P seal))
     \<lparr>st_epoch_root = seal_root seal, st_leaf_index = i, st_epoch = seal_epoch_no seal, st_is_nullified = f\<rparr>
     \<lparr>wit_leaf_hash = merge_hashes sha a b, wit_merkle_path = [(merge_hashes sha c d, True)]\<rparr> = Inr pf \<and>
     zk_verify sha pf = Some True"
proof -
  let ?ops = "[Append a, Append b, Append c, Append d]"
  have "forest (appended ?ops) = [Fork (Fork (Tip a) (Tip b)) (Fork (Tip c) (Tip d))]" by (simp add: forest_def)
  moreover obtain t where "forest (appended ?ops) = [t]" "seal_root seal = root_of sha t"
    by (rule full_tree_root [of ?ops 2 sha seal m', OF _ assms]) simp_all
  ultimately have "seal_root seal = merge_hashes sha (merge_hashes sha a b) (merge_hashes sha c d)"
    by (simp only: list.inject) simp
  then show ?thesis
    by (simp add: prove_inclusion_Inr consolidate_def fold_path_def stub_proof_verifies)
qed

theorem zk_inner_node_accepted_witness:
  "\<exists>seal m' pf. seal_epoch rev (mmr_exec rev [Append [1], Append [2], Append [3], Append [4]]) = (Inr seal, m') \<and>
     prove_inclusion rev (snd (consolidate stub_prover_new seal))
       \<lparr>st_epoch_root = seal_root seal, st_leaf_index = 0, st_epoch = seal_epoch_no seal, st_is_nullified = False\<rparr>
       \<lparr>wit_leaf_hash = [2, 1], wit_merkle_path = [([4, 3], True)]\<rparr> = Inr pf"
proof -
  let ?ops = "[Append [1], Append [2], Append [3], Append [4]]"
  have "leaf_count (mmr_exec rev ?ops) = 4"
    using mmr_exec_repr [of rev ?ops] by (simp add: mmr_repr_def)
  then obtain seal m' where s: "seal_epoch rev (mmr_exec rev ?ops) = (Inr seal, m')"
    by (auto simp: seal_epoch_def)
  show ?thesis
    using zk_inner_node_accepted [of rev "[1]" "[2]" "[3]" "[4]" seal m' stub_prover_new 0 False] s
    by (auto simp: merge_hashes_def)
qed

text \<open>
  Neither the leaf index nor the nullified flag of a statement is compared with the witness or
  the range: a statement that is proved can be proved, by the same witness, with any other index
  and with the flag set, so a nullification proof exists for a leaf that was never nullified.
\<close>

theorem zk_statement_fields_unchecked:
  assumes "prove_inclusion sha P s w = Inr pf"
  shows "\<exists>pf'. prove_nullification sha P (s\<lparr>st_leaf_index := i, st_is_nullified := True\<rparr>) w = Inr pf' \<and>
     st_leaf_index (pf_statement pf') = i \<and> st_is_nullified (pf_statement pf') \<and> zk_verify sha pf' = Some True"
  using assms by (simp add: prove_nullification_def prove_inclusion_Inr stub_proof_verifies)

theorem zk_statement_fields_unchecked_witness:
  "\<exists>pf'. prove_nullification (\<lambda>x. x)
     \<lparr>sealed_epochs = [\<lparr>seal_epoch_no = 0, seal_root = [5], seal_leaf_count = 1, seal_node_count = 1\<rparr>]\<rparr>
     \<lparr>st_epoch_root = [5], st_leaf_index = 77, st_epoch = 0, st_is_nullified = True\<rparr>
     \<lparr>wit_leaf_hash = [5], wit_merkle_path = []\<rparr> = Inr pf'"
  using zk_statement_fields_unchecked [of "\<lambda>x. x"
      "\<lparr>sealed_epochs = [\<lparr>seal_epoch_no = 0, seal_root = [5], seal_leaf_count = 1, seal_node_count = 1\<rparr>]\<rparr>"
      "\<lparr>st_epoch_root = [5], st_leaf_index = 0, st_epoch = 0, st_is_nullified = False\<rparr>"
      "\<lparr>wit_leaf_hash = [5], wit_merkle_path = []\<rparr>" _ 77]
  by (auto simp: prove_inclusion_Inr fold_path_def)

text \<open>
  The commitment binds every field of a statement: two different well-formed statements are
  hashed from different inputs, so one proof can verify for both only through a collision of the hash;
  a proof that is no stub makes verification panic.
\<close>

theorem zk_commitment_binds:
  assumes "statement_ok s" and "statement_ok t" and "s \<noteq> t"
    and "zk_verify sha \<lparr>pf_statement = s, pf_bytes = b, pf_is_stub = True\<rparr> = Some True"
    and "zk_verify sha \<lparr>pf_statement = t, pf_bytes = b, pf_is_stub = True\<rparr> = Some True"
  shows "stub_preimage s \<noteq> stub_preimage t \<and> sha (stub_preimage s) = sha (stub_preimage t)"
  using assms stub_preimage_inj [OF assms(1,2)] by (auto simp: zk_verify_def derive_stub_commitment_def)

theorem zk_commitment_binds_witness:
  "stub_preimage \<lparr>st_epoch_root = zeros 32, st_leaf_index = 1, st_epoch = 0, st_is_nullified = True\<rparr> \<noteq>
   stub_preimage \<lparr>st_epoch_root = zeros 32, st_leaf_index = 1, st_epoch = 0, st_is_nullified = False\<rparr>"
  using zk_commitment_binds [of
      "\<lparr>st_epoch_root = zeros 32, st_leaf_index = 1, st_epoch = 0, st_is_nullified = True\<rparr>"
      "\<lparr>st_epoch_root = zeros 32, st_leaf_index = 1, st_epoch = 0, st_is_nullified = False\<rparr>" "\<lambda>x. []" "[]"]
  by (simp add: statement_ok_def zk_verify_def derive_stub_commitment_def)

text \<open>
  The worker consolidates the seals received before the first shutdown command, in order, and
  ignores everything after it; it offers one proof per seal, each for leaf 0 of that epoch, not
  nullified, and each verifies although no witness was ever checked.
\<close>

theorem zk_worker_proofs:
  "sealed_epochs (fst (worker_run sha stub_prover_new cmds)) = seals_before_shutdown cmds \<and>
   map pf_statement (snd (worker_run sha stub_prover_new cmds)) =
     map (\<lambda>seal. \<lparr>st_epoch_root = seal_root seal, st_leaf_index = 0, st_epoch = seal_epoch_no seal,
                  st_is_nullified = False\<rparr>) (seals_before_shutdown cmds) \<and>
   list_all (\<lambda>pf. zk_verify sha pf = Some True) (snd (worker_run sha stub_prover_new cmds))"
  by (auto simp: worker_run_seals stub_prover_new_def worker_proof_def consolidate_def Let_def
      list_all_iff stub_proof_verifies)

end
