(* ===== verification/Peer.thy ===== *)
theory Peer
  imports Nexo_Prelude
begin

text \<open>
  The trust window and the peer table of \<^verbatim>\<open>nexoia-core/gossip/src/peer.rs\<close>. Ticks are \<open>nat\<close>
  (the code only compares and subtracts them); the score is an \<^verbatim>\<open>i16\<close>, kept as an \<open>int\<close> with the
  wrap-around of the release profile (no overflow checks) written out where it can occur:
  the cast of the decay and the subtraction in \<^verbatim>\<open>apply_silence_decay\<close>.
\<close>

section \<open>Constants and data\<close>

abbreviation TRUST_WINDOW_SIZE :: nat where "TRUST_WINDOW_SIZE \<equiv> 64"
abbreviation TRUST_MAX :: int where "TRUST_MAX \<equiv> 100"
abbreviation TRUST_MIN :: int where "TRUST_MIN \<equiv> -100"
abbreviation TRUST_THRESHOLD_HIGH :: int where "TRUST_THRESHOLD_HIGH \<equiv> 60"
abbreviation TRUST_THRESHOLD_BAN :: int where "TRUST_THRESHOLD_BAN \<equiv> -50"
abbreviation SILENCE_DECAY_TICKS :: nat where "SILENCE_DECAY_TICKS \<equiv> 1000"

datatype behavior_sample = Good | Bad | Empty

datatype connection_state = Handshaking | Active | Suspended | Banned

record peer_state =
  peer_id :: hash32
  trust_score :: int
  behavior_window :: "behavior_sample list"
  window_head :: nat
  window_fill :: nat
  last_active_tick :: nat
  vdf_verified :: bool
  strike_count :: nat
  connection :: connection_state

definition peer_new :: "hash32 \<Rightarrow> peer_state" where
  "peer_new i =
     \<lparr>peer_id = i, trust_score = 0, behavior_window = replicate TRUST_WINDOW_SIZE Empty,
      window_head = 0, window_fill = 0, last_active_tick = 0, vdf_verified = False,
      strike_count = 0, connection = Handshaking\<rparr>"

section \<open>Scores\<close>

definition score_of :: "behavior_sample list \<Rightarrow> nat \<Rightarrow> int" where
  "score_of w fill =
     (if fill = 0 then 0
      else
        let good = int (count_list (take fill w) Good);
            bad = int (count_list (take fill w) Bad)
        in max TRUST_MIN (min TRUST_MAX (tdiv ((good - bad) * 100) (int fill))))"

definition recalculate_score :: "peer_state \<Rightarrow> peer_state" where
  "recalculate_score p = p\<lparr>trust_score := score_of (behavior_window p) (window_fill p)\<rparr>"

definition connection_of :: "int \<Rightarrow> bool \<Rightarrow> connection_state" where
  "connection_of score verified =
     (if score \<le> TRUST_THRESHOLD_BAN then Banned
      else if score < 0 then Suspended
      else if verified then Active
      else Handshaking)"

definition update_connection_state :: "peer_state \<Rightarrow> peer_state" where
  "update_connection_state p = p\<lparr>connection := connection_of (trust_score p) (vdf_verified p)\<rparr>"

definition record_sample :: "peer_state \<Rightarrow> behavior_sample \<Rightarrow> nat \<Rightarrow> peer_state" where
  "record_sample p s tick =
     (let p = p\<lparr>behavior_window := (behavior_window p)[window_head p := s],
                window_head := (window_head p + 1) mod TRUST_WINDOW_SIZE,
                window_fill := (if window_fill p < TRUST_WINDOW_SIZE then window_fill p + 1 else window_fill p),
                last_active_tick := tick,
                strike_count := (if s = Bad then min 255 (strike_count p + 1) else strike_count p)\<rparr>
      in update_connection_state (recalculate_score p))"

text \<open>\<^verbatim>\<open>(silent_ticks / 1000) as i16\<close> keeps the low sixteen bits; the \<open>nat\<close> subtraction saturates.\<close>

definition silence_decay :: "peer_state \<Rightarrow> nat \<Rightarrow> int" where
  "silence_decay p tick = wrap16 (int ((tick - last_active_tick p) div SILENCE_DECAY_TICKS))"

definition apply_silence_decay :: "peer_state \<Rightarrow> nat \<Rightarrow> peer_state" where
  "apply_silence_decay p tick =
     (let decay = silence_decay p tick in
      if 0 < decay then
        update_connection_state (p\<lparr>trust_score := max (wrap16 (trust_score p - decay)) TRUST_MIN\<rparr>)
      else p)"

definition is_trusted :: "peer_state \<Rightarrow> bool" where
  "is_trusted p \<longleftrightarrow> TRUST_THRESHOLD_HIGH \<le> trust_score p \<and> vdf_verified p"

definition is_banned :: "peer_state \<Rightarrow> bool" where
  "is_banned p \<longleftrightarrow> connection p = Banned"

definition admit_after_vdf :: "peer_state \<Rightarrow> nat \<Rightarrow> peer_state" where
  "admit_after_vdf p tick =
     p\<lparr>vdf_verified := True, last_active_tick := tick, connection := Active, trust_score := 10\<rparr>"

section \<open>The table\<close>

abbreviation MAX_PEERS :: nat where "MAX_PEERS \<equiv> 256"

record peer_table =
  table_slots :: "peer_state option list"
  table_count :: nat

definition peer_table_new :: peer_table where
  "peer_table_new = \<lparr>table_slots = replicate MAX_PEERS None, table_count = 0\<rparr>"

definition slot_has :: "hash32 \<Rightarrow> peer_state option \<Rightarrow> bool" where
  "slot_has i s = (case s of None \<Rightarrow> False | Some p \<Rightarrow> peer_id p = i)"

text \<open>The index of the first element with a property: both loops of \<^verbatim>\<open>upsert\<close> stop there.\<close>

fun first_index :: "('a \<Rightarrow> bool) \<Rightarrow> 'a list \<Rightarrow> nat option" where
  "first_index P [] = None"
| "first_index P (x # xs) = (if P x then Some 0 else map_option Suc (first_index P xs))"

definition upsert :: "peer_table \<Rightarrow> peer_state \<Rightarrow> (unit + unit) \<times> peer_table" where
  "upsert T p =
     (case first_index (slot_has (peer_id p)) (table_slots T) of
        Some k \<Rightarrow> (Inr (), T\<lparr>table_slots := (table_slots T)[k := Some p]\<rparr>)
      | None \<Rightarrow>
          (case first_index (\<lambda>s. s = None) (table_slots T) of
             Some k \<Rightarrow> (Inr (), T\<lparr>table_slots := (table_slots T)[k := Some p], table_count := table_count T + 1\<rparr>)
           | None \<Rightarrow> (Inl (), T)))"

definition table_get :: "peer_table \<Rightarrow> hash32 \<Rightarrow> peer_state option" where
  "table_get T i = find (\<lambda>p. peer_id p = i) (List.map_filter id (table_slots T))"

text \<open>\<^verbatim>\<open>get_mut\<close> and a change of the peer through the reference.\<close>

definition table_modify :: "peer_table \<Rightarrow> hash32 \<Rightarrow> (peer_state \<Rightarrow> peer_state) \<Rightarrow> peer_table" where
  "table_modify T i f =
     (case first_index (slot_has i) (table_slots T) of
        None \<Rightarrow> T
      | Some k \<Rightarrow> T\<lparr>table_slots := (table_slots T)[k := map_option f (table_slots T ! k)]\<rparr>)"

fun evict_slots :: "peer_state option list \<Rightarrow> nat \<Rightarrow> peer_state option list \<times> nat" where
  "evict_slots [] c = ([], c)"
| "evict_slots (None # ss) c = (let (ss', c') = evict_slots ss c in (None # ss', c'))"
| "evict_slots (Some p # ss) c =
     (if is_banned p then let (ss', c') = evict_slots ss (c - 1) in (None # ss', c')
      else let (ss', c') = evict_slots ss c in (Some p # ss', c'))"

definition evict_banned :: "peer_table \<Rightarrow> peer_table" where
  "evict_banned T =
     (let (ss, c) = evict_slots (table_slots T) (table_count T)
      in \<lparr>table_slots = ss, table_count = c\<rparr>)"

definition tick_all :: "peer_table \<Rightarrow> nat \<Rightarrow> peer_table" where
  "tick_all T tick =
     T\<lparr>table_slots := map (map_option (\<lambda>p. apply_silence_decay p tick)) (table_slots T)\<rparr>"

definition active_count :: "peer_table \<Rightarrow> nat" where
  "active_count T =
     length (filter (\<lambda>s. case s of None \<Rightarrow> False | Some p \<Rightarrow> connection p = Active) (table_slots T))"

definition total_count :: "peer_table \<Rightarrow> nat" where
  "total_count T = table_count T"

end
