(* ===== verification/Peer_Window.thy ===== *)
theory Peer_Window
  imports Peer
begin

text \<open>
  The trust window against its meaning: the ring buffer holds the last 64 samples, rotated, and the
  score is the truncated percentage of good minus bad samples among them. The connection state
  is a function of the score and the handshake after every operation.
\<close>

section \<open>The ring buffer\<close>

definition padded :: "behavior_sample list \<Rightarrow> behavior_sample list" where
  "padded hs = replicate TRUST_WINDOW_SIZE Empty @ hs"

definition last_window :: "behavior_sample list \<Rightarrow> behavior_sample list" where
  "last_window hs = drop (length hs) (padded hs)"

definition recent :: "behavior_sample list \<Rightarrow> behavior_sample list" where
  "recent hs = drop (length hs - TRUST_WINDOW_SIZE) hs"

definition ring :: "behavior_sample list \<Rightarrow> behavior_sample list" where
  "ring hs =
     (let k = length hs mod TRUST_WINDOW_SIZE
      in drop (TRUST_WINDOW_SIZE - k) (last_window hs) @ take (TRUST_WINDOW_SIZE - k) (last_window hs))"

lemma length_last_window [simp]: "length (last_window hs) = 64"
  by (simp add: last_window_def padded_def)

lemma length_ring [simp]: "length (ring hs) = 64"
  by (simp add: ring_def Let_def)

lemma last_window_snoc: "last_window (hs @ [s]) = tl (last_window hs) @ [s]"
proof -
  have "padded (hs @ [s]) = padded hs @ [s]" "length (padded hs) = 64 + length hs"
    by (simp_all add: padded_def)
  then show ?thesis by (simp add: last_window_def drop_Suc tl_drop)
qed

lemma ring_snoc: "ring (hs @ [s]) = (ring hs)[length hs mod 64 := s]"
proof -
  define k where "k = length hs mod 64"
  define L where "L = last_window hs"
  have L: "length L = 64" by (simp add: L_def)
  have k: "k < 64" by (simp add: k_def)
  obtain x xs where x: "take (64 - k) L = x # xs" using L k by (cases "take (64 - k) L") auto
  have k': "Suc (length hs) mod 64 = Suc k mod 64" by (simp add: k_def mod_Suc_eq)
  have r: "ring hs = drop (64 - k) L @ x # xs" by (simp add: ring_def k_def [symmetric] L_def [symmetric] x)
  have len: "length (drop (64 - k) L) = k" using L k by simp
  have upd: "(ring hs)[k := s] = drop (64 - k) L @ s # xs" using len by (simp add: r list_update_append)
  have xs: "xs = take (63 - k) (tl L)"
    using x L k by (cases L) (auto simp: take_Cons' split: if_splits simp del: take_Suc_Cons)
  have d: "drop (63 - k) (tl L) = drop (64 - k) L" using L k by (cases L) (simp_all add: drop_Cons' Suc_diff_le)
  show ?thesis
  proof (cases "k = 63")
    case True
    then have "xs = []" using xs by simp
    then show ?thesis
      using True d upd L by (simp add: ring_def Let_def k' last_window_snoc L_def [symmetric] k_def [symmetric])
  next
    case False
    then have "Suc k mod 64 = Suc k" "64 - Suc k = 63 - k" using k by simp_all
    then show ?thesis
      using d upd L xs k by (simp add: ring_def Let_def k' last_window_snoc L_def [symmetric] k_def [symmetric])
  qed
qed

lemma ring_Nil: "ring [] = replicate 64 Empty"
  by (simp add: ring_def last_window_def padded_def)

lemma last_window_recent: "last_window hs = replicate (64 - length hs) Empty @ recent hs"
  by (simp add: last_window_def padded_def recent_def)

lemma count_ring:
  assumes "s \<noteq> Empty"
  shows "count_list (take (min 64 (length hs)) (ring hs)) s = count_list (recent hs) s"
proof (cases "length hs < 64")
  case True
  then have "take (length hs) (ring hs) = recent hs"
    by (simp add: ring_def Let_def last_window_recent recent_def)
  then show ?thesis using True by simp
next
  case False
  have "count_list (ring hs) s = count_list (last_window hs) s"
    unfolding ring_def Let_def by (metis add.commute append_take_drop_id count_list_append)
  then show ?thesis using False by (simp add: last_window_recent)
qed

section \<open>The score of a history\<close>

definition history_score :: "behavior_sample list \<Rightarrow> int" where
  "history_score hs =
     (if hs = [] then 0
      else tdiv ((int (count_list (recent hs) Good) - int (count_list (recent hs) Bad)) * 100)
             (int (length (recent hs))))"

lemma counts_le: "count_list xs Good + count_list xs Bad \<le> length xs"
  by (induction xs) auto

lemma history_score_range: "-100 \<le> history_score hs \<and> history_score hs \<le> 100"
proof (cases "hs = []")
  case False
  define g where "g = int (count_list (recent hs) Good)"
  define b where "b = int (count_list (recent hs) Bad)"
  define n where "n = int (length (recent hs))"
  have "0 \<le> g" "0 \<le> b" "g + b \<le> n" using counts_le [of "recent hs"] by (simp_all add: g_def b_def n_def)
  moreover have "0 < n" using False by (simp add: n_def recent_def)
  ultimately have "\<bar>tdiv ((g - b) * 100) n\<bar> \<le> 100" by (intro tdiv_abs_le) auto
  then show ?thesis using False by (simp add: history_score_def g_def b_def n_def abs_le_iff)
qed (simp add: history_score_def)

lemma score_of_ring: "score_of (ring hs) (min 64 (length hs)) = history_score hs"
proof (cases "hs = []")
  case False
  have len: "min 64 (length hs) \<noteq> 0" using False by auto
  have "int (length (recent hs)) = int (min 64 (length hs))" by (simp add: recent_def)
  then have "tdiv ((int (count_list (recent hs) Good) - int (count_list (recent hs) Bad)) * 100)
      (int (min 64 (length hs))) = history_score hs"
    using False by (simp add: history_score_def)
  then show ?thesis
    using False history_score_range [of hs] len count_ring [of Good hs] count_ring [of Bad hs]
    by (simp only: score_of_def Let_def if_False) simp
qed (simp add: score_of_def history_score_def)

text \<open>The window of a peer holds a history of samples.\<close>

definition window_holds :: "behavior_sample list \<Rightarrow> peer_state \<Rightarrow> bool" where
  "window_holds hs p \<longleftrightarrow>
     behavior_window p = ring hs \<and> window_head p = length hs mod 64 \<and> window_fill p = min 64 (length hs) \<and>
     strike_count p = min 255 (count_list hs Bad)"

lemma window_new: "window_holds [] (peer_new i)"
  by (simp add: window_holds_def peer_new_def ring_Nil)

lemma window_record: "window_holds hs p \<Longrightarrow> window_holds (hs @ [s]) (record_sample p s t)"
  by (auto simp: window_holds_def record_sample_def Let_def recalculate_score_def update_connection_state_def
      ring_snoc mod_Suc_eq)

lemma record_score:
  "window_holds hs p \<Longrightarrow> trust_score (record_sample p s t) = history_score (hs @ [s])"
  using window_record [of hs p s t] score_of_ring [of "hs @ [s]"]
  by (simp add: window_holds_def record_sample_def Let_def recalculate_score_def update_connection_state_def)

interpretation window_acc: accumulator "\<lambda>p e. record_sample p (fst e) (snd e)" "\<lambda>e. True"
  "\<lambda>es. window_holds (map fst es)"
  by unfold_locales (simp add: window_record)

section \<open>Every operation\<close>

datatype peer_op = RecordOp behavior_sample nat | DecayOp nat | AdmitOp nat

fun peer_step :: "peer_state \<Rightarrow> peer_op \<Rightarrow> peer_state" where
  "peer_step p (RecordOp s t) = record_sample p s t"
| "peer_step p (DecayOp t) = apply_silence_decay p t"
| "peer_step p (AdmitOp t) = admit_after_vdf p t"

fun op_sample :: "peer_op \<Rightarrow> behavior_sample list" where
  "op_sample (RecordOp s t) = [s]"
| "op_sample _ = []"

definition samples :: "peer_op list \<Rightarrow> behavior_sample list" where
  "samples ops = concat (map op_sample ops)"

text \<open>What holds of a peer whatever is done to it.\<close>

definition peer_ok :: "peer_state \<Rightarrow> bool" where
  "peer_ok p \<longleftrightarrow>
     connection p = connection_of (trust_score p) (vdf_verified p) \<and>
     -100 \<le> trust_score p \<and> trust_score p \<le> 32767 \<and>
     length (behavior_window p) = 64 \<and> window_head p < 64 \<and> window_fill p \<le> 64 \<and> strike_count p \<le> 255"

lemma score_of_range: "-100 \<le> score_of w n" "score_of w n \<le> 100"
  by (simp_all add: score_of_def Let_def)

lemma peer_step_ok: "peer_ok p \<Longrightarrow> peer_ok (peer_step p x)"
proof (cases x)
  case (RecordOp s t)
  have "score_of w n \<le> 32767" for w n using score_of_range(2) [of w n] by simp
  then show "peer_ok p \<Longrightarrow> ?thesis"
    by (simp add: RecordOp peer_ok_def record_sample_def recalculate_score_def update_connection_state_def
        Let_def score_of_range)
next
  case (DecayOp t)
  then show "peer_ok p \<Longrightarrow> ?thesis"
    using wrap16_range by (simp add: peer_ok_def update_connection_state_def apply_silence_decay_def Let_def)
next
  case (AdmitOp t)
  then show "peer_ok p \<Longrightarrow> ?thesis"
    by (simp add: peer_ok_def admit_after_vdf_def connection_of_def)
qed

interpretation peer: preserved peer_step peer_ok
  by unfold_locales (rule peer_step_ok)

lemma peer_new_ok: "peer_ok (peer_new i)"
  by (simp add: peer_ok_def peer_new_def connection_of_def)

lemma step_window: "window_holds hs p \<Longrightarrow> window_holds (hs @ op_sample x) (peer_step p x)"
  by (cases x) (auto simp: window_record, auto simp: window_holds_def apply_silence_decay_def
      update_connection_state_def admit_after_vdf_def Let_def)

lemma run_window: "window_holds hs p \<Longrightarrow> window_holds (hs @ samples ops) (foldl peer_step p ops)"
proof (induction ops arbitrary: hs p)
  case (Cons x ops)
  then have "window_holds ((hs @ op_sample x) @ samples ops) (foldl peer_step (peer_step p x) ops)"
    by (intro Cons.IH step_window)
  then show ?case by (simp add: samples_def)
qed (simp add: samples_def)

end
