(* ===== verification/Peer_Theorems.thy ===== *)
theory Peer_Theorems
  imports Peer_Window
begin

text \<open>
  The properties of a single peer: the meaning of the score, the consistency of the connection
  state, and the decay by silence with its rate and its wrap-around.
\<close>

lemma decay_small:
  assumes "(tick - last_active_tick p) div 1000 \<le> 32767"
  shows "silence_decay p tick = int ((tick - last_active_tick p) div 1000)"
  unfolding silence_decay_def using assms by (intro wrap16_id) linarith+

lemma admitted_run:
  "vdf_verified (foldl peer_step p ops) \<longleftrightarrow> vdf_verified p \<or> (\<exists>t. AdmitOp t \<in> set ops)"
proof (induction ops arbitrary: p)
  case (Cons x ops)
  then show ?case
    by (cases x) (auto simp: record_sample_def recalculate_score_def update_connection_state_def
        apply_silence_decay_def admit_after_vdf_def Let_def)
qed simp

lemma id_run: "peer_id (foldl peer_step p ops) = peer_id p"
proof (induction ops arbitrary: p)
  case (Cons x ops)
  then show ?case
    by (cases x) (auto simp: record_sample_def recalculate_score_def update_connection_state_def
        apply_silence_decay_def admit_after_vdf_def Let_def)
qed simp

lemma silence_lowers:
  assumes "-100 \<le> trust_score p" and "trust_score p \<le> 100" and "tick - last_active_tick p < 32669000"
  shows "trust_score (apply_silence_decay p tick) =
       max (-100) (trust_score p - int ((tick - last_active_tick p) div 1000)) \<and>
     trust_score (apply_silence_decay p tick) \<le> trust_score p \<and>
     (tick - last_active_tick p < 1000 \<longrightarrow> apply_silence_decay p tick = p)"
proof -
  define d where "d = (tick - last_active_tick p) div 1000"
  have d: "d \<le> 32668" using assms(3) by (simp add: d_def)
  then have s: "silence_decay p tick = int d" using decay_small [of tick p] by (simp add: d_def)
  have w: "wrap16 (trust_score p - int d) = trust_score p - int d"
    using assms(1,2) d by (intro wrap16_id) linarith+
  have "d = 0" if "tick - last_active_tick p < 1000" using that by (simp add: d_def)
  then show ?thesis
    using assms(1,2) by (auto simp: apply_silence_decay_def s w update_connection_state_def d_def [symmetric])
qed

text \<open>
  C8: after any operations that end with a recorded sample, the score is the truncated percentage
  of good minus bad samples among the last 64 recorded ones, within -100 and 100: earlier
  decay, admissions and older samples leave no trace. The strike counter is the number of bad
  samples ever recorded, saturated at 255: nothing resets it, although its comment in \<^verbatim>\<open>peer.rs\<close> says that
  it is reset when the threshold of a ban is reached.
\<close>

theorem peer_score_of_last_window:
  fixes i ops s t
  defines "p \<equiv> foldl peer_step (peer_new i) (ops @ [RecordOp s t])"
    and "hs \<equiv> samples ops @ [s]"
  shows "trust_score p =
       tdiv ((int (count_list (recent hs) Good) - int (count_list (recent hs) Bad)) * 100) (int (length (recent hs))) \<and>
     -100 \<le> trust_score p \<and> trust_score p \<le> 100 \<and>
     strike_count p = min 255 (count_list hs Bad) \<and> last_active_tick p = t"
proof -
  have w: "window_holds (samples ops) (foldl peer_step (peer_new i) ops)"
    using run_window [OF window_new] by simp
  have "trust_score p = history_score hs" using record_score [OF w] by (simp add: p_def hs_def)
  moreover have "strike_count p = min 255 (count_list hs Bad)"
    using window_record [OF w] by (simp add: window_holds_def p_def hs_def)
  moreover have "last_active_tick p = t"
    by (simp add: p_def record_sample_def recalculate_score_def update_connection_state_def Let_def)
  moreover have "hs \<noteq> []" by (simp add: hs_def)
  ultimately show ?thesis using history_score_range [of hs] by (simp add: history_score_def)
qed

theorem peer_score_of_last_window_witness:
  "trust_score (foldl peer_step (peer_new (zeros 32))
     ([AdmitOp 1, RecordOp Good 2, RecordOp Bad 3, DecayOp 9000] @ [RecordOp Good 9001])) = 33"
  using peer_score_of_last_window [of "zeros 32" "[AdmitOp 1, RecordOp Good 2, RecordOp Bad 3, DecayOp 9000]" Good 9001]
  by (simp add: samples_def recent_def tdiv_def)

text \<open>
  C9: whatever the order of samples, decays and admissions, the connection state is the one
  the score and the handshake determine, the identity never changes, the window indices stay in
  bounds, and a peer is trusted only if it was admitted by a handshake.
\<close>

theorem peer_state_consistent:
  fixes i ops
  defines "p \<equiv> foldl peer_step (peer_new i) ops"
  shows "connection p = connection_of (trust_score p) (vdf_verified p) \<and> peer_id p = i \<and>
     -100 \<le> trust_score p \<and> trust_score p \<le> 32767 \<and>
     length (behavior_window p) = 64 \<and> window_head p < 64 \<and> window_fill p \<le> 64 \<and>
     (vdf_verified p \<longleftrightarrow> (\<exists>t. AdmitOp t \<in> set ops)) \<and> (is_trusted p \<longrightarrow> (\<exists>t. AdmitOp t \<in> set ops))"
proof -
  have "peer_ok p" unfolding p_def by (rule peer.run_inv [OF peer_new_ok])
  moreover have "peer_id p = i" by (simp add: p_def id_run) (simp add: peer_new_def)
  moreover have "vdf_verified p \<longleftrightarrow> (\<exists>t. AdmitOp t \<in> set ops)"
    by (simp add: p_def admitted_run) (simp add: peer_new_def)
  ultimately show ?thesis by (auto simp: peer_ok_def is_trusted_def)
qed

theorem peer_state_consistent_witness:
  "\<not> is_trusted (foldl peer_step (peer_new (zeros 32)) [RecordOp Good 1, DecayOp 5])"
  using peer_state_consistent [of "zeros 32" "[RecordOp Good 1, DecayOp 5]"] by (metis empty_iff list.set(1) list.set(2) insert_iff peer_op.distinct(3,5))

text \<open>
  Silence of less than 32,669,000 ticks lowers a score by one point per full thousand ticks
  down to -100, never raises it, and changes nothing before the first thousand.
\<close>

theorem peer_silence_lowers_score:
  assumes "-100 \<le> trust_score p" and "trust_score p \<le> 100" and "tick - last_active_tick p < 32669000"
  shows "trust_score (apply_silence_decay p tick) =
       max (-100) (trust_score p - int ((tick - last_active_tick p) div 1000)) \<and>
     trust_score (apply_silence_decay p tick) \<le> trust_score p \<and>
     (tick - last_active_tick p < 1000 \<longrightarrow> apply_silence_decay p tick = p)"
  using assms by (rule silence_lowers)

theorem peer_silence_lowers_score_witness:
  "trust_score (apply_silence_decay (peer_new (zeros 32)) 5000) = -5"
  using peer_silence_lowers_score [of "peer_new (zeros 32)" 5000] by (simp add: peer_new_def)

text \<open>
  A peer banned with score -100 that stays silent for 32,669,000 to 32,767,999 ticks (about nine
  hours) becomes an active, trusted peer with a score above 32,000: the subtraction leaves the
  range of \<^verbatim>\<open>i16\<close>, wraps around, and the floor is applied after it.
\<close>

theorem peer_long_silence_trusts:
  assumes "32669000 \<le> t - b" and "t - b < 32768000"
  shows "is_banned (foldl peer_step (peer_new i) [AdmitOp a, RecordOp Bad b]) \<and>
     is_trusted (foldl peer_step (peer_new i) [AdmitOp a, RecordOp Bad b, DecayOp t]) \<and>
     connection (foldl peer_step (peer_new i) [AdmitOp a, RecordOp Bad b, DecayOp t]) = Active \<and>
     trust_score (foldl peer_step (peer_new i) [AdmitOp a, RecordOp Bad b, DecayOp t]) =
       65436 - int ((t - b) div 1000)"
proof -
  define p where "p = foldl peer_step (peer_new i) [AdmitOp a, RecordOp Bad b]"
  have "trust_score p = history_score [Bad]"
    using record_score [OF run_window [OF window_new], of i "[AdmitOp a]" Bad b] by (simp add: p_def samples_def)
  then have p: "trust_score p = -100" by (simp add: history_score_def recent_def tdiv_def)
  have v: "vdf_verified p" "last_active_tick p = b"
    by (simp_all add: p_def admit_after_vdf_def record_sample_def recalculate_score_def
        update_connection_state_def Let_def)
  have "peer_ok p" unfolding p_def by (rule peer.run_inv [OF peer_new_ok])
  then have ban: "is_banned p" by (simp add: peer_ok_def p is_banned_def connection_of_def)
  define d where "d = (t - b) div 1000"
  have d: "32669 \<le> d" "d \<le> 32767" using assms by (simp_all add: d_def)
  have s: "silence_decay p t = int d" using decay_small [of t p] d v by (simp add: d_def)
  have "wrap16 (- 100 - int d) = 65436 - int d" using d wrap16_low [of "- 100 - int d"] by simp
  then have "apply_silence_decay p t = update_connection_state (p\<lparr>trust_score := 65436 - int d\<rparr>)"
    using d by (simp add: apply_silence_decay_def s p)
  then show ?thesis
    using d v ban by (simp add: p_def [symmetric] is_trusted_def update_connection_state_def connection_of_def d_def)
        (simp add: p_def d_def)
qed

theorem peer_long_silence_trusts_witness:
  "is_trusted (foldl peer_step (peer_new (zeros 32)) [AdmitOp 0, RecordOp Bad 0, DecayOp 32700000])"
  using peer_long_silence_trusts [of 32700000 0 "zeros 32" 0] by simp

text \<open>
  The decay is applied anew at every call, since the last active tick is not moved: called once
  a second for \<open>k\<close> silent seconds it takes \<open>k * (k + 1) / 2\<close> points, not \<open>k\<close>.
\<close>

theorem peer_decay_accumulates:
  assumes "-100 \<le> trust_score p" and "trust_score p \<le> 100" and "k \<le> 32000"
  shows "trust_score (foldl (\<lambda>q j. apply_silence_decay q (last_active_tick p + 1000 * j)) p [1..<k + 1]) =
       max (-100) (trust_score p - int (k * (k + 1) div 2))"
proof -
  define f where "f = (\<lambda>q j. apply_silence_decay q (last_active_tick p + 1000 * j))"
  have "trust_score (foldl f p [1..<k + 1]) = max (-100) (trust_score p - int (\<Sum>{1..<k + 1})) \<and>
      last_active_tick (foldl f p [1..<k + 1]) = last_active_tick p"
    using assms(3)
  proof (induction k)
    case (Suc k)
    define q where "q = foldl f p [1..<k + 1]"
    have q: "trust_score q = max (-100) (trust_score p - int (\<Sum>{1..<k + 1}))" "last_active_tick q = last_active_tick p"
      using Suc by (simp_all add: q_def)
    have s: "trust_score (f q (k + 1)) = max (-100) (trust_score q - int (k + 1))"
      using silence_lowers [of q "last_active_tick p + 1000 * (k + 1)"] q assms Suc.prems by (simp add: f_def)
    have t: "last_active_tick (f q (k + 1)) = last_active_tick p"
      by (simp add: f_def apply_silence_decay_def Let_def update_connection_state_def q)
    have u: "[1..<Suc k + 1] = [1..<k + 1] @ [k + 1]" "\<Sum>{1..<Suc k + 1} = \<Sum>{1..<k + 1} + (k + 1)"
      by simp_all
    have "foldl f p [1..<Suc k + 1] = f q (k + 1)" by (simp only: u(1) foldl_append q_def foldl.simps)
    then show ?case using s t q u(2) by simp
  qed (use assms in simp)
  moreover have "\<Sum>{1..<k + 1} = k * (k + 1) div 2"
    using gauss_sum_from_Suc_0 [of k, where 'a = nat] by (simp add: atLeastLessThanSuc_atLeastAtMost)
  ultimately show ?thesis by (simp add: f_def)
qed

theorem peer_decay_accumulates_witness:
  "trust_score (foldl (\<lambda>q j. apply_silence_decay q (last_active_tick (peer_new (zeros 32)) + 1000 * j)) (peer_new (zeros 32)) [1..<10 + 1]) = -55"
  using peer_decay_accumulates [of "peer_new (zeros 32)" 10] by (simp add: peer_new_def)

text \<open>
  A ban is not permanent: the first bad sample bans an admitted peer, but one good sample after
  it, or another admission, makes the peer active again.
\<close>

theorem peer_ban_is_lifted:
  "is_banned (foldl peer_step (peer_new i) [AdmitOp a, RecordOp Bad b]) \<and>
   connection (foldl peer_step (peer_new i) [AdmitOp a, RecordOp Bad b, RecordOp Good c]) = Active \<and>
   connection (foldl peer_step (peer_new i) [AdmitOp a, RecordOp Bad b, AdmitOp c]) = Active \<and>
   trust_score (foldl peer_step (peer_new i) [AdmitOp a, RecordOp Bad b, AdmitOp c]) = 10"
proof -
  let ?p = "foldl peer_step (peer_new i) [AdmitOp a, RecordOp Bad b]"
  have w: "window_holds [Bad] ?p"
    using run_window [OF window_new [of i], of "[AdmitOp a, RecordOp Bad b]"] by (simp add: samples_def)
  have "trust_score ?p = history_score [Bad]"
    using record_score [OF run_window [OF window_new], of i "[AdmitOp a]" Bad b] by (simp add: samples_def)
  then have 1: "trust_score ?p = -100" by (simp add: history_score_def recent_def tdiv_def)
  have 2: "trust_score (peer_step ?p (RecordOp Good c)) = 0"
    using record_score [OF w] by (simp add: history_score_def recent_def tdiv_def)
  have ok: "peer_ok ?p" by (rule peer.run_inv [OF peer_new_ok])
  note ok' = peer_step_ok [OF ok, of "RecordOp Good c"]
  have "vdf_verified (peer_step ?p (RecordOp Good c))"
    using admitted_run [of "peer_new i" "[AdmitOp a, RecordOp Bad b, RecordOp Good c]"] by auto
  then show ?thesis
    using ok ok' 1 2 by (simp add: peer_ok_def is_banned_def connection_of_def) (simp add: admit_after_vdf_def)
qed

end
