(* ===== verification/Peer_Table.thy ===== *)
theory Peer_Table
  imports Peer_Window
begin

text \<open>
  The peer table of \<^verbatim>\<open>peer.rs\<close>: a fixed array of 256 slots searched linearly. It is a keyed
  store with a bounded number of entries; its invariant (unique identities, an exact
  count) holds after any sequence of operations.
\<close>

section \<open>The slot array\<close>

lemma first_index_Some:
  "first_index P xs = Some k \<Longrightarrow> k < length xs \<and> P (xs ! k) \<and> (\<forall>j < k. \<not> P (xs ! j))"
  by (induction xs arbitrary: k) (auto simp: nth_Cons' less_Suc_eq_0_disj split: if_splits)

lemma first_index_None: "first_index P xs = None \<longleftrightarrow> (\<forall>x \<in> set xs. \<not> P x)"
  by (induction xs) auto

definition lookup_slots :: "peer_state option list \<Rightarrow> hash32 \<Rightarrow> peer_state option" where
  "lookup_slots ss i = find (\<lambda>p. peer_id p = i) (List.map_filter id ss)"

lemma lookup_slots_simps [simp]:
  "lookup_slots [] i = None"
  "lookup_slots (None # ss) i = lookup_slots ss i"
  "lookup_slots (Some p # ss) i = (if peer_id p = i then Some p else lookup_slots ss i)"
  by (simp_all add: lookup_slots_def map_filter_simps)

lemma slot_has_simps [simp]: "\<not> slot_has i None" "slot_has i (Some p) \<longleftrightarrow> peer_id p = i"
  by (simp_all add: slot_has_def)

lemma lookup_update_same:
  "first_index (slot_has (peer_id p)) ss = Some k \<Longrightarrow>
     lookup_slots (ss[k := Some p]) i = (if i = peer_id p then Some p else lookup_slots ss i)"
proof (induction ss arbitrary: k)
  case (Cons s ss)
  then show ?case by (cases s) (auto split: if_splits)
qed simp

lemma lookup_update_free:
  "first_index (slot_has (peer_id p)) ss = None \<Longrightarrow> first_index (\<lambda>s. s = None) ss = Some k \<Longrightarrow>
     lookup_slots (ss[k := Some p]) i = (if i = peer_id p then Some p else lookup_slots ss i)"
proof (induction ss arbitrary: k)
  case (Cons s ss)
  then show ?case
  proof (cases s)
    case None
    have "lookup_slots ss (peer_id p) = None" if "\<forall>x \<in> set ss. \<not> slot_has (peer_id p) x" for ss
      using that by (induction ss) (auto simp: slot_has_def split: option.splits)
    then show ?thesis using Cons None by (auto simp: first_index_None)
  qed (auto split: if_splits)
qed simp

lemma lookup_map:
  "(\<And>p. peer_id (f p) = peer_id p) \<Longrightarrow>
     lookup_slots (map (map_option f) ss) i = map_option f (lookup_slots ss i)"
proof (induction ss)
  case (Cons s ss)
  then show ?case by (cases s) auto
qed simp

lemma table_get_slots: "table_get T i = lookup_slots (table_slots T) i"
  by (simp add: table_get_def lookup_slots_def)

interpretation peers: keyed_store table_get "\<lambda>T p. snd (upsert T p)" peer_id "\<lambda>T p. fst (upsert T p) = Inr ()"
  by unfold_locales
     (auto simp: upsert_def table_get_slots lookup_update_same lookup_update_free split: option.splits)

section \<open>The invariant\<close>

definition unique_ids :: "peer_state option list \<Rightarrow> bool" where
  "unique_ids ss \<longleftrightarrow>
     (\<forall>i j k. j < length ss \<longrightarrow> k < length ss \<longrightarrow> slot_has i (ss ! j) \<longrightarrow> slot_has i (ss ! k) \<longrightarrow> j = k)"

definition occupied :: "peer_state option list \<Rightarrow> nat" where
  "occupied ss = length (filter (\<lambda>s. s \<noteq> None) ss)"

definition table_ok :: "peer_table \<Rightarrow> bool" where
  "table_ok T \<longleftrightarrow>
     length (table_slots T) = 256 \<and> unique_ids (table_slots T) \<and> table_count T = occupied (table_slots T)"

lemma occupied_simps [simp]:
  "occupied [] = 0" "occupied (None # ss) = occupied ss" "occupied (Some p # ss) = Suc (occupied ss)"
  by (simp_all add: occupied_def)

lemma occupied_le: "occupied ss \<le> length ss"
  by (simp add: occupied_def)

lemma occupied_full: "occupied ss = length ss \<longleftrightarrow> None \<notin> set ss"
proof (induction ss)
  case (Cons s ss)
  then show ?case using occupied_le [of ss] by (cases s) auto
qed simp

lemma active_le_occupied:
  "length (filter (\<lambda>s. case s of None \<Rightarrow> False | Some p \<Rightarrow> P p) ss) \<le> occupied ss"
proof (induction ss)
  case (Cons s ss)
  then show ?case by (cases s) auto
qed simp

lemma occupied_fill: "k < length ss \<Longrightarrow> ss ! k = None \<Longrightarrow> occupied (ss[k := Some p]) = occupied ss + 1"
  by (induction ss arbitrary: k) (auto simp: occupied_def nth_Cons' split: if_splits nat.splits)

lemma occupied_replace:
  "k < length ss \<Longrightarrow> ss ! k \<noteq> None \<Longrightarrow> occupied (ss[k := Some p]) = occupied ss"
  by (induction ss arbitrary: k) (auto simp: occupied_def nth_Cons' split: if_splits nat.splits)

lemma unique_update:
  assumes "unique_ids ss" "k < length ss" "\<And>j. j < length ss \<Longrightarrow> slot_has (peer_id p) (ss ! j) \<Longrightarrow> j = k"
  shows "unique_ids (ss[k := Some p])"
  using assms by (auto simp: unique_ids_def nth_list_update)

lemma upsert_ok:
  assumes "table_ok T" shows "table_ok (snd (upsert T p))"
proof (cases "first_index (slot_has (peer_id p)) (table_slots T)")
  case (Some k)
  note k = first_index_Some [OF Some]
  have "table_slots T ! k \<noteq> None" using k by (cases "table_slots T ! k") auto
  then show ?thesis
    using assms k Some by (auto simp: table_ok_def upsert_def occupied_replace intro!: unique_update)
      (auto simp: unique_ids_def)
next
  case None
  note no = this
  show ?thesis
  proof (cases "first_index (\<lambda>s. s = None) (table_slots T)")
    case (Some k)
    note k = first_index_Some [OF Some]
    have "unique_ids ((table_slots T)[k := Some p])"
      using assms k no by (intro unique_update) (auto simp: table_ok_def first_index_None)
    then show ?thesis using assms k Some no by (simp add: table_ok_def upsert_def occupied_fill)
  qed (use assms no in \<open>simp add: upsert_def\<close>)
qed

lemma occupied_map: "occupied (map (map_option f) ss) = occupied ss"
  by (induction ss) (auto simp: occupied_def)

lemma slot_has_map: "(\<And>p. peer_id (f p) = peer_id p) \<Longrightarrow> slot_has i (map_option f s) = slot_has i s"
  by (cases s) auto

lemma tick_keeps_id: "peer_id (apply_silence_decay p t) = peer_id p"
  by (simp add: apply_silence_decay_def Let_def update_connection_state_def)

lemma step_keeps_id: "peer_id (peer_step p x) = peer_id p"
  by (cases x) (simp_all add: record_sample_def recalculate_score_def update_connection_state_def
      apply_silence_decay_def admit_after_vdf_def Let_def)

lemma tick_ok: "table_ok T \<Longrightarrow> table_ok (tick_all T t)"
  by (auto simp: table_ok_def tick_all_def occupied_map unique_ids_def slot_has_map tick_keeps_id)

lemma modify_ok:
  assumes "table_ok T" "\<And>p. peer_id (f p) = peer_id p" shows "table_ok (table_modify T i f)"
proof (cases "first_index (slot_has i) (table_slots T)")
  case (Some k)
  note k = first_index_Some [OF Some]
  obtain q where q: "table_slots T ! k = Some q" "peer_id q = i" using k by (cases "table_slots T ! k") auto
  have "unique_ids ((table_slots T)[k := Some (f q)])"
    using assms k q by (intro unique_update) (auto simp: table_ok_def unique_ids_def)
  then show ?thesis using assms(1) k Some q by (simp add: table_ok_def table_modify_def occupied_replace)
qed (use assms in \<open>simp add: table_modify_def\<close>)

definition drop_banned :: "peer_state option \<Rightarrow> peer_state option" where
  "drop_banned s = (case s of None \<Rightarrow> None | Some p \<Rightarrow> if is_banned p then None else Some p)"

lemma drop_banned_simps [simp]:
  "drop_banned None = None" "is_banned p \<Longrightarrow> drop_banned (Some p) = None"
  "\<not> is_banned p \<Longrightarrow> drop_banned (Some p) = Some p"
  by (simp_all add: drop_banned_def)

lemma occupied_drop: "occupied (map drop_banned ss) \<le> occupied ss"
proof (induction ss)
  case (Cons s ss)
  then show ?case by (cases s; cases "is_banned (the s)") auto
qed simp

lemma evict_slots_map:
  "occupied ss \<le> c \<Longrightarrow>
     evict_slots ss c = (map drop_banned ss, c - (occupied ss - occupied (map drop_banned ss)))"
proof (induction ss c rule: evict_slots.induct)
  case (3 p ss c)
  then show ?case using occupied_drop [of ss] by (cases "is_banned p") (simp_all add: split_beta)
qed simp_all

lemma evict_eq:
  "table_ok T \<Longrightarrow> evict_banned T =
     \<lparr>table_slots = map drop_banned (table_slots T), table_count = occupied (map drop_banned (table_slots T))\<rparr>"
  using evict_slots_map [of "table_slots T" "table_count T"] occupied_drop [of "table_slots T"] by (simp add: evict_banned_def table_ok_def)

lemma drop_banned_has: "slot_has i (drop_banned s) \<Longrightarrow> slot_has i s"
  by (auto simp: drop_banned_def slot_has_def split: option.splits if_splits)

lemma evict_ok: "table_ok T \<Longrightarrow> table_ok (evict_banned T)"
  by (simp add: evict_eq) (auto simp: table_ok_def unique_ids_def dest!: drop_banned_has)

text \<open>Calls on the table, in any order.\<close>

datatype table_op = UpsertOp peer_state | PeerOp hash32 peer_op | EvictOp | TickOp nat

fun table_step :: "peer_table \<Rightarrow> table_op \<Rightarrow> peer_table" where
  "table_step T (UpsertOp p) = snd (upsert T p)"
| "table_step T (PeerOp i x) = table_modify T i (\<lambda>p. peer_step p x)"
| "table_step T EvictOp = evict_banned T"
| "table_step T (TickOp t) = tick_all T t"

interpretation peer_table: preserved table_step table_ok
proof
  fix T x show "table_ok T \<Longrightarrow> table_ok (table_step T x)"
    by (cases x) (auto intro: upsert_ok modify_ok evict_ok tick_ok step_keeps_id)
qed

lemma table_new_ok: "table_ok peer_table_new"
  by (simp add: table_ok_def peer_table_new_def unique_ids_def occupied_def)

lemma lookup_drop_banned:
  assumes "unique_ids ss"
  shows "lookup_slots (map drop_banned ss) i =
    (case lookup_slots ss i of None \<Rightarrow> None | Some p \<Rightarrow> if is_banned p then None else Some p)"
  using assms
proof (induction ss)
  case (Cons s ss)
  have u: "unique_ids ss"
    unfolding unique_ids_def using Cons.prems [unfolded unique_ids_def, rule_format, of "Suc _" "Suc _"] by auto
  show ?case
  proof (cases s)
    case None
    then show ?thesis using Cons.IH [OF u] by (simp add: drop_banned_def)
  next
    case (Some p)
    have "lookup_slots ss (peer_id p) = None"
    proof -
      have "\<not> slot_has (peer_id p) (ss ! k)" if "k < length ss" for k
        using Cons.prems [unfolded unique_ids_def, rule_format, of 0 "Suc k" "peer_id p"] that Some by auto
      then have "\<forall>x \<in> set ss. \<not> slot_has (peer_id p) x" by (metis in_set_conv_nth)
      then show ?thesis by (induction ss) (auto simp: slot_has_def split: option.splits)
    qed
    then show ?thesis using Cons.IH [OF u] Some by (auto simp: drop_banned_def)
  qed
qed simp

section \<open>Properties\<close>

text \<open>
  After any calls the table has 256 slots, no identity occurs twice, the count is the number
  of occupied slots, and the active peers are at most that many.
\<close>

theorem peer_table_invariant:
  fixes ops
  defines "T \<equiv> foldl table_step peer_table_new ops"
  shows "length (table_slots T) = 256 \<and> unique_ids (table_slots T) \<and>
     total_count T = length (filter (\<lambda>s. s \<noteq> None) (table_slots T)) \<and>
     active_count T \<le> total_count T \<and> total_count T \<le> 256"
proof -
  have ok: "table_ok T" unfolding T_def by (rule peer_table.run_inv [OF table_new_ok])
  have "active_count T \<le> occupied (table_slots T)"
    unfolding active_count_def by (rule active_le_occupied)
  then show ?thesis
    using ok length_filter_le [of "\<lambda>s. s \<noteq> None" "table_slots T"]
    by (simp add: table_ok_def total_count_def occupied_def)
qed

text \<open>
  \<^verbatim>\<open>upsert\<close> fails, without any change, exactly when the identity is new and all 256 slots are
  taken; otherwise the peer is found under its identity, every other identity is found as before,
  and the count grows by one only for a new identity.
\<close>

theorem peer_table_upsert:
  fixes ops p j
  defines "T \<equiv> foldl table_step peer_table_new ops"
  shows "fst (upsert T p) = (if table_get T (peer_id p) = None \<and> total_count T = 256 then Inl () else Inr ()) \<and>
     (fst (upsert T p) = Inl () \<longrightarrow> snd (upsert T p) = T) \<and>
     (fst (upsert T p) = Inr () \<longrightarrow>
        table_get (snd (upsert T p)) j = (if j = peer_id p then Some p else table_get T j) \<and>
        total_count (snd (upsert T p)) = total_count T + (if table_get T (peer_id p) = None then 1 else 0))"
proof -
  have ok: "table_ok T" unfolding T_def by (rule peer_table.run_inv [OF table_new_ok])
  have get: "table_get T i = None \<longleftrightarrow> first_index (slot_has i) (table_slots T) = None" for i
    unfolding table_get_slots first_index_None
    by (induction "table_slots T" rule: list.induct) (auto simp: lookup_slots_def find_None_iff slot_has_def
        map_filter_def split: option.splits)
  have full: "total_count T = 256 \<longleftrightarrow> first_index (\<lambda>s. s = None) (table_slots T) = None"
    using ok occupied_full [of "table_slots T"] unfolding first_index_None table_ok_def total_count_def by metis
  show ?thesis
    using peers.lookup_ins_if [of T p j] get [of "peer_id p"] full
    by (auto simp: upsert_def total_count_def split: option.splits)
qed

theorem peer_table_upsert_witness:
  "table_get (snd (upsert (foldl table_step peer_table_new [UpsertOp (peer_new [1])]) (peer_new [2]))) [1] =
     Some (peer_new [1])"
proof -
  let ?T = "foldl table_step peer_table_new [UpsertOp (peer_new [1])]"
  have T: "table_get ?T [1] = Some (peer_new [1])" "table_get ?T [2] = None"
    by (simp_all add: peer_table_new_def upsert_def first_index_None table_get_slots slot_has_def peer_new_def
        eval_nat_numeral)
  have "total_count ?T \<noteq> 256"
    by (simp add: peer_table_new_def upsert_def first_index_None slot_has_def total_count_def eval_nat_numeral)
  then show ?thesis
    using peer_table_upsert [of "[UpsertOp (peer_new [1])]" "peer_new [2]" "[1]"] T by (simp add: peer_new_def)
qed

text \<open>
  Eviction removes exactly the banned peers and keeps every other, a tick applies the decay to
  every peer, and afterwards the count is again the number of occupied slots.
\<close>

theorem peer_table_evict_and_tick:
  fixes ops i t
  defines "T \<equiv> foldl table_step peer_table_new ops"
  shows "table_get (evict_banned T) i =
       (case table_get T i of None \<Rightarrow> None | Some p \<Rightarrow> if is_banned p then None else Some p) \<and>
     table_get (tick_all T t) i = map_option (\<lambda>p. apply_silence_decay p t) (table_get T i) \<and>
     total_count (evict_banned T) = length (filter (\<lambda>s. s \<noteq> None) (table_slots (evict_banned T)))"
proof -
  have ok: "table_ok T" unfolding T_def by (rule peer_table.run_inv [OF table_new_ok])
  then have "table_get (evict_banned T) i =
      (case table_get T i of None \<Rightarrow> None | Some p \<Rightarrow> if is_banned p then None else Some p)"
    by (simp add: evict_eq table_get_slots lookup_drop_banned table_ok_def)
  moreover have "table_get (tick_all T t) i = map_option (\<lambda>p. apply_silence_decay p t) (table_get T i)"
    by (simp add: tick_all_def table_get_slots lookup_map tick_keeps_id)
  ultimately show ?thesis using evict_ok [OF ok] by (simp add: table_ok_def total_count_def occupied_def)
qed

end
