(* ===== verification/Transport.thy ===== *)
theory Transport
  imports Nexo_Prelude
begin

text \<open>
  Frames, ingestion and emission of \<^verbatim>\<open>nexoia-core/gossip/src/transport.rs\<close>. The bounded channel is
  the crate \<^verbatim>\<open>crossbeam_channel\<close>, not part of the repository: its \<^verbatim>\<open>try_recv\<close> and \<^verbatim>\<open>try_send\<close> are
  arguments of the definitions, and what its documentation promises (first in, first out; a full or
  closed channel hands the message back) is stated as the hypotheses \<open>fifo_recv\<close> and
  \<open>returns_frame\<close>. The last part is the entry cost of a joining peer.
\<close>

section \<open>Frames\<close>

abbreviation MAX_FRAME_SIZE :: nat where "MAX_FRAME_SIZE \<equiv> 1024"

datatype frame_kind = VdfHandshake | GossipData | PeerHeartbeat | ZkProofFrame | EpochSealFrame | UnknownFrame

record network_frame =
  fr_peer_id :: hash32
  fr_payload :: bytes
  fr_len :: nat
  fr_kind :: frame_kind

definition frame_empty :: network_frame where
  "frame_empty = \<lparr>fr_peer_id = zeros 32, fr_payload = zeros MAX_FRAME_SIZE, fr_len = 0, fr_kind = UnknownFrame\<rparr>"

text \<open>\<open>None\<close> is the panic of a slice beyond the array.\<close>

definition payload_slice :: "network_frame \<Rightarrow> bytes option" where
  "payload_slice f = (if fr_len f \<le> length (fr_payload f) then Some (take (fr_len f) (fr_payload f)) else None)"

definition frame_from_bytes :: "hash32 \<Rightarrow> frame_kind \<Rightarrow> bytes \<Rightarrow> network_frame option" where
  "frame_from_bytes pid kind data =
     (if MAX_FRAME_SIZE < length data then None
      else Some (frame_empty
        \<lparr>fr_peer_id := pid, fr_kind := kind, fr_payload := put_at 0 data (fr_payload frame_empty),
         fr_len := length data\<rparr>))"

datatype frame_validation = FrameValid | FrameEmpty | FrameOversized | FrameAnonymousPeer | FrameUnknownKind

definition validate_frame :: "network_frame \<Rightarrow> frame_validation" where
  "validate_frame f =
     (if fr_len f = 0 then FrameEmpty
      else if MAX_FRAME_SIZE < fr_len f then FrameOversized
      else if fr_peer_id f = zeros 32 then FrameAnonymousPeer
      else if fr_kind f = UnknownFrame then FrameUnknownKind
      else FrameValid)"

section \<open>Ingestion\<close>

record 'q ingestor =
  ing_rx :: 'q
  frames_processed :: nat
  frames_dropped :: nat

definition ingestor_new :: "'q \<Rightarrow> 'q ingestor" where
  "ingestor_new rx = \<lparr>ing_rx = rx, frames_processed = 0, frames_dropped = 0\<rparr>"

definition drain_one_tick ::
  "('q \<Rightarrow> network_frame option \<times> 'q) \<Rightarrow> 'q ingestor \<Rightarrow> network_frame option \<times> 'q ingestor" where
  "drain_one_tick try_recv I =
     (case try_recv (ing_rx I) of
        (Some f, rx) \<Rightarrow> (Some f, I\<lparr>ing_rx := rx, frames_processed := frames_processed I + 1\<rparr>)
      | (None, rx) \<Rightarrow> (None, I\<lparr>ing_rx := rx\<rparr>))"

fun drain_burst ::
  "('q \<Rightarrow> network_frame option \<times> 'q) \<Rightarrow> nat \<Rightarrow> 'q ingestor \<Rightarrow> network_frame list \<times> 'q ingestor" where
  "drain_burst try_recv 0 I = ([], I)"
| "drain_burst try_recv (Suc n) I =
     (case try_recv (ing_rx I) of
        (Some f, rx) \<Rightarrow>
          let (fs, I') = drain_burst try_recv n (I\<lparr>ing_rx := rx, frames_processed := frames_processed I + 1\<rparr>)
          in (f # fs, I')
      | (None, rx) \<Rightarrow> ([], I\<lparr>ing_rx := rx\<rparr>))"

section \<open>Emission\<close>

datatype send_error = ChannelFull network_frame | ChannelDisconnected network_frame

record 'q emitter =
  em_tx :: 'q
  frames_sent :: nat
  frames_rejected :: nat

definition emitter_new :: "'q \<Rightarrow> 'q emitter" where
  "emitter_new tx = \<lparr>em_tx = tx, frames_sent = 0, frames_rejected = 0\<rparr>"

definition try_emit ::
  "('q \<Rightarrow> network_frame \<Rightarrow> (send_error + unit) \<times> 'q) \<Rightarrow> 'q emitter \<Rightarrow> network_frame \<Rightarrow>
   (network_frame + unit) \<times> 'q emitter" where
  "try_emit try_send E f =
     (case try_send (em_tx E) f of
        (Inr _, tx) \<Rightarrow> (Inr (), E\<lparr>em_tx := tx, frames_sent := frames_sent E + 1\<rparr>)
      | (Inl (ChannelFull g), tx) \<Rightarrow> (Inl g, E\<lparr>em_tx := tx, frames_rejected := frames_rejected E + 1\<rparr>)
      | (Inl (ChannelDisconnected g), tx) \<Rightarrow> (Inl g, E\<lparr>em_tx := tx\<rparr>))"

section \<open>The channel's contract\<close>

text \<open>\<open>view\<close> lists the queued frames, oldest first.\<close>

definition fifo_recv :: "('q \<Rightarrow> network_frame list) \<Rightarrow> ('q \<Rightarrow> network_frame option \<times> 'q) \<Rightarrow> bool" where
  "fifo_recv view try_recv \<longleftrightarrow>
     (\<forall>q. case view q of
            [] \<Rightarrow> fst (try_recv q) = None \<and> view (snd (try_recv q)) = []
          | f # fs \<Rightarrow> fst (try_recv q) = Some f \<and> view (snd (try_recv q)) = fs)"

definition returns_frame :: "('q \<Rightarrow> network_frame \<Rightarrow> (send_error + unit) \<times> 'q) \<Rightarrow> bool" where
  "returns_frame try_send \<longleftrightarrow>
     (\<forall>q f. fst (try_send q f) \<in> {Inr (), Inl (ChannelFull f), Inl (ChannelDisconnected f)})"

text \<open>A bounded queue as a list meets both; it serves the witnesses.\<close>

definition list_recv :: "network_frame list \<Rightarrow> network_frame option \<times> network_frame list" where
  "list_recv q = (case q of [] \<Rightarrow> (None, []) | f # fs \<Rightarrow> (Some f, fs))"

definition list_send ::
  "nat \<Rightarrow> network_frame list \<Rightarrow> network_frame \<Rightarrow> (send_error + unit) \<times> network_frame list" where
  "list_send cap q f = (if length q < cap then (Inr (), q @ [f]) else (Inl (ChannelFull f), q))"

lemma fifo_list: "fifo_recv id list_recv"
  by (auto simp: fifo_recv_def list_recv_def split: list.splits)

lemma returns_list: "returns_frame (list_send cap)"
  by (simp add: returns_frame_def list_send_def)

lemma fifo_empty:
  assumes "fifo_recv view recv" "view q = []" shows "\<exists>q'. recv q = (None, q') \<and> view q' = []"
  using assms(1) [unfolded fifo_recv_def, rule_format, of q] assms(2) by (cases "recv q") simp

lemma fifo_next:
  assumes "fifo_recv view recv" "view q = f # fs" shows "\<exists>q'. recv q = (Some f, q') \<and> view q' = fs"
  using assms(1) [unfolded fifo_recv_def, rule_format, of q] assms(2) by (cases "recv q") simp

lemma drain_burst_fifo:
  assumes "fifo_recv view recv"
  shows "fst (drain_burst recv n I) = take n (view (ing_rx I)) \<and>
    view (ing_rx (snd (drain_burst recv n I))) = drop n (view (ing_rx I)) \<and>
    frames_processed (snd (drain_burst recv n I)) = frames_processed I + min n (length (view (ing_rx I)))"
proof (induction n arbitrary: I)
  case (Suc n)
  show ?case
  proof (cases "view (ing_rx I)")
    case Nil
    then show ?thesis using fifo_empty [OF assms Nil] by auto
  next
    case (Cons f fs)
    then show ?thesis using fifo_next [OF assms Cons] Suc.IH by (auto simp: split_beta)
  qed
qed simp

text \<open>One call per tick: the frames handed out by \<open>n\<close> ticks.\<close>

fun drain_ticks ::
  "('q \<Rightarrow> network_frame option \<times> 'q) \<Rightarrow> nat \<Rightarrow> 'q ingestor \<Rightarrow> network_frame option list \<times> 'q ingestor" where
  "drain_ticks recv 0 I = ([], I)"
| "drain_ticks recv (Suc n) I =
     (let (f, I') = drain_one_tick recv I; (fs, I'') = drain_ticks recv n I' in (f # fs, I''))"

lemma drain_ticks_fifo:
  assumes "fifo_recv view recv"
  shows "fst (drain_ticks recv n I) =
      map Some (take n (view (ing_rx I))) @ replicate (n - length (view (ing_rx I))) None \<and>
    view (ing_rx (snd (drain_ticks recv n I))) = drop n (view (ing_rx I)) \<and>
    frames_processed (snd (drain_ticks recv n I)) = frames_processed I + min n (length (view (ing_rx I)))"
proof (induction n arbitrary: I)
  case (Suc n)
  show ?case
  proof (cases "view (ing_rx I)")
    case Nil
    then show ?thesis using fifo_empty [OF assms Nil] Suc.IH by (auto simp: split_beta drain_one_tick_def)
  next
    case (Cons f fs)
    then show ?thesis using fifo_next [OF assms Cons] Suc.IH by (auto simp: split_beta drain_one_tick_def)
  qed
qed simp

section \<open>Properties\<close>

text \<open>
  A frame is built exactly from at most 1024 bytes; its payload slice is those bytes, its array
  has 1024, and its validation depends only on the emptiness of the data, the peer and the kind.
  A built frame is never oversized.
\<close>

theorem frame_roundtrip:
  "(frame_from_bytes pid kind data = None \<longleftrightarrow> 1024 < length data) \<and>
   (\<forall>f. frame_from_bytes pid kind data = Some f \<longrightarrow>
      payload_slice f = Some data \<and> length (fr_payload f) = 1024 \<and> fr_peer_id f = pid \<and> fr_kind f = kind \<and>
      validate_frame f =
        (if data = [] then FrameEmpty else if pid = zeros 32 then FrameAnonymousPeer
         else if kind = UnknownFrame then FrameUnknownKind else FrameValid))"
  by (auto simp: frame_from_bytes_def payload_slice_def frame_empty_def put_at_def validate_frame_def)

theorem frame_roundtrip_witness:
  "\<exists>f. frame_from_bytes (replicate 32 1) GossipData [0xAB, 0xCD] = Some f \<and> payload_slice f = Some [0xAB, 0xCD] \<and>
     validate_frame f = FrameValid"
proof -
  obtain f where f: "frame_from_bytes (replicate 32 1) GossipData [0xAB, 0xCD] = Some f"
    by (auto simp: frame_from_bytes_def)
  have "replicate 32 1 \<noteq> zeros 32" by (simp add: zeros_def)
  then show ?thesis using frame_roundtrip [of "replicate 32 1" GossipData "[0xAB, 0xCD]"] f by auto
qed

text \<open>
  With a first-in-first-out channel, \<open>n\<close> ticks hand out the queued frames in order, one per
  tick, then nothing; a burst of at most \<open>n\<close> hands out the same frames in one call and leaves the
  same queue and the same count of processed frames.
\<close>

theorem ingestor_ticks_and_burst:
  assumes "fifo_recv view recv"
  shows "fst (drain_ticks recv n I) =
       map Some (take n (view (ing_rx I))) @ replicate (n - length (view (ing_rx I))) None \<and>
     fst (drain_burst recv n I) = take n (view (ing_rx I)) \<and>
     view (ing_rx (snd (drain_ticks recv n I))) = drop n (view (ing_rx I)) \<and>
     view (ing_rx (snd (drain_burst recv n I))) = drop n (view (ing_rx I)) \<and>
     frames_processed (snd (drain_ticks recv n I)) = frames_processed I + min n (length (view (ing_rx I))) \<and>
     frames_processed (snd (drain_burst recv n I)) = frames_processed I + min n (length (view (ing_rx I)))"
  using drain_ticks_fifo [OF assms] drain_burst_fifo [OF assms] by blast

theorem ingestor_ticks_and_burst_witness:
  "fst (drain_ticks list_recv 3 (ingestor_new [frame_empty, frame_empty])) = [Some frame_empty, Some frame_empty, None]"
  using ingestor_ticks_and_burst [OF fifo_list, of 3 "ingestor_new [frame_empty, frame_empty]"]
  by (simp add: ingestor_new_def)

text \<open>
  Every emitted frame is either counted as sent or handed back unchanged; the rejected counter
  counts the full-channel returns only, so sent and rejected together never exceed the calls.
\<close>

theorem emitter_accounting:
  assumes "returns_frame send"
  shows "case try_emit send E f of
       (Inr _, E') \<Rightarrow> frames_sent E' = frames_sent E + 1 \<and> frames_rejected E' = frames_rejected E
     | (Inl g, E') \<Rightarrow> g = f \<and> frames_sent E' = frames_sent E \<and>
         frames_rejected E' = frames_rejected E + (if fst (send (em_tx E) f) = Inl (ChannelFull f) then 1 else 0)"
proof -
  have "fst (send (em_tx E) f) \<in> {Inr (), Inl (ChannelFull f), Inl (ChannelDisconnected f)}"
    using assms by (simp add: returns_frame_def)
  then show ?thesis
    by (cases "send (em_tx E) f") (auto simp: try_emit_def)
qed

theorem emitter_accounting_witness:
  "fst (try_emit (list_send 1) (emitter_new [frame_empty]) frame_empty) = Inl frame_empty"
  using emitter_accounting [OF returns_list [of 1], where E = "emitter_new [frame_empty]" and f = frame_empty]
  by (simp add: try_emit_def list_send_def emitter_new_def)

section \<open>The entry cost\<close>

text \<open>
  The entry cost of \<^verbatim>\<open>nexoia-core/gossip/src/vdf_guard.rs\<close>: challenges, the iterated hash, the
  verdict and the handshake of a joining peer. A difficulty is a \<^verbatim>\<open>u32\<close> that is only compared and
  counted down, so it is a \<open>nat\<close>.
\<close>

section \<open>Challenge and proof\<close>

definition DEFAULT_DIFFICULTY :: nat where
  "DEFAULT_DIFFICULTY = 400000"

definition MAX_DIFFICULTY :: nat where
  "MAX_DIFFICULTY = 40000000"

record vdf_challenge =
  ch_seed :: hash32
  ch_difficulty :: nat

definition vdf_challenge_new :: "hash32 \<Rightarrow> nat \<Rightarrow> vdf_challenge" where
  "vdf_challenge_new seed d = \<lparr>ch_seed = seed, ch_difficulty = min d MAX_DIFFICULTY\<rparr>"

definition default_difficulty :: "hash32 \<Rightarrow> vdf_challenge" where
  "default_difficulty seed = vdf_challenge_new seed DEFAULT_DIFFICULTY"

record vdf_proof =
  vp_seed :: hash32
  vp_output :: hash32
  vp_difficulty :: nat

text \<open>The loop of \<^verbatim>\<open>compute_vdf\<close>.\<close>

fun vdf_loop :: "(bytes \<Rightarrow> bytes) \<Rightarrow> nat \<Rightarrow> hash32 \<Rightarrow> hash32" where
  "vdf_loop sha 0 current = current"
| "vdf_loop sha (Suc n) current = vdf_loop sha n (sha current)"

definition compute_vdf :: "(bytes \<Rightarrow> bytes) \<Rightarrow> vdf_challenge \<Rightarrow> vdf_proof" where
  "compute_vdf sha c =
     \<lparr>vp_seed = ch_seed c, vp_output = vdf_loop sha (ch_difficulty c) (ch_seed c),
      vp_difficulty = ch_difficulty c\<rparr>"

datatype vdf_verdict = Valid | Invalid | SeedMismatch | DifficultyMismatch | DifficultyExceeded

definition verdict_is_valid :: "vdf_verdict \<Rightarrow> bool" where
  "verdict_is_valid v \<longleftrightarrow> v = Valid"

definition verify_vdf :: "(bytes \<Rightarrow> bytes) \<Rightarrow> vdf_challenge \<Rightarrow> vdf_proof \<Rightarrow> vdf_verdict" where
  "verify_vdf sha c p =
     (if vp_seed p \<noteq> ch_seed c then SeedMismatch
      else if vp_difficulty p \<noteq> ch_difficulty c then DifficultyMismatch
      else if MAX_DIFFICULTY < ch_difficulty c then DifficultyExceeded
      else if vp_output (compute_vdf sha c) = vp_output p then Valid
      else Invalid)"

section \<open>Handshake\<close>

datatype handshake_state = ChallengeIssued | Admitted | Rejected vdf_verdict

record peer_handshake =
  hs_peer_id :: hash32
  hs_challenge :: vdf_challenge
  hs_state :: handshake_state

definition peer_handshake_new :: "hash32 \<Rightarrow> hash32 \<Rightarrow> peer_handshake" where
  "peer_handshake_new pid seed =
     \<lparr>hs_peer_id = pid, hs_challenge = default_difficulty seed, hs_state = ChallengeIssued\<rparr>"

definition submit_proof :: "(bytes \<Rightarrow> bytes) \<Rightarrow> peer_handshake \<Rightarrow> vdf_proof \<Rightarrow> peer_handshake" where
  "submit_proof sha h p =
     (let v = verify_vdf sha (hs_challenge h) p
      in h\<lparr>hs_state := (if verdict_is_valid v then Admitted else Rejected v)\<rparr>)"

definition is_admitted :: "peer_handshake \<Rightarrow> bool" where
  "is_admitted h \<longleftrightarrow> hs_state h = Admitted"

section \<open>Facts\<close>

lemma vdf_loop_funpow: "vdf_loop sha n x = (sha ^^ n) x"
  by (induction sha n x rule: vdf_loop.induct) (simp_all add: funpow_swap1)

lemma verify_vdf_Valid:
  "verify_vdf sha c p = Valid \<longleftrightarrow> ch_difficulty c \<le> MAX_DIFFICULTY \<and> p = compute_vdf sha c"
  by (cases p) (auto simp: verify_vdf_def compute_vdf_def)

lemma default_challenge_bounded: "ch_difficulty (default_difficulty seed) \<le> MAX_DIFFICULTY"
  by (simp add: default_difficulty_def vdf_challenge_new_def)

definition handshake_inv :: "(bytes \<Rightarrow> bytes) \<Rightarrow> hash32 \<Rightarrow> hash32 \<Rightarrow> peer_handshake \<Rightarrow> bool" where
  "handshake_inv sha pid seed h \<longleftrightarrow>
     hs_peer_id h = pid \<and> hs_challenge h = default_difficulty seed \<and> hs_state h \<noteq> Rejected Valid \<and>
     hs_state h \<noteq> Rejected DifficultyExceeded"

interpretation handshake: preserved "submit_proof sha" "handshake_inv sha pid seed" for sha pid seed
  by unfold_locales
     (auto simp: handshake_inv_def submit_proof_def Let_def verdict_is_valid_def verify_vdf_def
        default_challenge_bounded leD)

section \<open>Properties\<close>

text \<open>
  The verdict is \<open>Valid\<close> exactly for the seed, the difficulty and the hash iterated that many
  times from the seed, with the difficulty within the maximum; the honest proof of every
  challenge made by the constructor is valid, and the constructor clamps the difficulty.
\<close>

theorem vdf_valid_iff:
  "(verify_vdf sha c p = Valid \<longleftrightarrow>
      vp_seed p = ch_seed c \<and> vp_difficulty p = ch_difficulty c \<and> ch_difficulty c \<le> MAX_DIFFICULTY \<and>
      vp_output p = (sha ^^ ch_difficulty c) (ch_seed c)) \<and>
   ch_difficulty (vdf_challenge_new seed d) = min d 40000000 \<and>
   verify_vdf sha (vdf_challenge_new seed d) (compute_vdf sha (vdf_challenge_new seed d)) = Valid"
  by (auto simp: verify_vdf_Valid compute_vdf_def vdf_loop_funpow vdf_challenge_new_def MAX_DIFFICULTY_def)

text \<open>
  Whatever proofs were submitted before, a handshake keeps its peer and its default challenge,
  and after a submission the peer is admitted exactly when that last proof is the honest one; a
  rejection carries the verdict, and the excess-difficulty verdict never occurs. A later wrong
  proof revokes an admission.
\<close>

theorem handshake_last_proof_decides:
  fixes sha pid seed ps p
  defines "h \<equiv> foldl (submit_proof sha) (peer_handshake_new pid seed) ps"
  shows "hs_peer_id h = pid \<and> hs_challenge h = default_difficulty seed \<and>
     (is_admitted (submit_proof sha h p) \<longleftrightarrow> p = compute_vdf sha (default_difficulty seed)) \<and>
     (\<not> is_admitted (submit_proof sha h p) \<longrightarrow>
        hs_state (submit_proof sha h p) = Rejected (verify_vdf sha (default_difficulty seed) p)) \<and>
     hs_state h \<noteq> Rejected DifficultyExceeded"
proof -
  have "handshake_inv sha pid seed h"
    unfolding h_def by (rule handshake.run_inv) (simp add: handshake_inv_def peer_handshake_new_def)
  then show ?thesis
    by (auto simp: handshake_inv_def submit_proof_def Let_def is_admitted_def verdict_is_valid_def
        verify_vdf_Valid default_challenge_bounded)
qed

theorem handshake_last_proof_decides_witness:
  "let h = foldl (submit_proof (\<lambda>x. x)) (peer_handshake_new [1] [2])
      [compute_vdf (\<lambda>x. x) (default_difficulty [2])]
   in hs_state (submit_proof (\<lambda>x. x) h \<lparr>vp_seed = [3], vp_output = [2], vp_difficulty = 0\<rparr>) = Rejected SeedMismatch"
  using handshake_last_proof_decides [of "\<lambda>x. x" "[1]" "[2]" "[compute_vdf (\<lambda>x. x) (default_difficulty [2])]"
      "\<lparr>vp_seed = [3], vp_output = [2], vp_difficulty = 0\<rparr>"]
  by (auto simp: Let_def compute_vdf_def default_difficulty_def vdf_challenge_new_def verify_vdf_def)

end
