(* ===== verification/Bio_Loop.thy ===== *)
theory Bio_Loop
  imports Nexo_Prelude
begin

text \<open>
  The heart and the digestor of \<^verbatim>\<open>nexoia-core/bio_loop/src\<close> (\<^verbatim>\<open>lib.rs\<close>, \<^verbatim>\<open>heart.rs\<close>,
  \<^verbatim>\<open>digest.rs\<close>). The two threads meet in a channel of the crate \<^verbatim>\<open>crossbeam_channel\<close>, so a round of
  the digestor takes what the channel and the other threads do as its input: whether the running
  flag was cleared, the backlog it reads, and what \<^verbatim>\<open>recv_timeout\<close> returns. The messages a
  round offers to the memory thread are its output. Counters are \<open>nat\<close>; the tick is a wrapping
  \<^verbatim>\<open>u64\<close>.
\<close>

section \<open>Events\<close>

datatype event = DataEvent bytes | HeartbeatEvent u64 | ShutdownEvent

datatype mmr_message = HashMessage hash32 | SealEpochMessage

definition MEMBRANE_CAPACITY :: nat where
  "MEMBRANE_CAPACITY = 1024"

definition HYSTERESIS_HIGH :: nat where
  "HYSTERESIS_HIGH = (MEMBRANE_CAPACITY * 80) div 100"

definition HYSTERESIS_LOW :: nat where
  "HYSTERESIS_LOW = (MEMBRANE_CAPACITY * 20) div 100"

section \<open>The heart\<close>

text \<open>\<open>n\<close> rounds of the heart: the events offered to the membrane and the final tick.\<close>

fun heart_run :: "nat \<Rightarrow> u64 \<Rightarrow> event list \<times> u64" where
  "heart_run 0 tick = ([], tick)"
| "heart_run (Suc n) tick = (let (es, t) = heart_run n (tick + 1) in (HeartbeatEvent tick # es, t))"

section \<open>The digestor\<close>

record digestor_metrics =
  processed :: nat
  dropped :: nat
  suppressions :: nat

definition metrics_new :: digestor_metrics where
  "metrics_new = \<lparr>processed = 0, dropped = 0, suppressions = 0\<rparr>"

definition snapshot :: "digestor_metrics \<Rightarrow> nat \<times> nat \<times> nat" where
  "snapshot m = (processed m, dropped m, suppressions m)"

record digestor =
  running :: bool
  metrics :: digestor_metrics
  hash_tx :: bool

definition digestor_new :: "bool \<Rightarrow> digestor" where
  "digestor_new r = \<lparr>running = r, metrics = metrics_new, hash_tx = False\<rparr>"

definition set_hash_channel :: "digestor \<Rightarrow> digestor" where
  "set_hash_channel d = d\<lparr>hash_tx := True\<rparr>"

text \<open>\<^verbatim>\<open>digest_event\<close>: the new state and the message offered with \<^verbatim>\<open>try_send\<close>, if any.\<close>

definition digest_event :: "(bytes \<Rightarrow> bytes) \<Rightarrow> digestor \<Rightarrow> event \<Rightarrow> digestor \<times> mmr_message list" where
  "digest_event sha d e =
     (case e of
        DataEvent payload \<Rightarrow>
          (d\<lparr>metrics := (metrics d)\<lparr>processed := processed (metrics d) + 1\<rparr>\<rparr>,
           if hash_tx d then [HashMessage (sha payload)] else [])
      | HeartbeatEvent tick \<Rightarrow>
          (d, if tick mod 10 = 0 then (if hash_tx d then [SealEpochMessage] else []) else [])
      | ShutdownEvent \<Rightarrow> (d\<lparr>running := False\<rparr>, []))"

datatype recv_outcome = Received event | RecvTimeout | RecvDisconnected

record round_input =
  stop_request :: bool
  backlog :: nat
  outcome :: recv_outcome

definition hysteresis :: "bool \<Rightarrow> nat \<Rightarrow> bool" where
  "hysteresis suppressed n =
     (if suppressed then \<not> n < HYSTERESIS_LOW else HYSTERESIS_HIGH \<le> n)"

datatype flow = Continue | Break

text \<open>One round of the loop, entered while the running flag is set.\<close>

definition digestor_round ::
  "(bytes \<Rightarrow> bytes) \<Rightarrow> bool \<times> digestor \<Rightarrow> nat \<Rightarrow> recv_outcome \<Rightarrow> flow \<times> (bool \<times> digestor) \<times> mmr_message list" where
  "digestor_round sha s n out =
     (let (suppressed, d) = s;
          suppressed' = hysteresis suppressed n;
          d = (if \<not> suppressed \<and> suppressed'
               then d\<lparr>metrics := (metrics d)\<lparr>suppressions := suppressions (metrics d) + 1\<rparr>\<rparr> else d)
      in case out of
           RecvTimeout \<Rightarrow> (Continue, (suppressed', d), [])
         | RecvDisconnected \<Rightarrow> (Break, (suppressed', d), [])
         | Received e \<Rightarrow>
             if suppressed' then
               (Continue, (suppressed', d\<lparr>metrics := (metrics d)\<lparr>dropped := dropped (metrics d) + 1\<rparr>\<rparr>), [])
             else let (d', ms) = digest_event sha d e in (Continue, (suppressed', d'), ms))"

text \<open>
  \<^verbatim>\<open>run\<close> over the inputs of its rounds; the flag is read at the head of every round. The list
  bounds the rounds observed: the loop of the source runs as long as its environment lets it.
\<close>

fun digestor_run ::
  "(bytes \<Rightarrow> bytes) \<Rightarrow> bool \<times> digestor \<Rightarrow> round_input list \<Rightarrow> (bool \<times> digestor) \<times> mmr_message list" where
  "digestor_run sha s [] = (s, [])"
| "digestor_run sha (supp, d) (inp # inps) =
     (let d = d\<lparr>running := running d \<and> \<not> stop_request inp\<rparr> in
      if \<not> running d then ((supp, d), [])
      else case digestor_round sha (supp, d) (backlog inp) (outcome inp) of
             (Break, s, ms) \<Rightarrow> (s, ms)
           | (Continue, s, ms) \<Rightarrow> let (s', ms') = digestor_run sha s inps in (s', ms @ ms'))"

end
