(* ===== verification/Bio_Theorems.thy ===== *)
theory Bio_Theorems
  imports Bio_Loop
begin

text \<open>
  The properties of the heart and the digestor: which events are handled and which are dropped, the
  hysteresis against flapping, the loss of a shutdown under pressure and the rate of epoch seals.
\<close>

section \<open>Rounds\<close>

lemma hysteresis_simps:
  "hysteresis False n \<longleftrightarrow> 819 \<le> n" "hysteresis True n \<longleftrightarrow> 204 \<le> n"
  by (auto simp: hysteresis_def HYSTERESIS_HIGH_def HYSTERESIS_LOW_def MEMBRANE_CAPACITY_def)

fun is_data :: "event \<Rightarrow> bool" where
  "is_data (DataEvent x) = True"
| "is_data _ = False"

fun is_received :: "recv_outcome \<Rightarrow> bool" where
  "is_received (Received e) = True"
| "is_received _ = False"

fun is_hash :: "mmr_message \<Rightarrow> bool" where
  "is_hash (HashMessage h) = True"
| "is_hash SealEpochMessage = False"

text \<open>What the digestor offers for one handled event.\<close>

fun messages_of :: "(bytes \<Rightarrow> bytes) \<Rightarrow> event \<Rightarrow> mmr_message list" where
  "messages_of sha (DataEvent x) = [HashMessage (sha x)]"
| "messages_of sha (HeartbeatEvent t) = (if t mod 10 = 0 then [SealEpochMessage] else [])"
| "messages_of sha ShutdownEvent = []"

lemma digest_event_eq:
  "digest_event sha d e =
     (d\<lparr>metrics := (metrics d)\<lparr>processed := processed (metrics d) + (if is_data e then 1 else 0)\<rparr>,
        running := running d \<and> e \<noteq> ShutdownEvent\<rparr>,
      if hash_tx d then messages_of sha e else [])"
  by (cases e) (auto simp: digest_event_def)

lemma round_effect:
  assumes "digestor_round sha (supp, d) n out = (fl, (supp', d'), ms)"
  shows "supp' = hysteresis supp n"
    and "suppressions (metrics d') = suppressions (metrics d) + (if \<not> supp \<and> supp' then 1 else 0)"
    and "processed (metrics d') = processed (metrics d) + (if (\<exists>e. out = Received e \<and> is_data e) \<and> \<not> supp' then 1 else 0)"
    and "dropped (metrics d') = dropped (metrics d) + (if is_received out \<and> supp' then 1 else 0)"
    and "hash_tx d' = hash_tx d"
    and "ms = (case out of Received e \<Rightarrow> if supp' \<or> \<not> hash_tx d then [] else messages_of sha e | _ \<Rightarrow> [])"
    and "running d' \<longleftrightarrow> running d \<and> (out = Received ShutdownEvent \<longrightarrow> supp')"
    and "fl = (if out = RecvDisconnected then Break else Continue)"
  using assms by (auto simp: digestor_round_def Let_def digest_event_eq split: recv_outcome.splits if_splits)

lemma running_same: "running d \<Longrightarrow> d\<lparr>running := True\<rparr> = d"
  by (cases d) simp

text \<open>A run whose flag stays set does one round after the other.\<close>

lemma run_Cons:
  "running d \<Longrightarrow> \<not> stop_request i \<Longrightarrow> digestor_round sha (supp, d) (backlog i) (outcome i) = (Continue, s, ms) \<Longrightarrow>
     digestor_run sha (supp, d) (i # ins) = (fst (digestor_run sha s ins), ms @ snd (digestor_run sha s ins))"
  by (simp add: split_beta running_same)

section \<open>Accounting\<close>

definition pressure_rounds :: "round_input list \<Rightarrow> nat" where
  "pressure_rounds ins = length (filter (\<lambda>i. 819 \<le> backlog i) ins)"

definition relief_rounds :: "round_input list \<Rightarrow> nat" where
  "relief_rounds ins = length (filter (\<lambda>i. backlog i < 204) ins)"

definition received_count :: "round_input list \<Rightarrow> nat" where
  "received_count ins = length (filter (\<lambda>i. is_received (outcome i)) ins)"

text \<open>What one stretch of rounds does to the counters; it composes.\<close>

definition accounted ::
  "bool \<times> digestor \<Rightarrow> bool \<times> digestor \<Rightarrow> mmr_message list \<Rightarrow> nat \<Rightarrow> nat \<Rightarrow> nat \<Rightarrow> bool" where
  "accounted s s' ms rec relief pressure \<longleftrightarrow>
     (let m = metrics (snd s); m' = metrics (snd s') in
      hash_tx (snd s') = hash_tx (snd s) \<and>
      processed m' + dropped m' \<le> processed m + dropped m + rec \<and> dropped m \<le> dropped m' \<and>
      (if hash_tx (snd s) then processed m' = processed m + length (filter is_hash ms)
       else ms = [] \<and> processed m \<le> processed m') \<and>
      suppressions m' + (if fst s then 1 else 0) \<le> suppressions m + (if fst s' then 1 else 0) + relief \<and>
      suppressions m' \<le> suppressions m + pressure)"

lemma accounted_refl: "accounted s s [] 0 0 0"
  by (simp add: accounted_def Let_def)

lemma accounted_trans:
  "accounted s s' ms a b c \<Longrightarrow> accounted s' s'' ms' a' b' c' \<Longrightarrow> accounted s s'' (ms @ ms') (a + a') (b + b') (c + c')"
  by (auto simp: accounted_def Let_def split: if_splits)

lemma accounted_mono:
  "accounted s s' ms a b c \<Longrightarrow> a \<le> a' \<Longrightarrow> b \<le> b' \<Longrightarrow> c \<le> c' \<Longrightarrow> accounted s s' ms a' b' c'"
  by (auto simp: accounted_def Let_def split: if_splits)

lemma messages_of_hash: "length (filter is_hash (messages_of sha e)) = (if is_data e then 1 else 0)"
  by (cases e) auto

lemma round_accounted:
  assumes "digestor_round sha (supp, d) n out = (fl, s', ms)"
  shows "accounted (supp, d) s' ms (if is_received out then 1 else 0) (if n < 204 then 1 else 0) (if 819 \<le> n then 1 else 0)"
proof -
  obtain supp' d' where s': "s' = (supp', d')" by (cases s')
  note e = round_effect [OF assms [unfolded s']]
  have h: "supp' = (if supp then \<not> n < 204 else 819 \<le> n)" using e(1) by (cases supp) (auto simp: hysteresis_simps)
  show ?thesis
    using e(2-6) unfolding s' accounted_def Let_def
    by (cases out; cases supp; cases supp') (auto simp: h messages_of_hash split: if_splits)
qed

lemma accounted_running [simp]: "accounted (supp, d\<lparr>running := r\<rparr>) s' ms a b c \<longleftrightarrow> accounted (supp, d) s' ms a b c"
  by (simp add: accounted_def Let_def)

lemma run_accounted:
  "accounted s (fst (digestor_run sha s ins)) (snd (digestor_run sha s ins))
     (received_count ins) (relief_rounds ins) (pressure_rounds ins)"
proof (induction sha s ins rule: digestor_run.induct)
  case (1 sha s)
  then show ?case by (simp add: accounted_refl received_count_def relief_rounds_def pressure_rounds_def)
next
  case (2 sha supp d inp inps)
  define d1 where "d1 = d\<lparr>running := running d \<and> \<not> stop_request inp\<rparr>"
  obtain fl s' ms where r: "digestor_round sha (supp, d1) (backlog inp) (outcome inp) = (fl, s', ms)"
    by (metis prod_cases3)
  have c: "received_count (inp # inps) = (if is_received (outcome inp) then 1 else 0) + received_count inps"
    "relief_rounds (inp # inps) = (if backlog inp < 204 then 1 else 0) + relief_rounds inps"
    "pressure_rounds (inp # inps) = (if 819 \<le> backlog inp then 1 else 0) + pressure_rounds inps"
    by (simp_all add: received_count_def relief_rounds_def pressure_rounds_def)
  have first: "accounted (supp, d) s' ms (if is_received (outcome inp) then 1 else 0)
      (if backlog inp < 204 then 1 else 0) (if 819 \<le> backlog inp then 1 else 0)"
    using round_accounted [OF r] by (simp add: d1_def)
  show ?case
  proof (cases "running d1")
    case False
    then have "digestor_run sha (supp, d) (inp # inps) = ((supp, d1), [])" by (simp add: d1_def)
    moreover have "accounted (supp, d) (supp, d1) [] 0 0 0" by (simp add: accounted_def d1_def)
    ultimately show ?thesis by (auto intro: accounted_mono)
  next
    case True
    show ?thesis
    proof (cases fl)
      case Break
      then have "digestor_run sha (supp, d) (inp # inps) = (s', ms)"
        using True r by (simp add: d1_def [symmetric] split_beta)
      then show ?thesis using first unfolding c by (auto intro: accounted_mono)
    next
      case Continue
      obtain supp' d' where s': "s' = (supp', d')" by (cases s')
      have "digestor_run sha (supp, d) (inp # inps) =
          (fst (digestor_run sha s' inps), ms @ snd (digestor_run sha s' inps))"
        using True r Continue by (simp add: d1_def [symmetric] split_beta)
      moreover have "accounted s' (fst (digestor_run sha s' inps)) (snd (digestor_run sha s' inps))
          (received_count inps) (relief_rounds inps) (pressure_rounds inps)"
        using 2 [OF d1_def _ _ Continue, of "(s', ms)" s' ms] True r by simp
      ultimately show ?thesis using accounted_trans [OF first] unfolding c by simp
    qed
  qed
qed

section \<open>Calm and pressure\<close>

text \<open>The rounds of a stretch in which no other thread stops the loop and every receive delivers.\<close>

definition delivers :: "round_input list \<Rightarrow> event list \<Rightarrow> (nat \<Rightarrow> bool) \<Rightarrow> bool" where
  "delivers ins es P \<longleftrightarrow>
     map outcome ins = map Received es \<and> (\<forall>i \<in> set ins. \<not> stop_request i \<and> P (backlog i))"

lemma delivers_Cons:
  "delivers (i # ins) es P \<longleftrightarrow>
     (\<exists>e es'. es = e # es' \<and> outcome i = Received e \<and> \<not> stop_request i \<and> P (backlog i) \<and> delivers ins es' P)"
  by (cases es) (auto simp: delivers_def)

lemma calm_run:
  assumes "running d" "hash_tx d" "ShutdownEvent \<notin> set es" "delivers ins es (\<lambda>n. n < 819)"
  shows "\<exists>d'. digestor_run sha (False, d) ins = ((False, d'), concat (map (messages_of sha) es)) \<and>
    running d' \<and> hash_tx d' \<and> processed (metrics d') = processed (metrics d) + length (filter is_data es) \<and>
    dropped (metrics d') = dropped (metrics d) \<and> suppressions (metrics d') = suppressions (metrics d)"
  using assms
proof (induction ins arbitrary: d es)
  case Nil
  then show ?case by (simp add: delivers_def)
next
  case (Cons i ins)
  obtain e es' where e: "es = e # es'" "outcome i = Received e" "\<not> stop_request i" "backlog i < 819"
    "delivers ins es' (\<lambda>n. n < 819)"
    using Cons.prems(4) unfolding delivers_Cons by blast
  obtain fl supp' d1 ms where r: "digestor_round sha (False, d) (backlog i) (outcome i) = (fl, (supp', d1), ms)"
    by (metis prod_cases3 prod.collapse)
  note f = round_effect [OF r]
  have c: "fl = Continue" "\<not> supp'" using f(1,8) e by (simp_all add: hysteresis_simps)
  have d1: "running d1" "hash_tx d1" using f(5,7) c Cons.prems e by auto
  obtain d' where d': "digestor_run sha (False, d1) ins = ((False, d'), concat (map (messages_of sha) es'))"
    "running d'" "hash_tx d'" "processed (metrics d') = processed (metrics d1) + length (filter is_data es')"
    "dropped (metrics d') = dropped (metrics d1)" "suppressions (metrics d') = suppressions (metrics d1)"
    using Cons.IH [OF d1 _ e(5)] Cons.prems(3) e(1) by auto
  have "digestor_run sha (False, d) (i # ins) = ((False, d'), ms @ concat (map (messages_of sha) es'))"
    using run_Cons [OF Cons.prems(1) e(3), of sha False "(supp', d1)" ms ins] r c d'(1) by simp
  then show ?case using f c d' e Cons.prems by auto
qed

lemma pressure_run:
  assumes "running d" "delivers ins es (\<lambda>n. 204 \<le> n)"
  shows "\<exists>d'. digestor_run sha (True, d) ins = ((True, d'), []) \<and> running d' \<and>
    processed (metrics d') = processed (metrics d) \<and> dropped (metrics d') = dropped (metrics d) + length es \<and>
    suppressions (metrics d') = suppressions (metrics d)"
  using assms
proof (induction ins arbitrary: d es)
  case Nil
  then show ?case by (simp add: delivers_def)
next
  case (Cons i ins)
  obtain e es' where e: "es = e # es'" "outcome i = Received e" "\<not> stop_request i" "204 \<le> backlog i"
    "delivers ins es' (\<lambda>n. 204 \<le> n)"
    using Cons.prems(2) unfolding delivers_Cons by blast
  obtain fl supp' d1 ms where r: "digestor_round sha (True, d) (backlog i) (outcome i) = (fl, (supp', d1), ms)"
    by (metis prod_cases3 prod.collapse)
  note f = round_effect [OF r]
  have c: "fl = Continue" "supp'" using f(1,8) e by (simp_all add: hysteresis_simps)
  have d1: "running d1" using f(7) c Cons.prems by auto
  obtain d' where d': "digestor_run sha (True, d1) ins = ((True, d'), [])" "running d'"
    "processed (metrics d') = processed (metrics d1)" "dropped (metrics d') = dropped (metrics d1) + length es'"
    "suppressions (metrics d') = suppressions (metrics d1)"
    using Cons.IH [OF d1 e(5)] by auto
  have "digestor_run sha (True, d) (i # ins) = ((True, d'), [])"
    using run_Cons [OF Cons.prems(1) e(3), of sha True "(supp', d1)" ms ins] r c d'(1) f(6) e by simp
  then show ?case using f c d' e by auto
qed

section \<open>The heart's beats\<close>

lemma heart_run_eq:
  "heart_run n t = (map (\<lambda>i. HeartbeatEvent (t + word_of_nat i)) [0..<n], t + word_of_nat n)"
proof (induction n arbitrary: t)
  case (Suc n)
  have "[0..<Suc n] = 0 # map Suc [0..<n]" by (simp add: map_Suc_upt upt_conv_Cons del: upt_Suc)
  then show ?case by (simp add: Suc comp_def ac_simps del: upt_Suc)
qed simp

lemma tick_mod_10:
  assumes "i < 2 ^ 64" shows "(word_of_nat i :: u64) mod 10 = 0 \<longleftrightarrow> i mod 10 = 0"
proof -
  have "unat (word_of_nat i :: u64) = i" using assms by (simp add: unat_of_nat)
  then have "unat ((word_of_nat i :: u64) mod 10) = i mod 10" by (simp add: unat_mod_distrib)
  then show ?thesis by (metis unat_eq_zero)
qed

lemma multiples_of_10: "length (filter (\<lambda>i. i mod 10 = 0) [0..<n]) = (n + 9) div 10"
proof (induction n)
  case (Suc n)
  have "(n + 10) mod 10 = n mod 10" by simp
  then have "(Suc n + 9) div 10 = (n + 9) div 10 + (if n mod 10 = 0 then 1 else 0)"
    using div_Suc [of "n + 9" 10] by simp
  then show ?case using Suc by simp
qed simp

lemma beat_messages:
  "list_all (\<lambda>i. i < 2 ^ 64) ks \<Longrightarrow>
     concat (map (messages_of sha) (map (\<lambda>i. HeartbeatEvent (word_of_nat i)) ks)) =
       replicate (length (filter (\<lambda>i. i mod 10 = 0) ks)) SealEpochMessage"
  by (induction ks) (auto simp: tick_mod_10 simp del: map_map)

section \<open>Properties\<close>

text \<open>
  C10: for any backlog readings, receive outcomes and stop requests: an event is processed or dropped
  at most once per receive; with a hash channel exactly one hash is offered per processed
  event; and the digestor enters suppression at most once per round with a backlog of 819 or more
  and at most once more than there are rounds with a backlog below 204 (no flapping).
\<close>

theorem bio_accounting:
  assumes "digestor_run sha (False, digestor_new r\<lparr>hash_tx := True\<rparr>) ins = ((supp', d'), ms)"
  shows "processed (metrics d') + dropped (metrics d') \<le> received_count ins \<and>
     processed (metrics d') = length (filter is_hash ms) \<and>
     suppressions (metrics d') \<le> pressure_rounds ins \<and>
     suppressions (metrics d') \<le> 1 + relief_rounds ins"
  using run_accounted [of "(False, digestor_new r\<lparr>hash_tx := True\<rparr>)" sha ins] assms
  by (auto simp: accounted_def Let_def digestor_new_def metrics_new_def split: if_splits)

theorem bio_accounting_witness:
  "suppressions (metrics (snd (fst (digestor_run (\<lambda>x. x) (False, digestor_new True\<lparr>hash_tx := True\<rparr>)
     [\<lparr>stop_request = False, backlog = 5, outcome = Received (DataEvent [1])\<rparr>])))) = 0"
proof -
  obtain supp' d' ms where r: "digestor_run (\<lambda>x. x) (False, digestor_new True\<lparr>hash_tx := True\<rparr>)
      [\<lparr>stop_request = False, backlog = 5, outcome = Received (DataEvent [1])\<rparr>] = ((supp', d'), ms)"
    by (metis prod.collapse)
  show ?thesis using bio_accounting [OF r] r by (simp add: pressure_rounds_def)
qed

text \<open>
  While the backlog stays below 819 and no shutdown arrives, nothing is lost: the digestor offers
  the hash of every data event and a seal for every heartbeat whose tick is a multiple of ten, in
  order, counts exactly the data events, and keeps running.
\<close>

theorem bio_calm_handles_everything:
  assumes "running d" and "hash_tx d" and "ShutdownEvent \<notin> set es" and "delivers ins es (\<lambda>n. n < 819)"
  shows "\<exists>d'. digestor_run sha (False, d) ins = ((False, d'), concat (map (messages_of sha) es)) \<and> running d' \<and>
     processed (metrics d') = processed (metrics d) + length (filter is_data es) \<and>
     dropped (metrics d') = dropped (metrics d)"
  using calm_run [OF assms, of sha] by blast

theorem bio_calm_handles_everything_witness:
  "\<exists>d'. digestor_run (\<lambda>x. x) (False, set_hash_channel (digestor_new True))
     [\<lparr>stop_request = False, backlog = 5, outcome = Received (DataEvent [1])\<rparr>,
      \<lparr>stop_request = False, backlog = 4, outcome = Received (HeartbeatEvent 20)\<rparr>] =
     ((False, d'), [HashMessage [1], SealEpochMessage])"
  using bio_calm_handles_everything [of "set_hash_channel (digestor_new True)" "[DataEvent [1], HeartbeatEvent 20]"
      "[\<lparr>stop_request = False, backlog = 5, outcome = Received (DataEvent [1])\<rparr>,
        \<lparr>stop_request = False, backlog = 4, outcome = Received (HeartbeatEvent 20)\<rparr>]" "\<lambda>x. x"]
  by (auto simp: set_hash_channel_def digestor_new_def delivers_def)

text \<open>
  From a round with a backlog of 819 or more, as long as the backlog does not fall below 204, every
  event received is dropped, the shutdown event too: the loop goes on and nothing is offered.
\<close>

theorem bio_suppression_drops_shutdown:
  assumes "running d" and "\<not> stop_request i" and "outcome i = Received e" and "819 \<le> backlog i"
    and "delivers ins es (\<lambda>n. 204 \<le> n)" and "ShutdownEvent \<in> set es"
  shows "\<exists>d'. digestor_run sha (False, d) (i # ins) = ((True, d'), []) \<and> running d' \<and>
     dropped (metrics d') = dropped (metrics d) + 1 + length es \<and>
     suppressions (metrics d') = suppressions (metrics d) + 1"
proof -
  obtain fl supp' d1 ms where r: "digestor_round sha (False, d) (backlog i) (outcome i) = (fl, (supp', d1), ms)"
    by (metis prod_cases3 prod.collapse)
  note f = round_effect [OF r]
  have c: "fl = Continue" "supp'" using f(1,8) assms by (simp_all add: hysteresis_simps)
  have d1: "running d1" using f(7) c assms by auto
  obtain d' where d': "digestor_run sha (True, d1) ins = ((True, d'), [])" "running d'"
    "dropped (metrics d') = dropped (metrics d1) + length es" "suppressions (metrics d') = suppressions (metrics d1)"
    using pressure_run [OF d1 assms(5)] by blast
  have "digestor_run sha (False, d) (i # ins) = ((True, d'), [])"
    using run_Cons [OF assms(1,2), of sha False "(supp', d1)" ms ins] r c d'(1) f(6) assms by simp
  then show ?thesis using f c d' assms by auto
qed

theorem bio_suppression_drops_shutdown_witness:
  "\<exists>d'. digestor_run (\<lambda>x. x) (False, digestor_new True)
     [\<lparr>stop_request = False, backlog = 900, outcome = Received (DataEvent [1])\<rparr>,
      \<lparr>stop_request = False, backlog = 300, outcome = Received ShutdownEvent\<rparr>] = ((True, d'), []) \<and> running d'"
  using bio_suppression_drops_shutdown [of "digestor_new True"
      "\<lparr>stop_request = False, backlog = 900, outcome = Received (DataEvent [1])\<rparr>" "DataEvent [1]"
      "[\<lparr>stop_request = False, backlog = 300, outcome = Received ShutdownEvent\<rparr>]" "[ShutdownEvent]" "\<lambda>x. x"]
  by (auto simp: digestor_new_def delivers_def)

text \<open>
  When the beats of the heart reach a calm digestor, \<open>n\<close> beats from tick 0 offer
  \<open>(n + 9) div 10\<close> epoch seals, so 100 per second at one beat per millisecond; the heart's ticks
  count up by one and wrap at the width of \<^verbatim>\<open>u64\<close>.
\<close>

theorem bio_hundred_seals_per_second:
  assumes "running d" and "hash_tx d" and "delivers ins (fst (heart_run n 0)) (\<lambda>b. b < 819)" and "n \<le> 2 ^ 64"
  shows "snd (digestor_run sha (False, d) ins) = replicate ((n + 9) div 10) SealEpochMessage \<and>
     snd (heart_run n t) = t + word_of_nat n"
proof -
  have no: "ShutdownEvent \<notin> set (fst (heart_run n 0))" by (auto simp: heart_run_eq)
  have "list_all (\<lambda>i. i < 2 ^ 64) [0..<n]" using assms(4) by (auto simp: list_all_iff)
  then have "concat (map (messages_of sha) (fst (heart_run n 0))) = replicate ((n + 9) div 10) SealEpochMessage"
    using beat_messages [of "[0..<n]" sha] by (simp add: heart_run_eq multiples_of_10 del: map_map)
  then show ?thesis using calm_run [OF assms(1,2) no assms(3), of sha] by (auto simp: heart_run_eq)
qed

theorem bio_hundred_seals_per_second_witness:
  "snd (digestor_run (\<lambda>x. x) (False, set_hash_channel (digestor_new True))
     (map (\<lambda>e. \<lparr>stop_request = False, backlog = 1, outcome = Received e\<rparr>) (fst (heart_run 1000 0)))) =
   replicate 100 SealEpochMessage"
  using bio_hundred_seals_per_second [of "set_hash_channel (digestor_new True)"
      "map (\<lambda>e. \<lparr>stop_request = False, backlog = 1, outcome = Received e\<rparr>) (fst (heart_run 1000 0))" 1000
      "\<lambda>x. x"]
  by (simp add: set_hash_channel_def digestor_new_def delivers_def comp_def)

end
