(* ===== verification/Senses.thy ===== *)
theory Senses
  imports Bio_Loop
begin

text \<open>
  The UDP ingestion of \<^verbatim>\<open>nexoia-core/supervisor/src/senses.rs\<close>: packet validation, the sharded
  fixed-window rate limiter and the listener loop. The socket and the clock are inputs of a round;
  an \<^verbatim>\<open>Instant\<close> is a number of nanoseconds.
\<close>

unbundle bit_operations_syntax

section \<open>Packets\<close>

abbreviation MAX_UDP_PAYLOAD :: nat where "MAX_UDP_PAYLOAD \<equiv> 1200"
abbreviation PROTO_HEADER_SIZE :: nat where "PROTO_HEADER_SIZE \<equiv> 4"
abbreviation RATE_LIMIT_PER_SEC :: nat where "RATE_LIMIT_PER_SEC \<equiv> 1000"
abbreviation RATE_LIMITER_SHARDS :: nat where "RATE_LIMITER_SHARDS \<equiv> 64"
abbreviation SECOND :: nat where "SECOND \<equiv> 1000000000"

datatype validation = ValidPacket bytes | InvalidPacket string

definition validate_packet :: "bytes \<Rightarrow> validation" where
  "validate_packet buf =
     (if length buf < PROTO_HEADER_SIZE then InvalidPacket ''packet too small''
      else if buf ! 0 \<noteq> 0x01 then InvalidPacket ''unsupported protocol version''
      else
        let data = drop PROTO_HEADER_SIZE buf in
        if 63 < length data then InvalidPacket ''payload exceeds 63 bytes''
        else ValidPacket (put_at 0 data (zeros 63)))"

section \<open>The rate limiter\<close>

record rate_shard =
  shard_count :: nat
  window_start :: nat

type_synonym rate_limiter = "rate_shard list"

definition rate_limiter_new :: "nat \<Rightarrow> rate_limiter" where
  "rate_limiter_new now = replicate RATE_LIMITER_SHARDS \<lparr>shard_count = 0, window_start = now\<rparr>"

definition shard_allow :: "rate_shard \<Rightarrow> nat \<Rightarrow> bool \<times> rate_shard" where
  "shard_allow s now =
     (if 1 \<le> (now - window_start s) div SECOND then (True, \<lparr>shard_count = 1, window_start = now\<rparr>)
      else if shard_count s < RATE_LIMIT_PER_SEC then (True, s\<lparr>shard_count := shard_count s + 1\<rparr>)
      else (False, s))"

definition allow :: "rate_limiter \<Rightarrow> nat \<Rightarrow> nat \<Rightarrow> bool \<times> rate_limiter" where
  "allow rl idx now = (let (ok, s) = shard_allow (rl ! idx) now in (ok, rl[idx := s]))"

datatype ip_addr = V4 "byte list" | V6 "byte list"

text \<open>\<^verbatim>\<open>ip_hash % 64\<close> for the four or sixteen octets of an address.\<close>

fun shard_idx :: "ip_addr \<Rightarrow> nat" where
  "shard_idx (V4 oct) = nat_of_le ([oct ! 0, oct ! 1, oct ! 2, oct ! 3] @ zeros 4) mod RATE_LIMITER_SHARDS"
| "shard_idx (V6 oct) =
     nat_of_le (map (\<lambda>i. (oct ! i) XOR (oct ! (i + 8))) [0..<8]) mod RATE_LIMITER_SHARDS"

section \<open>The listener\<close>

datatype socket_outcome = Datagram bytes ip_addr | WouldBlock | SocketError

text \<open>
  One round: the outcome of \<^verbatim>\<open>recv_from\<close> (a longer datagram is cut at the buffer) and the time the
  limiter reads. The result is the limiter and the events offered to the membrane.
\<close>

definition listener_round :: "rate_limiter \<Rightarrow> socket_outcome \<times> nat \<Rightarrow> rate_limiter \<times> event list" where
  "listener_round rl i =
     (case fst i of
        Datagram d src \<Rightarrow>
          (case validate_packet (take MAX_UDP_PAYLOAD d) of
             ValidPacket data \<Rightarrow>
               let (ok, rl') = allow rl (shard_idx src) (snd i)
               in (rl', if ok then [DataEvent data] else [])
           | InvalidPacket r \<Rightarrow> (rl, []))
      | WouldBlock \<Rightarrow> (rl, [])
      | SocketError \<Rightarrow> (rl, []))"

fun listener_run :: "rate_limiter \<Rightarrow> (socket_outcome \<times> nat) list \<Rightarrow> rate_limiter \<times> event list" where
  "listener_run rl [] = (rl, [])"
| "listener_run rl (i # ins) =
     (let (rl, es) = listener_round rl i; (rl, es') = listener_run rl ins in (rl, es @ es'))"

section \<open>One shard over time\<close>

text \<open>The packets of one shard, by arrival time: how many pass.\<close>

fun passed :: "rate_shard \<Rightarrow> nat list \<Rightarrow> nat" where
  "passed s [] = 0"
| "passed s (t # ts) = (let (ok, s') = shard_allow s t in (if ok then 1 else 0) + passed s' ts)"

lemma div_add_second:
  fixes u w t :: nat assumes "w + 1000000000 \<le> u" "u \<le> t"
  shows "1 + (t - u) div 1000000000 \<le> (t - w) div 1000000000"
proof -
  have "1 + (t - u) div 1000000000 = (t - u + 1000000000) div 1000000000" by simp
  also have "\<dots> \<le> (t - w) div 1000000000" using assms by (intro div_le_mono) linarith
  finally show ?thesis .
qed

lemma window_step:
  fixes c n p x y :: nat
  assumes "1 + p \<le> 1000 * (1 + x)" "1 + x \<le> y" "c \<le> 1000" "n = 1 + p"
  shows "c + n \<le> 1000 * (1 + y)"
proof -
  have "1000 * (1 + x) \<le> 1000 * y" using assms(2) by (rule mult_le_mono2)
  then have "c + (1 + p) \<le> 1000 + 1000 * y" using assms(1,3) by (intro add_mono) auto
  then show ?thesis by (simp add: assms(4))
qed

lemma passed_bound:
  "sorted (window_start s # ts) \<Longrightarrow> shard_count s \<le> 1000 \<Longrightarrow>
     shard_count s + passed s ts \<le> 1000 * (1 + (last (window_start s # ts) - window_start s) div 1000000000)"
proof (induction ts arbitrary: s)
  case (Cons t ts)
  define l where "l = last (t # ts)"
  have l: "t \<le> l" using Cons.prems(1) by (cases "ts = []") (simp_all add: l_def)
  show ?case
  proof (cases "1 \<le> (t - window_start s) div 1000000000")
    case True
    then have w: "window_start s + 1000000000 \<le> t" by (simp add: div_greater_zero_iff)
    define s' where "s' = \<lparr>shard_count = 1, window_start = t\<rparr>"
    have p: "passed s (t # ts) = 1 + passed s' ts" using True by (simp add: shard_allow_def s'_def)
    have "shard_count s' + passed s' ts \<le> 1000 * (1 + (l - t) div 1000000000)"
      using Cons.IH [of s'] Cons.prems by (simp add: s'_def l_def)
    then have "1 + passed s' ts \<le> 1000 * (1 + (l - t) div 1000000000)" by (simp add: s'_def)
    moreover have "1 + (l - t) div 1000000000 \<le> (l - window_start s) div 1000000000"
      using div_add_second [OF w l] .
    ultimately have "shard_count s + passed s (t # ts) \<le> 1000 * (1 + (l - window_start s) div 1000000000)"
      by (rule window_step [OF _ _ Cons.prems(2) p])
    moreover have "last (window_start s # t # ts) = l" by (simp add: l_def)
    ultimately show ?thesis by (simp only:)
  next
    case False
    define s' where "s' = snd (shard_allow s t)"
    have s': "window_start s' = window_start s" "shard_count s' \<le> 1000"
      "shard_count s' + passed s' ts = shard_count s + passed s (t # ts)"
      using False Cons.prems(2) by (auto simp: s'_def shard_allow_def)
    have le: "last (window_start s # ts) \<le> l" using Cons.prems(1) by (cases "ts = []") (auto simp: l_def)
    have "shard_count s + passed s (t # ts) \<le> 1000 * (1 + (last (window_start s # ts) - window_start s) div 1000000000)"
      using Cons.IH [of s'] Cons.prems(1) s' by auto
    also have "\<dots> \<le> 1000 * (1 + (l - window_start s) div 1000000000)"
      using le by (intro mult_le_mono2 add_le_mono order_refl div_le_mono diff_le_mono)
    also have "l = last (window_start s # t # ts)" by (simp add: l_def)
    finally show ?thesis .
  qed
qed simp

lemma shard_v4: "shard_idx (V4 oct) = unat (oct ! 0) mod 64"
proof -
  have "(unat (oct ! 0) + 256 * n) mod 64 = unat (oct ! 0) mod 64" for n
    using mod_mult_self2 [of "unat (oct ! 0)" 64 "4 * n"] by simp
  then show ?thesis by (simp only: shard_idx.simps append_Cons nat_of_le.simps)
qed

lemma shard_idx_less: "shard_idx src < 64"
  by (cases src) simp_all

section \<open>The limiter splits by shard\<close>

text \<open>The arrival times of the valid packets of one shard.\<close>

fun shard_times :: "nat \<Rightarrow> (socket_outcome \<times> nat) list \<Rightarrow> nat list" where
  "shard_times k [] = []"
| "shard_times k ((Datagram d src, t) # ins) =
     (case validate_packet (take 1200 d) of
        ValidPacket data \<Rightarrow> if shard_idx src = k then t # shard_times k ins else shard_times k ins
      | InvalidPacket r \<Rightarrow> shard_times k ins)"
| "shard_times k ((WouldBlock, t) # ins) = shard_times k ins"
| "shard_times k ((SocketError, t) # ins) = shard_times k ins"

text \<open>The events injected for the addresses of one shard.\<close>

definition from_shard :: "nat \<Rightarrow> socket_outcome \<Rightarrow> bool" where
  "from_shard k out \<longleftrightarrow> (case out of Datagram d src \<Rightarrow> shard_idx src = k | _ \<Rightarrow> False)"

fun injected_for :: "nat \<Rightarrow> rate_limiter \<Rightarrow> (socket_outcome \<times> nat) list \<Rightarrow> event list" where
  "injected_for k rl [] = []"
| "injected_for k rl (i # ins) =
     (let (rl', es) = listener_round rl i in (if from_shard k (fst i) then es else []) @ injected_for k rl' ins)"

text \<open>A round without a valid datagram, and one with.\<close>

lemma round_cases:
  assumes "length rl = 64"
  obtains "listener_round rl i = (rl, [])" "\<And>k ins. shard_times k (i # ins) = shard_times k ins"
  | d src data ok s' where "fst i = Datagram d src" "shard_allow (rl ! shard_idx src) (snd i) = (ok, s')"
      "listener_round rl i = (rl[shard_idx src := s'], if ok then [DataEvent data] else [])"
      "\<And>k ins. shard_times k (i # ins) = (if k = shard_idx src then snd i # shard_times k ins else shard_times k ins)"
proof -
  obtain out t where i: "i = (out, t)" by (cases i)
  show thesis
  proof (cases "\<exists>d src data. out = Datagram d src \<and> validate_packet (take 1200 d) = ValidPacket data")
    case False
    then have "listener_round rl i = (rl, [])" "\<And>k ins. shard_times k (i # ins) = shard_times k ins"
      by (cases out; auto simp: i listener_round_def split: validation.splits)+
    then show thesis by (rule that(1))
  next
    case True
    then obtain d src data where v: "out = Datagram d src" "validate_packet (take 1200 d) = ValidPacket data"
      by blast
    obtain ok s' where sa: "shard_allow (rl ! shard_idx src) t = (ok, s')" by fastforce
    show thesis
      by (rule that(2) [of d src ok s' data]) (use v sa in \<open>auto simp: i listener_round_def allow_def Let_def\<close>)
  qed
qed

lemma injected_passed:
  "length rl = 64 \<Longrightarrow> length (injected_for k rl ins) = passed (rl ! k) (shard_times k ins)"
proof (induction ins arbitrary: rl)
  case (Cons i ins)
  show ?case
  proof (rule round_cases [OF Cons.prems, of i])
    assume "listener_round rl i = (rl, [])" "\<And>k ins. shard_times k (i # ins) = shard_times k ins"
    then show ?thesis using Cons by simp
  next
    fix d src data ok s'
    assume r: "fst i = Datagram d src" "shard_allow (rl ! shard_idx src) (snd i) = (ok, s')"
      "listener_round rl i = (rl[shard_idx src := s'], if ok then [DataEvent data] else [])"
      "\<And>k ins. shard_times k (i # ins) = (if k = shard_idx src then snd i # shard_times k ins else shard_times k ins)"
    show ?thesis
      using Cons.IH [of "rl[shard_idx src := s']"] Cons.prems r shard_idx_less [of src]
      by (auto simp: from_shard_def nth_list_update)
  qed
qed simp

text \<open>Every injected event is one of a shard.\<close>

lemma listener_splits:
  "length rl = 64 \<Longrightarrow> length (snd (listener_run rl ins)) = (\<Sum>k<64. length (injected_for k rl ins))"
proof (induction ins arbitrary: rl)
  case (Cons i ins)
  define rl' where "rl' = fst (listener_round rl i)"
  have len: "length rl' = 64"
    by (rule round_cases [OF Cons.prems, of i]) (simp_all add: rl'_def Cons.prems)
  have one: "(\<Sum>k<64. length (if from_shard k (fst i) then snd (listener_round rl i) else [])) = length (snd (listener_round rl i))"
  proof (rule round_cases [OF Cons.prems, of i])
    fix d src data ok s'
    assume r: "fst i = Datagram d src"
    have "(\<Sum>k<64. length (if from_shard k (fst i) then snd (listener_round rl i) else [])) =
        (\<Sum>k<64. if k = shard_idx src then length (snd (listener_round rl i)) else 0)"
      by (intro sum.cong) (simp_all add: r from_shard_def)
    also have "\<dots> = length (snd (listener_round rl i))" using shard_idx_less [of src] by simp
    finally show ?thesis .
  qed simp
  show ?case
    using Cons.IH [OF len] one by (simp add: case_prod_beta rl'_def [symmetric] sum.distrib)
qed simp

lemma shard_times_sorted:
  "sorted (t0 # map snd ins) \<Longrightarrow> sorted (t0 # shard_times k ins) \<and> last (t0 # shard_times k ins) \<le> last (t0 # map snd ins)"
proof (induction ins arbitrary: t0)
  case (Cons i ins)
  obtain out t where i: "i = (out, t)" by (cases i)
  have a: "sorted (t # shard_times k ins)" "last (t # shard_times k ins) \<le> last (t # map snd ins)"
    using Cons.IH [of t] Cons.prems by (auto simp: i)
  have b: "sorted (t0 # shard_times k ins)" "last (t0 # shard_times k ins) \<le> last (t0 # map snd ins)"
    using Cons.IH [of t0] Cons.prems by (auto simp: i)
  have "shard_times k (i # ins) = t # shard_times k ins \<or> shard_times k (i # ins) = shard_times k ins"
    by (cases out) (auto simp: i split: validation.splits)
  moreover have "last (t0 # map snd ins) \<le> last (t # map snd ins)" using Cons.prems by (auto simp: i)
  ultimately show ?case using a b Cons.prems by (auto simp: i)
qed simp

section \<open>Properties\<close>

text \<open>
  A packet is valid exactly when it has a header of four bytes with version 1 and at most 63
  bytes of data; the event carries those bytes, padded with zeros to 63.
\<close>

theorem packet_valid_iff:
  "validate_packet buf = ValidPacket p \<longleftrightarrow>
     4 \<le> length buf \<and> length buf \<le> 67 \<and> buf ! 0 = 1 \<and> p = drop 4 buf @ zeros (67 - length buf)"
  by (auto simp: validate_packet_def Let_def put_at_def zeros_def)

text \<open>
  C11: whatever arrives, from a fresh limiter and at times that do not fall, the listener injects for the addresses of any
  one shard at most 1000 events per started second, whatever arrives for the other shards, and so at most 64 times
  that in all; the shard of an IPv4 address is its first octet modulo 64, so all addresses that share
  that octet share one limit.
\<close>

theorem senses_rate_bound:
  assumes "sorted (t0 # map snd ins)"
  shows "(\<forall>k < 64. length (injected_for k (rate_limiter_new t0) ins) \<le> 1000 * (1 + (last (t0 # map snd ins) - t0) div 1000000000)) \<and>
     length (snd (listener_run (rate_limiter_new t0) ins)) = (\<Sum>k<64. length (injected_for k (rate_limiter_new t0) ins)) \<and>
     length (snd (listener_run (rate_limiter_new t0) ins)) \<le>
       64 * (1000 * (1 + (last (t0 # map snd ins) - t0) div 1000000000)) \<and>
     shard_idx (V4 oct) = unat (oct ! 0) mod 64"
proof -
  define B where "B = 1000 * (1 + (last (t0 # map snd ins) - t0) div 1000000000)"
  let ?rl = "rate_limiter_new t0"
  have len: "length ?rl = 64" by (simp add: rate_limiter_new_def)
  have le: "length (injected_for j ?rl ins) \<le> B" if "j < 64" for j
  proof -
    note st = shard_times_sorted [OF assms, of j]
    have "?rl ! j = \<lparr>shard_count = 0, window_start = t0\<rparr>" using that by (simp add: rate_limiter_new_def)
    then have "passed (?rl ! j) (shard_times j ins) \<le> 1000 * (1 + (last (t0 # shard_times j ins) - t0) div 1000000000)"
      using passed_bound [of "?rl ! j" "shard_times j ins"] st by simp
    moreover have "(last (t0 # shard_times j ins) - t0) div 1000000000 \<le> (last (t0 # map snd ins) - t0) div 1000000000"
      using st by (intro div_le_mono diff_le_mono) blast
    then have "1000 * (1 + (last (t0 # shard_times j ins) - t0) div 1000000000) \<le> B"
      unfolding B_def by (intro mult_le_mono add_le_mono order_refl)
    ultimately show ?thesis unfolding injected_passed [OF len] by (rule order_trans)
  qed
  moreover have "(\<Sum>j<64. length (injected_for j ?rl ins)) \<le> 64 * B"
    using sum_bounded_above [of "{..<64::nat}" "\<lambda>j. length (injected_for j ?rl ins)" B] le by simp
  ultimately show ?thesis using shard_v4 listener_splits [OF len] by (simp add: B_def)
qed

theorem senses_rate_bound_witness:
  "length (injected_for 10 (rate_limiter_new 0)
     [(Datagram [1, 0, 0, 0, 7] (V4 [10, 0, 0, 1]), 5), (WouldBlock, 5), (Datagram [1, 0, 0, 0, 8] (V4 [11, 9, 9, 9]), 6)]) \<le> 1000"
proof -
  have "(6::nat) div 1000000000 = 0" by (rule div_less) simp
  then show ?thesis
    using senses_rate_bound [of 0 "[(Datagram [1, 0, 0, 0, 7] (V4 [10, 0, 0, 1]), 5), (WouldBlock, 5),
      (Datagram [1, 0, 0, 0, 8] (V4 [11, 9, 9, 9]), 6)]" "[10, 0, 0, 1]"]
    by (simp del: injected_for.simps listener_run.simps shard_idx.simps)
qed

end
