(* ===== verification/F64.thy ===== *)
theory F64
  imports Complex_Main "HOL-Library.Log_Nat" Nexo_Prelude
begin

text \<open>
  The \<^verbatim>\<open>f64\<close> arithmetic the sources use: finite values as rational numbers, every operation
  rounded to the nearest number with 53 significant bits, ties to even. Overflow to infinity and
  subnormal numbers are not represented there: the values most sources compute stay far inside the range. The last part
  has the whole range, for the sources that read numbers from outside.
\<close>

section \<open>Rounding\<close>

text \<open>Powers of two with an integer exponent.\<close>

definition pow2 :: "int \<Rightarrow> rat" where
  "pow2 k = (if 0 \<le> k then 2 ^ nat k else 1 / 2 ^ nat (- k))"

definition round_even :: "rat \<Rightarrow> int" where
  "round_even q =
     (let f = \<lfloor>q\<rfloor>; d = q - of_int f in
      if d < 1 / 2 then f else if 1 / 2 < d then f + 1 else if even f then f else f + 1)"

text \<open>The binary exponent of a positive number: \<open>pow2 e \<le> x < pow2 (e + 1)\<close>.\<close>

definition exponent :: "rat \<Rightarrow> int" where
  "exponent x =
     (let (p, q) = quotient_of x; k = bitlen p - bitlen q in if pow2 k \<le> x then k else k - 1)"

text \<open>Rounding to \<open>p + 1\<close> significant bits.\<close>

definition round_pos :: "nat \<Rightarrow> rat \<Rightarrow> rat" where
  "round_pos p x = (let u = pow2 (exponent x - int p) in of_int (round_even (x / u)) * u)"

definition fp_round :: "nat \<Rightarrow> rat \<Rightarrow> rat" where
  "fp_round p x = (if x = 0 then 0 else if 0 < x then round_pos p x else - round_pos p (- x))"

definition f64_round :: "rat \<Rightarrow> rat" where
  "f64_round x = fp_round 52 x"

definition f64_add :: "rat \<Rightarrow> rat \<Rightarrow> rat" where
  "f64_add x y = f64_round (x + y)"

definition f64_sub :: "rat \<Rightarrow> rat \<Rightarrow> rat" where
  "f64_sub x y = f64_round (x - y)"

definition f64_mul :: "rat \<Rightarrow> rat \<Rightarrow> rat" where
  "f64_mul x y = f64_round (x * y)"

definition f64_div :: "rat \<Rightarrow> rat \<Rightarrow> rat" where
  "f64_div x y = f64_round (x / y)"

definition f64_of_int :: "int \<Rightarrow> rat" where
  "f64_of_int i = f64_round (of_int i)"

text \<open>An \<^verbatim>\<open>f32\<close> has 24 significant bits.\<close>

definition f32_round :: "rat \<Rightarrow> rat" where
  "f32_round x = fp_round 23 x"

definition f32_add :: "rat \<Rightarrow> rat \<Rightarrow> rat" where
  "f32_add x y = f32_round (x + y)"

text \<open>\<^verbatim>\<open>n as f64\<close> and \<^verbatim>\<open>x as u64\<close> for a finite non-negative \<open>x\<close> below the maximum of \<^verbatim>\<open>u64\<close>.\<close>

definition f64_of_nat :: "nat \<Rightarrow> rat" where
  "f64_of_nat n = f64_round (of_nat n)"

definition f64_to_nat :: "rat \<Rightarrow> nat" where
  "f64_to_nat x = nat \<lfloor>x\<rfloor>"

definition f64_clamp :: "rat \<Rightarrow> rat \<Rightarrow> rat \<Rightarrow> rat" where
  "f64_clamp lo hi x = (if x < lo then lo else if hi < x then hi else x)"

section \<open>Facts\<close>

lemma pow2_pos: "0 < pow2 k"
  by (simp add: pow2_def)

lemma pow2_nat: "0 \<le> k \<Longrightarrow> pow2 k = of_int (2 ^ nat k)"
  by (simp add: pow2_def)

lemma pow2_add: "pow2 (j + k) = pow2 j * pow2 k"
proof -
  have powi: "pow2 k = 2 powi k" for k by (simp add: pow2_def power_int_def inverse_eq_divide power_divide)
  show ?thesis by (simp add: powi power_int_add)
qed

lemma pow2_mono: "j \<le> k \<Longrightarrow> pow2 j \<le> pow2 k"
proof -
  assume "j \<le> k"
  then have "pow2 k = pow2 j * pow2 (k - j)" "1 \<le> pow2 (k - j)"
    by (simp_all flip: pow2_add) (simp add: pow2_def)
  then show ?thesis using pow2_pos [of j] by (simp add: mult_le_cancel_left1)
qed

lemma pow2_less_cancel: "pow2 j < pow2 k \<Longrightarrow> j < k"
  using pow2_mono [of k j] by (meson leD le_less_linear)

lemma round_even_int [simp]: "round_even (of_int n) = n"
  by (simp add: round_even_def)

lemma round_even_mono: "a \<le> b \<Longrightarrow> round_even a \<le> round_even b"
proof -
  assume ab: "a \<le> b"
  then have f: "\<lfloor>a\<rfloor> \<le> \<lfloor>b\<rfloor>" by (rule floor_mono)
  have hi: "round_even a \<le> \<lfloor>a\<rfloor> + 1" and lo: "\<lfloor>b\<rfloor> \<le> round_even b"
    by (simp_all add: round_even_def Let_def)
  show ?thesis
  proof (cases "\<lfloor>a\<rfloor> = \<lfloor>b\<rfloor>")
    case True
    then show ?thesis using ab by (auto simp: round_even_def Let_def)
  next
    case False
    then show ?thesis using f hi lo by linarith
  qed
qed

lemma bitlen_bounds_rat:
  assumes "0 < p" shows "pow2 (bitlen p - 1) \<le> of_int p" "of_int p < pow2 (bitlen p)"
proof -
  have b: "2 ^ nat (bitlen p - 1) \<le> p \<and> p < 2 ^ nat (bitlen p)" using bitlen_bounds [OF assms] .
  have p: "0 < bitlen p" using assms bitlen_nonneg [of "p div 2"] by (subst compute_bitlen) simp
  show "pow2 (bitlen p - 1) \<le> of_int p" "of_int p < pow2 (bitlen p)"
    using b p pow2_nat [of "bitlen p - 1"] pow2_nat [of "bitlen p"]
    by (auto simp only: of_int_le_iff of_int_less_iff less_imp_le)
qed

lemma exponent_bounds:
  assumes "0 < x" shows "pow2 (exponent x) \<le> x" "x < pow2 (exponent x + 1)"
proof -
  obtain p q where pq: "quotient_of x = (p, q)" by fastforce
  then have x: "x = of_int p / of_int q" and q: "0 < q" using quotient_of_div quotient_of_denom_pos by blast+
  then have p: "0 < p" using assms by (simp add: zero_less_divide_iff)
  define k where "k = bitlen p - bitlen q"
  have lo: "pow2 (k - 1) \<le> x"
  proof -
    have "pow2 (k - 1) * pow2 (bitlen q) = pow2 (bitlen p - 1)" by (simp add: k_def flip: pow2_add)
    then have "pow2 (k - 1) * of_int q \<le> of_int p"
      using bitlen_bounds_rat [OF p] bitlen_bounds_rat [OF q] pow2_pos [of "k - 1"]
      by (metis less_imp_le mult_left_mono order_trans)
    then show ?thesis using q by (simp add: x pos_le_divide_eq)
  qed
  have hi: "x < pow2 (k + 1)"
  proof -
    have "pow2 (k + 1) * pow2 (bitlen q - 1) = pow2 (bitlen p)" by (simp add: k_def flip: pow2_add)
    then have "of_int p < pow2 (k + 1) * of_int q"
      using bitlen_bounds_rat [OF p] bitlen_bounds_rat [OF q] pow2_pos [of "k + 1"]
      by (metis less_imp_le mult_left_mono order_less_le_trans)
    then show ?thesis using q by (simp add: x pos_divide_less_eq)
  qed
  show "pow2 (exponent x) \<le> x" "x < pow2 (exponent x + 1)"
    using lo hi by (auto simp: exponent_def pq k_def [symmetric])
qed

lemma exponent_unique: "pow2 e \<le> x \<Longrightarrow> x < pow2 (e + 1) \<Longrightarrow> 0 < x \<Longrightarrow> exponent x = e"
  using exponent_bounds [of x] pow2_less_cancel [of e "exponent x + 1"] pow2_less_cancel [of "exponent x" "e + 1"]
  by force

lemma round_pos_bounds:
  assumes "0 < x"
  shows "pow2 (exponent x) \<le> round_pos p x" "round_pos p x \<le> pow2 (exponent x + 1)"
proof -
  define e where "e = exponent x"
  define u where "u = pow2 (e - int p)"
  have u: "0 < u" "pow2 e = of_int (2 ^ p) * u" "pow2 (e + 1) = of_int (2 ^ (p + 1)) * u"
    using pow2_pos [of "e - int p"] pow2_add [of "int p" "e - int p"] pow2_add [of "int (p + 1)" "e - int p"]
      pow2_nat [of "int p"] pow2_nat [of "int (p + 1)"]
    by (simp_all add: u_def add.commute nat_add_distrib)
  have "of_int (2 ^ p) \<le> x / u" "x / u \<le> of_int (2 ^ (p + 1))"
    using exponent_bounds [OF assms] u
    by (simp_all add: e_def [symmetric] pos_le_divide_eq pos_divide_le_eq less_imp_le del: of_int_power power_Suc)
  then have "2 ^ p \<le> round_even (x / u)" "round_even (x / u) \<le> 2 ^ (p + 1)"
    by (metis round_even_int round_even_mono)+
  then have "of_int (2 ^ p) \<le> (of_int (round_even (x / u)) :: rat)"
    "(of_int (round_even (x / u)) :: rat) \<le> of_int (2 ^ (p + 1))"
    by (simp_all only: of_int_le_iff)
  moreover have "round_pos p x = of_int (round_even (x / u)) * u"
    by (simp add: round_pos_def Let_def u_def e_def)
  ultimately show "pow2 (exponent x) \<le> round_pos p x" "round_pos p x \<le> pow2 (exponent x + 1)"
    unfolding e_def [symmetric] u(2,3) using u(1) by (simp_all only: mult_le_cancel_right_pos)
qed

lemma round_pos_mono:
  assumes "0 < x" "x \<le> y" shows "round_pos p x \<le> round_pos p y"
proof (cases "exponent x = exponent y")
  case True
  define u where "u = pow2 (exponent y - int p)"
  have u: "0 < u" by (simp add: u_def pow2_pos)
  then have "round_even (x / u) \<le> round_even (y / u)"
    using assms(2) by (intro round_even_mono divide_right_mono) auto
  then show ?thesis using True u by (simp add: round_pos_def Let_def u_def [symmetric])
next
  case False
  have y: "0 < y" using assms by simp
  have "pow2 (exponent x) < pow2 (exponent y + 1)"
    using exponent_bounds [OF assms(1)] exponent_bounds [OF y] assms(2) by linarith
  then have "exponent x + 1 \<le> exponent y" using pow2_less_cancel False by fastforce
  then show ?thesis
    using round_pos_bounds(2) [OF assms(1)] round_pos_bounds(1) [OF y] pow2_mono by (meson order_trans)
qed

lemma round_pos_nonneg: "0 < x \<Longrightarrow> 0 < round_pos p x"
  using round_pos_bounds(1) pow2_pos order_less_le_trans by blast

lemma fp_round_mono: "x \<le> y \<Longrightarrow> fp_round p x \<le> fp_round p y"
  using round_pos_mono [of x y p] round_pos_mono [of "- y" "- x" p] round_pos_nonneg [of y p] round_pos_nonneg [of "- x" p]
  by (auto simp: fp_round_def less_imp_le)

lemma f64_round_mono: "x \<le> y \<Longrightarrow> f64_round x \<le> f64_round y"
  by (simp add: f64_round_def fp_round_mono)

lemma f32_round_mono: "x \<le> y \<Longrightarrow> f32_round x \<le> f32_round y"
  by (simp add: f32_round_def fp_round_mono)

lemma f64_round_0 [simp]: "f64_round 0 = 0"
  by (simp add: f64_round_def fp_round_def)

text \<open>A number with at most 53 significant bits is exact.\<close>

lemma f64_round_exact:
  assumes "\<bar>m\<bar> < 2 ^ 53" shows "f64_round (of_int m * pow2 k) = of_int m * pow2 k"
proof -
  have pos: "round_pos 52 (of_int n * pow2 k) = of_int n * pow2 k" if n: "0 < n" "n < 2 ^ 53" for n
  proof -
    define x :: rat where "x = of_int n * pow2 k"
    define e where "e = exponent x"
    have x: "0 < x" using n by (simp add: x_def pow2_pos)
    have "of_int n < (of_int (2 ^ 53) :: rat)" using n(2) by (simp only: of_int_less_iff)
    then have "x < pow2 53 * pow2 k" using pow2_pos [of k] by (simp add: x_def pow2_def)
    then have "pow2 e < pow2 (53 + k)" using exponent_bounds(1) [OF x] by (simp add: e_def pow2_add)
    then have "e - 52 \<le> k" using pow2_less_cancel by fastforce
    then have k: "pow2 k = of_int (2 ^ nat (k - (e - 52))) * pow2 (e - 52)"
      using pow2_add [of "k - (e - 52)" "e - 52"] by (simp add: pow2_def)
    then have "x / pow2 (e - 52) = of_int (n * 2 ^ nat (k - (e - 52)))"
      using pow2_pos [of "e - 52"] by (simp add: x_def)
    then have "round_pos 52 x = of_int (n * 2 ^ nat (k - (e - 52))) * pow2 (e - 52)"
      by (simp only: round_pos_def Let_def e_def [symmetric] round_even_int of_nat_numeral)
    then show ?thesis using k by (simp add: x_def)
  qed
  consider "m = 0" | "0 < m" | "m < 0" by linarith
  then show ?thesis
  proof cases
    case 2
    then show ?thesis using pos [of m] assms pow2_pos [of k] by (simp add: f64_round_def fp_round_def)
  next
    case 3
    then have "f64_round (of_int m * pow2 k) = - round_pos 52 (of_int (- m) * pow2 k)"
      using pow2_pos [of k] mult_neg_pos [of "of_int m" "pow2 k"] by (simp add: f64_round_def fp_round_def)
    also have "\<dots> = of_int m * pow2 k" using pos [of "- m"] 3 assms by simp
    finally show ?thesis .
  qed simp
qed

lemma f64_round_quarters: "\<bar>m\<bar> < 2 ^ 53 \<Longrightarrow> f64_round (of_int m / 4) = of_int m / 4"
  using f64_round_exact [of m "- 2"] by (simp add: pow2_def)

lemma f64_of_nat_small: "n < 2 ^ 53 \<Longrightarrow> f64_of_nat n = of_nat n"
  using f64_round_exact [of "int n" 0] by (simp add: f64_of_nat_def pow2_def)

lemma f64_of_nat_mono: "m \<le> n \<Longrightarrow> f64_of_nat m \<le> f64_of_nat n"
  by (simp add: f64_of_nat_def f64_round_mono)

lemma f64_of_nat_nonneg: "0 \<le> f64_of_nat n"
  using f64_of_nat_mono [of 0 n] by (simp add: f64_of_nat_def)

lemma f64_clamp_mono: "x \<le> y \<Longrightarrow> f64_clamp lo hi x \<le> f64_clamp lo hi y \<or> hi < lo"
  by (auto simp: f64_clamp_def)

lemma f64_of_int_small: "\<bar>i\<bar> < 2 ^ 53 \<Longrightarrow> f64_of_int i = of_int i"
  using f64_round_exact [of i 0] by (simp add: f64_of_int_def pow2_def)

lemma f64_round_of_int: "\<bar>i\<bar> < 2 ^ 53 \<Longrightarrow> f64_round (of_int i) = of_int i"
  using f64_of_int_small by (simp add: f64_of_int_def)

lemma f64_of_int_mono: "i \<le> j \<Longrightarrow> f64_of_int i \<le> f64_of_int j"
  by (simp add: f64_of_int_def f64_round_mono)

lemma f64_round_neg: "f64_round (- x) = - f64_round x"
  by (auto simp: f64_round_def fp_round_def)

lemma f64_round_nonneg: "0 \<le> x \<Longrightarrow> 0 \<le> f64_round x"
  using f64_round_mono [of 0 x] by simp

lemma f64_round_nonpos: "x \<le> 0 \<Longrightarrow> f64_round x \<le> 0"
  using f64_round_mono [of x 0] by simp

lemma f64_mul_mono: "x \<le> y \<Longrightarrow> 0 \<le> c \<Longrightarrow> f64_mul x c \<le> f64_mul y c"
  unfolding f64_mul_def by (intro f64_round_mono mult_right_mono)

lemma f64_add_mono: "x \<le> y \<Longrightarrow> u \<le> v \<Longrightarrow> f64_add x u \<le> f64_add y v"
  unfolding f64_add_def by (intro f64_round_mono add_mono)

lemma f64_sub_mono: "x \<le> y \<Longrightarrow> v \<le> u \<Longrightarrow> f64_sub x u \<le> f64_sub y v"
  unfolding f64_sub_def by (intro f64_round_mono diff_mono)

section \<open>The whole range\<close>

text \<open>
  The \<^verbatim>\<open>f32\<close> and \<^verbatim>\<open>f64\<close> of the standard library over their whole range: numbers, infinities and NaN, with rounding
  to the nearest (ties to even), subnormal numbers and overflow. The two zeros are one value: they differ only as divisors,
  and the sources that use these operations divide by no negative zero.
\<close>

section \<open>Values and operations\<close>

datatype fpval = NaN | Inf bool | Fin rat

text \<open>
  A number \<open>x\<close> is a multiple of the unit of its binade, or of the smallest subnormal: \<open>p + 1\<close> significant bits, the least
  binary exponent \<open>lo\<close>, and infinity from \<open>2 ^ hi\<close> on.
\<close>

definition fp_to :: "nat \<Rightarrow> int \<Rightarrow> int \<Rightarrow> rat \<Rightarrow> fpval" where
  "fp_to p lo hi x =
     (if x = 0 then Fin 0
      else let u = pow2 (max (exponent \<bar>x\<bar>) lo - int p);
               m = of_int (round_even (\<bar>x\<bar> / u)) * u
           in if pow2 hi \<le> m then Inf (x < 0) else Fin (if x < 0 then - m else m))"

definition fround :: "rat \<Rightarrow> fpval" where
  "fround = fp_to 23 (- 126) 128"

definition dround :: "rat \<Rightarrow> fpval" where
  "dround = fp_to 52 (- 1022) 1024"

definition f32_from_le :: "bytes \<Rightarrow> fpval" where
  "f32_from_le bs =
     (let w = nat_of_le bs; neg = 2 ^ 31 \<le> w; e = w div 2 ^ 23 mod 256; m = w mod 2 ^ 23;
          x = (if e = 0 then of_nat m * pow2 (- 149) else of_nat (2 ^ 23 + m) * pow2 (int e - 150))
      in if e = 255 then (if m = 0 then Inf neg else NaN) else Fin (if neg then - x else x))"

fun add_by :: "(rat \<Rightarrow> fpval) \<Rightarrow> fpval \<Rightarrow> fpval \<Rightarrow> fpval" where
  "add_by r (Fin x) (Fin y) = r (x + y)"
| "add_by r (Inf a) (Inf b) = (if a = b then Inf a else NaN)"
| "add_by r (Inf a) (Fin _) = Inf a"
| "add_by r (Fin _) (Inf b) = Inf b"
| "add_by r NaN _ = NaN"
| "add_by r _ NaN = NaN"

fun fneg :: "fpval \<Rightarrow> fpval" where
  "fneg NaN = NaN"
| "fneg (Inf a) = Inf (\<not> a)"
| "fneg (Fin x) = Fin (- x)"

definition sub_by :: "(rat \<Rightarrow> fpval) \<Rightarrow> fpval \<Rightarrow> fpval \<Rightarrow> fpval" where
  "sub_by r x y = add_by r x (fneg y)"

fun fabs :: "fpval \<Rightarrow> fpval" where
  "fabs NaN = NaN"
| "fabs (Inf a) = Inf False"
| "fabs (Fin x) = Fin \<bar>x\<bar>"

fun mul_by :: "(rat \<Rightarrow> fpval) \<Rightarrow> fpval \<Rightarrow> fpval \<Rightarrow> fpval" where
  "mul_by r (Fin x) (Fin y) = r (x * y)"
| "mul_by r (Inf a) (Inf b) = Inf (a \<noteq> b)"
| "mul_by r (Inf a) (Fin y) = (if y = 0 then NaN else Inf (a \<noteq> (y < 0)))"
| "mul_by r (Fin x) (Inf b) = (if x = 0 then NaN else Inf (b \<noteq> (x < 0)))"
| "mul_by r NaN _ = NaN"
| "mul_by r _ NaN = NaN"

text \<open>Division by a zero takes it as the positive one.\<close>

fun div_by :: "(rat \<Rightarrow> fpval) \<Rightarrow> fpval \<Rightarrow> fpval \<Rightarrow> fpval" where
  "div_by r (Fin x) (Fin y) = (if y = 0 then (if x = 0 then NaN else Inf (x < 0)) else r (x / y))"
| "div_by r (Inf a) (Inf b) = NaN"
| "div_by r (Inf a) (Fin y) = Inf (a \<noteq> (y < 0))"
| "div_by r (Fin x) (Inf b) = Fin 0"
| "div_by r NaN _ = NaN"
| "div_by r _ NaN = NaN"

text \<open>The operations of both types.\<close>

abbreviation fadd :: "fpval \<Rightarrow> fpval \<Rightarrow> fpval" where "fadd \<equiv> add_by fround"
abbreviation fsub :: "fpval \<Rightarrow> fpval \<Rightarrow> fpval" where "fsub \<equiv> sub_by fround"
abbreviation fmul :: "fpval \<Rightarrow> fpval \<Rightarrow> fpval" where "fmul \<equiv> mul_by fround"
abbreviation fdiv :: "fpval \<Rightarrow> fpval \<Rightarrow> fpval" where "fdiv \<equiv> div_by fround"

abbreviation dadd :: "fpval \<Rightarrow> fpval \<Rightarrow> fpval" where "dadd \<equiv> add_by dround"
abbreviation dsub :: "fpval \<Rightarrow> fpval \<Rightarrow> fpval" where "dsub \<equiv> sub_by dround"
abbreviation dmul :: "fpval \<Rightarrow> fpval \<Rightarrow> fpval" where "dmul \<equiv> mul_by dround"
abbreviation ddiv :: "fpval \<Rightarrow> fpval \<Rightarrow> fpval" where "ddiv \<equiv> div_by dround"

text \<open>The order; every comparison with a NaN is false.\<close>

fun fless :: "fpval \<Rightarrow> fpval \<Rightarrow> bool" where
  "fless (Fin x) (Fin y) = (x < y)"
| "fless (Inf a) (Inf b) = (a \<and> \<not> b)"
| "fless (Inf a) (Fin y) = a"
| "fless (Fin x) (Inf b) = (\<not> b)"
| "fless NaN _ = False"
| "fless _ NaN = False"

text \<open>\<^verbatim>\<open>f32::max\<close> and \<^verbatim>\<open>f32::min\<close> return the other operand for a NaN.\<close>

definition fmax :: "fpval \<Rightarrow> fpval \<Rightarrow> fpval" where
  "fmax x y = (if x = NaN then y else if y = NaN then x else if fless x y then y else x)"

definition fmin :: "fpval \<Rightarrow> fpval \<Rightarrow> fpval" where
  "fmin x y = (if x = NaN then y else if y = NaN then x else if fless y x then y else x)"

section \<open>NaN and the unit interval\<close>

lemma add_NaN [simp]: "add_by r x NaN = NaN" by (cases x) simp_all
lemma sub_NaN [simp]: "sub_by r x NaN = NaN" "sub_by r NaN x = NaN" by (simp_all add: sub_by_def)
lemma mul_NaN [simp]: "mul_by r x NaN = NaN" by (cases x) simp_all
lemma div_NaN [simp]: "div_by r x NaN = NaN" by (cases x) simp_all
lemma fless_NaN [simp]: "\<not> fless x NaN" by (cases x) simp_all

text \<open>The values that are neither NaN nor negative.\<close>

fun nonneg :: "fpval \<Rightarrow> bool" where
  "nonneg NaN = False"
| "nonneg (Inf a) = (\<not> a)"
| "nonneg (Fin x) = (0 \<le> x)"

definition unit_range :: "fpval \<Rightarrow> bool" where
  "unit_range x \<longleftrightarrow> (\<exists>q. x = Fin q \<and> 0 \<le> q \<and> q \<le> 1)"

lemma fround_nonneg: "0 \<le> x \<Longrightarrow> nonneg (fround x)"
proof -
  assume x: "0 \<le> x"
  define u where "u = pow2 (max (exponent \<bar>x\<bar>) (- 126) - 23)"
  have u: "0 < u" unfolding u_def by (rule pow2_pos)
  then have "round_even (of_int 0) \<le> round_even (\<bar>x\<bar> / u)" by (intro round_even_mono) simp
  then have "0 \<le> round_even (\<bar>x\<bar> / u)" unfolding round_even_int .
  then have "0 \<le> (of_int (round_even (\<bar>x\<bar> / u)) :: rat) * u" using u by simp
  moreover have "fround x = (if x = 0 then Fin 0 else if pow2 128 \<le> of_int (round_even (\<bar>x\<bar> / u)) * u then Inf False
      else Fin (of_int (round_even (\<bar>x\<bar> / u)) * u))"
    using x by (simp add: fround_def fp_to_def Let_def u_def)
  ultimately show ?thesis by simp
qed

lemma fadd_nonneg: "nonneg x \<Longrightarrow> nonneg y \<Longrightarrow> nonneg (fadd x y)"
  by (cases x; cases y) (auto intro: fround_nonneg)

lemma fmul_unit_nonneg: "unit_range x \<Longrightarrow> unit_range y \<Longrightarrow> nonneg (fmul x y)"
  by (auto simp: unit_range_def intro!: fround_nonneg)

lemma unit_nonneg: "unit_range x \<Longrightarrow> nonneg x"
  by (auto simp: unit_range_def)

text \<open>A minimum with one of anything that is not a negative number lies in the unit interval.\<close>

lemma fmin_unit: "nonneg x \<or> x = NaN \<Longrightarrow> unit_range (fmin x (Fin 1))"
  by (cases x) (auto simp: fmin_def unit_range_def)

text \<open>A quotient of an absolute value by a value of at least one is not a negative number.\<close>

lemma fabs_nonneg: "nonneg (fabs x) \<or> x = NaN"
  by (cases x) auto

lemma fmax_one: "nonneg (fmax x (Fin 1)) \<and> fmax x (Fin 1) \<noteq> Fin 0"
  by (cases x) (auto simp: fmax_def)

lemma fdiv_nonneg: "nonneg x \<Longrightarrow> nonneg y \<Longrightarrow> y \<noteq> Fin 0 \<Longrightarrow> nonneg (fdiv x y) \<or> fdiv x y = NaN"
  by (cases x; cases y) (auto intro: fround_nonneg)

lemma fp_to_dyadic:
  assumes "\<bar>m\<bar> < 2 ^ Suc p" "lo - int p \<le> k" "k + int p + 1 \<le> hi"
  shows "fp_to p lo hi (of_int m * pow2 k) = Fin (of_int m * pow2 k)"
proof (cases "m = 0")
  case False
  define a where "a = \<bar>m\<bar>"
  have a: "0 < a" "a < 2 ^ Suc p" using assms False by (simp_all add: a_def)
  define x where "x = of_int a * pow2 k"
  have x: "0 < x" using a by (simp add: x_def pow2_pos)
  have abs: "\<bar>of_int m * pow2 k\<bar> = x" using pow2_pos [of k] by (simp add: x_def a_def abs_mult)
  have "(of_int a :: rat) < of_int (2 ^ Suc p)" using a(2) by (simp only: of_int_less_iff)
  moreover have "pow2 (int (Suc p)) = of_int (2 ^ Suc p)" by (simp only: pow2_nat of_nat_0_le_iff nat_int)
  ultimately have "of_int a < pow2 (int (Suc p))" by presburger
  then have lt: "x < pow2 (int (Suc p) + k)" unfolding x_def pow2_add using pow2_pos by simp
  have ex: "exponent x < int (Suc p) + k" using exponent_bounds(1) [OF x] lt by (meson order_le_less_trans pow2_less_cancel)
  define e where "e = max (exponent x) lo - int p"
  have e: "e \<le> k" using ex assms by (simp add: e_def)
  have "pow2 k = pow2 (k - e) * pow2 e" by (simp flip: pow2_add)
  then have "x = of_int (a * 2 ^ nat (k - e)) * pow2 e" using e by (simp add: x_def pow2_nat)
  then have "x / pow2 e = of_int (a * 2 ^ nat (k - e))" using pow2_pos [of e] by simp
  then have "of_int (round_even (x / pow2 e)) * pow2 e = x"
    using \<open>x = of_int (a * 2 ^ nat (k - e)) * pow2 e\<close> by (simp only: round_even_int)
  moreover have "x < pow2 hi" using lt pow2_mono [of "int (Suc p) + k" hi] assms by simp
  ultimately have "fp_to p lo hi (of_int m * pow2 k) = Fin (if of_int m * pow2 k < 0 then - x else x)"
    using False pow2_pos [of k] by (auto simp: fp_to_def Let_def abs e_def)
  then show ?thesis using abs by auto
qed (simp add: fp_to_def)

lemma fround_dyadic:
  "\<bar>m\<bar> < 2 ^ 24 \<Longrightarrow> - 149 \<le> k \<Longrightarrow> k \<le> 104 \<Longrightarrow> fround (of_int m * pow2 k) = Fin (of_int m * pow2 k)"
  unfolding fround_def by (rule fp_to_dyadic) simp_all

lemma dround_dyadic:
  "\<bar>m\<bar> < 2 ^ 53 \<Longrightarrow> - 1074 \<le> k \<Longrightarrow> k \<le> 971 \<Longrightarrow> dround (of_int m * pow2 k) = Fin (of_int m * pow2 k)"
  unfolding dround_def by (rule fp_to_dyadic) simp_all

lemma dround_nat: "n < 2 ^ 53 \<Longrightarrow> dround (of_nat n) = Fin (of_nat n)"
  using dround_dyadic [of "int n" 0] by (simp add: pow2_def)

lemma fround_nat: "n < 2 ^ 24 \<Longrightarrow> fround (of_nat n) = Fin (of_nat n)"
  using fround_dyadic [of "int n" 0] by (simp add: pow2_def)

text \<open>Rounding when the binade is known.\<close>

lemma fround_eval:
  assumes "pow2 e \<le> x" "x < pow2 (e + 1)" "- 126 \<le> e" "e < 127"
  shows "fround x = Fin (of_int (round_even (x / pow2 (e - 23))) * pow2 (e - 23))"
proof -
  have x: "0 < x" using assms(1) pow2_pos [of e] by linarith
  then have e: "exponent x = e" using exponent_unique assms by blast
  have "x / pow2 (e - 23) \<le> of_int (2 ^ 24)"
  proof -
    have "pow2 (e + 1) = pow2 24 * pow2 (e - 23)" by (simp flip: pow2_add add: add.commute)
    then have "x \<le> pow2 24 * pow2 (e - 23)" using assms(2) by simp
    then have "x / pow2 (e - 23) \<le> pow2 24" using pow2_pos [of "e - 23"] by (simp add: divide_le_eq)
    then show ?thesis by (simp add: pow2_def)
  qed
  then have "round_even (x / pow2 (e - 23)) \<le> 2 ^ 24" using round_even_mono [of _ "of_int (2 ^ 24)"] unfolding round_even_int by blast
  then have "of_int (round_even (x / pow2 (e - 23))) \<le> (of_int (2 ^ 24) :: rat)" by (simp only: of_int_le_iff)
  then have "of_int (round_even (x / pow2 (e - 23))) * pow2 (e - 23) \<le> of_int (2 ^ 24) * pow2 (e - 23)"
    using pow2_pos [of "e - 23"] by (intro mult_right_mono) simp_all
  also have "\<dots> = pow2 (e + 1)" using pow2_add [of 24 "e - 23"] pow2_nat [of 24] by (simp add: add.commute)
  also have "\<dots> < pow2 128"
    using assms(4) pow2_mono [of "e + 1" 127] by (simp add: pow2_nat order_le_less_trans)
  finally show ?thesis using x assms(3) by (simp add: fround_def fp_to_def Let_def e)
qed


lemma fp_to_pos:
  assumes "0 < x" "pow2 (lo - int p) \<le> x" shows "fless (Fin 0) (fp_to p lo hi x)"
proof -
  define u where "u = pow2 (max (exponent x) lo - int p)"
  have "pow2 (exponent x - int p) \<le> pow2 (exponent x)" by (rule pow2_mono) simp
  then have "u \<le> x" using exponent_bounds(1) [OF assms(1)] assms(2) by (auto simp: u_def max_def)
  moreover have u: "0 < u" unfolding u_def by (rule pow2_pos)
  ultimately have "of_int 1 \<le> x / u" by simp
  then have "round_even (of_int 1) \<le> round_even (x / u)" by (rule round_even_mono)
  then have "1 \<le> round_even (x / u)" unfolding round_even_int .
  then have "0 < of_int (round_even (x / u)) * u" using u by simp
  then show ?thesis using assms(1) by (simp add: fp_to_def Let_def u_def)
qed

end
