(* ===== verification/Supervisor.thy ===== *)
theory Supervisor
  imports Wal_Props Bio_Loop Zk_Prover F64
begin

text \<open>
  The supervisor of \<^verbatim>\<open>nexoia-core/supervisor/src/supervisor.rs\<close>: the state its threads share (the
  range, the log, the counters, the running flag) and one step per atomic section of a thread or
  of a public call. The consumer of hashes locks the range and the log one after the other, so its
  handling of a hash is two steps with a pending leaf in between, and other steps may come in
  between. Printing, sleeping and thread creation are left out; a write fault of the operating
  system is an argument, as in \<open>Wal\<close>.
\<close>

section \<open>The constitution\<close>

definition WAL_INVIOLABILITY :: string where
  "WAL_INVIOLABILITY = ''WAL records are append-only. No code path may truncate, delete, or '' @
     ''mutate a record after its first fsync. Violation invalidates all MMR '' @
     ''roots retroactively since epoch 0.''"

definition BOOTSTRAP_DETERMINISM :: string where
  "BOOTSTRAP_DETERMINISM = ''Given the same WAL, replay() must produce identical MMR state on any '' @
     ''platform, architecture, or compiler version. This prohibits unsafe on '' @
     ''the replay path, floats in MMR computation, and any dependency with '' @ ''undefined behavior.''"

definition SOVEREIGN_TRANSACTION_FORMAT :: string where
  "SOVEREIGN_TRANSACTION_FORMAT = ''Every self-mutation must use a binary transactional format including: '' @
     ''(a) full binary diff, (b) ZK proof that the patch respects Rules 1 '' @
     ''and 2, (c) human-auditable reason code mapped to rationale.''"

definition integrity_hash :: "(bytes \<Rightarrow> bytes) \<Rightarrow> hash32" where
  "integrity_hash sha =
     sha (string_bytes WAL_INVIOLABILITY @ [10] @ string_bytes BOOTSTRAP_DETERMINISM @ [10] @
          string_bytes SOVEREIGN_TRANSACTION_FORMAT)"

record audit_rules =
  wal_inviolability :: string
  bootstrap_determinism :: string
  sovereign_transaction_format :: string

definition constitution :: audit_rules where
  "constitution =
     \<lparr>wal_inviolability = WAL_INVIOLABILITY, bootstrap_determinism = BOOTSTRAP_DETERMINISM,
      sovereign_transaction_format = SOVEREIGN_TRANSACTION_FORMAT\<rparr>"

section \<open>State\<close>

definition CONSOLIDATION_INTERVAL :: nat where
  "CONSOLIDATION_INTERVAL = 1024"

definition SOVEREIGNTY_THRESHOLD :: nat where
  "SOVEREIGNTY_THRESHOLD = 80"

definition VETO_CONTENT_ID :: u64 where
  "VETO_CONTENT_ID = 0xC0DE000000000001"

record supervisor =
  sup_wal :: wal_store
  sup_mmr :: mmr
  data_count :: nat
  epoch_count :: nat
  veto_count :: nat
  heartbeat_count :: nat
  sup_running :: bool
  consumer_pending :: "(nat \<times> hash32) option"
  batch_counter :: nat
  command_alive :: bool
  worker_alive :: bool
  last_watermark :: nat

text \<open>
  \<^verbatim>\<open>spawn\<close>: what is on disk and the faults of opening, creating and reading the log; \<open>None\<close> is the
  panic of \<^verbatim>\<open>expect\<close>. The range is rebuilt by replay; the counters start at zero.
\<close>

definition supervisor_spawn ::
  "(bytes \<Rightarrow> bytes) \<Rightarrow> bytes option \<Rightarrow> bool \<Rightarrow> nat option \<Rightarrow> bool \<Rightarrow> supervisor option" where
  "supervisor_spawn sha disk open_fails fault replay_fails =
     (case wal_open disk open_fails fault of
        Inl e \<Rightarrow> None
      | Inr st \<Rightarrow>
          (case wal_replay sha st mmr_new replay_fails of
             (Inl e, m, st) \<Rightarrow> None
           | (Inr recovered, m, st) \<Rightarrow>
               Some \<lparr>sup_wal = st, sup_mmr = m, data_count = 0, epoch_count = 0, veto_count = 0,
                     heartbeat_count = 0, sup_running = True, consumer_pending = None, batch_counter = 0,
                     command_alive = True, worker_alive = True, last_watermark = 0\<rparr>))"

section \<open>The consumer of hashes\<close>

definition consumer_hash :: "(bytes \<Rightarrow> bytes) \<Rightarrow> supervisor \<Rightarrow> hash32 \<Rightarrow> supervisor" where
  "consumer_hash sha S h =
     (let idx = leaf_count (sup_mmr S)
      in S\<lparr>sup_mmr := snd (mmr_append sha (sup_mmr S) h), consumer_pending := Some (idx, h)\<rparr>)"

text \<open>The flag of the result says whether a consolidation signal is offered.\<close>

definition consumer_log :: "supervisor \<Rightarrow> nat \<Rightarrow> hash32 \<Rightarrow> nat option \<Rightarrow> supervisor \<times> bool" where
  "consumer_log S idx h fault =
     (let b = batch_counter S + 1
      in (S\<lparr>sup_wal := snd (wal_append_leaf (sup_wal S) (word_of_nat idx) h fault),
            data_count := data_count S + 1, batch_counter := b, consumer_pending := None\<rparr>,
          b mod CONSOLIDATION_INTERVAL = 0))"

text \<open>A seal message: the new state and the command offered to the proof worker.\<close>

definition consumer_seal :: "(bytes \<Rightarrow> bytes) \<Rightarrow> supervisor \<Rightarrow> supervisor \<times> prover_command option" where
  "consumer_seal sha S =
     (if 0 < leaf_count (sup_mmr S) then
        case seal_epoch sha (sup_mmr S) of
          (Inr seal, m) \<Rightarrow> (S\<lparr>sup_mmr := m\<rparr>, Some (SealCommand seal))
        | (Inl e, m) \<Rightarrow> (S\<lparr>sup_mmr := m\<rparr>, None)
      else (S, None))"

section \<open>The other threads\<close>

definition command_veto :: "supervisor \<Rightarrow> hash32 \<Rightarrow> nat option \<Rightarrow> supervisor" where
  "command_veto S patch_hash fault =
     S\<lparr>veto_count := veto_count S + 1,
       sup_wal := snd (wal_append (sup_wal S) LeafRecord 0 patch_hash VETO_CONTENT_ID fault)\<rparr>"

definition command_shutdown :: "supervisor \<Rightarrow> supervisor" where
  "command_shutdown S = S\<lparr>sup_running := False, command_alive := False\<rparr>"

definition worker_wake :: "supervisor \<Rightarrow> supervisor" where
  "worker_wake S =
     (let count = wal_record_count (sup_wal S)
      in if last_watermark S < count then S\<lparr>last_watermark := count\<rparr> else S)"

section \<open>Public calls\<close>

definition supervisor_seal_epoch ::
  "(bytes \<Rightarrow> bytes) \<Rightarrow> supervisor \<Rightarrow> nat option \<Rightarrow> nat option \<Rightarrow> bool \<Rightarrow> epoch_seal option \<times> supervisor" where
  "supervisor_seal_epoch sha S append_fault sync_fault sync_fails =
     (if leaf_count (sup_mmr S) = 0 then (None, S)
      else
        case seal_epoch sha (sup_mmr S) of
          (Inl e, m) \<Rightarrow> (None, S\<lparr>sup_mmr := m\<rparr>)
        | (Inr seal, m) \<Rightarrow>
            let w = snd (wal_append_seal (sup_wal S) (word_of_nat (seal_epoch_no seal)) (seal_root seal) append_fault);
                w = snd (wal_sync w sync_fault sync_fails)
            in (Some seal, S\<lparr>sup_mmr := m, sup_wal := w, epoch_count := epoch_count S + 1\<rparr>))"

definition feed_heartbeat :: "supervisor \<Rightarrow> supervisor" where
  "feed_heartbeat S = S\<lparr>heartbeat_count := heartbeat_count S + 1\<rparr>"

definition compute_confidence :: "supervisor \<Rightarrow> nat" where
  "compute_confidence S =
     (let confidence =
            f64_sub
              (f64_add
                (f64_add
                  (f64_add (f64_mul (f64_of_nat (data_count S)) (1 / 2))
                           (f64_mul (f64_of_nat (epoch_count S)) 5))
                  (f64_mul (f64_of_nat (heartbeat_count S)) (f64_round (1 / 10))))
                (f64_mul (f64_of_nat (wal_record_count (sup_wal S))) (1 / 4)))
              (f64_mul (f64_of_nat (veto_count S)) 10)
      in f64_to_nat (f64_clamp 0 100 confidence))"

definition is_sovereign :: "supervisor \<Rightarrow> bool" where
  "is_sovereign S \<longleftrightarrow> SOVEREIGNTY_THRESHOLD \<le> compute_confidence S"

definition supervisor_leaf_count :: "supervisor \<Rightarrow> nat" where
  "supervisor_leaf_count S = leaf_count (sup_mmr S)"

definition supervisor_wal_record_count :: "supervisor \<Rightarrow> nat" where
  "supervisor_wal_record_count S = wal_record_count (sup_wal S)"

section \<open>Steps and runs\<close>

datatype sup_event =
    ConsumerHash hash32
  | ConsumerLog "nat option"
  | ConsumerSeal
  | CommandVeto hash32 "nat option"
  | CommandShutdown
  | CommandCheck
  | WorkerWake
  | WorkerCheck
  | FlagCleared
  | CallSeal "nat option" "nat option" bool
  | CallHeartbeat

text \<open>
  \<open>FlagCleared\<close> is the store to the running flag by the digestor or by dropping the supervisor; the
  two polling threads see it at the head of their loops.
\<close>

inductive sup_step :: "(bytes \<Rightarrow> bytes) \<Rightarrow> supervisor \<Rightarrow> sup_event \<Rightarrow> supervisor \<Rightarrow> bool" for sha where
  consumer_hash: "consumer_pending S = None \<Longrightarrow> sup_step sha S (ConsumerHash h) (consumer_hash sha S h)"
| consumer_log: "consumer_pending S = Some (idx, h) \<Longrightarrow>
    sup_step sha S (ConsumerLog f) (fst (consumer_log S idx h f))"
| consumer_seal: "consumer_pending S = None \<Longrightarrow> sup_step sha S ConsumerSeal (fst (consumer_seal sha S))"
| command_veto: "command_alive S \<Longrightarrow> sup_step sha S (CommandVeto p f) (command_veto S p f)"
| command_shutdown: "command_alive S \<Longrightarrow> sup_step sha S CommandShutdown (command_shutdown S)"
| command_check: "\<not> sup_running S \<Longrightarrow> sup_step sha S CommandCheck (S\<lparr>command_alive := False\<rparr>)"
| worker_wake: "worker_alive S \<Longrightarrow> sup_step sha S WorkerWake (worker_wake S)"
| worker_check: "\<not> sup_running S \<Longrightarrow> sup_step sha S WorkerCheck (S\<lparr>worker_alive := False\<rparr>)"
| flag_cleared: "sup_step sha S FlagCleared (S\<lparr>sup_running := False\<rparr>)"
| call_seal: "sup_step sha S (CallSeal f g sf) (snd (supervisor_seal_epoch sha S f g sf))"
| call_heartbeat: "sup_step sha S CallHeartbeat (feed_heartbeat S)"

inductive_cases sup_step_cases: "sup_step sha S e S'"
inductive_simps sup_step_hash: "sup_step sha S (ConsumerHash h) S'"
inductive_simps sup_step_log: "sup_step sha S (ConsumerLog f) S'"
inductive_simps sup_step_veto: "sup_step sha S (CommandVeto p f) S'"

inductive sup_run :: "(bytes \<Rightarrow> bytes) \<Rightarrow> supervisor \<Rightarrow> sup_event list \<Rightarrow> supervisor \<Rightarrow> bool" for sha where
  run_Nil: "sup_run sha S [] S"
| run_snoc: "sup_run sha S es S' \<Longrightarrow> sup_step sha S' e S'' \<Longrightarrow> sup_run sha S (es @ [e]) S''"

end
