(* ===== verification/Supervisor_Theorems.thy ===== *)
theory Supervisor_Theorems
  imports Supervisor
begin

text \<open>
  The properties of the supervisor: what a restart recovers from the log, the loss of leaves after an
  epoch is sealed, and the confidence score with its behaviour under vetoes and restarts.
\<close>

section \<open>What a run leaves in the range and in the log\<close>

fun live_of :: "sup_event \<Rightarrow> hash32 list" where
  "live_of (ConsumerHash h) = [h]"
| "live_of _ = []"

definition live_leaves :: "sup_event list \<Rightarrow> hash32 list" where
  "live_leaves evs = concat (map live_of evs)"

text \<open>The leaf waiting to be logged, and the leaf hashes in the order they reach the log.\<close>

fun log_step :: "hash32 option \<times> hash32 list \<Rightarrow> sup_event \<Rightarrow> hash32 option \<times> hash32 list" where
  "log_step (p, ls) (ConsumerHash h) = (Some h, ls)"
| "log_step (p, ls) (ConsumerLog f) = (None, case p of None \<Rightarrow> ls | Some h \<Rightarrow> ls @ [h])"
| "log_step (p, ls) (CommandVeto v f) = (p, ls @ [v])"
| "log_step s _ = s"

definition log_view :: "sup_event list \<Rightarrow> hash32 option \<times> hash32 list" where
  "log_view evs = foldl log_step (None, []) evs"

text \<open>No call of \<^verbatim>\<open>seal_epoch\<close>, no write fault, hashes of 32 bytes.\<close>

fun plain :: "sup_event \<Rightarrow> bool" where
  "plain (ConsumerHash h) \<longleftrightarrow> length h = 32"
| "plain (ConsumerLog f) \<longleftrightarrow> f = None"
| "plain (CommandVeto v f) \<longleftrightarrow> f = None \<and> length v = 32"
| "plain (CallSeal f g sf) \<longleftrightarrow> False"
| "plain _ \<longleftrightarrow> True"

definition sup_inv :: "(bytes \<Rightarrow> bytes) \<Rightarrow> sup_event list \<Rightarrow> supervisor \<Rightarrow> bool" where
  "sup_inv sha evs S \<longleftrightarrow>
     (\<exists>qs. wal_view wal_header 1 qs (sup_wal S) \<and> request_leaves qs = snd (log_view evs) \<and>
        list_all (\<lambda>q. fst q = LeafRecord) qs) \<and>
     mmr_repr sha (live_leaves evs) (sup_mmr S) \<and>
     map_option snd (consumer_pending S) = fst (log_view evs) \<and>
     (\<forall>h. fst (log_view evs) = Some h \<longrightarrow> length h = 32) \<and>
     ((\<forall>p f. CommandVeto p f \<notin> set evs) \<longrightarrow>
        snd (log_view evs) @ (case fst (log_view evs) of None \<Rightarrow> [] | Some h \<Rightarrow> [h]) = live_leaves evs)"

lemma live_snoc: "live_leaves (evs @ [e]) = live_leaves evs @ live_of e"
  by (simp add: live_leaves_def)

lemma log_snoc: "log_view (evs @ [e]) = log_step (log_view evs) e"
  by (simp add: log_view_def)

lemma request_leaves_snoc: "request_leaves (qs @ [(LeafRecord, i, h, c)]) = request_leaves qs @ [h]"
  by (simp add: request_leaves_def)

lemma log_append:
  assumes "wal_view wal_header 1 qs w" "length h = 32"
  shows "wal_view wal_header 1 (qs @ [(LeafRecord, i, h, c)]) (snd (wal_append w LeafRecord i h c None))"
  using wal_append_view [OF assms(1), of "(LeafRecord, i, h, c)"] assms(2) by simp

lemma consumer_seal_facts:
  "mmr_repr sha hs (sup_mmr S) \<Longrightarrow> mmr_repr sha hs (sup_mmr (fst (consumer_seal sha S)))"
  "sup_wal (fst (consumer_seal sha S)) = sup_wal S"
  "consumer_pending (fst (consumer_seal sha S)) = consumer_pending S"
  using seal_repr [of sha hs "sup_mmr S"] by (auto simp: consumer_seal_def seal_epoch_def)

lemma sup_step_inv:
  assumes "sup_inv sha evs S" "sup_step sha S e S'" "plain e"
  shows "sup_inv sha (evs @ [e]) S'"
proof -
  obtain p ls where lv: "log_view evs = (p, ls)" by fastforce
  obtain qs where q: "wal_view wal_header 1 qs (sup_wal S)" "request_leaves qs = ls"
    "list_all (\<lambda>q. fst q = LeafRecord) qs"
    using assms(1) lv by (auto simp: sup_inv_def)
  have i: "mmr_repr sha (live_leaves evs) (sup_mmr S)" "map_option snd (consumer_pending S) = p"
    "\<forall>h. p = Some h \<longrightarrow> length h = 32"
    "(\<forall>p f. CommandVeto p f \<notin> set evs) \<longrightarrow> ls @ (case p of None \<Rightarrow> [] | Some h \<Rightarrow> [h]) = live_leaves evs"
    using assms(1) lv by (auto simp: sup_inv_def)
  show ?thesis
    using assms(2)
  proof (cases rule: sup_step.cases)
    case (consumer_hash h)
    then show ?thesis
      using q i assms(3) mmr_append_repr(2) [OF i(1), of h]
      by (auto simp: sup_inv_def live_snoc log_snoc lv consumer_hash_def Let_def)
  next
    case (consumer_log idx h f)
    then have h: "length h = 32" "p = Some h" using i by auto
    have "wal_view wal_header 1 (qs @ [(LeafRecord, word_of_nat idx, h, 0)]) (sup_wal S')"
      using log_append [OF q(1) h(1)] consumer_log assms(3)
      by (simp add: consumer_log_def wal_append_leaf_def Let_def)
    then show ?thesis
      using q i h consumer_log assms(3) request_leaves_snoc
      by (fastforce simp: sup_inv_def live_snoc log_snoc lv consumer_log_def Let_def)
  next
    case (command_veto v f)
    have "wal_view wal_header 1 (qs @ [(LeafRecord, 0, v, VETO_CONTENT_ID)]) (sup_wal S')"
      using log_append [OF q(1)] command_veto assms(3) by (simp add: command_veto_def)
    then show ?thesis
      using q i command_veto assms(3) request_leaves_snoc
      by (fastforce simp: sup_inv_def live_snoc log_snoc lv command_veto_def)
  next
    case consumer_seal
    then show ?thesis
      using q i consumer_seal_facts by (auto simp: sup_inv_def live_snoc log_snoc lv)
  qed (use q i assms(3) in \<open>auto simp: sup_inv_def live_snoc log_snoc lv command_shutdown_def worker_wake_def
      Let_def feed_heartbeat_def\<close>)
qed

lemma replay_chunk_epoch: "epoch (fst (foldl (replay_chunk sha) s cs)) = epoch (fst s)"
proof (induction cs arbitrary: s)
  case (Cons c cs)
  have "epoch (fst (replay_chunk sha s c)) = epoch (fst s)"
    by (auto simp: replay_chunk_def mmr_append_def Let_def split_beta split: option.splits record_type.splits)
  then show ?case using Cons by simp
qed simp

lemma wal_replay_epoch: "wal_replay sha st m False = (r, m', st') \<Longrightarrow> epoch m' = epoch m"
  using replay_chunk_epoch [of sha "(m, 0)" "chunks (contents (wal_file st))"]
  by (auto simp: wal_replay_def Let_def split_beta split: if_splits)

lemma replay_keeps_file: "wal_replay sha st m b = (r, m', st') \<Longrightarrow> wal_file st' = wal_file st"
  by (auto simp: wal_replay_def Let_def split_beta split: if_splits option.splits)

text \<open>A restart from a log that holds the given requests.\<close>

lemma respawn:
  assumes c: "contents (wal_file st) = h @ concat (map encode_record (stamp 1 qs)) @ rest"
    and h: "inert_header h" and ok: "requests_ok qs" and rest: "inert_tail rest"
  shows "\<exists>S1. supervisor_spawn sha (Some (contents (wal_file st))) False None False = Some S1 \<and>
    mmr_repr sha (request_leaves qs) (sup_mmr S1) \<and> epoch (sup_mmr S1) = 0 \<and>
    contents (wal_file (sup_wal S1)) = contents (wal_file st) \<and>
    data_count S1 = 0 \<and> epoch_count S1 = 0 \<and> veto_count S1 = 0 \<and> heartbeat_count S1 = 0"
proof -
  obtain w where w: "wal_open (Some (contents (wal_file st))) False None = Inr w" using wal_open_Inr by blast
  then have cw: "contents (wal_file w) = contents (wal_file st)"
    by (auto simp: wal_open_def Let_def split: if_splits)
  obtain m st' where r: "wal_replay sha w mmr_new False = (Inr (length (request_leaves qs)), m, st')"
    "mmr_repr sha (request_leaves qs) m"
    using replay_requests [OF h ok rest] c cw by metis
  show ?thesis
    using w r cw wal_replay_epoch [OF r(1)] replay_keeps_file [OF r(1)]
    by (simp add: supervisor_spawn_def mmr_new_def)
qed

lemma replay_fresh:
  assumes "contents (wal_file st) = wal_header"
  shows "wal_replay sha st m False = (Inr 0, m, st)"
proof -
  have c: "chunks wal_header =
      [slice wal_header 0 64, slice wal_header 64 128, slice wal_header 128 192, slice wal_header 192 256]"
    using chunks_header [of wal_header "[]"] inert_wal_header by (simp add: inert_header_def chunks_short)
  have "decode_record (slice wal_header 192 256) = None"
    using inert_wal_header by (intro decode_None) (simp add: inert_header_def slice_nth)
  moreover have "foldl (replay_chunk sha) (m, 0) (chunks wal_header) = (m, 0)"
    using foldl_header [OF inert_wal_header, of sha "(m, 0)" "[]"] by (simp add: chunks_short)
  moreover have "length wal_header = 256" using inert_wal_header by (simp add: inert_header_def)
  ultimately show ?thesis using assms by (simp add: wal_replay_def Let_def c)
qed

lemma spawn_fresh:
  assumes "supervisor_spawn sha None False None False = Some S0"
  shows "wal_create None = Inr (sup_wal S0)" "sup_mmr S0 = mmr_new" "consumer_pending S0 = None"
    "command_alive S0" "data_count S0 = 0" "epoch_count S0 = 0" "heartbeat_count S0 = 0" "veto_count S0 = 0"
proof -
  obtain st where st: "wal_create None = Inr st" by (simp add: wal_create_def write_all_def)
  then have "contents (wal_file st) = wal_header" using wal_create_view by (simp add: wal_view_def)
  then have "wal_replay sha st mmr_new False = (Inr 0, mmr_new, st)" by (rule replay_fresh)
  then show "wal_create None = Inr (sup_wal S0)" "sup_mmr S0 = mmr_new" "consumer_pending S0 = None"
    "command_alive S0" "data_count S0 = 0" "epoch_count S0 = 0" "heartbeat_count S0 = 0" "veto_count S0 = 0"
    using assms st by (auto simp: supervisor_spawn_def wal_open_def)
qed

lemma spawn_fresh_Some: "\<exists>S0. supervisor_spawn sha None False None False = Some S0"
proof -
  obtain st where st: "wal_create None = Inr st" by (simp add: wal_create_def write_all_def)
  then have "contents (wal_file st) = wal_header" using wal_create_view by (simp add: wal_view_def)
  then have "wal_replay sha st mmr_new False = (Inr 0, mmr_new, st)" by (rule replay_fresh)
  then show ?thesis using st by (simp add: supervisor_spawn_def wal_open_def)
qed

lemma spawn_fresh_inv:
  assumes "supervisor_spawn sha None False None False = Some S0" shows "sup_inv sha [] S0"
  using spawn_fresh [OF assms] wal_create_view mmr_repr_new
  by (auto simp: sup_inv_def log_view_def live_leaves_def request_leaves_def intro!: exI [of _ "[]"])

lemma sup_run_inv:
  assumes "sup_run sha S0 evs S" "sup_inv sha [] S0" "\<forall>e \<in> set evs. plain e"
  shows "sup_inv sha evs S"
  using assms by (induction rule: sup_run.induct) (auto intro: sup_step_inv)

lemma created_mode: "wal_create None = Inr st \<Longrightarrow> \<not> append_mode (wal_file st)"
  by (auto simp: wal_create_def write_all_def write_bytes_def Let_def)

section \<open>The confidence score\<close>

definition raw_confidence :: "supervisor \<Rightarrow> rat" where
  "raw_confidence S =
     f64_sub
       (f64_add
         (f64_add
           (f64_add (f64_mul (f64_of_nat (data_count S)) (1 / 2)) (f64_mul (f64_of_nat (epoch_count S)) 5))
           (f64_mul (f64_of_nat (heartbeat_count S)) (f64_round (1 / 10))))
         (f64_mul (f64_of_nat (wal_record_count (sup_wal S))) (1 / 4)))
       (f64_mul (f64_of_nat (veto_count S)) 10)"

lemma confidence_raw: "compute_confidence S = nat \<lfloor>f64_clamp 0 100 (raw_confidence S)\<rfloor>"
  by (simp add: compute_confidence_def raw_confidence_def f64_to_nat_def)

lemma raw_mono:
  assumes "data_count S \<le> data_count T" "epoch_count S \<le> epoch_count T"
    and "heartbeat_count S \<le> heartbeat_count T"
    and "wal_record_count (sup_wal S) \<le> wal_record_count (sup_wal T)" "veto_count T \<le> veto_count S"
  shows "raw_confidence S \<le> raw_confidence T"
proof -
  have "0 \<le> f64_round (1 / 10)" using f64_round_mono [of 0 "1 / 10"] by simp
  then show ?thesis
    unfolding raw_confidence_def using assms
    by (intro f64_sub_mono f64_add_mono f64_mul_mono f64_of_nat_mono) simp_all
qed

lemma f64_mul_0 [simp]: "f64_mul 0 c = 0"
  by (simp add: f64_mul_def)

lemma f64_of_nat_0 [simp]: "f64_of_nat 0 = 0"
  by (simp add: f64_of_nat_def)

text \<open>With only log records and vetoes the arithmetic is exact.\<close>

lemma raw_log_only:
  assumes "data_count S = 0" "epoch_count S = 0" "heartbeat_count S = 0"
    and "wal_record_count (sup_wal S) < 2 ^ 50" "veto_count S < 2 ^ 40"
  shows "raw_confidence S = of_nat (wal_record_count (sup_wal S)) / 4 - of_nat (veto_count S) * 10"
proof -
  define w where "w = int (wal_record_count (sup_wal S))"
  define v where "v = int (veto_count S)"
  have wv: "0 \<le> w" "w < 2 ^ 50" "0 \<le> v" "v < 2 ^ 40" using assms(4,5) by (simp_all add: w_def v_def)
  have "f64_mul (f64_of_nat (wal_record_count (sup_wal S))) (1 / 4) = of_int w / 4"
    using f64_round_quarters [of w] wv f64_of_nat_small [of "wal_record_count (sup_wal S)"] assms(4)
    by (simp add: f64_mul_def w_def)
  moreover have "f64_mul (f64_of_nat (veto_count S)) 10 = of_int v * 10"
    using f64_round_quarters [of "v * 40"] wv f64_of_nat_small [of "veto_count S"] assms(5)
    by (simp add: f64_mul_def v_def mult.commute)
  moreover have "f64_sub (of_int w / 4) (of_int v * 10) = of_int w / 4 - of_int v * 10"
  proof -
    have "\<bar>w - v * 40\<bar> < 2 ^ 53" using wv by (simp add: abs_less_iff)
    then show ?thesis
      using f64_round_quarters [of "w - v * 40"] by (simp add: f64_sub_def diff_divide_distrib mult.commute)
  qed
  moreover have "f64_add 0 (of_int w / 4) = of_int w / 4"
    using f64_round_quarters [of w] wv by (simp add: f64_add_def)
  moreover have add_0: "f64_add 0 0 = 0" by (simp add: f64_add_def)
  ultimately show ?thesis
    unfolding raw_confidence_def assms(1-3) f64_of_nat_0 f64_mul_0 add_0 by (simp only: w_def v_def of_int_of_nat_eq)
qed

section \<open>Properties\<close>

text \<open>
  C12: after any interleaving of the threads from an empty directory, without a call of
  \<^verbatim>\<open>seal_epoch\<close> and without write faults, a restart rebuilds the range of the leaf hashes in the
  order they reached the log: the consumer's leaves without the one still pending, and the patch hash
  of every veto as well. Without vetoes and with nothing pending that is the live range, with the
  same root. The counters and the epoch number start again at zero.
\<close>

theorem supervisor_restart_recovers_log:
  assumes "supervisor_spawn sha None False None False = Some S0" and "sup_run sha S0 evs S"
    and "\<forall>e \<in> set evs. plain e"
  shows "\<exists>S1. supervisor_spawn sha (Some (contents (wal_file (sup_wal S)))) False None False = Some S1 \<and>
     mmr_repr sha (live_leaves evs) (sup_mmr S) \<and> mmr_repr sha (snd (log_view evs)) (sup_mmr S1) \<and>
     (consumer_pending S = None \<longrightarrow> (\<forall>p f. CommandVeto p f \<notin> set evs) \<longrightarrow>
        current_root sha (sup_mmr S1) = current_root sha (sup_mmr S) \<and>
        supervisor_leaf_count S1 = supervisor_leaf_count S) \<and>
     epoch (sup_mmr S1) = 0 \<and> data_count S1 = 0 \<and> epoch_count S1 = 0 \<and> veto_count S1 = 0"
proof -
  have inv: "sup_inv sha evs S" using sup_run_inv [OF assms(2) spawn_fresh_inv [OF assms(1)] assms(3)] .
  then obtain qs where qs: "wal_view wal_header 1 qs (sup_wal S)" "request_leaves qs = snd (log_view evs)"
    by (auto simp: sup_inv_def)
  have c: "contents (wal_file (sup_wal S)) = wal_header @ concat (map encode_record (stamp 1 qs)) @ []"
    "requests_ok qs" using qs(1) by (simp_all add: wal_view_def)
  obtain S1 where S1: "supervisor_spawn sha (Some (contents (wal_file (sup_wal S)))) False None False = Some S1"
    "mmr_repr sha (snd (log_view evs)) (sup_mmr S1)" "epoch (sup_mmr S1) = 0"
    "data_count S1 = 0" "epoch_count S1 = 0" "veto_count S1 = 0"
    using respawn [OF c(1) inert_wal_header c(2) inert_tail_short, of sha] qs(2) by auto
  have live: "mmr_repr sha (live_leaves evs) (sup_mmr S)" using inv by (simp add: sup_inv_def)
  have "current_root sha (sup_mmr S1) = current_root sha (sup_mmr S) \<and>
      supervisor_leaf_count S1 = supervisor_leaf_count S"
    if "consumer_pending S = None" "\<forall>p f. CommandVeto p f \<notin> set evs"
  proof -
    have "snd (log_view evs) = live_leaves evs" using inv that by (auto simp: sup_inv_def)
    then show ?thesis
      using current_root_repr [OF S1(2)] current_root_repr [OF live] S1(2) live
      by (simp add: supervisor_leaf_count_def mmr_repr_def)
  qed
  then show ?thesis using S1 live by (intro exI [of _ S1]) auto
qed

lemma run_app: "sup_run sha S es S' \<Longrightarrow> sup_step sha S' e S'' \<Longrightarrow> sup_run sha S (es @ [e]) S''"
  by (rule run_snoc)

text \<open>One leaf of the consumer, from the range to the log.\<close>

lemma consume_one:
  assumes "sup_run sha S0 es S" "consumer_pending S = None"
  shows "sup_run sha S0 (es @ [ConsumerHash h, ConsumerLog f])
    (fst (consumer_log (consumer_hash sha S h) (leaf_count (sup_mmr S)) h f))"
proof -
  have r: "sup_run sha S0 (es @ [ConsumerHash h]) (consumer_hash sha S h)"
    by (rule run_snoc [OF assms(1) sup_step.consumer_hash [OF assms(2)]])
  have "consumer_pending (consumer_hash sha S h) = Some (leaf_count (sup_mmr S), h)"
    by (simp add: consumer_hash_def Let_def)
  then have "sup_run sha S0 ((es @ [ConsumerHash h]) @ [ConsumerLog f])
      (fst (consumer_log (consumer_hash sha S h) (leaf_count (sup_mmr S)) h f))"
    by (rule run_snoc [OF r sup_step.consumer_log])
  then show ?thesis by simp
qed

theorem supervisor_restart_recovers_log_witness:
  "\<exists>S0 S S1. supervisor_spawn (\<lambda>x. x) None False None False = Some S0 \<and>
     sup_run (\<lambda>x. x) S0 [ConsumerHash (zeros 32), ConsumerLog None, CommandVeto (zeros 32) None] S \<and>
     supervisor_spawn (\<lambda>x. x) (Some (contents (wal_file (sup_wal S)))) False None False = Some S1 \<and>
     mmr_repr (\<lambda>x. x) [zeros 32] (sup_mmr S) \<and> mmr_repr (\<lambda>x. x) [zeros 32, zeros 32] (sup_mmr S1)"
proof -
  obtain S0 where S0: "supervisor_spawn (\<lambda>x. x) None False None False = Some S0" using spawn_fresh_Some by blast
  note f = spawn_fresh [OF S0]
  define S where "S = fst (consumer_log (consumer_hash (\<lambda>x. x) S0 (zeros 32)) (leaf_count (sup_mmr S0)) (zeros 32) None)"
  have "sup_run (\<lambda>x. x) S0 [ConsumerHash (zeros 32), ConsumerLog None] S"
    using consume_one [OF run_Nil f(3)] by (simp add: S_def)
  moreover have "command_alive S" using f(4) by (simp add: S_def consumer_log_def consumer_hash_def Let_def)
  ultimately have r: "sup_run (\<lambda>x. x) S0 [ConsumerHash (zeros 32), ConsumerLog None, CommandVeto (zeros 32) None]
      (command_veto S (zeros 32) None)"
    using run_snoc [OF _ command_veto, of _ S0 "[ConsumerHash (zeros 32), ConsumerLog None]"] by simp
  show ?thesis
    using supervisor_restart_recovers_log [OF S0 r] S0 r
    by (auto simp: live_leaves_def log_view_def)
qed

text \<open>
  The first seal of a session that created the log makes the next leaf unrecoverable: after a leaf,
  \<^verbatim>\<open>seal_epoch\<close> and a second leaf, all without faults, the running range has two leaves, but a
  restart finds the first only (unless byte 16 of the second hash is a record type).
\<close>

theorem supervisor_seal_loses_next_leaf:
  assumes "supervisor_spawn sha None False None False = Some S0" and "digest32 sha"
    and "length a = 32" and "length b = 32" and "b ! 16 \<notin> {1, 2, 3}"
  shows "\<exists>S S1. sup_run sha S0
       [ConsumerHash a, ConsumerLog None, CallSeal None None False, ConsumerHash b, ConsumerLog None] S \<and>
     supervisor_spawn sha (Some (contents (wal_file (sup_wal S)))) False None False = Some S1 \<and>
     mmr_repr sha [a, b] (sup_mmr S) \<and> mmr_repr sha [a] (sup_mmr S1)"
proof -
  note f = spawn_fresh [OF assms(1)]
  define A where "A = fst (consumer_log (consumer_hash sha S0 a) (leaf_count (sup_mmr S0)) a None)"
  have rA: "sup_run sha S0 [ConsumerHash a, ConsumerLog None] A"
    using consume_one [OF run_Nil f(3)] by (simp add: A_def)
  have mA: "mmr_repr sha [a] (sup_mmr A)"
    using mmr_append_repr(2) [OF mmr_repr_new, of sha a] f(2)
    by (simp add: A_def consumer_log_def consumer_hash_def Let_def)
  have vA: "wal_view wal_header 1 [(LeafRecord, 0, a, 0)] (sup_wal A)"
    using log_append [OF wal_create_view [OF f(1)] assms(3), of 0 0] f(2)
    by (simp add: A_def consumer_log_def consumer_hash_def Let_def wal_append_leaf_def mmr_new_def)
  have pA: "consumer_pending A = None" by (simp add: A_def consumer_log_def consumer_hash_def Let_def)
  have lc: "leaf_count (sup_mmr A) = 1" using mA by (simp add: mmr_repr_def)
  obtain seal m where se: "seal_epoch sha (sup_mmr A) = (Inr seal, m)" using lc by (auto simp: seal_epoch_def)
  have mm: "mmr_repr sha [a] m" using seal_repr [OF mA] se by (metis snd_conv)
  have rt: "seal_root seal = a"
    using se bag_peaks_repr [OF mA] lc by (auto simp: seal_epoch_def peak_roots_def bag_def forest_def)
  define w where "w = snd (wal_append_seal (sup_wal A) (word_of_nat (seal_epoch_no seal)) (seal_root seal) None)"
  define qs :: "wal_request list" where
    "qs = [(LeafRecord, 0, a, 0), (EpochSealRecord, word_of_nat (seal_epoch_no seal), a, 0)]"
  have vw: "wal_view wal_header 1 qs w"
    using wal_append_view [OF vA, of "(EpochSealRecord, word_of_nat (seal_epoch_no seal), a, 0)"] assms(3)
    by (simp add: w_def wal_append_seal_def rt qs_def)
  have am: "\<not> append_mode (wal_file w)"
    using created_mode [OF f(1)]
      append_keeps_mode [of "sup_wal S0" "[(LeafRecord, 0, a, 0), (EpochSealRecord, word_of_nat (seal_epoch_no seal), a, 0)]"]
    by (simp add: w_def A_def rt wal_append_seal_def consumer_log_def consumer_hash_def Let_def
        wal_append_leaf_def mmr_new_def f(2))
  define B where "B = snd (supervisor_seal_epoch sha A None None False)"
  have rB: "sup_run sha S0 ([ConsumerHash a, ConsumerLog None] @ [CallSeal None None False]) B"
    unfolding B_def by (intro run_snoc [OF rA] sup_step.call_seal)
  have B: "sup_mmr B = m" "sup_wal B = snd (wal_sync w None False)" "consumer_pending B = None"
    using lc se pA by (simp_all add: B_def supervisor_seal_epoch_def Let_def w_def)
  define r where "r = \<lparr>rec_type = LeafRecord, rec_index = 1, rec_hash = b, rec_timestamp = monotonic w, rec_content = 0\<rparr>"
  have rr: "length (rec_hash r) = 32" "rec_timestamp r = monotonic w" "record_type_from_u8 (rec_hash r ! 16) = None"
    using assms(4,5) by (simp_all add: r_def record_type_from_u8_def)
  obtain st1 st2 where st: "wal_sync w None False = (Inr (), st1)"
    "wal_append st1 (rec_type r) (rec_index r) (rec_hash r) (rec_content r) None = (Inr (rec_timestamp r), st2)"
    "contents (wal_file st2) = header_after_sync (monotonic w) r @ concat (map encode_record (stamp 1 qs))"
    using created_sync_append [OF vw am rr(1,2)] by blast
  define S where "S = fst (consumer_log (consumer_hash sha B b) (leaf_count (sup_mmr B)) b None)"
  have rS: "sup_run sha S0 [ConsumerHash a, ConsumerLog None, CallSeal None None False, ConsumerHash b, ConsumerLog None] S"
    using consume_one [OF rB B(3), of b None] by (simp add: S_def)
  have lm: "leaf_count m = 1" using mm by (simp add: mmr_repr_def)
  have mS: "mmr_repr sha [a, b] (sup_mmr S)"
    using mmr_append_repr(2) [OF mm, of b] by (simp add: S_def consumer_log_def consumer_hash_def Let_def B)
  have wS: "sup_wal S = st2"
    using st by (simp add: S_def consumer_log_def consumer_hash_def Let_def B wal_append_leaf_def r_def lm)
  have ok: "requests_ok qs" using assms(3) by (simp add: requests_ok_def qs_def)
  have "request_leaves qs = [a]" by (simp add: request_leaves_def qs_def)
  then obtain S1 where "supervisor_spawn sha (Some (contents (wal_file (sup_wal S)))) False None False = Some S1"
    "mmr_repr sha [a] (sup_mmr S1)"
    using respawn [OF _ header_after_sync_inert [OF rr(1,3)] ok inert_tail_short, of st2 "monotonic w" "[]" sha] st(3) wS
    by auto
  then show ?thesis using rS mS by blast
qed

theorem supervisor_seal_loses_next_leaf_witness:
  "\<exists>S0 S S1. supervisor_spawn (\<lambda>x. zeros 32) None False None False = Some S0 \<and>
     sup_run (\<lambda>x. zeros 32) S0 [ConsumerHash (replicate 32 5), ConsumerLog None, CallSeal None None False,
       ConsumerHash (replicate 32 9), ConsumerLog None] S \<and>
     supervisor_spawn (\<lambda>x. zeros 32) (Some (contents (wal_file (sup_wal S)))) False None False = Some S1 \<and>
     mmr_repr (\<lambda>x. zeros 32) [replicate 32 5] (sup_mmr S1)"
proof -
  obtain S0 where S0: "supervisor_spawn (\<lambda>x. zeros 32) None False None False = Some S0" using spawn_fresh_Some by blast
  show ?thesis
    using supervisor_seal_loses_next_leaf [OF S0, of "replicate 32 5" "replicate 32 9"] S0
    by (simp add: digest32_def) blast
qed

text \<open>
  The confidence lies between 0 and 100 and, in the rounded arithmetic of \<^verbatim>\<open>f64\<close>, never
  decreases when more data, epochs, heartbeats or log records are counted, and never increases with
  more vetoes.
\<close>

theorem supervisor_confidence_monotone:
  assumes "data_count S \<le> data_count T" and "epoch_count S \<le> epoch_count T"
    and "heartbeat_count S \<le> heartbeat_count T"
    and "supervisor_wal_record_count S \<le> supervisor_wal_record_count T" and "veto_count T \<le> veto_count S"
  shows "compute_confidence S \<le> compute_confidence T \<and> compute_confidence T \<le> 100 \<and>
     (is_sovereign S \<longrightarrow> is_sovereign T)"
proof -
  have "f64_clamp 0 100 (raw_confidence S) \<le> f64_clamp 0 100 (raw_confidence T)"
    using f64_clamp_mono [OF raw_mono [of S T], of 0 100] assms by (simp add: supervisor_wal_record_count_def)
  then have "compute_confidence S \<le> compute_confidence T"
    by (simp add: confidence_raw floor_mono nat_mono)
  moreover have "f64_clamp 0 100 (raw_confidence T) \<le> 100" by (simp add: f64_clamp_def)
  then have "\<lfloor>f64_clamp 0 100 (raw_confidence T)\<rfloor> \<le> 100" by linarith
  then have "compute_confidence T \<le> 100" by (simp add: confidence_raw nat_le_iff)
  ultimately show ?thesis by (auto simp: is_sovereign_def)
qed

lemma confidence_log_only:
  assumes "data_count S = 0" "epoch_count S = 0" "heartbeat_count S = 0"
    and "wal_record_count (sup_wal S) < 2 ^ 50" "veto_count S < 2 ^ 40"
  shows "compute_confidence S = min 100 (nat ((int (wal_record_count (sup_wal S)) - 40 * int (veto_count S)) div 4))"
proof -
  define n where "n = int (wal_record_count (sup_wal S)) - 40 * int (veto_count S)"
  have r: "raw_confidence S = of_int n / 4"
    using raw_log_only [OF assms] by (simp add: n_def diff_divide_distrib)
  have fl: "\<lfloor>(of_int n / 4 :: rat)\<rfloor> = n div 4" using floor_divide_of_int_eq [of n 4, where 'a = rat] by simp
  consider "(of_int n / 4 :: rat) < 0" | "100 < (of_int n / 4 :: rat)" | "0 \<le> (of_int n / 4 :: rat)" "(of_int n / 4 :: rat) \<le> 100"
    by linarith
  then show ?thesis
  proof cases
    case 1
    then have "\<lfloor>(of_int n / 4 :: rat)\<rfloor> < 0" by simp
    then have "n div 4 < 0" by (simp add: fl)
    then show ?thesis using 1 by (simp add: confidence_raw r f64_clamp_def n_def [symmetric])
  next
    case 2
    then have "100 \<le> \<lfloor>(of_int n / 4 :: rat)\<rfloor>" by (simp add: le_floor_iff)
    then have "100 \<le> n div 4" by (simp add: fl)
    then show ?thesis using 2 by (simp add: confidence_raw r f64_clamp_def n_def [symmetric])
  next
    case 3
    then have "\<lfloor>(of_int n / 4 :: rat)\<rfloor> \<le> 100" by linarith
    then have "n div 4 \<le> 100" by (simp add: fl)
    then show ?thesis using 3 by (simp add: confidence_raw r f64_clamp_def fl n_def [symmetric])
  qed
qed

lemma vetoes_run:
  assumes "sup_run sha S0 (map (\<lambda>p. CommandVeto p None) ps) S"
  shows "data_count S = data_count S0 \<and> epoch_count S = epoch_count S0 \<and> heartbeat_count S = heartbeat_count S0 \<and>
    veto_count S = veto_count S0 + length ps"
  using assms
proof (induction ps arbitrary: S rule: rev_induct)
  case Nil
  then show ?case by (auto elim: sup_run.cases)
next
  case (snoc p ps)
  from snoc.prems obtain S' where "sup_run sha S0 (map (\<lambda>p. CommandVeto p None) ps) S'"
    "sup_step sha S' (CommandVeto p None) S"
    by (auto elim: sup_run.cases)
  then show ?case using snoc.IH [of S'] by (auto simp: sup_step_veto command_veto_def)
qed

lemma record_count_view:
  assumes "wal_view wal_header 1 qs w" shows "wal_record_count w = length qs"
proof -
  have "requests_ok qs" using assms by (simp add: wal_view_def)
  then have "length (concat (map encode_record (stamp 1 qs))) = 64 * length qs"
    using stamp_hashes [of qs _ 1] by (simp add: length_concat sum_list_triv comp_def cong: map_cong)
  moreover have "length wal_header = 256" using inert_wal_header by (simp add: inert_header_def)
  ultimately show ?thesis using assms by (simp add: wal_view_def wal_record_count_def Let_def)
qed

theorem supervisor_confidence_monotone_witness:
  "\<exists>S0. supervisor_spawn (\<lambda>x. x) None False None False = Some S0 \<and>
     compute_confidence S0 \<le> compute_confidence (S0\<lparr>data_count := 7\<rparr>)"
proof -
  obtain S0 where S0: "supervisor_spawn (\<lambda>x. x) None False None False = Some S0" using spawn_fresh_Some by blast
  show ?thesis
    using supervisor_confidence_monotone [of S0 "S0\<lparr>data_count := 7\<rparr>"] spawn_fresh(5) [OF S0] S0
    by (auto simp: supervisor_wal_record_count_def)
qed

lemma vetoes_run_exists:
  "command_alive S0 \<Longrightarrow> \<exists>S. sup_run sha S0 (map (\<lambda>p. CommandVeto p None) ps) S \<and> command_alive S"
proof (induction ps rule: rev_induct)
  case Nil
  then show ?case using run_Nil by auto
next
  case (snoc p ps)
  then obtain S where S: "sup_run sha S0 (map (\<lambda>p. CommandVeto p None) ps) S" "command_alive S" by blast
  then show ?case
    using run_snoc [OF S(1) sup_step.command_veto [OF S(2)], of p None]
    by (auto simp: command_veto_def intro!: exI [of _ "command_veto S p None"])
qed

text \<open>
  Vetoes count against the system only until the next restart: after \<open>n\<close> vetoes on an empty
  system the confidence is 0, but a restart forgets the veto counter and counts their log records
  as history, a quarter point each, so 320 vetoes make the restarted system sovereign.
\<close>

theorem supervisor_vetoes_make_sovereign:
  assumes "supervisor_spawn sha None False None False = Some S0"
    and "sup_run sha S0 (map (\<lambda>p. CommandVeto p None) ps) S" and "\<forall>p \<in> set ps. length p = 32"
    and "320 \<le> length ps" and "length ps < 2 ^ 40"
  shows "compute_confidence S = 0 \<and>
     (\<exists>S1. supervisor_spawn sha (Some (contents (wal_file (sup_wal S)))) False None False = Some S1 \<and>
        veto_count S1 = 0 \<and> is_sovereign S1)"
proof -
  note f = spawn_fresh [OF assms(1)]
  have v: "data_count S = 0" "epoch_count S = 0" "heartbeat_count S = 0" "veto_count S = length ps"
    using vetoes_run [OF assms(2)] f by simp_all
  have inv: "sup_inv sha (map (\<lambda>p. CommandVeto p None) ps) S"
    using assms(3) by (intro sup_run_inv [OF assms(2) spawn_fresh_inv [OF assms(1)]]) auto
  have lv: "snd (log_view (map (\<lambda>p. CommandVeto p None) xs)) = xs" for xs
    by (induction xs rule: rev_induct)
      (simp_all add: log_snoc prod.expand, simp add: log_view_def, metis log_step.simps(3) prod.collapse snd_conv)
  obtain qs where qs: "wal_view wal_header 1 qs (sup_wal S)" "request_leaves qs = ps"
    "list_all (\<lambda>q. fst q = LeafRecord) qs"
    using inv by (auto simp: sup_inv_def lv)
  then have len: "length qs = length ps"
    by (auto simp: request_leaves_def list_all_iff filter_id_conv)
  have w: "wal_record_count (sup_wal S) = length ps" using record_count_view [OF qs(1)] len by simp
  have c: "contents (wal_file (sup_wal S)) = wal_header @ concat (map encode_record (stamp 1 qs)) @ []"
    "requests_ok qs" using qs(1) by (simp_all add: wal_view_def)
  obtain S1 where S1: "supervisor_spawn sha (Some (contents (wal_file (sup_wal S)))) False None False = Some S1"
    "contents (wal_file (sup_wal S1)) = contents (wal_file (sup_wal S))"
    "data_count S1 = 0" "epoch_count S1 = 0" "veto_count S1 = 0" "heartbeat_count S1 = 0"
    using respawn [OF c(1) inert_wal_header c(2) inert_tail_short, of sha] by auto
  have w1: "wal_record_count (sup_wal S1) = length ps" using w S1(2) by (simp add: wal_record_count_def)
  have "compute_confidence S = 0"
    using confidence_log_only [of S] v w assms(5) by simp
  moreover have "compute_confidence S1 = min 100 (nat (int (length ps) div 4))"
    using confidence_log_only [of S1] S1 w1 assms(5) by simp
  then have "80 \<le> compute_confidence S1" using assms(4) by auto
  ultimately show ?thesis using S1 by (auto simp: is_sovereign_def SOVEREIGNTY_THRESHOLD_def)
qed

theorem supervisor_vetoes_make_sovereign_witness:
  "\<exists>S0 S S1. supervisor_spawn (\<lambda>x. x) None False None False = Some S0 \<and>
     sup_run (\<lambda>x. x) S0 (map (\<lambda>p. CommandVeto p None) (replicate 320 (zeros 32))) S \<and> compute_confidence S = 0 \<and>
     supervisor_spawn (\<lambda>x. x) (Some (contents (wal_file (sup_wal S)))) False None False = Some S1 \<and> is_sovereign S1"
proof -
  obtain S0 where S0: "supervisor_spawn (\<lambda>x. x) None False None False = Some S0" using spawn_fresh_Some by blast
  obtain S where S: "sup_run (\<lambda>x. x) S0 (map (\<lambda>p. CommandVeto p None) (replicate 320 (zeros 32))) S"
    using vetoes_run_exists [OF spawn_fresh(4) [OF S0]] by blast
  have "(320::nat) < 2 ^ 40" by simp
  then show ?thesis using supervisor_vetoes_make_sovereign [OF S0 S] S0 S by auto
qed

end
