(* ===== verification/Executor.thy ===== *)
theory Executor
  imports Supervisor
begin

text \<open>
  The executor of \<^verbatim>\<open>nexoia-core/supervisor/src/executor.rs\<close>: patches, slots, the constitutional
  check, \<^verbatim>\<open>apply\<close> and the patch table. Code pages live in a store from addresses to bytes; the
  allocator's answer (\<open>None\<close>, or an address with the bytes it hands out) and the faults of the log
  are inputs of a call. The mutex serialises whole calls of \<^verbatim>\<open>apply\<close>.
\<close>

section \<open>Patches\<close>

abbreviation PAGE_SIZE :: nat where "PAGE_SIZE \<equiv> 4096"

definition MAX_PATCH_SIZE :: nat where
  "MAX_PATCH_SIZE = 64 * 1024"

definition SOVEREIGN_MUTATION_CONTENT_ID :: u64 where
  "SOVEREIGN_MUTATION_CONTENT_ID = 0xC0DE000000000002"

datatype executor_error =
    ConstitutionalViolation string
  | AllocationFailed
  | ProtectionFailed
  | WalError io_error
  | PatchTooLarge nat
  | TargetNotFound nat

record patch =
  target_slot :: nat
  original_hash :: hash32
  new_code :: bytes
  signature :: bytes
  reason_hash :: hash32
  patch_timestamp :: nat

definition patch_verify :: "patch \<Rightarrow> audit_rules \<Rightarrow> executor_error + unit" where
  "patch_verify p c =
     (if signature p = zeros 64 then Inl (ConstitutionalViolation (sovereign_transaction_format c))
      else if reason_hash p = zeros 32 then
        Inl (ConstitutionalViolation ''reason_hash must be non-zero: mutation without justification'')
      else if new_code p = [] then
        Inl (ConstitutionalViolation ''new_code must be non-empty: mutation without payload'')
      else if MAX_PATCH_SIZE < length (new_code p) then Inl (PatchTooLarge (length (new_code p)))
      else if original_hash p = zeros 32 then Inl (ConstitutionalViolation (wal_inviolability c))
      else Inr ())"

section \<open>Slots and pages\<close>

type_synonym address = nat

record patch_slot =
  slot_ptr :: address
  slot_id :: nat
  slot_name :: string

definition patch_slot_new :: "nat \<Rightarrow> string \<Rightarrow> address \<Rightarrow> patch_slot" where
  "patch_slot_new i n f = \<lparr>slot_ptr = f, slot_id = i, slot_name = n\<rparr>"

definition slot_load :: "patch_slot \<Rightarrow> address" where
  "slot_load s = slot_ptr s"

definition slot_store :: "patch_slot \<Rightarrow> address \<Rightarrow> patch_slot" where
  "slot_store s a = s\<lparr>slot_ptr := a\<rparr>"

text \<open>
  The answer of the allocator: an address and the bytes found there; the page is the size asked for,
  rounded up to whole pages of the system.
\<close>

definition next_multiple_of :: "nat \<Rightarrow> nat \<Rightarrow> nat" where
  "next_multiple_of n k = (if n mod k = 0 then n else n + (k - n mod k))"

definition allocate_page :: "nat \<Rightarrow> (address \<times> bytes) option \<Rightarrow> executor_error + address \<times> bytes" where
  "allocate_page n answer =
     (case answer of
        None \<Rightarrow> Inl AllocationFailed
      | Some (addr, memory) \<Rightarrow> Inr (addr, take (next_multiple_of n PAGE_SIZE) memory))"

definition make_executable :: "address \<Rightarrow> nat \<Rightarrow> executor_error + unit" where
  "make_executable a n = Inr ()"

section \<open>The executor\<close>

record executor =
  exec_wal :: "wal_store option"
  next_timestamp :: nat

definition executor_new :: executor where
  "executor_new = \<lparr>exec_wal = None, next_timestamp = 1\<rparr>"

definition with_wal :: "executor \<Rightarrow> wal_store \<Rightarrow> executor" where
  "with_wal E w = E\<lparr>exec_wal := Some w\<rparr>"

type_synonym pages = "address \<Rightarrow> bytes option"

record log_faults =
  append_fault :: "nat option"
  sync_fault :: "nat option"
  sync_fails :: bool

definition executor_apply ::
  "executor \<Rightarrow> pages \<Rightarrow> patch \<Rightarrow> patch_slot \<Rightarrow> audit_rules \<Rightarrow> (address \<times> bytes) option \<Rightarrow> log_faults \<Rightarrow>
   (executor_error + unit) \<times> executor \<times> pages \<times> patch_slot" where
  "executor_apply E mem p slot c answer fl =
     (case patch_verify p c of
        Inl e \<Rightarrow> (Inl e, E, mem, slot)
      | Inr _ \<Rightarrow>
          (case allocate_page (length (new_code p)) answer of
             Inl e \<Rightarrow> (Inl e, E, mem, slot)
           | Inr (addr, page) \<Rightarrow>
               let mem = mem(addr \<mapsto> put_at 0 (new_code p) page) in
               (case make_executable addr (length (new_code p)) of
                  Inl e \<Rightarrow> (Inl e, E, mem, slot)
                | Inr _ \<Rightarrow>
                    let slot = slot_store slot addr in
                    (case exec_wal E of
                       None \<Rightarrow> (Inr (), E, mem, slot)
                     | Some w \<Rightarrow>
                         let E = E\<lparr>next_timestamp := next_timestamp E + 1\<rparr> in
                         (case wal_append w EpochSealRecord (word_of_nat (slot_id slot)) (original_hash p)
                                 SOVEREIGN_MUTATION_CONTENT_ID (append_fault fl) of
                            (Inl e, w) \<Rightarrow> (Inl (WalError e), E\<lparr>exec_wal := Some w\<rparr>, mem, slot)
                          | (Inr _, w) \<Rightarrow>
                              (case wal_sync w (sync_fault fl) (sync_fails fl) of
                                 (Inl e, w) \<Rightarrow> (Inl (WalError e), E\<lparr>exec_wal := Some w\<rparr>, mem, slot)
                               | (Inr _, w) \<Rightarrow> (Inr (), E\<lparr>exec_wal := Some w\<rparr>, mem, slot)))))))"

definition rollback :: "executor \<Rightarrow> patch_slot \<Rightarrow> executor_error + unit" where
  "rollback E slot = Inl (TargetNotFound (slot_id slot))"

section \<open>The patch table\<close>

record patch_table =
  table_of_slots :: "patch_slot list"

definition patch_table_new :: patch_table where
  "patch_table_new = \<lparr>table_of_slots = []\<rparr>"

definition register :: "patch_table \<Rightarrow> patch_slot \<Rightarrow> patch_table" where
  "register T s = T\<lparr>table_of_slots := table_of_slots T @ [s]\<rparr>"

definition patch_get :: "patch_table \<Rightarrow> nat \<Rightarrow> patch_slot option" where
  "patch_get T i = find (\<lambda>s. slot_id s = i) (table_of_slots T)"

definition patch_table_len :: "patch_table \<Rightarrow> nat" where
  "patch_table_len T = length (table_of_slots T)"

lemma find_append: "find P (xs @ ys) = (case find P xs of None \<Rightarrow> find P ys | Some x \<Rightarrow> Some x)"
  by (induction xs) auto

interpretation patches: keyed_store patch_get register slot_id "\<lambda>T s. patch_get T (slot_id s) = None"
  by unfold_locales (auto simp: patch_get_def register_def find_append split: option.splits)

section \<open>Facts\<close>

lemma verify_Inr:
  "patch_verify p c = Inr () \<longleftrightarrow>
     signature p \<noteq> zeros 64 \<and> reason_hash p \<noteq> zeros 32 \<and> new_code p \<noteq> [] \<and>
     length (new_code p) \<le> 65536 \<and> original_hash p \<noteq> zeros 32"
  by (auto simp: patch_verify_def MAX_PATCH_SIZE_def not_less)

lemma put_code: "take (length bs) (put_at 0 bs page) = bs"
  by (simp add: put_at_def)

lemma apply_rejected:
  "patch_verify p c = Inl e \<Longrightarrow> executor_apply E mem p slot c ans fl = (Inl e, E, mem, slot)"
  by (simp add: executor_apply_def)

lemma apply_no_page:
  "patch_verify p c = Inr () \<Longrightarrow> executor_apply E mem p slot c None fl = (Inl AllocationFailed, E, mem, slot)"
  by (simp add: executor_apply_def allocate_page_def)

lemma apply_swaps:
  assumes "patch_verify p c = Inr ()"
  shows "\<exists>r E'. executor_apply E mem p slot c (Some (addr, page)) fl =
      (r, E', mem(addr \<mapsto> put_at 0 (new_code p) (take (next_multiple_of (length (new_code p)) PAGE_SIZE) page)), slot\<lparr>slot_ptr := addr\<rparr>) \<and>
    (r = Inr () \<or> (\<exists>e. r = Inl (WalError e))) \<and>
    (exec_wal E = None \<longrightarrow> r = Inr ()) \<and>
    (\<forall>w. exec_wal E = Some w \<longrightarrow> append_fault fl \<noteq> None \<longrightarrow> r = Inl (WalError IoError))"
  using assms
  by (auto simp: executor_apply_def allocate_page_def make_executable_def slot_store_def Let_def wal_append_def
      write_all_def split: option.splits sum.splits prod.splits)

section \<open>A history of calls\<close>

record apply_call =
  call_patch :: patch
  call_answer :: "(address \<times> bytes) option"
  call_faults :: log_faults

text \<open>The state the calls share: the executor, the pages and one slot.\<close>

type_synonym exec_state = "executor \<times> pages \<times> patch_slot"

definition apply_step :: "audit_rules \<Rightarrow> exec_state \<Rightarrow> apply_call \<Rightarrow> exec_state" where
  "apply_step c s a =
     (case s of (E, mem, slot) \<Rightarrow>
        snd (executor_apply E mem (call_patch a) slot c (call_answer a) (call_faults a)))"

text \<open>The allocator hands out addresses that are not in use.\<close>

definition fresh_answer :: "exec_state \<Rightarrow> address \<Rightarrow> apply_call \<Rightarrow> bool" where
  "fresh_answer s f0 a \<longleftrightarrow>
     (case call_answer a of None \<Rightarrow> True | Some (addr, page) \<Rightarrow> fst (snd s) addr = None \<and> addr \<noteq> f0)"

fun all_fresh :: "audit_rules \<Rightarrow> address \<Rightarrow> exec_state \<Rightarrow> apply_call list \<Rightarrow> bool" where
  "all_fresh c f0 s [] \<longleftrightarrow> True"
| "all_fresh c f0 s (a # as) \<longleftrightarrow> fresh_answer s f0 a \<and> all_fresh c f0 (apply_step c s a) as"

text \<open>
  The calls that swap the slot: those that got a page for a patch with a signature, a reason, an original hash that are
  not all zero, and with one to 65536 bytes of code.
\<close>

definition swaps :: "apply_call \<Rightarrow> bool" where
  "swaps a \<longleftrightarrow> signature (call_patch a) \<noteq> zeros 64 \<and> reason_hash (call_patch a) \<noteq> zeros 32 \<and>
     original_hash (call_patch a) \<noteq> zeros 32 \<and> new_code (call_patch a) \<noteq> [] \<and> length (new_code (call_patch a)) \<le> 65536 \<and>
     call_answer a \<noteq> None"

definition answer_address :: "apply_call \<Rightarrow> address" where
  "answer_address a = fst (the (call_answer a))"

definition keeps_pages :: "pages \<Rightarrow> pages \<Rightarrow> bool" where
  "keeps_pages m m' \<longleftrightarrow> (\<forall>a page. m a = Some page \<longrightarrow> m' a = Some page)"

text \<open>A page that starts with the code of a call, followed by what the allocator handed out.\<close>

definition holds_code :: "pages \<Rightarrow> apply_call \<Rightarrow> bool" where
  "holds_code m a \<longleftrightarrow> (\<exists>rest. m (answer_address a) = Some (new_code (call_patch a) @ rest))"

lemma keeps_pages_trans: "keeps_pages m m' \<Longrightarrow> keeps_pages m' m'' \<Longrightarrow> keeps_pages m m''"
  by (simp add: keeps_pages_def)

lemma holds_code_kept: "keeps_pages m m' \<Longrightarrow> holds_code m a \<Longrightarrow> holds_code m' a"
  by (auto simp: keeps_pages_def holds_code_def)

lemma step_skips: "\<not> swaps a \<Longrightarrow> snd (apply_step c s a) = snd s"
proof -
  assume n: "\<not> swaps a"
  obtain E mem slot where s: "s = (E, mem, slot)" by (cases s)
  show ?thesis
  proof (cases "patch_verify (call_patch a) c")
    case (Inl e)
    then show ?thesis by (simp add: s apply_step_def apply_rejected)
  next
    case (Inr u)
    then have v: "patch_verify (call_patch a) c = Inr ()" by simp
    then have "call_answer a = None" using n unfolding swaps_def verify_Inr by blast
    then show ?thesis using v by (simp add: s apply_step_def apply_no_page)
  qed
qed

lemma step_swaps:
  assumes "swaps a" "fresh_answer s f0 a"
  shows "slot_load (snd (snd (apply_step c s a))) = answer_address a" "holds_code (fst (snd (apply_step c s a))) a"
    "keeps_pages (fst (snd s)) (fst (snd (apply_step c s a)))"
proof -
  obtain E mem slot where s: "s = (E, mem, slot)" by (cases s)
  obtain addr page where ap: "call_answer a = Some (addr, page)" using assms(1) by (auto simp: swaps_def)
  have v: "patch_verify (call_patch a) c = Inr ()" using assms(1) by (simp add: swaps_def verify_Inr)
  have new: "mem addr = None" using assms(2) ap by (simp add: s fresh_answer_def)
  obtain r E' where "executor_apply E mem (call_patch a) slot c (call_answer a) (call_faults a) =
      (r, E', mem(addr \<mapsto> put_at 0 (new_code (call_patch a))
        (take (next_multiple_of (length (new_code (call_patch a))) PAGE_SIZE) page)), slot\<lparr>slot_ptr := addr\<rparr>)"
    using apply_swaps [OF v, of E mem slot addr page "call_faults a"] ap by auto
  then show "slot_load (snd (snd (apply_step c s a))) = answer_address a" "holds_code (fst (snd (apply_step c s a))) a"
    "keeps_pages (fst (snd s)) (fst (snd (apply_step c s a)))"
    using new by (auto simp: s apply_step_def slot_load_def answer_address_def ap holds_code_def put_at_def keeps_pages_def)
qed

text \<open>What every history keeps, from any state.\<close>

lemma apply_history:
  assumes "all_fresh c f0 s as"
  shows "keeps_pages (fst (snd s)) (fst (snd (foldl (apply_step c) s as)))"
    and "a \<in> set (filter swaps as) \<Longrightarrow> holds_code (fst (snd (foldl (apply_step c) s as))) a"
    and "slot_load (snd (snd (foldl (apply_step c) s as))) =
      (if filter swaps as = [] then slot_load (snd (snd s)) else answer_address (last (filter swaps as)))"
  using assms
proof (induction as arbitrary: s)
  case Nil
  { case 1 show ?case by (simp add: keeps_pages_def) }
  { case 2 then show ?case by simp }
  { case 3 show ?case by simp }
next
  case (Cons b as)
  { case 1
    define t where "t = apply_step c s b"
    have split: "foldl (apply_step c) s (b # as) = foldl (apply_step c) t as" by (simp add: t_def)
    from 1 have "all_fresh c f0 t as" "fresh_answer s f0 b" by (simp_all add: t_def)
    then show ?case
      using Cons.IH(1) [of t] step_skips [of b c s] step_swaps(3) [of b s f0 c] keeps_pages_trans
      unfolding split by (cases "swaps b") (auto simp: t_def) }
  { case 2
    define t where "t = apply_step c s b"
    have split: "foldl (apply_step c) s (b # as) = foldl (apply_step c) t as" by (simp add: t_def)
    from 2(2) have f: "all_fresh c f0 t as" "fresh_answer s f0 b" by (simp_all add: t_def)
    show ?case
    proof (cases "a \<in> set (filter swaps as)")
      case True
      then show ?thesis using Cons.IH(2) [of t] f(1) unfolding split by blast
    next
      case False
      then have "a = b" "swaps b" using 2(1) by (auto split: if_splits)
      then have "holds_code (fst (snd t)) a" using step_swaps(2) [OF _ f(2)] by (simp add: t_def)
      then show ?thesis unfolding split by (rule holds_code_kept [OF Cons.IH(1) [OF f(1)]])
    qed }
  { case 3
    define t where "t = apply_step c s b"
    have split: "foldl (apply_step c) s (b # as) = foldl (apply_step c) t as" by (simp add: t_def)
    from 3 have f: "all_fresh c f0 t as" "fresh_answer s f0 b" by (simp_all add: t_def)
    show ?case
      using Cons.IH(3) [OF f(1)] step_skips [of b c s] step_swaps(1) [OF _ f(2), of c]
      unfolding split by (cases "swaps b") (auto simp: t_def) }
qed

section \<open>Properties\<close>

text \<open>
  A patch that fails the check or finds no page leaves the executor, the pages, the log and the
  slot as they were. A patch that passes is written to the new page and the slot points to it,
  also when the call then reports a log error: the mutation stands although its witness in the log
  is missing. Without a log the call succeeds.
\<close>

theorem executor_apply_outcome:
  "(case patch_verify p c of
      Inl e \<Rightarrow> executor_apply E mem p slot c ans fl = (Inl e, E, mem, slot)
    | Inr _ \<Rightarrow>
        (case ans of
           None \<Rightarrow> executor_apply E mem p slot c ans fl = (Inl AllocationFailed, E, mem, slot)
         | Some (addr, page) \<Rightarrow>
             (\<exists>r E' mem'. executor_apply E mem p slot c ans fl = (r, E', mem', slot\<lparr>slot_ptr := addr\<rparr>) \<and>
                map_option (take (length (new_code p))) (mem' addr) = Some (new_code p) \<and>
                (\<forall>a. a \<noteq> addr \<longrightarrow> mem' a = mem a) \<and>
                (exec_wal E = None \<longrightarrow> r = Inr ()) \<and>
                (exec_wal E \<noteq> None \<longrightarrow> append_fault fl \<noteq> None \<longrightarrow> r = Inl (WalError IoError)))))"
proof (cases "patch_verify p c")
  case (Inl e)
  then show ?thesis by (simp add: apply_rejected)
next
  case (Inr u)
  then have v: "patch_verify p c = Inr ()" by simp
  show ?thesis
  proof (cases ans)
    case (Some ap)
    obtain addr page where ap: "ap = (addr, page)" by (cases ap)
    show ?thesis
      using apply_swaps [OF v, of E mem slot addr page fl] v Some ap put_code by (fastforce split: option.splits)
  qed (use v in \<open>simp add: apply_no_page\<close>)
qed

theorem executor_apply_outcome_witness:
  "\<exists>E' mem'. executor_apply (with_wal executor_new \<lparr>wal_file = \<lparr>contents = wal_header, cursor = 256, append_mode = False\<rparr>, monotonic = 1\<rparr>)
     (\<lambda>a. None)
     \<lparr>target_slot = 1, original_hash = replicate 32 1, new_code = [7], signature = replicate 64 1, reason_hash = replicate 32 1, patch_timestamp = 0\<rparr>
     (patch_slot_new 0 ''f'' 10) constitution (Some (99, zeros 4096))
     \<lparr>append_fault = Some 3, sync_fault = None, sync_fails = False\<rparr> =
     (Inl (WalError IoError), E', mem', patch_slot_new 0 ''f'' 99)"
proof -
  let ?p = "\<lparr>target_slot = 1, original_hash = replicate 32 1, new_code = [7], signature = replicate 64 1,
      reason_hash = replicate 32 1, patch_timestamp = 0\<rparr> :: patch"
  have "replicate 64 1 \<noteq> zeros 64" "replicate 32 1 \<noteq> zeros 32" by (simp_all add: zeros_def)
  then have "patch_verify ?p constitution = Inr ()" by (simp add: verify_Inr)
  then show ?thesis
    using executor_apply_outcome [where p = ?p and c = constitution
        and E = "with_wal executor_new \<lparr>wal_file = \<lparr>contents = wal_header, cursor = 256, append_mode = False\<rparr>, monotonic = 1\<rparr>"
        and mem = "\<lambda>a. None" and slot = "patch_slot_new 0 ''f'' 10" and ans = "Some (99, zeros 4096)"
        and fl = "\<lparr>append_fault = Some 3, sync_fault = None, sync_fails = False\<rparr>"]
    by (auto simp: patch_slot_new_def with_wal_def)
qed

text \<open>
  C13: a call swaps the slot exactly when its patch has a signature, a reason and an original hash that are not all zero,
  has one to 65536 bytes of code, and the allocator answers. Over any history of calls with an allocator that hands out
  unused addresses, the slot points to the original function until the first such call and then to the page
  of the last one; the page of every such call starts with the complete code of its patch, and no page is ever
  overwritten or freed, so a thread that loaded an older pointer still runs intact code.
\<close>

theorem executor_slot_runs_verified_code:
  assumes "all_fresh c f0 (E, mem, patch_slot_new i n f0) as"
  defines "S \<equiv> foldl (apply_step c) (E, mem, patch_slot_new i n f0) as"
    and "swapping \<equiv> filter (\<lambda>a. signature (call_patch a) \<noteq> zeros 64 \<and> reason_hash (call_patch a) \<noteq> zeros 32 \<and>
       original_hash (call_patch a) \<noteq> zeros 32 \<and> new_code (call_patch a) \<noteq> [] \<and> length (new_code (call_patch a)) \<le> 65536 \<and>
       call_answer a \<noteq> None) as"
  shows "slot_load (snd (snd S)) = (if swapping = [] then f0 else fst (the (call_answer (last swapping)))) \<and>
     (\<forall>a \<in> set swapping. \<exists>rest. fst (snd S) (fst (the (call_answer a))) = Some (new_code (call_patch a) @ rest)) \<and>
     (\<forall>x page. mem x = Some page \<longrightarrow> fst (snd S) x = Some page)"
proof -
  have d: "swapping = filter swaps as" unfolding swapping_def swaps_def [abs_def] ..
  note h = apply_history [OF assms(1), folded S_def]
  show ?thesis
    using h(1) h(2) h(3) unfolding d
    by (auto simp: keeps_pages_def holds_code_def answer_address_def slot_load_def patch_slot_new_def)
qed

theorem executor_slot_runs_verified_code_witness:
  "\<exists>E mem slot rest. foldl (apply_step constitution) (executor_new, \<lambda>a. None, patch_slot_new 0 ''f'' 10)
     [\<lparr>call_patch = \<lparr>target_slot = 0, original_hash = replicate 32 1, new_code = [7, 8], signature = replicate 64 1,
        reason_hash = replicate 32 1, patch_timestamp = 0\<rparr>,
       call_answer = Some (99, zeros 4096),
       call_faults = \<lparr>append_fault = None, sync_fault = None, sync_fails = False\<rparr>\<rparr>] = (E, mem, slot) \<and>
     slot_load slot = 99 \<and> mem 99 = Some ([7, 8] @ rest)"
proof -
  define a where "a = \<lparr>call_patch = \<lparr>target_slot = 0, original_hash = replicate 32 1, new_code = [7, 8], signature = replicate 64 1,
        reason_hash = replicate 32 1, patch_timestamp = 0\<rparr>,
       call_answer = Some (99, zeros 4096),
       call_faults = \<lparr>append_fault = None, sync_fault = None, sync_fails = False\<rparr>\<rparr>"
  have z: "replicate 64 1 \<noteq> zeros 64" "replicate 32 1 \<noteq> zeros 32" by (simp_all add: zeros_def)
  have "all_fresh constitution 10 (executor_new, \<lambda>a. None, patch_slot_new 0 ''f'' 10) [a]"
    by (simp add: fresh_answer_def a_def)
  from executor_slot_runs_verified_code [OF this] show ?thesis
    unfolding a_def [symmetric] by (cases "foldl (apply_step constitution) (executor_new, \<lambda>a. None, patch_slot_new 0 ''f'' 10) [a]")
      (auto simp: a_def z)
qed

text \<open>
  The check never looks at the content of the signature, at the target slot or at the code the slot
  runs: any other non-zero signature, any other target slot and any other non-zero original hash is
  accepted for the same code, and for any slot.
\<close>

theorem executor_check_ignores_signature_and_target:
  assumes "patch_verify p c = Inr ()" and "g \<noteq> zeros 64" and "h \<noteq> zeros 32"
  shows "patch_verify (p\<lparr>signature := g, target_slot := t, original_hash := h\<rparr>) c = Inr () \<and>
     slot_load (snd (snd (snd (executor_apply E mem (p\<lparr>signature := g, target_slot := t, original_hash := h\<rparr>)
       slot c (Some (addr, page)) fl)))) = addr"
proof -
  let ?q = "p\<lparr>signature := g, target_slot := t, original_hash := h\<rparr>"
  have "patch_verify ?q c = Inr ()" using assms by (simp add: verify_Inr)
  then show ?thesis using apply_swaps [of ?q c E mem slot addr page fl] by (auto simp: slot_load_def)
qed

theorem executor_check_ignores_signature_and_target_witness:
  "patch_verify (\<lparr>target_slot = 0, original_hash = replicate 32 1, new_code = [7], signature = replicate 64 1,
     reason_hash = replicate 32 1, patch_timestamp = 0\<rparr>\<lparr>signature := replicate 64 9, target_slot := 5, original_hash := replicate 32 2\<rparr>)
     constitution = Inr ()"
proof -
  have z: "replicate 64 1 \<noteq> zeros 64" "replicate 64 9 \<noteq> zeros 64" "replicate 32 1 \<noteq> zeros 32" "replicate 32 2 \<noteq> zeros 32"
    by (simp_all add: zeros_def)
  show ?thesis
    by (rule executor_check_ignores_signature_and_target [THEN conjunct1]) (simp_all add: verify_Inr z)
qed

end
