(* ===== verification/Subconscious.thy ===== *)
theory Subconscious
  imports Nexo_Prelude
begin

text \<open>
  The vector store of \<^verbatim>\<open>nexoia-core/supervisor/src/subconscious.rs\<close>: the vector file with its
  page-sized header, the offset file, insertion, lookup by identifier and reopening. An \<^verbatim>\<open>f32\<close> is
  its bit pattern, stored little-endian; the similarity functions and the search that uses them
  are not modelled (they need the transcendental and square-root functions of \<^verbatim>\<open>f32\<close>).
\<close>

section \<open>Vectors\<close>

abbreviation VECTOR_DIM :: nat where "VECTOR_DIM \<equiv> 768"
abbreviation HNSW_PAGE_SIZE :: nat where "HNSW_PAGE_SIZE \<equiv> 4096"

type_synonym f32 = "32 word"
type_synonym vec = "f32 list"

definition VECTORS_MAGIC :: bytes where
  "VECTORS_MAGIC = [0x4E, 0x56, 0x45, 0x43, 0x54, 0x00, 0x01, 0x00]"

definition vec_bytes :: "vec \<Rightarrow> bytes" where
  "vec_bytes v = concat (map (\<lambda>w. le_bytes 4 (unat w)) v)"

definition vec_of_bytes :: "bytes \<Rightarrow> vec" where
  "vec_of_bytes bs = map (\<lambda>i. word_of_nat (nat_of_le (slice bs (4 * i) (4 * i + 4)))) [0..<VECTOR_DIM]"

section \<open>The store\<close>

record hnsw_store =
  vectors_file :: fs_file
  meta_file :: fs_file
  vec_count :: u64

text \<open>
  \<^verbatim>\<open>open\<close>: the contents of the two files (empty when they are created now) and the write fault of
  the header. The length of a non-empty file is taken as it is, and the subtraction of the header
  wraps as in the release profile.
\<close>

definition hnsw_open :: "bytes \<Rightarrow> bytes \<Rightarrow> nat option \<Rightarrow> io_error + hnsw_store" where
  "hnsw_open vdata mdata fault =
     (let vf = \<lparr>contents = vdata, cursor = 0, append_mode = False\<rparr>;
          mf = \<lparr>contents = mdata, cursor = 0, append_mode = False\<rparr>
      in if length vdata = 0 then
           (case write_all vf (put_at 0 VECTORS_MAGIC (zeros HNSW_PAGE_SIZE)) fault of
              (Inl e, f) \<Rightarrow> Inl e
            | (Inr _, f) \<Rightarrow> Inr \<lparr>vectors_file = f, meta_file = mf, vec_count = 0\<rparr>)
         else
           Inr \<lparr>vectors_file = vf, meta_file = mf,
                vec_count = (word_of_nat (length vdata) - word_of_nat HNSW_PAGE_SIZE) div word_of_nat (VECTOR_DIM * 4)\<rparr>)"

definition hnsw_insert ::
  "hnsw_store \<Rightarrow> vec \<Rightarrow> nat option \<Rightarrow> nat option \<Rightarrow> (io_error + u64) \<times> hnsw_store" where
  "hnsw_insert S v vfault mfault =
     (let vid = vec_count S;
          pos = length (contents (vectors_file S));
          vf = seek_to (vectors_file S) pos
      in case write_all vf (vec_bytes v) vfault of
           (Inl e, f) \<Rightarrow> (Inl e, S\<lparr>vectors_file := f\<rparr>)
         | (Inr _, f) \<Rightarrow>
             let S = S\<lparr>vectors_file := f\<rparr>;
                 mf = seek_to (meta_file S) (length (contents (meta_file S)))
             in (case write_all mf (le_bytes 8 pos) mfault of
                   (Inl e, g) \<Rightarrow> (Inl e, S\<lparr>meta_file := g\<rparr>)
                 | (Inr _, g) \<Rightarrow> (Inr vid, S\<lparr>meta_file := g, vec_count := vec_count S + 1\<rparr>)))"

definition get_vector :: "hnsw_store \<Rightarrow> nat \<Rightarrow> io_error + vec" where
  "get_vector S i =
     (let offset = HNSW_PAGE_SIZE + i * (VECTOR_DIM * 4); data = contents (vectors_file S)
      in if offset + VECTOR_DIM * 4 \<le> length data then Inr (vec_of_bytes (slice data offset (offset + VECTOR_DIM * 4)))
         else Inl UnexpectedEof)"

definition hnsw_len :: "hnsw_store \<Rightarrow> u64" where
  "hnsw_len S = vec_count S"

definition hnsw_is_empty :: "hnsw_store \<Rightarrow> bool" where
  "hnsw_is_empty S \<longleftrightarrow> vec_count S = 0"

section \<open>Facts\<close>

lemma length_vec_bytes [simp]: "length (vec_bytes v) = 4 * length v"
  by (induction v) (simp_all add: vec_bytes_def)

lemma vec_bytes_slice: "i < length v \<Longrightarrow> slice (vec_bytes v) (4 * i) (4 * i + 4) = le_bytes 4 (unat (v ! i))"
proof (induction v arbitrary: i)
  case (Cons w v)
  have b: "vec_bytes (w # v) = le_bytes 4 (unat w) @ vec_bytes v" by (simp add: vec_bytes_def)
  show ?case
  proof (cases i)
    case (Suc j)
    then show ?thesis
      using Cons slice_append_right [of "le_bytes 4 (unat w)" "4 * i" "vec_bytes v" "4 * i + 4"]
      by (simp add: b add.commute)
  qed (simp add: b slice_def)
qed simp

lemma f32_roundtrip: "word_of_nat (nat_of_le (le_bytes 4 (unat (w :: f32)))) = w"
proof -
  have "unat w < 2 ^ 32" using unsigned_less [of w] by simp
  then have "unat w mod 256 ^ 4 = unat w" by simp
  then show ?thesis by (simp add: nat_of_le_le_bytes)
qed

lemma vec_roundtrip: "length v = 768 \<Longrightarrow> vec_of_bytes (vec_bytes v) = v"
  by (rule nth_equalityI) (simp_all add: vec_of_bytes_def vec_bytes_slice f32_roundtrip)

lemma concat_chunk:
  "\<forall>x \<in> set xs. length x = k \<Longrightarrow> i < length xs \<Longrightarrow> slice (concat xs) (i * k) (i * k + k) = xs ! i"
proof (induction xs arbitrary: i)
  case (Cons x xs)
  show ?case
  proof (cases i)
    case 0
    then show ?thesis using Cons.prems by (simp add: slice_def)
  next
    case (Suc j)
    then show ?thesis
      using Cons slice_append_right [of x "i * k" "concat xs" "i * k + k"] by (simp add: add.commute)
  qed
qed simp

definition hnsw_header :: bytes where
  "hnsw_header = put_at 0 VECTORS_MAGIC (zeros HNSW_PAGE_SIZE)"

lemma length_hnsw_header [simp]: "length hnsw_header = 4096"
  by (simp add: hnsw_header_def VECTORS_MAGIC_def)

text \<open>A store that holds a list of vectors.\<close>

definition vec_ok :: "vec \<Rightarrow> bool" where
  "vec_ok v \<longleftrightarrow> length v = 768"

definition store_view :: "vec list \<Rightarrow> hnsw_store \<Rightarrow> bool" where
  "store_view vs S \<longleftrightarrow>
     (\<exists>h. length h = 4096 \<and> contents (vectors_file S) = h @ concat (map vec_bytes vs)) \<and>
     \<not> append_mode (vectors_file S) \<and> vec_count S = word_of_nat (length vs) \<and> list_all vec_ok vs"

lemma insert_view:
  assumes "store_view vs S" "vec_ok v"
  shows "store_view (vs @ [v]) (snd (hnsw_insert S v None None))"
    and "fst (hnsw_insert S v None None) = Inr (word_of_nat (length vs))"
proof -
  have w: "write_pos (seek_to (vectors_file S) (length (contents (vectors_file S)))) = length (contents (vectors_file S))"
    using assms(1) by (simp add: store_view_def write_pos_def seek_to_def)
  then show "store_view (vs @ [v]) (snd (hnsw_insert S v None None))"
    "fst (hnsw_insert S v None None) = Inr (word_of_nat (length vs))"
    using assms write_bytes_at_end [of "seek_to (vectors_file S) (length (contents (vectors_file S)))"]
    by (auto simp: store_view_def hnsw_insert_def write_all_def Let_def seek_to_def)
qed

interpretation vec_acc: accumulator "\<lambda>S v. snd (hnsw_insert S v None None)" vec_ok store_view
  by unfold_locales (rule insert_view)

lemma length_vectors:
  "list_all vec_ok vs \<Longrightarrow> length (concat (map vec_bytes vs)) = 3072 * length vs"
  by (induction vs) (simp_all add: vec_ok_def)

lemma get_view:
  assumes "store_view vs S"
  shows "get_vector S i = (if i < length vs then Inr (vs ! i) else Inl UnexpectedEof)"
proof -
  obtain h where h: "length h = 4096" "contents (vectors_file S) = h @ concat (map vec_bytes vs)"
    and ok: "list_all vec_ok vs" using assms by (auto simp: store_view_def)
  have len: "length (contents (vectors_file S)) = 4096 + 3072 * length vs"
    using h length_vectors [OF ok] by simp
  have fits: "4096 + i * 3072 + 3072 \<le> 4096 + 3072 * length vs \<longleftrightarrow> i < length vs" by linarith
  show ?thesis
  proof (cases "i < length vs")
    case True
    have "slice (concat (map vec_bytes vs)) (i * 3072) (i * 3072 + 3072) = vec_bytes (vs ! i)"
      using concat_chunk [of "map vec_bytes vs" 3072 i] True ok by (simp add: list_all_iff vec_ok_def)
    then have "slice (contents (vectors_file S)) (4096 + i * 3072) (4096 + i * 3072 + 3072) = vec_bytes (vs ! i)"
      using h slice_append_right [of h "4096 + i * 3072" "concat (map vec_bytes vs)" "4096 + i * 3072 + 3072"]
      by (simp add: add.commute)
    moreover have "vec_of_bytes (vec_bytes (vs ! i)) = vs ! i"
      using ok True by (intro vec_roundtrip) (simp add: list_all_length vec_ok_def)
    ultimately show ?thesis using True fits len by (simp add: get_vector_def Let_def)
  next
    case False
    then show ?thesis using fits len by (simp add: get_vector_def Let_def)
  qed
qed

lemma open_fresh: "hnsw_open [] m None = Inr S \<Longrightarrow> store_view [] S"
  by (auto simp: hnsw_open_def write_all_def write_bytes_def write_pos_def put_at_def store_view_def
      VECTORS_MAGIC_def zeros_def Let_def intro!: exI [of _ hnsw_header] simp: hnsw_header_def)

lemma reopen_count:
  assumes "n < 2 ^ 50"
  shows "(word_of_nat (4096 + 3072 * n) - 4096) div 3072 = (word_of_nat n :: u64)"
proof -
  have "word_of_nat (4096 + 3072 * n) - 4096 = (word_of_nat (3072 * n) :: u64)" by simp
  moreover have "unat (word_of_nat (3072 * n) :: u64) = 3072 * n" using assms by (simp only: unat_of_nat) simp
  then have "unat ((word_of_nat (3072 * n) :: u64) div 3072) = n" by (simp add: unat_div_distrib)
  then have "(word_of_nat (3072 * n) :: u64) div 3072 = word_of_nat n" by (metis of_nat_unat ucast_id)
  ultimately show ?thesis by simp
qed

lemma reopen_view:
  assumes "store_view vs S" "length vs < 2 ^ 50"
  shows "\<exists>S'. hnsw_open (contents (vectors_file S)) m fault = Inr S' \<and> store_view vs S'"
proof -
  obtain h where h: "length h = 4096" "contents (vectors_file S) = h @ concat (map vec_bytes vs)"
    and ok: "list_all vec_ok vs" using assms by (auto simp: store_view_def)
  have len: "length (contents (vectors_file S)) = 4096 + 3072 * length vs"
    using h length_vectors [OF ok] by simp
  then have "contents (vectors_file S) \<noteq> []" by auto
  then show ?thesis
    using len h ok reopen_count [OF assms(2)] by (auto simp: hnsw_open_def store_view_def Let_def)
qed

section \<open>Properties\<close>

text \<open>
  Vectors inserted into a new store get the identifiers 0, 1, and so on, are read back unchanged, by
  this store and by a store reopened from its files, whose count is the number of vectors; an
  identifier beyond them is an end-of-file error.
\<close>

theorem hnsw_store_roundtrip:
  assumes "hnsw_open [] [] None = Inr S0" and "\<forall>v \<in> set vs. length v = 768" and "length vs < 2 ^ 50"
  shows "\<exists>S'. hnsw_open (contents (vectors_file (foldl (\<lambda>S v. snd (hnsw_insert S v None None)) S0 vs))) m None = Inr S' \<and>
     hnsw_len S' = word_of_nat (length vs) \<and>
     (\<forall>i. get_vector (foldl (\<lambda>S v. snd (hnsw_insert S v None None)) S0 vs) i =
            (if i < length vs then Inr (vs ! i) else Inl UnexpectedEof) \<and>
          get_vector S' i = (if i < length vs then Inr (vs ! i) else Inl UnexpectedEof))"
proof -
  define S where "S = foldl (\<lambda>S v. snd (hnsw_insert S v None None)) S0 vs"
  have "store_view ([] @ vs) S"
    unfolding S_def using open_fresh [OF assms(1)] assms(2) by (intro vec_acc.foldl_view) (auto simp: vec_ok_def)
  then have v: "store_view vs S" by simp
  obtain S' where S': "hnsw_open (contents (vectors_file S)) m None = Inr S'" "store_view vs S'"
    using reopen_view [OF v assms(3)] by blast
  then show ?thesis
    using get_view [OF v] get_view [OF S'(2)] unfolding S_def [symmetric]
    by (auto simp: store_view_def hnsw_len_def)
qed

theorem hnsw_store_roundtrip_witness:
  "\<exists>S0. hnsw_open [] [] None = Inr S0 \<and>
     get_vector (foldl (\<lambda>S v. snd (hnsw_insert S v None None)) S0 [replicate 768 1, replicate 768 2]) 1 =
       Inr (replicate 768 2)"
proof -
  obtain S0 where S0: "hnsw_open [] [] None = Inr S0" by (simp add: hnsw_open_def write_all_def Let_def)
  show ?thesis
    using hnsw_store_roundtrip [OF S0, of "[replicate 768 1, replicate 768 2]" "[]"] S0 by auto
qed

text \<open>
  An insertion whose write fails halfway leaves its bytes in the file and the count unchanged: the
  next vector is appended behind them while lookups still compute its place from the count, so the
  identifier returned for it does not read it back when the leftover bytes differ from its own.
\<close>

theorem hnsw_torn_insert_shifts:
  assumes "hnsw_open [] [] None = Inr S0" and "length u = 768" and "length v = 768"
    and "hd u \<noteq> hd v"
  shows "\<exists>S1 S2. hnsw_insert S0 u (Some 4) None = (Inl IoError, S1) \<and> hnsw_insert S1 v None None = (Inr 0, S2) \<and>
     (\<exists>w. get_vector S2 0 = Inr w \<and> w \<noteq> v)"
proof -
  note v0 = open_fresh [OF assms(1)]
  obtain h where h: "length h = 4096" "contents (vectors_file S0) = h" "vec_count S0 = 0"
    "\<not> append_mode (vectors_file S0)" using v0 by (auto simp: store_view_def)
  define S1 where "S1 = snd (hnsw_insert S0 u (Some 4) None)"
  have c1: "contents (vectors_file S1) = h @ take 4 (vec_bytes u)" "vec_count S1 = 0" "\<not> append_mode (vectors_file S1)"
    using h write_bytes_at_end [of "seek_to (vectors_file S0) (length (contents (vectors_file S0)))"]
    by (simp_all add: S1_def hnsw_insert_def write_all_def Let_def seek_to_def write_pos_def)
  have r1: "hnsw_insert S0 u (Some 4) None = (Inl IoError, S1)"
    by (simp add: S1_def hnsw_insert_def write_all_def Let_def)
  define S2 where "S2 = snd (hnsw_insert S1 v None None)"
  have c2: "contents (vectors_file S2) = h @ take 4 (vec_bytes u) @ vec_bytes v"
    using c1 write_bytes_at_end [of "seek_to (vectors_file S1) (length (contents (vectors_file S1)))"]
    by (simp add: S2_def hnsw_insert_def write_all_def Let_def seek_to_def write_pos_def)
  have r2: "hnsw_insert S1 v None None = (Inr 0, S2)"
    using c1 by (simp add: S2_def hnsw_insert_def write_all_def Let_def)
  obtain x us y ws where xs: "u = x # us" "v = y # ws"
    using assms(2,3) by (cases u; cases v) auto
  have t: "take 4 (vec_bytes u) = le_bytes 4 (unat x)" by (simp add: xs vec_bytes_def)
  define bs where "bs = slice (contents (vectors_file S2)) 4096 7168"
  have g: "get_vector S2 0 = Inr (vec_of_bytes bs)"
    using h assms(2,3) by (simp add: get_vector_def Let_def c2 bs_def)
  have "slice bs 0 4 = le_bytes 4 (unat x)"
    using h by (simp add: bs_def c2 t slice_def)
  then have "vec_of_bytes bs ! 0 = x" by (simp add: vec_of_bytes_def f32_roundtrip)
  then have "vec_of_bytes bs \<noteq> v" using assms(4) xs by auto
  then show ?thesis using r1 r2 g by blast
qed

theorem hnsw_torn_insert_shifts_witness:
  "\<exists>S0 S1 S2 w. hnsw_open [] [] None = Inr S0 \<and> hnsw_insert S0 (replicate 768 1) (Some 4) None = (Inl IoError, S1) \<and>
     hnsw_insert S1 (replicate 768 2) None None = (Inr 0, S2) \<and> get_vector S2 0 = Inr w \<and> w \<noteq> replicate 768 2"
proof -
  obtain S0 where S0: "hnsw_open [] [] None = Inr S0" by (simp add: hnsw_open_def write_all_def Let_def)
  have "hd (replicate 768 (1 :: f32)) \<noteq> hd (replicate 768 2)" by (simp add: hd_replicate)
  then show ?thesis
    using hnsw_torn_insert_shifts [OF S0, of "replicate 768 1" "replicate 768 2"] S0 by auto
qed

end
