(* ===== verification/Texts.thy ===== *)
theory Texts
  imports Nexo_Prelude
begin

text \<open>
  The functions on text of the Rust standard library that the host uses: white space, trimming, lines, lower
  case and decimal numbers. Strings are taken as ASCII.
\<close>

text \<open>\<^verbatim>\<open>str::trim\<close> and \<^verbatim>\<open>to_ascii_lowercase\<close>.\<close>

definition is_space :: "char \<Rightarrow> bool" where
  "is_space c \<longleftrightarrow> of_char c \<in> {9..13 :: nat} \<or> c = CHR '' ''"

definition trim :: "string \<Rightarrow> string" where
  "trim s = rev (dropWhile is_space (rev (dropWhile is_space s)))"

definition lower_char :: "char \<Rightarrow> char" where
  "lower_char c = (if of_char c \<in> {65..90 :: nat} then char_of (of_char c + 32 :: nat) else c)"

lemma trim_empty: "trim s = [] \<longleftrightarrow> (\<forall>c \<in> set s. is_space c)"
proof -
  have "(\<forall>c \<in> set (dropWhile is_space s). is_space c) \<longleftrightarrow> (\<forall>c \<in> set s. is_space c)"
    by (induction s) auto
  then show ?thesis by (simp add: trim_def)
qed

text \<open>\<^verbatim>\<open>BufRead::lines\<close>: no line after a final line feed; a carriage return before it is dropped.\<close>

definition strip_cr :: "string \<Rightarrow> string" where
  "strip_cr s = (if s \<noteq> [] \<and> last s = CHR 0x0D then butlast s else s)"

fun text_lines :: "string \<Rightarrow> string \<Rightarrow> string list" where
  "text_lines acc [] = (if acc = [] then [] else [acc])"
| "text_lines acc (c # cs) = (if c = CHR 0x0A then strip_cr acc # text_lines [] cs else text_lines (acc @ [c]) cs)"

lemma text_lines_line: "CHR 0x0A \<notin> set t \<Longrightarrow> text_lines acc (t @ [CHR 0x0A] @ rest) = strip_cr (acc @ t) # text_lines [] rest"
  by (induction t arbitrary: acc) auto

text \<open>Decimal text of an integer.\<close>

fun nat_text :: "nat \<Rightarrow> string" where
  "nat_text n = (if n < 10 then [char_of (48 + n)] else nat_text (n div 10) @ [char_of (48 + n mod 10)])"

definition int_text :: "int \<Rightarrow> string" where
  "int_text i = (if i < 0 then ''-'' @ nat_text (nat (- i)) else nat_text (nat i))"

definition text_nat :: "string \<Rightarrow> nat" where
  "text_nat s = foldl (\<lambda>n c. 10 * n + (of_char c - 48)) 0 s"

lemma digit_char: "n < 10 \<Longrightarrow> of_char (char_of (48 + n) :: char) = (48 + n :: nat)"
  by simp

lemma text_nat_text: "text_nat (nat_text n) = n"
proof (induction n rule: nat_text.induct)
  case (1 n)
  show ?case
  proof (cases "n < 10")
    case True
    then show ?thesis by (simp add: text_nat_def digit_char)
  next
    case False
    have "n mod 10 < 10" by simp
    then have "text_nat (nat_text n) = 10 * text_nat (nat_text (n div 10)) + n mod 10"
      using False by (subst nat_text.simps) (simp add: text_nat_def digit_char del: nat_text.simps)
    then show ?thesis using 1 [OF False] by simp
  qed
qed

lemma inj_nat_text: "nat_text m = nat_text n \<longleftrightarrow> m = n"
  by (metis text_nat_text)

end
