(* ===== verification/Strength.thy ===== *)
theory Strength
  imports Texts
begin

text \<open>
  Evidence strengths and typed provenance nodes: \<^verbatim>\<open>types.rs\<close>, \<^verbatim>\<open>provenance/typed_node.rs\<close>,
  \<^verbatim>\<open>provenance/compose.rs\<close>, \<^verbatim>\<open>provenance/witness.rs\<close> and \<^verbatim>\<open>quality.rs\<close> under
  \<^verbatim>\<open>crates/host/src\<close>. The marker of a Rust node is a type parameter; here it is a field, so that
  one definition covers every instance. A version-5 UUID is a parameter \<open>v5\<close> (a hash of a
  namespace and a name), and so is the hash of \<^verbatim>\<open>hash.rs\<close>. Strings are taken as ASCII.
\<close>

section \<open>Strengths\<close>

datatype evidence_strength = Unverifiable | Local | Witnessed | Signed | Anchored

fun strength_rank :: "evidence_strength \<Rightarrow> nat" where
  "strength_rank Unverifiable = 0"
| "strength_rank Local = 1"
| "strength_rank Witnessed = 2"
| "strength_rank Signed = 3"
| "strength_rank Anchored = 4"

lemma strength_rank_inj [simp]: "strength_rank a = strength_rank b \<longleftrightarrow> a = b"
  by (cases a; cases b) simp_all

text \<open>The derived order of the enumeration.\<close>

instantiation evidence_strength :: linorder
begin

definition less_eq_evidence_strength :: "evidence_strength \<Rightarrow> evidence_strength \<Rightarrow> bool" where
  "less_eq_evidence_strength a b \<longleftrightarrow> strength_rank a \<le> strength_rank b"

definition less_evidence_strength :: "evidence_strength \<Rightarrow> evidence_strength \<Rightarrow> bool" where
  "less_evidence_strength a b \<longleftrightarrow> strength_rank a < strength_rank b"

instance
  by standard (auto simp: less_eq_evidence_strength_def less_evidence_strength_def)

end

lemmas strength_order = less_eq_evidence_strength_def less_evidence_strength_def

lemma Unverifiable_least [simp]: "Unverifiable \<le> s"
  by (simp add: strength_order)

lemma Anchored_greatest [simp]: "s \<le> Anchored"
  by (cases s) (simp_all add: strength_order)

lemma Anchored_le [simp]: "Anchored \<le> s \<longleftrightarrow> s = Anchored"
  by (metis Anchored_greatest order.antisym order_refl)

fun strength_name :: "evidence_strength \<Rightarrow> string" where
  "strength_name Unverifiable = ''UNVERIFIABLE''"
| "strength_name Local = ''LOCAL''"
| "strength_name Witnessed = ''WITNESSED''"
| "strength_name Signed = ''SIGNED''"
| "strength_name Anchored = ''ANCHORED''"

text \<open>The table of implementations of \<^verbatim>\<open>MinStrength\<close>, row by row.\<close>

fun min_strength :: "evidence_strength \<Rightarrow> evidence_strength \<Rightarrow> evidence_strength" where
  "min_strength Unverifiable Unverifiable = Unverifiable"
| "min_strength Unverifiable Local = Unverifiable"
| "min_strength Unverifiable Witnessed = Unverifiable"
| "min_strength Unverifiable Signed = Unverifiable"
| "min_strength Unverifiable Anchored = Unverifiable"
| "min_strength Local Unverifiable = Unverifiable"
| "min_strength Local Local = Local"
| "min_strength Local Witnessed = Local"
| "min_strength Local Signed = Local"
| "min_strength Local Anchored = Local"
| "min_strength Witnessed Unverifiable = Unverifiable"
| "min_strength Witnessed Local = Local"
| "min_strength Witnessed Witnessed = Witnessed"
| "min_strength Witnessed Signed = Witnessed"
| "min_strength Witnessed Anchored = Witnessed"
| "min_strength Signed Unverifiable = Unverifiable"
| "min_strength Signed Local = Local"
| "min_strength Signed Witnessed = Witnessed"
| "min_strength Signed Signed = Signed"
| "min_strength Signed Anchored = Signed"
| "min_strength Anchored Unverifiable = Unverifiable"
| "min_strength Anchored Local = Local"
| "min_strength Anchored Witnessed = Witnessed"
| "min_strength Anchored Signed = Signed"
| "min_strength Anchored Anchored = Anchored"

lemma min_strength_min [simp]: "min_strength a b = min a b"
  by (cases a; cases b) (simp_all add: min_def strength_order)

section \<open>Typed nodes\<close>

type_synonym uuid = "128 word"

text \<open>\<^verbatim>\<open>Uuid::as_bytes\<close>: most significant byte first.\<close>

definition uuid_bytes :: "uuid \<Rightarrow> bytes" where
  "uuid_bytes u = rev (le_bytes 16 (unat u))"

record 'a typed_node =
  tn_id :: uuid
  tn_value :: 'a
  tn_strength :: evidence_strength

datatype downcast_error = StrengthTooLow | WrongNodeId

text \<open>The two conversions to \<^verbatim>\<open>Witnessed\<close>, from \<^verbatim>\<open>Signed\<close> and from \<^verbatim>\<open>Anchored\<close>.\<close>

definition into_witnessed :: "'a typed_node \<Rightarrow> 'a typed_node" where
  "into_witnessed n = \<lparr>tn_id = tn_id n, tn_value = tn_value n, tn_strength = Witnessed\<rparr>"

definition try_into_anchored :: "'a typed_node \<Rightarrow> uuid option \<Rightarrow> downcast_error + 'a typed_node" where
  "try_into_anchored n witness =
     (case witness of
        None \<Rightarrow> Inl StrengthTooLow
      | Some w \<Rightarrow>
          if w \<noteq> tn_id n then Inl WrongNodeId
          else Inr \<lparr>tn_id = tn_id n, tn_value = tn_value n, tn_strength = Anchored\<rparr>)"

definition derive_impl ::
  "(uuid \<Rightarrow> bytes \<Rightarrow> uuid) \<Rightarrow> 'a typed_node \<Rightarrow> 'b typed_node \<Rightarrow> ('a \<Rightarrow> 'b \<Rightarrow> 'c) \<Rightarrow> 'c typed_node" where
  "derive_impl v5 left right f =
     \<lparr>tn_id = v5 (tn_id left) (uuid_bytes (tn_id right)), tn_value = f (tn_value left) (tn_value right),
      tn_strength = min_strength (tn_strength left) (tn_strength right)\<rparr>"

lemma derive_simps [simp]:
  "tn_id (derive_impl v5 l r f) = v5 (tn_id l) (uuid_bytes (tn_id r))"
  "tn_value (derive_impl v5 l r f) = f (tn_value l) (tn_value r)"
  "tn_strength (derive_impl v5 l r f) = min (tn_strength l) (tn_strength r)"
  by (simp_all add: derive_impl_def)

section \<open>Witnesses\<close>

datatype witness_kind = Cosigned | TimestampedByTrustedSource | CrossReferencedInExternalLedger

record witness =
  witness_id :: uuid
  witnessed_at :: int
  witness_kind :: witness_kind

type_synonym witness_set = "witness list"

definition witness_set_new :: witness_set where
  "witness_set_new = []"

definition add_witness :: "witness_set \<Rightarrow> witness \<Rightarrow> witness_set" where
  "add_witness ws w = ws @ [w]"

datatype insufficient_witnesses = NotEnoughWitnesses | DuplicateWitnessId | NoExternalReference

text \<open>The loop that inserts the identifiers into a set, stopping at the first repetition.\<close>

fun repeats :: "uuid set \<Rightarrow> witness list \<Rightarrow> bool" where
  "repeats seen [] = False"
| "repeats seen (w # ws) = (if witness_id w \<in> seen then True else repeats (insert (witness_id w) seen) ws)"

definition attest :: "witness_set \<Rightarrow> 'a typed_node \<Rightarrow> insufficient_witnesses + 'a typed_node" where
  "attest witnesses node =
     (if length witnesses < 2 then Inl NotEnoughWitnesses
      else if repeats {} witnesses then Inl DuplicateWitnessId
      else if \<not> list_ex (\<lambda>w. witness_kind w = CrossReferencedInExternalLedger) witnesses then Inl NoExternalReference
      else Inr \<lparr>tn_id = tn_id node, tn_value = tn_value node, tn_strength = Anchored\<rparr>)"

lemma repeats_iff: "repeats seen ws \<longleftrightarrow> \<not> (distinct (map witness_id ws) \<and> seen \<inter> witness_id ` set ws = {})"
  by (induction ws arbitrary: seen) auto

section \<open>Quality\<close>

definition evaluate_quality :: "string \<Rightarrow> string \<Rightarrow> evidence_strength" where
  "evaluate_quality evidence_hash kind =
     (let evidence_hash = trim evidence_hash; kind = map lower_char (trim kind)
      in if evidence_hash = [] then Unverifiable
         else if kind = ''anchored'' \<or> kind = ''external'' then Anchored
         else if kind = ''signed'' then Signed
         else if kind = ''witness'' \<or> kind = ''witnessed'' then Witnessed
         else if kind = ''local'' then Local
         else Unverifiable)"

record resolution_report =
  chosen_side :: string
  res_reason_code :: string
  res_message :: string
  left_strength :: evidence_strength
  right_strength :: evidence_strength
  resolution_hash :: string

definition resolve_quality_divergence ::
  "(string \<Rightarrow> string) \<Rightarrow> evidence_strength \<Rightarrow> evidence_strength \<Rightarrow> resolution_report" where
  "resolve_quality_divergence H left right =
     (let (side, reason, message) =
            (if right < left then
               (''left'', ''LEFT_STRONGER'',
                ''left side wins with '' @ strength_name left @ '' over right side '' @ strength_name right)
             else if left < right then
               (''right'', ''RIGHT_STRONGER'',
                ''right side wins with '' @ strength_name right @ '' over left side '' @ strength_name left)
             else (''tie'', ''EQUAL_STRENGTH'', ''both sides have the same strength: '' @ strength_name left))
      in \<lparr>chosen_side = side, res_reason_code = reason, res_message = message, left_strength = left,
          right_strength = right,
          resolution_hash = H (side @ ''|'' @ reason @ ''|'' @ message @ ''|'' @ strength_name left @ ''|'' @ strength_name right)\<rparr>)"

lemma report_strengths [simp]:
  "left_strength (resolve_quality_divergence H l r) = l"
  "right_strength (resolve_quality_divergence H l r) = r"
  by (simp_all add: resolve_quality_divergence_def Let_def split: prod.splits)

lemma report_side: "chosen_side (resolve_quality_divergence H l r) =
    (if r < l then ''left'' else if l < r then ''right'' else ''tie'')"
  by (simp add: resolve_quality_divergence_def Let_def)

text \<open>
  An attestation succeeds exactly with at least two witnesses of pairwise different identity one
  of which is an external reference; then the node keeps its identity and its value and becomes
  \<open>Anchored\<close>. Otherwise the first failing condition, in that order, is the error.
\<close>

lemma attest_outcome:
  "attest ws n =
     (if length ws < 2 then Inl NotEnoughWitnesses
      else if \<not> distinct (map witness_id ws) then Inl DuplicateWitnessId
      else if \<forall>w \<in> set ws. witness_kind w \<noteq> CrossReferencedInExternalLedger then Inl NoExternalReference
      else Inr (n\<lparr>tn_strength := Anchored\<rparr>))"
  by (simp add: attest_def repeats_iff list_ex_iff)

end
