(* ===== verification/Provenance_Chain.thy ===== *)
theory Provenance_Chain
  imports Strength "HOL-Library.AList"
begin

text \<open>
  Provenance chains, \<^verbatim>\<open>crates/host/src/provenance/aggregator.rs\<close>: references to parents, the walk from
  a node to its root, the strength of a chain, the index of derivations and the blinding of links.
  The hash of \<^verbatim>\<open>hash.rs\<close> is a parameter \<open>H\<close>.
\<close>

section \<open>References and nodes\<close>

datatype provenance_ref = Active string | Blinded string string

definition ref_blind :: "(string \<Rightarrow> string) \<Rightarrow> string \<Rightarrow> string \<Rightarrow> provenance_ref" where
  "ref_blind H original suppression =
     (let salt = H suppression; blinded = H (original @ '':'' @ salt) in Blinded blinded salt)"

fun is_blinded :: "provenance_ref \<Rightarrow> bool" where
  "is_blinded (Blinded b s) = True"
| "is_blinded (Active h) = False"

fun ref_str :: "provenance_ref \<Rightarrow> string" where
  "ref_str (Active h) = h"
| "ref_str (Blinded b s) = b"

record provenance_node =
  node_id :: string
  parent_ref :: "provenance_ref option"
  node_strength :: evidence_strength
  depth :: nat

record provenance_chain =
  chain_nodes :: "provenance_node list"
  chain_strength :: evidence_strength

section \<open>The walk\<close>

definition aggregate_chain_strength :: "provenance_node list \<Rightarrow> evidence_strength" where
  "aggregate_chain_strength ns =
     (case map node_strength ns of [] \<Rightarrow> Unverifiable | s # ss \<Rightarrow> fold min ss s)"

text \<open>The lookup table built from a slice: the last node with an identifier stays.\<close>

definition parent_lookup :: "provenance_node list \<Rightarrow> string \<Rightarrow> provenance_node option" where
  "parent_lookup ps = map_of (rev (map (\<lambda>n. (node_id n, n)) ps))"

lemma parent_lookup_Some:
  assumes "parent_lookup ps i = Some n"
  shows "n \<in> set ps" and "node_id n = i"
  using map_of_SomeD [OF assms [unfolded parent_lookup_def]] by auto

text \<open>
  The loop of \<^verbatim>\<open>walk_provenance_chain\<close>: the nodes seen and collected so far and the current node.
  It ends because every round but the last sees a new identifier of a finite set.
\<close>

function walk :: "provenance_node list \<Rightarrow> string list \<Rightarrow> provenance_node list \<Rightarrow> provenance_node \<Rightarrow> provenance_node list" where
  "walk ps seen acc cur =
     (if node_id cur \<in> set seen then acc
      else
        let seen = node_id cur # seen; acc = acc @ [cur]
        in case parent_ref cur of
             None \<Rightarrow> acc
           | Some r \<Rightarrow>
               (case parent_lookup ps (ref_str r) of None \<Rightarrow> acc | Some p \<Rightarrow> walk ps seen acc p))"
  by pat_completeness auto
termination
proof (relation "measure (\<lambda>(ps, seen, acc, cur). card (insert (node_id cur) (node_id ` set ps) - set seen))")
  fix ps :: "provenance_node list" and seen s :: "string list" and acc a :: "provenance_node list"
    and cur p :: provenance_node and r :: provenance_ref
  assume a: "node_id cur \<notin> set seen" "s = node_id cur # seen"
    "parent_lookup ps (ref_str r) = Some p"
  have "insert (node_id p) (node_id ` set ps) - set s \<subset> insert (node_id cur) (node_id ` set ps) - set seen"
    using a parent_lookup_Some [OF a(3)] by (auto intro: rev_image_eqI)
  then show "((ps, s, a, p), (ps, seen, acc, cur)) \<in> measure (\<lambda>(ps, seen, acc, cur).
      card (insert (node_id cur) (node_id ` set ps) - set seen))"
    by (simp add: psubset_card_mono)
qed simp

declare walk.simps [simp del]

definition walk_provenance_chain :: "provenance_node \<Rightarrow> provenance_node list \<Rightarrow> provenance_chain" where
  "walk_provenance_chain start parents =
     (let nodes = rev (walk parents [] [] start)
      in \<lparr>chain_nodes = nodes, chain_strength = aggregate_chain_strength nodes\<rparr>)"

section \<open>Blinding and the derivation index\<close>

text \<open>The new nodes and the number of links blinded.\<close>

definition blind_node :: "(string \<Rightarrow> string) \<Rightarrow> string \<Rightarrow> string \<Rightarrow> provenance_node \<Rightarrow> provenance_node" where
  "blind_node H target suppression n =
     (case parent_ref n of
        None \<Rightarrow> n
      | Some r \<Rightarrow> if ref_str r = target then n\<lparr>parent_ref := Some (ref_blind H (ref_str r) suppression)\<rparr> else n)"

fun blind_derivation_links ::
  "(string \<Rightarrow> string) \<Rightarrow> provenance_node list \<Rightarrow> string \<Rightarrow> string \<Rightarrow> provenance_node list \<times> nat" where
  "blind_derivation_links H [] target suppression = ([], 0)"
| "blind_derivation_links H (n # ns) target suppression =
     (let (ns', c) = blind_derivation_links H ns target suppression;
          hit = (case parent_ref n of None \<Rightarrow> False | Some r \<Rightarrow> ref_str r = target)
      in (blind_node H target suppression n # ns', if hit then c + 1 else c))"

type_synonym derivation_index = "(string \<times> string list) list"

definition index_new :: derivation_index where
  "index_new = []"

definition children_of :: "derivation_index \<Rightarrow> string \<Rightarrow> string list" where
  "children_of ix p = (case map_of ix p of None \<Rightarrow> [] | Some cs \<Rightarrow> cs)"

definition index_insert :: "derivation_index \<Rightarrow> string \<Rightarrow> string \<Rightarrow> derivation_index" where
  "index_insert ix p c = AList.update p (children_of ix p @ [c]) ix"

definition remove_parent :: "derivation_index \<Rightarrow> string \<Rightarrow> derivation_index" where
  "remove_parent ix p = AList.delete p ix"

definition index_len :: "derivation_index \<Rightarrow> nat" where
  "index_len ix = sum_list (map (\<lambda>e. length (snd e)) ix)"

definition index_is_empty :: "derivation_index \<Rightarrow> bool" where
  "index_is_empty ix \<longleftrightarrow> ix = []"

definition index_add_node :: "derivation_index \<Rightarrow> provenance_node \<Rightarrow> derivation_index" where
  "index_add_node ix n =
     (case parent_ref n of None \<Rightarrow> ix | Some r \<Rightarrow> index_insert ix (ref_str r) (node_id n))"

definition build_from_chain_refs :: "provenance_node list \<Rightarrow> derivation_index" where
  "build_from_chain_refs ns = foldl index_add_node index_new ns"

section \<open>What the walk collects\<close>

definition parent_of :: "provenance_node list \<Rightarrow> provenance_node \<Rightarrow> provenance_node option" where
  "parent_of ps n = (case parent_ref n of None \<Rightarrow> None | Some r \<Rightarrow> parent_lookup ps (ref_str r))"

lemma parent_of_Some: "parent_of ps n = Some p \<Longrightarrow> p \<in> set ps"
  by (auto simp: parent_of_def parent_lookup_Some split: option.splits)

lemma walk_step:
  "walk ps seen acc cur =
     (if node_id cur \<in> set seen then acc
      else case parent_of ps cur of
             None \<Rightarrow> acc @ [cur]
           | Some p \<Rightarrow> walk ps (node_id cur # seen) (acc @ [cur]) p)"
  by (subst walk.simps) (simp add: Let_def parent_of_def split: option.splits)

text \<open>A trail from a node upwards: each next node is the parent, and why it ends.\<close>

definition trail :: "provenance_node list \<Rightarrow> string set \<Rightarrow> provenance_node list \<Rightarrow> bool" where
  "trail ps seen ws \<longleftrightarrow> distinct (map node_id ws) \<and> node_id ` set ws \<inter> seen = {} \<and>
     successively (\<lambda>a b. parent_of ps a = Some b) ws \<and>
     (ws \<noteq> [] \<longrightarrow> (case parent_of ps (last ws) of None \<Rightarrow> True | Some p \<Rightarrow> node_id p \<in> seen \<union> node_id ` set ws))"

lemma walk_trail:
  "\<exists>ws. walk ps seen acc cur = acc @ ws \<and> trail ps (set seen) ws \<and>
     (ws = [] \<longleftrightarrow> node_id cur \<in> set seen) \<and> (ws \<noteq> [] \<longrightarrow> hd ws = cur) \<and> set ws \<subseteq> insert cur (set ps)"
proof (induction "card (insert (node_id cur) (node_id ` set ps) - set seen)" arbitrary: seen acc cur rule: less_induct)
  case less
  show ?case
  proof (cases "node_id cur \<in> set seen")
    case True
    then show ?thesis by (simp add: walk_step trail_def)
  next
    case new: False
    show ?thesis
    proof (cases "parent_of ps cur")
      case None
      then show ?thesis using new by (simp add: walk_step [of ps seen] trail_def)
    next
      case (Some p)
      have "insert (node_id p) (node_id ` set ps) - set (node_id cur # seen) \<subset>
          insert (node_id cur) (node_id ` set ps) - set seen"
        using new parent_of_Some [OF Some] by (auto intro: rev_image_eqI)
      from less [OF psubset_card_mono [OF _ this], of "acc @ [cur]"] obtain ws where
        ws: "walk ps (node_id cur # seen) (acc @ [cur]) p = acc @ cur # ws"
        "trail ps (set (node_id cur # seen)) ws" "ws = [] \<longleftrightarrow> node_id p \<in> set (node_id cur # seen)"
        "ws \<noteq> [] \<longrightarrow> hd ws = p" "set ws \<subseteq> insert p (set ps)" by auto
      have "trail ps (set seen) (cur # ws)"
        using ws(2-4) new Some by (auto simp: trail_def successively_Cons split: option.splits)
      then show ?thesis
        using ws new Some parent_of_Some [OF Some]
        by (intro exI [of _ "cur # ws"]) (auto simp: walk_step [of ps seen])
    qed
  qed
qed

lemma fold_min_Min: "fold min ss s = Min (insert s (set ss))" for s :: "'a :: linorder"
  by (metis Min.set_eq_fold list.simps(15))

lemma aggregate_Min: "ns \<noteq> [] \<Longrightarrow> aggregate_chain_strength ns = Min (node_strength ` set ns)"
  by (cases ns) (simp_all add: aggregate_chain_strength_def fold_min_Min)

section \<open>The derivation index\<close>

lemma children_insert: "children_of (index_insert ix p c) q = (if q = p then children_of ix p @ [c] else children_of ix q)"
  by (simp add: index_insert_def children_of_def update_conv')

lemma children_remove: "children_of (remove_parent ix p) q = (if q = p then [] else children_of ix q)"
  by (simp add: remove_parent_def children_of_def delete_conv')

text \<open>The children the index lists for an identifier are the nodes that refer to it, in order.\<close>

definition refers :: "string \<Rightarrow> provenance_node \<Rightarrow> bool" where
  "refers p n \<longleftrightarrow> (case parent_ref n of None \<Rightarrow> False | Some r \<Rightarrow> ref_str r = p)"

lemma index_add_node_children:
  "children_of (index_add_node ix n) p = children_of ix p @ map node_id (filter (refers p) [n])"
  by (simp add: index_add_node_def refers_def children_insert split: option.splits)

lemma build_children: "children_of (build_from_chain_refs ns) p = map node_id (filter (refers p) ns)"
proof -
  have "children_of (foldl index_add_node ix ns) p = children_of ix p @ map node_id (filter (refers p) ns)" for ix
    by (induction ns arbitrary: ix) (simp_all add: index_add_node_children)
  then show ?thesis by (simp add: build_from_chain_refs_def index_new_def children_of_def)
qed

section \<open>Blinding\<close>

lemma blind_links_fst: "fst (blind_derivation_links H ns t s) = map (blind_node H t s) ns"
  by (induction ns) (simp_all add: Let_def split_beta)

lemma blind_links_snd: "snd (blind_derivation_links H ns t s) = length (filter (refers t) ns)"
  by (induction ns) (simp_all add: Let_def split_beta refers_def)

lemma blind_node_fields [simp]:
  "node_id (blind_node H t s n) = node_id n"
  "node_strength (blind_node H t s n) = node_strength n"
  "depth (blind_node H t s n) = depth n"
  by (simp_all add: blind_node_def split: option.splits)

lemma blind_node_other: "\<not> refers t n \<Longrightarrow> blind_node H t s n = n"
  by (auto simp: blind_node_def refers_def split: option.splits)

definition blinded_id :: "(string \<Rightarrow> string) \<Rightarrow> string \<Rightarrow> string \<Rightarrow> string" where
  "blinded_id H t s = H (t @ '':'' @ H s)"

lemma blind_node_target:
  "refers t n \<Longrightarrow> parent_ref (blind_node H t s n) = Some (Blinded (blinded_id H t s) (H s))"
  by (auto simp: blind_node_def refers_def ref_blind_def blinded_id_def Let_def split: option.splits)

lemma parent_lookup_blind:
  "parent_lookup (map (blind_node H t s) ps) i = map_option (blind_node H t s) (parent_lookup ps i)"
proof -
  have "map_of (map (\<lambda>n. (node_id n, blind_node H t s n)) xs) i =
      map_option (blind_node H t s) (map_of (map (\<lambda>n. (node_id n, n)) xs) i)" for xs
    by (induction xs) auto
  from this [of "rev ps"] show ?thesis by (simp add: parent_lookup_def rev_map comp_def)
qed

lemma parent_of_blind:
  assumes "blinded_id H t s \<notin> node_id ` set ps"
  shows "parent_of (map (blind_node H t s) ps) (blind_node H t s n) =
    (if refers t n then None else map_option (blind_node H t s) (parent_of ps n))"
proof (cases "refers t n")
  case True
  have "parent_lookup ps (blinded_id H t s) = None"
    using assms parent_lookup_Some [of ps "blinded_id H t s"] by (cases "parent_lookup ps (blinded_id H t s)") force+
  then show ?thesis
    using True blind_node_target [OF True, of H s] by (simp add: parent_of_def parent_lookup_blind)
next
  case False
  then show ?thesis by (simp add: parent_of_def parent_lookup_blind blind_node_other split: option.splits)
qed

lemma walk_blind:
  assumes "blinded_id H t s \<notin> node_id ` set ps"
  shows "walk ps seen acc cur = acc @ ws \<Longrightarrow>
    \<exists>k. walk (map (blind_node H t s) ps) seen acc' (blind_node H t s cur) = acc' @ map (blind_node H t s) (take k ws) \<and>
       (ws \<noteq> [] \<longrightarrow> 0 < k) \<and> (\<forall>n \<in> set (tl (take k ws)). node_id n \<noteq> t)"
proof (induction ws arbitrary: seen acc acc' cur)
  case Nil
  have "walk ps seen acc cur \<noteq> acc" if "node_id cur \<notin> set seen"
    using walk_trail [of ps seen acc cur] that by auto
  with Nil show ?case by (auto simp: walk_step [of _ seen])
next
  case (Cons w ws)
  obtain vs where vs: "walk ps seen acc cur = acc @ vs" "vs = [] \<longleftrightarrow> node_id cur \<in> set seen" "vs \<noteq> [] \<longrightarrow> hd vs = cur"
    using walk_trail by blast
  with Cons.prems have cur: "node_id cur \<notin> set seen" "w = cur" by auto
  show ?case
  proof (cases "refers t cur \<or> parent_of ps cur = None")
    case True
    then show ?thesis
      using cur by (intro exI [of _ 1]) (auto simp: walk_step [of _ seen] parent_of_blind [OF assms])
  next
    case False
    then obtain p where p: "parent_of ps cur = Some p" by auto
    have "walk ps (node_id cur # seen) (acc @ [cur]) p = (acc @ [cur]) @ ws"
      using Cons.prems cur p by (simp add: walk_step [of _ seen])
    from Cons.IH [OF this, of "acc' @ [blind_node H t s cur]"] obtain k where
      k: "walk (map (blind_node H t s) ps) (node_id cur # seen) (acc' @ [blind_node H t s cur]) (blind_node H t s p) =
          (acc' @ [blind_node H t s cur]) @ map (blind_node H t s) (take k ws)"
        "ws \<noteq> [] \<longrightarrow> 0 < k" "\<forall>n \<in> set (tl (take k ws)). node_id n \<noteq> t" by blast
    obtain us where us: "walk ps (node_id cur # seen) (acc @ [cur]) p = (acc @ [cur]) @ us" "us \<noteq> [] \<longrightarrow> hd us = p"
      using walk_trail by blast
    with \<open>walk ps (node_id cur # seen) (acc @ [cur]) p = (acc @ [cur]) @ ws\<close> have "ws \<noteq> [] \<longrightarrow> hd ws = p" by simp
    moreover have "node_id p \<noteq> t"
      using False p by (auto simp: parent_of_def refers_def dest: parent_lookup_Some(2) split: option.splits)
    ultimately have "\<forall>n \<in> set (take k ws). node_id n \<noteq> t"
      using k(3) by (cases k; cases ws) auto
    then show ?thesis
      using k(1) cur False p
      by (intro exI [of _ "Suc k"]) (simp add: walk_step [of _ seen] parent_of_blind [OF assms])
  qed
qed

section \<open>Properties\<close>

text \<open>
  C14: the walk from a node ends, also on cyclic references. The chain lists nodes of different
  identifiers, the root first and the start last; every node is the registered parent of the
  next; the first node has no parent, an unknown parent or a parent identifier that is in the chain
  already; and the strength of the chain is the weakest strength in it.
\<close>

theorem provenance_walk_chain:
  "let c = walk_provenance_chain start ps; ns = chain_nodes c in
     ns \<noteq> [] \<and> last ns = start \<and> distinct (map node_id ns) \<and> set ns \<subseteq> insert start (set ps) \<and>
     successively (\<lambda>a b. parent_of ps b = Some a) ns \<and>
     (parent_of ps (hd ns) = None \<or> (\<exists>p n. parent_of ps (hd ns) = Some p \<and> n \<in> set ns \<and> node_id n = node_id p)) \<and>
     chain_strength c = Min (node_strength ` set ns)"
proof -
  obtain ws where ws: "walk ps [] [] start = ws" "trail ps {} ws" "ws \<noteq> []" "hd ws = start" "set ws \<subseteq> insert start (set ps)"
    using walk_trail [of ps "[]" "[]" start] by auto
  have "chain_strength (walk_provenance_chain start ps) = Min (node_strength ` set ws)"
    using ws(1,3) by (simp add: walk_provenance_chain_def aggregate_Min)
  then show ?thesis
    using ws by (auto simp: walk_provenance_chain_def trail_def last_rev hd_rev rev_map [symmetric] Let_def split: option.splits)
qed

text \<open>
  C15: blinding the links to an identifier changes exactly the nodes that refer to it, and counts them.
  If the blinded hash is not the identifier of a node, the walk from any node afterwards gives the
  nearest part of the old chain: the anonymised node is no longer reached from below and, since
  the ancestors behind the link are cut off, the strength of the chain never gets smaller.
\<close>

theorem provenance_blinding:
  assumes "H (t @ '':'' @ H s) \<notin> node_id ` set ps"
  shows "let (ps', c) = blind_derivation_links H ps t s;
       old = walk_provenance_chain start ps; new = walk_provenance_chain (blind_node H t s start) ps' in
     c = length (filter (refers t) ps) \<and> length ps' = length ps \<and>
     (\<forall>i < length ps. ps' ! i = (if refers t (ps ! i) then blind_node H t s (ps ! i) else ps ! i)) \<and>
     (\<exists>k. chain_nodes new = map (blind_node H t s) (drop k (chain_nodes old))) \<and>
     (\<forall>n \<in> set (butlast (chain_nodes new)). node_id n \<noteq> t) \<and>
     chain_strength old \<le> chain_strength new"
proof -
  let ?b = "blind_node H t s"
  obtain ws where ws: "walk ps [] [] start = [] @ ws" "ws \<noteq> []" using walk_trail [of ps "[]" "[]" start] by auto
  from walk_blind [OF assms [folded blinded_id_def] ws(1), of "[]"] obtain k where
    k: "walk (map ?b ps) [] [] (?b start) = map ?b (take k ws)" "0 < k" "\<forall>n \<in> set (tl (take k ws)). node_id n \<noteq> t"
    using ws(2) by auto
  have ne: "take k ws \<noteq> []" using k(2) ws(2) by simp
  have "Min (node_strength ` set ws) \<le> Min (node_strength ` set (take k ws))"
    using ne set_take_subset [of k ws] by (intro Min_antimono image_mono) auto
  then have m: "aggregate_chain_strength (rev ws) \<le> aggregate_chain_strength (rev (map ?b (take k ws)))"
    using ne ws(2) by (simp add: aggregate_Min image_image)
  have d: "rev (map ?b (take k ws)) = map ?b (drop (length ws - k) (rev ws))"
    by (cases "k \<le> length ws") (simp_all add: rev_map drop_rev)
  have b: "set (butlast (rev (map ?b (take k ws)))) = ?b ` set (tl (take k ws))"
    by (metis butlast_rev list.set_map map_tl set_rev)
  have "\<exists>j. rev (map ?b (take k ws)) = map ?b (drop j (rev ws))" using d by blast
  then show ?thesis
    using ws(1) k m b
    by (auto simp: blind_links_fst blind_links_snd walk_provenance_chain_def Let_def split_beta blind_node_other
        simp del: rev_map)
qed

theorem provenance_blinding_witness:
  "chain_strength (walk_provenance_chain \<lparr>node_id = ''c'', parent_ref = Some (Active ''p''), node_strength = Signed, depth = 1\<rparr>
       [\<lparr>node_id = ''p'', parent_ref = None, node_strength = Local, depth = 0\<rparr>])
   \<le> chain_strength (walk_provenance_chain \<lparr>node_id = ''c'', parent_ref = Some (Blinded (''xp:xs'') ''xs''), node_strength = Signed, depth = 1\<rparr>
       [\<lparr>node_id = ''p'', parent_ref = None, node_strength = Local, depth = 0\<rparr>])"
  using provenance_blinding [of "\<lambda>x. CHR ''x'' # x" "''p''" "''s''"
    "[\<lparr>node_id = ''p'', parent_ref = None, node_strength = Local, depth = 0\<rparr>]"
    "\<lparr>node_id = ''c'', parent_ref = Some (Active ''p''), node_strength = Signed, depth = 1\<rparr>"]
  by (simp add: blind_node_def ref_blind_def Let_def)

end
