(* ===== verification/Decision.thy ===== *)
theory Decision
  imports Strength F64
begin

text \<open>
  The decision of a run: \<^verbatim>\<open>lgpd.rs\<close> (validation of the metadata), \<^verbatim>\<open>state.rs\<close> and \<^verbatim>\<open>decision.rs\<close>
  under \<^verbatim>\<open>crates/host/src\<close>. An \<^verbatim>\<open>i64\<close> is a 64-bit word read with its sign; the difference of two
  of them wraps as in the release profile, which has no overflow checks. Messages are kept as the
  list of their reasons with the numbers in them; their text is a parameter where it is hashed.
\<close>

section \<open>LGPD metadata\<close>

datatype lawful_basis =
    Consentimento | Contrato | ObrigacaoLegal | InteresseLegitimo | VidaFisica | FuncaoPublica | InteresseVital

record lgpd_metadata =
  lgpd_basis :: lawful_basis
  lgpd_purpose :: string
  retention_days :: "32 word"
  data_subject_hash :: "string option"
  dpia_ref :: "string option"
  consent_id :: "string option"

datatype lgpd_error = EmptyPurpose | ZeroRetention

definition lgpd_validate :: "lgpd_metadata \<Rightarrow> lgpd_error + unit" where
  "lgpd_validate m =
     (if trim (lgpd_purpose m) = [] then Inl EmptyPurpose
      else if retention_days m = 0 then Inl ZeroRetention
      else Inr ())"

definition parse_lgpd_basis :: "string \<Rightarrow> lawful_basis option" where
  "parse_lgpd_basis raw =
     (let v = map lower_char raw in
      if v \<in> {''consentimento'', ''consent''} then Some Consentimento
      else if v \<in> {''contrato'', ''contract''} then Some Contrato
      else if v \<in> {''obrigacao_legal'', ''obrigacao-legal'', ''legal_obligation''} then Some ObrigacaoLegal
      else if v \<in> {''interesse_legitimo'', ''interesse-legitimo'', ''legitimate_interest''} then Some InteresseLegitimo
      else if v \<in> {''vida_fisica'', ''vida-fisica'', ''life''} then Some VidaFisica
      else if v \<in> {''funcao_publica'', ''funcao-publica'', ''public_policy''} then Some FuncaoPublica
      else if v \<in> {''interesse_vital'', ''interesse-vital'', ''vital_interest''} then Some InteresseVital
      else None)"

section \<open>The state\<close>

datatype scenario = ScenarioAuto | ScenarioOk | ScenarioViolacao | ScenarioAbsterse

text \<open>\<^verbatim>\<open>Scenario::from_env\<close>; \<open>None\<close> is the error.\<close>

definition scenario_from_env :: "string option \<Rightarrow> scenario option" where
  "scenario_from_env raw =
     (let v = map lower_char (case raw of None \<Rightarrow> ''auto'' | Some r \<Rightarrow> r) in
      if v = ''auto'' then Some ScenarioAuto
      else if v = ''ok'' then Some ScenarioOk
      else if v = ''violacao'' then Some ScenarioViolacao
      else if v \<in> {''absterse'', ''abster-se'', ''abstain''} then Some ScenarioAbsterse
      else None)"

fun scenario_name :: "scenario \<Rightarrow> string" where
  "scenario_name ScenarioAuto = ''AUTO''"
| "scenario_name ScenarioOk = ''OK''"
| "scenario_name ScenarioViolacao = ''VIOLACAO''"
| "scenario_name ScenarioAbsterse = ''ABSTERSE''"

type_synonym i64 = "64 word"

record state =
  st_project :: string
  st_run_id :: uuid
  generated_at :: int
  st_scenario :: scenario
  st_subject :: string
  threshold :: i64
  input_value :: "i64 option"
  st_lgpd :: "lgpd_metadata option"

section \<open>The score\<close>

datatype decision_status = StatusOk | StatusViolacao | StatusAbsterse

datatype reason =
    MeetsThreshold i64 i64 i64 rat
  | BelowThreshold i64 i64 i64 rat
  | LgpdValid
  | SubjectIdentified
  | ConsentDocumented
  | LgpdInvalid lgpd_error
  | LowThreshold

record decision_score =
  positive :: rat
  negative :: rat
  positive_reasons :: "reason list"
  negative_reasons :: "reason list"

definition score_new :: decision_score where
  "score_new = \<lparr>positive = 0, negative = 0, positive_reasons = [], negative_reasons = []\<rparr>"

definition add_positive :: "decision_score \<Rightarrow> rat \<Rightarrow> reason \<Rightarrow> decision_score" where
  "add_positive s w r = s\<lparr>positive := f64_add (positive s) w, positive_reasons := positive_reasons s @ [r]\<rparr>"

definition add_negative :: "decision_score \<Rightarrow> rat \<Rightarrow> reason \<Rightarrow> decision_score" where
  "add_negative s w r = s\<lparr>negative := f64_add (negative s) w, negative_reasons := negative_reasons s @ [r]\<rparr>"

datatype decision_message = ScenarioText scenario | NoInputText | ScoreText rat "reason list"

type_synonym classification = "decision_status \<times> string \<times> decision_message"

definition score_resolve :: "decision_score \<Rightarrow> classification" where
  "score_resolve s =
     (let net = f64_sub (positive s) (negative s) in
      if 25 \<le> net then (StatusOk, ''MULTIFACTOR_OK'', ScoreText net (positive_reasons s))
      else if net \<le> - 10 then (StatusViolacao, ''MULTIFACTOR_VIOLACAO'', ScoreText net (negative_reasons s))
      else (StatusAbsterse, ''MULTIFACTOR_INCONCLUSIVE'', ScoreText net (positive_reasons s @ negative_reasons s)))"

section \<open>Classification\<close>

definition margin_percent :: "i64 \<Rightarrow> i64 \<Rightarrow> i64 \<Rightarrow> rat" where
  "margin_percent t v m =
     (if t \<noteq> 0 then f64_mul (f64_div (f64_of_int (sint m)) (f64_of_int (sint t))) 100
      else if 0 <s v then 100 else 0)"

definition add_threshold_factor :: "decision_score \<Rightarrow> i64 \<Rightarrow> i64 \<Rightarrow> decision_score" where
  "add_threshold_factor s t v =
     (let margin = v - t; pct = margin_percent t v margin in
      if 0 \<le>s margin then add_positive s (f64_add 25 (min (f64_div pct 10) 10)) (MeetsThreshold v t margin pct)
      else add_negative s (min \<bar>pct\<bar> 100) (BelowThreshold v t margin pct))"

definition add_lgpd_factor :: "decision_score \<Rightarrow> lgpd_metadata option \<Rightarrow> decision_score" where
  "add_lgpd_factor s lgpd =
     (case lgpd of
        None \<Rightarrow> s
      | Some m \<Rightarrow>
          (case lgpd_validate m of
             Inr _ \<Rightarrow>
               let s = add_positive s 15 LgpdValid;
                   s = (if data_subject_hash m \<noteq> None then add_positive s 5 SubjectIdentified else s)
               in if consent_id m \<noteq> None then add_positive s 5 ConsentDocumented else s
           | Inl e \<Rightarrow> add_negative s 20 (LgpdInvalid e)))"

definition add_quality_factor :: "decision_score \<Rightarrow> i64 \<Rightarrow> decision_score" where
  "add_quality_factor s t = (if t \<le>s 0 then add_negative s 10 LowThreshold else s)"

definition classify_auto :: "state \<Rightarrow> classification" where
  "classify_auto st =
     (case input_value st of
        None \<Rightarrow> (StatusAbsterse, ''MISSING_INPUT_VALUE'', NoInputText)
      | Some v \<Rightarrow>
          score_resolve
            (add_quality_factor
              (add_lgpd_factor (add_threshold_factor score_new (threshold st) v) (st_lgpd st))
              (threshold st)))"

definition classify :: "state \<Rightarrow> classification" where
  "classify st =
     (case st_scenario st of
        ScenarioOk \<Rightarrow> (StatusOk, ''SCENARIO_OK'', ScenarioText ScenarioOk)
      | ScenarioViolacao \<Rightarrow> (StatusViolacao, ''SCENARIO_VIOLACAO'', ScenarioText ScenarioViolacao)
      | ScenarioAbsterse \<Rightarrow> (StatusAbsterse, ''SCENARIO_ABSTERSE'', ScenarioText ScenarioAbsterse)
      | ScenarioAuto \<Rightarrow> classify_auto st)"

section \<open>Records\<close>

record decision_body =
  decision_id :: uuid
  run_id :: uuid
  created_at :: int
  status :: decision_status
  reason_code :: string
  message :: decision_message
  state_hash :: string
  quality_left_strength :: evidence_strength
  quality_right_strength :: evidence_strength
  quality_report :: resolution_report

record decision_record =
  decision_of :: decision_body
  decision_hash :: string

text \<open>
  \<^verbatim>\<open>DecisionRecord::new\<close>; \<open>ser\<close> is the serialisation, a library, that may fail.
\<close>

definition decision_record_new ::
  "(string \<Rightarrow> string) \<Rightarrow> (decision_body \<Rightarrow> string option) \<Rightarrow> decision_body \<Rightarrow> decision_record option" where
  "decision_record_new H ser b =
     (case ser b of None \<Rightarrow> None | Some j \<Rightarrow> Some \<lparr>decision_of = b, decision_hash = H j\<rparr>)"

definition ascii_bytes :: "string \<Rightarrow> bytes" where
  "ascii_bytes s = map of_char s"

definition evaluate_decision ::
  "(uuid \<Rightarrow> bytes \<Rightarrow> uuid) \<Rightarrow> (string \<Rightarrow> string) \<Rightarrow> (decision_body \<Rightarrow> string option) \<Rightarrow> int \<Rightarrow>
     state \<Rightarrow> string \<Rightarrow> string \<Rightarrow> string \<Rightarrow> decision_record option" where
  "evaluate_decision v5 H ser now st sh left_kind right_kind =
     (let (status, reason, message) = classify st;
          left = evaluate_quality sh left_kind; right = evaluate_quality sh right_kind
      in decision_record_new H ser
           \<lparr>decision_id = v5 (st_run_id st) (ascii_bytes ''decision''), run_id = st_run_id st, created_at = now,
            status = status, reason_code = reason, message = message, state_hash = sh,
            quality_left_strength = left, quality_right_strength = right,
            quality_report = resolve_quality_divergence H left right\<rparr>)"

end
