(* ===== verification/Decision_Theorems.thy ===== *)
theory Decision_Theorems
  imports Decision
begin

text \<open>
  What the automatic decision of \<^verbatim>\<open>decision.rs\<close> comes to: the rule for positive thresholds, what
  happens for negative ones, and two edges where wrapping and rounding decide.
\<close>

section \<open>The arithmetic of the score\<close>

lemma sint_diff:
  fixes a b :: i64
  assumes "- (2 ^ 63) \<le> sint a - sint b" and "sint a - sint b < 2 ^ 63"
  shows "sint (a - b) = sint a - sint b"
  using assms by (simp add: sint_word_ariths signed_take_bit_int_eq_self)

lemma f64_mul_100_mono: "x \<le> y \<Longrightarrow> f64_mul x 100 \<le> f64_mul y 100"
  by (simp add: f64_mul_def f64_round_mono)

lemma f64_div_10_mono: "x \<le> y \<Longrightarrow> f64_div x 10 \<le> f64_div y 10"
  by (simp add: f64_div_def f64_round_mono)

lemma f64_numerals:
  "f64_add 0 25 = 25" "f64_add 25 0 = 25" "f64_sub 25 0 = 25" "f64_add 0 10 = 10" "f64_sub 0 10 = - 10"
  "f64_sub 25 10 = 15" "f64_add 0 0 = 0" "f64_mul (f64_div (- 1) 10) 100 = - 10"
  by code_simp+

lemma deficit_numerals:
  "f64_mul (f64_round (- (1 / 10 - 1 / (10 * 2 ^ 40)))) 100 = - (5497558138875 / 549755813888)"
  "- 10 < f64_sub 0 (f64_add 0 (5497558138875 / 549755813888))"
  by code_simp+

lemma status_of_score:
  "fst (score_resolve s) =
     (if 25 \<le> f64_sub (positive s) (negative s) then StatusOk
      else if f64_sub (positive s) (negative s) \<le> - 10 then StatusViolacao else StatusAbsterse)"
  by (simp add: score_resolve_def Let_def)

text \<open>The score without metadata, by the sign of the margin.\<close>

definition bonus :: "i64 \<Rightarrow> i64 \<Rightarrow> rat" where
  "bonus t v = min (f64_div (margin_percent t v (v - t)) 10) 10"

lemma classify_plain:
  assumes "st_scenario st = ScenarioAuto" and "input_value st = Some v" and "st_lgpd st = None" and "threshold st = t"
  shows "fst (classify st) =
    fst (score_resolve (add_quality_factor (add_threshold_factor score_new t v) t))"
  using assms by (simp add: classify_def classify_auto_def add_lgpd_factor_def)

lemma threshold_score:
  "positive (add_quality_factor (add_threshold_factor score_new t v) t) =
     (if 0 \<le> sint (v - t) then f64_add 0 (f64_add 25 (bonus t v)) else 0)"
  "negative (add_quality_factor (add_threshold_factor score_new t v) t) =
     (let n = (if 0 \<le> sint (v - t) then 0 else f64_add 0 (min \<bar>margin_percent t v (v - t)\<bar> 100))
      in if sint t \<le> 0 then f64_add n 10 else n)"
  by (auto simp: add_quality_factor_def add_threshold_factor_def Let_def add_positive_def add_negative_def
      score_new_def word_sle_eq bonus_def)

lemma percent_small:
  assumes "sint t \<noteq> 0" and "\<bar>sint t\<bar> \<le> 2 ^ 40" and "\<bar>sint v\<bar> \<le> 2 ^ 40"
  shows "sint (v - t) = sint v - sint t"
    and "margin_percent t v (v - t) = f64_mul (f64_round (of_int (sint v - sint t) / of_int (sint t))) 100"
proof -
  show d: "sint (v - t) = sint v - sint t" using assms by (intro sint_diff) auto
  have "t \<noteq> 0" using assms(1) by auto
  then show "margin_percent t v (v - t) = f64_mul (f64_round (of_int (sint v - sint t) / of_int (sint t))) 100"
    using assms d by (simp add: margin_percent_def f64_div_def f64_of_int_small)
qed

lemma ratio_le: "a \<le> b * of_int t \<Longrightarrow> 0 < t \<Longrightarrow> a / of_int t \<le> b" for a b :: rat
  by (simp add: pos_divide_le_eq)

text \<open>A positive threshold that is not met.\<close>

lemma deficit_net:
  assumes t: "0 < sint t" "sint t \<le> 2 ^ 40" and v: "\<bar>sint v\<bar> \<le> 2 ^ 40" "sint v < sint t"
  defines "net \<equiv> f64_sub 0 (f64_add 0 (min \<bar>margin_percent t v (v - t)\<bar> 100))"
  shows "net \<le> 0" and "sint t \<le> 10 * (sint t - sint v) \<Longrightarrow> net \<le> - 10"
    and "10 * (sint t - sint v) < sint t \<Longrightarrow> - 10 < net"
proof -
  define q :: rat where "q = of_int (sint v - sint t) / of_int (sint t)"
  define p where "p = margin_percent t v (v - t)"
  have p: "p = f64_mul (f64_round q) 100" unfolding p_def q_def using assms by (intro percent_small) auto
  have "of_int (sint v - sint t) \<le> (0 :: rat)" "(0 :: rat) < of_int (sint t)" using t v by (simp_all only: of_int_le_0_iff of_int_0_less_iff)
  then have "q \<le> 0" unfolding q_def by (rule divide_nonpos_pos)
  then have p0: "p \<le> 0" using f64_mul_100_mono [of "f64_round q" 0] f64_round_nonpos by (simp add: p f64_mul_def)
  have neg: "0 \<le> f64_add 0 (min \<bar>p\<bar> 100)" by (simp add: f64_add_def f64_round_nonneg)
  then show "net \<le> 0" by (simp add: net_def p_def [symmetric] f64_sub_def f64_round_nonpos)
  show "net \<le> - 10" if "sint t \<le> 10 * (sint t - sint v)"
  proof -
    have "of_int (sint t) \<le> (of_int (10 * (sint t - sint v)) :: rat)" using that by (simp only: of_int_le_iff)
    then have "q \<le> - 1 / 10" unfolding q_def using t by (intro ratio_le) simp_all
    then have "p \<le> f64_mul (f64_round (- 1 / 10)) 100" unfolding p by (intro f64_mul_100_mono f64_round_mono)
    then have "p \<le> - 10" using f64_numerals(8) by (simp add: f64_div_def)
    then have "f64_add 0 10 \<le> f64_add 0 (min \<bar>p\<bar> 100)" by (intro f64_add_mono order_refl) auto
    then have "net \<le> f64_sub 0 10" unfolding net_def p_def [symmetric] using f64_numerals by (intro f64_sub_mono) auto
    then show ?thesis by (simp add: f64_numerals)
  qed
  show "- 10 < net" if "10 * (sint t - sint v) < sint t"
  proof -
    let ?d = "1 / 10 - 1 / (10 * 2 ^ 40) :: rat"
    have "of_int (10 * (sint t - sint v) + 1) \<le> (of_int (sint t) :: rat)" "of_int (sint t) \<le> (of_int (2 ^ 40) :: rat)"
      using that t by (simp_all only: of_int_le_iff)
    then have "(of_int (sint t) - of_int (sint v)) / of_int (sint t) \<le> ?d"
      using t by (intro ratio_le) (simp_all add: field_simps)
    then have "- ?d \<le> q" by (simp add: q_def diff_divide_distrib)
    then have "f64_mul (f64_round (- ?d)) 100 \<le> p" unfolding p by (intro f64_mul_100_mono f64_round_mono)
    then have "\<bar>p\<bar> \<le> 5497558138875 / 549755813888" using p0 deficit_numerals(1) by simp
    then have "f64_add 0 (min \<bar>p\<bar> 100) \<le> f64_add 0 (5497558138875 / 549755813888)" by (intro f64_add_mono order_refl) simp
    then have "f64_sub 0 (f64_add 0 (5497558138875 / 549755813888)) \<le> net"
      unfolding net_def p_def [symmetric] by (intro f64_sub_mono) auto
    then show ?thesis using deficit_numerals(2) by simp
  qed
qed

text \<open>A threshold that is met, without overflow.\<close>

lemma met_net:
  assumes "0 \<le> bonus t v"
  shows "25 \<le> f64_sub (f64_add 0 (f64_add 25 (bonus t v))) 0"
proof -
  have "f64_add 25 0 \<le> f64_add 25 (bonus t v)" by (rule f64_add_mono [OF order_refl assms])
  then have "f64_add 0 25 \<le> f64_add 0 (f64_add 25 (bonus t v))" by (intro f64_add_mono order_refl) (simp add: f64_numerals)
  then have "f64_sub 25 0 \<le> f64_sub (f64_add 0 (f64_add 25 (bonus t v))) 0"
    by (intro f64_sub_mono) (simp_all add: f64_numerals)
  then show ?thesis by (simp add: f64_numerals)
qed

lemma unmet_bonus_net:
  assumes "bonus t v \<le> b" and "10 \<le> n"
  shows "f64_sub (f64_add 0 (f64_add 25 (bonus t v))) n \<le> f64_sub (f64_add 0 (f64_add 25 b)) 10"
  using assms by (intro f64_sub_mono f64_add_mono order_refl)

text \<open>Negative thresholds: the percentage has the opposite sign of the margin.\<close>

lemma negative_bonus:
  assumes "sint t < 0" and "0 \<le> sint (v - t)"
  shows "bonus t v \<le> 0"
proof -
  have t: "t \<noteq> 0" using assms(1) by auto
  have "0 \<le> f64_of_int (sint (v - t))" "f64_of_int (sint t) \<le> 0"
    using f64_of_int_mono [OF assms(2)] f64_of_int_mono [of "sint t" 0] assms(1) by (simp_all add: f64_of_int_def)
  then have "f64_of_int (sint (v - t)) / f64_of_int (sint t) \<le> 0" by (rule divide_nonneg_nonpos)
  then have "margin_percent t v (v - t) \<le> 0"
    using t f64_mul_100_mono [of _ 0] by (simp add: margin_percent_def f64_div_def f64_round_nonpos f64_mul_def)
  then show ?thesis using f64_div_10_mono [of _ 0] by (simp add: bonus_def f64_div_def min_le_iff_disj)
qed

lemma negative_bonus_far:
  assumes "sint t < 0" and "\<bar>sint t\<bar> \<le> 2 ^ 40" and "\<bar>sint v\<bar> \<le> 2 ^ 40" and "5 * - sint t \<le> 2 * (sint v - sint t)"
  shows "bonus t v \<le> - 25"
proof -
  define q :: rat where "q = of_int (sint v - sint t) / of_int (sint t)"
  have "of_int (5 * - sint t) \<le> (of_int (2 * (sint v - sint t)) :: rat)" "(of_int (sint t) :: rat) < 0"
    using assms by (simp_all only: of_int_le_iff of_int_less_0_iff)
  then have "q \<le> - 5 / 2" by (simp add: q_def neg_divide_le_eq field_simps)
  then have "margin_percent t v (v - t) \<le> f64_mul (f64_round (- 5 / 2)) 100"
    using percent_small(2) [of t v] assms by (simp add: q_def f64_mul_100_mono f64_round_mono)
  then have "f64_div (margin_percent t v (v - t)) 10 \<le> f64_div (f64_mul (f64_round (- 5 / 2)) 100) 10"
    by (rule f64_div_10_mono)
  moreover have "f64_div (f64_mul (f64_round (- 5 / 2)) 100) 10 = - 25" by code_simp
  ultimately show ?thesis by (simp add: bonus_def min_le_iff_disj)
qed

lemma below_negative: "f64_sub 0 (f64_add (f64_add 0 (min \<bar>p\<bar> 100)) 10) \<le> - 10"
proof -
  have "0 \<le> f64_add 0 (min \<bar>p\<bar> 100)" by (simp add: f64_add_def f64_round_nonneg)
  then have "f64_add 10 0 \<le> f64_add 10 (f64_add 0 (min \<bar>p\<bar> 100))" by (rule f64_add_mono [OF order_refl])
  then have "f64_sub 0 (f64_add (f64_add 0 (min \<bar>p\<bar> 100)) 10) \<le> f64_sub 0 10"
    using f64_numerals by (intro f64_sub_mono) (simp_all add: f64_add_def add.commute)
  then show ?thesis by (simp add: f64_numerals)
qed

section \<open>Properties\<close>

text \<open>
  C16: without LGPD metadata, for a positive threshold and an input both up to 2^40 in size, the multi-factor
  score computed in rounded \<^verbatim>\<open>f64\<close> arithmetic gives exactly this integer rule: OK when the
  input reaches the threshold, a violation when it is short by a tenth of the threshold or more, and an
  abstention in between.
\<close>

theorem decision_threshold_rule:
  assumes "st_scenario st = ScenarioAuto" and "input_value st = Some v" and "st_lgpd st = None"
    and "threshold st = t" and "0 < sint t" and "sint t \<le> 2 ^ 40" and "\<bar>sint v\<bar> \<le> 2 ^ 40"
  shows "fst (classify st) =
    (if sint t \<le> sint v then StatusOk
     else if sint t \<le> 10 * (sint t - sint v) then StatusViolacao
     else StatusAbsterse)"
proof (cases "sint t \<le> sint v")
  case True
  have d: "sint (v - t) = sint v - sint t" "margin_percent t v (v - t) = f64_mul (f64_round (of_int (sint v - sint t) / of_int (sint t))) 100"
    using percent_small [of t v] assms by simp_all
  have "(0 :: rat) \<le> of_int (sint v - sint t)" "(0 :: rat) < of_int (sint t)"
    using True assms(5) by (simp_all only: of_int_0_le_iff of_int_0_less_iff)
  then have "(0 :: rat) \<le> of_int (sint v - sint t) / of_int (sint t)" by (rule divide_nonneg_pos)
  then have "0 \<le> margin_percent t v (v - t)"
    unfolding d(2) f64_mul_def by (intro f64_round_nonneg mult_nonneg_nonneg) simp_all
  then have "0 \<le> bonus t v" by (simp add: bonus_def f64_div_def f64_round_nonneg)
  from met_net [OF this] show ?thesis
    using True d assms by (simp add: classify_plain status_of_score threshold_score)
next
  case False
  have d: "sint (v - t) = sint v - sint t" using percent_small(1) [of t v] assms by simp
  show ?thesis
    using False d assms deficit_net [of t v]
    by (cases "sint t \<le> 10 * (sint t - sint v)") (auto simp: classify_plain status_of_score threshold_score)
qed

theorem decision_threshold_rule_witness:
  "fst (classify \<lparr>st_project = [], st_run_id = 0, generated_at = 0, st_scenario = ScenarioAuto, st_subject = [],
     threshold = 50, input_value = Some 46, st_lgpd = None\<rparr>) = StatusAbsterse"
  by (subst decision_threshold_rule [of _ 46 50]) simp_all

text \<open>
  With a negative threshold and no LGPD metadata no input is ever OK: the margin is divided by the negative
  threshold, so the bonus of a value above the threshold is negative. A value that exceeds
  the threshold by two and a half times its size or more is a violation, like every value below it.
\<close>

theorem decision_negative_threshold:
  assumes "st_scenario st = ScenarioAuto" and "input_value st = Some v" and "st_lgpd st = None"
    and "threshold st = t" and "sint t < 0"
  shows "fst (classify st) \<noteq> StatusOk \<and>
    (\<bar>sint t\<bar> \<le> 2 ^ 40 \<longrightarrow> \<bar>sint v\<bar> \<le> 2 ^ 40 \<longrightarrow>
      sint v < sint t \<or> 5 * - sint t \<le> 2 * (sint v - sint t) \<longrightarrow> fst (classify st) = StatusViolacao)"
proof (cases "0 \<le> sint (v - t)")
  case False
  then show ?thesis
    using assms below_negative [of "margin_percent t v (v - t)"]
    by (auto simp: classify_plain status_of_score threshold_score)
next
  case True
  have far: "f64_sub (f64_add 0 (f64_add 25 (- 25))) 10 = - 10" by code_simp
  have "f64_sub (f64_add 0 (f64_add 25 (bonus t v))) 10 \<le> 15"
    using unmet_bonus_net [OF negative_bonus [OF assms(5) True], of 10] by (simp add: f64_numerals)
  moreover have "f64_sub (f64_add 0 (f64_add 25 (bonus t v))) 10 \<le> - 10"
    if "\<bar>sint t\<bar> \<le> 2 ^ 40" "\<bar>sint v\<bar> \<le> 2 ^ 40" "5 * - sint t \<le> 2 * (sint v - sint t)"
    using unmet_bonus_net [OF negative_bonus_far [OF assms(5) that], of 10] far by simp
  moreover have "\<not> sint v < sint t" if "\<bar>sint t\<bar> \<le> 2 ^ 40" "\<bar>sint v\<bar> \<le> 2 ^ 40"
    using True percent_small(1) [of t v] assms that by simp
  ultimately show ?thesis
    using assms True by (auto simp: classify_plain status_of_score threshold_score f64_numerals)
qed

theorem decision_negative_threshold_witness:
  "fst (classify \<lparr>st_project = [], st_run_id = 0, generated_at = 0, st_scenario = ScenarioAuto, st_subject = [],
     threshold = - 10, input_value = Some 100, st_lgpd = None\<rparr>) = StatusViolacao"
  using decision_negative_threshold [of "\<lparr>st_project = [], st_run_id = 0, generated_at = 0, st_scenario = ScenarioAuto, st_subject = [],
     threshold = - 10, input_value = Some 100, st_lgpd = None\<rparr>" 100 "- 10"] by simp

text \<open>
  Two edges. The difference wraps: the largest input against the threshold -1 has a negative margin. And
  the score rounds: with complete LGPD metadata an input one below the threshold 2^60 is OK, because
  25 less a deficit of about 10^-16 is 25 in \<^verbatim>\<open>f64\<close>.
\<close>

theorem decision_wraps_and_rounds:
  "let st = \<lparr>st_project = [], st_run_id = 0, generated_at = 0, st_scenario = ScenarioAuto, st_subject = [],
       threshold = - 1, input_value = Some (2 ^ 63 - 1), st_lgpd = None\<rparr>;
     m = \<lparr>lgpd_basis = Consentimento, lgpd_purpose = ''p'', retention_days = 1, data_subject_hash = Some [],
       dpia_ref = None, consent_id = Some []\<rparr>
   in sint (2 ^ 63 - 1 - threshold st) < 0 \<and> fst (classify st) = StatusViolacao \<and>
     fst (classify (st\<lparr>threshold := 2 ^ 60, input_value := Some (2 ^ 60 - 1), st_lgpd := Some m\<rparr>)) = StatusOk"
  by code_simp

end
