(* ===== verification/Evidence.thy ===== *)
theory Evidence
  imports Decision Provenance_Chain "HOL-Library.Product_Lexorder"
begin

text \<open>
  Evidence records, \<^verbatim>\<open>evidence.rs\<close>, and the verification of a result directory,
  \<^verbatim>\<open>provenance/verify.rs\<close>, under \<^verbatim>\<open>crates/host/src\<close>. The JSON library, the file system and the
  text of a UUID are parameters; the lines of a file are split here as the standard library does.
\<close>

section \<open>Evidence records\<close>

datatype evidence_kind = StateSnapshot | DecisionAttestation

record evidence_body =
  evidence_id :: uuid
  ev_run_id :: uuid
  recorded_at :: int
  ev_kind :: evidence_kind
  ev_subject :: string
  ev_status :: decision_status
  ev_reason_code :: string
  ev_message :: decision_message
  ev_state_hash :: string
  ev_decision_hash :: string

record evidence_record =
  ev_body :: evidence_body
  ev_hash :: string

definition evidence_record_new ::
  "(string \<Rightarrow> string) \<Rightarrow> (evidence_body \<Rightarrow> string option) \<Rightarrow> evidence_body \<Rightarrow> evidence_record option" where
  "evidence_record_new H ser b =
     (case ser b of None \<Rightarrow> None | Some j \<Rightarrow> Some \<lparr>ev_body = b, ev_hash = H j\<rparr>)"

definition build_records ::
  "(uuid \<Rightarrow> bytes \<Rightarrow> uuid) \<Rightarrow> (string \<Rightarrow> string) \<Rightarrow> (evidence_body \<Rightarrow> string option) \<Rightarrow>
     state \<Rightarrow> decision_record \<Rightarrow> evidence_record list option" where
  "build_records v5 H ser st d =
     (let snapshot = \<lparr>evidence_id = v5 (st_run_id st) (ascii_bytes ''state_snapshot''), ev_run_id = st_run_id st,
            recorded_at = generated_at st, ev_kind = StateSnapshot, ev_subject = st_subject st,
            ev_status = status (decision_of d), ev_reason_code = reason_code (decision_of d),
            ev_message = message (decision_of d), ev_state_hash = state_hash (decision_of d),
            ev_decision_hash = decision_hash d\<rparr>;
          attestation = \<lparr>evidence_id = v5 (st_run_id st) (ascii_bytes ''decision_attestation''), ev_run_id = st_run_id st,
            recorded_at = created_at (decision_of d), ev_kind = DecisionAttestation, ev_subject = st_subject st,
            ev_status = status (decision_of d), ev_reason_code = reason_code (decision_of d),
            ev_message = message (decision_of d), ev_state_hash = state_hash (decision_of d),
            ev_decision_hash = decision_hash d\<rparr>
      in case evidence_record_new H ser snapshot of
           None \<Rightarrow> None
         | Some s \<Rightarrow> (case evidence_record_new H ser attestation of None \<Rightarrow> None | Some a \<Rightarrow> Some [s, a]))"

section \<open>What the verifier reads\<close>

record artifact_summary =
  art_path :: string
  art_hash :: string
  art_bytes :: nat

record decision_artifact =
  da_decision_id :: uuid
  da_run_id :: uuid
  da_created_at :: int
  da_status :: decision_status
  da_reason_code :: string
  da_message :: decision_message
  da_state_hash :: string
  da_left :: "evidence_strength option"
  da_right :: "evidence_strength option"
  da_report :: "resolution_report option"
  da_hash :: string

record manifest =
  mf_project :: string
  mf_run_id :: uuid
  mf_generated_at :: int
  mf_status :: decision_status
  mf_reason_code :: string
  mf_message :: decision_message
  mf_artifacts :: "artifact_summary list"

datatype read_outcome = FileText string | FileNotFound | ReadFailed

datatype verify_error =
    FailedToRead string
  | FailedToParse string
  | FailedToParseLine string nat
  | HashMismatch string
  | ByteCountMismatch string
  | NotListed string
  | DecisionRunIdMismatch
  | EvidenceRunIdMismatch

fun read_required :: "string \<Rightarrow> read_outcome \<Rightarrow> verify_error + string" where
  "read_required path (FileText t) = Inr t"
| "read_required path FileNotFound = Inl (FailedToRead path)"
| "read_required path ReadFailed = Inl (FailedToRead path)"

fun read_optional :: "string \<Rightarrow> read_outcome \<Rightarrow> verify_error + string option" where
  "read_optional path (FileText t) = Inr (Some t)"
| "read_optional path FileNotFound = Inr None"
| "read_optional path ReadFailed = Inl (FailedToRead path)"

fun parse_lines :: "(string \<Rightarrow> 'a option) \<Rightarrow> string \<Rightarrow> nat \<Rightarrow> string list \<Rightarrow> verify_error + 'a list" where
  "parse_lines dec label n [] = Inr []"
| "parse_lines dec label n (l # ls) =
     (if trim l = [] then parse_lines dec label (n + 1) ls
      else case dec (trim l) of
             None \<Rightarrow> Inl (FailedToParseLine label n)
           | Some x \<Rightarrow>
               (case parse_lines dec label (n + 1) ls of Inl e \<Rightarrow> Inl e | Inr xs \<Rightarrow> Inr (x # xs)))"

definition parse_jsonl :: "(string \<Rightarrow> 'a option) \<Rightarrow> string \<Rightarrow> string \<Rightarrow> verify_error + 'a list" where
  "parse_jsonl dec text label = parse_lines dec label 1 (text_lines [] text)"

definition parse_optional_jsonl :: "(string \<Rightarrow> 'a option) \<Rightarrow> string option \<Rightarrow> string \<Rightarrow> verify_error + 'a list" where
  "parse_optional_jsonl dec text label =
     (case text of
        None \<Rightarrow> Inr []
      | Some t \<Rightarrow> if trim t \<noteq> [] then parse_jsonl dec t label else Inr [])"

definition validate_manifest_artifact ::
  "(string \<Rightarrow> string) \<Rightarrow> 'm manifest_scheme \<Rightarrow> string \<Rightarrow> string \<Rightarrow> bool \<Rightarrow> verify_error + unit" where
  "validate_manifest_artifact H m path text required =
     (case List.find (\<lambda>a. art_path a = path) (mf_artifacts m) of
        Some a \<Rightarrow>
          if art_hash a \<noteq> H text then Inl (HashMismatch path)
          else if art_bytes a \<noteq> length text then Inl (ByteCountMismatch path)
          else Inr ()
      | None \<Rightarrow> if required then Inl (NotListed path) else Inr ())"

section \<open>Chains of evidence\<close>

fun kind_rank :: "evidence_kind \<Rightarrow> nat" where
  "kind_rank StateSnapshot = 0"
| "kind_rank DecisionAttestation = 1"

definition evidence_key :: "evidence_record \<Rightarrow> int \<times> nat \<times> uuid" where
  "evidence_key r = (recorded_at (ev_body r), kind_rank (ev_kind (ev_body r)), evidence_id (ev_body r))"

text \<open>The map from a decision hash to its records, sorted by a stable sort; no entry without a record.\<close>

definition group_evidence_by_decision :: "evidence_record list \<Rightarrow> string \<Rightarrow> evidence_record list option" where
  "group_evidence_by_decision rs h =
     (let g = filter (\<lambda>r. ev_decision_hash (ev_body r) = h) rs
      in if g = [] then None else Some (sort_key evidence_key g))"

fun evidence_kind_strength :: "evidence_kind \<Rightarrow> evidence_strength" where
  "evidence_kind_strength StateSnapshot = Signed"
| "evidence_kind_strength DecisionAttestation = Anchored"

definition chain_node :: "(uuid \<Rightarrow> string) \<Rightarrow> evidence_record list \<Rightarrow> nat \<Rightarrow> provenance_node" where
  "chain_node show_uuid chain i =
     \<lparr>node_id = show_uuid (evidence_id (ev_body (chain ! i))),
      parent_ref = (if i = 0 then None else Some (Active (show_uuid (evidence_id (ev_body (chain ! (i - 1))))))),
      node_strength = evidence_kind_strength (ev_kind (ev_body (chain ! i))), depth = i\<rparr>"

definition recompute_chain_strength :: "(uuid \<Rightarrow> string) \<Rightarrow> evidence_record list \<Rightarrow> evidence_strength" where
  "recompute_chain_strength show_uuid chain =
     (if chain = [] then Unverifiable
      else
        let nodes = map (chain_node show_uuid chain) [0..<length chain]
        in chain_strength (walk_provenance_chain (last nodes) (butlast nodes)))"

definition declared_strength :: "decision_artifact \<Rightarrow> evidence_strength" where
  "declared_strength d =
     (case (da_left d, da_right d, da_report d) of
        (Some l, Some r, Some rep) \<Rightarrow>
          if chosen_side rep = ''left'' then l
          else if chosen_side rep = ''right'' then r
          else max l r
      | (Some l, Some r, None) \<Rightarrow> max l r
      | _ \<Rightarrow> Signed)"

record verify_entry =
  ve_decision_id :: uuid
  declared :: evidence_strength
  recomputed :: evidence_strength
  valid :: bool
  ve_reason_code :: string

definition verify_decision ::
  "(uuid \<Rightarrow> string) \<Rightarrow> (string \<Rightarrow> evidence_record list option) \<Rightarrow> decision_artifact \<Rightarrow> verify_entry" where
  "verify_decision show_uuid grouped d =
     (let decl = declared_strength d;
          none = \<lparr>ve_decision_id = da_decision_id d, declared = decl, recomputed = Unverifiable, valid = False,
            ve_reason_code = ''NO_EVIDENCE''\<rparr>
      in case grouped (da_hash d) of
           None \<Rightarrow> none
         | Some chain \<Rightarrow>
             if chain = [] then none
             else
               let recomp = recompute_chain_strength show_uuid chain; ok = decl \<le> recomp
               in \<lparr>ve_decision_id = da_decision_id d, declared = decl, recomputed = recomp, valid = ok,
                   ve_reason_code = (if ok then ''VERIFIED'' else ''CHAIN_TOO_WEAK'')\<rparr>)"

section \<open>Verification of a directory\<close>

record codecs =
  dec_manifest :: "string \<Rightarrow> manifest option"
  dec_decision :: "string \<Rightarrow> decision_artifact option"
  dec_evidence :: "string \<Rightarrow> evidence_record option"

definition verify_directory ::
  "(string \<Rightarrow> string) \<Rightarrow> (uuid \<Rightarrow> string) \<Rightarrow> codecs \<Rightarrow> (string \<Rightarrow> read_outcome) \<Rightarrow> verify_error + verify_entry list" where
  "verify_directory H show_uuid cs dir =
     (case read_required ''manifest.json'' (dir ''manifest.json'') of Inl e \<Rightarrow> Inl e | Inr mtext \<Rightarrow>
      (case dec_manifest cs mtext of None \<Rightarrow> Inl (FailedToParse ''manifest.json'') | Some m \<Rightarrow>
      (case read_required ''decisions.jsonl'' (dir ''decisions.jsonl'') of Inl e \<Rightarrow> Inl e | Inr dtext \<Rightarrow>
      (case parse_jsonl (dec_decision cs) dtext ''decisions.jsonl'' of Inl e \<Rightarrow> Inl e | Inr decisions \<Rightarrow>
      (case read_optional ''evidence.jsonl'' (dir ''evidence.jsonl'') of Inl e \<Rightarrow> Inl e | Inr etext \<Rightarrow>
      (case parse_optional_jsonl (dec_evidence cs) etext ''evidence.jsonl'' of Inl e \<Rightarrow> Inl e | Inr evidence \<Rightarrow>
      (case validate_manifest_artifact H m ''decisions.jsonl'' dtext True of Inl e \<Rightarrow> Inl e | Inr _ \<Rightarrow>
      (case (case read_required ''state.json'' (dir ''state.json'') of
               Inl e \<Rightarrow> Inr () | Inr stext \<Rightarrow> validate_manifest_artifact H m ''state.json'' stext False) of Inl e \<Rightarrow> Inl e | Inr _ \<Rightarrow>
      (case (case etext of
               None \<Rightarrow> Inr ()
             | Some t \<Rightarrow> if trim t \<noteq> [] then validate_manifest_artifact H m ''evidence.jsonl'' t True else Inr ()) of Inl e \<Rightarrow> Inl e | Inr _ \<Rightarrow>
        if list_ex (\<lambda>d. da_run_id d \<noteq> mf_run_id m) decisions then Inl DecisionRunIdMismatch
        else if list_ex (\<lambda>r. ev_run_id (ev_body r) \<noteq> mf_run_id m) evidence then Inl EvidenceRunIdMismatch
        else Inr (map (verify_decision show_uuid (group_evidence_by_decision evidence)) decisions))))))))))"

end
