(* ===== verification/Evidence_Theorems.thy ===== *)
theory Evidence_Theorems
  imports Evidence "HOL-Library.Multiset"
begin

text \<open>
  What the verifier of \<^verbatim>\<open>provenance/verify.rs\<close> establishes: the recomputed strength of a chain with
  and without repeated identifiers, and the meaning of a valid entry of a report.
\<close>

section \<open>The recomputed strength\<close>

definition ids_distinct :: "evidence_record list \<Rightarrow> bool" where
  "ids_distinct rs \<longleftrightarrow> distinct (map (\<lambda>r. evidence_id (ev_body r)) rs)"

definition weakest_kind :: "evidence_record list \<Rightarrow> evidence_strength" where
  "weakest_kind rs = (if \<exists>r \<in> set rs. ev_kind (ev_body r) = StateSnapshot then Signed else Anchored)"

lemma chain_node_fields [simp]:
  "node_id (chain_node sh c i) = sh (evidence_id (ev_body (c ! i)))"
  "node_strength (chain_node sh c i) = evidence_kind_strength (ev_kind (ev_body (c ! i)))"
  by (simp_all add: chain_node_def)

lemma parent_lookup_unique:
  assumes "distinct (map node_id ps)" and "p \<in> set ps"
  shows "parent_lookup ps (node_id p) = Some p"
  unfolding parent_lookup_def using assms
  by (intro map_of_is_SomeI) (auto simp: rev_map [symmetric] comp_def)

lemma walk_whole_chain:
  assumes inj: "inj sh" and d: "ids_distinct c"
  shows "i < length c \<Longrightarrow> \<forall>j \<le> i. sh (evidence_id (ev_body (c ! j))) \<notin> set seen \<Longrightarrow>
    walk (map (chain_node sh c) [0..<length c - 1]) seen acc (chain_node sh c i) =
      acc @ rev (map (chain_node sh c) [0..<Suc i])"
proof (induction i arbitrary: seen acc)
  case 0
  then show ?case by (simp add: walk_step [of _ seen] parent_of_def chain_node_def)
next
  case (Suc i)
  let ?N = "chain_node sh c" and ?ps = "map (chain_node sh c) [0..<length c - 1]"
  have idx: "i < length c - 1" using Suc.prems by simp
  have "distinct (map (\<lambda>j. evidence_id (ev_body (c ! j))) [0..<length c])"
    using d unfolding ids_distinct_def by (metis (no_types, lifting) comp_apply map_eq_conv map_map map_nth)
  then have inj_on: "inj_on (\<lambda>j. evidence_id (ev_body (c ! j))) {0..<length c}" by (simp add: distinct_map)
  then have "inj_on (\<lambda>j. evidence_id (ev_body (c ! j))) {0..<length c - 1}"
    by (rule inj_on_subset) auto
  then have "distinct (map node_id ?ps)"
    using inj by (auto simp: distinct_map comp_def inj_on_def dest: injD)
  then have "parent_lookup ?ps (node_id (?N i)) = Some (?N i)"
    using idx by (intro parent_lookup_unique) auto
  then have p: "parent_of ?ps (?N (Suc i)) = Some (?N i)"
    by (simp add: parent_of_def chain_node_def)
  have new: "sh (evidence_id (ev_body (c ! j))) \<noteq> sh (evidence_id (ev_body (c ! Suc i)))" if "j \<le> i" for j
    using inj_onD [OF inj_on, of j "Suc i"] that Suc.prems injD [OF inj] by fastforce
  have "walk ?ps (node_id (?N (Suc i)) # seen) (acc @ [?N (Suc i)]) (?N i) =
      (acc @ [?N (Suc i)]) @ rev (map ?N [0..<Suc i])"
    using Suc.prems new by (intro Suc.IH) auto
  then show ?case
    using Suc.prems p by (simp add: walk_step [of _ seen])
qed

lemma kinds_Min:
  assumes "c \<noteq> []"
  shows "Min ((\<lambda>r. evidence_kind_strength (ev_kind (ev_body r))) ` set c) = weakest_kind c"
proof (rule Min_eqI)
  fix s assume "s \<in> (\<lambda>r. evidence_kind_strength (ev_kind (ev_body r))) ` set c"
  then obtain r where "r \<in> set c" "s = evidence_kind_strength (ev_kind (ev_body r))" by auto
  then show "weakest_kind c \<le> s"
    by (cases "ev_kind (ev_body r)") (auto simp: weakest_kind_def strength_order)
next
  show "weakest_kind c \<in> (\<lambda>r. evidence_kind_strength (ev_kind (ev_body r))) ` set c"
  proof (cases "\<exists>r \<in> set c. ev_kind (ev_body r) = StateSnapshot")
    case True
    then show ?thesis by (force simp: weakest_kind_def)
  next
    case False
    then have "ev_kind (ev_body r) = DecisionAttestation" if "r \<in> set c" for r
      using that by (cases "ev_kind (ev_body r)") auto
    then show ?thesis using False hd_in_set [OF assms] by (force simp: weakest_kind_def)
  qed
qed simp

lemma recompute_distinct:
  assumes "inj sh" and "ids_distinct c" and "c \<noteq> []"
  shows "recompute_chain_strength sh c = weakest_kind c"
proof -
  define n where "n = length c - 1"
  let ?nodes = "map (chain_node sh c) [0..<length c]"
  have n: "length c = Suc n" using assms(3) by (simp add: n_def)
  have ends: "last ?nodes = chain_node sh c n" "butlast ?nodes = map (chain_node sh c) [0..<length c - 1]"
    by (simp_all add: n)
  have "walk (map (chain_node sh c) [0..<length c - 1]) [] [] (chain_node sh c n) = [] @ rev (map (chain_node sh c) [0..<Suc n])"
    using n by (intro walk_whole_chain [OF assms(1,2)]) auto
  then have "rev (walk (butlast ?nodes) [] [] (last ?nodes)) = ?nodes"
    unfolding ends n by simp
  then have "recompute_chain_strength sh c = Min (node_strength ` set ?nodes)"
    using assms(3) by (simp add: recompute_chain_strength_def walk_provenance_chain_def Let_def aggregate_Min del: upt_Suc)
  also have "node_strength ` set ?nodes = (\<lambda>r. evidence_kind_strength (ev_kind (ev_body r))) ` set c"
  proof -
    have "map (\<lambda>i. evidence_kind_strength (ev_kind (ev_body (c ! i)))) [0..<length c] =
        map (\<lambda>r. evidence_kind_strength (ev_kind (ev_body r))) c"
      by (rule nth_equalityI) simp_all
    from arg_cong [OF this, of set] show ?thesis by (simp add: image_image)
  qed
  finally show ?thesis using kinds_Min [OF assms(3)] by simp
qed

text \<open>Two records of one identifier at the end of a chain: the walk stops at the last one.\<close>

lemma recompute_repeated:
  assumes "evidence_id (ev_body s) = evidence_id (ev_body a)"
  shows "recompute_chain_strength sh (xs @ [s, a]) = evidence_kind_strength (ev_kind (ev_body a))"
proof -
  let ?c = "xs @ [s, a]"
  define n where "n = Suc (length xs)"
  let ?nodes = "map (chain_node sh ?c) [0..<length ?c]" and ?N = "chain_node sh ?c"
  have ends: "last ?nodes = ?N n" "butlast ?nodes = map ?N [0..<n]" by (simp_all add: n_def butlast_append)
  have c: "?c ! n = a" "?c ! (n - 1) = s" by (simp_all add: n_def nth_append)
  have "walk (map ?N [0..<n]) [] [] (?N n) = [?N n]"
  proof (cases "parent_of (map ?N [0..<n]) (?N n)")
    case None
    then show ?thesis by (simp add: walk_step [of _ "[]"])
  next
    case (Some p)
    then have "node_id p = sh (evidence_id (ev_body s))"
      using c(2) by (auto simp: parent_of_def chain_node_def n_def nth_append dest: parent_lookup_Some(2))
    then have "node_id p = node_id (?N n)" using assms c(1) by simp
    then show ?thesis using Some by (simp add: walk_step [of _ "[]"] walk_step [of _ "[_]"])
  qed
  then show ?thesis
    unfolding recompute_chain_strength_def walk_provenance_chain_def Let_def ends
    by (simp add: aggregate_chain_strength_def c(1))
qed

section \<open>Grouping\<close>

lemma group_Some:
  assumes "group_evidence_by_decision rs h = Some c"
  shows "c \<noteq> [] \<and> set c = {r \<in> set rs. ev_decision_hash (ev_body r) = h}"
proof -
  have g: "filter (\<lambda>r. ev_decision_hash (ev_body r) = h) rs \<noteq> []"
    "c = sort_key evidence_key (filter (\<lambda>r. ev_decision_hash (ev_body r) = h) rs)"
    using assms by (auto simp: group_evidence_by_decision_def Let_def split: if_splits)
  have "set c = set (filter (\<lambda>r. ev_decision_hash (ev_body r) = h) rs)" unfolding g(2) by simp
  then show ?thesis using g(1) by (metis set_empty set_filter)
qed

lemma group_None_iff: "group_evidence_by_decision rs h = None \<longleftrightarrow> (\<forall>r \<in> set rs. ev_decision_hash (ev_body r) \<noteq> h)"
  by (auto simp: group_evidence_by_decision_def Let_def filter_empty_conv)

lemma group_distinct:
  assumes "ids_distinct rs" and "group_evidence_by_decision rs h = Some c"
  shows "ids_distinct c"
proof -
  let ?g = "filter (\<lambda>r. ev_decision_hash (ev_body r) = h) rs"
  have "c = sort_key evidence_key ?g"
    using assms(2) by (auto simp: group_evidence_by_decision_def Let_def split: if_splits)
  then have "mset (map (\<lambda>r. evidence_id (ev_body r)) c) = mset (map (\<lambda>r. evidence_id (ev_body r)) ?g)" by simp
  moreover have "distinct (map (\<lambda>r. evidence_id (ev_body r)) ?g)"
    using assms(1) by (simp add: ids_distinct_def distinct_map_filter)
  ultimately show ?thesis unfolding ids_distinct_def by (metis mset_eq_imp_distinct_iff)
qed

text \<open>The verdict on one decision.\<close>

lemma verify_decision_distinct:
  assumes "inj sh" and "ids_distinct rs"
  shows "valid (verify_decision sh (group_evidence_by_decision rs) d) \<longleftrightarrow>
      (\<exists>r \<in> set rs. ev_decision_hash (ev_body r) = da_hash d) \<and>
      (declared_strength d \<le> Signed \<or>
       (\<forall>r \<in> set rs. ev_decision_hash (ev_body r) = da_hash d \<longrightarrow> ev_kind (ev_body r) = DecisionAttestation))"
proof (cases "group_evidence_by_decision rs (da_hash d)")
  case None
  then show ?thesis
    using group_None_iff [of rs "da_hash d"] by (auto simp: verify_decision_def Let_def)
next
  case (Some c)
  note g = group_Some [OF Some]
  have r: "recompute_chain_strength sh c = weakest_kind c"
    using recompute_distinct [OF assms(1) group_distinct [OF assms(2) Some]] g by simp
  have "valid (verify_decision sh (group_evidence_by_decision rs) d) \<longleftrightarrow> declared_strength d \<le> weakest_kind c"
    using Some g r by (simp add: verify_decision_def Let_def)
  moreover have "weakest_kind c = (if \<exists>r \<in> set rs. ev_decision_hash (ev_body r) = da_hash d \<and> ev_kind (ev_body r) = StateSnapshot
      then Signed else Anchored)"
    using g by (auto simp: weakest_kind_def)
  moreover have "\<exists>r \<in> set rs. ev_decision_hash (ev_body r) = da_hash d"
    using g by (metis (mono_tags, lifting) hd_in_set mem_Collect_eq)
  ultimately show ?thesis by (metis (full_types) Anchored_greatest evidence_kind.exhaust evidence_kind.distinct(1))
qed





lemma optional_Inr: "read_optional p x = Inr t \<longleftrightarrow> (\<exists>u. x = FileText u \<and> t = Some u) \<or> x = FileNotFound \<and> t = None"
  by (cases x) auto








text \<open>A concrete text of identifiers, for the examples.\<close>

definition unary_uuid :: "uuid \<Rightarrow> string" where
  "unary_uuid u = replicate (unat u) CHR ''1''"

lemma inj_unary_uuid: "inj unary_uuid"
  by (rule injI) (metis length_replicate unary_uuid_def word_unat_eq_iff)

section \<open>Properties\<close>





text \<open>
  When the last two records of the evidence for a decision share an identifier, the walk stops before the
  weaker one: a snapshot and an attestation with one identifier recompute to \<open>Anchored\<close>, so
  a decision that declares \<open>Anchored\<close> passes although its snapshot is only \<open>Signed\<close>; with different
  identifiers the same two records fail.
\<close>

theorem verify_repeated_identifier:
  assumes "ev_kind (ev_body s) = StateSnapshot" and "ev_kind (ev_body a) = DecisionAttestation"
    and "recorded_at (ev_body s) \<le> recorded_at (ev_body a)"
    and "ev_decision_hash (ev_body s) = da_hash d" and "ev_decision_hash (ev_body a) = da_hash d"
    and "declared_strength d = Anchored" and "inj sh"
  shows "valid (verify_decision sh (group_evidence_by_decision [s, a]) d) \<longleftrightarrow>
    evidence_id (ev_body s) = evidence_id (ev_body a)"
proof (cases "evidence_id (ev_body s) = evidence_id (ev_body a)")
  case True
  have "evidence_key s \<le> evidence_key a" using assms(1-3) by (auto simp: evidence_key_def less_eq_prod_def)
  then have "group_evidence_by_decision [s, a] (da_hash d) = Some [s, a]"
    using assms(4,5) by (simp add: group_evidence_by_decision_def Let_def)
  then show ?thesis
    using True assms recompute_repeated [OF True, of sh "[]"] by (simp add: verify_decision_def Let_def)
next
  case False
  then have "ids_distinct [s, a]" by (simp add: ids_distinct_def)
  from verify_decision_distinct [OF assms(7) this, of d] show ?thesis
    using False assms by (auto simp: strength_order)
qed

theorem verify_repeated_identifier_witness:
  "\<exists>s a d. ev_kind (ev_body s) = StateSnapshot \<and> declared_strength d = Anchored \<and>
     valid (verify_decision unary_uuid (group_evidence_by_decision [s, a]) d)"
proof -
  define s where "s = \<lparr>ev_body = \<lparr>evidence_id = 5, ev_run_id = 1, recorded_at = 0, ev_kind = StateSnapshot,
      ev_subject = [], ev_status = StatusOk, ev_reason_code = [], ev_message = NoInputText, ev_state_hash = [],
      ev_decision_hash = ''h''\<rparr>, ev_hash = []\<rparr>"
  define a where "a = s\<lparr>ev_body := (ev_body s)\<lparr>ev_kind := DecisionAttestation, recorded_at := 1\<rparr>\<rparr>"
  define d where "d = \<lparr>da_decision_id = 1, da_run_id = 1, da_created_at = 0, da_status = StatusOk,
         da_reason_code = [], da_message = NoInputText, da_state_hash = [], da_left = Some Anchored, da_right = Some Local,
         da_report = None, da_hash = ''h''\<rparr>"
  have "declared_strength d = Anchored" by (simp add: d_def declared_strength_def max_def)
  then show ?thesis
    using verify_repeated_identifier [of s a d unary_uuid] inj_unary_uuid by (force simp: s_def a_def d_def)
qed

end
