(* ===== verification/Defense.thy ===== *)
theory Defense
  imports Nexo_Prelude "HOL-Library.AList"
begin

text \<open>
  The input checks and the sliding-window rate limiter of \<^verbatim>\<open>crates/host/src/defense.rs\<close> and its
  bounds in \<^verbatim>\<open>limits.rs\<close>. The keyed hash of \<^verbatim>\<open>RandomState\<close> is a parameter; times are readings of a
  monotone clock. A check holds the lock of one shard from its reading of the clock on and is one step. The cleanup
  thread reads the clock, takes the shards one by one and then lowers the counter: each of these is a step of its own,
  and checks may come in between.
\<close>

unbundle bit_operations_syntax

section \<open>Input validation\<close>

datatype validation_error = EmptyInput | ExceedsMaxSize nat nat | SuspiciousPattern string

definition validate_raw_input :: "string \<Rightarrow> nat \<Rightarrow> validation_error + unit" where
  "validate_raw_input input max_bytes =
     (if input = [] then Inl EmptyInput
      else if max_bytes < length input then Inl (ExceedsMaxSize max_bytes (length input))
      else if CHR 0x00 \<in> set input then Inl (SuspiciousPattern ''null byte encontrado'')
      else Inr ())"

section \<open>The rate limiter\<close>

definition MAX_RATE_LIMIT_SOURCES :: nat where
  "MAX_RATE_LIMIT_SOURCES = 100000"

definition MAX_RATE_LIMIT_KEY_LEN :: nat where
  "MAX_RATE_LIMIT_KEY_LEN = 128"

abbreviation NUM_SHARDS :: nat where "NUM_SHARDS \<equiv> 64"

type_synonym shard = "(string \<times> nat list) list"

definition trim_expired :: "nat list \<Rightarrow> nat \<Rightarrow> nat \<Rightarrow> nat list" where
  "trim_expired ts now window = dropWhile (\<lambda>t. window \<le> now - t) ts"

record source_limiter =
  shards :: "shard list"
  active_sources :: nat
  max_requests :: nat
  limit_window :: nat
  max_sources :: nat
  max_source_key_len :: nat

definition source_limiter_new :: "nat \<Rightarrow> nat \<Rightarrow> source_limiter" where
  "source_limiter_new max_req window =
     \<lparr>shards = replicate NUM_SHARDS [], active_sources = 0, max_requests = max_req, limit_window = window,
      max_sources = MAX_RATE_LIMIT_SOURCES, max_source_key_len = MAX_RATE_LIMIT_KEY_LEN\<rparr>"

definition get_shard_index :: "(string \<Rightarrow> u64) \<Rightarrow> string \<Rightarrow> nat" where
  "get_shard_index hash k = unat (hash k AND word_of_nat (NUM_SHARDS - 1))"

definition check_source :: "(string \<Rightarrow> u64) \<Rightarrow> source_limiter \<Rightarrow> string \<Rightarrow> nat \<Rightarrow> bool \<times> source_limiter" where
  "check_source hash L k now =
     (if max_source_key_len L < length k then (False, L)
      else if max_requests L = 0 then (False, L)
      else
        let i = get_shard_index hash k; sh = shards L ! i
        in case map_of sh k of
             Some ts \<Rightarrow>
               let ts = trim_expired ts now (limit_window L)
               in if max_requests L \<le> length ts then (False, L\<lparr>shards := (shards L)[i := AList.update k ts sh]\<rparr>)
                  else (True, L\<lparr>shards := (shards L)[i := AList.update k (ts @ [now]) sh]\<rparr>)
           | None \<Rightarrow>
               if active_sources L < max_sources L then
                 (True, L\<lparr>active_sources := active_sources L + 1, shards := (shards L)[i := AList.update k [now] sh]\<rparr>)
               else (False, L))"

definition clean_shard :: "nat \<Rightarrow> nat \<Rightarrow> shard \<Rightarrow> shard" where
  "clean_shard now window sh =
     filter (\<lambda>e. snd e \<noteq> []) (map (\<lambda>(k, ts). (k, trim_expired ts now window)) sh)"

text \<open>
  The cleanup thread: asleep, or on its way through the shards with the time it woke up, the next shard and the
  number of sources removed so far.
\<close>

datatype cleaner = Asleep | Sweeping nat nat nat

definition cleanup_wake :: "nat \<Rightarrow> cleaner \<Rightarrow> cleaner" where
  "cleanup_wake now c = (case c of Asleep \<Rightarrow> Sweeping now 0 0 | Sweeping t i r \<Rightarrow> c)"

text \<open>The next shard under its lock, or the end of the loop, which lowers the counter.\<close>

definition cleanup_step :: "source_limiter \<Rightarrow> cleaner \<Rightarrow> source_limiter \<times> cleaner" where
  "cleanup_step L c =
     (case c of
        Asleep \<Rightarrow> (L, Asleep)
      | Sweeping now i total_removed \<Rightarrow>
          if i < NUM_SHARDS then
            let sh = clean_shard now (limit_window L) (shards L ! i)
            in (L\<lparr>shards := (shards L)[i := sh]\<rparr>, Sweeping now (Suc i) (total_removed + (length (shards L ! i) - length sh)))
          else
            (L\<lparr>active_sources := (if 0 < total_removed then active_sources L - total_removed else active_sources L)\<rparr>, Asleep))"

section \<open>Runs\<close>

text \<open>
  A check with its reading of the clock, the cleanup thread waking up with its reading, and its next step. Besides the
  limiter and the cleanup thread the state records the accepted calls, oldest first, and for each shard the latest
  reading used under its lock.
\<close>

datatype limiter_event = Check string nat | WakeUp nat | CleanNext

record limiter_state =
  ls_limiter :: source_limiter
  ls_cleaner :: cleaner
  ls_accepted :: "(string \<times> nat) list"
  ls_clock :: "nat \<Rightarrow> nat"

definition limiter_start :: "nat \<Rightarrow> nat \<Rightarrow> limiter_state" where
  "limiter_start m w = \<lparr>ls_limiter = source_limiter_new m w, ls_cleaner = Asleep, ls_accepted = [], ls_clock = (\<lambda>i. 0)\<rparr>"

definition sweep_clock :: "cleaner \<Rightarrow> (nat \<Rightarrow> nat) \<Rightarrow> nat \<Rightarrow> nat" where
  "sweep_clock c f = (case c of Asleep \<Rightarrow> f | Sweeping now i r \<Rightarrow> f(i := max (f i) now))"

fun limiter_step :: "(string \<Rightarrow> u64) \<Rightarrow> limiter_state \<Rightarrow> limiter_event \<Rightarrow> limiter_state" where
  "limiter_step hash s (Check k t) =
     (let (ok, L) = check_source hash (ls_limiter s) k t
      in s\<lparr>ls_limiter := L, ls_accepted := (if ok then ls_accepted s @ [(k, t)] else ls_accepted s),
           ls_clock := (ls_clock s)(get_shard_index hash k := t)\<rparr>)"
| "limiter_step hash s (WakeUp t) = s\<lparr>ls_cleaner := cleanup_wake t (ls_cleaner s)\<rparr>"
| "limiter_step hash s CleanNext =
     (let (L, c) = cleanup_step (ls_limiter s) (ls_cleaner s)
      in s\<lparr>ls_limiter := L, ls_cleaner := c, ls_clock := sweep_clock (ls_cleaner s) (ls_clock s)\<rparr>)"

definition limiter_run :: "(string \<Rightarrow> u64) \<Rightarrow> limiter_state \<Rightarrow> limiter_event list \<Rightarrow> limiter_state" where
  "limiter_run hash s es = foldl (limiter_step hash) s es"

text \<open>
  The clock is monotone: what a check reads under the lock of a shard is no earlier than what was read before the
  lock was last held. Nothing relates the readings of checks on different shards.
\<close>

fun in_order :: "(string \<Rightarrow> u64) \<Rightarrow> limiter_state \<Rightarrow> limiter_event list \<Rightarrow> bool" where
  "in_order hash s [] \<longleftrightarrow> True"
| "in_order hash s (e # es) \<longleftrightarrow>
     (case e of Check k t \<Rightarrow> ls_clock s (get_shard_index hash k) \<le> t | _ \<Rightarrow> True) \<and> in_order hash (limiter_step hash s e) es"

text \<open>The sources removed by a cleanup that has not yet lowered the counter.\<close>

definition removed_by :: "cleaner \<Rightarrow> nat" where
  "removed_by c = (case c of Asleep \<Rightarrow> 0 | Sweeping now i r \<Rightarrow> r)"

text \<open>The calls of one source accepted in the window that ends at a time.\<close>

definition accepted_in :: "nat \<Rightarrow> string \<Rightarrow> nat \<Rightarrow> (string \<times> nat) list \<Rightarrow> nat" where
  "accepted_in w k T acc = length (filter (\<lambda>(j, t). j = k \<and> t \<le> T \<and> T - t < w) acc)"

section \<open>The invariant\<close>

definition shard_ok :: "(string \<Rightarrow> u64) \<Rightarrow> nat \<Rightarrow> shard \<Rightarrow> bool" where
  "shard_ok hash i sh \<longleftrightarrow> distinct (map fst sh) \<and> (\<forall>k \<in> fst ` set sh. get_shard_index hash k = i)"

definition times_of :: "string \<Rightarrow> (string \<times> nat) list \<Rightarrow> nat list" where
  "times_of k acc = map snd (filter (\<lambda>e. fst e = k) acc)"

definition history :: "(string \<Rightarrow> u64) \<Rightarrow> source_limiter \<Rightarrow> string \<Rightarrow> nat list" where
  "history hash L k = (case map_of (shards L ! get_shard_index hash k) k of None \<Rightarrow> [] | Some ts \<Rightarrow> ts)"

definition sources_inv :: "(string \<Rightarrow> u64) \<Rightarrow> nat \<Rightarrow> source_limiter \<Rightarrow> bool" where
  "sources_inv hash r L \<longleftrightarrow>
     length (shards L) = NUM_SHARDS \<and> (\<forall>i < NUM_SHARDS. shard_ok hash i (shards L ! i)) \<and>
     active_sources L = sum_list (map length (shards L)) + r \<and> active_sources L \<le> max_sources L"

text \<open>
  For one source: the accepted times are those already forgotten, all outside the window, followed by
  those still in the shard, and no window holds more than the maximum.
\<close>

definition times_inv :: "nat \<Rightarrow> nat \<Rightarrow> nat \<Rightarrow> nat list \<Rightarrow> nat list \<Rightarrow> bool" where
  "times_inv w m now acc hist \<longleftrightarrow>
     (\<exists>old. acc = old @ hist \<and> (\<forall>t \<in> set old. w \<le> now - t)) \<and> sorted acc \<and> (\<forall>t \<in> set acc. t \<le> now) \<and>
     length hist \<le> m \<and> (\<forall>T. length (filter (\<lambda>t. t \<le> T \<and> T - t < w) acc) \<le> m)"

lemma shard_index_bound: "get_shard_index hash k < NUM_SHARDS"
proof -
  have "hash k AND word_of_nat (NUM_SHARDS - 1) = take_bit 6 (hash k)"
    using take_bit_eq_mask [of 6 "hash k"] by (simp add: mask_eq_exp_minus_1)
  then have "get_shard_index hash k = unat (take_bit 6 (hash k))" by (simp add: get_shard_index_def)
  also have "\<dots> = take_bit 6 (unat (hash k))" by (simp add: unsigned_take_bit_eq)
  also have "\<dots> < 2 ^ 6" by (rule take_bit_nat_less_exp)
  finally show ?thesis by simp
qed

section \<open>Trimming\<close>

lemma trim_split:
  "\<exists>old. ts = old @ trim_expired ts now w \<and> (\<forall>t \<in> set old. w \<le> now - t)"
  by (rule exI [of _ "takeWhile (\<lambda>t. w \<le> now - t) ts"]) (auto simp: trim_expired_def dest: set_takeWhileD)

lemma trim_recent:
  assumes "sorted ts" and "t \<in> set (trim_expired ts now w)" and "0 < w"
  shows "now - t < w"
proof -
  let ?xs = "trim_expired ts now w"
  have ne: "?xs \<noteq> []" using assms(2) by auto
  have h: "\<not> w \<le> now - hd ?xs" using hd_dropWhile [OF ne [unfolded trim_expired_def]] by (simp add: trim_expired_def)
  have "sorted ?xs" using assms(1) by (simp add: trim_expired_def sorted_dropWhile)
  then have "hd ?xs \<le> t" using assms(2) ne by (cases ?xs) auto
  then show ?thesis using h by linarith
qed

lemma accepted_in_times: "accepted_in w k T acc = length (filter (\<lambda>t. t \<le> T \<and> T - t < w) (times_of k acc))"
  by (induction acc) (auto simp: accepted_in_def times_of_def)

lemma length_filter_mono: "(\<And>x. x \<in> set xs \<Longrightarrow> P x \<Longrightarrow> Q x) \<Longrightarrow> length (filter P xs) \<le> length (filter Q xs)"
  by (induction xs) (auto simp: le_SucI)

text \<open>
  A new acceptance: if at most \<open>m - 1\<close> of the earlier times are inside the window that ends now, no
  window holds more than \<open>m\<close>.
\<close>

lemma push_bound:
  fixes w :: nat
  assumes "\<forall>T. length (filter (\<lambda>t. t \<le> T \<and> T - t < w) xs) \<le> m"
    and "length (filter (\<lambda>t. now - t < w) xs) < m" and "\<forall>t \<in> set xs. t \<le> now"
  shows "length (filter (\<lambda>t. t \<le> T \<and> T - t < w) (xs @ [now])) \<le> m"
proof (cases "now \<le> T")
  case True
  have "length (filter (\<lambda>t. t \<le> T \<and> T - t < w) xs) \<le> length (filter (\<lambda>t. now - t < w) xs)"
    using le_less_trans [OF diff_le_mono [OF True]] by (intro length_filter_mono) blast
  then show ?thesis using assms(2) by (simp add: less_Suc_eq_le)
next
  case False
  then show ?thesis using assms(1) by simp
qed

section \<open>One source\<close>

lemma times_later: "times_inv w m now acc hist \<Longrightarrow> now \<le> now' \<Longrightarrow> times_inv w m now' acc hist"
  unfolding times_inv_def by (auto 0 3 intro: order_trans [OF _ diff_le_mono] order_trans)

lemma times_trim:
  assumes "times_inv w m now acc hist" and "n \<le> now"
  shows "times_inv w m now acc (trim_expired hist n w)"
proof -
  obtain old where old: "acc = old @ hist" "\<forall>t \<in> set old. w \<le> now - t" using assms by (auto simp: times_inv_def)
  obtain mid where mid: "hist = mid @ trim_expired hist n w" "\<forall>t \<in> set mid. w \<le> n - t" using trim_split by blast
  then have "acc = (old @ mid) @ trim_expired hist n w" using old by simp
  moreover have "w \<le> now - t" if "t \<in> set mid" for t using mid(2) that assms(2) by (meson diff_le_mono order_trans)
  then have "\<forall>t \<in> set (old @ mid). w \<le> now - t" using old by auto
  moreover have "length (trim_expired hist n w) \<le> m"
    using assms length_dropWhile_le [of _ hist] by (auto simp: times_inv_def trim_expired_def intro: order_trans)
  ultimately show ?thesis using assms(1) unfolding times_inv_def by blast
qed

lemma times_push:
  assumes "times_inv w m now acc hist" and "length hist < m"
  shows "times_inv w m now (acc @ [now]) (hist @ [now])"
proof -
  obtain old where old: "acc = old @ hist" "\<forall>t \<in> set old. w \<le> now - t" using assms by (auto simp: times_inv_def)
  have "filter (\<lambda>t. now - t < w) old = []" using old(2) by (force simp: filter_empty_conv)
  then have "length (filter (\<lambda>t. now - t < w) acc) \<le> length hist" by (simp add: old(1))
  then have "length (filter (\<lambda>t. now - t < w) acc) < m" using assms(2) by simp
  from push_bound [OF _ this] have "length (filter (\<lambda>t. t \<le> T \<and> T - t < w) (acc @ [now])) \<le> m" for T
    using assms(1) by (auto simp: times_inv_def)
  then show ?thesis
    using assms old unfolding times_inv_def by (auto simp: sorted_append)
qed

section \<open>The shards\<close>

lemma history_update:
  assumes "sources_inv hash r L" and "L' = L\<lparr>shards := (shards L)[get_shard_index hash k := AList.update k ts (shards L ! get_shard_index hash k)]\<rparr>"
  shows "history hash L' j = (if j = k then ts else history hash L j)"
  using assms shard_index_bound [of hash k] shard_index_bound [of hash j]
  by (auto simp: history_def sources_inv_def nth_list_update update_conv')

lemma map_of_clean:
  "distinct (map fst sh) \<Longrightarrow>
    (case map_of (clean_shard now w sh) k of None \<Rightarrow> [] | Some ts \<Rightarrow> ts) =
    trim_expired (case map_of sh k of None \<Rightarrow> [] | Some ts \<Rightarrow> ts) now w"
proof (induction sh)
  case Nil
  then show ?case by (simp add: clean_shard_def trim_expired_def)
next
  case (Cons e sh)
  have "map_of (clean_shard now w sh) (fst e) = None"
    using Cons.prems by (auto simp: clean_shard_def map_of_eq_None_iff image_iff split: prod.splits)
  then show ?case using Cons by (auto simp: clean_shard_def split: prod.splits)
qed

lemma history_clean:
  assumes "sources_inv hash r L" and "i < NUM_SHARDS"
  shows "history hash (L\<lparr>shards := (shards L)[i := clean_shard now w (shards L ! i)]\<rparr>) k =
    (if get_shard_index hash k = i then trim_expired (history hash L k) now w else history hash L k)"
  using assms shard_index_bound [of hash k] map_of_clean [of "shards L ! i" now w k]
  by (auto simp: history_def sources_inv_def shard_ok_def nth_list_update)

lemma length_update_alist:
  "distinct (map fst sh) \<Longrightarrow> length (AList.update k v sh) = (if k \<in> fst ` set sh then length sh else length sh + 1)"
  by (induction sh) auto

lemma sources_update:
  assumes inv: "sources_inv hash r L" and i: "i = get_shard_index hash k"
    and a: "a = (if k \<in> fst ` set (shards L ! i) then active_sources L else active_sources L + 1)" and le: "a \<le> max_sources L"
  shows "sources_inv hash r (L\<lparr>active_sources := a, shards := (shards L)[i := AList.update k ts (shards L ! i)]\<rparr>)"
proof -
  have ib: "i < NUM_SHARDS" by (simp add: i shard_index_bound)
  have d: "distinct (map fst (shards L ! i))" "\<forall>j \<in> fst ` set (shards L ! i). get_shard_index hash j = i"
    and len: "length (shards L) = NUM_SHARDS" and s: "active_sources L = sum_list (map length (shards L)) + r"
    using inv ib by (auto simp: sources_inv_def shard_ok_def)
  have "shard_ok hash i (AList.update k ts (shards L ! i))"
    using d unfolding shard_ok_def dom_update by (simp add: distinct_update i [symmetric])
  moreover have "length (shards L ! i) \<le> sum_list (map length (shards L))"
    using ib len by (intro member_le_sum_list) auto
  then have "sum_list (map length ((shards L)[i := AList.update k ts (shards L ! i)])) + r = a"
    using d(1) ib len s a by (simp add: map_update sum_list_update length_update_alist)
  ultimately show ?thesis
    using inv ib le by (auto simp: sources_inv_def nth_list_update)
qed

lemma sources_clean:
  fixes w now :: nat
  assumes inv: "sources_inv hash r L" and i: "i < NUM_SHARDS"
  defines "sh \<equiv> clean_shard now w (shards L ! i)"
  shows "sources_inv hash (r + (length (shards L ! i) - length sh)) (L\<lparr>shards := (shards L)[i := sh]\<rparr>)"
proof -
  have len: "length (shards L) = NUM_SHARDS" using inv by (simp add: sources_inv_def)
  have sub: "fst ` set sh \<subseteq> fst ` set (shards L ! i)" by (force simp: sh_def clean_shard_def)
  have ok: "shard_ok hash i (shards L ! i)" using inv i by (simp add: sources_inv_def)
  then have "distinct (map fst sh)"
    unfolding sh_def clean_shard_def shard_ok_def by (intro distinct_map_filter) (simp add: comp_def split_beta)
  then have "shard_ok hash i sh" using ok sub unfolding shard_ok_def by blast
  moreover have le: "length sh \<le> length (shards L ! i)"
    unfolding sh_def clean_shard_def by (rule order_trans [OF length_filter_le]) simp
  moreover have "length (shards L ! i) \<le> sum_list (map length (shards L))"
    using i len by (intro member_le_sum_list) auto
  then have "sum_list (map length ((shards L)[i := sh])) + (length (shards L ! i) - length sh) = sum_list (map length (shards L))"
    using i len le by (simp add: map_update sum_list_update)
  ultimately show ?thesis using inv i by (auto simp: sources_inv_def nth_list_update)
qed

section \<open>Steps\<close>

definition limiter_ok ::
  "(string \<Rightarrow> u64) \<Rightarrow> nat \<Rightarrow> nat \<Rightarrow> nat \<Rightarrow> (nat \<Rightarrow> nat) \<Rightarrow> source_limiter \<Rightarrow> (string \<times> nat) list \<Rightarrow> bool" where
  "limiter_ok hash w m r clock L acc \<longleftrightarrow>
     sources_inv hash r L \<and> limit_window L = w \<and> max_requests L = m \<and>
     (\<forall>k. times_inv w m (clock (get_shard_index hash k)) (times_of k acc) (history hash L k))"

definition limiter_inv :: "(string \<Rightarrow> u64) \<Rightarrow> nat \<Rightarrow> nat \<Rightarrow> limiter_state \<Rightarrow> bool" where
  "limiter_inv hash w m s \<longleftrightarrow>
     limiter_ok hash w m (removed_by (ls_cleaner s)) (ls_clock s) (ls_limiter s) (ls_accepted s)"

lemma limiter_ok_later:
  "limiter_ok hash w m r f L acc \<Longrightarrow> (\<And>i. f i \<le> g i) \<Longrightarrow> limiter_ok hash w m r g L acc"
  unfolding limiter_ok_def using times_later by blast

lemma limiter_ok_clean:
  assumes ok: "limiter_ok hash w m r clock L acc" and i: "i < NUM_SHARDS" and now: "now \<le> clock i"
  shows "limiter_ok hash w m (r + (length (shards L ! i) - length (clean_shard now w (shards L ! i)))) clock
    (L\<lparr>shards := (shards L)[i := clean_shard now w (shards L ! i)]\<rparr>) acc"
proof -
  let ?L = "L\<lparr>shards := (shards L)[i := clean_shard now w (shards L ! i)]\<rparr>"
  have src: "sources_inv hash r L" using ok by (simp add: limiter_ok_def)
  have "times_inv w m (clock (get_shard_index hash k)) (times_of k acc) (history hash ?L k)" for k
  proof -
    have t: "times_inv w m (clock (get_shard_index hash k)) (times_of k acc) (history hash L k)" using ok by (simp add: limiter_ok_def)
    have h: "history hash ?L k = (if get_shard_index hash k = i then trim_expired (history hash L k) now w else history hash L k)"
      by (rule history_clean [OF src i])
    show ?thesis
    proof (cases "get_shard_index hash k = i")
      case True
      have "times_inv w m (clock i) (times_of k acc) (trim_expired (history hash L k) now w)"
        using t now unfolding True by (rule times_trim)
      then show ?thesis unfolding h True if_P [OF refl] .
    next
      case False
      then show ?thesis unfolding h if_not_P [OF False] using t by simp
    qed
  qed
  then show ?thesis using sources_clean [OF src i, of now w] ok by (simp add: limiter_ok_def)
qed

lemma times_of_snoc: "times_of k (acc @ [(j, t)]) = (if j = k then times_of k acc @ [t] else times_of k acc)"
  by (simp add: times_of_def)

lemma check_source_ok:
  assumes inv: "limiter_ok hash w m r clock L acc" and c: "check_source hash L k now = (ok, L')"
    and now: "clock (get_shard_index hash k) = now"
  shows "limiter_ok hash w m r clock L' (if ok then acc @ [(k, now)] else acc)"
proof -
  let ?i = "get_shard_index hash k"
  have s: "sources_inv hash r L" "limit_window L = w" "max_requests L = m"
    and t: "\<And>j. times_inv w m (clock (get_shard_index hash j)) (times_of j acc) (history hash L j)"
    using inv by (simp_all add: limiter_ok_def)
  have tk: "times_inv w m now (times_of k acc) (history hash L k)" using t [of k] now by simp
  note outcome = c [unfolded check_source_def Let_def s(2,3)]
  consider "\<not> ok" "L' = L"
    | ts where "map_of (shards L ! ?i) k = Some ts" "\<not> ok"
        "L' = L\<lparr>shards := (shards L)[?i := AList.update k (trim_expired ts now w) (shards L ! ?i)]\<rparr>"
    | ts where "map_of (shards L ! ?i) k = Some ts" "ok" "length (trim_expired ts now w) < m"
        "L' = L\<lparr>shards := (shards L)[?i := AList.update k (trim_expired ts now w @ [now]) (shards L ! ?i)]\<rparr>"
    | "map_of (shards L ! ?i) k = None" "ok" "active_sources L < max_sources L" "0 < m"
        "L' = L\<lparr>active_sources := active_sources L + 1, shards := (shards L)[?i := AList.update k [now] (shards L ! ?i)]\<rparr>"
  proof (cases "max_source_key_len L < length k \<or> m = 0")
    case True
    then show thesis using outcome that(1) by (auto split: if_splits)
  next
    case pass: False
    show thesis
    proof (cases "map_of (shards L ! ?i) k")
      case None
      then show thesis using outcome that(1,4) pass by (cases "active_sources L < max_sources L") auto
    next
      case (Some ts)
      then show thesis using outcome that(2,3) pass by (cases "m \<le> length (trim_expired ts now w)") auto
    qed
  qed
  then show ?thesis
  proof cases
    case 1
    then show ?thesis using inv by simp
  next
    case (2 ts)
    have h: "history hash L k = ts" using 2 by (simp add: history_def)
    have "k \<in> fst ` set (shards L ! ?i)" using 2(1) by (force dest: map_of_SomeD)
    then have "sources_inv hash r L'"
      using sources_update [OF s(1) refl, of "active_sources L" k] s(1) 2 by (simp add: sources_inv_def)
    moreover have "times_inv w m (clock (get_shard_index hash j)) (times_of j acc) (history hash L' j)" for j
      using history_update [OF s(1) 2(3)] t [of j] times_trim [OF tk order_refl] h now by simp
    ultimately show ?thesis using 2 s by (simp add: limiter_ok_def)
  next
    case (3 ts)
    have h: "history hash L k = ts" using 3 by (simp add: history_def)
    have "k \<in> fst ` set (shards L ! ?i)" using 3(1) by (force dest: map_of_SomeD)
    then have "sources_inv hash r L'"
      using sources_update [OF s(1) refl, of "active_sources L" k] s(1) 3 by (simp add: sources_inv_def)
    moreover have "times_inv w m (clock (get_shard_index hash j)) (times_of j (acc @ [(k, now)])) (history hash L' j)" for j
      using history_update [OF s(1) 3(4)] t [of j] times_push [OF times_trim [OF tk order_refl]] 3(3) h now
      by (simp add: times_of_snoc)
    ultimately show ?thesis using 3 s by (simp add: limiter_ok_def)
  next
    case 4
    have h: "history hash L k = []" using 4 by (simp add: history_def)
    have "k \<notin> fst ` set (shards L ! ?i)" using 4(1) by (simp add: map_of_eq_None_iff)
    then have "sources_inv hash r L'"
      using sources_update [OF s(1) refl, of "active_sources L + 1" k] 4 by simp
    moreover have "times_inv w m (clock (get_shard_index hash j)) (times_of j (acc @ [(k, now)])) (history hash L' j)" for j
    proof -
      let ?L = "L\<lparr>shards := (shards L)[?i := AList.update k [now] (shards L ! ?i)]\<rparr>"
      have "history hash L' j = history hash ?L j" using 4 by (simp add: history_def)
      then show ?thesis
        using history_update [OF s(1) refl, of k "[now]"] t [of j] times_push [of w m now "times_of k acc" "[]"] tk now 4(4) h
        by (simp add: times_of_snoc)
    qed
    ultimately show ?thesis using 4 s by (simp add: limiter_ok_def)
  qed
qed

lemma limiter_step_inv:
  assumes "limiter_inv hash w m s" and "\<And>k t. e = Check k t \<Longrightarrow> ls_clock s (get_shard_index hash k) \<le> t"
  shows "limiter_inv hash w m (limiter_step hash s e)"
proof -
  have inv: "limiter_ok hash w m (removed_by (ls_cleaner s)) (ls_clock s) (ls_limiter s) (ls_accepted s)"
    using assms(1) by (simp add: limiter_inv_def)
  show ?thesis
  proof (cases e)
    case (Check k t)
    let ?g = "(ls_clock s)(get_shard_index hash k := t)"
    have "limiter_ok hash w m (removed_by (ls_cleaner s)) ?g (ls_limiter s) (ls_accepted s)"
      using assms(2) [OF Check] by (intro limiter_ok_later [OF inv]) simp
    moreover obtain ok L' where "check_source hash (ls_limiter s) k t = (ok, L')" by fastforce
    ultimately show ?thesis using check_source_ok by (fastforce simp: Check limiter_inv_def)
  next
    case (WakeUp t)
    then show ?thesis
      using inv by (auto simp: limiter_inv_def cleanup_wake_def removed_by_def split: cleaner.splits)
  next
    case CleanNext
    show ?thesis
    proof (cases "ls_cleaner s")
      case Asleep
      then show ?thesis using inv by (simp add: CleanNext limiter_inv_def cleanup_step_def sweep_clock_def)
    next
      case (Sweeping now i r)
      show ?thesis
      proof (cases "i < NUM_SHARDS")
        case True
        let ?f = "sweep_clock (ls_cleaner s) (ls_clock s)"
        have f: "limiter_ok hash w m r ?f (ls_limiter s) (ls_accepted s)"
        proof (rule limiter_ok_later)
          show "limiter_ok hash w m r (ls_clock s) (ls_limiter s) (ls_accepted s)"
            using inv unfolding Sweeping removed_by_def cleaner.case .
          show "ls_clock s j \<le> ?f j" for j by (simp add: Sweeping sweep_clock_def)
        qed
        have "now \<le> ?f i" by (simp add: Sweeping sweep_clock_def)
        then have "limiter_ok hash w m (r + (length (shards (ls_limiter s) ! i) - length (clean_shard now w (shards (ls_limiter s) ! i)))) ?f
            ((ls_limiter s)\<lparr>shards := (shards (ls_limiter s))[i := clean_shard now w (shards (ls_limiter s) ! i)]\<rparr>) (ls_accepted s)"
          by (rule limiter_ok_clean [OF f True])
        moreover have "limit_window (ls_limiter s) = w" using f by (simp add: limiter_ok_def)
        ultimately show ?thesis
          using True by (simp add: CleanNext limiter_inv_def cleanup_step_def Sweeping Let_def removed_by_def)
      next
        case False
        have "ls_clock s j \<le> sweep_clock (ls_cleaner s) (ls_clock s) j" for j by (simp add: Sweeping sweep_clock_def)
        from limiter_ok_later [OF inv this] False show ?thesis
          by (auto simp: CleanNext limiter_inv_def limiter_ok_def cleanup_step_def Sweeping removed_by_def sources_inv_def history_def)
      qed
    qed
  qed
qed

lemma limiter_start_inv: "limiter_inv hash w m (limiter_start m w)"
proof -
  have "history hash (source_limiter_new m w) k = []" for k
    using shard_index_bound [of hash k] by (simp add: history_def source_limiter_new_def)
  then show ?thesis
    by (simp add: limiter_inv_def limiter_start_def limiter_ok_def sources_inv_def times_inv_def times_of_def source_limiter_new_def
        shard_ok_def removed_by_def)
qed

lemma limiter_run_inv:
  "limiter_inv hash w m s \<Longrightarrow> in_order hash s es \<Longrightarrow> limiter_inv hash w m (limiter_run hash s es)"
proof (induction es arbitrary: s)
  case (Cons e es)
  have "limiter_inv hash w m (limiter_step hash s e)"
    by (rule limiter_step_inv [OF Cons.prems(1)]) (use Cons.prems(2) in simp)
  then show ?case using Cons.IH Cons.prems(2) by (simp add: limiter_run_def)
qed (simp add: limiter_run_def)

lemma step_limits:
  "max_sources (ls_limiter (limiter_step hash s e)) = max_sources (ls_limiter s)"
  "max_source_key_len (ls_limiter (limiter_step hash s e)) = max_source_key_len (ls_limiter s)"
  by (cases e; simp add: cleanup_step_def Let_def check_source_def split: prod.split option.split cleaner.split)+

lemma run_limits:
  "max_sources (ls_limiter (foldl (limiter_step hash) s es)) = max_sources (ls_limiter s)"
  "max_source_key_len (ls_limiter (foldl (limiter_step hash) s es)) = max_source_key_len (ls_limiter s)"
  by (induction es arbitrary: s) (simp_all add: step_limits)

text \<open>What is left after trimming is what the window holds.\<close>

lemma window_is_trimmed:
  assumes "times_inv w m now (times_of k acc) hist" and "0 < w"
  shows "accepted_in w k now acc = length (trim_expired hist now w)"
proof -
  have "times_inv w m now (times_of k acc) (trim_expired hist now w)" by (rule times_trim [OF assms(1) order_refl])
  then obtain old where old: "times_of k acc = old @ trim_expired hist now w" "\<forall>t \<in> set old. w \<le> now - t"
    and le: "\<forall>t \<in> set (times_of k acc). t \<le> now" by (auto simp: times_inv_def)
  have "sorted hist" using assms(1) by (auto simp: times_inv_def sorted_append)
  then have "filter (\<lambda>t. t \<le> now \<and> now - t < w) (trim_expired hist now w) = trim_expired hist now w"
    using trim_recent [OF _ _ assms(2)] le old(1) by (intro filter_True) auto
  moreover have "filter (\<lambda>t. t \<le> now \<and> now - t < w) old = []" using old(2) by (force simp: filter_empty_conv)
  ultimately show ?thesis by (simp add: accepted_in_times old(1))
qed

section \<open>Properties\<close>

text \<open>
  C18: whatever checks, wake-ups and steps of the cleanup thread follow each other, with a clock that is monotone under the lock of
  each shard, no window of the limiter's length, at any moment, contains more accepted calls of one source than
  the maximum. The counter of sources is the number of tracked sources plus those that a running cleanup removed and has not
  subtracted yet, and at most 100000. With a positive maximum and a positive window the next call with a key of at most
  128 bytes is accepted, for a tracked source, exactly when its window still has room, and for a new one exactly when the counter
  is below 100000.
\<close>

theorem source_limiter_window:
  assumes "in_order hash (limiter_start m w) es" and "s = limiter_run hash (limiter_start m w) es"
  shows "accepted_in w k T (ls_accepted s) \<le> m \<and>
    active_sources (ls_limiter s) = sum_list (map length (shards (ls_limiter s))) +
      (case ls_cleaner s of Asleep \<Rightarrow> 0 | Sweeping start i removed \<Rightarrow> removed) \<and>
    active_sources (ls_limiter s) \<le> 100000 \<and>
    (length k \<le> 128 \<longrightarrow> 0 < m \<longrightarrow> 0 < w \<longrightarrow> ls_clock s (get_shard_index hash k) \<le> now \<longrightarrow>
      fst (check_source hash (ls_limiter s) k now) =
        (if map_of (shards (ls_limiter s) ! get_shard_index hash k) k = None then active_sources (ls_limiter s) < 100000
         else accepted_in w k now (ls_accepted s) < m))"
proof -
  have "limiter_inv hash w m s" unfolding assms(2) by (rule limiter_run_inv [OF limiter_start_inv assms(1)])
  then have src: "sources_inv hash (removed_by (ls_cleaner s)) (ls_limiter s)" "limit_window (ls_limiter s) = w" "max_requests (ls_limiter s) = m"
    and t: "times_inv w m (ls_clock s (get_shard_index hash k)) (times_of k (ls_accepted s)) (history hash (ls_limiter s) k)" for k
    by (simp_all add: limiter_inv_def limiter_ok_def)
  have lim: "max_sources (ls_limiter s) = 100000" "max_source_key_len (ls_limiter s) = 128"
    using run_limits [of hash "limiter_start m w" es]
    by (simp_all add: assms(2) limiter_run_def limiter_start_def source_limiter_new_def MAX_RATE_LIMIT_SOURCES_def MAX_RATE_LIMIT_KEY_LEN_def)
  have "fst (check_source hash (ls_limiter s) k now) =
        (if map_of (shards (ls_limiter s) ! get_shard_index hash k) k = None then active_sources (ls_limiter s) < 100000
         else accepted_in w k now (ls_accepted s) < m)"
    if "length k \<le> 128" "0 < m" "0 < w" "ls_clock s (get_shard_index hash k) \<le> now"
    using window_is_trimmed [OF times_later [OF t [of k] that(4)] that(3)] that src lim
    by (auto simp: check_source_def Let_def history_def split: option.split)
  moreover have "accepted_in w k T (ls_accepted s) \<le> m" using t [of k] by (simp add: accepted_in_times times_inv_def)
  ultimately show ?thesis using src lim by (simp add: sources_inv_def removed_by_def)
qed

text \<open>A cleanup that has passed the only used shard: one source is tracked, two are counted.\<close>

theorem source_limiter_window_witness:
  "let s = limiter_run (\<lambda>k. 0) (limiter_start 1 10) [Check ''a'' 5, WakeUp 20, CleanNext, Check ''b'' 21] in
    active_sources (ls_limiter s) = sum_list (map length (shards (ls_limiter s))) + 1 \<and> accepted_in 10 ''b'' 21 (ls_accepted s) \<le> 1 \<and>
    \<not> fst (check_source (\<lambda>k. 0) (ls_limiter s) ''b'' 30) \<and> fst (check_source (\<lambda>k. 0) (ls_limiter s) ''b'' 31)"
proof -
  let ?es = "[Check ''a'' 5, WakeUp 20, CleanNext, Check ''b'' 21]"
  define s where "s = limiter_run (\<lambda>k. 0) (limiter_start 1 10) ?es"
  have rep: "replicate 64 ([] :: shard) = [] # replicate 63 []" by (simp add: numeral_eq_Suc)
  note unfold = limiter_run_def check_source_def Let_def limiter_start_def source_limiter_new_def get_shard_index_def
    MAX_RATE_LIMIT_KEY_LEN_def MAX_RATE_LIMIT_SOURCES_def trim_expired_def rep cleanup_wake_def cleanup_step_def clean_shard_def sweep_clock_def
  have o: "in_order (\<lambda>k. 0) (limiter_start 1 10) ?es" by (simp add: unfold)
  have v: "ls_accepted s = [(''a'', 5), (''b'', 21)]" "ls_cleaner s = Sweeping 20 1 1" "ls_clock s 0 = 21"
    "map_of (shards (ls_limiter s) ! 0) ''b'' = Some [21]"
    by (simp_all add: s_def unfold)
  note w = source_limiter_window [OF o s_def, of "''b''"]
  have i: "get_shard_index (\<lambda>k. 0) ''b'' = 0" by (simp add: get_shard_index_def)
  show ?thesis
    unfolding Let_def s_def [symmetric] using w [of 21 30] w [of 21 31] by (simp add: v i accepted_in_def)
qed

end
