(* ===== verification/Assertion.thy ===== *)
theory Assertion
  imports Strength F64 Defense
begin

text \<open>
  The evidence engine of \<^verbatim>\<open>crates/host/src/ai.rs\<close>: the factors read from a JSON state, their score in
  \<^verbatim>\<open>f32\<close> arithmetic and the strength it is mapped to. Parsing JSON and time stamps is the work of
  libraries and is a parameter; a parsed value is the tree below, whose objects have unique keys.
\<close>

section \<open>JSON values\<close>

datatype json =
    JNull
  | JBool bool
  | JInt int
  | JStr string
  | JArr "json list"
  | JObj "(string \<times> json) list"

fun json_get :: "json \<Rightarrow> string \<Rightarrow> json option" where
  "json_get (JObj kvs) k = map_of kvs k"
| "json_get _ k = None"

fun as_str :: "json \<Rightarrow> string option" where
  "as_str (JStr s) = Some s"
| "as_str _ = None"

fun as_i64 :: "json \<Rightarrow> int option" where
  "as_i64 (JInt i) = (if - (2 ^ 63) \<le> i \<and> i < 2 ^ 63 then Some i else None)"
| "as_i64 _ = None"

definition get_str :: "json \<Rightarrow> string \<Rightarrow> string option" where
  "get_str j k = (case json_get j k of None \<Rightarrow> None | Some v \<Rightarrow> as_str v)"

definition get_i64 :: "json \<Rightarrow> string \<Rightarrow> int option" where
  "get_i64 j k = (case json_get j k of None \<Rightarrow> None | Some v \<Rightarrow> as_i64 v)"

section \<open>Factors\<close>

datatype purpose_quality = EmptyPurposeText | Generic | Specific

record evidence_factors =
  has_lgpd_metadata :: bool
  has_data_subject_hash :: bool
  has_consent_id :: bool
  has_dpia_ref :: bool
  has_valid_timestamp :: bool
  has_deterministic_id :: bool
  has_threshold :: bool
  has_input_value :: bool
  input_value_meets_threshold :: bool
  purpose_quality :: purpose_quality

text \<open>\<^verbatim>\<open>split_whitespace().count()\<close>.\<close>

fun word_count :: "bool \<Rightarrow> string \<Rightarrow> nat" where
  "word_count inside [] = 0"
| "word_count inside (c # cs) =
     (if is_space c then word_count False cs else if inside then word_count True cs else Suc (word_count True cs))"

definition evaluate_purpose :: "string \<Rightarrow> purpose_quality" where
  "evaluate_purpose purpose =
     (let t = trim purpose in
      if t = [] then EmptyPurposeText
      else if list_ex (\<lambda>g. map lower_char t = g) [''test'', ''teste'', ''debug'', ''exemplo'', ''example'', ''default'']
      then Generic
      else if 2 \<le> word_count False t \<or> 15 \<le> length t then Specific
      else Generic)"

definition analyze_factors :: "(string \<Rightarrow> bool) \<Rightarrow> json \<Rightarrow> evidence_factors" where
  "analyze_factors rfc3339 j =
     (let lgpd = json_get j ''lgpd'';
          has = (\<lambda>k. case lgpd of None \<Rightarrow> False | Some l \<Rightarrow> json_get l k \<noteq> None)
      in \<lparr>has_lgpd_metadata = (lgpd \<noteq> None),
          has_data_subject_hash = has ''data_subject_hash'',
          has_consent_id = has ''consent_id'',
          has_dpia_ref = has ''dpia_ref'',
          has_valid_timestamp = (case get_str j ''generated_at_utc'' of None \<Rightarrow> False | Some ts \<Rightarrow> rfc3339 ts),
          has_deterministic_id =
            (case get_str j ''run_id'' of
               None \<Rightarrow> False | Some r \<Rightarrow> r \<noteq> [] \<and> r \<noteq> ''00000000-0000-0000-0000-000000000000''),
          has_threshold = (case get_i64 j ''threshold'' of None \<Rightarrow> False | Some t \<Rightarrow> 0 < t),
          has_input_value = (get_i64 j ''input_value'' \<noteq> None),
          input_value_meets_threshold =
            (case get_i64 j ''input_value'' of
               None \<Rightarrow> False
             | Some v \<Rightarrow> (case get_i64 j ''threshold'' of None \<Rightarrow> False | Some t \<Rightarrow> t \<le> v)),
          purpose_quality =
            (case lgpd of
               None \<Rightarrow> EmptyPurposeText
             | Some l \<Rightarrow> (case get_str l ''purpose'' of None \<Rightarrow> EmptyPurposeText | Some p \<Rightarrow> evaluate_purpose p))\<rparr>)"

section \<open>Score and strength\<close>

text \<open>\<^verbatim>\<open>score += w\<close> for a decimal literal, when a factor is present.\<close>

definition bump :: "bool \<Rightarrow> rat \<Rightarrow> rat \<Rightarrow> rat" where
  "bump b w score = (if b then f32_add score (f32_round w) else score)"

definition calculate_score :: "evidence_factors \<Rightarrow> rat" where
  "calculate_score f =
     (let s = 0;
          s = bump (has_deterministic_id f) (1 / 10) s;
          s = bump (has_valid_timestamp f) (1 / 10) s;
          s = (if has_lgpd_metadata f then
                 let s = bump True (15 / 100) s;
                     s = bump (has_data_subject_hash f) (1 / 10) s;
                     s = bump (has_consent_id f) (1 / 10) s;
                     s = bump (has_dpia_ref f) (5 / 100) s
                 in case purpose_quality f of
                      Specific \<Rightarrow> bump True (1 / 10) s
                    | Generic \<Rightarrow> bump True (5 / 100) s
                    | EmptyPurposeText \<Rightarrow> s
               else s);
          s = bump (has_threshold f) (5 / 100) s;
          s = bump (has_input_value f) (5 / 100) s;
          s = bump (input_value_meets_threshold f) (15 / 100) s
      in f64_clamp 0 1 s)"

definition strength_of_score :: "rat \<Rightarrow> rat \<Rightarrow> evidence_strength" where
  "strength_of_score limit score =
     (if score < limit then Unverifiable
      else if f32_round (75 / 100) \<le> score then Anchored
      else if f32_round (55 / 100) \<le> score then Signed
      else if f32_round (35 / 100) \<le> score then Witnessed
      else Local)"

datatype ai_error = InputValidationError validation_error | InvalidJson

record nex_assertion =
  context_id :: string
  evidence_strength :: evidence_strength
  confidence :: rat

definition translate ::
  "(string \<Rightarrow> json option) \<Rightarrow> (string \<Rightarrow> bool) \<Rightarrow> (string \<Rightarrow> string) \<Rightarrow> rat \<Rightarrow> string \<Rightarrow> nat \<Rightarrow> ai_error + nex_assertion" where
  "translate parse_json rfc3339 H limit raw max_bytes =
     (case validate_raw_input raw max_bytes of
        Inl e \<Rightarrow> Inl (InputValidationError e)
      | Inr _ \<Rightarrow>
          (case parse_json raw of
             None \<Rightarrow> Inl InvalidJson
           | Some j \<Rightarrow>
               let score = calculate_score (analyze_factors rfc3339 j)
               in Inr \<lparr>context_id = ''ctx_'' @ (case get_str j ''run_id'' of Some r \<Rightarrow> take 8 r | None \<Rightarrow> take 8 (H raw)),
                       evidence_strength = strength_of_score limit score, confidence = score\<rparr>))"

section \<open>What the score needs\<close>

text \<open>The limit of the pipeline's engine.\<close>

definition pipeline_limit :: rat where
  "pipeline_limit = f64_clamp 0 1 (f32_round (30 / 100))"

lemma bump_le:
  assumes "x \<le> y" and "f32_round y = y" and "0 \<le> w"
  shows "bump b w x \<le> bump True w y"
proof -
  have w: "0 \<le> f32_round w" using f32_round_mono [of 0 w] assms(3) by (simp add: f32_round_def fp_round_def)
  then have "f32_round y \<le> f32_round (y + f32_round w)" by (intro f32_round_mono) simp
  moreover have "f32_round (x + f32_round w) \<le> f32_round (y + f32_round w)"
    using assms(1) by (intro f32_round_mono) simp
  ultimately show ?thesis using assms by (simp add: bump_def f32_add_def)
qed

lemma strength_of_score_mono: "x \<le> y \<Longrightarrow> strength_of_score l x \<le> strength_of_score l y"
  using f32_round_mono [of "35 / 100" "55 / 100"] f32_round_mono [of "55 / 100" "75 / 100"]
  by (auto simp: strength_of_score_def strength_order)

text \<open>Without metadata five factors remain; all of them together reach 0.45.\<close>

definition bare_score :: "rat list \<Rightarrow> rat" where
  "bare_score ws = foldl (\<lambda>s w. bump True w s) 0 ws"

lemma bare_score_snoc: "bare_score (ws @ [w]) = bump True w (bare_score ws)"
  by (simp add: bare_score_def)

lemma bare_score_exact:
  "f32_round (bare_score []) = bare_score []"
  "f32_round (bare_score [1 / 10]) = bare_score [1 / 10]"
  "f32_round (bare_score [1 / 10, 1 / 10]) = bare_score [1 / 10, 1 / 10]"
  "f32_round (bare_score [1 / 10, 1 / 10, 5 / 100]) = bare_score [1 / 10, 1 / 10, 5 / 100]"
  "f32_round (bare_score [1 / 10, 1 / 10, 5 / 100, 5 / 100]) = bare_score [1 / 10, 1 / 10, 5 / 100, 5 / 100]"
  by code_simp+

lemma bump_bare:
  assumes "x \<le> bare_score ws" and "f32_round (bare_score ws) = bare_score ws" and "0 \<le> w"
  shows "bump b w x \<le> bare_score (ws @ [w])"
  unfolding bare_score_snoc using assms by (rule bump_le)

lemma score_without_lgpd:
  assumes "\<not> has_lgpd_metadata f"
  shows "strength_of_score pipeline_limit (calculate_score f) \<le> Witnessed"
proof -
  have "0 \<le> bare_score []" by (simp add: bare_score_def)
  from bump_bare [OF this bare_score_exact(1), of "1 / 10"] have "bump (has_deterministic_id f) (1 / 10) 0 \<le> bare_score [1 / 10]"
    by simp
  from bump_bare [OF this bare_score_exact(2), of "1 / 10"] have
    "bump (has_valid_timestamp f) (1 / 10) (bump (has_deterministic_id f) (1 / 10) 0) \<le> bare_score [1 / 10, 1 / 10]"
    by simp
  from bump_bare [OF this bare_score_exact(3), of "5 / 100"] have
    "bump (has_threshold f) (5 / 100) (bump (has_valid_timestamp f) (1 / 10) (bump (has_deterministic_id f) (1 / 10) 0))
       \<le> bare_score [1 / 10, 1 / 10, 5 / 100]"
    by simp
  from bump_bare [OF this bare_score_exact(4), of "5 / 100"] have
    "bump (has_input_value f) (5 / 100) (bump (has_threshold f) (5 / 100)
      (bump (has_valid_timestamp f) (1 / 10) (bump (has_deterministic_id f) (1 / 10) 0)))
       \<le> bare_score [1 / 10, 1 / 10, 5 / 100, 5 / 100]"
    by simp
  from bump_bare [OF this bare_score_exact(5), of "15 / 100"] have
    "bump (input_value_meets_threshold f) (15 / 100) (bump (has_input_value f) (5 / 100) (bump (has_threshold f) (5 / 100)
      (bump (has_valid_timestamp f) (1 / 10) (bump (has_deterministic_id f) (1 / 10) 0))))
       \<le> bare_score [1 / 10, 1 / 10, 5 / 100, 5 / 100, 15 / 100]"
    by simp
  then have "calculate_score f \<le> f64_clamp 0 1 (bare_score [1 / 10, 1 / 10, 5 / 100, 5 / 100, 15 / 100])"
    using assms f64_clamp_mono [of _ "bare_score [1 / 10, 1 / 10, 5 / 100, 5 / 100, 15 / 100]" 0 1]
    by (simp add: calculate_score_def Let_def)
  then have "strength_of_score pipeline_limit (calculate_score f) \<le>
      strength_of_score pipeline_limit (f64_clamp 0 1 (bare_score [1 / 10, 1 / 10, 5 / 100, 5 / 100, 15 / 100]))"
    by (rule strength_of_score_mono)
  also have "strength_of_score pipeline_limit (f64_clamp 0 1 (bare_score [1 / 10, 1 / 10, 5 / 100, 5 / 100, 15 / 100])) = Witnessed"
    by code_simp
  finally show ?thesis .
qed

text \<open>A state with everything present.\<close>

definition complete_factors :: "evidence_factors \<Rightarrow> bool" where
  "complete_factors f \<longleftrightarrow>
     has_lgpd_metadata f \<and> has_data_subject_hash f \<and> has_consent_id f \<and> has_dpia_ref f \<and> has_valid_timestamp f \<and>
     has_deterministic_id f \<and> has_threshold f \<and> has_input_value f \<and> input_value_meets_threshold f \<and>
     purpose_quality f = Specific"

lemma score_complete:
  assumes "complete_factors f"
  shows "strength_of_score pipeline_limit (calculate_score f) = Anchored"
proof -
  have "strength_of_score pipeline_limit (f64_clamp 0 1 (bump True (15 / 100) (bump True (5 / 100) (bump True (5 / 100)
      (bump True (1 / 10) (bump True (5 / 100) (bump True (1 / 10) (bump True (1 / 10) (bump True (15 / 100)
      (bump True (1 / 10) (bump True (1 / 10) 0))))))))))) = Anchored"
    by code_simp
  then show ?thesis using assms by (simp add: complete_factors_def calculate_score_def Let_def)
qed

end
