(* ===== verification/Nex_Eval.thy ===== *)
theory Nex_Eval
  imports Strength
begin

text \<open>
  The evaluator of NEX programs: the syntax of \<^verbatim>\<open>crates/host/src/nex/ast.rs\<close> and the execution of
  expanded programs of \<^verbatim>\<open>nex/eval.rs\<close>. A hash map of nodes is a map; version-5 UUIDs are a
  parameter \<open>v5\<close>; the \<^verbatim>\<open>unreachable!\<close> on an import is the outcome \<open>Panic\<close>.
\<close>

section \<open>Syntax\<close>

datatype action = Allow | Deny | Escalate

datatype expr = IntLit "64 word" | StrLit string | Ident string

datatype nex_type = TyI64 | TyString

datatype comparator = Gte | Lte | Gt | Lt | Equal

datatype logical_op = OpAnd | OpOr

record condition =
  left_id :: string
  comparator :: comparator
  right_bound :: evidence_strength
  cond_op :: "logical_op option"
  right_id :: "string option"
  right_comparator :: "comparator option"
  right_bound2 :: "evidence_strength option"

datatype event_type = ZkProofInvalid | HeartbeatMiss | MalformedPacket

text \<open>The threshold of a reputation trigger is the bit pattern of an \<^verbatim>\<open>f32\<close>.\<close>

datatype trigger =
    OnHeartbeatMiss "32 word"
  | OnReputationBelow "32 word"
  | OnPeerConnected
  | OnPeerDisconnected
  | OnHandshakeCompleted
  | OnHandshakeFailed
  | OnSessionCreated
  | OnSessionRemoved

datatype reactive_action =
    ReactLog string
  | ReactEmit string
  | ReactMarkInactive string
  | ReactAdjustReputation string "32 word"

datatype stmt =
    Use string
  | Node string expr evidence_strength
  | Attest string nat bool
  | Derive string string string nex_type
  | Assert string evidence_strength
  | Act string action evidence_strength
  | If condition "stmt list" "stmt list"
  | On trigger "reactive_action list"
  | ReactiveBlock event_type "32 word" u64 string "stmt list"

fun action_name :: "action \<Rightarrow> string" where
  "action_name Allow = ''allow''"
| "action_name Deny = ''deny''"
| "action_name Escalate = ''escalate''"

section \<open>Values, views and errors\<close>

datatype node_value = IV "64 word" | SV string

fun value_text :: "node_value \<Rightarrow> string" where
  "value_text (IV w) = int_text (sint w)"
| "value_text (SV s) = s"

fun type_name :: "node_value \<Rightarrow> string" where
  "type_name (IV w) = ''i64''"
| "type_name (SV s) = ''string''"

record runtime_state =
  rs_node_id :: uuid
  rs_value :: node_value
  rs_strength :: evidence_strength

record node_view =
  nv_id :: string
  nv_node_id :: uuid
  nv_value :: node_value
  nv_strength :: evidence_strength

record action_view =
  av_id :: string
  av_decision_id :: uuid
  av_action :: action
  required_strength :: evidence_strength
  actual_strength :: evidence_strength
  granted :: bool
  av_reason :: "string option"

datatype trace_entry = NodeEntry node_view | ActionEntry action_view

datatype eval_error =
    UnknownIdentifier string
  | MissingImport "string list"
  | CircularImport "string list list"
  | ImportError "string list"
  | AttestationRequiresSigned string evidence_strength
  | AttestationFailed string insufficient_witnesses
  | AssertionFailed string evidence_strength evidence_strength
  | TypeMismatch string string string string

datatype failure = Panic | Failed eval_error

type_synonym nex_env = "string \<Rightarrow> runtime_state option"

record nex_state =
  working :: nex_env
  entries :: "trace_entry list"
  current_subject :: "runtime_state option"

definition rs_view :: "runtime_state \<Rightarrow> string \<Rightarrow> node_view" where
  "rs_view r i = \<lparr>nv_id = i, nv_node_id = rs_node_id r, nv_value = rs_value r, nv_strength = rs_strength r\<rparr>"

section \<open>Identifiers\<close>

definition NAMESPACE_URL :: uuid where
  "NAMESPACE_URL = 0x6ba7b8119dad11d180b400c04fd430c8"

definition deterministic_node_id :: "(uuid \<Rightarrow> bytes \<Rightarrow> uuid) \<Rightarrow> string \<Rightarrow> node_value \<Rightarrow> uuid" where
  "deterministic_node_id v5 i v = v5 NAMESPACE_URL (string_bytes (''nex|'' @ i @ ''|'' @ value_text v))"

definition action_decision_id :: "(uuid \<Rightarrow> bytes \<Rightarrow> uuid) \<Rightarrow> string \<Rightarrow> action \<Rightarrow> evidence_strength \<Rightarrow> uuid" where
  "action_decision_id v5 i a req =
     v5 NAMESPACE_URL (string_bytes (''nex-act|'' @ i @ ''|'' @ action_name a @ ''|'' @ strength_name req))"

section \<open>Operations on nodes\<close>

fun resolve_expr :: "expr \<Rightarrow> nex_env \<Rightarrow> eval_error + node_value" where
  "resolve_expr (IntLit w) env = Inr (IV w)"
| "resolve_expr (StrLit s) env = Inr (SV s)"
| "resolve_expr (Ident i) env = (case env i of None \<Rightarrow> Inl (UnknownIdentifier i) | Some r \<Rightarrow> Inr (rs_value r))"

definition snapshot_from_node :: "node_value typed_node \<Rightarrow> runtime_state" where
  "snapshot_from_node n = \<lparr>rs_node_id = tn_id n, rs_value = tn_value n, rs_strength = tn_strength n\<rparr>"

definition build_node ::
  "(uuid \<Rightarrow> bytes \<Rightarrow> uuid) \<Rightarrow> string \<Rightarrow> expr \<Rightarrow> evidence_strength \<Rightarrow> nex_env \<Rightarrow> eval_error + runtime_state" where
  "build_node v5 i e s env =
     (case resolve_expr e env of
        Inl err \<Rightarrow> Inl err
      | Inr v \<Rightarrow> Inr (snapshot_from_node \<lparr>tn_id = deterministic_node_id v5 i v, tn_value = v, tn_strength = s\<rparr>))"

definition synthetic_witness_set :: "(uuid \<Rightarrow> bytes \<Rightarrow> uuid) \<Rightarrow> uuid \<Rightarrow> nat \<Rightarrow> bool \<Rightarrow> witness_set" where
  "synthetic_witness_set v5 u n external =
     foldl (\<lambda>ws idx. add_witness ws
        \<lparr>witness_id = v5 u (string_bytes (''nex|witness|'' @ nat_text idx @ ''|'' @ (if external then ''true'' else ''false''))),
         witnessed_at = 1700000000,
         witness_kind = (if external then CrossReferencedInExternalLedger else Cosigned)\<rparr>)
       witness_set_new [0..<n]"

definition attest_node ::
  "(uuid \<Rightarrow> bytes \<Rightarrow> uuid) \<Rightarrow> string \<Rightarrow> runtime_state \<Rightarrow> nat \<Rightarrow> bool \<Rightarrow> eval_error + runtime_state" where
  "attest_node v5 i r n external =
     (if rs_strength r \<noteq> Signed then Inl (AttestationRequiresSigned i (rs_strength r))
      else
        case attest (synthetic_witness_set v5 (rs_node_id r) n external)
               \<lparr>tn_id = rs_node_id r, tn_value = rs_value r, tn_strength = Signed\<rparr> of
          Inl err \<Rightarrow> Inl (AttestationFailed i err)
        | Inr a \<Rightarrow> Inr (snapshot_from_node a))"

definition derive_with_markers ::
  "(uuid \<Rightarrow> bytes \<Rightarrow> uuid) \<Rightarrow> string \<Rightarrow> runtime_state \<Rightarrow> runtime_state \<Rightarrow> nex_type \<Rightarrow> eval_error + runtime_state" where
  "derive_with_markers v5 i l r ty =
     (let ln = \<lparr>tn_id = rs_node_id l, tn_value = rs_value l, tn_strength = rs_strength l\<rparr>;
          rn = \<lparr>tn_id = rs_node_id r, tn_value = rs_value r, tn_strength = rs_strength r\<rparr>
      in case ty of
           TyI64 \<Rightarrow>
             (case (rs_value l, rs_value r) of
                (IV a, IV b) \<Rightarrow> Inr (snapshot_from_node (derive_impl v5 ln rn (\<lambda>x y. IV (a + b))))
              | _ \<Rightarrow> Inl (TypeMismatch i ''i64'' (type_name (rs_value l)) (type_name (rs_value r))))
         | TyString \<Rightarrow>
             (case (rs_value l, rs_value r) of
                (SV a, SV b) \<Rightarrow> Inr (snapshot_from_node (derive_impl v5 ln rn (\<lambda>x y. SV (a @ b))))
              | _ \<Rightarrow> Inl (TypeMismatch i ''string'' (type_name (rs_value l)) (type_name (rs_value r)))))"

section \<open>Conditions\<close>

fun compare :: "comparator \<Rightarrow> evidence_strength \<Rightarrow> evidence_strength \<Rightarrow> bool" where
  "compare Gte a b = (b \<le> a)"
| "compare Lte a b = (a \<le> b)"
| "compare Gt a b = (b < a)"
| "compare Lt a b = (a < b)"
| "compare Equal a b = (a = b)"

definition evaluate_condition :: "condition \<Rightarrow> nex_env \<Rightarrow> bool" where
  "evaluate_condition c env =
     (case env (left_id c) of
        None \<Rightarrow> False
      | Some l \<Rightarrow>
          let left = compare (comparator c) (rs_strength l) (right_bound c) in
          case cond_op c of
            None \<Rightarrow> left
          | Some op \<Rightarrow>
              let rec = (case right_id c of None \<Rightarrow> None | Some i \<Rightarrow> env i);
                  right = (case (right_comparator c, right_bound2 c) of
                      (Some cmp, Some s2) \<Rightarrow> (case rec of None \<Rightarrow> False | Some r \<Rightarrow> compare cmp (rs_strength r) s2)
                    | _ \<Rightarrow> False)
              in (case op of OpAnd \<Rightarrow> left \<and> right | OpOr \<Rightarrow> left \<or> right))"

section \<open>Execution\<close>

definition set_node :: "nex_state \<Rightarrow> string \<Rightarrow> runtime_state \<Rightarrow> nex_state" where
  "set_node S i r =
     S\<lparr>working := (working S)(i \<mapsto> r), entries := entries S @ [NodeEntry (rs_view r i)], current_subject := Some r\<rparr>"

text \<open>An action, with the reason given when it is granted.\<close>

definition run_act ::
  "(uuid \<Rightarrow> bytes \<Rightarrow> uuid) \<Rightarrow> string option \<Rightarrow> nex_state \<Rightarrow> string \<Rightarrow> action \<Rightarrow> evidence_strength \<Rightarrow> failure + nex_state" where
  "run_act v5 ok_reason S i a req =
     (case (case working S i of Some r \<Rightarrow> Some r | None \<Rightarrow> current_subject S) of
        None \<Rightarrow> Inl (Failed (UnknownIdentifier i))
      | Some r \<Rightarrow>
          let actual = rs_strength r; ok = (req \<le> actual) in
          Inr (S\<lparr>entries := entries S @
            [ActionEntry \<lparr>av_id = i, av_decision_id = action_decision_id v5 i a req, av_action = a,
               required_strength = req, actual_strength = actual, granted = ok,
               av_reason = (if ok then ok_reason else Some ''ActionDenied'')\<rparr>]\<rparr>))"

fun run_body :: "(uuid \<Rightarrow> bytes \<Rightarrow> uuid) \<Rightarrow> nex_state \<Rightarrow> stmt list \<Rightarrow> failure + nex_state" where
  "run_body v5 S [] = Inr S"
| "run_body v5 S (st # sts) =
     (case st of
        Act i a req \<Rightarrow>
          (case run_act v5 (Some ''ConditionalMet'') S i a req of Inl e \<Rightarrow> Inl e | Inr S' \<Rightarrow> run_body v5 S' sts)
      | _ \<Rightarrow> run_body v5 S sts)"

fun run_stmt :: "(uuid \<Rightarrow> bytes \<Rightarrow> uuid) \<Rightarrow> nex_state \<Rightarrow> stmt \<Rightarrow> failure + nex_state" where
  "run_stmt v5 S (Use path) = Inl Panic"
| "run_stmt v5 S (ReactiveBlock ev n w t body) = Inr S"
| "run_stmt v5 S (Node i e s) =
     (case build_node v5 i e s (working S) of Inl err \<Rightarrow> Inl (Failed err) | Inr r \<Rightarrow> Inr (set_node S i r))"
| "run_stmt v5 S (Attest i n ext) =
     (case working S i of
        None \<Rightarrow> Inl (Failed (UnknownIdentifier i))
      | Some c \<Rightarrow> (case attest_node v5 i c n ext of Inl err \<Rightarrow> Inl (Failed err) | Inr r \<Rightarrow> Inr (set_node S i r)))"
| "run_stmt v5 S (Derive i l r ty) =
     (case working S l of
        None \<Rightarrow> Inl (Failed (UnknownIdentifier l))
      | Some ls \<Rightarrow>
          (case working S r of
             None \<Rightarrow> Inl (Failed (UnknownIdentifier r))
           | Some rs \<Rightarrow>
               (case derive_with_markers v5 i ls rs ty of Inl err \<Rightarrow> Inl (Failed err) | Inr d \<Rightarrow> Inr (set_node S i d))))"
| "run_stmt v5 S (Assert i least) =
     (case working S i of
        None \<Rightarrow> Inl (Failed (UnknownIdentifier i))
      | Some r \<Rightarrow>
          if rs_strength r < least then Inl (Failed (AssertionFailed i (rs_strength r) least))
          else Inr (S\<lparr>entries := entries S @ [NodeEntry (rs_view r i)], current_subject := Some r\<rparr>))"
| "run_stmt v5 S (Act i a req) = run_act v5 None S i a req"
| "run_stmt v5 S (On t acts) = Inr S"
| "run_stmt v5 S (If c tb eb) = run_body v5 S (if evaluate_condition c (working S) then tb else eb)"

fun run_stmts :: "(uuid \<Rightarrow> bytes \<Rightarrow> uuid) \<Rightarrow> nex_state \<Rightarrow> stmt list \<Rightarrow> failure + nex_state" where
  "run_stmts v5 S [] = Inr S"
| "run_stmts v5 S (st # sts) = (case run_stmt v5 S st of Inl e \<Rightarrow> Inl e | Inr S' \<Rightarrow> run_stmts v5 S' sts)"

definition execute_expanded ::
  "(uuid \<Rightarrow> bytes \<Rightarrow> uuid) \<Rightarrow> stmt list \<Rightarrow> failure + (string \<Rightarrow> node_value option) \<times> trace_entry list" where
  "execute_expanded v5 prog =
     (case run_stmts v5 \<lparr>working = (\<lambda>i. None), entries = [], current_subject = None\<rparr> prog of
        Inl e \<Rightarrow> Inl e
      | Inr S \<Rightarrow> Inr (\<lambda>i. map_option rs_value (working S i), entries S))"

end
