(* ===== verification/Nex_Import.thy ===== *)
theory Nex_Import
  imports Nex_Eval
begin

text \<open>
  The expansion of imports of \<^verbatim>\<open>crates/host/src/nex/eval.rs\<close>. A path is the list of its
  components; the files are a finite list of paths with their contents, and parsing is a parameter
  here. The recursion ends because every file on the stack of imports is
  a different one of the finitely many files.
\<close>

section \<open>Files and paths\<close>

type_synonym path = "string list"

datatype file_content = Readable string | Unreadable

type_synonym files = "(path \<times> file_content) list"

text \<open>\<^verbatim>\<open>str::split\<close> at a character.\<close>

fun split_at :: "char \<Rightarrow> string \<Rightarrow> string list" where
  "split_at d [] = [[]]"
| "split_at d (c # cs) =
     (if c = d then [] # split_at d cs
      else case split_at d cs of [] \<Rightarrow> [[c]] | w # ws \<Rightarrow> (c # w) # ws)"

text \<open>
  The segments of an import are non-empty names without separators, so pushing one adds a component
  and the extension is appended to the last.
\<close>

definition resolve_import_path :: "path \<Rightarrow> string \<Rightarrow> path" where
  "resolve_import_path base imp =
     (let p = base @ split_at (CHR ''.'') imp in butlast p @ [last p @ ''.nex''])"

definition path_parent :: "path \<Rightarrow> path" where
  "path_parent p = butlast p"

section \<open>Expansion\<close>

fun imports_of :: "stmt list \<Rightarrow> string list" where
  "imports_of [] = []"
| "imports_of (st # sts) = (case st of Use p \<Rightarrow> p # imports_of sts | _ \<Rightarrow> imports_of sts)"

fun body_of :: "stmt list \<Rightarrow> stmt list" where
  "body_of [] = []"
| "body_of (st # sts) = (case st of Use p \<Rightarrow> body_of sts | _ \<Rightarrow> st # body_of sts)"

text \<open>What \<^verbatim>\<open>CircularImport\<close> reports: the stack from the first occurrence on, closed with the path.\<close>

definition import_cycle :: "path list \<Rightarrow> path \<Rightarrow> path list" where
  "import_cycle stack p = dropWhile (\<lambda>q. q \<noteq> p) stack @ [p]"

text \<open>The files that are not on the stack yet: what the recursion uses up.\<close>

definition free_files :: "files \<Rightarrow> path list \<Rightarrow> nat" where
  "free_files fs stack = card (fst ` set fs - set stack)"

lemma free_files_less: "map_of fs p = Some c \<Longrightarrow> p \<notin> set stack \<Longrightarrow> free_files fs (stack @ [p]) < free_files fs stack"
proof -
  assume p: "map_of fs p = Some c" "p \<notin> set stack"
  then have "p \<in> fst ` set fs - set stack" by (force dest: map_of_SomeD)
  then have "fst ` set fs - set (stack @ [p]) \<subset> fst ` set fs - set stack" by auto
  then show ?thesis unfolding free_files_def by (intro psubset_card_mono) auto
qed

text \<open>The loop over the imports of one file, and the loading of one import.\<close>

function load_imports ::
  "(string \<Rightarrow> stmt list option) \<Rightarrow> files \<Rightarrow> path \<Rightarrow> string list \<Rightarrow> path set \<Rightarrow> path list \<Rightarrow>
     eval_error + stmt list \<times> path set"
and load_import ::
  "(string \<Rightarrow> stmt list option) \<Rightarrow> files \<Rightarrow> path \<Rightarrow> path set \<Rightarrow> path list \<Rightarrow> eval_error + stmt list \<times> path set"
where
  "load_imports parse fs base [] visited stack = Inr ([], visited)"
| "load_imports parse fs base (i # is) visited stack =
     (case load_import parse fs (resolve_import_path base i) visited stack of
        Inl e \<Rightarrow> Inl e
      | Inr (ss, visited) \<Rightarrow>
          (case load_imports parse fs base is visited stack of
             Inl e \<Rightarrow> Inl e
           | Inr (ss', visited) \<Rightarrow> Inr (ss @ ss', visited)))"
| "load_import parse fs p visited stack =
     (if p \<in> set stack then Inl (CircularImport (import_cycle stack p))
      else if p \<in> visited then Inr ([], visited)
      else
        case map_of fs p of
          None \<Rightarrow> Inl (MissingImport p)
        | Some Unreadable \<Rightarrow> Inl (ImportError p)
        | Some (Readable text) \<Rightarrow>
            (case parse text of
               None \<Rightarrow> Inl (ImportError p)
             | Some prog \<Rightarrow>
                 (case load_imports parse fs (path_parent p) (imports_of prog) visited (stack @ [p]) of
                    Inl e \<Rightarrow> Inl e
                  | Inr (ss, visited) \<Rightarrow> Inr (ss @ body_of prog, insert p visited))))"
  by pat_completeness auto

termination
  by (relation "measures
      [\<lambda>x. case x of Inl (parse, fs, base, is, visited, stack) \<Rightarrow> free_files fs stack
                   | Inr (parse, fs, p, visited, stack) \<Rightarrow> free_files fs stack,
       \<lambda>x. case x of Inl (parse, fs, base, is, visited, stack) \<Rightarrow> 2 * length is
                   | Inr (parse, fs, p, visited, stack) \<Rightarrow> 1]")
    (auto simp: free_files_less)

definition expand_statements ::
  "(string \<Rightarrow> stmt list option) \<Rightarrow> files \<Rightarrow> path \<Rightarrow> stmt list \<Rightarrow> path set \<Rightarrow> path list \<Rightarrow> eval_error + stmt list \<times> path set" where
  "expand_statements parse fs base prog visited stack =
     (case load_imports parse fs base (imports_of prog) visited stack of
        Inl e \<Rightarrow> Inl e
      | Inr (ss, visited) \<Rightarrow> Inr (ss @ body_of prog, visited))"

definition expand_program :: "(string \<Rightarrow> stmt list option) \<Rightarrow> files \<Rightarrow> path \<Rightarrow> stmt list \<Rightarrow> eval_error + stmt list" where
  "expand_program parse fs base prog =
     (case expand_statements parse fs base prog {} [] of Inl e \<Rightarrow> Inl e | Inr (ss, v) \<Rightarrow> Inr ss)"

definition execute_in_dir ::
  "(uuid \<Rightarrow> bytes \<Rightarrow> uuid) \<Rightarrow> (string \<Rightarrow> stmt list option) \<Rightarrow> files \<Rightarrow> path \<Rightarrow> stmt list \<Rightarrow>
     failure + (string \<Rightarrow> node_value option) \<times> trace_entry list" where
  "execute_in_dir v5 parse fs base prog =
     (case expand_program parse fs base prog of Inl e \<Rightarrow> Inl (Failed e) | Inr ss \<Rightarrow> execute_expanded v5 ss)"

end
