(* ===== verification/Nex_Theorems.thy ===== *)
theory Nex_Theorems
  imports Nex_Import
begin

text \<open>
  Theorems on NEX programs: what the expansion of imports gives, that execution never reaches the
  unreachable case, and on what the decisions of a program depend.
\<close>

section \<open>Imports\<close>

definition parsed_file :: "(string \<Rightarrow> stmt list option) \<Rightarrow> files \<Rightarrow> path \<Rightarrow> stmt list option" where
  "parsed_file parse fs p = (case map_of fs p of Some (Readable t) \<Rightarrow> parse t | _ \<Rightarrow> None)"

definition file_body :: "(string \<Rightarrow> stmt list option) \<Rightarrow> files \<Rightarrow> path \<Rightarrow> stmt list" where
  "file_body parse fs p = (case parsed_file parse fs p of None \<Rightarrow> [] | Some prog \<Rightarrow> body_of prog)"

text \<open>One file imports another.\<close>

definition imports_file :: "(string \<Rightarrow> stmt list option) \<Rightarrow> files \<Rightarrow> path \<Rightarrow> path \<Rightarrow> bool" where
  "imports_file parse fs p q \<longleftrightarrow>
     (\<exists>prog i. parsed_file parse fs p = Some prog \<and> i \<in> set (imports_of prog) \<and> q = resolve_import_path (path_parent p) i)"

text \<open>Every file of a list is readable, and its imports are before it or were visited already.\<close>

fun dependency_order :: "(string \<Rightarrow> stmt list option) \<Rightarrow> files \<Rightarrow> path set \<Rightarrow> path list \<Rightarrow> bool" where
  "dependency_order parse fs seen [] \<longleftrightarrow> True"
| "dependency_order parse fs seen (p # ps) \<longleftrightarrow>
     parsed_file parse fs p \<noteq> None \<and> (\<forall>q. imports_file parse fs p q \<longrightarrow> q \<in> seen) \<and>
     dependency_order parse fs (insert p seen) ps"

lemma dependency_order_append:
  "dependency_order parse fs seen (ps @ qs) \<longleftrightarrow>
     dependency_order parse fs seen ps \<and> dependency_order parse fs (seen \<union> set ps) qs"
  by (induction ps arbitrary: seen) (auto simp: Un_commute insert_commute)

definition loads :: "(string \<Rightarrow> stmt list option) \<Rightarrow> files \<Rightarrow> path set \<Rightarrow> path list \<Rightarrow> stmt list \<Rightarrow> path set \<Rightarrow> bool" where
  "loads parse fs visited stack ss visited' \<longleftrightarrow>
     (\<exists>ps. distinct ps \<and> set ps \<inter> (visited \<union> set stack) = {} \<and> visited' = visited \<union> set ps \<and>
        ss = concat (map (file_body parse fs) ps) \<and> dependency_order parse fs visited ps)"

lemma loads_Nil: "loads parse fs visited stack [] visited"
  by (auto simp: loads_def intro: exI [of _ "[]"])

lemma loads_append:
  assumes "loads parse fs visited stack ss v1" and "loads parse fs v1 stack ss' v2"
  shows "loads parse fs visited stack (ss @ ss') v2"
proof -
  obtain ps where ps: "distinct ps" "set ps \<inter> (visited \<union> set stack) = {}" "v1 = visited \<union> set ps"
    "ss = concat (map (file_body parse fs) ps)" "dependency_order parse fs visited ps" using assms(1) by (auto simp: loads_def)
  obtain qs where qs: "distinct qs" "set qs \<inter> (v1 \<union> set stack) = {}" "v2 = v1 \<union> set qs"
    "ss' = concat (map (file_body parse fs) qs)" "dependency_order parse fs v1 qs" using assms(2) by (auto simp: loads_def)
  show ?thesis
    unfolding loads_def using ps qs
    by (intro exI [of _ "ps @ qs"]) (auto simp: dependency_order_append)
qed

lemma loads_file:
  assumes "loads parse fs visited (stack @ [p]) ss v" and "p \<notin> visited" and "p \<notin> set stack"
    and "parsed_file parse fs p = Some prog"
    and "\<forall>i \<in> set (imports_of prog). resolve_import_path (path_parent p) i \<in> v"
  shows "loads parse fs visited stack (ss @ body_of prog) (insert p v)"
proof -
  obtain ps where ps: "distinct ps" "set ps \<inter> (visited \<union> set (stack @ [p])) = {}" "v = visited \<union> set ps"
    "ss = concat (map (file_body parse fs) ps)" "dependency_order parse fs visited ps" using assms(1) by (auto simp: loads_def)
  show ?thesis
    unfolding loads_def using ps assms(2-)
    by (intro exI [of _ "ps @ [p]"]) (auto simp: dependency_order_append file_body_def imports_file_def)
qed

lemma load_loads:
  "load_imports parse fs base is visited stack = Inr (ss, v) \<Longrightarrow>
     loads parse fs visited stack ss v \<and> (\<forall>i \<in> set is. resolve_import_path base i \<in> v) \<and> visited \<subseteq> v"
  "load_import parse fs p visited stack = Inr (ss, v) \<Longrightarrow>
     loads parse fs visited stack ss v \<and> p \<in> v \<and> visited \<subseteq> v"
proof (induction parse fs base "is" visited stack and parse fs p visited stack arbitrary: ss v and ss v
    rule: load_imports_load_import.induct)
  case (1 parse fs base visited stack)
  then show ?case by (simp add: loads_Nil)
next
  case (2 parse fs base i "is" visited stack)
  obtain s1 v1 s2 where l: "load_import parse fs (resolve_import_path base i) visited stack = Inr (s1, v1)"
    "load_imports parse fs base is v1 stack = Inr (s2, v)" "ss = s1 @ s2"
    using 2(3) by (auto split: sum.splits prod.splits)
  from 2(1) [OF l(1)] have a: "loads parse fs visited stack s1 v1" "resolve_import_path base i \<in> v1" "visited \<subseteq> v1" by simp_all
  from 2(2) [OF l(1) refl l(2)] have b: "loads parse fs v1 stack s2 v" "\<forall>i \<in> set is. resolve_import_path base i \<in> v" "v1 \<subseteq> v"
    by simp_all
  show ?case using loads_append [OF a(1) b(1)] a b l(3) by auto
next
  case (3 parse fs p visited stack)
  show ?case
  proof (cases "p \<in> visited")
    case True
    then show ?thesis using 3(2) by (auto simp: loads_Nil split: if_splits)
  next
    case False
    have st: "p \<notin> set stack" using 3(2) by (auto split: if_splits)
    obtain src prog s v1 where l: "map_of fs p = Some (Readable src)" "parse src = Some prog"
      "load_imports parse fs (path_parent p) (imports_of prog) visited (stack @ [p]) = Inr (s, v1)"
      "ss = s @ body_of prog" "v = insert p v1"
      using 3(2) False st by (auto split: option.splits file_content.splits sum.splits)
    have "parsed_file parse fs p = Some prog" using l by (simp add: parsed_file_def)
    moreover have "loads parse fs visited (stack @ [p]) s v1"
      "\<forall>i \<in> set (imports_of prog). resolve_import_path (path_parent p) i \<in> v1" "visited \<subseteq> v1"
      using 3(1) [OF st False l(1) refl l(2,3)] by simp_all
    ultimately show ?thesis using loads_file False st l(4,5) by blast
  qed
qed

text \<open>A reported cycle is one.\<close>

lemma successively_cycle:
  assumes "successively R (xs @ [p])" and "p \<in> set xs"
  shows "\<exists>ys. dropWhile (\<lambda>q. q \<noteq> p) xs @ [p] = p # ys @ [p] \<and> successively R (p # ys @ [p])"
proof -
  obtain us ys where xs: "xs = us @ p # ys" "p \<notin> set us" using assms(2) split_list_first by metis
  then have "dropWhile (\<lambda>q. q \<noteq> p) xs = p # ys" by (auto simp: dropWhile_append3 intro!: dropWhile_append2)
  moreover have "successively R (p # ys @ [p])" using assms(1) xs(1) by (simp add: successively_append_iff)
  ultimately show ?thesis by auto
qed

lemma load_cycle:
  "load_imports parse fs base is visited stack = Inl (CircularImport c) \<Longrightarrow> successively (imports_file parse fs) stack \<Longrightarrow>
     stack \<noteq> [] \<longrightarrow> (\<forall>i \<in> set is. imports_file parse fs (last stack) (resolve_import_path base i)) \<Longrightarrow>
     \<exists>p ys. c = p # ys @ [p] \<and> successively (imports_file parse fs) c"
  "load_import parse fs p visited stack = Inl (CircularImport c) \<Longrightarrow> successively (imports_file parse fs) (stack @ [p]) \<Longrightarrow>
     \<exists>p ys. c = p # ys @ [p] \<and> successively (imports_file parse fs) c"
proof (induction parse fs base "is" visited stack and parse fs p visited stack arbitrary: c and c
    rule: load_imports_load_import.induct)
  case (2 parse fs base i "is" visited stack)
  have "successively (imports_file parse fs) (stack @ [resolve_import_path base i])"
    using 2(4,5) by (auto simp: successively_append_iff)
  then show ?case
    using 2 by (auto split: sum.splits)
next
  case (3 parse fs p visited stack)
  show ?case
  proof (cases "p \<in> set stack")
    case True
    then show ?thesis using 3(2) successively_cycle [OF 3(3) True] by (auto simp: import_cycle_def)
  next
    case new: False
    then obtain src prog where l: "map_of fs p = Some (Readable src)" "parse src = Some prog"
      "load_imports parse fs (path_parent p) (imports_of prog) visited (stack @ [p]) = Inl (CircularImport c)" "p \<notin> visited"
      using 3(2) by (auto split: if_splits option.splits file_content.splits sum.splits)
    have "imports_file parse fs p (resolve_import_path (path_parent p) i)" if "i \<in> set (imports_of prog)" for i
      using l that by (auto simp: imports_file_def parsed_file_def)
    then show ?thesis using 3(1) [OF new l(4) l(1) refl l(2,3) 3(3)] by simp
  qed
qed simp

lemma body_of_no_use: "Use p \<notin> set (body_of prog)"
  by (induction prog) (auto split: stmt.splits)

lemma file_body_no_use: "Use p \<notin> set (file_body parse fs q)"
  by (simp add: file_body_def body_of_no_use split: option.split)

section \<open>Execution and strengths\<close>

text \<open>No statement but an import panics.\<close>

lemma run_act_no_panic: "run_act v5 r S i a req \<noteq> Inl Panic"
  by (auto simp: run_act_def Let_def split: option.splits)

lemma run_body_no_panic: "run_body v5 S sts \<noteq> Inl Panic"
proof (induction sts arbitrary: S)
  case (Cons st sts)
  then show ?case using run_act_no_panic by (cases st) (auto split: sum.splits)
qed simp

lemma run_stmt_no_panic: "\<forall>p. st \<noteq> Use p \<Longrightarrow> run_stmt v5 S st \<noteq> Inl Panic"
  using run_act_no_panic run_body_no_panic by (cases st) (auto split: sum.splits option.splits)

lemma run_stmts_no_panic: "\<forall>p. Use p \<notin> set sts \<Longrightarrow> run_stmts v5 S sts \<noteq> Inl Panic"
proof (induction sts arbitrary: S)
  case (Cons st sts)
  then show ?case using run_stmt_no_panic [of st v5 S] by (auto split: sum.splits)
qed simp

text \<open>What remains of a state when values and identifiers are forgotten.\<close>

type_synonym abstract_state =
  "(string \<Rightarrow> evidence_strength option) \<times> evidence_strength option \<times> (string \<times> action \<times> evidence_strength \<times> evidence_strength \<times> bool) list"

definition decision_of_entry ::
  "trace_entry \<Rightarrow> (string \<times> action \<times> evidence_strength \<times> evidence_strength \<times> bool) list" where
  "decision_of_entry e =
     (case e of
        NodeEntry v \<Rightarrow> []
      | ActionEntry v \<Rightarrow> [(av_id v, av_action v, required_strength v, actual_strength v, granted v)])"

definition decisions :: "trace_entry list \<Rightarrow> (string \<times> action \<times> evidence_strength \<times> evidence_strength \<times> bool) list" where
  "decisions es = concat (map decision_of_entry es)"

definition abstract :: "nex_state \<Rightarrow> abstract_state" where
  "abstract S = (\<lambda>i. map_option rs_strength (working S i), map_option rs_strength (current_subject S), decisions (entries S))"

fun abs_act :: "abstract_state \<Rightarrow> string \<Rightarrow> action \<Rightarrow> evidence_strength \<Rightarrow> abstract_state" where
  "abs_act (env, cur, ds) i a req =
     (case (case env i of Some s \<Rightarrow> Some s | None \<Rightarrow> cur) of
        None \<Rightarrow> (env, cur, ds)
      | Some s \<Rightarrow> (env, cur, ds @ [(i, a, req, s, req \<le> s)]))"

fun abs_body :: "abstract_state \<Rightarrow> stmt list \<Rightarrow> abstract_state" where
  "abs_body A [] = A"
| "abs_body A (st # sts) = (case st of Act i a req \<Rightarrow> abs_body (abs_act A i a req) sts | _ \<Rightarrow> abs_body A sts)"

definition abs_condition :: "condition \<Rightarrow> (string \<Rightarrow> evidence_strength option) \<Rightarrow> bool" where
  "abs_condition c env =
     (case env (left_id c) of
        None \<Rightarrow> False
      | Some l \<Rightarrow>
          let left = compare (comparator c) l (right_bound c);
              right = (case (right_id c, right_comparator c, right_bound2 c) of
                  (Some i, Some cmp, Some s2) \<Rightarrow> (case env i of None \<Rightarrow> False | Some r \<Rightarrow> compare cmp r s2)
                | _ \<Rightarrow> False)
          in case cond_op c of None \<Rightarrow> left | Some OpAnd \<Rightarrow> left \<and> right | Some OpOr \<Rightarrow> left \<or> right)"

fun abs_stmt :: "abstract_state \<Rightarrow> stmt \<Rightarrow> abstract_state" where
  "abs_stmt (env, cur, ds) (Node i e s) = (env(i \<mapsto> s), Some s, ds)"
| "abs_stmt (env, cur, ds) (Attest i n ext) = (env(i \<mapsto> Anchored), Some Anchored, ds)"
| "abs_stmt (env, cur, ds) (Derive i l r ty) =
     (let s = min (the (env l)) (the (env r)) in (env(i \<mapsto> s), Some s, ds))"
| "abs_stmt (env, cur, ds) (Assert i least) = (env, env i, ds)"
| "abs_stmt A (Act i a req) = abs_act A i a req"
| "abs_stmt (env, cur, ds) (If c tb eb) = abs_body (env, cur, ds) (if abs_condition c env then tb else eb)"
| "abs_stmt A st = A"

lemma decisions_snoc [simp]: "decisions (es @ [e]) = decisions es @ decision_of_entry e"
  by (simp add: decisions_def)

lemma abstract_set_node [simp]:
  "abstract (set_node S i r) =
     ((\<lambda>j. map_option rs_strength (working S j))(i \<mapsto> rs_strength r), Some (rs_strength r), decisions (entries S))"
  by (auto simp: abstract_def set_node_def decision_of_entry_def)

lemma run_act_abstract:
  "run_act v5 reason S i a req = Inr S' \<Longrightarrow> abstract S' = abs_act (abstract S) i a req"
  by (auto simp: run_act_def abstract_def Let_def decision_of_entry_def split: option.splits)

lemma run_body_abstract:
  "run_body v5 S sts = Inr S' \<Longrightarrow> abstract S' = abs_body (abstract S) sts"
proof (induction sts arbitrary: S)
  case (Cons st sts)
  then show ?case using run_act_abstract by (cases st) (auto split: sum.splits)
qed simp

lemma condition_abstract: "evaluate_condition c env = abs_condition c (\<lambda>i. map_option rs_strength (env i))"
  by (auto simp: evaluate_condition_def abs_condition_def Let_def split: option.splits logical_op.splits)

lemma derived_strength:
  "derive_with_markers v5 i l r ty = Inr d \<Longrightarrow> rs_strength d = min (rs_strength l) (rs_strength r)"
  by (auto simp: derive_with_markers_def snapshot_from_node_def Let_def split: nex_type.splits node_value.splits)

lemma attested_strength: "attest_node v5 i r n ext = Inr a \<Longrightarrow> rs_strength a = Anchored"
  by (auto simp: attest_node_def attest_def snapshot_from_node_def split: if_splits)

lemma built_strength: "build_node v5 i e s env = Inr r \<Longrightarrow> rs_strength r = s"
  by (auto simp: build_node_def snapshot_from_node_def split: sum.splits)

lemma run_stmt_abstract:
  "run_stmt v5 S st = Inr S' \<Longrightarrow> abstract S' = abs_stmt (abstract S) st"
proof (cases st)
  case (Act i a req)
  assume "run_stmt v5 S st = Inr S'"
  then show ?thesis using Act run_act_abstract [of v5 None S i a req S'] by (cases "abstract S") simp
next
  case (If c tb eb)
  assume "run_stmt v5 S st = Inr S'"
  then show ?thesis
    using If run_body_abstract [of v5 S _ S'] by (simp add: condition_abstract) (simp add: abstract_def)
next
  case (Assert i least)
  assume "run_stmt v5 S st = Inr S'"
  then show ?thesis using Assert by (auto simp: abstract_def decision_of_entry_def split: option.splits if_splits)
qed (auto simp: derived_strength attested_strength built_strength split: option.splits sum.splits, auto simp: abstract_def Let_def)

lemma run_stmts_abstract:
  "run_stmts v5 S sts = Inr S' \<Longrightarrow> abstract S' = foldl abs_stmt (abstract S) sts"
proof (induction sts arbitrary: S)
  case (Cons st sts)
  then show ?case using run_stmt_abstract by (auto split: sum.splits)
qed simp

text \<open>A statement without its value and its type: what decides strengths.\<close>

fun forget :: "stmt \<Rightarrow> stmt" where
  "forget (Node i e s) = Node i (IntLit 0) s"
| "forget (Derive i l r ty) = Derive i l r TyI64"
| "forget (Attest i n ext) = Attest i 0 False"
| "forget st = st"

lemma abs_stmt_forget: "abs_stmt A (forget st) = abs_stmt A st"
  by (cases A; cases st) simp_all

lemma abs_stmts_forget: "foldl abs_stmt A (map forget sts) = foldl abs_stmt A sts"
  by (induction sts arbitrary: A) (simp_all add: abs_stmt_forget)

definition initial_state :: nex_state where
  "initial_state = \<lparr>working = (\<lambda>i. None), entries = [], current_subject = None\<rparr>"

lemma executed:
  assumes "execute_expanded v5 prog = Inr (env, es)"
  shows "\<exists>S. run_stmts v5 initial_state prog = Inr S \<and> env = (\<lambda>i. map_option rs_value (working S i)) \<and> es = entries S"
  using assms by (auto simp: execute_expanded_def initial_state_def split: sum.splits)

lemma executed_decisions:
  assumes "execute_expanded v5 prog = Inr (env, es)"
  shows "decisions es = snd (snd (foldl abs_stmt (abstract initial_state) prog))"
proof -
  obtain S where "run_stmts v5 initial_state prog = Inr S" "es = entries S" using executed [OF assms] by blast
  moreover have "snd (snd (abstract S)) = decisions (entries S)" by (simp add: abstract_def)
  ultimately show ?thesis using run_stmts_abstract [of v5 initial_state prog S] by simp
qed

section \<open>A bound on strengths\<close>

definition bounded :: "evidence_strength \<Rightarrow> abstract_state \<Rightarrow> bool" where
  "bounded b A \<longleftrightarrow>
     (\<forall>i s. fst A i = Some s \<longrightarrow> s \<le> b) \<and> (\<forall>s. fst (snd A) = Some s \<longrightarrow> s \<le> b) \<and>
     (\<forall>(i, a, req, actual, ok) \<in> set (snd (snd A)). actual \<le> b \<and> (ok \<longleftrightarrow> req \<le> actual))"

fun declares_at_most :: "evidence_strength \<Rightarrow> stmt \<Rightarrow> bool" where
  "declares_at_most b (Node i e s) \<longleftrightarrow> s \<le> b"
| "declares_at_most b (Attest i n ext) \<longleftrightarrow> b = Anchored"
| "declares_at_most b st \<longleftrightarrow> True"

lemma abs_act_bounded: "bounded b A \<Longrightarrow> bounded b (abs_act A i a req)"
  by (cases A) (auto simp: bounded_def split: option.splits)

lemma abs_body_bounded: "bounded b A \<Longrightarrow> bounded b (abs_body A sts)"
proof (induction sts arbitrary: A)
  case (Cons st sts)
  then show ?case using abs_act_bounded by (cases st) (simp_all del: abs_act.simps)
qed simp

lemma run_stmt_bounded:
  assumes "run_stmt v5 S st = Inr S'" and "bounded b (abstract S)" and "declares_at_most b st"
  shows "bounded b (abstract S')"
proof (cases st)
  case (Derive i l r ty)
  then obtain ls rs d where d: "working S l = Some ls" "working S r = Some rs"
    "derive_with_markers v5 i ls rs ty = Inr d" "S' = set_node S i d"
    using assms(1) by (auto split: option.splits sum.splits)
  have "rs_strength ls \<le> b" "rs_strength rs \<le> b" using assms(2) d(1,2) by (auto simp: bounded_def abstract_def)
  then have "rs_strength d \<le> b" using derived_strength [OF d(3)] by (simp add: min_le_iff_disj)
  then show ?thesis using assms(2) d(4) by (auto simp: bounded_def abstract_def decision_of_entry_def set_node_def)
next
  case (If c tb eb)
  then have "\<exists>body. abstract S' = abs_body (abstract S) body"
    using assms(1) run_body_abstract by auto
  then show ?thesis using abs_body_bounded [OF assms(2)] by auto
next
  case (Act i a req)
  then have "abstract S' = abs_act (abstract S) i a req" using assms(1) run_act_abstract by simp
  then show ?thesis using abs_act_bounded [OF assms(2)] by simp
qed (use run_stmt_abstract [OF assms(1)] assms(2,3) in \<open>auto simp: bounded_def abstract_def\<close>)

lemma run_stmts_bounded:
  "run_stmts v5 S sts = Inr S' \<Longrightarrow> bounded b (abstract S) \<Longrightarrow> \<forall>st \<in> set sts. declares_at_most b st \<Longrightarrow> bounded b (abstract S')"
proof (induction sts arbitrary: S)
  case (Cons st sts)
  then show ?case using run_stmt_bounded by (auto split: sum.splits)
qed simp

section \<open>Attestations\<close>

lemma inj_string_bytes: "string_bytes s = string_bytes t \<longleftrightarrow> s = t"
proof
  have "inj (of_char :: char \<Rightarrow> byte)"
  proof (rule injI)
    fix c d :: char assume e: "(of_char c :: byte) = of_char d"
    have "unat (of_char x :: byte) = take_bit 8 (of_char x)" for x
    proof -
      have "(of_char x :: byte) = word_of_nat (of_char x)" by (simp add: of_nat_of_char)
      then show ?thesis by (simp only: unsigned_of_nat) simp
    qed
    then have "char_of (take_bit 8 (of_char c :: nat)) = char_of (take_bit 8 (of_char d :: nat))" using e by metis
    then show "c = d" by (simp add: char_of_take_bit_eq)
  qed
  then show "string_bytes s = string_bytes t \<Longrightarrow> s = t" unfolding string_bytes_def by (simp add: inj_map_eq_map)
qed simp

lemma synthetic_witnesses:
  "synthetic_witness_set v5 u n external =
     map (\<lambda>idx. \<lparr>witness_id = v5 u (string_bytes (''nex|witness|'' @ nat_text idx @ ''|'' @ (if external then ''true'' else ''false''))),
         witnessed_at = 1700000000,
         witness_kind = (if external then CrossReferencedInExternalLedger else Cosigned)\<rparr>) [0..<n]"
  by (induction n) (simp_all add: synthetic_witness_set_def witness_set_new_def add_witness_def del: nat_text.simps)

text \<open>The names of the first \<open>n\<close> synthetic witnesses; two of them never coincide.\<close>

definition witness_name :: "bool \<Rightarrow> nat \<Rightarrow> bytes" where
  "witness_name external idx = string_bytes (''nex|witness|'' @ nat_text idx @ ''|'' @ (if external then ''true'' else ''false''))"

lemma inj_witness_name: "witness_name external i = witness_name external j \<longleftrightarrow> i = j"
  by (simp add: witness_name_def inj_string_bytes inj_nat_text del: nat_text.simps)

lemma attest_synthetic:
  assumes "inj_on (v5 (rs_node_id r)) (witness_name external ` {..<n})"
  shows "attest_node v5 i r n external =
    (if rs_strength r \<noteq> Signed then Inl (AttestationRequiresSigned i (rs_strength r))
     else if n < 2 then Inl (AttestationFailed i NotEnoughWitnesses)
     else if \<not> external then Inl (AttestationFailed i NoExternalReference)
     else Inr (r\<lparr>rs_strength := Anchored\<rparr>))"
proof -
  have "distinct (map (v5 (rs_node_id r) \<circ> witness_name external) [0..<n])"
    using assms by (auto simp: distinct_map inj_on_def inj_witness_name atLeast0LessThan)
  then have "distinct (map witness_id (synthetic_witness_set v5 (rs_node_id r) n external))"
    by (simp add: synthetic_witnesses witness_name_def [abs_def] comp_def del: nat_text.simps)
  then show ?thesis
    unfolding attest_node_def attest_outcome
    by (auto simp: synthetic_witnesses snapshot_from_node_def simp del: nat_text.simps dest: spec [of _ 0])
qed

section \<open>Properties\<close>

text \<open>
  C19: the expansion of imports ends on every file system, cyclic ones included. When it succeeds, its
  result is the statements of distinct files, each file after all it imports, followed by the
  program's own, with no import left; a reported cycle is a chain of imports from a file back to
  itself. So execution never reaches the unreachable case.
\<close>

theorem nex_import_expansion:
  "(\<forall>out. expand_program parse fs base prog = Inr out \<longrightarrow>
      (\<exists>ps. distinct ps \<and> dependency_order parse fs {} ps \<and>
         out = concat (map (file_body parse fs) ps) @ body_of prog \<and>
         (\<forall>i \<in> set (imports_of prog). resolve_import_path base i \<in> set ps) \<and> (\<forall>p. Use p \<notin> set out))) \<and>
   (\<forall>c. expand_program parse fs base prog = Inl (CircularImport c) \<longrightarrow>
      (\<exists>p ys. c = p # ys @ [p] \<and> successively (imports_file parse fs) c)) \<and>
   execute_in_dir v5 parse fs base prog \<noteq> Inl Panic"
proof (cases "load_imports parse fs base (imports_of prog) {} []")
  case (Inl e)
  then show ?thesis
    using load_cycle(1) [of parse fs base "imports_of prog" "{}" "[]"]
    by (auto simp: expand_program_def expand_statements_def execute_in_dir_def)
next
  case (Inr a)
  obtain ss v where l: "load_imports parse fs base (imports_of prog) {} [] = Inr (ss, v)" using Inr by (cases a) auto
  then obtain ps where ps: "distinct ps" "v = set ps" "ss = concat (map (file_body parse fs) ps)"
    "dependency_order parse fs {} ps" "\<forall>i \<in> set (imports_of prog). resolve_import_path base i \<in> v"
    using load_loads(1) [OF l] by (auto simp: loads_def)
  have e: "expand_program parse fs base prog = Inr (ss @ body_of prog)"
    using l by (simp add: expand_program_def expand_statements_def)
  have u: "Use p \<notin> set (ss @ body_of prog)" for p by (auto simp: ps(3) file_body_no_use body_of_no_use)
  then have "run_stmts v5 S (ss @ body_of prog) \<noteq> Inl Panic" for S by (rule run_stmts_no_panic [OF allI])
  then have "execute_in_dir v5 parse fs base prog \<noteq> Inl Panic"
    using e by (auto simp: execute_in_dir_def execute_expanded_def split: sum.splits)
  then show ?thesis using e ps u by auto
qed

theorem nex_import_expansion_witness:
  "\<exists>p ys. import_cycle [[''a.nex''], [''b.nex'']] [''a.nex''] = p # ys @ [p]"
proof -
  let ?parse = "\<lambda>t. if t = ''A'' then Some [Use ''b''] else Some [Use ''a'']"
  let ?fs = "[([''a.nex''], Readable ''A''), ([''b.nex''], Readable ''B'')]"
  have "expand_program ?parse ?fs [] [Use ''a''] = Inl (CircularImport (import_cycle [[''a.nex''], [''b.nex'']] [''a.nex'']))"
    by (simp add: expand_program_def expand_statements_def resolve_import_path_def path_parent_def)
  then show ?thesis using nex_import_expansion [of ?parse ?fs "[]" "[Use ''a'']"] by blast
qed

text \<open>
  C21: the decisions of a program depend on declared strengths alone: two successful runs of programs that
  differ in values, literals, types and witness counts, whatever the identifiers generated, give the
  same decisions with the same required and actual strengths, in the same order.
\<close>

theorem nex_decisions_ignore_values:
  assumes "execute_expanded v5 p = Inr (env, es)" and "execute_expanded v5' q = Inr (env', es')"
    and "map forget p = map forget q"
  shows "decisions es = decisions es'"
  using executed_decisions [OF assms(1)] executed_decisions [OF assms(2)] assms(3)
    abs_stmts_forget [of "abstract initial_state" p] abs_stmts_forget [of "abstract initial_state" q] by simp

theorem nex_decisions_ignore_values_witness:
  "\<exists>env es env' es'. execute_expanded (\<lambda>u b. u) [Node ''x'' (IntLit 1) Local, Act ''x'' Allow Signed] = Inr (env, es) \<and>
     execute_expanded (\<lambda>u b. 0) [Node ''x'' (StrLit ''s'') Local, Act ''x'' Allow Signed] = Inr (env', es') \<and>
     decisions es = decisions es'"
proof -
  obtain env es where a: "execute_expanded (\<lambda>u b. u) [Node ''x'' (IntLit 1) Local, Act ''x'' Allow Signed] = Inr (env, es)"
    by (simp add: execute_expanded_def build_node_def run_act_def set_node_def Let_def)
  obtain env' es' where b: "execute_expanded (\<lambda>u b. 0) [Node ''x'' (StrLit ''s'') Local, Act ''x'' Allow Signed] = Inr (env', es')"
    by (simp add: execute_expanded_def build_node_def run_act_def set_node_def Let_def)
  show ?thesis using a b nex_decisions_ignore_values [OF a b] by auto
qed

text \<open>
  C20: strength is never gained by computing: if every node statement of a program declares at most \<open>b\<close>, and
  attestations only occur when \<open>b\<close> is \<open>Anchored\<close>, then every decision is made on a strength of at most
  \<open>b\<close>, it is granted exactly when that strength reaches the required one, and actions that require more are denied.
\<close>

theorem nex_no_strength_gain:
  assumes "execute_expanded v5 prog = Inr (env, es)" and "\<forall>st \<in> set prog. declares_at_most b st"
    and "(i, a, req, actual, ok) \<in> set (decisions es)"
  shows "actual \<le> b \<and> (ok \<longleftrightarrow> req \<le> actual) \<and> (b < req \<longrightarrow> \<not> ok)"
proof -
  obtain S where S: "run_stmts v5 initial_state prog = Inr S" "es = entries S" using executed [OF assms(1)] by blast
  have "bounded b (abstract initial_state)" by (simp add: bounded_def abstract_def initial_state_def decisions_def)
  from run_stmts_bounded [OF S(1) this assms(2)] have "bounded b (abstract S)" .
  then show ?thesis using assms(3) S(2) by (fastforce simp: bounded_def abstract_def)
qed

theorem nex_no_strength_gain_witness:
  "\<exists>env es. execute_expanded (\<lambda>u b. u) [Node ''x'' (IntLit 1) Local, Act ''x'' Allow Signed] = Inr (env, es) \<and>
     (''x'', Allow, Signed, Local, False) \<in> set (decisions es) \<and> Local \<le> Local"
proof -
  obtain env es where a: "execute_expanded (\<lambda>u b. u) [Node ''x'' (IntLit 1) Local, Act ''x'' Allow Signed] = Inr (env, es)"
    "es = [NodeEntry (rs_view \<lparr>rs_node_id = NAMESPACE_URL, rs_value = IV 1, rs_strength = Local\<rparr> ''x''),
       ActionEntry \<lparr>av_id = ''x'', av_decision_id = NAMESPACE_URL, av_action = Allow, required_strength = Signed,
         actual_strength = Local, granted = False, av_reason = Some ''ActionDenied''\<rparr>]"
    by (simp add: execute_expanded_def build_node_def run_act_def set_node_def Let_def deterministic_node_id_def
        snapshot_from_node_def action_decision_id_def strength_order)
  have d: "(''x'', Allow, Signed, Local, False) \<in> set (decisions es)"
    by (simp add: a(2) decisions_def decision_of_entry_def)
  from nex_no_strength_gain [OF a(1) _ d, of Local] show ?thesis using a(1) d by auto
qed

text \<open>
  An attestation makes a node \<open>Anchored\<close> exactly when the node is \<open>Signed\<close>, at least two
  witnesses are claimed and the external flag is set; the witnesses are made up by the evaluator from the node's
  identifier, so no witness outside the program is consulted.
\<close>

theorem nex_attest_outcome:
  assumes "inj_on (v5 (rs_node_id r)) (witness_name external ` {..<n})" and "working S i = Some r"
  shows "run_stmt v5 S (Attest i n external) =
    (if rs_strength r \<noteq> Signed then Inl (Failed (AttestationRequiresSigned i (rs_strength r)))
     else if n < 2 then Inl (Failed (AttestationFailed i NotEnoughWitnesses))
     else if \<not> external then Inl (Failed (AttestationFailed i NoExternalReference))
     else Inr (set_node S i (r\<lparr>rs_strength := Anchored\<rparr>)))"
  using assms by (simp add: attest_synthetic)

theorem nex_attest_outcome_witness:
  "\<exists>v5 S. run_stmt v5 S (Attest ''x'' 2 True) =
     Inr (set_node S ''x'' \<lparr>rs_node_id = 9, rs_value = IV 0, rs_strength = Anchored\<rparr>)"
proof -
  define r where "r = \<lparr>rs_node_id = 9, rs_value = IV 0, rs_strength = Signed\<rparr>"
  define v5 :: "uuid \<Rightarrow> bytes \<Rightarrow> uuid" where "v5 = (\<lambda>u b. if b = witness_name True 0 then 1 else 2)"
  define S where "S = set_node initial_state ''x'' r"
  have two: "{..<2 :: nat} = {0, 1}" by auto
  have "inj_on (v5 (rs_node_id r)) (witness_name True ` {..<2})"
    by (simp add: two v5_def inj_witness_name)
  moreover have "working S ''x'' = Some r" by (simp add: S_def set_node_def)
  ultimately show ?thesis
    using nex_attest_outcome [of v5 r True 2 S "''x''"] by (auto simp: r_def simp del: run_stmt.simps)
qed

text \<open>
  Two ways to a granted action without evidence for its subject. A node statement may take the value of an
  unverifiable node and declare it \<open>Anchored\<close>; and an action that names an identifier never
  defined is judged on the last node touched.
\<close>

theorem nex_grant_without_evidence:
  "\<exists>env es. execute_expanded v5
     [Node ''rumour'' (StrLit s) Unverifiable, Node ''fact'' (Ident ''rumour'') Anchored,
      Act ''fact'' Allow Anchored, Act ''undefined'' Allow Anchored] = Inr (env, es) \<and>
     env ''fact'' = env ''rumour'' \<and> env ''undefined'' = None \<and>
     decisions es = [(''fact'', Allow, Anchored, Anchored, True), (''undefined'', Allow, Anchored, Anchored, True)]"
  by (simp add: execute_expanded_def build_node_def run_act_def set_node_def Let_def snapshot_from_node_def
      decisions_def decision_of_entry_def)

end
