(* ===== verification/Tables.thy ===== *)
theory Tables
  imports Nexo_Prelude "HOL-Library.AList"
begin

text \<open>
  Bounded tables: an association list stands for a Rust map, in the order in which the map would be
  iterated, with the eviction of the entry with the least rank that the tables of sessions, of
  trusted peers, of peer states and of reputations share (\<^verbatim>\<open>iter().min_by_key\<close>, then \<^verbatim>\<open>remove\<close>).
\<close>

section \<open>The entry with the least rank\<close>

text \<open>\<^verbatim>\<open>Iterator::min_by_key\<close> returns the first of equal minima.\<close>

fun min_entry :: "('v \<Rightarrow> 'o::linorder) \<Rightarrow> ('k \<times> 'v) list \<Rightarrow> ('k \<times> 'v) option" where
  "min_entry rank [] = None"
| "min_entry rank (e # es) =
     (case min_entry rank es of
        None \<Rightarrow> Some e
      | Some e' \<Rightarrow> if rank (snd e) \<le> rank (snd e') then Some e else Some e')"

definition evict_min :: "('v \<Rightarrow> 'o::linorder) \<Rightarrow> ('k \<times> 'v) list \<Rightarrow> ('k \<times> 'v) list" where
  "evict_min rank t = (case min_entry rank t of None \<Rightarrow> t | Some (k, v) \<Rightarrow> AList.delete k t)"

definition keys_distinct :: "('k \<times> 'v) list \<Rightarrow> bool" where
  "keys_distinct t \<longleftrightarrow> distinct (map fst t)"

lemma min_entry_None [simp]: "min_entry rank t = None \<longleftrightarrow> t = []"
  by (cases t) (auto split: option.splits)

lemma min_entry_Some: "min_entry rank t = Some e \<Longrightarrow> e \<in> set t \<and> (\<forall>e' \<in> set t. rank (snd e) \<le> rank (snd e'))"
proof (induction t arbitrary: e)
  case (Cons x xs)
  then show ?case
    by (cases "min_entry rank xs") (force split: if_splits)+
qed simp

lemma delete_absent: "k \<notin> fst ` set t \<Longrightarrow> AList.delete k t = t"
  by (induction t) auto

lemma length_delete: "keys_distinct t \<Longrightarrow> k \<in> fst ` set t \<Longrightarrow> length (AList.delete k t) = length t - 1"
proof (induction t)
  case (Cons e t)
  show ?case
  proof (cases "fst e = k")
    case True
    then have "k \<notin> fst ` set t" using Cons.prems(1) by (auto simp: keys_distinct_def)
    then show ?thesis using True delete_absent [of k t] by (cases e) simp
  next
    case False
    then have m: "k \<in> fst ` set t" "keys_distinct t" using Cons.prems by (auto simp: keys_distinct_def)
    then have "0 < length t" by (cases t) auto
    then show ?thesis using False Cons.IH m by (cases e) simp
  qed
qed simp

lemma keys_distinct_simps [simp]:
  "keys_distinct []"
  "keys_distinct t \<Longrightarrow> keys_distinct (AList.delete k t)"
  "keys_distinct t \<Longrightarrow> keys_distinct (AList.update k v t)"
  "keys_distinct t \<Longrightarrow> keys_distinct (filter P t)"
  by (auto simp: keys_distinct_def distinct_delete distinct_update distinct_map_filter)

lemma length_update_le: "length (AList.update k v t) \<le> length t + 1"
  by (induction t) auto

lemma length_update_old: "k \<in> fst ` set t \<Longrightarrow> length (AList.update k v t) = length t"
  by (induction t) auto

lemma length_update_new: "k \<notin> fst ` set t \<Longrightarrow> length (AList.update k v t) = length t + 1"
  by (induction t) auto

lemma map_of_keys: "map_of t k = None \<longleftrightarrow> k \<notin> fst ` set t"
  by (rule map_of_eq_None_iff)

lemma map_of_set: "keys_distinct t \<Longrightarrow> (k, v) \<in> set t \<longleftrightarrow> map_of t k = Some v"
  by (simp add: keys_distinct_def)

lemma evict_min_distinct [simp]: "keys_distinct t \<Longrightarrow> keys_distinct (evict_min rank t)"
  by (auto simp: evict_min_def split: option.splits)

lemma length_evict_min: "keys_distinct t \<Longrightarrow> length (evict_min rank t) = length t - 1"
  using min_entry_Some [of rank t]
  by (cases "min_entry rank t") (auto simp: evict_min_def length_delete rev_image_eqI)

lemma set_update_subset: "set (AList.update k v t) \<subseteq> insert (k, v) (set t)"
  by (induction t) auto

lemma set_delete_subset: "set (AList.delete k t) \<subseteq> set t"
  by (induction t) auto

lemma set_evict_subset: "set (evict_min rank t) \<subseteq> set t"
  by (auto simp: evict_min_def split: option.splits dest: subsetD [OF set_delete_subset])

lemma update_absent: "k \<notin> fst ` set t \<Longrightarrow> AList.update k v t = t @ [(k, v)]"
  by (induction t) auto

text \<open>What an eviction leaves: every entry but one of least rank.\<close>

lemma map_of_evict_min:
  assumes "keys_distinct t"
  shows "(t = [] \<and> evict_min rank t = []) \<or>
    (\<exists>k v. map_of t k = Some v \<and> (\<forall>j w. map_of t j = Some w \<longrightarrow> rank v \<le> rank w) \<and>
       map_of (evict_min rank t) = (map_of t)(k := None))"
proof (cases "min_entry rank t")
  case None
  then show ?thesis by (auto simp: evict_min_def)
next
  case (Some e)
  obtain k v where e: "e = (k, v)" by (cases e)
  from min_entry_Some [OF Some] assms have "map_of t k = Some v" "\<forall>j w. map_of t j = Some w \<longrightarrow> rank v \<le> rank w"
    by (auto simp: e map_of_set [symmetric] dest: map_of_SomeD)
  moreover have "map_of (evict_min rank t) = (map_of t)(k := None)"
    by (simp add: evict_min_def Some e delete_conv')
  ultimately show ?thesis by blast
qed

text \<open>An insertion that makes room first.\<close>

definition insert_evicting :: "('v \<Rightarrow> 'o::linorder) \<Rightarrow> nat \<Rightarrow> 'k \<Rightarrow> 'v \<Rightarrow> ('k \<times> 'v) list \<Rightarrow> ('k \<times> 'v) list" where
  "insert_evicting rank limit k v t =
     AList.update k v (if limit \<le> length t then evict_min rank t else t)"

lemma insert_evicting_distinct [simp]: "keys_distinct t \<Longrightarrow> keys_distinct (insert_evicting rank limit k v t)"
  by (simp add: insert_evicting_def)

lemma insert_evicting_bound:
  assumes "keys_distinct t" and "length t \<le> limit" and "0 < limit"
  shows "length (insert_evicting rank limit k v t) \<le> limit"
  using assms length_evict_min [OF assms(1), of rank] length_update_le [of k v t]
    length_update_le [of k v "evict_min rank t"]
  by (auto simp: insert_evicting_def)

lemma map_of_insert_evicting_same [simp]: "map_of (insert_evicting rank limit k v t) k = Some v"
  by (simp add: insert_evicting_def update_conv')

end
