(* ===== verification/Session.thy ===== *)
theory Session
  imports Tables
begin

text \<open>
  Sessions of \<^verbatim>\<open>crates/host/src/network/session.rs\<close>: the anti-replay window of 1024 bits kept in 16
  words, and the table of sessions by socket address. Times are readings of a monotone clock.
\<close>

unbundle bit_operations_syntax

section \<open>The window\<close>

definition ANTI_REPLAY_WINDOW_SIZE :: nat where
  "ANTI_REPLAY_WINDOW_SIZE = 1024"

definition WINDOW_WORDS :: nat where
  "WINDOW_WORDS = 16"

text \<open>The loops run over the words from the last down, in place.\<close>

definition shift_word :: "nat \<Rightarrow> nat \<Rightarrow> nat \<Rightarrow> u64 list \<Rightarrow> u64 list" where
  "shift_word word_shift bit_shift i w =
     (if bit_shift = 0 then w[i := w ! (i - word_shift)]
      else
        let v = push_bit bit_shift (w ! (i - word_shift))
        in w[i := if word_shift < i then v OR drop_bit (64 - bit_shift) (w ! (i - word_shift - 1)) else v])"

definition shift_window_left :: "u64 list \<Rightarrow> nat \<Rightarrow> u64 list" where
  "shift_window_left w n =
     (if ANTI_REPLAY_WINDOW_SIZE \<le> n then replicate WINDOW_WORDS 0
      else
        let word_shift = n div 64; bit_shift = n mod 64;
            w = fold (shift_word word_shift bit_shift) (rev [word_shift..<WINDOW_WORDS]) w
        in fold (\<lambda>i w. w[i := 0]) [0..<min word_shift WINDOW_WORDS] w)"

definition get_bit :: "u64 list \<Rightarrow> nat \<Rightarrow> bool" where
  "get_bit w pos = (if WINDOW_WORDS \<le> pos div 64 then False else (w ! (pos div 64)) AND push_bit (pos mod 64) 1 \<noteq> 0)"

definition set_bit :: "u64 list \<Rightarrow> nat \<Rightarrow> u64 list" where
  "set_bit w pos =
     (if pos div 64 < WINDOW_WORDS then w[pos div 64 := (w ! (pos div 64)) OR push_bit (pos mod 64) 1] else w)"

section \<open>A session\<close>

record session_state =
  session_key :: bytes
  send_counter :: u64
  recv_counter :: u64
  recv_window :: "u64 list"
  nonce_local :: bytes
  nonce_remote :: bytes
  last_activity :: nat

definition session_new :: "bytes \<Rightarrow> bytes \<Rightarrow> bytes \<Rightarrow> nat \<Rightarrow> session_state" where
  "session_new key nl nr now =
     \<lparr>session_key = key, send_counter = 0, recv_counter = 0, recv_window = replicate WINDOW_WORDS 0,
      nonce_local = nl, nonce_remote = nr, last_activity = now\<rparr>"

definition next_send_counter :: "session_state \<Rightarrow> nat \<Rightarrow> u64 \<times> session_state" where
  "next_send_counter s now = (send_counter s, s\<lparr>send_counter := send_counter s + 1, last_activity := now\<rparr>)"

definition check_counter :: "session_state \<Rightarrow> u64 \<Rightarrow> nat \<Rightarrow> bool \<times> session_state" where
  "check_counter s c now =
     (if recv_counter s < c then
        let diff = unat (c - recv_counter s);
            w = (if diff < ANTI_REPLAY_WINDOW_SIZE then shift_window_left (recv_window s) diff
                 else replicate WINDOW_WORDS 0)
        in (True, s\<lparr>recv_window := set_bit w 0, recv_counter := c, last_activity := now\<rparr>)
      else
        let diff = unat (recv_counter s - c)
        in if ANTI_REPLAY_WINDOW_SIZE \<le> diff then (False, s)
           else if get_bit (recv_window s) diff then (False, s)
           else (True, s\<lparr>recv_window := set_bit (recv_window s) diff, last_activity := now\<rparr>))"

definition session_expired :: "session_state \<Rightarrow> nat \<Rightarrow> nat \<Rightarrow> bool" where
  "session_expired s timeout now \<longleftrightarrow> timeout < now - last_activity s"

section \<open>The table of sessions\<close>

definition MAX_SESSIONS :: nat where
  "MAX_SESSIONS = 4096"

type_synonym addr = string

type_synonym session_table = "(addr \<times> session_state) list"

definition sessions_insert :: "session_table \<Rightarrow> addr \<Rightarrow> session_state \<Rightarrow> session_table" where
  "sessions_insert T a s = insert_evicting last_activity MAX_SESSIONS a s T"

definition sessions_get :: "session_table \<Rightarrow> addr \<Rightarrow> session_state option" where
  "sessions_get T a = map_of T a"

definition sessions_remove :: "session_table \<Rightarrow> addr \<Rightarrow> bool \<times> session_table" where
  "sessions_remove T a = (map_of T a \<noteq> None, AList.delete a T)"

definition sessions_contains :: "session_table \<Rightarrow> addr \<Rightarrow> bool" where
  "sessions_contains T a \<longleftrightarrow> map_of T a \<noteq> None"

definition sessions_check_counter :: "session_table \<Rightarrow> addr \<Rightarrow> u64 \<Rightarrow> nat \<Rightarrow> bool \<times> session_table" where
  "sessions_check_counter T a c now =
     (case map_of T a of
        None \<Rightarrow> (False, T)
      | Some s \<Rightarrow> (let (ok, s') = check_counter s c now in (ok, AList.update a s' T)))"

text \<open>\<^verbatim>\<open>cleanup\<close> takes seconds; the clock here counts milliseconds.\<close>

definition sessions_cleanup :: "session_table \<Rightarrow> nat \<Rightarrow> nat \<Rightarrow> session_table" where
  "sessions_cleanup T secs now = filter (\<lambda>(a, s). \<not> session_expired s (secs * 1000) now) T"

section \<open>Bits of the window\<close>

lemma word_index: "(pos :: nat) < 1024 \<Longrightarrow> pos div 64 < 16"
  by simp

lemma get_bit_bit: "pos < 1024 \<Longrightarrow> get_bit w pos = bit (w ! (pos div 64)) (pos mod 64)"
  using word_index [of pos] by (simp add: get_bit_def WINDOW_WORDS_def push_bit_of_1 and_exp_eq_0_iff_not_bit)

lemma length_set_bit [simp]: "length (set_bit w pos) = length w"
  by (simp add: set_bit_def)

lemma get_set_bit:
  assumes "length w = 16" and "p < 1024" and "q < 1024"
  shows "get_bit (set_bit w p) q \<longleftrightarrow> p = q \<or> get_bit w q"
proof (cases "p div 64 = q div 64")
  case False
  then show ?thesis using assms by (auto simp: get_bit_bit set_bit_def)
next
  case True
  have l: "p div 64 < 16" "q div 64 < 16" using assms by (simp_all add: div_less_iff_less_mult)
  have "p = q \<longleftrightarrow> p mod 64 = q mod 64" using True div_mult_mod_eq [of p 64] div_mult_mod_eq [of q 64] by metis
  moreover have "bit (push_bit n (1 :: u64)) m \<longleftrightarrow> n = m" if "n < 64" "m < 64" for n m
    using that by (auto simp: push_bit_of_1 bit_exp_iff)
  ultimately show ?thesis using assms l True by (auto simp: get_bit_bit set_bit_def WINDOW_WORDS_def bit_or_iff)
qed

lemma zero_window: "q < 1024 \<Longrightarrow> \<not> get_bit (replicate WINDOW_WORDS 0) q"
  by (simp add: get_bit_bit WINDOW_WORDS_def div_less_iff_less_mult)

text \<open>The loops of the shift, as functions of the words before them.\<close>

definition shifted_word :: "nat \<Rightarrow> nat \<Rightarrow> u64 list \<Rightarrow> nat \<Rightarrow> u64" where
  "shifted_word ws bs w i =
     (if bs = 0 then w ! (i - ws)
      else push_bit bs (w ! (i - ws)) OR (if ws < i then drop_bit (64 - bs) (w ! (i - ws - 1)) else 0))"

lemma shift_word_eq: "shift_word ws bs i w = w[i := shifted_word ws bs w i]"
  by (simp add: shift_word_def shifted_word_def)

lemma shift_loop:
  "n \<le> length w \<Longrightarrow> ws \<le> n \<Longrightarrow>
     length (fold (shift_word ws bs) (rev [ws..<n]) w) = length w \<and>
     (\<forall>j < length w. fold (shift_word ws bs) (rev [ws..<n]) w ! j =
        (if ws \<le> j \<and> j < n then shifted_word ws bs w j else w ! j))"
proof (induction n arbitrary: w)
  case (Suc n)
  show ?case
  proof (cases "ws = Suc n")
    case False
    define w' where "w' = shift_word ws bs n w"
    have w': "length w' = length w" "w' ! n = shifted_word ws bs w n" "\<And>j. j \<noteq> n \<Longrightarrow> w' ! j = w ! j"
      using Suc.prems by (simp_all add: w'_def shift_word_eq)
    have "shifted_word ws bs w' j = shifted_word ws bs w j" if "ws \<le> j" "j < n" for j
      using that w'(3) by (simp add: shifted_word_def)
    moreover have "fold (shift_word ws bs) (rev [ws..<Suc n]) w = fold (shift_word ws bs) (rev [ws..<n]) w'"
      using False Suc.prems by (simp add: w'_def)
    ultimately show ?thesis
      using Suc.IH [of w'] Suc.prems w' False by (auto simp: less_Suc_eq)
  qed auto
qed simp

lemma clear_loop:
  "length (fold (\<lambda>i w. w[i := 0]) [0..<n] w) = length w \<and>
   (\<forall>j < length w. fold (\<lambda>i w. w[i := 0]) [0..<n] w ! j = (if j < n then 0 else w ! j))" for w :: "u64 list"
  by (induction n) (auto simp: nth_list_update less_Suc_eq)

lemma length_shift [simp]: "length w = 16 \<Longrightarrow> length (shift_window_left w n) = 16"
  using shift_loop [of 16 w "n div 64" "n mod 64"] clear_loop
  by (auto simp: shift_window_left_def Let_def WINDOW_WORDS_def ANTI_REPLAY_WINDOW_SIZE_def div_le_mono)

lemma bit_shifted_word:
  assumes "r < 64" and "bs < 64" and "ws \<le> j"
  shows "bit (shifted_word ws bs w j) r \<longleftrightarrow>
    (if bs \<le> r then bit (w ! (j - ws)) (r - bs) else ws < j \<and> bit (w ! (j - ws - 1)) (64 + r - bs))"
  using assms by (auto simp: shifted_word_def bit_simps add.commute dest: bit_imp_le_length)

lemma nth_shift:
  assumes "length w = 16" and "n < 1024" and "j < 16"
  shows "shift_window_left w n ! j = (if j < n div 64 then 0 else shifted_word (n div 64) (n mod 64) w j)"
proof -
  have "n div 64 \<le> 16" using assms(2) by simp
  then show ?thesis
    using assms shift_loop [of 16 w "n div 64" "n mod 64"]
      clear_loop [of "n div 64" "fold (shift_word (n div 64) (n mod 64)) (rev [n div 64..<16]) w"]
    by (auto simp: shift_window_left_def Let_def WINDOW_WORDS_def ANTI_REPLAY_WINDOW_SIZE_def min_def)
qed

text \<open>A shift by \<open>n\<close> moves bit \<open>q\<close> to \<open>q + n\<close>.\<close>

lemma get_shift:
  assumes "length w = 16" and "n < 1024" and "q < 1024"
  shows "get_bit (shift_window_left w n) q \<longleftrightarrow> n \<le> q \<and> get_bit w (q - n)"
proof -
  define ws bs j r where "ws = n div 64" and "bs = n mod 64" and "j = q div 64" and "r = q mod 64"
  have n: "n = 64 * ws + bs" "bs < 64" and q: "q = 64 * j + r" "r < 64" "j < 16"
    using assms by (simp_all add: ws_def bs_def j_def r_def)
  have e: "get_bit (shift_window_left w n) q = bit (shift_window_left w n ! j) r"
    using assms by (simp add: get_bit_bit j_def r_def)
  have h: "shift_window_left w n ! j = (if j < ws then 0 else shifted_word ws bs w j)"
    using nth_shift [OF assms(1,2) q(3)] by (simp add: ws_def bs_def)
  show ?thesis
  proof (cases "ws \<le> j")
    case False
    then have "q < n" using n q by linarith
    then show ?thesis using False e h by simp
  next
    case True
    note b = bit_shifted_word [OF q(2) n(2) True, of w]
    show ?thesis
    proof (cases "bs \<le> r")
      case True
      have "q - n = 64 * (j - ws) + (r - bs)" using n q True \<open>ws \<le> j\<close> by (simp add: diff_mult_distrib2)
      then have "(q - n) div 64 = j - ws" "(q - n) mod 64 = r - bs" using q(2) by simp_all
      moreover have "n \<le> q" using n q True \<open>ws \<le> j\<close> by simp
      ultimately show ?thesis using True \<open>ws \<le> j\<close> assms e h b by (simp add: get_bit_bit)
    next
      case False
      show ?thesis
      proof (cases "ws < j")
        case True
        have "q - n = 64 * (j - ws - 1) + (64 + r - bs)" using n q True False by (simp add: diff_mult_distrib2)
        moreover have "64 + r - bs < 64" using False by simp
        ultimately have "(q - n) div 64 = j - ws - 1" "(q - n) mod 64 = 64 + r - bs" by simp_all
        moreover have "n \<le> q" using n q True by linarith
        ultimately show ?thesis using True False assms e h b by (simp add: get_bit_bit)
      next
        case not: False
        then have "q < n" using n q False True by linarith
        then show ?thesis using not False e h b \<open>ws \<le> j\<close> by simp
      qed
    qed
  qed
qed

end
