(* ===== verification/Session_Theorems.thy ===== *)
theory Session_Theorems
  imports Session
begin

text \<open>
  The anti-replay window refines its specification: a counter is accepted exactly when it was never
  accepted before and is less than 1024 behind the highest accepted one. The table of sessions keeps
  its bound, and what a re-inserted session costs when the table is full.
\<close>

section \<open>The specification\<close>

definition fresh_counter :: "nat set \<Rightarrow> nat \<Rightarrow> bool" where
  "fresh_counter seen c \<longleftrightarrow> c \<notin> seen \<and> Max (insert 0 seen) < c + 1024"

fun window_spec :: "nat set \<Rightarrow> nat list \<Rightarrow> bool list" where
  "window_spec seen [] = []"
| "window_spec seen (c # cs) =
     (if fresh_counter seen c then True # window_spec (insert c seen) cs else False # window_spec seen cs)"

text \<open>A session that checks one counter after the other.\<close>

fun check_all :: "session_state \<Rightarrow> (u64 \<times> nat) list \<Rightarrow> bool list \<times> session_state" where
  "check_all s [] = ([], s)"
| "check_all s ((c, now) # cs) =
     (let (ok, s) = check_counter s c now; (oks, s) = check_all s cs in (ok # oks, s))"

definition accepted_counters :: "(u64 \<times> nat) list \<Rightarrow> bool list \<Rightarrow> u64 list" where
  "accepted_counters cs oks = map fst (map fst (filter snd (zip cs oks)))"

section \<open>Refinement\<close>

text \<open>The window of a session represents the set of its accepted counters.\<close>

definition represents :: "session_state \<Rightarrow> nat set \<Rightarrow> bool" where
  "represents s seen \<longleftrightarrow>
     finite seen \<and> length (recv_window s) = 16 \<and> unat (recv_counter s) = Max (insert 0 seen) \<and>
     (\<forall>q < 1024. get_bit (recv_window s) q \<longleftrightarrow> q \<le> unat (recv_counter s) \<and> unat (recv_counter s) - q \<in> seen)"

lemma represents_new: "represents (session_new key nl nr now) {}"
  by (auto simp: represents_def session_new_def WINDOW_WORDS_def zero_window [unfolded WINDOW_WORDS_def])

lemma Max_insert_0: "finite seen \<Longrightarrow> Max (insert 0 (insert c seen)) = max c (Max (insert 0 seen))" for c :: nat
  by (simp add: insert_commute [of 0])

lemma seen_le: "finite seen \<Longrightarrow> c \<in> seen \<Longrightarrow> c \<le> Max (insert 0 seen)" for c :: nat
  by simp

lemma check_ahead:
  assumes "represents s seen" and "recv_counter s < c"
  shows "fst (check_counter s c now) \<and> fresh_counter seen (unat c) \<and>
    represents (snd (check_counter s c now)) (insert (unat c) seen)"
proof -
  define hi d w where "hi = unat (recv_counter s)" and "d = unat (c - recv_counter s)"
    and "w = (if d < 1024 then shift_window_left (recv_window s) d else replicate 16 0)"
  have fin: "finite seen" and len: "length (recv_window s) = 16" and top: "hi = Max (insert 0 seen)"
    and bits: "\<And>q. q < 1024 \<Longrightarrow> get_bit (recv_window s) q \<longleftrightarrow> q \<le> hi \<and> hi - q \<in> seen"
    using assms(1) by (auto simp: represents_def hi_def)
  have lt: "hi < unat c" using assms(2) by (simp add: hi_def word_less_nat_alt)
  have d: "d = unat c - hi" using assms(2) by (simp add: d_def hi_def unat_sub)
  have new: "unat c \<notin> seen" using lt top seen_le [OF fin, of "unat c"] by auto
  have w: "length w = 16" using len by (simp add: w_def)
  have "get_bit w q \<longleftrightarrow> q \<le> unat c \<and> unat c - q \<in> seen" if q: "q < 1024" for q
  proof (cases "d < 1024")
    case True
    have w': "get_bit w q \<longleftrightarrow> d \<le> q \<and> get_bit (recv_window s) (q - d)"
      using True q len by (simp add: w_def get_shift)
    show ?thesis
    proof (cases "d \<le> q")
      case le: True
      have "hi - (q - d) = unat c - q" "q - d \<le> hi \<longleftrightarrow> q \<le> unat c" using le d lt by linarith+
      then show ?thesis using w' le q bits [of "q - d"] by simp
    next
      case False
      then have "hi < unat c - q" using d lt by linarith
      then have "unat c - q \<notin> seen" using seen_le [OF fin] top by (metis not_le)
      then show ?thesis using w' False by simp
    qed
  next
    case False
    then have "hi < unat c - q" using q d lt by linarith
    then have "unat c - q \<notin> seen" using seen_le [OF fin] top by (metis not_le)
    then show ?thesis using False q zero_window [of q] by (simp add: w_def WINDOW_WORDS_def)
  qed
  then have "get_bit (set_bit w 0) q \<longleftrightarrow> q \<le> unat c \<and> unat c - q \<in> insert (unat c) seen" if "q < 1024" for q
    using that get_set_bit [OF w, of 0 q] lt by auto
  moreover have "check_counter s c now = (True, s\<lparr>recv_window := set_bit w 0, recv_counter := c, last_activity := now\<rparr>)"
    using assms(2) by (simp add: check_counter_def w_def d_def Let_def ANTI_REPLAY_WINDOW_SIZE_def WINDOW_WORDS_def)
  moreover have "Max (insert 0 (insert (unat c) seen)) = unat c"
    using lt top by (simp add: Max_insert_0 [OF fin] max_def)
  ultimately show ?thesis
    using fin w lt top new by (auto simp: represents_def fresh_counter_def)
qed

lemma check_behind:
  assumes "represents s seen" and "\<not> recv_counter s < c"
  shows "fst (check_counter s c now) = fresh_counter seen (unat c) \<and>
    represents (snd (check_counter s c now)) (if fresh_counter seen (unat c) then insert (unat c) seen else seen)"
proof -
  define hi d where "hi = unat (recv_counter s)" and "d = unat (recv_counter s - c)"
  have fin: "finite seen" and len: "length (recv_window s) = 16" and top: "hi = Max (insert 0 seen)"
    and bits: "\<And>q. q < 1024 \<Longrightarrow> get_bit (recv_window s) q \<longleftrightarrow> q \<le> hi \<and> hi - q \<in> seen"
    using assms(1) by (auto simp: represents_def hi_def)
  have le: "unat c \<le> hi" using assms(2) by (simp add: hi_def word_less_nat_alt)
  have d: "d = hi - unat c" using assms(2) by (simp add: d_def hi_def unat_sub)
  show ?thesis
  proof (cases "1024 \<le> d")
    case True
    then have "\<not> hi < unat c + 1024" using d le by linarith
    then have "\<not> fresh_counter seen (unat c)" using top by (simp add: fresh_counter_def)
    then show ?thesis
      using True assms by (simp add: check_counter_def Let_def ANTI_REPLAY_WINDOW_SIZE_def flip: d_def)
  next
    case False
    then have f: "fresh_counter seen (unat c) \<longleftrightarrow> unat c \<notin> seen" using d le top by (auto simp: fresh_counter_def)
    have b: "get_bit (recv_window s) d \<longleftrightarrow> unat c \<in> seen" using bits [of d] False d le by simp
    have "get_bit (set_bit (recv_window s) d) q \<longleftrightarrow> q \<le> hi \<and> hi - q \<in> insert (unat c) seen" if "q < 1024" for q
      using that False get_set_bit [OF len, of d q] bits [of q] d le by auto
    moreover have "Max (insert 0 (insert (unat c) seen)) = hi" using le top by (simp add: Max_insert_0 [OF fin] max_def)
    ultimately have "represents (s\<lparr>recv_window := set_bit (recv_window s) d, last_activity := now\<rparr>) (insert (unat c) seen)"
      using fin len by (simp add: represents_def flip: hi_def)
    then show ?thesis
      using False assms f b by (simp add: check_counter_def Let_def ANTI_REPLAY_WINDOW_SIZE_def flip: d_def)
  qed
qed

lemma check_refines:
  assumes "represents s seen"
  shows "fst (check_counter s c now) = fresh_counter seen (unat c)"
    and "represents (snd (check_counter s c now)) (if fresh_counter seen (unat c) then insert (unat c) seen else seen)"
  using check_ahead [OF assms] check_behind [OF assms] by (cases "recv_counter s < c"; fastforce)+

lemma check_all_refines:
  "represents s seen \<Longrightarrow> fst (check_all s cs) = window_spec seen (map (unat \<circ> fst) cs)"
proof (induction cs arbitrary: s seen)
  case (Cons e cs)
  obtain c now where e: "e = (c, now)" by (cases e)
  obtain ok s' where c: "check_counter s c now = (ok, s')" by (cases "check_counter s c now")
  have "ok = fresh_counter seen (unat c)" "represents s' (if ok then insert (unat c) seen else seen)"
    using check_refines [OF Cons.prems, of c now] c by simp_all
  moreover from Cons.IH [OF this(2)]
  have "fst (check_all s' cs) = window_spec (if ok then insert (unat c) seen else seen) (map (unat \<circ> fst) cs)" .
  ultimately show ?case by (simp add: e c case_prod_beta comp_def)
qed simp

lemma window_spec_distinct:
  "length oks = length cs \<Longrightarrow> oks = window_spec seen cs \<Longrightarrow>
     distinct (map fst (filter snd (zip cs oks))) \<and> set (map fst (filter snd (zip cs oks))) \<inter> seen = {}"
proof (induction cs arbitrary: seen oks)
  case (Cons c cs)
  then show ?case
    by (auto simp: fresh_counter_def split: if_splits)
qed simp

lemma length_check_all: "length (fst (check_all s cs)) = length cs"
proof (induction cs arbitrary: s)
  case (Cons e cs)
  then show ?case by (cases e) (simp add: case_prod_beta)
qed simp

section \<open>The table\<close>

datatype session_op =
    SessionInsert addr session_state
  | SessionRemove addr
  | SessionCheck addr u64 nat
  | SessionCleanup nat nat

fun session_step :: "session_table \<Rightarrow> session_op \<Rightarrow> session_table" where
  "session_step T (SessionInsert a s) = sessions_insert T a s"
| "session_step T (SessionRemove a) = snd (sessions_remove T a)"
| "session_step T (SessionCheck a c now) = snd (sessions_check_counter T a c now)"
| "session_step T (SessionCleanup secs now) = sessions_cleanup T secs now"

definition sessions_ok :: "session_table \<Rightarrow> bool" where
  "sessions_ok T \<longleftrightarrow> keys_distinct T \<and> length T \<le> MAX_SESSIONS"

lemma sessions_insert_ok: "sessions_ok T \<Longrightarrow> sessions_ok (sessions_insert T a s)"
  using insert_evicting_bound [of T MAX_SESSIONS last_activity a s]
  by (simp add: sessions_ok_def sessions_insert_def MAX_SESSIONS_def)

lemma sessions_check_ok: "sessions_ok T \<Longrightarrow> sessions_ok (snd (sessions_check_counter T a c now))"
proof (cases "map_of T a")
  case (Some s)
  then have "a \<in> fst ` set T" by (metis map_of_keys option.distinct(1))
  then show "sessions_ok T \<Longrightarrow> ?thesis"
    using Some by (simp add: sessions_ok_def sessions_check_counter_def case_prod_beta length_update_old)
qed (simp add: sessions_check_counter_def)

lemma session_step_ok: "sessions_ok T \<Longrightarrow> sessions_ok (session_step T x)"
proof (cases x)
  case (SessionInsert a s)
  then show "sessions_ok T \<Longrightarrow> ?thesis" by (simp add: sessions_insert_ok)
next
  case (SessionRemove a)
  then show "sessions_ok T \<Longrightarrow> ?thesis"
    using length_delete_le [of a T] by (simp add: sessions_ok_def sessions_remove_def)
next
  case (SessionCheck a c now)
  then show "sessions_ok T \<Longrightarrow> ?thesis" by (simp add: sessions_check_ok)
next
  case (SessionCleanup secs now)
  then show "sessions_ok T \<Longrightarrow> ?thesis"
    by (auto simp: sessions_ok_def sessions_cleanup_def intro: le_trans [OF length_filter_le])
qed

interpretation ses: preserved session_step sessions_ok
  by unfold_locales (rule session_step_ok)

text \<open>
  C28: the anti-replay window is exact: in any sequence of counters, a counter is accepted exactly when it
  was not accepted before and is less than 1024 behind the highest counter accepted so far. So
  no counter is accepted twice.
\<close>

theorem session_replay_window:
  "fst (check_all (session_new key nl nr t) cs) = window_spec {} (map (unat \<circ> fst) cs) \<and>
   distinct (accepted_counters cs (fst (check_all (session_new key nl nr t) cs)))"
proof -
  define oks where "oks = fst (check_all (session_new key nl nr t) cs)"
  have w: "oks = window_spec {} (map (unat \<circ> fst) cs)"
    unfolding oks_def by (rule check_all_refines [OF represents_new])
  have "distinct (map fst (filter snd (zip (map (unat \<circ> fst) cs) oks)))"
    using window_spec_distinct [OF _ w] by (simp add: oks_def length_check_all)
  then have "distinct (map unat (accepted_counters cs oks))"
    by (simp add: accepted_counters_def zip_map1 filter_map comp_def case_prod_beta)
  then show ?thesis using w by (simp add: distinct_map flip: oks_def)
qed

text \<open>
  The table of sessions never holds more than 4096 sessions or two for one address; but inserting a
  session for an address it already holds, when it is full, also drops the session of the least active one.
\<close>

theorem session_table_bound:
  "sessions_ok (foldl session_step [] xs)"
  by (rule ses.run_inv) (simp add: sessions_ok_def MAX_SESSIONS_def)

theorem session_reinsert_evicts:
  assumes "sessions_ok T" and "length T = MAX_SESSIONS" and "map_of T a = Some old"
    and "map_of T b = Some s'" and "last_activity s' < last_activity old"
  shows "\<exists>c. c \<noteq> a \<and> map_of T c \<noteq> None \<and> map_of (sessions_insert T a new) c = None"
proof -
  have d: "keys_distinct T" using assms(1) by (simp add: sessions_ok_def)
  have "T \<noteq> []" using assms(3) by auto
  then obtain c v where c: "map_of T c = Some v" "\<forall>j w. map_of T j = Some w \<longrightarrow> last_activity v \<le> last_activity w"
    "map_of (evict_min last_activity T) = (map_of T)(c := None)"
    using map_of_evict_min [OF d, of last_activity] by blast
  have "c \<noteq> a" using c assms(3,4,5) by (metis leD option.inject)
  then show ?thesis
    using c assms(2) by (auto simp: sessions_insert_def insert_evicting_def update_conv' intro!: exI [of _ c])
qed

end
