(* ===== verification/Reputation.thy ===== *)
theory Reputation
  imports Tables "HOL-Library.Char_ord" "HOL-Library.List_Lexorder"
begin

text \<open>
  Reputations of \<^verbatim>\<open>crates/host/src/network/reputation.rs\<close>. Times are milliseconds of the clock; the
  readings of the clock inside one call are taken as one. The counters are \<^verbatim>\<open>u32\<close> and wrap, as in a
  release build. The store is an association list that is iterated in the order of its keys.
\<close>

section \<open>One node\<close>

record node_reputation =
  rep_node :: string
  failures :: "32 word"
  successes :: "32 word"
  rep_last_seen :: nat
  banned :: bool
  ban_expires_at :: "nat option"

definition BAN_MILLIS :: nat where
  "BAN_MILLIS = 24 * 3600 * 1000"

definition reputation_new :: "string \<Rightarrow> nat \<Rightarrow> node_reputation" where
  "reputation_new i now =
     \<lparr>rep_node = i, failures = 0, successes = 0, rep_last_seen = now, banned = False, ban_expires_at = None\<rparr>"

definition note_failure :: "node_reputation \<Rightarrow> nat \<Rightarrow> node_reputation" where
  "note_failure r now =
     (let r = r\<lparr>failures := failures r + 1, rep_last_seen := now\<rparr>
      in if 10 \<le> failures r then r\<lparr>banned := True, ban_expires_at := Some (now + BAN_MILLIS)\<rparr> else r)"

definition note_success :: "node_reputation \<Rightarrow> nat \<Rightarrow> node_reputation" where
  "note_success r now =
     (let r = r\<lparr>successes := successes r + 1, rep_last_seen := now\<rparr>
      in if unat (successes r) mod 100 = 0 then r\<lparr>failures := 0\<rparr> else r)"

definition node_banned :: "node_reputation \<Rightarrow> nat \<Rightarrow> bool" where
  "node_banned r now \<longleftrightarrow>
     (if \<not> banned r then False
      else case ban_expires_at r of Some e \<Rightarrow> (if e < now then False else True) | None \<Rightarrow> True)"

section \<open>The store\<close>

definition MAX_REPUTATION_ENTRIES :: nat where
  "MAX_REPUTATION_ENTRIES = 10000"

type_synonym reputation_store = "(string \<times> node_reputation) list"

definition make_room :: "reputation_store \<Rightarrow> reputation_store" where
  "make_room S = evict_min successes (sort_key fst S)"

definition get_or_create :: "reputation_store \<Rightarrow> string \<Rightarrow> nat \<Rightarrow> node_reputation \<times> reputation_store" where
  "get_or_create S i now =
     (let S = (if map_of S i = None \<and> MAX_REPUTATION_ENTRIES \<le> length S then make_room S else S)
      in case map_of S i of
           Some r \<Rightarrow> (r, S)
         | None \<Rightarrow> (reputation_new i now, AList.update i (reputation_new i now) S))"

definition record_failure :: "reputation_store \<Rightarrow> string \<Rightarrow> nat \<Rightarrow> reputation_store" where
  "record_failure S i now = (let (r, S) = get_or_create S i now in AList.update i (note_failure r now) S)"

definition record_success :: "reputation_store \<Rightarrow> string \<Rightarrow> nat \<Rightarrow> reputation_store" where
  "record_success S i now = (let (r, S) = get_or_create S i now in AList.update i (note_success r now) S)"

definition store_banned :: "reputation_store \<Rightarrow> string \<Rightarrow> nat \<Rightarrow> bool" where
  "store_banned S i now = (case map_of S i of None \<Rightarrow> False | Some r \<Rightarrow> node_banned r now)"

definition banned_count :: "reputation_store \<Rightarrow> nat \<Rightarrow> nat" where
  "banned_count S now = length (filter (\<lambda>(i, r). node_banned r now) S)"

section \<open>The store keeps its bound\<close>

definition reputations_ok :: "reputation_store \<Rightarrow> bool" where
  "reputations_ok S \<longleftrightarrow> keys_distinct S \<and> length S \<le> MAX_REPUTATION_ENTRIES"

lemma make_room_distinct: "keys_distinct S \<Longrightarrow> keys_distinct (make_room S)"
proof -
  assume "keys_distinct S"
  then have "keys_distinct (sort_key fst S)"
    unfolding keys_distinct_def by (metis distinct_map distinct_sort set_sort)
  then show ?thesis by (simp add: make_room_def)
qed

lemma length_make_room: "keys_distinct S \<Longrightarrow> length (make_room S) = length S - 1"
proof -
  assume "keys_distinct S"
  then have "keys_distinct (sort_key fst S)"
    unfolding keys_distinct_def by (metis distinct_map distinct_sort set_sort)
  from length_evict_min [OF this, of successes] show ?thesis by (simp add: make_room_def)
qed

lemma get_or_create_ok:
  assumes "reputations_ok S"
  shows "reputations_ok (snd (get_or_create S i now)) \<and> map_of (snd (get_or_create S i now)) i = Some (fst (get_or_create S i now))"
proof -
  define S' where "S' = (if map_of S i = None \<and> MAX_REPUTATION_ENTRIES \<le> length S then make_room S else S)"
  have d: "keys_distinct S'" using assms by (simp add: S'_def reputations_ok_def make_room_distinct)
  have l: "length S' \<le> MAX_REPUTATION_ENTRIES" "map_of S i = None \<Longrightarrow> length S' < MAX_REPUTATION_ENTRIES"
    using assms length_make_room [of S] by (auto simp: S'_def reputations_ok_def MAX_REPUTATION_ENTRIES_def)
  have s: "map_of S i \<noteq> None \<Longrightarrow> S' = S" by (auto simp: S'_def)
  have e: "get_or_create S i now = (case map_of S' i of Some r \<Rightarrow> (r, S')
      | None \<Rightarrow> (reputation_new i now, AList.update i (reputation_new i now) S'))"
    unfolding get_or_create_def S'_def Let_def ..
  show ?thesis
  proof (cases "map_of S' i")
    case None
    then have "map_of S i = None" using s by (cases "map_of S i") auto
    then show ?thesis
      using None d l(2) length_update_le [of i "reputation_new i now" S'] by (simp add: e reputations_ok_def update_conv')
  next
    case (Some r)
    then show ?thesis using d l(1) by (simp add: e reputations_ok_def)
  qed
qed

lemma update_existing_ok: "reputations_ok S \<Longrightarrow> map_of S i = Some r \<Longrightarrow> reputations_ok (AList.update i r' S)"
  by (metis keys_distinct_simps(3) length_update_old map_of_keys option.distinct(1) reputations_ok_def)

lemma record_ok:
  assumes "reputations_ok S"
  shows "reputations_ok (record_failure S i now)" and "reputations_ok (record_success S i now)"
  using get_or_create_ok [OF assms, of i now] update_existing_ok
  by (fastforce simp: record_failure_def record_success_def case_prod_beta)+

datatype reputation_event = Failed_at nat | Succeeded_at nat

fun reputation_step :: "node_reputation \<Rightarrow> reputation_event \<Rightarrow> node_reputation" where
  "reputation_step r (Failed_at t) = note_failure r t"
| "reputation_step r (Succeeded_at t) = note_success r t"

lemma record_step:
  "reputations_ok S \<Longrightarrow> map_of (record_failure S i now) i = Some (note_failure (fst (get_or_create S i now)) now)"
  "reputations_ok S \<Longrightarrow> map_of (record_success S i now) i = Some (note_success (fst (get_or_create S i now)) now)"
  by (simp_all add: record_failure_def record_success_def case_prod_beta update_conv')

section \<open>Strikes\<close>

fun event_time :: "reputation_event \<Rightarrow> nat" where
  "event_time (Failed_at t) = t"
| "event_time (Succeeded_at t) = t"

fun is_success :: "reputation_event \<Rightarrow> bool" where
  "is_success (Succeeded_at t) = True"
| "is_success (Failed_at t) = False"

text \<open>The position of a success whose number is a multiple of 100.\<close>

definition resets_at :: "reputation_event list \<Rightarrow> nat \<Rightarrow> bool" where
  "resets_at es j \<longleftrightarrow> j < length es \<and> is_success (es ! j) \<and> length (filter is_success (take (Suc j) es)) mod 100 = 0"

text \<open>The failures since the last of these.\<close>

definition strikes :: "reputation_event list \<Rightarrow> nat" where
  "strikes es = length (filter (\<lambda>i. \<not> is_success (es ! i) \<and> (\<forall>j. i < j \<longrightarrow> \<not> resets_at es j)) [0..<length es])"

definition ban_starts :: "reputation_event list \<Rightarrow> nat set" where
  "ban_starts es = {t. \<exists>i < length es. es ! i = Failed_at t \<and> 10 \<le> strikes (take (Suc i) es)}"

lemma strikes_Nil [simp]: "strikes [] = 0"
  by (simp add: strikes_def)

lemma resets_at_snoc:
  "resets_at (es @ [e]) j \<longleftrightarrow> resets_at es j \<or> j = length es \<and> is_success e \<and> length (filter is_success (es @ [e])) mod 100 = 0"
  by (cases "j < length es") (auto simp: resets_at_def nth_append less_Suc_eq)

lemma resets_at_bound: "resets_at es j \<Longrightarrow> j < length es"
  by (simp add: resets_at_def)

lemma strikes_snoc:
  "strikes (es @ [e]) =
     (if is_success e then (if length (filter is_success (es @ [e])) mod 100 = 0 then 0 else strikes es) else Suc (strikes es))"
proof -
  define reset where "reset \<longleftrightarrow> is_success e \<and> length (filter is_success (es @ [e])) mod 100 = 0"
  let ?P = "\<lambda>i. \<not> is_success (es ! i) \<and> (\<forall>j. i < j \<longrightarrow> \<not> resets_at es j)"
  have r: "resets_at (es @ [e]) j \<longleftrightarrow> resets_at es j \<or> j = length es \<and> reset" for j
    by (simp add: resets_at_snoc reset_def)
  have "filter (\<lambda>i. \<not> is_success ((es @ [e]) ! i) \<and> (\<forall>j. i < j \<longrightarrow> \<not> resets_at (es @ [e]) j)) [0..<length es]
      = (if reset then [] else filter ?P [0..<length es])"
  proof (cases reset)
    case True
    then show ?thesis by (auto simp: filter_empty_conv r)
  next
    case False
    then show ?thesis by (auto simp: r nth_append intro!: filter_cong)
  qed
  moreover have "\<forall>j. length es < j \<longrightarrow> \<not> resets_at (es @ [e]) j"
    by (auto dest: resets_at_bound)
  ultimately show ?thesis by (auto simp: strikes_def reset_def nth_append)
qed

lemma ban_starts_snoc:
  "ban_starts (es @ [e]) =
     ban_starts es \<union> (case e of Failed_at t \<Rightarrow> if 10 \<le> strikes (es @ [e]) then {t} else {} | Succeeded_at t \<Rightarrow> {})"
proof -
  have a: "(es @ [e]) ! i = es ! i" "take (Suc i) (es @ [e]) = take (Suc i) es" if "i < length es" for i
    using that by (simp_all add: nth_append)
  have "t \<in> ban_starts (es @ [e]) \<longleftrightarrow> t \<in> ban_starts es \<or> e = Failed_at t \<and> 10 \<le> strikes (es @ [e])" for t
    unfolding ban_starts_def mem_Collect_eq length_append_singleton Ex_less_Suc
    by (simp add: a disj_commute cong: conj_cong)
  then show ?thesis by (cases e) auto
qed

lemma ban_starts_times: "t \<in> ban_starts es \<Longrightarrow> t \<in> event_time ` set es"
  by (force simp: ban_starts_def dest: nth_mem)

lemma strikes_failures: "strikes (replicate n (Failed_at t)) = n"
proof (induction n)
  case (Suc n)
  then show ?case by (simp add: strikes_snoc flip: replicate_append_same)
qed simp

text \<open>What a reputation records of the events so far.\<close>

definition records :: "node_reputation \<Rightarrow> reputation_event list \<Rightarrow> bool" where
  "records r es \<longleftrightarrow>
     unat (successes r) = length (filter is_success es) \<and> unat (failures r) = strikes es \<and>
     banned r = (ban_starts es \<noteq> {}) \<and>
     (if ban_starts es = {} then ban_expires_at r = None
      else \<exists>t \<in> ban_starts es. (\<forall>u \<in> ban_starts es. u \<le> t) \<and> ban_expires_at r = Some (t + BAN_MILLIS))"

lemma unat_plus_1: "unat w = n \<Longrightarrow> n + 1 < 2 ^ 32 \<Longrightarrow> unat (w + 1 :: 32 word) = n + 1"
  by (simp add: unat_word_ariths)

lemma strikes_le: "strikes es \<le> length es"
  by (induction es rule: rev_induct) (auto simp: strikes_snoc)

lemma step_records:
  assumes "records r es" and "length es + 1 < 2 ^ 32" and "\<forall>e' \<in> set es. event_time e' \<le> event_time e"
  shows "records (reputation_step r e) (es @ [e])"
proof (cases e)
  case (Failed_at t)
  have u: "unat (failures r + 1) = strikes es + 1"
    using assms(1,2) strikes_le [of es] by (intro unat_plus_1) (auto simp: records_def)
  have le: "u \<le> t" if "u \<in> ban_starts es" for u
    using ban_starts_times [OF that] assms(3) Failed_at by auto
  show ?thesis
    using assms(1) u le Failed_at
    by (auto simp: records_def note_failure_def Let_def word_le_nat_alt strikes_snoc ban_starts_snoc)
next
  case (Succeeded_at t)
  have "unat (successes r + 1) = length (filter is_success es) + 1"
    using assms(1,2) le_less_trans [OF length_filter_le [of is_success es], of "2 ^ 32 - 1"]
    by (intro unat_plus_1) (auto simp: records_def)
  then show ?thesis
    using assms(1) Succeeded_at
    by (auto simp: records_def note_success_def Let_def strikes_snoc ban_starts_snoc)
qed

lemma run_records:
  "length es < 2 ^ 32 \<Longrightarrow> sorted (map event_time es) \<Longrightarrow> records (foldl reputation_step (reputation_new i t0) es) es"
proof (induction es rule: rev_induct)
  case Nil
  then show ?case by (simp add: records_def reputation_new_def ban_starts_def)
next
  case (snoc e es)
  then show ?case
    using step_records [of "foldl reputation_step (reputation_new i t0) es" es e] by (auto simp: sorted_append)
qed

section \<open>Properties\<close>

text \<open>
  C29: a node is banned exactly during the 24 hours after a failure that is at least the tenth since
  the last reset of its count, which every hundredth success makes. The failures need not be
  consecutive, and since a ban does not clear the count, the first failure after it bans again.
\<close>

theorem reputation_ban_rule:
  assumes "length es < 2 ^ 32" and "sorted (map event_time es)"
  shows "node_banned (foldl reputation_step (reputation_new i t0) es) now \<longleftrightarrow>
    (\<exists>t \<in> ban_starts es. now \<le> t + BAN_MILLIS)"
proof -
  define r where "r = foldl reputation_step (reputation_new i t0) es"
  have r: "records r es" unfolding r_def using assms by (rule run_records)
  show ?thesis
  proof (cases "ban_starts es = {}")
    case True
    then show ?thesis using r by (simp add: records_def node_banned_def flip: r_def)
  next
    case False
    then obtain t where t: "t \<in> ban_starts es" "\<forall>u \<in> ban_starts es. u \<le> t" "ban_expires_at r = Some (t + BAN_MILLIS)" "banned r"
      using r by (auto simp: records_def)
    then have "node_banned r now \<longleftrightarrow> now \<le> t + BAN_MILLIS" by (simp add: node_banned_def not_less)
    moreover have "(\<exists>u \<in> ban_starts es. now \<le> u + BAN_MILLIS) \<longleftrightarrow> now \<le> t + BAN_MILLIS"
      using t(1,2) by (meson add_le_cancel_right order_trans)
    ultimately show ?thesis by (simp add: r_def)
  qed
qed

theorem reputation_ban_rule_witness:
  "node_banned (foldl reputation_step (reputation_new ''n'' 0)
     (replicate 9 (Failed_at 0) @ [Succeeded_at 1, Succeeded_at 1, Failed_at 2])) 100"
proof -
  define es where "es = replicate 9 (Failed_at 0) @ [Succeeded_at 1, Succeeded_at 1, Failed_at 2]"
  have s: "sorted (map event_time es)" "length es = 12" by (simp_all add: es_def sorted_append)
  have "es = ((replicate 9 (Failed_at 0) @ [Succeeded_at 1]) @ [Succeeded_at 1]) @ [Failed_at 2]" by (simp add: es_def)
  then have "strikes es = 10" by (simp only: strikes_snoc) (simp add: strikes_failures)
  moreover have "es ! 11 = Failed_at 2" by (simp add: es_def nth_append)
  moreover have "take (Suc 11) es = es" using s(2) by simp
  ultimately have "11 < length es \<and> es ! 11 = Failed_at 2 \<and> 10 \<le> strikes (take (Suc 11) es)" using s(2) by simp
  then have "2 \<in> ban_starts es" unfolding ban_starts_def by blast
  moreover have "(100 :: nat) \<le> 2 + BAN_MILLIS" by (simp add: BAN_MILLIS_def)
  ultimately have "\<exists>t \<in> ban_starts es. 100 \<le> t + BAN_MILLIS" by blast
  moreover have "length es < 2 ^ 32" using s(2) by simp
  ultimately have "node_banned (foldl reputation_step (reputation_new ''n'' 0) es) 100"
    using s(1) by (simp only: reputation_ban_rule)
  then show ?thesis by (simp only: es_def)
qed

end
