(* ===== verification/Heartbeat.thy ===== *)
theory Heartbeat
  imports Tables
begin

text \<open>
  Peer states of \<^verbatim>\<open>crates/host/src/network/transport.rs\<close> and what the heartbeat tasks of
  \<^verbatim>\<open>network/heartbeat.rs\<close> do with them. Times are milliseconds since the epoch, an integer; the
  readings of the clock inside one call are taken as one. The counters are \<^verbatim>\<open>u32\<close> and wrap, as in a
  release build; the cursor of the ring is a \<^verbatim>\<open>usize\<close> of 64 bits.
\<close>

section \<open>The state of a peer\<close>

definition MAX_REACTIVE_THRESHOLD :: nat where
  "MAX_REACTIVE_THRESHOLD = 16"

definition HEARTBEAT_WINDOW_SIZE :: nat where
  "HEARTBEAT_WINDOW_SIZE = 5"

definition MIN_MISSES_FOR_INACTIVE :: "32 word" where
  "MIN_MISSES_FOR_INACTIVE = 3"

record net_peer_state =
  last_heartbeat :: int
  consecutive_misses :: "32 word"
  last_seen :: int
  reconnect_attempts :: "32 word"
  next_reconnect :: int
  heartbeat_window :: "int list"
  zk_invalid_timestamps :: "int list"
  zk_invalid_cursor :: u64

definition net_peer_new :: "int \<Rightarrow> net_peer_state" where
  "net_peer_new now =
     \<lparr>last_heartbeat = now, consecutive_misses = 0, last_seen = now, reconnect_attempts = 0,
      next_reconnect = now, heartbeat_window = [],
      zk_invalid_timestamps = replicate MAX_REACTIVE_THRESHOLD 0, zk_invalid_cursor = 0\<rparr>"

definition record_heartbeat :: "net_peer_state \<Rightarrow> int \<Rightarrow> net_peer_state" where
  "record_heartbeat p now =
     (let w = heartbeat_window p;
          w = (if length w = HEARTBEAT_WINDOW_SIZE then tl w else w)
      in p\<lparr>last_heartbeat := now, last_seen := now, consecutive_misses := 0, reconnect_attempts := 0,
           heartbeat_window := w @ [now]\<rparr>)"

definition record_miss :: "net_peer_state \<Rightarrow> net_peer_state" where
  "record_miss p = p\<lparr>consecutive_misses := consecutive_misses p + 1\<rparr>"

definition is_inactive :: "net_peer_state \<Rightarrow> int \<Rightarrow> int \<Rightarrow> bool" where
  "is_inactive p timeout_secs now \<longleftrightarrow>
     (if heartbeat_window p = [] then True
      else
        let age = now - last (heartbeat_window p)
        in timeout_secs * 1000 < age \<and> MIN_MISSES_FOR_INACTIVE \<le> consecutive_misses p)"

definition schedule_reconnect :: "net_peer_state \<Rightarrow> int \<Rightarrow> net_peer_state" where
  "schedule_reconnect p now =
     (let n = reconnect_attempts p + 1; backoff = int (2 ^ min (unat n) 5 * 5)
      in p\<lparr>reconnect_attempts := n, next_reconnect := now + backoff * 1000\<rparr>)"

definition should_reconnect :: "net_peer_state \<Rightarrow> int \<Rightarrow> bool" where
  "should_reconnect p now \<longleftrightarrow> next_reconnect p \<le> now \<and> reconnect_attempts p \<le> 5"

text \<open>\<^verbatim>\<open>DateTime::timestamp\<close> counts whole seconds.\<close>

definition timestamp :: "int \<Rightarrow> int" where
  "timestamp now = now div 1000"

definition record_zk_invalid :: "net_peer_state \<Rightarrow> int \<Rightarrow> net_peer_state" where
  "record_zk_invalid p now =
     p\<lparr>zk_invalid_timestamps :=
         (zk_invalid_timestamps p)[unat (zk_invalid_cursor p) mod MAX_REACTIVE_THRESHOLD := timestamp now],
       zk_invalid_cursor := zk_invalid_cursor p + 1\<rparr>"

text \<open>The window is cast from \<^verbatim>\<open>u64\<close> to \<^verbatim>\<open>i64\<close>.\<close>

definition check_zk_invalid_threshold :: "net_peer_state \<Rightarrow> 32 word \<Rightarrow> u64 \<Rightarrow> int \<Rightarrow> bool" where
  "check_zk_invalid_threshold p threshold window_secs now =
     (if threshold = 0 \<or> MAX_REACTIVE_THRESHOLD < unat threshold then False
      else if unat (zk_invalid_cursor p) < unat threshold then False
      else
        let oldest = (unat (zk_invalid_cursor p) - unat threshold) mod MAX_REACTIVE_THRESHOLD
        in timestamp now - zk_invalid_timestamps p ! oldest \<le> sint window_secs)"

section \<open>The heartbeat tasks\<close>

type_synonym peer_states = "(string \<times> net_peer_state) list"

text \<open>The end of a round of the sender, for one address of the trusted list.\<close>

definition sender_visit :: "int \<Rightarrow> string \<Rightarrow> peer_states \<Rightarrow> peer_states" where
  "sender_visit now a T =
     (case map_of T a of
        Some p \<Rightarrow> if is_inactive p 30 now then AList.update a (record_miss p) T else T
      | None \<Rightarrow> AList.update a (net_peer_new now) T)"

definition sender_round :: "string list \<Rightarrow> int \<Rightarrow> peer_states \<Rightarrow> peer_states" where
  "sender_round trusted now T = fold (sender_visit now) trusted T"

text \<open>The lists the monitor collects: peers to remove, and peers to reconnect.\<close>

definition monitor_remove :: "peer_states \<Rightarrow> int \<Rightarrow> string list" where
  "monitor_remove T now = map fst (filter (\<lambda>(a, p). is_inactive p 300 now) T)"

definition monitor_reconnect :: "peer_states \<Rightarrow> int \<Rightarrow> string list" where
  "monitor_reconnect T now =
     map fst (filter (\<lambda>(a, p). \<not> is_inactive p 300 now \<and> 3 \<le> consecutive_misses p \<and> should_reconnect p now) T)"

definition monitor_apply :: "peer_states \<Rightarrow> int \<Rightarrow> peer_states" where
  "monitor_apply T now =
     (let gone = monitor_remove T now; again = monitor_reconnect T now;
          T = fold AList.delete gone T
      in fold (\<lambda>a T. case map_of T a of Some p \<Rightarrow> AList.update a (schedule_reconnect p now) T | None \<Rightarrow> T) again T)"

text \<open>The handlers of \<^verbatim>\<open>Heartbeat\<close> and \<^verbatim>\<open>HeartbeatAck\<close> in \<^verbatim>\<open>network/handshake_runner.rs\<close>.\<close>

definition MAX_PEER_STATES :: nat where
  "MAX_PEER_STATES = 512"

definition note_heartbeat :: "peer_states \<Rightarrow> string \<Rightarrow> int \<Rightarrow> peer_states" where
  "note_heartbeat T a now =
     (case map_of T a of
        Some p \<Rightarrow> AList.update a (record_heartbeat p now) T
      | None \<Rightarrow> insert_evicting last_seen MAX_PEER_STATES a (net_peer_new now) T)"

definition note_heartbeat_ack :: "peer_states \<Rightarrow> string \<Rightarrow> int \<Rightarrow> peer_states" where
  "note_heartbeat_ack T a now =
     (case map_of T a of Some p \<Rightarrow> AList.update a (record_heartbeat p now) T | None \<Rightarrow> T)"

section \<open>The ring of invalid proofs\<close>

text \<open>A ring that represents the times of the events so far.\<close>

definition ring_of :: "net_peer_state \<Rightarrow> int list \<Rightarrow> bool" where
  "ring_of p ts \<longleftrightarrow>
     length (zk_invalid_timestamps p) = 16 \<and> unat (zk_invalid_cursor p) = length ts \<and>
     (\<forall>k < 16. k < length ts \<longrightarrow> zk_invalid_timestamps p ! ((length ts - 1 - k) mod 16) = ts ! (length ts - 1 - k))"

lemma ring_new: "ring_of (net_peer_new t) []"
  by (simp add: ring_of_def net_peer_new_def MAX_REACTIVE_THRESHOLD_def)

lemma ring_record:
  assumes "ring_of p ts" and "length ts + 1 < 2 ^ 64"
  shows "ring_of (record_zk_invalid p now) (ts @ [timestamp now])"
proof -
  have c: "unat (zk_invalid_cursor p + 1) = length ts + 1"
    using assms by (simp add: ring_of_def unat_word_ariths)
  have "(zk_invalid_timestamps p)[length ts mod 16 := timestamp now] ! ((length ts - k) mod 16) = (ts @ [timestamp now]) ! (length ts - k)"
    if k: "k < 16" "k < length ts + 1" for k
  proof (cases k)
    case 0
    then show ?thesis using assms(1) by (simp add: ring_of_def)
  next
    case (Suc j)
    have "(length ts - k) mod 16 \<noteq> length ts mod 16"
    proof
      assume "(length ts - k) mod 16 = length ts mod 16"
      then have "16 dvd length ts - (length ts - k)" using mod_eq_dvd_iff_nat [of "length ts - k" "length ts" 16] by simp
      then show False using k Suc by (auto dest: dvd_imp_le)
    qed
    moreover have "length ts - k = length ts - 1 - j" "length ts - Suc j < length ts" using k Suc by simp_all
    ultimately show ?thesis using assms(1) k Suc by (simp add: ring_of_def nth_append)
  qed
  then show ?thesis
    using assms(1) c by (simp add: ring_of_def record_zk_invalid_def MAX_REACTIVE_THRESHOLD_def)
qed

lemma ring_run:
  "length ns < 2 ^ 64 \<Longrightarrow> ring_of (foldl record_zk_invalid (net_peer_new t) ns) (map timestamp ns)"
proof (induction ns rule: rev_induct)
  case (snoc n ns)
  then show ?case using ring_record [of "foldl record_zk_invalid (net_peer_new t) ns" "map timestamp ns" n] by simp
qed (simp add: ring_new)

lemma filter_suffix:
  "sorted ts \<Longrightarrow> n \<le> length (filter (\<lambda>t. x \<le> t) ts) \<longleftrightarrow> n = 0 \<or> n \<le> length ts \<and> x \<le> ts ! (length ts - n)" for ts :: "int list"
proof (induction ts arbitrary: n)
  case (Cons a ts)
  show ?case
  proof (cases "x \<le> a")
    case True
    then have "filter (\<lambda>t. x \<le> t) ts = ts" using Cons.prems by (auto simp: filter_id_conv)
    moreover have "x \<le> (a # ts) ! i" if "i < length (a # ts)" for i
      using that True Cons.prems by (cases i) (auto intro: order_trans [of x a])
    ultimately show ?thesis using True by auto
  next
    case False
    have "length (filter (\<lambda>t. x \<le> t) ts) \<le> length ts" by (rule length_filter_le)
    then show ?thesis
      using False Cons.IH [of n] Cons.prems by (cases "n \<le> length ts") (auto simp: Suc_diff_le le_Suc_eq)
  qed
qed auto

section \<open>Misses are never counted for a peer that was heard\<close>

datatype heartbeat_op =
    HeartbeatFrom string int
  | AckFrom string int
  | SenderRound "string list" int
  | MonitorRound int

fun heartbeat_step :: "peer_states \<Rightarrow> heartbeat_op \<Rightarrow> peer_states" where
  "heartbeat_step T (HeartbeatFrom a now) = note_heartbeat T a now"
| "heartbeat_step T (AckFrom a now) = note_heartbeat_ack T a now"
| "heartbeat_step T (SenderRound trusted now) = sender_round trusted now T"
| "heartbeat_step T (MonitorRound now) = monitor_apply T now"

definition never_missed :: "net_peer_state \<Rightarrow> bool" where
  "never_missed p \<longleftrightarrow> heartbeat_window p = [] \<or> consecutive_misses p = 0"

definition all_never_missed :: "peer_states \<Rightarrow> bool" where
  "all_never_missed T \<longleftrightarrow> (\<forall>(a, p) \<in> set T. never_missed p)"

lemma never_missed_inactive: "never_missed p \<Longrightarrow> is_inactive p t now \<longleftrightarrow> heartbeat_window p = []"
  by (auto simp: never_missed_def is_inactive_def MIN_MISSES_FOR_INACTIVE_def)

lemma never_missed_intros [simp]:
  "never_missed (net_peer_new now)"
  "never_missed (record_heartbeat p now)"
  "never_missed p \<Longrightarrow> is_inactive p t now \<Longrightarrow> never_missed (record_miss p)"
  "never_missed p \<Longrightarrow> never_missed (schedule_reconnect p now)"
  by (auto simp: never_missed_def net_peer_new_def record_heartbeat_def record_miss_def schedule_reconnect_def
      is_inactive_def MIN_MISSES_FOR_INACTIVE_def Let_def split: if_splits)

lemma all_never_missed_lookup: "all_never_missed T \<Longrightarrow> map_of T a = Some p \<Longrightarrow> never_missed p"
  by (auto simp: all_never_missed_def dest: map_of_SomeD)

lemma all_never_missed_update [simp]: "all_never_missed T \<Longrightarrow> never_missed p \<Longrightarrow> all_never_missed (AList.update a p T)"
  using set_update_subset [of a p T] by (fastforce simp: all_never_missed_def)

lemma all_never_missed_delete [simp]: "all_never_missed T \<Longrightarrow> all_never_missed (AList.delete a T)"
  using set_delete_subset [of a T] by (fastforce simp: all_never_missed_def)

lemma all_never_missed_evict: "all_never_missed T \<Longrightarrow> all_never_missed (evict_min rank T)"
  by (auto simp: evict_min_def split: option.splits)

lemma all_never_missed_fold:
  assumes "\<And>x T. all_never_missed T \<Longrightarrow> all_never_missed (f x T)"
  shows "all_never_missed T \<Longrightarrow> all_never_missed (fold f xs T)"
  by (induction xs arbitrary: T) (simp_all add: assms)

lemma heartbeat_step_inv: "all_never_missed T \<Longrightarrow> all_never_missed (heartbeat_step T x)"
proof (cases x)
  case (HeartbeatFrom a now)
  then show "all_never_missed T \<Longrightarrow> ?thesis"
    by (auto simp: note_heartbeat_def insert_evicting_def all_never_missed_evict split: option.splits)
next
  case (AckFrom a now)
  then show "all_never_missed T \<Longrightarrow> ?thesis" by (auto simp: note_heartbeat_ack_def split: option.splits)
next
  case (SenderRound trusted now)
  have "all_never_missed T \<Longrightarrow> all_never_missed (sender_visit now a T)" for a T
    using all_never_missed_lookup [of T a] by (auto simp: sender_visit_def split: option.splits)
  then show "all_never_missed T \<Longrightarrow> ?thesis" using SenderRound by (simp add: sender_round_def all_never_missed_fold)
next
  case (MonitorRound now)
  have "all_never_missed T \<Longrightarrow>
      all_never_missed (case map_of T a of Some p \<Rightarrow> AList.update a (schedule_reconnect p now) T | None \<Rightarrow> T)" for a T
    using all_never_missed_lookup [of T a] by (auto split: option.splits)
  then show "all_never_missed T \<Longrightarrow> ?thesis" using MonitorRound by (simp add: monitor_apply_def Let_def all_never_missed_fold)
qed

interpretation beats: preserved heartbeat_step all_never_missed
  by unfold_locales (rule heartbeat_step_inv)

section \<open>Properties\<close>

text \<open>
  The threshold check on invalid proofs, which reads one cell of a ring of 16, decides whether at
  least so many of the events recorded so far lie within the window.
\<close>

theorem zk_threshold_counts:
  assumes "sorted ns" and "length ns < 2 ^ 64" and "1 \<le> unat th" and "unat th \<le> 16"
  shows "check_zk_invalid_threshold (foldl record_zk_invalid (net_peer_new t) ns) th w now \<longleftrightarrow>
    unat th \<le> length (filter (\<lambda>n. timestamp now - timestamp n \<le> sint w) ns)"
proof -
  define p ts where "p = foldl record_zk_invalid (net_peer_new t) ns" and "ts = map timestamp ns"
  have r: "ring_of p ts" unfolding p_def ts_def by (rule ring_run [OF assms(2)])
  have "sorted ts" using assms(1) by (simp add: ts_def timestamp_def sorted_map zdiv_mono1 sorted_wrt_mono_rel [of ns "(\<le>)"])
  from filter_suffix [OF this, of "unat th" "timestamp now - sint w"]
  have "unat th \<le> length (filter (\<lambda>t. timestamp now - sint w \<le> t) ts) \<longleftrightarrow>
      unat th \<le> length ts \<and> timestamp now - sint w \<le> ts ! (length ts - unat th)" using assms(3) by simp
  moreover have "length (filter (\<lambda>t. timestamp now - sint w \<le> t) ts) = length (filter (\<lambda>n. timestamp now - timestamp n \<le> sint w) ns)"
    by (simp add: ts_def filter_map comp_def algebra_simps)
  moreover have "th \<noteq> 0" using assms(3) by auto
  moreover have "zk_invalid_timestamps p ! ((length ts - unat th) mod 16) = ts ! (length ts - unat th)" if "unat th \<le> length ts"
    using r assms(3,4) that by (auto simp: ring_of_def dest!: spec [of _ "unat th - 1"])
  ultimately show ?thesis
    using r assms(4) by (auto simp: check_zk_invalid_threshold_def MAX_REACTIVE_THRESHOLD_def ring_of_def simp flip: p_def)
qed

theorem zk_threshold_counts_witness:
  "check_zk_invalid_threshold (foldl record_zk_invalid (net_peer_new 0) [1000, 61000, 62000]) 2 1 62500"
  by (subst zk_threshold_counts) (simp_all add: timestamp_def)

text \<open>
  Whatever heartbeats arrive and whenever the two tasks run, the monitor takes for inactive exactly
  the peers with an empty window, which are the newly inserted ones: a peer whose heartbeats were recorded
  is never taken for inactive, however long it stays silent, and no reconnection is ever scheduled.
\<close>

theorem monitor_ignores_silence:
  "monitor_remove (foldl heartbeat_step [] xs) now =
     map fst (filter (\<lambda>(a, p). heartbeat_window p = []) (foldl heartbeat_step [] xs)) \<and>
   monitor_reconnect (foldl heartbeat_step [] xs) now = []"
proof -
  define T where "T = foldl heartbeat_step [] xs"
  have "all_never_missed T" unfolding T_def by (rule beats.run_inv) (simp add: all_never_missed_def)
  then have n: "never_missed p" if "(a, p) \<in> set T" for a p using that by (auto simp: all_never_missed_def)
  have "monitor_remove T now = map fst (filter (\<lambda>(a, p). heartbeat_window p = []) T)"
    unfolding monitor_remove_def by (intro arg_cong [of _ _ "map fst"] filter_cong) (auto simp: n never_missed_inactive)
  moreover have "monitor_reconnect T now = []"
    using n by (fastforce simp: monitor_reconnect_def filter_empty_conv never_missed_inactive never_missed_def)
  ultimately show ?thesis by (simp add: T_def)
qed

end
