(* ===== verification/Peer_Lists.thy ===== *)
theory Peer_Lists
  imports Session
begin

text \<open>
  The lists of peers of \<^verbatim>\<open>crates/host/src/network/transport.rs\<close> and their form on disk,
  \<^verbatim>\<open>network/persistence.rs\<close>. Socket addresses are their text; parsing an address is a parameter.
\<close>

section \<open>The list of peers\<close>

record peer_list =
  pl_peers :: "addr list"
  pl_max :: nat

definition peer_list_new :: "nat \<Rightarrow> peer_list" where
  "peer_list_new n = \<lparr>pl_peers = [], pl_max = n\<rparr>"

definition peer_list_add :: "peer_list \<Rightarrow> addr \<Rightarrow> bool \<times> peer_list" where
  "peer_list_add L a =
     (if a \<in> set (pl_peers L) then (False, L)
      else if pl_max L \<le> length (pl_peers L) then
        (if pl_peers L = [] then (False, L) else (True, L\<lparr>pl_peers := tl (pl_peers L) @ [a]\<rparr>))
      else (True, L\<lparr>pl_peers := pl_peers L @ [a]\<rparr>))"

definition peer_list_from :: "addr list \<Rightarrow> nat \<Rightarrow> peer_list" where
  "peer_list_from as n = foldl (\<lambda>L a. snd (peer_list_add L a)) (peer_list_new n) as"

definition peer_list_remove :: "peer_list \<Rightarrow> addr \<Rightarrow> bool \<times> peer_list" where
  "peer_list_remove L a =
     (let ps = filter (\<lambda>b. b \<noteq> a) (pl_peers L) in (length ps < length (pl_peers L), L\<lparr>pl_peers := ps\<rparr>))"

definition peer_list_contains :: "peer_list \<Rightarrow> addr \<Rightarrow> bool" where
  "peer_list_contains L a \<longleftrightarrow> a \<in> set (pl_peers L)"

section \<open>Trusted peers\<close>

record trusted_peer =
  tp_node_id :: string
  tp_public_key :: string
  tp_encryption_key :: bytes
  tp_addr :: addr
  authenticated_at :: nat

record trusted_list =
  tl_peers :: "(addr \<times> trusted_peer) list"
  tl_max :: nat

definition trusted_new :: "nat \<Rightarrow> trusted_list" where
  "trusted_new n = \<lparr>tl_peers = [], tl_max = n\<rparr>"

definition trusted_add :: "trusted_list \<Rightarrow> trusted_peer \<Rightarrow> bool \<times> trusted_list" where
  "trusted_add L p =
     (if map_of (tl_peers L) (tp_addr p) \<noteq> None then (False, L)
      else if tl_max L \<le> length (tl_peers L) then
        (if tl_peers L = [] then (False, L)
         else (True, L\<lparr>tl_peers := AList.update (tp_addr p) p (evict_min authenticated_at (tl_peers L))\<rparr>))
      else (True, L\<lparr>tl_peers := AList.update (tp_addr p) p (tl_peers L)\<rparr>))"

definition trusted_contains :: "trusted_list \<Rightarrow> addr \<Rightarrow> bool" where
  "trusted_contains L a \<longleftrightarrow> map_of (tl_peers L) a \<noteq> None"

definition trusted_remove :: "trusted_list \<Rightarrow> addr \<Rightarrow> bool \<times> trusted_list" where
  "trusted_remove L a = (map_of (tl_peers L) a \<noteq> None, L\<lparr>tl_peers := AList.delete a (tl_peers L)\<rparr>)"

definition trusted_addrs :: "trusted_list \<Rightarrow> addr list" where
  "trusted_addrs L = map fst (tl_peers L)"

section \<open>The form on disk\<close>

record persisted_peer =
  pp_node_id :: string
  pp_public_key :: string
  pp_encryption_key :: bytes
  pp_addr :: string

definition parse_peers :: "(string \<Rightarrow> addr option) \<Rightarrow> string list \<Rightarrow> addr list" where
  "parse_peers parse_addr ss = List.map_filter parse_addr ss"

definition persist_peer :: "trusted_peer \<Rightarrow> persisted_peer" where
  "persist_peer p =
     \<lparr>pp_node_id = tp_node_id p, pp_public_key = tp_public_key p, pp_encryption_key = tp_encryption_key p, pp_addr = tp_addr p\<rparr>"

definition trusted_to_persisted :: "trusted_list \<Rightarrow> persisted_peer list" where
  "trusted_to_persisted L = map (persist_peer \<circ> snd) (tl_peers L)"

definition restore_peer :: "(string \<Rightarrow> addr option) \<Rightarrow> nat \<Rightarrow> trusted_list \<Rightarrow> persisted_peer \<Rightarrow> trusted_list" where
  "restore_peer parse_addr now L p =
     (case parse_addr (pp_addr p) of
        None \<Rightarrow> L
      | Some a \<Rightarrow>
          let len = min (length (pp_encryption_key p)) 32;
              key = put_at 0 (take len (pp_encryption_key p)) (zeros 32)
          in snd (trusted_add L \<lparr>tp_node_id = pp_node_id p, tp_public_key = pp_public_key p,
               tp_encryption_key = key, tp_addr = a, authenticated_at = now\<rparr>))"

definition persisted_to_trusted :: "(string \<Rightarrow> addr option) \<Rightarrow> persisted_peer list \<Rightarrow> nat \<Rightarrow> nat \<Rightarrow> trusted_list" where
  "persisted_to_trusted parse_addr ps n now = foldl (restore_peer parse_addr now) (trusted_new n) ps"

text \<open>The filter of \<^verbatim>\<open>load_data\<close> on trusted peers.\<close>

definition valid_trusted :: "(string \<Rightarrow> addr option) \<Rightarrow> persisted_peer list \<Rightarrow> persisted_peer list" where
  "valid_trusted parse_addr ps =
     filter (\<lambda>p. \<not> (pp_node_id p = [] \<or> pp_addr p = []) \<and> parse_addr (pp_addr p) \<noteq> None) ps"

definition valid_peers :: "(string \<Rightarrow> addr option) \<Rightarrow> string list \<Rightarrow> string list" where
  "valid_peers parse_addr ss = filter (\<lambda>s. parse_addr s \<noteq> None) ss"

section \<open>Bounds\<close>

definition peer_list_ok :: "peer_list \<Rightarrow> bool" where
  "peer_list_ok L \<longleftrightarrow> distinct (pl_peers L) \<and> length (pl_peers L) \<le> pl_max L"

lemma peer_list_add_ok: "peer_list_ok L \<Longrightarrow> peer_list_ok (snd (peer_list_add L a))"
  by (auto simp: peer_list_ok_def peer_list_add_def distinct_tl dest: list.set_sel(2))

lemma peer_list_add_max [simp]: "pl_max (snd (peer_list_add L a)) = pl_max L"
  by (simp add: peer_list_add_def)

lemma peer_list_add_result: "peer_list_ok L \<Longrightarrow> 0 < pl_max L \<Longrightarrow> fst (peer_list_add L a) \<longleftrightarrow> a \<notin> set (pl_peers L)"
  by (auto simp: peer_list_ok_def peer_list_add_def)

lemma peer_list_from_ok: "peer_list_ok (peer_list_from as n) \<and> pl_max (peer_list_from as n) = n"
  unfolding peer_list_from_def
  by (induction as rule: rev_induct) (simp_all add: peer_list_add_ok, simp add: peer_list_ok_def peer_list_new_def)

text \<open>Adding distinct addresses keeps the last of them.\<close>

lemma peer_list_from_fifo:
  "distinct as \<Longrightarrow> pl_peers (peer_list_from as n) = drop (length as - n) as"
proof (induction as rule: rev_induct)
  case Nil
  then show ?case by (simp add: peer_list_from_def peer_list_new_def)
next
  case (snoc a as)
  define L where "L = peer_list_from as n"
  have L: "pl_peers L = drop (length as - n) as" "pl_max L = n" "peer_list_from (as @ [a]) n = snd (peer_list_add L a)"
    using snoc peer_list_from_ok [of as n] by (auto simp: L_def peer_list_from_def)
  have a: "a \<notin> set (pl_peers L)" using snoc.prems L(1) by (auto dest: in_set_dropD)
  have t: "tl (drop k xs) = drop (Suc k) xs" for k and xs :: "string list" by (simp add: drop_Suc tl_drop)
  show ?case
    using a L by (auto simp: peer_list_add_def t Suc_diff_le)
qed

definition trusted_ok :: "trusted_list \<Rightarrow> bool" where
  "trusted_ok L \<longleftrightarrow> keys_distinct (tl_peers L) \<and> length (tl_peers L) \<le> tl_max L \<and> (\<forall>(a, p) \<in> set (tl_peers L). tp_addr p = a)"

lemma trusted_ok_mono:
  "trusted_ok L \<Longrightarrow> keys_distinct T \<Longrightarrow> length T \<le> tl_max L \<Longrightarrow> set T \<subseteq> insert (tp_addr p, p) (set (tl_peers L)) \<Longrightarrow> trusted_ok (L\<lparr>tl_peers := T\<rparr>)"
  by (fastforce simp: trusted_ok_def)

lemma trusted_add_ok: "trusted_ok L \<Longrightarrow> trusted_ok (snd (trusted_add L p))"
proof -
  assume ok: "trusted_ok L"
  then have d: "keys_distinct (tl_peers L)" by (simp add: trusted_ok_def)
  show ?thesis
  proof (cases "tl_max L \<le> length (tl_peers L) \<and> tl_peers L \<noteq> []")
    case True
    have "length (AList.update (tp_addr p) p (evict_min authenticated_at (tl_peers L))) \<le> tl_max L"
      using ok True length_update_le [of "tp_addr p" p "evict_min authenticated_at (tl_peers L)"]
        length_evict_min [OF d, of authenticated_at] by (cases "tl_peers L") (auto simp: trusted_ok_def)
    moreover have "set (AList.update (tp_addr p) p (evict_min authenticated_at (tl_peers L))) \<subseteq> insert (tp_addr p, p) (set (tl_peers L))"
      using set_update_subset [of "tp_addr p" p "evict_min authenticated_at (tl_peers L)"]
        set_evict_subset [of authenticated_at "tl_peers L"] by blast
    ultimately show ?thesis
      using ok True d trusted_ok_mono [OF ok] by (simp add: trusted_add_def)
  next
    case False
    then show ?thesis
      using ok d length_update_le [of "tp_addr p" p "tl_peers L"]
        trusted_ok_mono [OF ok, of "AList.update (tp_addr p) p (tl_peers L)" p] set_update_subset [of "tp_addr p" p "tl_peers L"]
      by (auto simp: trusted_add_def not_le)
  qed
qed

lemma trusted_add_max [simp]: "tl_max (snd (trusted_add L p)) = tl_max L"
  by (simp add: trusted_add_def)

lemma trusted_remove_ok: "trusted_ok L \<Longrightarrow> trusted_ok (snd (trusted_remove L a))"
  using trusted_ok_mono [of L "AList.delete a (tl_peers L)"] set_delete_subset [of a "tl_peers L"] length_delete_le [of a "tl_peers L"]
  by (fastforce simp: trusted_remove_def trusted_ok_def)

section \<open>Properties\<close>

lemma restore_new:
  assumes "tp_addr p = a" and "length (tp_encryption_key p) = 32" and "parse_addr a = Some a"
    and "a \<notin> fst ` set T" and "length T < n"
  shows "restore_peer parse_addr now \<lparr>tl_peers = T, tl_max = n\<rparr> (persist_peer p) =
    \<lparr>tl_peers = T @ [(a, p\<lparr>authenticated_at := now\<rparr>)], tl_max = n\<rparr>"
proof -
  have "map_of T a = None" using assms(4) by (simp add: map_of_keys)
  moreover have "put_at 0 (take (min 32 32) (tp_encryption_key p)) (zeros 32) = tp_encryption_key p"
    using assms(2) by (simp add: put_at_def)
  ultimately show ?thesis
    using assms by (cases p) (simp add: restore_peer_def persist_peer_def trusted_add_def update_absent Let_def)
qed

lemma restore_loop:
  assumes "\<forall>(a, p) \<in> set T. tp_addr p = a \<and> length (tp_encryption_key p) = 32 \<and> parse_addr a = Some a"
    and "distinct (map fst (T0 @ T))" and "length (T0 @ T) \<le> n"
  shows "foldl (restore_peer parse_addr now) \<lparr>tl_peers = T0, tl_max = n\<rparr> (map (persist_peer \<circ> snd) T) =
     \<lparr>tl_peers = T0 @ map (\<lambda>(a, p). (a, p\<lparr>authenticated_at := now\<rparr>)) T, tl_max = n\<rparr>"
  using assms
proof (induction T arbitrary: T0)
  case (Cons e T)
  obtain a p where e: "e = (a, p)" by (cases e)
  have "restore_peer parse_addr now \<lparr>tl_peers = T0, tl_max = n\<rparr> (persist_peer p) =
      \<lparr>tl_peers = T0 @ [(a, p\<lparr>authenticated_at := now\<rparr>)], tl_max = n\<rparr>"
    using Cons.prems by (intro restore_new) (auto simp: e)
  then show ?case
    using Cons.IH [of "T0 @ [(a, p\<lparr>authenticated_at := now\<rparr>)]"] Cons.prems by (simp add: e)
qed simp

text \<open>
  A trusted list that is written to disk and loaded again has the same peers with the same identities and
  keys, but for those with an empty node identifier, which are dropped; every peer that a handshake
  initiated here has made trusted is one of those. The times of authentication become that of the load.
\<close>

theorem trusted_list_roundtrip:
  assumes "trusted_ok L" and "\<forall>(a, p) \<in> set (tl_peers L). length (tp_encryption_key p) = 32 \<and> a \<noteq> [] \<and> parse_addr a = Some a"
  shows "tl_peers (persisted_to_trusted parse_addr (valid_trusted parse_addr (trusted_to_persisted L)) (tl_max L) now) =
    map (\<lambda>(a, p). (a, p\<lparr>authenticated_at := now\<rparr>)) (filter (\<lambda>(a, p). tp_node_id p \<noteq> []) (tl_peers L))"
proof -
  define T where "T = filter (\<lambda>(a, p). tp_node_id p \<noteq> []) (tl_peers L)"
  have "tp_addr p = a" "a \<noteq> []" "parse_addr a = Some a" if "(a, p) \<in> set (tl_peers L)" for a p
    using assms that by (auto simp: trusted_ok_def)
  then have "filter ((\<lambda>p. \<not> (pp_node_id p = [] \<or> pp_addr p = []) \<and> parse_addr (pp_addr p) \<noteq> None) \<circ> (persist_peer \<circ> snd)) (tl_peers L) = T"
    unfolding T_def by (intro filter_cong) (auto simp: persist_peer_def)
  then have "valid_trusted parse_addr (trusted_to_persisted L) = map (persist_peer \<circ> snd) T"
    by (simp add: valid_trusted_def trusted_to_persisted_def filter_map)
  moreover have "\<forall>(a, p) \<in> set T. tp_addr p = a \<and> length (tp_encryption_key p) = 32 \<and> parse_addr a = Some a"
    using assms by (auto simp: T_def trusted_ok_def)
  moreover have "distinct (map fst ([] @ T))" "length ([] @ T) \<le> tl_max L"
    using assms(1) by (auto simp: T_def trusted_ok_def keys_distinct_def distinct_map_filter intro: le_trans [OF length_filter_le])
  ultimately show ?thesis
    by (simp add: persisted_to_trusted_def trusted_new_def restore_loop [of T parse_addr "[]"] flip: T_def)
qed

theorem trusted_list_roundtrip_witness:
  "tl_peers (persisted_to_trusted Some (valid_trusted Some (trusted_to_persisted
     \<lparr>tl_peers = [(''a:1'', \<lparr>tp_node_id = ''n'', tp_public_key = ''k'', tp_encryption_key = zeros 32, tp_addr = ''a:1'', authenticated_at = 1\<rparr>),
                 (''b:2'', \<lparr>tp_node_id = [], tp_public_key = [], tp_encryption_key = zeros 32, tp_addr = ''b:2'', authenticated_at = 2\<rparr>)],
      tl_max = 4\<rparr>)) 4 9) =
   [(''a:1'', \<lparr>tp_node_id = ''n'', tp_public_key = ''k'', tp_encryption_key = zeros 32, tp_addr = ''a:1'', authenticated_at = 9\<rparr>)]"
  using trusted_list_roundtrip [of "\<lparr>tl_peers = [(''a:1'', \<lparr>tp_node_id = ''n'', tp_public_key = ''k'', tp_encryption_key = zeros 32, tp_addr = ''a:1'', authenticated_at = 1\<rparr>),
                 (''b:2'', \<lparr>tp_node_id = [], tp_public_key = [], tp_encryption_key = zeros 32, tp_addr = ''b:2'', authenticated_at = 2\<rparr>)],
      tl_max = 4\<rparr>" Some 9]
  by (simp add: trusted_ok_def keys_distinct_def)

end
