(* ===== verification/Secure_Message.thy ===== *)
theory Secure_Message
  imports Nexo_Prelude
begin

text \<open>
  Messages on the wire of the host: the encrypted message of
  \<^verbatim>\<open>crates/host/src/network/secure_transport.rs\<close>, the length-prefixed datagrams of
  \<^verbatim>\<open>UdpTransport\<close> in \<^verbatim>\<open>network/transport.rs\<close>, and the Bloom filter of banned addresses in
  \<^verbatim>\<open>network/membrane.rs\<close>. The cipher and the hash are parameters.
\<close>

unbundle bit_operations_syntax

section \<open>Big-endian integers\<close>

definition be_bytes :: "nat \<Rightarrow> nat \<Rightarrow> bytes" where
  "be_bytes n x = rev (le_bytes n x)"

definition nat_of_be :: "bytes \<Rightarrow> nat" where
  "nat_of_be bs = nat_of_le (rev bs)"

lemma length_be_bytes [simp, len_simps]: "length (be_bytes n x) = n"
  by (simp add: be_bytes_def)

lemma nat_of_be_be_bytes: "nat_of_be (be_bytes n x) = x mod 256 ^ n"
  by (simp add: nat_of_be_def be_bytes_def nat_of_le_le_bytes)

lemma be_roundtrip [simp]: "x < 256 ^ n \<Longrightarrow> nat_of_be (be_bytes n x) = x"
  by (simp add: nat_of_be_be_bytes)

lemma be_u64_roundtrip [simp]: "word_of_nat (nat_of_be (be_bytes 8 (unat w))) = (w :: u64)"
proof -
  have "unat w < 2 ^ 64" using unsigned_less [of w] by simp
  then show ?thesis by simp
qed

section \<open>Encrypted messages\<close>

definition NONCE_LEN :: nat where "NONCE_LEN = 12"
definition COUNTER_LEN :: nat where "COUNTER_LEN = 8"
definition HEADER_LEN :: nat where "HEADER_LEN = 4"

record secure_message =
  sm_nonce :: bytes
  sm_counter :: u64
  sm_payload :: bytes

datatype secure_error = EncryptionError | DecryptionError | PlaintextTooShort

text \<open>The cipher takes a key, a nonce and a text.\<close>

type_synonym cipher = "bytes \<Rightarrow> bytes \<Rightarrow> bytes \<Rightarrow> bytes option"

definition encrypt_message ::
  "cipher \<Rightarrow> bytes \<Rightarrow> bytes \<Rightarrow> u64 \<Rightarrow> bytes \<Rightarrow> secure_error + secure_message" where
  "encrypt_message enc payload key counter nonce =
     (case enc key nonce (be_bytes 8 (unat counter) @ payload) of
        None \<Rightarrow> Inl EncryptionError
      | Some c \<Rightarrow> Inr \<lparr>sm_nonce = nonce, sm_counter = counter, sm_payload = c\<rparr>)"

definition decrypt_message :: "cipher \<Rightarrow> secure_message \<Rightarrow> bytes \<Rightarrow> secure_error + u64 \<times> bytes" where
  "decrypt_message dec m key =
     (case dec key (sm_nonce m) (sm_payload m) of
        None \<Rightarrow> Inl DecryptionError
      | Some plain \<Rightarrow>
          if length plain < COUNTER_LEN then Inl PlaintextTooShort
          else Inr (word_of_nat (nat_of_be (take COUNTER_LEN plain)), drop COUNTER_LEN plain))"

definition message_to_bytes :: "secure_message \<Rightarrow> bytes" where
  "message_to_bytes m =
     (let total = NONCE_LEN + COUNTER_LEN + length (sm_payload m)
      in be_bytes 4 (total mod 2 ^ 32) @ sm_nonce m @ be_bytes 8 (unat (sm_counter m)) @ sm_payload m)"

text \<open>The slices of \<^verbatim>\<open>from_bytes\<close> panic when a bound exceeds the length or the range is reversed.\<close>

datatype wire_error = ShortHeader | ShortDeclared | SlicePanic

definition checked_slice :: "bytes \<Rightarrow> nat \<Rightarrow> nat \<Rightarrow> wire_error + bytes" where
  "checked_slice d i j = (if i \<le> j \<and> j \<le> length d then Inr (slice d i j) else Inl SlicePanic)"

definition message_from_bytes :: "bytes \<Rightarrow> wire_error + secure_message" where
  "message_from_bytes d =
     (if length d < HEADER_LEN then Inl ShortHeader
      else
        let total = nat_of_be (take HEADER_LEN d); offset = HEADER_LEN; body = offset + NONCE_LEN + COUNTER_LEN
        in if length d < HEADER_LEN + total then Inl ShortDeclared
           else
             case checked_slice d offset (offset + NONCE_LEN) of
               Inl e \<Rightarrow> Inl e
             | Inr nonce \<Rightarrow>
                 (case checked_slice d (offset + NONCE_LEN) (offset + NONCE_LEN + COUNTER_LEN) of
                    Inl e \<Rightarrow> Inl e
                  | Inr counter \<Rightarrow>
                      (case checked_slice d body (offset + total) of
                         Inl e \<Rightarrow> Inl e
                       | Inr payload \<Rightarrow>
                           Inr \<lparr>sm_nonce = nonce, sm_counter = word_of_nat (nat_of_be counter), sm_payload = payload\<rparr>)))"

section \<open>Datagrams\<close>

text \<open>A received datagram has lost what exceeds the buffer of 65536 bytes.\<close>

definition RECV_BUFFER :: nat where "RECV_BUFFER = 65536"

datatype recv_error = DroppedBanned | TooShortForHeader | Truncated | InvalidJson

definition send_frame :: "bytes \<Rightarrow> bytes" where
  "send_frame d = be_bytes 4 (length d mod 2 ^ 32) @ d"

definition recv_frame :: "(bytes \<Rightarrow> 'm option) \<Rightarrow> bool \<Rightarrow> bytes \<Rightarrow> recv_error + 'm" where
  "recv_frame decode from_banned datagram =
     (let buf = take RECV_BUFFER datagram
      in if from_banned then Inl DroppedBanned
         else if length buf < 4 then Inl TooShortForHeader
         else
           let expected = nat_of_be (take 4 buf)
           in if length buf < 4 + expected then Inl Truncated
              else case decode (slice buf 4 (4 + expected)) of None \<Rightarrow> Inl InvalidJson | Some m \<Rightarrow> Inr m)"

section \<open>The filter of banned addresses\<close>

definition BLOOM_FILTER_WORDS :: nat where "BLOOM_FILTER_WORDS = 512"
definition BLOOM_FILTER_BITS :: nat where "BLOOM_FILTER_BITS = BLOOM_FILTER_WORDS * 64"

type_synonym blacklist = "u64 list"

definition blacklist_new :: blacklist where
  "blacklist_new = replicate BLOOM_FILTER_WORDS 0"

definition bloom_indices :: "(bytes \<Rightarrow> bytes) \<Rightarrow> bytes \<Rightarrow> nat \<times> nat \<times> nat" where
  "bloom_indices hash ip =
     (let b = hash ip
      in (nat_of_le [b ! 0, b ! 1] mod BLOOM_FILTER_BITS,
          nat_of_le [b ! 2, b ! 3] mod BLOOM_FILTER_BITS,
          nat_of_le [b ! 4, b ! 5] mod BLOOM_FILTER_BITS))"

definition bloom_set :: "blacklist \<Rightarrow> nat \<Rightarrow> blacklist" where
  "bloom_set B i = B[i div 64 := (B ! (i div 64)) OR push_bit (i mod 64) 1]"

definition bloom_test :: "blacklist \<Rightarrow> nat \<Rightarrow> bool" where
  "bloom_test B i \<longleftrightarrow> (B ! (i div 64)) AND push_bit (i mod 64) 1 \<noteq> 0"

definition ban_ip :: "(bytes \<Rightarrow> bytes) \<Rightarrow> blacklist \<Rightarrow> bytes \<Rightarrow> blacklist" where
  "ban_ip hash B ip = (case bloom_indices hash ip of (a, b, c) \<Rightarrow> bloom_set (bloom_set (bloom_set B a) b) c)"

definition ip_banned :: "(bytes \<Rightarrow> bytes) \<Rightarrow> blacklist \<Rightarrow> bytes \<Rightarrow> bool" where
  "ip_banned hash B ip \<longleftrightarrow>
     (case bloom_indices hash ip of (a, b, c) \<Rightarrow> bloom_test B a \<and> bloom_test B b \<and> bloom_test B c)"

definition blacklist_clear :: "blacklist \<Rightarrow> blacklist" where
  "blacklist_clear B = map (\<lambda>w. 0) B"

lemma bloom_test_set:
  assumes "length B = 512" and "i < 32768" and "j < 32768"
  shows "bloom_test (bloom_set B i) j \<longleftrightarrow> i = j \<or> bloom_test B j"
proof (cases "i div 64 = j div 64")
  case False
  then show ?thesis using assms by (auto simp: bloom_test_def bloom_set_def)
next
  case True
  have "i div 64 < 512" using assms by simp
  moreover have "i = j \<longleftrightarrow> i mod 64 = j mod 64" using True div_mult_mod_eq [of i 64] div_mult_mod_eq [of j 64] by metis
  moreover have "bit (push_bit n (1 :: u64)) m \<longleftrightarrow> n = m" if "n < 64" "m < 64" for n m
    using that by (auto simp: push_bit_of_1 bit_exp_iff)
  ultimately show ?thesis
    using assms True by (auto simp: bloom_test_def bloom_set_def push_bit_of_1 and_exp_eq_0_iff_not_bit bit_or_iff)
qed

lemma length_bloom_set [simp]: "length (bloom_set B i) = length B"
  by (simp add: bloom_set_def)

definition bloom_bits :: "(bytes \<Rightarrow> bytes) \<Rightarrow> bytes \<Rightarrow> nat set" where
  "bloom_bits hash ip = (case bloom_indices hash ip of (a, b, c) \<Rightarrow> {a, b, c})"

lemma bloom_bits_bound: "i \<in> bloom_bits hash ip \<Longrightarrow> i < 32768"
  by (auto simp: bloom_bits_def bloom_indices_def BLOOM_FILTER_BITS_def BLOOM_FILTER_WORDS_def Let_def)

lemma ban_run:
  "length (foldl (ban_ip hash) blacklist_new ips) = 512 \<and>
   (\<forall>j < 32768. bloom_test (foldl (ban_ip hash) blacklist_new ips) j \<longleftrightarrow> (\<exists>ip \<in> set ips. j \<in> bloom_bits hash ip))"
proof (induction ips rule: rev_induct)
  case Nil
  then show ?case by (simp add: blacklist_new_def bloom_test_def BLOOM_FILTER_WORDS_def)
next
  case (snoc ip ips)
  obtain a b c where i: "bloom_indices hash ip = (a, b, c)" by (cases "bloom_indices hash ip")
  then have "a < 32768" "b < 32768" "c < 32768"
    using bloom_bits_bound [of _ hash ip] by (auto simp: bloom_bits_def)
  then show ?case using snoc i by (auto simp: ban_ip_def bloom_test_set bloom_bits_def)
qed

section \<open>Properties\<close>

text \<open>
  The blacklist has no false negative: after any bans, an address counts as banned exactly when each of its
  three bits is a bit of some banned address, so every banned address does, until the filter is cleared.
\<close>

theorem blacklist_no_false_negative:
  "ip_banned hash (foldl (ban_ip hash) blacklist_new ips) ip \<longleftrightarrow> bloom_bits hash ip \<subseteq> (\<Union>q \<in> set ips. bloom_bits hash q)"
proof -
  obtain a b c where i: "bloom_indices hash ip = (a, b, c)" by (cases "bloom_indices hash ip")
  then have "a < 32768" "b < 32768" "c < 32768"
    using bloom_bits_bound [of _ hash ip] by (auto simp: bloom_bits_def)
  then show ?thesis using ban_run [of hash ips] i by (auto simp: ip_banned_def bloom_bits_def)
qed

text \<open>
  An encrypted message survives the wire: what was encrypted is decrypted with its counter and payload
  after a passage through the byte format, whose decoder panics exactly on the inputs that declare fewer
  bytes than the nonce and the counter take.
\<close>

theorem secure_message_roundtrip:
  assumes "\<forall>k n x c. enc k n x = Some c \<longrightarrow> dec k n c = Some x"
    and "encrypt_message enc payload key counter nonce = Inr m" and "length nonce = 12" and "length (sm_payload m) + 20 < 2 ^ 32"
  shows "message_from_bytes (message_to_bytes m) = Inr m \<and> decrypt_message dec m key = Inr (counter, payload) \<and>
    (message_from_bytes d = Inl SlicePanic \<longleftrightarrow>
       4 \<le> length d \<and> nat_of_be (take 4 d) < 20 \<and> 4 + nat_of_be (take 4 d) \<le> length d)"
proof (intro conjI)
  obtain c where c: "enc key nonce (be_bytes 8 (unat counter) @ payload) = Some c"
    "m = \<lparr>sm_nonce = nonce, sm_counter = counter, sm_payload = c\<rparr>"
    using assms(2) by (auto simp: encrypt_message_def split: option.splits)
  show "message_from_bytes (message_to_bytes m) = Inr m"
    using assms(3,4) c(2)
    by (simp add: message_from_bytes_def message_to_bytes_def HEADER_LEN_def NONCE_LEN_def COUNTER_LEN_def Let_def
        checked_slice_def slice_def)
  show "decrypt_message dec m key = Inr (counter, payload)"
    using assms(1) c by (simp add: decrypt_message_def COUNTER_LEN_def)
  show "message_from_bytes d = Inl SlicePanic \<longleftrightarrow>
      4 \<le> length d \<and> nat_of_be (take 4 d) < 20 \<and> 4 + nat_of_be (take 4 d) \<le> length d"
    by (auto simp: message_from_bytes_def HEADER_LEN_def NONCE_LEN_def COUNTER_LEN_def Let_def checked_slice_def)
qed

theorem secure_message_roundtrip_witness:
  "message_from_bytes (message_to_bytes \<lparr>sm_nonce = zeros 12, sm_counter = 7, sm_payload = be_bytes 8 7 @ [1, 2]\<rparr>) =
     Inr \<lparr>sm_nonce = zeros 12, sm_counter = 7, sm_payload = be_bytes 8 7 @ [1, 2]\<rparr> \<and>
   message_from_bytes [0, 0, 0, 0] = Inl SlicePanic"
  using secure_message_roundtrip [of "\<lambda>k n x. Some x" "\<lambda>k n x. Some x" "[1, 2]" "[]" 7 "zeros 12"
      "\<lparr>sm_nonce = zeros 12, sm_counter = 7, sm_payload = be_bytes 8 7 @ [1, 2]\<rparr>" "[0, 0, 0, 0]"]
  by (simp add: encrypt_message_def nat_of_be_def)

text \<open>A datagram that fits the buffer is received as it was sent, unless its sender is banned.\<close>

theorem datagram_roundtrip:
  assumes "length d + 4 \<le> 65536" and "decode d = Some m"
  shows "recv_frame decode False (send_frame d) = Inr m \<and> recv_frame decode True (send_frame d) = Inl DroppedBanned"
  using assms by (simp add: recv_frame_def send_frame_def RECV_BUFFER_def Let_def slice_def)

end
