(* ===== verification/Epa.thy ===== *)
theory Epa
  imports Decision Secure_Message
begin

text \<open>
  Shared evidence packages of \<^verbatim>\<open>crates/host/src/network/epa.rs\<close>, their verification
  (\<^verbatim>\<open>network/verify.rs\<close>) and the check of a signature (\<^verbatim>\<open>network/identity.rs\<close>). Hashing,
  hexadecimal, Ed25519 and the RFC 3339 form of a time are library code: parameters, gathered in a
  record. Times are nanoseconds since the epoch.
\<close>

section \<open>Library functions\<close>

record epa_crypto =
  canonical_hash :: "string \<Rightarrow> string"
  hex_decode :: "string \<Rightarrow> bytes option"
  verifying_key :: "bytes \<Rightarrow> bool"
  ed_verify :: "bytes \<Rightarrow> bytes \<Rightarrow> bytes \<Rightarrow> bool"
  parse_time :: "string \<Rightarrow> int option"
  show_time :: "int \<Rightarrow> string"

section \<open>Signatures\<close>

datatype signature_error = BadHex | BadKeyLength | BadKey | TrivialKey | BadSignatureLength

definition verify_signature :: "epa_crypto \<Rightarrow> string \<Rightarrow> bytes \<Rightarrow> bytes \<Rightarrow> signature_error + bool" where
  "verify_signature C public_key_hex msg sig =
     (case hex_decode C public_key_hex of
        None \<Rightarrow> Inl BadHex
      | Some key \<Rightarrow>
          if length key \<noteq> 32 then Inl BadKeyLength
          else if \<not> verifying_key C key then Inl BadKey
          else if key = zeros 32 then Inl TrivialKey
          else if length sig \<noteq> 64 then Inl BadSignatureLength
          else Inr (ed_verify C key msg sig))"

definition signature_valid :: "epa_crypto \<Rightarrow> string \<Rightarrow> bytes \<Rightarrow> bytes \<Rightarrow> bool" where
  "signature_valid C key msg sig = (case verify_signature C key msg sig of Inl e \<Rightarrow> False | Inr b \<Rightarrow> b)"

section \<open>Packages\<close>

definition TIMESTAMP_MAX_AGE_SECS :: int where "TIMESTAMP_MAX_AGE_SECS = 300"
definition TIMESTAMP_MAX_FUTURE_SECS :: int where "TIMESTAMP_MAX_FUTURE_SECS = 120"

record shared_epa =
  epa_id :: string
  epa_node_id :: string
  epa_public_key :: string
  epa_signature :: bytes
  epa_state_hash :: string
  epa_evidence_hash :: string
  epa_decision_hash :: string
  epa_manifest_hash :: string
  epa_timestamp :: string
  epa_integrity_hash :: string
  encrypted_payload :: "bytes option"
  ephemeral_public_key :: "bytes option"
  epa_lgpd :: "lgpd_metadata option"

datatype epa_error = IntegrityFailed | SignatureFailed | TimestampExpired | TimestampTooNew | TimestampInvalid | MissingPublicKey

definition epa_content :: "string \<Rightarrow> string \<Rightarrow> string \<Rightarrow> string \<Rightarrow> string \<Rightarrow> string" where
  "epa_content i s e d m = i @ '':'' @ s @ '':'' @ e @ '':'' @ d @ '':'' @ m"

definition epa_create ::
  "epa_crypto \<Rightarrow> (bytes \<Rightarrow> bytes) \<Rightarrow> string \<Rightarrow> string \<Rightarrow> string \<Rightarrow> string \<Rightarrow> string \<Rightarrow> string \<Rightarrow>
     lgpd_metadata option \<Rightarrow> int \<Rightarrow> shared_epa" where
  "epa_create C sign i public_key state_json evidence_jsonl decisions_jsonl manifest_json lgpd now =
     (let sh = canonical_hash C state_json; eh = canonical_hash C evidence_jsonl;
          dh = canonical_hash C decisions_jsonl; mh = canonical_hash C manifest_json;
          h = canonical_hash C (epa_content i sh eh dh mh)
      in \<lparr>epa_id = take 16 h, epa_node_id = i, epa_public_key = public_key,
          epa_signature = sign (string_bytes h), epa_state_hash = sh, epa_evidence_hash = eh,
          epa_decision_hash = dh, epa_manifest_hash = mh, epa_timestamp = show_time C now,
          epa_integrity_hash = h, encrypted_payload = None, ephemeral_public_key = None, epa_lgpd = lgpd\<rparr>)"

definition verify_integrity :: "epa_crypto \<Rightarrow> shared_epa \<Rightarrow> bool" where
  "verify_integrity C e \<longleftrightarrow>
     epa_integrity_hash e =
       canonical_hash C (epa_content (epa_node_id e) (epa_state_hash e) (epa_evidence_hash e) (epa_decision_hash e) (epa_manifest_hash e))"

text \<open>\<^verbatim>\<open>num_seconds\<close> truncates towards zero.\<close>

definition verify_timestamp :: "epa_crypto \<Rightarrow> shared_epa \<Rightarrow> int \<Rightarrow> epa_error + unit" where
  "verify_timestamp C e now =
     (case parse_time C (epa_timestamp e) of
        None \<Rightarrow> Inl TimestampInvalid
      | Some ts \<Rightarrow>
          let secs = tdiv (now - ts) 1000000000
          in if TIMESTAMP_MAX_AGE_SECS < secs then Inl TimestampExpired
             else if secs < - TIMESTAMP_MAX_FUTURE_SECS then Inl TimestampTooNew
             else Inr ())"

definition epa_verify_signature :: "epa_crypto \<Rightarrow> shared_epa \<Rightarrow> int \<Rightarrow> epa_error + unit" where
  "epa_verify_signature C e now =
     (if epa_public_key e = [] then Inl MissingPublicKey
      else
        case verify_timestamp C e now of
          Inl err \<Rightarrow> Inl err
        | Inr _ \<Rightarrow>
            if \<not> signature_valid C (epa_public_key e) (string_bytes (epa_integrity_hash e)) (epa_signature e)
            then Inl SignatureFailed else Inr ())"

definition verify_full :: "epa_crypto \<Rightarrow> shared_epa \<Rightarrow> int \<Rightarrow> epa_error + unit" where
  "verify_full C e now =
     (if \<not> verify_integrity C e then Inl IntegrityFailed
      else case epa_verify_signature C e now of Inl err \<Rightarrow> Inl err | Inr _ \<Rightarrow> verify_timestamp C e now)"

datatype verify_result = Valid | InvalidIntegrity | InvalidSignature | ResultExpired | ResultTooNew | MissingData

definition verify_epa :: "epa_crypto \<Rightarrow> shared_epa \<Rightarrow> int \<Rightarrow> verify_result" where
  "verify_epa C e now =
     (case verify_full C e now of
        Inr _ \<Rightarrow> Valid
      | Inl IntegrityFailed \<Rightarrow> InvalidIntegrity
      | Inl SignatureFailed \<Rightarrow> InvalidSignature
      | Inl TimestampExpired \<Rightarrow> ResultExpired
      | Inl TimestampTooNew \<Rightarrow> ResultTooNew
      | Inl TimestampInvalid \<Rightarrow> InvalidIntegrity
      | Inl MissingPublicKey \<Rightarrow> InvalidSignature)"

text \<open>
  \<^verbatim>\<open>decrypt_payload\<close>, of which the listener uses the outcome only. Copying a key of another length than
  32 panics. The key agreement and the cipher are a parameter that tells whether the text is recovered.
\<close>

datatype decrypt_outcome = DecryptPanic | DecryptFailed | DecryptOk

definition decrypt_payload :: "(bytes \<Rightarrow> bytes \<Rightarrow> bool) \<Rightarrow> shared_epa \<Rightarrow> decrypt_outcome" where
  "decrypt_payload opens e =
     (case encrypted_payload e of
        None \<Rightarrow> DecryptFailed
      | Some c \<Rightarrow>
          (case ephemeral_public_key e of
             None \<Rightarrow> DecryptFailed
           | Some k \<Rightarrow>
               if length k \<noteq> 32 then DecryptPanic
               else if length c < 12 then DecryptFailed
               else if opens k c then DecryptOk else DecryptFailed))"

section \<open>What verification decides\<close>

lemma tdiv_window:
  "(300 < tdiv a 1000000000 \<longleftrightarrow> 301000000000 \<le> a) \<and> (tdiv a 1000000000 < -120 \<longleftrightarrow> a \<le> -121000000000)"
  by (cases "0 \<le> a") (simp_all add: tdiv_nonneg tdiv_neg, linarith+)

lemma verify_timestamp_ok:
  "verify_timestamp C e now = Inr () \<longleftrightarrow>
     (\<exists>ts. parse_time C (epa_timestamp e) = Some ts \<and> ts < now + 121000000000 \<and> now < ts + 301000000000)"
proof (cases "parse_time C (epa_timestamp e)")
  case None
  then show ?thesis by (simp add: verify_timestamp_def)
next
  case (Some ts)
  have "300 < tdiv (now - ts) 1000000000 \<longleftrightarrow> ts + 301000000000 \<le> now"
    "tdiv (now - ts) 1000000000 < -120 \<longleftrightarrow> now + 121000000000 \<le> ts"
    using tdiv_window [of "now - ts"] by linarith+
  then show ?thesis
    by (auto simp: verify_timestamp_def Some Let_def TIMESTAMP_MAX_AGE_SECS_def TIMESTAMP_MAX_FUTURE_SECS_def)
qed

lemma verify_epa_valid:
  "verify_epa C e now = Valid \<longleftrightarrow>
     verify_integrity C e \<and> epa_public_key e \<noteq> [] \<and>
     signature_valid C (epa_public_key e) (string_bytes (epa_integrity_hash e)) (epa_signature e) \<and>
     (\<exists>ts. parse_time C (epa_timestamp e) = Some ts \<and> ts < now + 121000000000 \<and> now < ts + 301000000000)"
  unfolding verify_timestamp_ok [symmetric]
  by (auto simp: verify_epa_def verify_full_def epa_verify_signature_def split: sum.splits epa_error.splits)

section \<open>Properties\<close>

text \<open>
  Verification accepts a package exactly when its integrity hash is that of the node identifier and the
  four artifact hashes, its signature of that hash verifies under the key it carries, and its time lies
  less than 121 seconds ahead and less than 301 behind; so a package just created by a node verifies.
\<close>

theorem epa_verification:
  assumes "\<forall>m. ed_verify C key m (sign m) \<and> length (sign m) = 64" and "hex_decode C pk = Some key" and "pk \<noteq> []"
    and "length key = 32" and "verifying_key C key" and "key \<noteq> zeros 32" and "\<forall>t. parse_time C (show_time C t) = Some t"
  shows "(verify_epa C e now = Valid \<longleftrightarrow>
       verify_integrity C e \<and> epa_public_key e \<noteq> [] \<and>
       signature_valid C (epa_public_key e) (string_bytes (epa_integrity_hash e)) (epa_signature e) \<and>
       (\<exists>ts. parse_time C (epa_timestamp e) = Some ts \<and> ts < now + 121000000000 \<and> now < ts + 301000000000)) \<and>
    (verify_epa C (epa_create C sign i pk st ev de ma lgpd t) now = Valid \<longleftrightarrow> t < now + 121000000000 \<and> now < t + 301000000000)"
proof -
  have "signature_valid C pk m (sign m)" for m
    using assms by (simp add: signature_valid_def verify_signature_def)
  then show ?thesis
    unfolding verify_epa_valid using assms(3,7) by (simp add: epa_create_def verify_integrity_def Let_def)
qed

definition open_crypto :: epa_crypto where
  "open_crypto = \<lparr>canonical_hash = id, hex_decode = (\<lambda>s. Some (replicate 32 1)), verifying_key = (\<lambda>k. True),
     ed_verify = (\<lambda>k m s. True), parse_time = (\<lambda>s. Some (int (length s))), show_time = (\<lambda>t. replicate (nat t) (CHR ''t''))\<rparr>"

definition stamped_crypto :: epa_crypto where
  "stamped_crypto = open_crypto\<lparr>parse_time := (\<lambda>s. Some (if s = [] then 0 else if last s = CHR ''-'' then - int (length s) else int (length s))),
     show_time := (\<lambda>t. if t = 0 then [] else if t < 0 then replicate (nat (- t) - 1) (CHR ''t'') @ ''-'' else replicate (nat t) (CHR ''t''))\<rparr>"

lemma stamped_time: "parse_time stamped_crypto (show_time stamped_crypto t) = Some t"
  by (auto simp: stamped_crypto_def)

theorem epa_verification_witness:
  "verify_epa stamped_crypto (epa_create stamped_crypto (\<lambda>m. zeros 64) ''n'' ''k'' [] [] [] [] None 5) 6 = Valid"
proof -
  have "(replicate 32 1 :: bytes) \<noteq> zeros 32" by (simp add: zeros_def)
  then show ?thesis
    using epa_verification [of stamped_crypto "replicate 32 1" "\<lambda>m. zeros 64" "''k''" _ 6 "''n''" "[]" "[]" "[]" "[]" None 5] stamped_time
    by (simp add: stamped_crypto_def open_crypto_def)
qed

text \<open>
  The time of a package, its metadata, its encrypted payload and its identifier are not covered by the signature: once
  a package verified, anyone can present it with any other time at that time, and it verifies again, with
  any metadata and payload. And a package of another node verifies under any key that signs its hash.
\<close>

theorem epa_timestamp_unsigned:
  assumes "verify_epa C e now = Valid" and "parse_time C ts = Some t" and "t < now' + 121000000000" and "now' < t + 301000000000"
  shows "verify_epa C (e\<lparr>epa_timestamp := ts, epa_lgpd := l, encrypted_payload := p, ephemeral_public_key := k, epa_id := i\<rparr>) now' = Valid \<and>
    (pk \<noteq> [] \<and> signature_valid C pk (string_bytes (epa_integrity_hash e)) sig \<longrightarrow>
       verify_epa C (e\<lparr>epa_timestamp := ts, epa_public_key := pk, epa_signature := sig\<rparr>) now' = Valid)"
  using assms unfolding verify_epa_valid by (auto simp: verify_integrity_def)

theorem epa_timestamp_unsigned_witness:
  "verify_epa stamped_crypto
     ((epa_create stamped_crypto (\<lambda>m. zeros 64) ''n'' ''k'' [] [] [] [] None 5)
        \<lparr>epa_timestamp := ''later'', epa_lgpd := None, encrypted_payload := Some [], ephemeral_public_key := None, epa_id := ''x''\<rparr>) 7 = Valid"
proof -
  have "verify_epa stamped_crypto (epa_create stamped_crypto (\<lambda>m. zeros 64) ''n'' ''k'' [] [] [] [] None 5) 6 = Valid"
    by (simp add: verify_epa_valid verify_integrity_def epa_create_def stamped_crypto_def open_crypto_def signature_valid_def
        verify_signature_def zeros_def Let_def)
  from epa_timestamp_unsigned [OF this, where ts = "''later''" and t = 5 and now' = 7 and l = None and p = "Some []" and k = None and i = "''x''"] show ?thesis
    by (simp add: stamped_crypto_def)
qed

end
