(* ===== verification/Nex_Lexer.thy ===== *)
theory Nex_Lexer
  imports Nex_Eval F64
begin

text \<open>
  The lexer of \<^verbatim>\<open>crates/host/src/nex/parser.rs\<close>. The index into the characters of a line is the part of the
  line that is left, with the index kept for the columns. Messages are constructors where they
  quote a part of the input; the quotation marks around words of a message are left out.
\<close>

section \<open>Tokens and errors\<close>

datatype token_kind =
    TkWord string
  | TkInt "64 word"
  | TkFloat "32 word"
  | TkStr string
  | TkEq | TkGte | TkGt | TkLt | TkColon | TkComma | TkLBrace | TkRBrace | TkLParen | TkRParen
  | TkNewline

record token =
  tok_kind :: token_kind
  tok_column :: nat

datatype message =
    Text string
  | InvalidInteger string
  | UnknownKeyword string
  | ExpectedNodeOrIdentifier token_kind
  | UnknownTrigger string
  | UnknownReaction string
  | UnknownEvent string
  | ThresholdAboveLimit "32 word"
  | UnexpectedInValue token_kind
  | UnknownAction string
  | UnknownType string
  | UnknownStrength string
  | ExpectedBool string
  | ExpectedWord token_kind
  | UnexpectedToken token_kind

datatype parse_error =
    Syntax nat nat message
  | UnsupportedVersion string string

text \<open>A parse may also panic, on an index out of bounds.\<close>

datatype parse_failure = Rejected parse_error | IndexPanic

type_synonym 'a parsed = "parse_failure + 'a"

definition pbind :: "'a parsed \<Rightarrow> ('a \<Rightarrow> 'b parsed) \<Rightarrow> 'b parsed" where
  "pbind m f = (case m of Inl e \<Rightarrow> Inl e | Inr x \<Rightarrow> f x)"

definition rejected :: "nat \<Rightarrow> nat \<Rightarrow> message \<Rightarrow> 'a parsed" where
  "rejected line column m = Inl (Rejected (Syntax line column m))"

lemma pbind_simps [simp]: "pbind (Inl e) f = Inl e" "pbind (Inr x) f = f x"
  by (simp_all add: pbind_def)

lemma pbind_Inr: "pbind m f = Inr y \<longleftrightarrow> (\<exists>x. m = Inr x \<and> f x = Inr y)"
  by (cases m) simp_all

lemma pbind_panic: "pbind m f = Inl IndexPanic \<longleftrightarrow> m = Inl IndexPanic \<or> (\<exists>x. m = Inr x \<and> f x = Inl IndexPanic)"
  by (cases m) simp_all

lemma rejected_simps [simp]: "rejected l c m \<noteq> Inr x" "rejected l c m \<noteq> Inl IndexPanic"
  by (simp_all add: rejected_def)

lemma pbind_cong [fundef_cong]:
  "m = m' \<Longrightarrow> (\<And>x. m' = Inr x \<Longrightarrow> f x = g x) \<Longrightarrow> pbind m f = pbind m' g"
  by (cases m') simp_all

section \<open>Numbers\<close>

definition is_digit :: "char \<Rightarrow> bool" where
  "is_digit c \<longleftrightarrow> of_char c \<in> {48..57 :: nat}"

text \<open>The nearest \<^verbatim>\<open>f32\<close> of a magnitude, ties to even, as a bit pattern; too large a value is infinite.\<close>

definition f32_bits :: "bool \<Rightarrow> rat \<Rightarrow> 32 word" where
  "f32_bits neg v =
     (let e = max (exponent v) (- 126); m = round_even (v / pow2 (e - 23));
          magnitude = (if v = 0 then 0 else min 0x7F800000 ((e + 126) * 2 ^ 23 + m))
      in word_of_int (magnitude + (if neg then 2 ^ 31 else 0)))"

text \<open>A literal of digits, with a minus sign or not, with a decimal point followed by a digit or not.\<close>

definition lex_number :: "nat \<Rightarrow> nat \<Rightarrow> string \<Rightarrow> (token_kind \<times> string) parsed" where
  "lex_number line column cs =
     (let neg = (hd cs = CHR ''-''); body = (if neg then tl cs else cs);
          ds = takeWhile is_digit body; rest = dropWhile is_digit body
      in if 2 \<le> length rest \<and> rest ! 0 = CHR ''.'' \<and> is_digit (rest ! 1) then
           let fs = takeWhile is_digit (tl rest)
           in Inr (TkFloat (f32_bits neg (rat_of_nat (text_nat (ds @ fs)) / 10 ^ length fs)), dropWhile is_digit (tl rest))
         else
           let v = (if neg then - int (text_nat ds) else int (text_nat ds))
           in if - (2 ^ 63) \<le> v \<and> v < 2 ^ 63 then Inr (TkInt (word_of_int v), rest)
              else rejected line column (InvalidInteger ((if neg then ''-'' else []) @ ds)))"

section \<open>Strings and words\<close>

definition unescape :: "char \<Rightarrow> char" where
  "unescape c = (if c = CHR ''n'' then CHR 0x0A else if c = CHR ''t'' then CHR 0x09 else c)"

text \<open>The value up to the closing quote and what follows; \<open>None\<close> when the line ends before it.\<close>

fun lex_string :: "string \<Rightarrow> (string \<times> string) option" where
  "lex_string [] = None"
| "lex_string (c # cs) =
     (if c = CHR 0x22 then Some ([], cs)
      else if c = CHR 0x5C then
        (case cs of
           [] \<Rightarrow> None
         | e # r \<Rightarrow> (case lex_string r of None \<Rightarrow> None | Some (v, rest) \<Rightarrow> Some (unescape e # v, rest)))
      else (case lex_string cs of None \<Rightarrow> None | Some (v, rest) \<Rightarrow> Some (c # v, rest)))"

definition next_is :: "char \<Rightarrow> string \<Rightarrow> bool" where
  "next_is c cs \<longleftrightarrow> cs \<noteq> [] \<and> hd cs = c"

definition ends_word :: "char \<Rightarrow> string \<Rightarrow> bool" where
  "ends_word c rest \<longleftrightarrow>
     is_space c \<or> c \<in> {CHR ''#'', CHR ''='', CHR 0x22, CHR ''>'', CHR ''<'', CHR '':'', CHR '','', CHR ''{'', CHR ''}'', CHR ''('', CHR '')''} \<or>
     c = CHR ''/'' \<and> next_is (CHR ''/'') rest"

fun word_rest :: "string \<Rightarrow> string \<times> string" where
  "word_rest [] = ([], [])"
| "word_rest (c # cs) =
     (if ends_word c cs then ([], c # cs) else let (w, r) = word_rest cs in (c # w, r))"

section \<open>Lines\<close>

definition punctuation :: "char \<Rightarrow> token_kind option" where
  "punctuation ch =
     (if ch = CHR ''='' then Some TkEq
      else if ch = CHR ''>'' then Some TkGt
      else if ch = CHR ''<'' then Some TkLt
      else if ch = CHR '':'' then Some TkColon
      else if ch = CHR '','' then Some TkComma
      else if ch = CHR ''{'' then Some TkLBrace
      else if ch = CHR ''}'' then Some TkRBrace
      else if ch = CHR ''('' then Some TkLParen
      else if ch = CHR '')'' then Some TkRParen
      else None)"

definition lex_token :: "nat \<Rightarrow> nat \<Rightarrow> char \<Rightarrow> string \<Rightarrow> (token_kind \<times> string) parsed" where
  "lex_token line column ch rest =
     (if ch = CHR ''>'' \<and> next_is (CHR ''='') rest then Inr (TkGte, tl rest)
      else case punctuation ch of
        Some k \<Rightarrow> Inr (k, rest)
      | None \<Rightarrow>
          if ch = CHR 0x22 then
            (case lex_string rest of
               None \<Rightarrow> rejected line column (Text ''unterminated string literal'')
             | Some (v, r) \<Rightarrow> Inr (TkStr v, r))
          else if ch = CHR ''-'' \<and> rest \<noteq> [] \<and> is_digit (hd rest) \<or> is_digit ch then lex_number line column (ch # rest)
          else let (w, r) = word_rest rest in Inr (TkWord (ch # w), r))"

lemma lex_string_length: "lex_string cs = Some (v, r) \<Longrightarrow> length r < length cs"
  by (induction cs arbitrary: v rule: lex_string.induct) (fastforce split: if_splits option.splits list.splits)+

lemma word_rest_length: "word_rest cs = (w, r) \<Longrightarrow> length r \<le> length cs"
  by (induction cs arbitrary: w) (fastforce split: if_splits prod.splits)+

lemma lex_number_length:
  assumes "lex_number line column (ch # rest) = Inr (k, r)" and "ch = CHR ''-'' \<or> is_digit ch"
  shows "length r \<le> length rest"
proof -
  have d: "length (dropWhile P s) \<le> length s" for P and s :: string by (rule length_dropWhile_le)
  have "length (dropWhile is_digit (if ch = CHR ''-'' then rest else ch # rest)) \<le> length rest"
    using assms(2) d [of is_digit rest] by auto
  moreover have "length (dropWhile is_digit (tl s)) \<le> length s" for s using d [of is_digit "tl s"] by simp
  ultimately show ?thesis
    using assms(1) by (fastforce simp: lex_number_def Let_def intro: order_trans split: if_splits)
qed

lemma lex_token_cases:
  assumes "lex_token line column ch rest = Inr (k, r)"
  obtains "r = tl rest" | "r = rest" | v where "lex_string rest = Some (v, r)"
  | "lex_number line column (ch # rest) = Inr (k, r)" "ch = CHR ''-'' \<or> is_digit ch"
  | w where "word_rest rest = (w, r)"
proof -
  let ?gte = "ch = CHR ''>'' \<and> next_is (CHR ''='') rest" and ?str = "ch = CHR 0x22"
    and ?num = "ch = CHR ''-'' \<and> rest \<noteq> [] \<and> is_digit (hd rest) \<or> is_digit ch"
  consider ?gte | k' where "\<not> ?gte" "punctuation ch = Some k'" | "\<not> ?gte" "punctuation ch = None" ?str
    | "\<not> ?gte" "punctuation ch = None" "\<not> ?str" ?num | "\<not> ?gte" "punctuation ch = None" "\<not> ?str" "\<not> ?num"
    by (cases "punctuation ch"; blast)
  then show thesis
  proof cases
    case 1
    then show thesis using assms that(1) unfolding lex_token_def by (simp only: if_True simp_thms sum.inject prod.inject)
  next
    case 2
    then show thesis using assms that(2) unfolding lex_token_def
      by (simp only: if_False option.case simp_thms sum.inject prod.inject)
  next
    case 3
    then have "(case lex_string rest of None \<Rightarrow> rejected line column (Text ''unterminated string literal'')
        | Some (v, r) \<Rightarrow> Inr (TkStr v, r)) = Inr (k, r)"
      using assms unfolding lex_token_def by (simp only: if_False if_True option.case simp_thms)
    then show thesis using that(3) by (auto split: option.splits)
  next
    case 4
    then have "lex_number line column (ch # rest) = Inr (k, r)"
      using assms unfolding lex_token_def by (simp only: if_False if_True option.case simp_thms)
    then show thesis using that(4) 4(4) by blast
  next
    case 5
    then show thesis using assms that(5) unfolding lex_token_def
      by (cases "word_rest rest") (simp only: if_False option.case simp_thms Let_def prod.case sum.inject prod.inject)
  qed
qed

lemma lex_token_length: "lex_token line column ch rest = Inr (k, r) \<Longrightarrow> length r \<le> length rest"
  by (erule lex_token_cases) (auto dest: lex_string_length word_rest_length lex_number_length)

text \<open>A word starts with the character that no other case takes, so its text is never empty.\<close>

function lex_from :: "nat \<Rightarrow> nat \<Rightarrow> string \<Rightarrow> token list parsed" where
  "lex_from line idx [] = Inr []"
| "lex_from line idx (ch # rest) =
     (if is_space ch then lex_from line (idx + 1) rest
      else if ch = CHR ''#'' \<or> ch = CHR ''/'' \<and> next_is (CHR ''/'') rest then Inr []
      else pbind (lex_token line (idx + 1) ch rest) (\<lambda>(k, r).
             pbind (lex_from line (idx + 1 + (length rest - length r)) r) (\<lambda>ts.
               Inr (\<lparr>tok_kind = k, tok_column = idx + 1\<rparr> # ts))))"
  by pat_completeness auto
termination
  by (relation "measure (\<lambda>(line, idx, cs). length cs)") (auto dest: lex_token_length)

definition lex_line :: "string \<Rightarrow> nat \<Rightarrow> token list parsed" where
  "lex_line cs line = lex_from line 0 cs"

end
