(* ===== verification/Nex_Parser.thy ===== *)
theory Nex_Parser
  imports Nex_Lexer Heartbeat
begin

text \<open>
  The parser of \<^verbatim>\<open>crates/host/src/nex/parser.rs\<close>, from the tokens of a statement to its syntax tree and from a
  source to a program. An index that the code uses without a check is a panic when it is out of bounds.
  The sub-slices a reactive block collects are separated first and parsed afterwards, in the same order.
\<close>

section \<open>Access to tokens\<close>

definition column :: "token list \<Rightarrow> nat \<Rightarrow> nat" where
  "column ts i = tok_column (ts ! i)"

definition token_at :: "nat \<Rightarrow> token list \<Rightarrow> nat \<Rightarrow> nat \<Rightarrow> string \<Rightarrow> token parsed" where
  "token_at line ts i col m = (if i < length ts then Inr (ts ! i) else rejected line col (Text m))"

definition word_of :: "nat \<Rightarrow> token \<Rightarrow> string parsed" where
  "word_of line t = (case tok_kind t of TkWord w \<Rightarrow> Inr w | k \<Rightarrow> rejected line (tok_column t) (ExpectedWord k))"

definition expect_word :: "nat \<Rightarrow> token list \<Rightarrow> nat \<Rightarrow> string \<Rightarrow> string parsed" where
  "expect_word line ts i m = pbind (token_at line ts i (i + 1) m) (word_of line)"

definition kind_at :: "nat \<Rightarrow> token list \<Rightarrow> nat \<Rightarrow> nat \<Rightarrow> token_kind \<Rightarrow> string \<Rightarrow> unit parsed" where
  "kind_at line ts i col k m =
     pbind (token_at line ts i col m) (\<lambda>t. if tok_kind t = k then Inr () else rejected line (tok_column t) (Text m))"

definition expect_eq :: "nat \<Rightarrow> token list \<Rightarrow> nat \<Rightarrow> string \<Rightarrow> unit parsed" where
  "expect_eq line ts i m = kind_at line ts i (i + 1) TkEq m"

definition keyword_at :: "nat \<Rightarrow> token list \<Rightarrow> nat \<Rightarrow> nat \<Rightarrow> string \<Rightarrow> string \<Rightarrow> unit parsed" where
  "keyword_at line ts i col kw m =
     pbind (token_at line ts i col m) (\<lambda>t. pbind (word_of line t) (\<lambda>w.
       if w = kw then Inr () else rejected line (tok_column t) (Text m)))"

definition ensure_end :: "nat \<Rightarrow> token list \<Rightarrow> nat \<Rightarrow> unit parsed" where
  "ensure_end line ts i =
     (if i < length ts then rejected line (column ts i) (UnexpectedToken (tok_kind (ts ! i))) else Inr ())"

section \<open>Parts of statements\<close>

text \<open>\<^verbatim>\<open>str::split('.')\<close>.\<close>

fun split_dots :: "string \<Rightarrow> string \<Rightarrow> string list" where
  "split_dots acc [] = [acc]"
| "split_dots acc (c # cs) = (if c = CHR ''.'' then acc # split_dots [] cs else split_dots (acc @ [c]) cs)"

definition import_path_ok :: "string \<Rightarrow> bool" where
  "import_path_ok p \<longleftrightarrow> p \<noteq> [] \<and> [] \<notin> set (split_dots [] p) \<and> CHR ''/'' \<notin> set p \<and> CHR 0x5C \<notin> set p"

definition parse_import_path :: "nat \<Rightarrow> token \<Rightarrow> string parsed" where
  "parse_import_path line t =
     pbind (word_of line t) (\<lambda>p.
       if import_path_ok p then Inr p else rejected line (tok_column t) (Text ''invalid import path''))"

definition parse_expr :: "token \<Rightarrow> expr parsed" where
  "parse_expr t =
     (case tok_kind t of
        TkInt v \<Rightarrow> Inr (IntLit v)
      | TkStr s \<Rightarrow> Inr (StrLit s)
      | TkWord w \<Rightarrow> Inr (Ident w)
      | k \<Rightarrow> rejected 0 (tok_column t) (UnexpectedInValue k))"

definition lower_word :: "nat \<Rightarrow> token \<Rightarrow> string parsed" where
  "lower_word line t = pbind (word_of line t) (\<lambda>w. Inr (map lower_char w))"

definition parse_action :: "nat \<Rightarrow> token \<Rightarrow> action parsed" where
  "parse_action line t =
     pbind (lower_word line t) (\<lambda>v.
       if v = ''allow'' then Inr Allow
       else if v = ''deny'' then Inr Deny
       else if v = ''escalate'' then Inr Escalate
       else rejected line (tok_column t) (UnknownAction v))"

definition parse_type :: "nat \<Rightarrow> token \<Rightarrow> nex_type parsed" where
  "parse_type line t =
     pbind (lower_word line t) (\<lambda>v.
       if v = ''i64'' then Inr TyI64
       else if v = ''string'' then Inr TyString
       else rejected line (tok_column t) (UnknownType v))"

definition parse_strength :: "nat \<Rightarrow> token \<Rightarrow> evidence_strength parsed" where
  "parse_strength line t =
     pbind (lower_word line t) (\<lambda>v.
       if v = ''unverifiable'' then Inr Unverifiable
       else if v = ''local'' then Inr Local
       else if v = ''witnessed'' then Inr Witnessed
       else if v = ''signed'' then Inr Signed
       else if v = ''anchored'' then Inr Anchored
       else rejected line (tok_column t) (UnknownStrength v))"

definition parse_bool :: "nat \<Rightarrow> token \<Rightarrow> bool parsed" where
  "parse_bool line t =
     pbind (lower_word line t) (\<lambda>v.
       if v = ''true'' then Inr True
       else if v = ''false'' then Inr False
       else rejected line (tok_column t) (ExpectedBool v))"

section \<open>Simple statements\<close>

definition parse_use :: "nat \<Rightarrow> token list \<Rightarrow> stmt parsed" where
  "parse_use line ts =
     pbind (token_at line ts 1 (column ts 0 + 1) ''expected import path after use'') (\<lambda>t.
     pbind (parse_import_path line t) (\<lambda>p.
     pbind (ensure_end line ts 2) (\<lambda>_. Inr (Use p))))"

definition parse_node :: "nat \<Rightarrow> token list \<Rightarrow> string \<Rightarrow> stmt parsed" where
  "parse_node line ts i =
     pbind (token_at line ts 4 (column ts 3) ''missing value expression after node'') (\<lambda>e.
     pbind (parse_expr e) (\<lambda>v.
     pbind (token_at line ts 5 (tok_column e) ''missing strength after node value'') (\<lambda>s.
     pbind (parse_strength line s) (\<lambda>st.
     pbind (ensure_end line ts 6) (\<lambda>_. Inr (Node i v st))))))"

definition parse_derive :: "nat \<Rightarrow> token list \<Rightarrow> string \<Rightarrow> string \<Rightarrow> stmt parsed" where
  "parse_derive line ts i left =
     pbind (keyword_at line ts 4 (column ts 3) ''derive'' ''expected derive after left identifier'') (\<lambda>_.
     pbind (expect_word line ts 5 ''expected right identifier after derive'') (\<lambda>right.
     pbind (keyword_at line ts 6 (column ts 4) ''as'' ''expected as after right identifier'') (\<lambda>_.
     pbind (token_at line ts 7 (column ts 6) ''missing type after as'') (\<lambda>t.
     pbind (parse_type line t) (\<lambda>ty.
     pbind (ensure_end line ts 8) (\<lambda>_. Inr (Derive i left right ty)))))))"

definition parse_let :: "nat \<Rightarrow> token list \<Rightarrow> stmt parsed" where
  "parse_let line ts =
     pbind (expect_word line ts 1 ''expected identifier after let'') (\<lambda>i.
     pbind (expect_eq line ts 2 ''expected = after identifier'') (\<lambda>_.
     pbind (token_at line ts 3 (column ts 2 + 1) ''expected expression after ='') (\<lambda>next.
       case tok_kind next of
         TkWord v \<Rightarrow> if v = ''node'' then parse_node line ts i else parse_derive line ts i v
       | k \<Rightarrow> rejected line (tok_column next) (ExpectedNodeOrIdentifier k))))"

definition witness_count :: "nat \<Rightarrow> token \<Rightarrow> nat parsed" where
  "witness_count line t =
     (case tok_kind t of
        TkInt v \<Rightarrow>
          if 0 \<le> sint v then Inr (nat (sint v))
          else rejected line (tok_column t) (Text ''witness count must be non-negative'')
      | _ \<Rightarrow> rejected line (tok_column t) (Text ''expected integer witness count''))"

definition parse_attest :: "nat \<Rightarrow> token list \<Rightarrow> stmt parsed" where
  "parse_attest line ts =
     pbind (expect_word line ts 1 ''expected identifier after attest'') (\<lambda>i.
     pbind (keyword_at line ts 2 (column ts 1 + 1) ''with'' ''expected with after identifier'') (\<lambda>_.
     pbind (token_at line ts 3 (column ts 2) ''missing witness count after with'') (\<lambda>t.
     pbind (witness_count line t) (\<lambda>n.
     pbind (keyword_at line ts 4 (column ts 3) ''external'' ''expected external after witness count'') (\<lambda>_.
     pbind (token_at line ts 5 (column ts 4) ''missing bool after external'') (\<lambda>b.
     pbind (parse_bool line b) (\<lambda>external.
     pbind (ensure_end line ts 6) (\<lambda>_. Inr (Attest i n external)))))))))"

definition parse_assert :: "nat \<Rightarrow> token list \<Rightarrow> stmt parsed" where
  "parse_assert line ts =
     pbind (expect_word line ts 1 ''expected identifier after assert'') (\<lambda>i.
     pbind (kind_at line ts 2 (column ts 1 + 1) TkGte ''expected >= after identifier'') (\<lambda>_.
     pbind (token_at line ts 3 (column ts 2) ''missing strength after >='') (\<lambda>t.
     pbind (parse_strength line t) (\<lambda>s.
     pbind (ensure_end line ts 4) (\<lambda>_. Inr (Assert i s))))))"

text \<open>The keyword \<^verbatim>\<open>requires\<close> is compared without regard to case.\<close>

definition parse_act :: "nat \<Rightarrow> token list \<Rightarrow> stmt parsed" where
  "parse_act line ts =
     pbind (expect_word line ts 1 ''expected identifier after act'') (\<lambda>i.
     pbind (expect_eq line ts 2 ''expected = after identifier'') (\<lambda>_.
     pbind (token_at line ts 3 (column ts 2 + 1) ''missing action after ='') (\<lambda>a.
     pbind (parse_action line a) (\<lambda>action.
     pbind (token_at line ts 4 (tok_column a) ''expected requires after action'') (\<lambda>r.
     pbind (lower_word line r) (\<lambda>w.
       if w \<noteq> ''requires'' then rejected line (tok_column r) (Text ''expected requires after action'')
       else
         pbind (token_at line ts 5 (tok_column r) ''missing strength after requires'') (\<lambda>s.
         pbind (parse_strength line s) (\<lambda>req.
         pbind (ensure_end line ts 6) (\<lambda>_. Inr (Act i action req))))))))))"

section \<open>Conditionals\<close>

definition second_condition :: "nat \<Rightarrow> token list \<Rightarrow> (logical_op \<times> string \<times> evidence_strength) option parsed" where
  "second_condition line ts =
     (if 4 < length ts then
        pbind (word_of line (ts ! 4)) (\<lambda>w.
          if w = ''&&'' \<or> w = ''||'' then
            pbind (expect_word line ts 5 ''expected identifier after &&'') (\<lambda>i.
            pbind (kind_at line ts 6 (column ts 5 + 1) TkGte ''expected >= after identifier'') (\<lambda>_.
            pbind (token_at line ts 7 (column ts 6) ''missing strength after >='') (\<lambda>t.
            pbind (parse_strength line t) (\<lambda>s. Inr (Some (if w = ''&&'' then OpAnd else OpOr, i, s))))))
          else Inr None)
      else Inr None)"

definition parse_if :: "nat \<Rightarrow> token list \<Rightarrow> stmt parsed" where
  "parse_if line ts =
     pbind (expect_word line ts 1 ''expected identifier after if'') (\<lambda>i.
     pbind (kind_at line ts 2 (column ts 1 + 1) TkGte ''expected >= after identifier'') (\<lambda>_.
     pbind (token_at line ts 3 (column ts 2) ''missing strength after >='') (\<lambda>t.
     pbind (parse_strength line t) (\<lambda>s.
     pbind (second_condition line ts) (\<lambda>second.
       let ci = (if second = None then 4 else 8) in
       if ci < length ts \<and> tok_kind (ts ! ci) = TkWord '':'' then
         pbind (token_at line ts (ci + 1) (column ts ci) ''expected action after :'') (\<lambda>a.
         pbind (parse_action line a) (\<lambda>action.
           Inr (If \<lparr>left_id = i, comparator = Gte, right_bound = s, cond_op = map_option fst second,
                   right_id = map_option (fst \<circ> snd) second, right_comparator = map_option (\<lambda>_. Gte) second,
                   right_bound2 = map_option (snd \<circ> snd) second\<rparr>
                 [Act i action s] [])))
       else rejected line (tok_column (last ts)) (Text ''expected : after condition in if statement''))))))"

section \<open>Reactions\<close>

text \<open>One action and the index after it.\<close>

definition parse_reactive_action :: "nat \<Rightarrow> token list \<Rightarrow> nat \<Rightarrow> (reactive_action \<times> nat) parsed" where
  "parse_reactive_action line ts i =
     pbind (token_at line ts i (i + 1) ''expected action'') (\<lambda>t.
     pbind (word_of line t) (\<lambda>w.
       if w = ''log'' then
         pbind (token_at line ts (i + 1) (tok_column t) ''expected string after log'') (\<lambda>m.
           case tok_kind m of
             TkStr s \<Rightarrow> Inr (ReactLog s, i + 2)
           | _ \<Rightarrow> rejected line (tok_column m) (Text ''expected string after log''))
       else if w = ''emit'' then
         pbind (token_at line ts (i + 1) (tok_column t) ''expected event name after emit'') (\<lambda>e.
         pbind (word_of line e) (\<lambda>n. Inr (ReactEmit n, i + 2)))
       else if w = ''marcar_inativo'' then
         pbind (token_at line ts (i + 1) (tok_column t) ''expected peer name after marcar_inativo'') (\<lambda>p.
         pbind (word_of line p) (\<lambda>n. Inr (ReactMarkInactive n, i + 2)))
       else if w = ''ajustar_reputacao'' then
         pbind (token_at line ts (i + 1) (tok_column t) ''expected peer name after ajustar_reputacao'') (\<lambda>p.
         pbind (word_of line p) (\<lambda>n.
         pbind (token_at line ts (i + 2) (tok_column p) ''expected delta value'') (\<lambda>d.
           case tok_kind d of
             TkInt v \<Rightarrow> Inr (ReactAdjustReputation n (ucast v), i + 3)
           | _ \<Rightarrow> rejected line (tok_column d) (Text ''expected integer delta''))))
       else rejected line (tok_column t) (UnknownReaction w)))"

lemma reactive_action_advances: "parse_reactive_action line ts i = Inr (a, j) \<Longrightarrow> i < j \<and> i < length ts"
  by (auto simp: parse_reactive_action_def token_at_def pbind_Inr split: if_splits) (auto split: token_kind.splits)

function parse_reactive_actions :: "nat \<Rightarrow> token list \<Rightarrow> nat \<Rightarrow> reactive_action list parsed" where
  "parse_reactive_actions line ts i =
     (if i < length ts then
        pbind (parse_reactive_action line ts i) (\<lambda>(a, j).
          if j < length ts \<and> tok_kind (ts ! j) = TkComma then
            pbind (parse_reactive_actions line ts (j + 1)) (\<lambda>as. Inr (a # as))
          else Inr [a])
      else Inr [])"
  by pat_completeness auto
termination
  by (relation "measure (\<lambda>(line, ts, i). length ts - i)") (auto dest: reactive_action_advances)

text \<open>The threshold of a trigger: the token after the comparison, and its conversion.\<close>

definition parse_heartbeat_trigger :: "nat \<Rightarrow> token list \<Rightarrow> trigger parsed" where
  "parse_heartbeat_trigger line ts =
     pbind (kind_at line ts 2 (column ts 1 + 1) TkGt ''expected > after heartbeat_miss'') (\<lambda>_.
     pbind (token_at line ts 3 (column ts 2) ''missing threshold after >'') (\<lambda>t.
       case tok_kind t of
         TkInt v \<Rightarrow> Inr (OnHeartbeatMiss (ucast v))
       | _ \<Rightarrow> rejected line (tok_column t) (Text ''expected integer threshold'')))"

definition parse_reputation_trigger :: "nat \<Rightarrow> token list \<Rightarrow> trigger parsed" where
  "parse_reputation_trigger line ts =
     pbind (kind_at line ts 2 (column ts 1 + 1) TkLt ''expected < after reputation'') (\<lambda>_.
     pbind (token_at line ts 3 (column ts 2) ''missing threshold after <'') (\<lambda>t.
       case tok_kind t of
         TkFloat f \<Rightarrow> Inr (OnReputationBelow f)
       | TkInt v \<Rightarrow> Inr (OnReputationBelow (f32_bits (sint v < 0) (rat_of_int \<bar>sint v\<bar>)))
       | _ \<Rightarrow> rejected line (tok_column t) (Text ''expected float threshold'')))"

text \<open>The statement \<open>on\<close>; \<open>block\<close> is the outcome of a reactive block, taken after \<^verbatim>\<open>on event\<close>.\<close>

definition parse_on :: "nat \<Rightarrow> token list \<Rightarrow> stmt parsed \<Rightarrow> stmt parsed" where
  "parse_on line ts block =
     pbind (token_at line ts 1 (column ts 0 + 1) ''expected trigger after on'') (\<lambda>t.
     pbind (word_of line t) (\<lambda>w.
       if w = ''event'' then block
       else
         pbind (if w = ''heartbeat_miss'' then parse_heartbeat_trigger line ts
                else if w = ''reputation'' then parse_reputation_trigger line ts
                else if w = ''peer_connected'' then Inr OnPeerConnected
                else if w = ''peer_disconnected'' then Inr OnPeerDisconnected
                else rejected line (tok_column t) (UnknownTrigger w)) (\<lambda>trigger.
         if length ts \<le> 3 then Inl IndexPanic
         else
           pbind (kind_at line ts 4 (column ts 3 + 1) TkColon ''expected : after trigger'') (\<lambda>_.
           pbind (parse_reactive_actions line ts 5) (\<lambda>actions. Inr (On trigger actions))))))"

section \<open>Reactive blocks\<close>

text \<open>An equals sign or a colon; the fallback indexes the token without a check.\<close>

definition eq_or_colon :: "nat \<Rightarrow> token list \<Rightarrow> nat \<Rightarrow> string \<Rightarrow> unit parsed" where
  "eq_or_colon line ts i m =
     (if length ts \<le> i then Inl IndexPanic
      else if tok_kind (ts ! i) = TkEq \<or> tok_kind (ts ! i) = TkColon then Inr ()
      else rejected line (column ts i) (Text m))"

definition parse_event :: "nat \<Rightarrow> token \<Rightarrow> event_type parsed" where
  "parse_event line t =
     pbind (word_of line t) (\<lambda>w.
       if w = ''ZkProofInvalid'' then Inr ZkProofInvalid
       else if w = ''HeartbeatMiss'' then Inr HeartbeatMiss
       else if w = ''MalformedPacket'' then Inr MalformedPacket
       else rejected line (tok_column t) (UnknownEvent w))"

definition block_threshold :: "nat \<Rightarrow> token \<Rightarrow> 32 word parsed" where
  "block_threshold line t =
     (case tok_kind t of
        TkInt v \<Rightarrow>
          let n = ucast v :: 32 word in
          if MAX_REACTIVE_THRESHOLD < unat n then rejected line (tok_column t) (ThresholdAboveLimit n) else Inr n
      | _ \<Rightarrow> rejected line (tok_column t) (Text ''expected integer for threshold''))"

definition block_window :: "nat \<Rightarrow> token \<Rightarrow> u64 parsed" where
  "block_window line t =
     (case tok_kind t of
        TkInt v \<Rightarrow> Inr v
      | _ \<Rightarrow> rejected line (tok_column t) (Text ''expected integer for window''))"

definition this_word :: "nat \<Rightarrow> token list \<Rightarrow> nat \<Rightarrow> string \<Rightarrow> string \<Rightarrow> unit parsed" where
  "this_word line ts i kw m =
     pbind (expect_word line ts i m) (\<lambda>w. if w = kw then Inr () else rejected line (column ts i) (Text m))"

definition block_header :: "nat \<Rightarrow> token list \<Rightarrow> (event_type \<times> 32 word \<times> u64 \<times> string) parsed" where
  "block_header line ts =
     pbind (token_at line ts 2 1 ''expected EventType after event'') (\<lambda>e.
     pbind (parse_event line e) (\<lambda>event.
     pbind (kind_at line ts 3 1 TkLParen ''expected ( after EventType'') (\<lambda>_.
     pbind (this_word line ts 4 ''threshold'' ''expected threshold'') (\<lambda>_.
     pbind (eq_or_colon line ts 5 ''expected : after threshold'') (\<lambda>_.
     pbind (token_at line ts 6 1 ''expected threshold value'') (\<lambda>t.
     pbind (block_threshold line t) (\<lambda>th.
     pbind (kind_at line ts 7 1 TkComma ''expected ,'') (\<lambda>_.
     pbind (this_word line ts 8 ''window'' ''expected window'') (\<lambda>_.
     pbind (eq_or_colon line ts 9 ''expected : after window'') (\<lambda>_.
     pbind (token_at line ts 10 1 ''expected window value'') (\<lambda>w.
     pbind (block_window line w) (\<lambda>window.
     pbind (this_word line ts 11 ''s'' ''expected s after window integer'') (\<lambda>_.
     pbind (kind_at line ts 12 1 TkRParen ''expected )'') (\<lambda>_.
     pbind (this_word line ts 13 ''for'' ''expected for'') (\<lambda>_.
     pbind (expect_word line ts 14 ''expected target identifier'') (\<lambda>target.
     pbind (kind_at line ts 15 1 TkLBrace ''expected {'') (\<lambda>_.
       Inr (event, th, window, target))))))))))))))))))"

text \<open>The statements of a body, up to the first closing brace; without one the last is dropped.\<close>

fun body_segments :: "token list \<Rightarrow> token list \<Rightarrow> token list list" where
  "body_segments cur [] = []"
| "body_segments cur (t # ts) =
     (if tok_kind t = TkRBrace then (if cur = [] then [] else [cur])
      else if tok_kind t = TkNewline then (if cur = [] then body_segments [] ts else cur # body_segments [] ts)
      else body_segments (cur @ [t]) ts)"

lemma segment_length: "s \<in> set (body_segments cur ts) \<Longrightarrow> length s \<le> length cur + length ts"
  by (induction cur ts rule: body_segments.induct) (auto split: if_splits)

fun collect :: "('a \<Rightarrow> 'b parsed) \<Rightarrow> 'a list \<Rightarrow> 'b list parsed" where
  "collect f [] = Inr []"
| "collect f (x # xs) = pbind (f x) (\<lambda>y. pbind (collect f xs) (\<lambda>ys. Inr (y # ys)))"

lemma collect_cong [fundef_cong]: "xs = ys \<Longrightarrow> (\<And>x. x \<in> set ys \<Longrightarrow> f x = g x) \<Longrightarrow> collect f xs = collect g ys"
  by (induction ys arbitrary: xs) auto

section \<open>Statements\<close>

lemma block_header_length: "block_header line ts = Inr h \<Longrightarrow> 15 < length ts"
  by (auto simp: block_header_def kind_at_def token_at_def pbind_Inr split: if_splits)

function parse_statement :: "nat \<Rightarrow> token list \<Rightarrow> stmt parsed" where
  "parse_statement line ts =
     (case ts of
        [] \<Rightarrow> rejected line 1 (Text ''empty statement'')
      | first # _ \<Rightarrow>
          pbind (word_of line first) (\<lambda>kw.
            if kw = ''use'' then parse_use line ts
            else if kw = ''let'' then parse_let line ts
            else if kw = ''attest'' then parse_attest line ts
            else if kw = ''assert'' then parse_assert line ts
            else if kw = ''act'' then parse_act line ts
            else if kw = ''if'' then parse_if line ts
            else if kw = ''on'' then
              parse_on line ts
                (pbind (block_header line ts) (\<lambda>(event, th, window, target).
                 pbind (collect (parse_statement line) (body_segments [] (drop 16 ts))) (\<lambda>body.
                   Inr (ReactiveBlock event th window target body))))
            else rejected line (tok_column first) (UnknownKeyword kw)))"
  by pat_completeness auto
termination
  by (relation "measure (\<lambda>(line, ts). length ts)") (auto dest!: segment_length block_header_length)

declare parse_statement.simps [simp del] parse_reactive_actions.simps [simp del]

section \<open>Programs\<close>

definition NEX_VERSION :: string where
  "NEX_VERSION = ''1.0.0''"

definition strip_prefix :: "string \<Rightarrow> string \<Rightarrow> string option" where
  "strip_prefix p s = (if take (length p) s = p then Some (drop (length p) s) else None)"

definition parse_version_header :: "string \<Rightarrow> string option" where
  "parse_version_header l =
     (case strip_prefix ''//'' l of
        None \<Rightarrow> None
      | Some h \<Rightarrow> map_option trim (strip_prefix ''nex-version:'' (dropWhile is_space h)))"

definition is_comment_line :: "string \<Rightarrow> bool" where
  "is_comment_line l \<longleftrightarrow> next_is (CHR ''#'') l \<or> take 2 l = ''//''"

record parse_state =
  statements :: "stmt list"
  first_seen :: bool
  block_tokens :: "token list"
  brace_depth :: int
  start_line :: nat

definition braces :: "token_kind \<Rightarrow> token list \<Rightarrow> int" where
  "braces k ts = int (length (filter (\<lambda>t. tok_kind t = k) ts))"

text \<open>The tokens of one line: they complete a statement when no brace is open, or wait for the next line.\<close>

definition add_tokens :: "parse_state \<Rightarrow> nat \<Rightarrow> token list \<Rightarrow> parse_state parsed" where
  "add_tokens P n ts =
     (let start = (if block_tokens P = [] then n else start_line P);
          depth = brace_depth P + braces TkLBrace ts - braces TkRBrace ts;
          toks = block_tokens P @ ts
      in if depth = 0 then
           pbind (parse_statement start toks) (\<lambda>s.
             Inr \<lparr>statements = statements P @ [s], first_seen = True, block_tokens = [], brace_depth = depth, start_line = start\<rparr>)
         else Inr (P\<lparr>block_tokens := toks @ [\<lparr>tok_kind = TkNewline, tok_column = 0\<rparr>], brace_depth := depth,
                     start_line := start\<rparr>))"

definition parse_line :: "parse_state \<Rightarrow> nat \<Rightarrow> string \<Rightarrow> parse_state parsed" where
  "parse_line P n raw =
     (let trimmed = dropWhile is_space raw in
      if trimmed = [] then Inr P
      else if \<not> first_seen P \<and> brace_depth P = 0 \<and> parse_version_header trimmed \<noteq> None then
        if parse_version_header trimmed \<noteq> Some NEX_VERSION
        then Inl (Rejected (UnsupportedVersion (the (parse_version_header trimmed)) NEX_VERSION))
        else Inr P
      else if is_comment_line trimmed then Inr P
      else pbind (lex_line raw n) (\<lambda>ts. if ts = [] then Inr P else add_tokens P n ts))"

fun parse_lines_from :: "nat \<Rightarrow> parse_state \<Rightarrow> string list \<Rightarrow> parse_state parsed" where
  "parse_lines_from n P [] = Inr P"
| "parse_lines_from n P (l # ls) = pbind (parse_line P n l) (\<lambda>P. parse_lines_from (n + 1) P ls)"

definition parse_start :: parse_state where
  "parse_start = \<lparr>statements = [], first_seen = False, block_tokens = [], brace_depth = 0, start_line = 0\<rparr>"

definition parse :: "string \<Rightarrow> stmt list parsed" where
  "parse source =
     pbind (parse_lines_from 1 parse_start (text_lines [] source)) (\<lambda>P.
       if brace_depth P \<noteq> 0 then rejected (start_line P) 0 (Text ''unclosed block'') else Inr (statements P))"

end
