(* ===== verification/Nex_Reactive.thy ===== *)
theory Nex_Reactive
  imports Nex_Parser Reputation Secure_Message Peer_Lists
begin

text \<open>
  Reactive rules: the layers of \<^verbatim>\<open>crates/host/src/nex/layers.rs\<close>, the engine of \<^verbatim>\<open>nex/reactive.rs\<close>,
  the executor of \<^verbatim>\<open>nex/action_executor.rs\<close> and the monitor of \<^verbatim>\<open>network/heartbeat.rs\<close>, which drives both.
  An \<^verbatim>\<open>f32\<close> is its bit pattern; a socket address is its text, and its IP address is a parameter.
\<close>

section \<open>Layers\<close>

datatype nex_layer = Basic | Intermediate | Advanced

fun layer_rank :: "nex_layer \<Rightarrow> nat" where
  "layer_rank Basic = 0"
| "layer_rank Intermediate = 1"
| "layer_rank Advanced = 2"

instantiation nex_layer :: linorder
begin

definition less_eq_nex_layer :: "nex_layer \<Rightarrow> nex_layer \<Rightarrow> bool" where
  "less_eq_nex_layer a b \<longleftrightarrow> layer_rank a \<le> layer_rank b"

definition less_nex_layer :: "nex_layer \<Rightarrow> nex_layer \<Rightarrow> bool" where
  "less_nex_layer a b \<longleftrightarrow> layer_rank a < layer_rank b"

instance
proof
  fix x y :: nex_layer
  show "x \<le> y \<Longrightarrow> y \<le> x \<Longrightarrow> x = y" by (cases x; cases y) (simp_all add: less_eq_nex_layer_def)
qed (auto simp: less_eq_nex_layer_def less_nex_layer_def)

end

fun layer_step :: "stmt \<Rightarrow> nex_layer \<Rightarrow> nex_layer" where
  "layer_step (If c t e) l = (if l < Intermediate then Intermediate else l)"
| "layer_step (On tr acts) l = (if l < Advanced then Advanced else l)"
| "layer_step _ l = l"

definition required_layer :: "stmt list \<Rightarrow> nex_layer" where
  "required_layer ss = fold layer_step ss Basic"

datatype layer_error = InsufficientLayer nex_layer nex_layer

definition validate_layer :: "stmt list \<Rightarrow> nex_layer \<Rightarrow> layer_error + unit" where
  "validate_layer ss available =
     (let required = required_layer ss
      in if available < required then Inl (InsufficientLayer required available) else Inr ())"

section \<open>Events, rules and the engine\<close>

datatype network_event =
    EvHeartbeatMiss "32 word"
  | EvReputationBelow "32 word"
  | EvPeerConnected string
  | EvPeerDisconnected string
  | EvHandshakeStarted string
  | EvHandshakeCompleted string string
  | EvHandshakeFailed string string
  | EvSessionCreated string
  | EvSessionRemoved string
  | EvZkProofInvalid string
  | EvMalformedPacket string

datatype executable_action =
    LogLine string
  | EmitEvent string
  | MarkInactive string
  | AdjustReputation string "32 word"
  | RunNexBlock string "stmt list"

datatype reactive_rule =
    Legacy trigger "reactive_action list"
  | Block event_type "32 word" u64 string "stmt list"

record evaluation_result =
  matched :: bool
  result_actions :: "executable_action list"

datatype rule_error = LayerTooLow nex_layer nex_layer

record reactive_engine =
  engine_rules :: "reactive_rule list"
  engine_layer :: nex_layer

definition with_layer :: "nex_layer \<Rightarrow> reactive_engine" where
  "with_layer l = \<lparr>engine_rules = [], engine_layer = l\<rparr>"

definition engine_new :: reactive_engine where
  "engine_new = with_layer Basic"

definition add_rule :: "reactive_engine \<Rightarrow> reactive_rule \<Rightarrow> (rule_error + unit) \<times> reactive_engine" where
  "add_rule E r =
     (if engine_layer E < Advanced then (Inl (LayerTooLow Advanced (engine_layer E)), E)
      else (Inr (), E\<lparr>engine_rules := engine_rules E @ [r]\<rparr>))"

definition engine_clear :: "reactive_engine \<Rightarrow> reactive_engine" where
  "engine_clear E = E\<lparr>engine_rules := []\<rparr>"

fun statement_rule :: "stmt \<Rightarrow> reactive_rule option" where
  "statement_rule (On tr acts) = Some (Legacy tr acts)"
| "statement_rule (ReactiveBlock ev th w target body) = Some (Block ev th w target body)"
| "statement_rule _ = None"

definition load_statement :: "stmt \<Rightarrow> nat \<times> reactive_engine \<Rightarrow> nat \<times> reactive_engine" where
  "load_statement s = (\<lambda>(count, E).
     case statement_rule s of
       None \<Rightarrow> (count, E)
     | Some r \<Rightarrow> (case add_rule E r of (Inr _, E') \<Rightarrow> (count + 1, E') | (Inl _, E') \<Rightarrow> (count, E')))"

definition load_from_program :: "reactive_engine \<Rightarrow> stmt list \<Rightarrow> nat \<times> reactive_engine" where
  "load_from_program E p = fold load_statement p (0, E)"

text \<open>The content of the file is \<open>None\<close> when it cannot be read.\<close>

datatype load_error = ReadFailed | ParseFailed parse_failure

definition load_from_file :: "reactive_engine \<Rightarrow> string option \<Rightarrow> (load_error + nat) \<times> reactive_engine" where
  "load_from_file E content =
     (case content of
        None \<Rightarrow> (Inl ReadFailed, E)
      | Some source \<Rightarrow>
          (case parse source of
             Inl e \<Rightarrow> (Inl (ParseFailed e), E)
           | Inr p \<Rightarrow> (let (n, E') = load_from_program E p in (Inr n, E'))))"

text \<open>The order of \<^verbatim>\<open>f32\<close>: nothing is below or above a NaN, and the zeros are equal.\<close>

definition f32_nan :: "32 word \<Rightarrow> bool" where
  "f32_nan w \<longleftrightarrow> 0x7F800000 < take_bit 31 w"

definition f32_key :: "32 word \<Rightarrow> int" where
  "f32_key w = (if bit w 31 then - uint (take_bit 31 w) else uint w)"

definition f32_less :: "32 word \<Rightarrow> 32 word \<Rightarrow> bool" where
  "f32_less v w \<longleftrightarrow> \<not> f32_nan v \<and> \<not> f32_nan w \<and> f32_key v < f32_key w"

fun matches_event :: "event_type \<Rightarrow> network_event \<Rightarrow> string option" where
  "matches_event ZkProofInvalid (EvZkProofInvalid p) = Some p"
| "matches_event MalformedPacket (EvMalformedPacket p) = Some p"
| "matches_event _ _ = None"

fun matches_trigger :: "trigger \<Rightarrow> network_event \<Rightarrow> bool" where
  "matches_trigger (OnHeartbeatMiss th) (EvHeartbeatMiss c) \<longleftrightarrow> th \<le> c"
| "matches_trigger (OnReputationBelow th) (EvReputationBelow v) \<longleftrightarrow> f32_less v th"
| "matches_trigger OnPeerConnected (EvPeerConnected _) \<longleftrightarrow> True"
| "matches_trigger OnPeerDisconnected (EvPeerDisconnected _) \<longleftrightarrow> True"
| "matches_trigger OnHandshakeCompleted (EvHandshakeCompleted _ _) \<longleftrightarrow> True"
| "matches_trigger OnHandshakeFailed (EvHandshakeFailed _ _) \<longleftrightarrow> True"
| "matches_trigger OnSessionCreated (EvSessionCreated _) \<longleftrightarrow> True"
| "matches_trigger OnSessionRemoved (EvSessionRemoved _) \<longleftrightarrow> True"
| "matches_trigger _ _ \<longleftrightarrow> False"

fun prepare_action :: "reactive_action \<Rightarrow> network_event \<Rightarrow> executable_action option" where
  "prepare_action (ReactLog m) ev = Some (LogLine m)"
| "prepare_action (ReactEmit e) ev = Some (EmitEvent e)"
| "prepare_action (ReactMarkInactive p) ev =
     (case ev of EvPeerDisconnected i \<Rightarrow> Some (MarkInactive i) | _ \<Rightarrow> Some (MarkInactive p))"
| "prepare_action (ReactAdjustReputation p d) ev =
     (case ev of EvReputationBelow _ \<Rightarrow> Some (AdjustReputation p d) | _ \<Rightarrow> Some (AdjustReputation p d))"

fun evaluate_rule :: "network_event \<Rightarrow> reactive_rule \<Rightarrow> evaluation_result \<Rightarrow> evaluation_result" where
  "evaluate_rule ev (Legacy tr acts) R =
     (if matches_trigger tr ev
      then R\<lparr>matched := True, result_actions := result_actions R @ List.map_filter (\<lambda>a. prepare_action a ev) acts\<rparr>
      else R)"
| "evaluate_rule ev (Block et th w target body) R =
     (case matches_event et ev of
        Some p \<Rightarrow> R\<lparr>matched := True, result_actions := result_actions R @ [RunNexBlock p body]\<rparr>
      | None \<Rightarrow> R)"

definition evaluate :: "reactive_engine \<Rightarrow> network_event \<Rightarrow> evaluation_result" where
  "evaluate E ev = fold (evaluate_rule ev) (engine_rules E) \<lparr>matched = False, result_actions = []\<rparr>"

section \<open>The texts of the engine\<close>

fun layer_text :: "nex_layer \<Rightarrow> string" where
  "layer_text Basic = ''basic''"
| "layer_text Intermediate = ''intermediate''"
| "layer_text Advanced = ''advanced''"

fun layer_error_text :: "layer_error \<Rightarrow> string" where
  "layer_error_text (InsufficientLayer required available) =
     ''program requires '' @ layer_text required @ '' layer, but only '' @ layer_text available @ '' is available''"

fun rule_error_text :: "rule_error \<Rightarrow> string" where
  "rule_error_text (LayerTooLow required current) =
     ''reactive rules require '' @ layer_text required @ '' layer, but current is '' @ layer_text current"

text \<open>Printing an \<^verbatim>\<open>f32\<close> is a parameter.\<close>

fun event_text :: "(32 word \<Rightarrow> string) \<Rightarrow> network_event \<Rightarrow> string" where
  "event_text show_f32 (EvHeartbeatMiss c) = ''heartbeat_miss('' @ nat_text (unat c) @ '')''"
| "event_text show_f32 (EvReputationBelow v) = ''reputation_below('' @ show_f32 v @ '')''"
| "event_text show_f32 (EvPeerConnected i) = ''peer_connected('' @ i @ '')''"
| "event_text show_f32 (EvPeerDisconnected i) = ''peer_disconnected('' @ i @ '')''"
| "event_text show_f32 (EvHandshakeStarted a) = ''handshake_started('' @ a @ '')''"
| "event_text show_f32 (EvHandshakeCompleted a i) = ''handshake_completed('' @ a @ '','' @ i @ '')''"
| "event_text show_f32 (EvHandshakeFailed a r) = ''handshake_failed('' @ a @ '','' @ r @ '')''"
| "event_text show_f32 (EvSessionCreated a) = ''session_created('' @ a @ '')''"
| "event_text show_f32 (EvSessionRemoved a) = ''session_removed('' @ a @ '')''"
| "event_text show_f32 (EvZkProofInvalid p) = ''zk_proof_invalid('' @ p @ '')''"
| "event_text show_f32 (EvMalformedPacket p) = ''malformed_packet('' @ p @ '')''"

fun executable_text :: "executable_action \<Rightarrow> string" where
  "executable_text (LogLine m) = ''log('' @ [CHR 0x22] @ m @ [CHR 0x22] @ '')''"
| "executable_text (EmitEvent e) = ''emit('' @ e @ '')''"
| "executable_text (MarkInactive p) = ''mark_inactive('' @ p @ '')''"
| "executable_text (AdjustReputation p d) = ''adjust_reputation('' @ p @ '', delta='' @ int_text (sint d) @ '')''"
| "executable_text (RunNexBlock target body) = ''run_nex_block('' @ target @ '')''"

section \<open>The executor\<close>

record peer_change =
  pc_peer :: string
  pc_change :: string

record reputation_change =
  rc_peer :: string
  rc_delta :: "32 word"
  rc_new_value :: "32 word"

record execution_report =
  logs :: "string list"
  emissions :: "string list"
  peer_changes :: "peer_change list"
  reputation_changes :: "reputation_change list"

record exec_state =
  ex_states :: peer_states
  ex_reputation :: reputation_store
  ex_membrane :: "blacklist option"
  ex_report :: execution_report

text \<open>
  What the executor reads: the addresses of the peers, the IP address of an address with its text, the hash of
  the membrane. A range of the Rust loop is empty when its bound is not positive; the negation wraps.
\<close>

record exec_env =
  peer_addrs :: "string \<rightharpoonup> addr"
  ip_of :: "addr \<Rightarrow> bytes"
  ip_text :: "addr \<Rightarrow> string"
  ip_hash :: "bytes \<Rightarrow> bytes"

definition adjust_node :: "32 word \<Rightarrow> nat \<Rightarrow> node_reputation \<Rightarrow> node_reputation" where
  "adjust_node d now r =
     (if 0 < sint d then ((\<lambda>r. note_success r now) ^^ nat (sint d)) r
      else ((\<lambda>r. note_failure r now) ^^ nat (sint (- d))) r)"

fun execute_action :: "exec_env \<Rightarrow> nat \<Rightarrow> executable_action \<Rightarrow> exec_state \<Rightarrow> exec_state" where
  "execute_action V now (LogLine m) S = S\<lparr>ex_report := (ex_report S)\<lparr>logs := logs (ex_report S) @ [m]\<rparr>\<rparr>"
| "execute_action V now (EmitEvent e) S = S\<lparr>ex_report := (ex_report S)\<lparr>emissions := emissions (ex_report S) @ [e]\<rparr>\<rparr>"
| "execute_action V now (MarkInactive p) S =
     (case peer_addrs V p of
        None \<Rightarrow> S
      | Some a \<Rightarrow>
          (case map_of (ex_states S) a of
             None \<Rightarrow> S
           | Some st \<Rightarrow>
               S\<lparr>ex_states := AList.update a (record_miss st) (ex_states S),
                 ex_report := (ex_report S)\<lparr>peer_changes :=
                   peer_changes (ex_report S) @ [\<lparr>pc_peer = p, pc_change = ''marked_inactive''\<rparr>]\<rparr>\<rparr>))"
| "execute_action V now (AdjustReputation p d) S =
     (let (r, store) = get_or_create (ex_reputation S) p now
      in S\<lparr>ex_reputation := AList.update p (adjust_node d now r) store,
           ex_report := (ex_report S)\<lparr>reputation_changes :=
             reputation_changes (ex_report S) @ [\<lparr>rc_peer = p, rc_delta = d, rc_new_value = 0\<rparr>]\<rparr>\<rparr>)"
| "execute_action V now (RunNexBlock target body) S =
     (case peer_addrs V target of
        None \<Rightarrow> S
      | Some a \<Rightarrow>
          (case ex_membrane S of
             None \<Rightarrow> S
           | Some B \<Rightarrow>
               S\<lparr>ex_membrane := Some (ban_ip (ip_hash V) B (ip_of V a)),
                 ex_report := (ex_report S)\<lparr>logs := logs (ex_report S) @
                   [''Membrane Enforced: '' @ ip_text V a @ '' banned at socket level'']\<rparr>\<rparr>))"

definition empty_report :: execution_report where
  "empty_report = \<lparr>logs = [], emissions = [], peer_changes = [], reputation_changes = []\<rparr>"

definition execute ::
    "exec_env \<Rightarrow> nat \<Rightarrow> executable_action list \<Rightarrow> peer_states \<Rightarrow> reputation_store \<Rightarrow> blacklist option \<Rightarrow> exec_state" where
  "execute V now acts T R M =
     fold (execute_action V now) acts
       \<lparr>ex_states = T, ex_reputation = R, ex_membrane = M, ex_report = empty_report\<rparr>"

section \<open>The monitor\<close>

text \<open>The default rules of \<^verbatim>\<open>main.rs\<close>, and the choice of rules at the start.\<close>

definition add_default_rules :: "reactive_engine \<Rightarrow> reactive_engine" where
  "add_default_rules E =
     snd (add_rule (snd (add_rule E (Legacy (OnHeartbeatMiss 3) [ReactLog ''Peer possivelmente inativo''])))
       (Legacy (OnHeartbeatMiss 5) [ReactMarkInactive ''default'']))"

text \<open>\<open>nex_rules\<close> is the variable \<^verbatim>\<open>NEXOIA_NEX_RULES\<close>, with the content of the file it names.\<close>

definition starting_engine :: "reactive_rule list \<Rightarrow> string option option \<Rightarrow> reactive_engine" where
  "starting_engine checkpoint_rules nex_rules =
     (let E = with_layer Advanced
      in if checkpoint_rules \<noteq> [] then fold (\<lambda>r E. snd (add_rule E r)) checkpoint_rules E
         else case nex_rules of
           Some content \<Rightarrow>
             (case load_from_file E content of (Inr n, E') \<Rightarrow> E' | (Inl e, E') \<Rightarrow> add_default_rules E')
         | None \<Rightarrow> add_default_rules E)"

text \<open>What the monitor of the heartbeats works on, and one round of it.\<close>

record monitor_state =
  mon_sessions :: session_table
  mon_states :: peer_states
  mon_trusted :: trusted_list
  mon_reputation :: reputation_store

definition monitor_event :: "int \<Rightarrow> addr \<times> net_peer_state \<Rightarrow> network_event option" where
  "monitor_event now = (\<lambda>(a, p).
     if is_inactive p 300 now then Some (EvPeerDisconnected (''peer_'' @ a))
     else if 3 \<le> consecutive_misses p \<and> should_reconnect p now then Some (EvHeartbeatMiss (consecutive_misses p))
     else if 2 \<le> consecutive_misses p then Some (EvHeartbeatMiss (consecutive_misses p))
     else None)"

definition monitor_events :: "peer_states \<Rightarrow> int \<Rightarrow> network_event list" where
  "monitor_events T now = List.map_filter (monitor_event now) T"

definition peer_addrs_map :: "trusted_list \<Rightarrow> (string \<rightharpoonup> addr)" where
  "peer_addrs_map L = fold (\<lambda>(a, p) m. m(tp_node_id p \<mapsto> tp_addr p)) (tl_peers L) Map.empty"

definition react :: "exec_env \<Rightarrow> reactive_engine \<Rightarrow> nat \<Rightarrow> network_event \<Rightarrow> peer_states \<times> reputation_store \<Rightarrow> peer_states \<times> reputation_store" where
  "react V E now ev = (\<lambda>(T, R).
     let result = evaluate E ev
     in if matched result
        then let S = execute V now (result_actions result) T R None in (ex_states S, ex_reputation S)
        else (T, R))"

definition reconnect_all :: "int \<Rightarrow> string list \<Rightarrow> peer_states \<Rightarrow> peer_states" where
  "reconnect_all now again T =
     fold (\<lambda>a T. case map_of T a of Some p \<Rightarrow> AList.update a (schedule_reconnect p now) T | None \<Rightarrow> T) again T"

definition monitor_round :: "exec_env \<Rightarrow> reactive_engine \<Rightarrow> nat \<Rightarrow> monitor_state \<Rightarrow> monitor_state" where
  "monitor_round V E now M =
     (let gone = monitor_remove (mon_states M) (int now);
          again = monitor_reconnect (mon_states M) (int now);
          V = V\<lparr>peer_addrs := peer_addrs_map (mon_trusted M)\<rparr>;
          (T, R) = fold (react V E now) (monitor_events (mon_states M) (int now)) (mon_states M, mon_reputation M);
          L = fold (\<lambda>a L. snd (trusted_remove L a)) gone (mon_trusted M);
          T = fold AList.delete gone T;
          T = reconnect_all (int now) again T
      in M\<lparr>mon_sessions := sessions_cleanup (mon_sessions M) 300 now, mon_states := T, mon_trusted := L, mon_reputation := R\<rparr>)"

end
