(* ===== verification/Listener.thy ===== *)
theory Listener
  imports Epa Peer_Lists Heartbeat Reputation Nex_Reactive
begin

text \<open>
  The message loop of \<^verbatim>\<open>crates/host/src/network/handshake_runner.rs\<close>, with the pending handshakes
  of \<^verbatim>\<open>network/handshake.rs\<close>, the key exchange of \<^verbatim>\<open>network/crypto.rs\<close> and the connection to
  bootstrap peers and the cleanup of \<^verbatim>\<open>main.rs\<close>, and with the tasks that share its tables: the sender
  and the monitor of \<^verbatim>\<open>network/heartbeat.rs\<close> and the announcements of \<^verbatim>\<open>network/listener.rs\<close>.
  One handler per message. A handler ends the loop when the
  source returns from the function, panics, or waits for a lock it holds; otherwise the
  loop goes on. Cryptography and JSON are parameters; random values and clocks are inputs of a step.
\<close>

section \<open>Library functions and identities\<close>

record net_crypto = epa_crypto +
  kem_seed_ok :: "bytes \<Rightarrow> bool"
  kem_encapsulate :: "bytes \<Rightarrow> bytes \<Rightarrow> bytes \<times> bytes"
  kem_decapsulate :: "bytes \<Rightarrow> bytes \<Rightarrow> bytes option"
  dh_public :: "bytes \<Rightarrow> bytes"
  dh_shared :: "bytes \<Rightarrow> bytes \<Rightarrow> bytes"
  hkdf :: "bytes \<Rightarrow> bytes"
  aead_encrypt :: cipher
  aead_decrypt :: cipher
  opens_payload :: "bytes \<Rightarrow> bytes \<Rightarrow> bool"
  utf8_lossy :: "bytes \<Rightarrow> bytes"
  parse_address :: "string \<Rightarrow> addr option"
  ack_json :: "string \<Rightarrow> bytes"

record kem_pair =
  kem_ek :: bytes
  kem_seed :: bytes

record node_identity =
  ni_node_id :: string
  ni_public_key :: string
  ni_sign :: "bytes \<Rightarrow> bytes"
  ni_enc_public :: bytes
  ni_kem :: kem_pair

text \<open>What a step takes from the outside: clocks and random values.\<close>

record step_inputs =
  mono_ms :: nat
  utc_ms :: nat
  utc_ns :: int
  fresh_nonce :: "nat \<Rightarrow> bytes"
  fresh_secret :: "nat \<Rightarrow> bytes"
  kem_random :: bytes
  message_nonce :: bytes

section \<open>Key exchange\<close>

definition kem_from_bytes :: "('x) net_crypto_scheme \<Rightarrow> bytes \<Rightarrow> bytes \<Rightarrow> kem_pair option" where
  "kem_from_bytes C ek seed = (if kem_seed_ok C seed then Some \<lparr>kem_ek = ek, kem_seed = seed\<rparr> else None)"

text \<open>Both operations rebuild the decapsulation key from the seed; encapsulation is to its own public half.\<close>

definition encapsulate :: "('x) net_crypto_scheme \<Rightarrow> kem_pair \<Rightarrow> bytes \<Rightarrow> (bytes \<times> bytes) option" where
  "encapsulate C k r = (if kem_seed_ok C (kem_seed k) then Some (kem_encapsulate C (kem_seed k) r) else None)"

definition decapsulate :: "('x) net_crypto_scheme \<Rightarrow> kem_pair \<Rightarrow> bytes \<Rightarrow> bytes option" where
  "decapsulate C k ct = (if kem_seed_ok C (kem_seed k) then kem_decapsulate C (kem_seed k) ct else None)"

definition derive_hybrid_session_key :: "('x) net_crypto_scheme \<Rightarrow> bytes \<Rightarrow> bytes \<Rightarrow> bytes \<Rightarrow> bytes \<Rightarrow> bytes" where
  "derive_hybrid_session_key C x25519 ml_kem nl nr = hkdf C (x25519 @ ml_kem @ nl @ nr)"

section \<open>Pending handshakes\<close>

datatype handshake_phase = HelloReceived | ChallengeSent | ResponseReceived | Complete | HsFailed string

record pending_handshake =
  hs_phase :: handshake_phase
  remote_addr :: addr
  remote_node_id :: "string option"
  remote_ed25519_pubkey :: "string option"
  remote_x25519_pubkey :: "bytes option"
  remote_ml_kem_ek :: "bytes option"
  hs_local_nonce :: bytes
  hs_remote_nonce :: "bytes option"
  challenge_hash :: "string option"
  challenge_timestamp :: "string option"
  ml_kem_ciphertext :: "bytes option"
  ephemeral_secret :: "bytes option"
  ephemeral_public :: "bytes option"
  hs_session_key :: "bytes option"
  created_at :: nat

text \<open>\<^verbatim>\<open>new_responder\<close> draws the secret itself, \<^verbatim>\<open>new_initiator\<close> is given one; the records agree.\<close>

definition pending_new :: "('x) net_crypto_scheme \<Rightarrow> addr \<Rightarrow> bytes \<Rightarrow> bytes \<Rightarrow> nat \<Rightarrow> pending_handshake" where
  "pending_new C a nonce secret now =
     \<lparr>hs_phase = HelloReceived, remote_addr = a, remote_node_id = None, remote_ed25519_pubkey = None,
      remote_x25519_pubkey = None, remote_ml_kem_ek = None, hs_local_nonce = nonce, hs_remote_nonce = None,
      challenge_hash = None, challenge_timestamp = None, ml_kem_ciphertext = None,
      ephemeral_secret = Some secret, ephemeral_public = Some (dh_public C secret), hs_session_key = None,
      created_at = now\<rparr>"

definition pending_expired :: "pending_handshake \<Rightarrow> nat \<Rightarrow> nat \<Rightarrow> bool" where
  "pending_expired h timeout now \<longleftrightarrow> timeout < now - created_at h"

definition MAX_PENDING_HANDSHAKES :: nat where "MAX_PENDING_HANDSHAKES = 1024"
definition MAX_EPA_ENTRIES :: nat where "MAX_EPA_ENTRIES = 10000"

section \<open>Messages and the state of the node\<close>

datatype net_message =
    MsgEPA shared_epa
  | Ping string
  | Pong string
  | Discover string string
  | MsgHeartbeat string string
  | HeartbeatAck string
  | PeerExchange string "string list"
  | Hello string string bytes bytes bytes
  | Challenge string string
  | ChallengeResponse bytes bytes bytes
  | SessionKeyExchange bytes bytes bytes
  | SyncEpoch string bytes
  | SessionKeyConfirm bytes
  | MsgSecure secure_message

datatype loop_status = Running | Returned | Panicked | Deadlocked

text \<open>
  Where the heartbeat tasks are: each holds a lock for one step and keeps what it read there in local variables until
  its next step.
\<close>

datatype sender_task =
    SenderIdle
  | SenderSent "addr list"
  | SenderExchanged "addr list"

datatype monitor_task =
    MonitorIdle
  | MonitorCleaned
  | MonitorCollected "addr list" "addr list" "network_event list"
  | MonitorReacting "string \<rightharpoonup> addr" "addr list" "addr list" "network_event list"
  | MonitorReconnecting "addr list"

record listener =
  status :: loop_status
  pending :: "(addr \<times> pending_handshake) list"
  sessions :: session_table
  trusted :: trusted_list
  known_peers :: peer_list
  states :: peer_states
  epas :: "shared_epa list"
  reputations :: reputation_store
  tasks :: "shared_epa list"
  sent :: "(net_message \<times> addr) list"
  sender :: sender_task
  exchange_counter :: "32 word"
  monitor :: monitor_task
  mon_engine :: reactive_engine

definition send_to :: "listener \<Rightarrow> net_message \<Rightarrow> addr \<Rightarrow> listener" where
  "send_to L m a = L\<lparr>sent := sent L @ [(m, a)]\<rparr>"

definition stop_loop :: "listener \<Rightarrow> loop_status \<Rightarrow> listener" where
  "stop_loop L s = L\<lparr>status := s\<rparr>"

definition put_pending :: "listener \<Rightarrow> addr \<Rightarrow> pending_handshake \<Rightarrow> listener" where
  "put_pending L a h = L\<lparr>pending := AList.update a h (pending L)\<rparr>"

definition drop_pending :: "listener \<Rightarrow> addr \<Rightarrow> listener" where
  "drop_pending L a = L\<lparr>pending := AList.delete a (pending L)\<rparr>"

section \<open>Handlers of the handshake\<close>

definition on_hello ::
  "('x) net_crypto_scheme \<Rightarrow> step_inputs \<Rightarrow> listener \<Rightarrow> addr \<Rightarrow> string \<Rightarrow> string \<Rightarrow> bytes \<Rightarrow> bytes \<Rightarrow> bytes \<Rightarrow> listener" where
  "on_hello C inp L a node_id pubkey x25519 ek nonce =
     (let hs = (pending_new C a (fresh_nonce inp 0) (fresh_secret inp 0) (mono_ms inp))
                 \<lparr>remote_node_id := Some node_id, remote_ed25519_pubkey := Some pubkey\<rparr>
      in if length x25519 \<noteq> 32 then stop_loop L Panicked
         else
           let ts = show_time C (utc_ns inp);
               challenge = canonical_hash C (node_id @ '':'' @ ts @ '':'' @ a);
               hs = hs\<lparr>remote_x25519_pubkey := Some x25519, hs_remote_nonce := Some nonce, remote_ml_kem_ek := Some ek,
                       challenge_hash := Some challenge, challenge_timestamp := Some ts, hs_phase := ChallengeSent\<rparr>
           in if MAX_PENDING_HANDSHAKES \<le> length (pending L) then L
              else send_to (put_pending L a hs) (Challenge challenge ts) a)"

definition on_challenge ::
  "node_identity \<Rightarrow> listener \<Rightarrow> addr \<Rightarrow> string \<Rightarrow> string \<Rightarrow> listener" where
  "on_challenge N L a challenge ts =
     (case map_of (pending L) a of
        None \<Rightarrow> L
      | Some hs \<Rightarrow>
          let signature = ni_sign N (string_bytes (challenge @ '':'' @ ts));
              key = (case ephemeral_public hs of Some k \<Rightarrow> k | None \<Rightarrow> ni_enc_public N);
              L = send_to L (ChallengeResponse signature (hs_local_nonce hs) key) a
          in put_pending L a (hs\<lparr>hs_phase := ChallengeSent\<rparr>))"

text \<open>The labelled block of the third phase: an error removes the pending handshake.\<close>

definition check_response ::
  "('x) net_crypto_scheme \<Rightarrow> node_identity \<Rightarrow> step_inputs \<Rightarrow> pending_handshake \<Rightarrow> bytes \<Rightarrow> bytes \<Rightarrow> bytes \<Rightarrow>
     string + pending_handshake \<times> net_message" where
  "check_response C N inp hs signature nonce x25519 =
     (case remote_ed25519_pubkey hs of
        None \<Rightarrow> Inl ''missing remote Ed25519 pubkey''
      | Some pubkey \<Rightarrow>
      case challenge_hash hs of
        None \<Rightarrow> Inl ''missing challenge hash''
      | Some challenge \<Rightarrow>
      case challenge_timestamp hs of
        None \<Rightarrow> Inl ''missing challenge timestamp''
      | Some ts \<Rightarrow>
      if \<not> signature_valid (epa_crypto.truncate C) pubkey (string_bytes (challenge @ '':'' @ ts)) signature
      then Inl ''Invalid Ed25519 signature''
      else if length x25519 \<noteq> 32 then Inl ''Invalid x25519 pubkey length''
      else
        case remote_ml_kem_ek hs of
          None \<Rightarrow> Inl ''No ML-KEM ek''
        | Some ek \<Rightarrow>
        case kem_from_bytes C ek [] of
          None \<Rightarrow> Inl ''ML-KEM key reconstruction failed''
        | Some pair \<Rightarrow>
        case encapsulate C pair (kem_random inp) of
          None \<Rightarrow> Inl ''ML-KEM encapsulation failed''
        | Some (ct, ml_kem) \<Rightarrow>
        case ephemeral_secret hs of
          None \<Rightarrow> Inl ''Missing local ephemeral secret''
        | Some secret \<Rightarrow>
            let key = derive_hybrid_session_key C (dh_shared C secret x25519) ml_kem (hs_local_nonce hs) nonce;
                public = (case ephemeral_public hs of Some k \<Rightarrow> k | None \<Rightarrow> zeros 32);
                proof_bytes = ct @ public @ hs_local_nonce hs @ nonce
            in Inr (hs\<lparr>remote_x25519_pubkey := Some x25519, hs_remote_nonce := Some nonce, ml_kem_ciphertext := Some ct,
                       ephemeral_secret := None, hs_session_key := Some key, hs_phase := ResponseReceived\<rparr>,
                    SessionKeyExchange ct public (ni_sign N (utf8_lossy C proof_bytes))))"

definition on_challenge_response ::
  "('x) net_crypto_scheme \<Rightarrow> node_identity \<Rightarrow> step_inputs \<Rightarrow> listener \<Rightarrow> addr \<Rightarrow> bytes \<Rightarrow> bytes \<Rightarrow> bytes \<Rightarrow> listener" where
  "on_challenge_response C N inp L a signature nonce x25519 =
     (case map_of (pending L) a of
        None \<Rightarrow> L
      | Some hs \<Rightarrow>
          (case check_response C N inp hs signature nonce x25519 of
             Inl e \<Rightarrow> drop_pending L a
           | Inr (hs', m) \<Rightarrow> put_pending (send_to L m a) a hs'))"

text \<open>The last step of both sides: a trusted peer and, when it is new, a session.\<close>

definition establish :: "step_inputs \<Rightarrow> listener \<Rightarrow> addr \<Rightarrow> pending_handshake \<Rightarrow> bytes \<Rightarrow> listener" where
  "establish inp L a hs key =
     (let p = \<lparr>tp_node_id = (case remote_node_id hs of Some i \<Rightarrow> i | None \<Rightarrow> []),
               tp_public_key = (case remote_ed25519_pubkey hs of Some k \<Rightarrow> k | None \<Rightarrow> []),
               tp_encryption_key = (case remote_x25519_pubkey hs of Some k \<Rightarrow> k | None \<Rightarrow> zeros 32),
               tp_addr = a, authenticated_at = utc_ms inp\<rparr>;
          remote = (case hs_remote_nonce hs of Some n \<Rightarrow> n | None \<Rightarrow> zeros 32);
          (added, T) = trusted_add (trusted L) p;
          L = L\<lparr>trusted := T\<rparr>
      in if added
         then L\<lparr>sessions := sessions_insert (sessions L) a (session_new key (hs_local_nonce hs) remote (mono_ms inp))\<rparr>
         else L)"

definition ok_bytes :: bytes where "ok_bytes = [0x4f, 0x4b]"

definition on_session_key_exchange ::
  "('x) net_crypto_scheme \<Rightarrow> node_identity \<Rightarrow> step_inputs \<Rightarrow> listener \<Rightarrow> addr \<Rightarrow> bytes \<Rightarrow> bytes \<Rightarrow> listener" where
  "on_session_key_exchange C N inp L a ct x25519 =
     (case map_of (pending L) a of
        None \<Rightarrow> stop_loop L Returned
      | Some hs \<Rightarrow>
          let ml_kem = decapsulate C (ni_kem N) ct
          in if length x25519 \<noteq> 32 then stop_loop L Returned
             else
               case ephemeral_secret hs of
                 None \<Rightarrow> stop_loop L Returned
               | Some secret \<Rightarrow>
                   let remote = (case hs_remote_nonce hs of Some n \<Rightarrow> n | None \<Rightarrow> zeros 32);
                       ml_kem = (case ml_kem of Some s \<Rightarrow> s | None \<Rightarrow> zeros 32);
                       key = derive_hybrid_session_key C (dh_shared C secret x25519) ml_kem (hs_local_nonce hs) remote;
                       confirm = (case aead_encrypt C key (zeros 12) ok_bytes of Some c \<Rightarrow> c | None \<Rightarrow> []);
                       L = put_pending L a (hs\<lparr>ephemeral_secret := None, hs_phase := Complete\<rparr>);
                       L = send_to L (SessionKeyConfirm confirm) a
                   in establish inp L a hs key)"

definition on_session_key_confirm ::
  "('x) net_crypto_scheme \<Rightarrow> step_inputs \<Rightarrow> listener \<Rightarrow> addr \<Rightarrow> bytes \<Rightarrow> listener" where
  "on_session_key_confirm C inp L a encrypted_ok =
     (case map_of (pending L) a of
        None \<Rightarrow> stop_loop L Returned
      | Some hs \<Rightarrow>
          (case hs_session_key hs of
             None \<Rightarrow> stop_loop L Returned
           | Some key \<Rightarrow>
               let L = drop_pending L a
               in if aead_decrypt C key (zeros 12) encrypted_ok = Some ok_bytes then establish inp L a hs key else L))"

section \<open>The other handlers\<close>

definition on_secure ::
  "('x) net_crypto_scheme \<Rightarrow> step_inputs \<Rightarrow> listener \<Rightarrow> addr \<Rightarrow> secure_message \<Rightarrow> listener" where
  "on_secure C inp L a m =
     (case sessions_get (sessions L) a of
        None \<Rightarrow> L
      | Some s \<Rightarrow>
          (case decrypt_message (aead_decrypt C) m (session_key s) of
             Inl e \<Rightarrow> L
           | Inr (counter, payload) \<Rightarrow> L\<lparr>sessions := snd (sessions_check_counter (sessions L) a counter (mono_ms inp))\<rparr>))"

text \<open>
  \<^verbatim>\<open>Discover\<close> holds the write lock of the peer list when \<^verbatim>\<open>save_network_state\<close> asks for its read lock.
\<close>

definition on_discover ::
  "('x) net_crypto_scheme \<Rightarrow> node_identity \<Rightarrow> listener \<Rightarrow> string \<Rightarrow> listener" where
  "on_discover C N L address =
     (case parse_address C address of
        None \<Rightarrow> L
      | Some p \<Rightarrow>
          let (added, P) = peer_list_add (known_peers L) p; L = L\<lparr>known_peers := P\<rparr>
          in if added then stop_loop (send_to L (Pong (ni_node_id N)) p) Deadlocked else L)"

definition on_heartbeat ::
  "('x) net_crypto_scheme \<Rightarrow> node_identity \<Rightarrow> step_inputs \<Rightarrow> listener \<Rightarrow> addr \<Rightarrow> listener" where
  "on_heartbeat C N inp L a =
     (if \<not> sessions_contains (sessions L) a then L
      else
        let L = L\<lparr>states := note_heartbeat (states L) a (int (utc_ms inp))\<rparr>
        in case sessions_get (sessions L) a of
             None \<Rightarrow> L
           | Some s \<Rightarrow>
               let counter = fst (next_send_counter s (mono_ms inp))
               in case encrypt_message (aead_encrypt C) (ack_json C (ni_node_id N)) (session_key s) counter (message_nonce inp) of
                    Inl e \<Rightarrow> L
                  | Inr m \<Rightarrow> send_to L (MsgSecure m) a)"

definition on_heartbeat_ack :: "step_inputs \<Rightarrow> listener \<Rightarrow> addr \<Rightarrow> listener" where
  "on_heartbeat_ack inp L a = L\<lparr>states := note_heartbeat_ack (states L) a (int (utc_ms inp))\<rparr>"

text \<open>One handshake started here: from an exchange of peers or from the bootstrap list.\<close>

definition initiate ::
  "('x) net_crypto_scheme \<Rightarrow> node_identity \<Rightarrow> step_inputs \<Rightarrow> listener \<Rightarrow> nat \<times> addr \<Rightarrow> listener" where
  "initiate C N inp L ia =
     (case ia of (i, a) \<Rightarrow>
        let nonce = fresh_nonce inp (2 * i); secret = fresh_secret inp i;
            hs = (pending_new C a (fresh_nonce inp (2 * i + 1)) secret (mono_ms inp))\<lparr>hs_remote_nonce := Some nonce\<rparr>
        in if MAX_PENDING_HANDSHAKES \<le> length (pending L) then L
           else send_to (put_pending L a hs)
                  (Hello (ni_node_id N) (ni_public_key N) (dh_public C secret) (kem_ek (ni_kem N)) nonce) a)"

definition initiate_all ::
  "('x) net_crypto_scheme \<Rightarrow> node_identity \<Rightarrow> step_inputs \<Rightarrow> listener \<Rightarrow> addr list \<Rightarrow> listener" where
  "initiate_all C N inp L as = foldl (initiate C N inp) L (enumerate 0 as)"

definition on_peer_exchange ::
  "('x) net_crypto_scheme \<Rightarrow> node_identity \<Rightarrow> step_inputs \<Rightarrow> listener \<Rightarrow> addr \<Rightarrow> string list \<Rightarrow> listener" where
  "on_peer_exchange C N inp L a ss =
     (if \<not> sessions_contains (sessions L) a then L
      else initiate_all C N inp L
             (filter (\<lambda>b. b \<noteq> a \<and> \<not> trusted_contains (trusted L) b) (parse_peers (parse_address C) ss)))"

definition increment_failure :: "step_inputs \<Rightarrow> listener \<Rightarrow> string \<Rightarrow> listener" where
  "increment_failure inp L i =
     (let R = record_failure (reputations L) i (utc_ms inp)
      in L\<lparr>reputations := snd (get_or_create R i (utc_ms inp))\<rparr>)"

definition on_epa ::
  "('x) net_crypto_scheme \<Rightarrow> bool \<Rightarrow> step_inputs \<Rightarrow> listener \<Rightarrow> addr \<Rightarrow> shared_epa \<Rightarrow> listener" where
  "on_epa C disable_encryption inp L a e =
     (if \<not> trusted_contains (trusted L) a then L
      else if \<not> disable_encryption \<and> encrypted_payload e \<noteq> None then
        (case decrypt_payload (opens_payload C) e of
           DecryptPanic \<Rightarrow> stop_loop L Panicked
         | DecryptFailed \<Rightarrow> increment_failure inp L (epa_node_id e)
         | DecryptOk \<Rightarrow> L\<lparr>tasks := tasks L @ [e]\<rparr>)
      else L\<lparr>tasks := tasks L @ [e]\<rparr>)"

text \<open>The background task of one package.\<close>

definition verify_and_store :: "('x) net_crypto_scheme \<Rightarrow> step_inputs \<Rightarrow> listener \<Rightarrow> shared_epa \<Rightarrow> listener" where
  "verify_and_store C inp L e =
     (if verify_epa (epa_crypto.truncate C) e (utc_ns inp) = Valid then
        let L = L\<lparr>reputations := record_success (reputations L) (epa_node_id e) (utc_ms inp)\<rparr>;
            es = (if MAX_EPA_ENTRIES \<le> length (epas L) then tl (epas L) else epas L)
        in L\<lparr>epas := es @ [e]\<rparr>
      else increment_failure inp L (epa_node_id e))"

section \<open>The loop\<close>

fun handle_message ::
  "('x) net_crypto_scheme \<Rightarrow> node_identity \<Rightarrow> bool \<Rightarrow> step_inputs \<Rightarrow> listener \<Rightarrow> net_message \<Rightarrow> addr \<Rightarrow> listener" where
  "handle_message C N off inp L (Hello i k x ek n) a = on_hello C inp L a i k x ek n"
| "handle_message C N off inp L (Challenge h ts) a = on_challenge N L a h ts"
| "handle_message C N off inp L (ChallengeResponse sg n x) a = on_challenge_response C N inp L a sg n x"
| "handle_message C N off inp L (SessionKeyExchange ct x sg) a = on_session_key_exchange C N inp L a ct x"
| "handle_message C N off inp L (SessionKeyConfirm ok) a = on_session_key_confirm C inp L a ok"
| "handle_message C N off inp L (MsgSecure m) a = on_secure C inp L a m"
| "handle_message C N off inp L (Discover i address) a = on_discover C N L address"
| "handle_message C N off inp L (Ping i) a = send_to L (Pong (ni_node_id N)) a"
| "handle_message C N off inp L (Pong i) a = L"
| "handle_message C N off inp L (MsgHeartbeat i ts) a = on_heartbeat C N inp L a"
| "handle_message C N off inp L (HeartbeatAck i) a = on_heartbeat_ack inp L a"
| "handle_message C N off inp L (PeerExchange i ss) a = on_peer_exchange C N inp L a ss"
| "handle_message C N off inp L (SyncEpoch h sg) a = L"
| "handle_message C N off inp L (MsgEPA e) a = on_epa C off inp L a e"

section \<open>The heartbeat tasks\<close>

definition send_all :: "listener \<Rightarrow> net_message \<Rightarrow> addr list \<Rightarrow> listener" where
  "send_all L m as = foldl (\<lambda>L a. send_to L m a) L as"

text \<open>
  The sender: it takes the trusted addresses and sends the heartbeat, when its socket can be made; every fifth time it also
  sends the trusted addresses as they are then; last, it notes misses, and states of addresses that have none.
\<close>

definition sender_step :: "('x) net_crypto_scheme \<Rightarrow> node_identity \<Rightarrow> step_inputs \<Rightarrow> bool \<Rightarrow> listener \<Rightarrow> listener" where
  "sender_step C N inp socket_made L =
     (case sender L of
        SenderIdle \<Rightarrow>
          let addrs = trusted_addrs (trusted L)
          in if addrs = [] \<or> \<not> socket_made then L
             else (send_all L (MsgHeartbeat (ni_node_id N) (show_time C (utc_ns inp))) addrs)\<lparr>sender := SenderSent addrs\<rparr>
      | SenderSent addrs \<Rightarrow>
          if 5 \<le> exchange_counter L + 1 then
            let peers = trusted_addrs (trusted L);
                L = (if peers = [] then L else send_all L (PeerExchange (ni_node_id N) peers) addrs)
            in L\<lparr>exchange_counter := 0, sender := SenderExchanged addrs\<rparr>
          else L\<lparr>exchange_counter := exchange_counter L + 1, sender := SenderExchanged addrs\<rparr>
      | SenderExchanged addrs \<Rightarrow> L\<lparr>states := sender_round addrs (int (utc_ms inp)) (states L), sender := SenderIdle\<rparr>)"

text \<open>The monitor passes the executor no membrane, so what it knows of addresses is not used.\<close>

definition monitor_env :: "(string \<rightharpoonup> addr) \<Rightarrow> exec_env" where
  "monitor_env m = \<lparr>peer_addrs = m, ip_of = (\<lambda>a. []), ip_text = (\<lambda>a. []), ip_hash = (\<lambda>b. [])\<rparr>"

text \<open>
  The monitor: it cleans the sessions, collects what it finds in the peer states, maps the trusted identities to addresses, reacts
  to one event after the other, removes the inactive peers and schedules the reconnections.
\<close>

definition heartbeat_monitor_step :: "step_inputs \<Rightarrow> listener \<Rightarrow> listener" where
  "heartbeat_monitor_step inp L =
     (let now = int (utc_ms inp)
      in case monitor L of
        MonitorIdle \<Rightarrow> L\<lparr>sessions := sessions_cleanup (sessions L) 300 (mono_ms inp), monitor := MonitorCleaned\<rparr>
      | MonitorCleaned \<Rightarrow>
          L\<lparr>monitor := MonitorCollected (monitor_remove (states L) now) (monitor_reconnect (states L) now) (monitor_events (states L) now)\<rparr>
      | MonitorCollected gone again evs \<Rightarrow> L\<lparr>monitor := MonitorReacting (peer_addrs_map (trusted L)) gone again evs\<rparr>
      | MonitorReacting m gone again evs \<Rightarrow>
          (case evs of
             ev # evs' \<Rightarrow>
               let (T, R) = react (monitor_env m) (mon_engine L) (utc_ms inp) ev (states L, reputations L)
               in L\<lparr>states := T, reputations := R, monitor := MonitorReacting m gone again evs'\<rparr>
           | [] \<Rightarrow>
               L\<lparr>trusted := fold (\<lambda>a T. snd (trusted_remove T a)) gone (trusted L),
                 states := fold AList.delete gone (states L), monitor := MonitorReconnecting again\<rparr>)
      | MonitorReconnecting again \<Rightarrow> L\<lparr>states := reconnect_all now again (states L), monitor := MonitorIdle\<rparr>)"

text \<open>One announcement of the discovery, to the broadcast address.\<close>

definition announce :: "node_identity \<Rightarrow> nat \<Rightarrow> addr \<Rightarrow> listener \<Rightarrow> listener" where
  "announce N udp_port broadcast L = send_to L (Discover (ni_node_id N) (''127.0.0.1:'' @ nat_text udp_port)) broadcast"

section \<open>The node\<close>

datatype net_event =
    Receive net_message addr
  | RunTask nat
  | Bootstrap "addr list"
  | CleanPending
  | SenderTurn bool
  | MonitorTurn
  | Announce nat addr

text \<open>One step of the node: the loop only while it runs, the other tasks always.\<close>

fun net_step ::
  "('x) net_crypto_scheme \<Rightarrow> node_identity \<Rightarrow> bool \<Rightarrow> listener \<Rightarrow> step_inputs \<times> net_event \<Rightarrow> listener" where
  "net_step C N off L (inp, Receive m a) = (if status L = Running then handle_message C N off inp L m a else L)"
| "net_step C N off L (inp, RunTask i) =
     (if i < length (tasks L)
      then verify_and_store C inp (L\<lparr>tasks := take i (tasks L) @ drop (Suc i) (tasks L)\<rparr>) (tasks L ! i) else L)"
| "net_step C N off L (inp, Bootstrap as) = initiate_all C N inp L as"
| "net_step C N off L (inp, CleanPending) =
     L\<lparr>pending := filter (\<lambda>(a, h). \<not> pending_expired h 300000 (mono_ms inp)) (pending L)\<rparr>"
| "net_step C N off L (inp, SenderTurn socket_made) = sender_step C N inp socket_made L"
| "net_step C N off L (inp, MonitorTurn) = heartbeat_monitor_step inp L"
| "net_step C N off L (inp, Announce port broadcast) = announce N port broadcast L"

definition listener_start :: "reactive_engine \<Rightarrow> peer_list \<Rightarrow> trusted_list \<Rightarrow> shared_epa list \<Rightarrow> reputation_store \<Rightarrow> listener" where
  "listener_start E P T es R =
     \<lparr>status = Running, pending = [], sessions = [], trusted = T, known_peers = P, states = [], epas = es,
      reputations = R, tasks = [], sent = [], sender = SenderIdle, exchange_counter = 0, monitor = MonitorIdle, mon_engine = E\<rparr>"

end
