(* ===== verification/Listener_Theorems.thy ===== *)
theory Listener_Theorems
  imports Listener Session_Theorems
begin

text \<open>
  Theorems on the message loop: the bounds every reachable state keeps, what it takes to stop the loop
  and to become a trusted peer, and that the honest handshake never succeeds.
\<close>

section \<open>The invariant of the node\<close>

definition good_sent :: "net_message \<times> addr \<Rightarrow> bool" where
  "good_sent x \<longleftrightarrow> (case fst x of MsgSecure m \<Rightarrow> sm_counter m = 0 | _ \<Rightarrow> True)"

lemma good_sent_simps [simp]:
  "good_sent (Hello i k x ek n, a)" "good_sent (Challenge h ts, a)" "good_sent (ChallengeResponse sg n x, a)"
  "good_sent (SessionKeyExchange ct x sg, a)" "good_sent (SessionKeyConfirm ok, a)" "good_sent (Pong i, a)"
  "good_sent (MsgHeartbeat i ts, a)" "good_sent (PeerExchange i ss, a)" "good_sent (Discover i s, a)"
  "good_sent (MsgSecure m, a) \<longleftrightarrow> sm_counter m = 0"
  by (simp_all add: good_sent_def)

text \<open>The addresses that the sender of heartbeats holds between its steps.\<close>

fun held :: "sender_task \<Rightarrow> addr list" where
  "held SenderIdle = []"
| "held (SenderSent as) = as"
| "held (SenderExchanged as) = as"

text \<open>\<open>mx\<close> is the capacity of the trusted list, \<open>b\<close> bounds the peer states.\<close>

definition node_ok :: "('x) net_crypto_scheme \<Rightarrow> shared_epa set \<Rightarrow> nat \<Rightarrow> nat \<Rightarrow> listener \<Rightarrow> bool" where
  "node_ok C start mx b L \<longleftrightarrow>
     keys_distinct (pending L) \<and> length (pending L) \<le> MAX_PENDING_HANDSHAKES \<and>
     sessions_ok (sessions L) \<and> (\<forall>(a, s) \<in> set (sessions L). send_counter s = 0) \<and>
     trusted_ok (trusted L) \<and> tl_max (trusted L) = mx \<and> length (held (sender L)) \<le> mx \<and> peer_list_ok (known_peers L) \<and>
     keys_distinct (states L) \<and> length (states L) \<le> b \<and> MAX_PEER_STATES \<le> b \<and>
     length (epas L) \<le> MAX_EPA_ENTRIES \<and>
     (\<forall>e \<in> set (epas L). e \<in> start \<or> (\<exists>now. verify_epa (epa_crypto.truncate C) e now = Valid)) \<and>
     reputations_ok (reputations L) \<and> (\<forall>x \<in> set (sent L). good_sent x)"

lemma node_ok_send [simp]: "node_ok C start mx b (send_to L m a) \<longleftrightarrow> node_ok C start mx b L \<and> good_sent (m, a)"
  by (auto simp: node_ok_def send_to_def)

lemma node_ok_stop [simp]: "node_ok C start mx b (stop_loop L s) = node_ok C start mx b L"
  by (simp add: node_ok_def stop_loop_def)

lemma node_ok_drop [simp]: "node_ok C start mx b L \<Longrightarrow> node_ok C start mx b (drop_pending L a)"
  using length_delete_le [of a "pending L"] by (auto simp: node_ok_def drop_pending_def)

lemma node_ok_put_old:
  "node_ok C start mx b L \<Longrightarrow> map_of (pending L) a = Some h \<Longrightarrow> node_ok C start mx b (put_pending L a h')"
proof -
  assume ok: "node_ok C start mx b L" and h: "map_of (pending L) a = Some h"
  then have "a \<in> fst ` set (pending L)" by (metis map_of_keys option.distinct(1))
  then show ?thesis using ok by (simp add: node_ok_def put_pending_def length_update_old)
qed

lemma node_ok_put_new:
  "node_ok C start mx b L \<Longrightarrow> length (pending L) < MAX_PENDING_HANDSHAKES \<Longrightarrow> node_ok C start mx b (put_pending L a h)"
  using length_update_le [of a h "pending L"] by (auto simp: node_ok_def put_pending_def)

lemma node_ok_trusted: "node_ok C start mx b L \<Longrightarrow> trusted_ok T \<Longrightarrow> tl_max T = mx \<Longrightarrow> node_ok C start mx b (L\<lparr>trusted := T\<rparr>)"
  by (simp add: node_ok_def)

lemma node_ok_session:
  assumes "node_ok C start mx b L" and "send_counter s = 0"
  shows "node_ok C start mx b (L\<lparr>sessions := sessions_insert (sessions L) a s\<rparr>)"
proof -
  have "set (sessions_insert (sessions L) a s) \<subseteq> insert (a, s) (set (sessions L))"
    using set_update_subset [of a s "sessions L"] set_update_subset [of a s "evict_min last_activity (sessions L)"]
      set_evict_subset [of last_activity "sessions L"]
    by (auto simp: sessions_insert_def insert_evicting_def)
  then show ?thesis using assms by (fastforce simp: node_ok_def sessions_insert_ok)
qed

lemma node_ok_establish: "node_ok C start mx b L \<Longrightarrow> node_ok C start mx b (establish inp L a hs key)"
proof -
  assume ok: "node_ok C start mx b L"
  define p where "p = \<lparr>tp_node_id = (case remote_node_id hs of Some i \<Rightarrow> i | None \<Rightarrow> []),
               tp_public_key = (case remote_ed25519_pubkey hs of Some k \<Rightarrow> k | None \<Rightarrow> []),
               tp_encryption_key = (case remote_x25519_pubkey hs of Some k \<Rightarrow> k | None \<Rightarrow> zeros 32),
               tp_addr = a, authenticated_at = utc_ms inp\<rparr>"
  obtain added T where t: "trusted_add (trusted L) p = (added, T)" by (cases "trusted_add (trusted L) p")
  have "trusted_ok T" using trusted_add_ok [of "trusted L" p] ok t by (simp add: node_ok_def)
  moreover have "tl_max T = mx" using trusted_add_max [of "trusted L" p] ok t by (simp add: node_ok_def)
  ultimately have "node_ok C start mx b (L\<lparr>trusted := T\<rparr>)" using ok node_ok_trusted by blast
  then show ?thesis
    using t node_ok_session [of C start mx b "L\<lparr>trusted := T\<rparr>"]
    by (auto simp: establish_def Let_def session_new_def simp flip: p_def)
qed

lemma node_ok_states: "node_ok C start mx b L \<Longrightarrow> keys_distinct S \<Longrightarrow> length S \<le> b \<Longrightarrow> node_ok C start mx b (L\<lparr>states := S\<rparr>)"
  by (simp add: node_ok_def)

text \<open>A full table of peer states, or one that is more than full, does not grow by heartbeats.\<close>

lemma insert_evicting_over:
  assumes "keys_distinct t" and "length t \<le> b" and "limit \<le> b" and "0 < limit"
  shows "length (insert_evicting rank limit k v t) \<le> b"
  using assms length_evict_min [OF assms(1), of rank] length_update_le [of k v t] length_update_le [of k v "evict_min rank t"]
  by (auto simp: insert_evicting_def)

lemma note_heartbeat_bound:
  assumes "keys_distinct S" and "length S \<le> b" and "MAX_PEER_STATES \<le> b"
  shows "keys_distinct (note_heartbeat S a now) \<and> length (note_heartbeat S a now) \<le> b"
    and "keys_distinct (note_heartbeat_ack S a now) \<and> length (note_heartbeat_ack S a now) \<le> b"
proof -
  have "a \<in> fst ` set S" if "map_of S a = Some p" for p using that by (metis map_of_keys option.distinct(1))
  moreover have "0 < MAX_PEER_STATES" by (simp add: MAX_PEER_STATES_def)
  ultimately show "keys_distinct (note_heartbeat S a now) \<and> length (note_heartbeat S a now) \<le> b"
    and "keys_distinct (note_heartbeat_ack S a now) \<and> length (note_heartbeat_ack S a now) \<le> b"
    using assms insert_evicting_over [OF assms, of last_seen a "net_peer_new now"]
    by (auto simp: note_heartbeat_def note_heartbeat_ack_def length_update_old split: option.splits)
qed

lemma node_ok_reputations: "node_ok C start mx b L \<Longrightarrow> reputations_ok R \<Longrightarrow> node_ok C start mx b (L\<lparr>reputations := R\<rparr>)"
  by (simp add: node_ok_def)

lemma node_ok_failure: "node_ok C start mx b L \<Longrightarrow> node_ok C start mx b (increment_failure inp L i)"
proof -
  assume ok: "node_ok C start mx b L"
  then have "reputations_ok (record_failure (reputations L) i (utc_ms inp))" by (simp add: node_ok_def record_ok)
  from get_or_create_ok [OF this] ok show ?thesis by (simp add: increment_failure_def Let_def node_ok_reputations)
qed

lemma node_ok_check:
  assumes "node_ok C start mx b L"
  shows "node_ok C start mx b (L\<lparr>sessions := snd (sessions_check_counter (sessions L) a c now)\<rparr>)"
proof (cases "map_of (sessions L) a")
  case None
  then show ?thesis using assms by (simp add: sessions_check_counter_def)
next
  case (Some s)
  have "send_counter (snd (check_counter s c now)) = send_counter s" by (auto simp: check_counter_def Let_def)
  moreover have "send_counter s = 0" using assms map_of_SomeD [OF Some] by (auto simp: node_ok_def)
  moreover have "sessions_ok (snd (sessions_check_counter (sessions L) a c now))"
    using assms by (intro sessions_check_ok) (simp add: node_ok_def)
  ultimately show ?thesis
    using assms Some set_update_subset [of a "snd (check_counter s c now)" "sessions L"]
    by (fastforce simp: node_ok_def sessions_check_counter_def case_prod_beta)
qed

lemma node_ok_initiate: "node_ok C start mx b L \<Longrightarrow> node_ok C start mx b (initiate C N inp L ia)"
  by (cases ia) (simp add: initiate_def Let_def node_ok_put_new)

lemma node_ok_initiate_all: "node_ok C start mx b L \<Longrightarrow> node_ok C start mx b (initiate_all C N inp L as)"
  unfolding initiate_all_def
  by (rule preserved.run_inv [of "initiate C N inp" "node_ok C start mx b"]) (unfold_locales, rule node_ok_initiate)

lemma node_ok_handle:
  assumes ok: "node_ok C start mx b L"
  shows "node_ok C start mx b (handle_message C N off inp L m a)"
proof (cases m)
  case (Hello i k x ek n)
  then show ?thesis using ok by (simp add: on_hello_def Let_def node_ok_put_new)
next
  case (Challenge h ts)
  then show ?thesis
    using ok node_ok_put_old [of C start mx b "send_to L _ a"]
    by (auto simp: on_challenge_def Let_def send_to_def [THEN arg_cong [of _ _ pending]] split: option.splits)
next
  case (ChallengeResponse sg n x)
  have "good_sent (m', a)" if "check_response C N inp hs sg n x = Inr (hs', m')" for hs hs' m'
    using that by (auto simp: check_response_def Let_def split: option.splits if_splits)
  then show ?thesis
    using ok ChallengeResponse node_ok_put_old [of C start mx b "send_to L _ a"]
    by (auto simp: on_challenge_response_def send_to_def [THEN arg_cong [of _ _ pending]] split: option.splits sum.splits)
next
  case (SessionKeyExchange ct x sg)
  then show ?thesis
    using ok node_ok_put_old [of C start mx b L a]
    by (auto simp: on_session_key_exchange_def Let_def node_ok_establish split: option.splits)
next
  case (SessionKeyConfirm okb)
  then show ?thesis
    using ok by (auto simp: on_session_key_confirm_def Let_def node_ok_establish split: option.splits)
next
  case (MsgSecure x)
  then show ?thesis using ok by (auto simp: on_secure_def node_ok_check split: option.splits sum.splits)
next
  case (Discover i s)
  have "peer_list_ok (snd (peer_list_add (known_peers L) p))" for p
    using ok by (intro peer_list_add_ok) (simp add: node_ok_def)
  then have "node_ok C start mx b (L\<lparr>known_peers := snd (peer_list_add (known_peers L) p)\<rparr>)" for p
    using ok by (simp add: node_ok_def)
  then show ?thesis using ok Discover by (auto simp: on_discover_def Let_def case_prod_beta split: option.splits)
next
  case (MsgHeartbeat i ts)
  have S: "node_ok C start mx b (L\<lparr>states := note_heartbeat (states L) a (int (utc_ms inp))\<rparr>)"
    using ok note_heartbeat_bound(1) [of "states L" b a] by (intro node_ok_states) (auto simp: node_ok_def)
  have "sm_counter x = 0"
    if "sessions_get (sessions L) a = Some s" "encrypt_message enc p k (fst (next_send_counter s t)) n = Inr x" for s enc p k t n x
    using ok that map_of_SomeD [of "sessions L" a s]
    by (auto simp: node_ok_def sessions_get_def encrypt_message_def next_send_counter_def split: option.splits)
  then show ?thesis
    using ok S MsgHeartbeat by (auto simp: on_heartbeat_def Let_def split: option.splits sum.splits)
next
  case (HeartbeatAck i)
  then show ?thesis
    using ok note_heartbeat_bound(2) [of "states L" b a]
    by (auto simp: on_heartbeat_ack_def node_ok_def intro!: node_ok_states)
next
  case (PeerExchange i ss)
  then show ?thesis using ok by (simp add: on_peer_exchange_def node_ok_initiate_all)
next
  case (MsgEPA e)
  have "node_ok C start mx b (L\<lparr>tasks := T\<rparr>)" for T using ok by (simp add: node_ok_def)
  then show ?thesis
    using ok MsgEPA by (auto simp: on_epa_def node_ok_failure split: decrypt_outcome.splits)
qed (use ok in simp_all)

lemma node_ok_verify:
  assumes ok: "node_ok C start mx b L"
  shows "node_ok C start mx b (verify_and_store C inp L e)"
proof (cases "verify_epa (epa_crypto.truncate C) e (utc_ns inp) = Valid")
  case True
  have "reputations_ok (record_success (reputations L) (epa_node_id e) (utc_ms inp))"
    using ok by (simp add: node_ok_def record_ok)
  moreover have "x \<in> set (epas L)" if "x \<in> set (tl (epas L))" for x using that by (cases "epas L") auto
  ultimately show ?thesis
    using ok True by (auto simp: verify_and_store_def Let_def node_ok_def MAX_EPA_ENTRIES_def)
next
  case False
  then show ?thesis using ok by (simp add: verify_and_store_def node_ok_failure)
qed

lemma sessions_cleanup_inv:
  "node_ok C start mx b L \<Longrightarrow> node_ok C start mx b (L\<lparr>sessions := sessions_cleanup (sessions L) secs now\<rparr>)"
  using session_step_ok [of "sessions L" "SessionCleanup secs now"]
  by (auto simp: node_ok_def sessions_cleanup_def)

text \<open>The heartbeat tasks: only the sender adds states, at most one for each address it holds.\<close>

lemma node_ok_send_all: "node_ok C start mx b L \<Longrightarrow> (\<And>a. good_sent (m, a)) \<Longrightarrow> node_ok C start mx b (send_all L m as)"
  unfolding send_all_def by (induction as arbitrary: L) simp_all

lemma send_all_other [simp]:
  "trusted (send_all L m as) = trusted L" "pending (send_all L m as) = pending L" "status (send_all L m as) = status L"
  unfolding send_all_def by (induction as arbitrary: L) (simp_all add: send_to_def)

lemma node_ok_sender: "node_ok C start mx b L \<Longrightarrow> length (held t) \<le> mx \<Longrightarrow> node_ok C start mx b (L\<lparr>sender := t\<rparr>)"
  by (simp add: node_ok_def)

lemma node_ok_fields [simp]:
  "node_ok C start mx b (L\<lparr>exchange_counter := n\<rparr>) = node_ok C start mx b L"
  "node_ok C start mx b (L\<lparr>monitor := t\<rparr>) = node_ok C start mx b L"
  "node_ok C start mx b (L\<lparr>exchange_counter := n, sender := st\<rparr>) = node_ok C start mx b (L\<lparr>sender := st\<rparr>)"
  by (simp_all add: node_ok_def)

lemma sender_round_bound:
  "keys_distinct T \<Longrightarrow> keys_distinct (sender_round as now T) \<and> length (sender_round as now T) \<le> length T + length as"
proof (induction as arbitrary: T)
  case (Cons a as)
  have "keys_distinct (sender_visit now a T) \<and> length (sender_visit now a T) \<le> length T + 1"
    using Cons.prems length_update_le [of a _ T] by (auto simp: sender_visit_def split: option.splits)
  then show ?case using Cons.IH [of "sender_visit now a T"] by (auto simp: sender_round_def)
qed (simp add: sender_round_def)

lemma node_ok_more: "node_ok C start mx b L \<Longrightarrow> b \<le> b' \<Longrightarrow> node_ok C start mx b' L"
  by (auto simp: node_ok_def)

lemma node_ok_sender_step:
  assumes ok: "node_ok C start mx b L"
  shows "node_ok C start mx (b + mx) (sender_step C N inp made L)"
proof (cases "sender L")
  case SenderIdle
  have "length (trusted_addrs (trusted L)) \<le> mx" using ok by (auto simp: node_ok_def trusted_ok_def trusted_addrs_def)
  then have "node_ok C start mx b (sender_step C N inp made L)"
    using ok SenderIdle by (simp add: sender_step_def Let_def node_ok_sender node_ok_send_all)
  then show ?thesis by (rule node_ok_more) simp
next
  case (SenderSent as)
  then have "length as \<le> mx" using ok by (simp add: node_ok_def)
  then have "node_ok C start mx b (sender_step C N inp made L)"
    using ok SenderSent by (simp add: sender_step_def Let_def node_ok_sender node_ok_send_all)
  then show ?thesis by (rule node_ok_more) simp
next
  case (SenderExchanged as)
  then have "length as \<le> mx" "keys_distinct (states L)" "length (states L) \<le> b" using ok by (simp_all add: node_ok_def)
  then show ?thesis
    using ok SenderExchanged sender_round_bound [of "states L" as "int (utc_ms inp)"]
    by (auto simp: sender_step_def node_ok_def)
qed

text \<open>What the monitor does to the tables keeps their keys and bounds.\<close>

lemma action_tables:
  assumes "keys_distinct (ex_states S) \<and> length (ex_states S) \<le> b \<and> reputations_ok (ex_reputation S)"
  shows "keys_distinct (ex_states (execute_action V now x S)) \<and> length (ex_states (execute_action V now x S)) \<le> b \<and>
    reputations_ok (ex_reputation (execute_action V now x S))"
proof (cases x)
  case (MarkInactive p)
  have "a \<in> fst ` set (ex_states S)" if "map_of (ex_states S) a = Some st" for a st using that by (metis map_of_keys option.distinct(1))
  then show ?thesis using assms MarkInactive by (auto simp: length_update_old split: option.splits)
next
  case (AdjustReputation p d)
  then show ?thesis
    using assms get_or_create_ok [of "ex_reputation S" p now] update_existing_ok by (auto simp: case_prod_beta Let_def)
qed (use assms in \<open>auto split: option.splits\<close>)

lemma react_tables:
  assumes "keys_distinct T" "length T \<le> b" "reputations_ok R" "react V E now ev (T, R) = (T', R')"
  shows "keys_distinct T' \<and> length T' \<le> b \<and> reputations_ok R'"
proof -
  define tables where "tables S = (keys_distinct (ex_states S) \<and> length (ex_states S) \<le> b \<and> reputations_ok (ex_reputation S))" for S :: exec_state
  have "tables (fold (execute_action V now) acts S)" if "tables S" for acts S
    using that
  proof (induction acts arbitrary: S)
    case (Cons x acts)
    then show ?case using action_tables [of S b V now x] by (simp add: tables_def)
  qed simp
  then have "tables (execute V now acts T R None)" for acts
    using assms(1-3) unfolding execute_def by (auto simp: tables_def)
  then show ?thesis using assms by (auto simp: react_def tables_def Let_def split: if_splits)
qed

lemma reconnect_bound:
  "keys_distinct T \<Longrightarrow> keys_distinct (reconnect_all now as T) \<and> length (reconnect_all now as T) = length T"
proof (induction as arbitrary: T)
  case (Cons a as)
  have "a \<in> fst ` set T" if "map_of T a = Some p" for p using that by (metis map_of_keys option.distinct(1))
  then have "keys_distinct (case map_of T a of Some p \<Rightarrow> AList.update a (schedule_reconnect p now) T | None \<Rightarrow> T) \<and>
      length (case map_of T a of Some p \<Rightarrow> AList.update a (schedule_reconnect p now) T | None \<Rightarrow> T) = length T"
    using Cons.prems by (auto simp: length_update_old split: option.split)
  then show ?case using Cons.IH by (auto simp: reconnect_all_def)
qed (simp add: reconnect_all_def)

lemma removals_ok:
  "trusted_ok T \<Longrightarrow> trusted_ok (fold (\<lambda>a T. snd (trusted_remove T a)) as T) \<and>
     tl_max (fold (\<lambda>a T. snd (trusted_remove T a)) as T) = tl_max T"
  by (induction as arbitrary: T) (simp_all add: trusted_remove_ok, simp add: trusted_remove_def)

lemma deletes_bound: "keys_distinct T \<Longrightarrow> keys_distinct (fold AList.delete as T) \<and> length (fold AList.delete as T) \<le> length T"
proof (induction as arbitrary: T)
  case (Cons a as)
  then have "keys_distinct (AList.delete a T)" by simp
  then show ?case using Cons.IH [of "AList.delete a T"] length_delete_le [of a T] by simp
qed simp

lemma node_ok_monitor:
  assumes ok: "node_ok C start mx b L"
  shows "node_ok C start mx b (heartbeat_monitor_step inp L)"
proof -
  have t: "keys_distinct (states L)" "length (states L) \<le> b" "reputations_ok (reputations L)" "trusted_ok (trusted L)"
    using ok by (simp_all add: node_ok_def)
  show ?thesis
  proof (cases "monitor L")
    case MonitorIdle
    have "node_ok C start mx b (L\<lparr>sessions := sessions_cleanup (sessions L) 300 (mono_ms inp)\<rparr>\<lparr>monitor := MonitorCleaned\<rparr>)"
      using ok by (simp only: node_ok_fields sessions_cleanup_inv)
    then show ?thesis using MonitorIdle by (simp add: heartbeat_monitor_step_def)
  next
    case (MonitorReacting m gone again evs)
    show ?thesis
    proof (cases evs)
      case Nil
      then show ?thesis
        using MonitorReacting ok removals_ok [OF t(4), of gone] deletes_bound [OF t(1), of gone] t(2)
        by (auto simp: heartbeat_monitor_step_def node_ok_def)
    next
      case (Cons ev evs')
      obtain T R where r: "react (monitor_env m) (mon_engine L) (utc_ms inp) ev (states L, reputations L) = (T, R)" by force
      then show ?thesis
        using MonitorReacting Cons react_tables [OF t(1-3) r] ok by (simp add: heartbeat_monitor_step_def node_ok_def)
    qed
  next
    case (MonitorReconnecting again)
    then show ?thesis using ok t(2) reconnect_bound [OF t(1)] by (simp add: heartbeat_monitor_step_def node_ok_def)
  qed (use ok in \<open>simp_all add: heartbeat_monitor_step_def Let_def\<close>)
qed

text \<open>How far the turns of the sender let the peer states grow.\<close>

definition sender_turns :: "(step_inputs \<times> net_event) list \<Rightarrow> nat" where
  "sender_turns evs = length (filter (\<lambda>(inp, x). case x of SenderTurn made \<Rightarrow> True | _ \<Rightarrow> False) evs)"

lemma node_ok_step: "node_ok C start mx b L \<Longrightarrow> node_ok C start mx (b + mx * sender_turns [ev]) (net_step C N off L ev)"
proof -
  assume ok: "node_ok C start mx b L"
  obtain inp x where ev: "ev = (inp, x)" by (cases ev)
  show ?thesis
  proof (cases x)
    case (Receive m a)
    then show ?thesis using ok by (simp add: ev node_ok_handle sender_turns_def)
  next
    case (RunTask i)
    have "node_ok C start mx b (L\<lparr>tasks := T\<rparr>)" for T using ok by (simp add: node_ok_def)
    then show ?thesis using ok RunTask by (simp add: ev node_ok_verify sender_turns_def)
  next
    case (Bootstrap as)
    then show ?thesis using ok by (simp add: ev node_ok_initiate_all sender_turns_def)
  next
    case CleanPending
    then show ?thesis using ok by (auto simp: ev node_ok_def sender_turns_def intro: le_trans [OF length_filter_le])
  next
    case (SenderTurn made)
    then show ?thesis using ok by (simp add: ev node_ok_sender_step sender_turns_def)
  next
    case MonitorTurn
    then show ?thesis using ok by (simp add: ev node_ok_monitor sender_turns_def)
  next
    case (Announce port a)
    then show ?thesis using ok by (simp add: ev announce_def sender_turns_def)
  qed
qed

text \<open>The step of the node beside the bound it leaves.\<close>

definition bounded_step ::
    "('x) net_crypto_scheme \<Rightarrow> node_identity \<Rightarrow> bool \<Rightarrow> nat \<Rightarrow> nat \<times> listener \<Rightarrow> step_inputs \<times> net_event \<Rightarrow> nat \<times> listener" where
  "bounded_step C N off mx s ev = (fst s + mx * sender_turns [ev], net_step C N off (snd s) ev)"

interpretation node: preserved "bounded_step C N off mx" "\<lambda>(b, L). node_ok C start mx b L"
    for C :: "('x) net_crypto_scheme" and N off mx start
  by unfold_locales (simp add: bounded_step_def case_prod_beta node_ok_step)

lemma bounded_run: "foldl (bounded_step C N off mx) (b, L) evs = (b + mx * sender_turns evs, foldl (net_step C N off) L evs)"
  by (induction evs rule: rev_induct) (simp_all add: bounded_step_def sender_turns_def)

lemma node_ok_run: "node_ok C start mx b L \<Longrightarrow> node_ok C start mx (b + mx * sender_turns evs) (foldl (net_step C N off) L evs)"
  using node.run_inv [where s = "(b, L)" and as = evs and C = C and N = N and off = off and mx = mx and start = start]
  by (simp add: bounded_run)

lemma node_ok_start:
  assumes "peer_list_ok P" and "trusted_ok T" and "length es \<le> MAX_EPA_ENTRIES" and "reputations_ok R"
  shows "node_ok C (set es) (tl_max T) MAX_PEER_STATES (listener_start E P T es R)"
  using assms by (simp add: node_ok_def listener_start_def sessions_ok_def)

text \<open>The sender does not look at the limit that the handler of heartbeats keeps: a full table grows by every trusted address it lacks.\<close>

lemma sender_exceeds_limit:
  assumes "length T = MAX_PEER_STATES" and "map_of T a = None"
  shows "length (sender_round [a] now T) = MAX_PEER_STATES + 1"
  using assms length_update_new [of a T "net_peer_new now"] by (simp add: sender_round_def sender_visit_def flip: map_of_keys)

section \<open>No session key on the side of the responder\<close>

definition no_session_keys :: "listener \<Rightarrow> bool" where
  "no_session_keys L \<longleftrightarrow> (\<forall>(a, h) \<in> set (pending L). hs_session_key h = None)"

text \<open>The seed of an ML-KEM key has 64 bytes.\<close>

definition seeds_of_64 :: "('x) net_crypto_scheme \<Rightarrow> bool" where
  "seeds_of_64 C \<longleftrightarrow> (\<forall>s. kem_seed_ok C s \<longrightarrow> length s = 64)"

lemma check_response_fails: "seeds_of_64 C \<Longrightarrow> \<exists>e. check_response C N inp hs sg n x = Inl e"
  by (auto simp: check_response_def kem_from_bytes_def seeds_of_64_def split: option.splits)

lemma response_drops:
  assumes "seeds_of_64 C"
  shows "on_challenge_response C N inp L a sg n x = (if map_of (pending L) a = None then L else drop_pending L a)"
proof (cases "map_of (pending L) a")
  case (Some hs)
  then show ?thesis using check_response_fails [OF assms, of N inp hs sg n x] by (auto simp: on_challenge_response_def)
qed (simp add: on_challenge_response_def)

lemma no_keys_put: "no_session_keys L \<Longrightarrow> hs_session_key h = None \<Longrightarrow> no_session_keys (put_pending L a h)"
  using set_update_subset [of a h "pending L"] by (fastforce simp: no_session_keys_def put_pending_def)

lemma no_keys_drop [simp]: "no_session_keys L \<Longrightarrow> no_session_keys (drop_pending L a)"
  using set_delete_subset [of a "pending L"] by (fastforce simp: no_session_keys_def drop_pending_def)

lemma no_keys_lookup: "no_session_keys L \<Longrightarrow> map_of (pending L) a = Some h \<Longrightarrow> hs_session_key h = None"
  by (auto simp: no_session_keys_def dest: map_of_SomeD)

lemma no_keys_other [simp]:
  "no_session_keys (send_to L m a) = no_session_keys L"
  "no_session_keys (stop_loop L st) = no_session_keys L"
  "no_session_keys (establish inp L a hs key) = no_session_keys L"
  "no_session_keys (increment_failure inp L i) = no_session_keys L"
  "no_session_keys (verify_and_store C inp L e) = no_session_keys L"
  by (simp_all add: no_session_keys_def send_to_def stop_loop_def establish_def increment_failure_def verify_and_store_def
      Let_def case_prod_beta)

lemma pending_other [simp]: "pending (send_to L m a) = pending L" "pending (stop_loop L st) = pending L"
  by (simp_all add: send_to_def stop_loop_def)

lemma no_keys_initiate: "no_session_keys L \<Longrightarrow> no_session_keys (initiate C N inp L ia)"
  by (cases ia) (simp add: initiate_def Let_def no_keys_put pending_new_def)

lemma no_keys_initiate_all: "no_session_keys L \<Longrightarrow> no_session_keys (initiate_all C N inp L as)"
  unfolding initiate_all_def
  by (rule preserved.run_inv [of "initiate C N inp" no_session_keys]) (unfold_locales, rule no_keys_initiate)

lemma no_keys_handle:
  assumes ok: "no_session_keys L" and seeds: "seeds_of_64 C"
  shows "no_session_keys (handle_message C N off inp L m a)"
proof (cases m)
  case (Hello i k x ek n)
  then show ?thesis using ok by (simp add: on_hello_def Let_def no_keys_put pending_new_def)
next
  case (Challenge h ts)
  then show ?thesis
    using ok no_keys_lookup [OF ok, of a] by (auto simp: on_challenge_def Let_def intro!: no_keys_put split: option.splits)
next
  case (ChallengeResponse sg n x)
  then show ?thesis using ok by (simp add: response_drops [OF seeds])
next
  case (SessionKeyExchange ct x sg)
  then show ?thesis
    using ok no_keys_lookup [OF ok, of a]
    by (auto simp: on_session_key_exchange_def Let_def intro!: no_keys_put split: option.splits)
next
  case (SessionKeyConfirm okb)
  then show ?thesis using ok by (auto simp: on_session_key_confirm_def Let_def split: option.splits)
next
  case (PeerExchange i ss)
  then show ?thesis using ok by (simp add: on_peer_exchange_def no_keys_initiate_all)
next
  case (MsgEPA e)
  then show ?thesis using ok by (auto simp: on_epa_def no_session_keys_def increment_failure_def stop_loop_def Let_def split: decrypt_outcome.splits)
qed (use ok in \<open>auto simp: on_secure_def on_discover_def on_heartbeat_def on_heartbeat_ack_def no_session_keys_def Let_def
       case_prod_beta send_to_def stop_loop_def split: option.splits sum.splits\<close>)

lemma heartbeat_tasks_pending [simp]:
  "pending (sender_step C N inp made L) = pending L" "pending (heartbeat_monitor_step inp L) = pending L"
  "status (sender_step C N inp made L) = status L" "status (heartbeat_monitor_step inp L) = status L"
  by (simp_all add: sender_step_def heartbeat_monitor_step_def Let_def case_prod_beta split: sender_task.split monitor_task.split list.split)

lemma no_keys_step: "seeds_of_64 C \<Longrightarrow> no_session_keys L \<Longrightarrow> no_session_keys (net_step C N off L ev)"
proof -
  assume seeds: "seeds_of_64 C" and ok: "no_session_keys L"
  obtain inp x where ev: "ev = (inp, x)" by (cases ev)
  show ?thesis
  proof (cases x)
    case (Receive m a)
    then show ?thesis using ok seeds by (simp add: ev no_keys_handle)
  next
    case (RunTask i)
    then show ?thesis using ok by (simp add: ev) (simp add: no_session_keys_def)
  next
    case (Bootstrap as)
    then show ?thesis using ok by (simp add: ev no_keys_initiate_all)
  next
    case (SenderTurn made)
    then show ?thesis using ok by (simp add: ev no_session_keys_def)
  next
    case MonitorTurn
    then show ?thesis using ok by (simp add: ev no_session_keys_def)
  next
    case (Announce port a)
    then show ?thesis using ok by (simp add: ev announce_def)
  qed (use ok in \<open>auto simp: ev no_session_keys_def\<close>)
qed

lemma no_keys_run: "seeds_of_64 C \<Longrightarrow> no_session_keys L \<Longrightarrow> no_session_keys (foldl (net_step C N off) L evs)"
  by (induction evs arbitrary: L) (simp_all add: no_keys_step)

section \<open>A concrete node\<close>

definition demo_crypto :: net_crypto where
  "demo_crypto = epa_crypto.extend stamped_crypto
     \<lparr>kem_seed_ok = (\<lambda>s. length s = 64), kem_encapsulate = (\<lambda>s r. (r, zeros 32)), kem_decapsulate = (\<lambda>s c. Some (zeros 32)),
      dh_public = id, dh_shared = (\<lambda>s p. s), hkdf = take 32, aead_encrypt = (\<lambda>k n x. Some x), aead_decrypt = (\<lambda>k n x. Some x),
      opens_payload = (\<lambda>k c. True), utf8_lossy = id, parse_address = Some, ack_json = string_bytes\<rparr>"

definition demo_identity :: node_identity where
  "demo_identity =
     \<lparr>ni_node_id = ''me'', ni_public_key = ''k'', ni_sign = (\<lambda>m. zeros 64), ni_enc_public = zeros 32,
      ni_kem = \<lparr>kem_ek = [], kem_seed = zeros 64\<rparr>\<rparr>"

definition demo_inputs :: step_inputs where
  "demo_inputs =
     \<lparr>mono_ms = 1, utc_ms = 1, utc_ns = 1000000, fresh_nonce = (\<lambda>i. zeros 32), fresh_secret = (\<lambda>i. zeros 32),
      kem_random = zeros 32, message_nonce = zeros 12\<rparr>"

definition demo_start :: listener where
  "demo_start = listener_start (with_layer Advanced) (peer_list_new 8) (trusted_new 8) [] []"

lemma demo_parts_ok:
  "peer_list_ok (peer_list_new 8)" "trusted_ok (trusted_new 8)" "length ([] :: shared_epa list) \<le> MAX_EPA_ENTRIES" "reputations_ok []"
  by (simp_all add: peer_list_ok_def peer_list_new_def trusted_ok_def trusted_new_def reputations_ok_def)

lemma demo_start_simps [simp]:
  "status demo_start = Running" "pending demo_start = []" "tl_peers (trusted demo_start) = []" "tl_max (trusted demo_start) = 8"
  "pl_peers (known_peers demo_start) = []" "pl_max (known_peers demo_start) = 8"
  by (simp_all add: demo_start_def listener_start_def trusted_new_def peer_list_new_def)

section \<open>Properties\<close>

lemma status_initiate_all: "status (foldl (initiate C N inp) L ias) = status L"
proof (induction ias arbitrary: L)
  case (Cons ia ias)
  have "status (initiate C N inp L ia) = status L"
    by (cases ia) (simp add: initiate_def Let_def send_to_def put_pending_def)
  then show ?case using Cons by simp
qed simp

lemma stopped_stays: "status L \<noteq> Running \<Longrightarrow> status (net_step C N off L ev) = status L"
  by (cases ev; cases "snd ev")
    (auto simp: initiate_all_def status_initiate_all announce_def send_to_def verify_and_store_def increment_failure_def Let_def)

lemma stopped_run: "status L \<noteq> Running \<Longrightarrow> status (foldl (net_step C N off) L evs) = status L"
  by (induction evs arbitrary: L) (simp_all add: stopped_stays)

text \<open>
  C30: in every state that the loop, its tasks and the heartbeat tasks reach, whatever is received and however their steps
  interleave, the tables keep their bounds and have one entry for each address; the packages were there at the start or
  were verified; and the node never sent an encrypted message with another counter than 0. Only the bound of 512 on the peer
  states is not kept by the sender of heartbeats: every turn of it can add as many as there may be trusted peers.
\<close>

theorem listener_invariant:
  assumes "peer_list_ok P" and "trusted_ok T" and "length es \<le> MAX_EPA_ENTRIES" and "reputations_ok R"
  shows "let L = foldl (net_step C N off) (listener_start E P T es R) evs in
    keys_distinct (pending L) \<and> length (pending L) \<le> 1024 \<and> keys_distinct (sessions L) \<and> length (sessions L) \<le> 4096 \<and>
    trusted_ok (trusted L) \<and> tl_max (trusted L) = tl_max T \<and> peer_list_ok (known_peers L) \<and> keys_distinct (states L) \<and>
    length (states L) \<le> 512 + tl_max T * length (filter (\<lambda>(inp, x). case x of SenderTurn made \<Rightarrow> True | _ \<Rightarrow> False) evs) \<and>
    length (epas L) \<le> 10000 \<and> reputations_ok (reputations L) \<and>
    (\<forall>e \<in> set (epas L). e \<in> set es \<or> (\<exists>now. verify_epa (epa_crypto.truncate C) e now = Valid)) \<and>
    (\<forall>m a. (MsgSecure m, a) \<in> set (sent L) \<longrightarrow> sm_counter m = 0)"
proof -
  have "node_ok C (set es) (tl_max T) (MAX_PEER_STATES + tl_max T * sender_turns evs)
      (foldl (net_step C N off) (listener_start E P T es R) evs)"
    by (rule node_ok_run) (rule node_ok_start [OF assms])
  then show ?thesis
    by (fastforce simp: node_ok_def Let_def sessions_ok_def MAX_PENDING_HANDSHAKES_def MAX_SESSIONS_def MAX_PEER_STATES_def
        MAX_EPA_ENTRIES_def good_sent_def sender_turns_def)
qed

theorem listener_invariant_witness:
  "length (pending (foldl (net_step demo_crypto demo_identity False) demo_start
     [(demo_inputs, Receive (Hello ''n'' ''k'' (zeros 32) [] (zeros 32)) ''a:1''), (demo_inputs, MonitorTurn)])) \<le> 1024"
  using listener_invariant [OF demo_parts_ok, of demo_crypto demo_identity False "with_layer Advanced"
      "[(demo_inputs, Receive (Hello ''n'' ''k'' (zeros 32) [] (zeros 32)) ''a:1''), (demo_inputs, MonitorTurn)]"]
  unfolding demo_start_def Let_def by blast

text \<open>
  One datagram from an unknown address ends the loop for good: a key exchange or a confirmation without a pending
  handshake makes it return, a hello whose key has not 32 bytes makes it panic, and the discovery of a new address makes
  it wait for its own lock; no later message is handled.
\<close>

theorem listener_stopped_by_one_packet:
  assumes "status L = Running" and "peer_list_ok (known_peers L)" and "0 < pl_max (known_peers L)"
  shows "(map_of (pending L) a = None \<longrightarrow>
      status (foldl (net_step C N off) L ((inp, Receive (SessionKeyExchange ct x sg) a) # evs)) = Returned \<and>
      status (foldl (net_step C N off) L ((inp, Receive (SessionKeyConfirm okb) a) # evs)) = Returned) \<and>
    (length x \<noteq> 32 \<longrightarrow>
      status (foldl (net_step C N off) L ((inp, Receive (Hello i k x ek n) a) # evs)) = Panicked) \<and>
    (parse_address C s = Some p \<and> p \<notin> set (pl_peers (known_peers L)) \<longrightarrow>
      status (foldl (net_step C N off) L ((inp, Receive (Discover i s) a) # evs)) = Deadlocked)"
proof -
  have "fst (peer_list_add (known_peers L) p)" if "p \<notin> set (pl_peers (known_peers L))" for p
    using peer_list_add_result [OF assms(2,3)] that by simp
  then show ?thesis
    using assms(1)
    by (auto simp: on_session_key_exchange_def on_session_key_confirm_def on_hello_def on_discover_def stop_loop_def
        Let_def case_prod_beta stopped_run)
qed

theorem listener_stopped_by_one_packet_witness:
  "status (foldl (net_step demo_crypto demo_identity False) demo_start
     [(demo_inputs, Receive (SessionKeyExchange [] [] []) ''a:1''), (demo_inputs, Receive (Ping ''n'') ''a:1'')]) = Returned"
proof -
  have "peer_list_ok (known_peers demo_start)" "0 < pl_max (known_peers demo_start)" by (simp_all add: peer_list_ok_def)
  from listener_stopped_by_one_packet [OF demo_start_simps(1) this, of "''a:1''" demo_crypto demo_identity False demo_inputs "[]" "[]" "[]"
      "[(demo_inputs, Receive (Ping ''n'') ''a:1'')]"]
  show ?thesis by simp
qed

text \<open>
  C31: two datagrams make any address a trusted peer with a session, under an identity and a public key of its choice: a hello,
  then a key exchange, which is taken from the responder's side of a handshake too, with any bytes for signature and ciphertext.
\<close>

theorem listener_two_packets_make_trusted:
  assumes "status L = Running" and "length (pending L) < MAX_PENDING_HANDSHAKES" and "map_of (tl_peers (trusted L)) a = None"
    and "0 < tl_max (trusted L)" and "length x = 32" and "length y = 32"
  shows "let L' = foldl (net_step C N off) L [(inp, Receive (Hello i k x ek n) a), (inp', Receive (SessionKeyExchange ct y sg) a)] in
    status L' = Running \<and> sessions_contains (sessions L') a \<and>
    (\<exists>p. map_of (tl_peers (trusted L')) a = Some p \<and> tp_node_id p = i \<and> tp_public_key p = k)"
proof -
  define ts ch where "ts = show_time C (utc_ns inp)" and "ch = canonical_hash C (i @ '':'' @ ts @ '':'' @ a)"
  define hs where "hs = (pending_new C a (fresh_nonce inp 0) (fresh_secret inp 0) (mono_ms inp))
      \<lparr>remote_node_id := Some i, remote_ed25519_pubkey := Some k, remote_x25519_pubkey := Some x, hs_remote_nonce := Some n,
       remote_ml_kem_ek := Some ek, challenge_hash := Some ch, challenge_timestamp := Some ts, hs_phase := ChallengeSent\<rparr>"
  define L1 where "L1 = send_to (put_pending L a hs) (Challenge ch ts) a"
  have "on_hello C inp L a i k x ek n = L1"
    using assms(2,5) by (simp add: on_hello_def Let_def L1_def hs_def ts_def ch_def)
  then have 1: "net_step C N off L (inp, Receive (Hello i k x ek n) a) = L1" using assms(1) by simp
  have L1: "status L1 = Running" "map_of (pending L1) a = Some hs" "trusted L1 = trusted L"
    using assms(1) by (simp_all add: L1_def send_to_def put_pending_def update_conv')
  have hs: "ephemeral_secret hs = Some (fresh_secret inp 0)" "remote_node_id hs = Some i" "remote_ed25519_pubkey hs = Some k"
    by (simp_all add: hs_def pending_new_def)
  obtain L2 key where 2: "net_step C N off L1 (inp', Receive (SessionKeyExchange ct y sg) a) = establish inp' L2 a hs key"
    "status L2 = Running" "trusted L2 = trusted L"
    using L1 hs(1) assms(6) by (simp add: on_session_key_exchange_def Let_def send_to_def put_pending_def)
  have "status (establish inp' L2 a hs key) = Running \<and> sessions_contains (sessions (establish inp' L2 a hs key)) a \<and>
      (\<exists>p. map_of (tl_peers (trusted (establish inp' L2 a hs key))) a = Some p \<and> tp_node_id p = i \<and> tp_public_key p = k)"
    using 2(2,3) hs(2,3) assms(3,4)
    by (auto simp: establish_def trusted_add_def sessions_contains_def sessions_insert_def update_conv' Let_def)
  then show ?thesis using 1 2(1) by simp
qed

theorem listener_two_packets_make_trusted_witness:
  "sessions_contains (sessions (foldl (net_step demo_crypto demo_identity False) demo_start
     [(demo_inputs, Receive (Hello ''admin'' ''k'' (zeros 32) [] (zeros 32)) ''a:1''),
      (demo_inputs, Receive (SessionKeyExchange [] (zeros 32) []) ''a:1'')])) ''a:1''"
  using listener_two_packets_make_trusted [OF demo_start_simps(1), of "''a:1''" "zeros 32" "zeros 32" demo_crypto demo_identity False
      demo_inputs "''admin''" "''k''" "[]" "zeros 32" demo_inputs "[]" "[]"]
  by (simp add: MAX_PENDING_HANDSHAKES_def Let_def del: net_step.simps foldl.simps)

text \<open>
  C32: an honest handshake never succeeds: with ML-KEM seeds of 64 bytes, in every reachable state a response to a challenge,
  valid or not, only discards the pending handshake, and a confirmation never makes a session; it ends the loop.
\<close>

theorem listener_responder_never_completes:
  assumes "seeds_of_64 C" and "L = foldl (net_step C N off) (listener_start E P T es R) evs" and "status L = Running"
  shows "net_step C N off L (inp, Receive (ChallengeResponse sg n x) a) =
      (if map_of (pending L) a = None then L else drop_pending L a) \<and>
    net_step C N off L (inp, Receive (SessionKeyConfirm okb) a) = stop_loop L Returned"
proof -
  have "no_session_keys L"
    unfolding assms(2) by (rule no_keys_run [OF assms(1)]) (simp add: no_session_keys_def listener_start_def)
  then show ?thesis
    using assms(3) no_keys_lookup [of L a] response_drops [OF assms(1)]
    by (auto simp: on_session_key_confirm_def split: option.splits)
qed

theorem listener_responder_never_completes_witness:
  "net_step demo_crypto demo_identity False demo_start (demo_inputs, Receive (SessionKeyConfirm []) ''a:1'') = stop_loop demo_start Returned"
proof -
  have "seeds_of_64 demo_crypto" by (simp add: seeds_of_64_def demo_crypto_def epa_crypto.extend_def)
  from listener_responder_never_completes [OF this _ demo_start_simps(1), of demo_identity False "with_layer Advanced" "peer_list_new 8" "trusted_new 8" "[]" "[]" "[]"]
  show ?thesis unfolding demo_start_def by simp
qed

end
