(* ===== verification/Pipeline.thy ===== *)
theory Pipeline
  imports Evidence_Theorems Assertion
begin

text \<open>
  A run of \<^verbatim>\<open>crates/host/src/pipeline.rs\<close>: the evidence engine, the decision, the records and the manifest,
  with the files in the order in which they are written, and what the verifier of
  \<^verbatim>\<open>provenance/verify.rs\<close> says of the result. Serialisation is a parameter; that the verifier's decoders
  invert it is a hypothesis of the theorems. The package, the observer and the behaviour engine that follow
  the manifest do not change these files.
\<close>

section \<open>Parameters\<close>

record run_manifest = manifest +
  mf_lgpd :: "lgpd_metadata option"
  mf_lgpd_hash :: "string option"
  mf_epoch_root :: "string option"

record run_codecs =
  enc_state :: "state \<Rightarrow> string option"
  parse_json :: "string \<Rightarrow> json option"
  rfc3339 :: "string \<Rightarrow> bool"
  source_hash :: "string \<Rightarrow> u64"
  ser_decision_body :: "decision_body \<Rightarrow> string option"
  ser_evidence_body :: "evidence_body \<Rightarrow> string option"
  enc_decision :: "decision_record \<Rightarrow> string option"
  enc_evidence :: "evidence_record \<Rightarrow> string option"
  enc_explain :: "decision_record list \<Rightarrow> string option"
  enc_manifest :: "run_manifest \<Rightarrow> string option"
  ser_lgpd :: "lgpd_metadata \<Rightarrow> string"

section \<open>A run\<close>

fun kind_of_strength :: "evidence_strength \<Rightarrow> string" where
  "kind_of_strength Anchored = ''anchored''"
| "kind_of_strength Signed = ''signed''"
| "kind_of_strength Witnessed = ''witness''"
| "kind_of_strength Local = ''local''"
| "kind_of_strength Unverifiable = ''local''"

fun write_jsonl :: "('a \<Rightarrow> string option) \<Rightarrow> 'a list \<Rightarrow> string option" where
  "write_jsonl enc [] = Some []"
| "write_jsonl enc (x # xs) =
     (case enc x of
        None \<Rightarrow> None
      | Some l \<Rightarrow> (case write_jsonl enc xs of None \<Rightarrow> None | Some t \<Rightarrow> Some (l @ [CHR 0x0A] @ t)))"

definition summary_of :: "(string \<Rightarrow> string) \<Rightarrow> string \<Rightarrow> string \<Rightarrow> artifact_summary" where
  "summary_of H path text = \<lparr>art_path = path, art_hash = H text, art_bytes = length text\<rparr>"

definition build_manifest ::
  "(string \<Rightarrow> string) \<Rightarrow> run_codecs \<Rightarrow> state \<Rightarrow> decision_record \<Rightarrow> string \<Rightarrow> string \<Rightarrow> string \<Rightarrow> string option \<Rightarrow> run_manifest" where
  "build_manifest H R st d state_json evidence_jsonl decisions_jsonl epoch_root =
     \<lparr>mf_project = st_project st, mf_run_id = st_run_id st, mf_generated_at = generated_at st,
      mf_status = status (decision_of d), mf_reason_code = reason_code (decision_of d), mf_message = message (decision_of d),
      mf_artifacts = [summary_of H ''state.json'' state_json, summary_of H ''evidence.jsonl'' evidence_jsonl,
                      summary_of H ''decisions.jsonl'' decisions_jsonl],
      mf_lgpd = st_lgpd st, mf_lgpd_hash = map_option (\<lambda>m. H (ser_lgpd R m)) (st_lgpd st), mf_epoch_root = epoch_root\<rparr>"

datatype run_error = InputRejected | RateLimited | EngineFailed ai_error | SerializationFailed | WriteFailed string

text \<open>The files written so far, and the error that ended the run.\<close>

type_synonym run_result = "(string \<times> string) list \<times> run_error option"

definition write_text ::
  "(string \<Rightarrow> bool) \<Rightarrow> (string \<times> string) list \<Rightarrow> string \<Rightarrow> string \<Rightarrow> ((string \<times> string) list \<Rightarrow> run_result) \<Rightarrow> run_result" where
  "write_text writable files path text next =
     (if writable path then next (files @ [(path, text)]) else (files, Some (WriteFailed path)))"

definition serialized ::
  "string option \<Rightarrow> (string \<times> string) list \<Rightarrow> (string \<Rightarrow> run_result) \<Rightarrow> run_result" where
  "serialized x files next = (case x of None \<Rightarrow> (files, Some SerializationFailed) | Some t \<Rightarrow> next t)"

definition run_pipeline ::
  "(uuid \<Rightarrow> bytes \<Rightarrow> uuid) \<Rightarrow> (string \<Rightarrow> string) \<Rightarrow> run_codecs \<Rightarrow> (string \<Rightarrow> bool) \<Rightarrow> state \<Rightarrow> int \<Rightarrow> nat \<Rightarrow>
     string option \<Rightarrow> run_result" where
  "run_pipeline v5 H R writable st now clock epoch_root =
     serialized (enc_state R st) [] (\<lambda>state_json.
       if validate_raw_input state_json 1048576 \<noteq> Inr () then ([], Some InputRejected)
       else if \<not> fst (check_source (source_hash R) (source_limiter_new 100 60) (st_subject st) clock)
       then ([], Some RateLimited)
       else case translate (parse_json R) (rfc3339 R) H pipeline_limit state_json 1048576 of
         Inl e \<Rightarrow> ([], Some (EngineFailed e))
       | Inr assertion \<Rightarrow>
           let kind = kind_of_strength (evidence_strength assertion) in
           write_text writable [] ''state.json'' state_json (\<lambda>fs.
             case evaluate_decision v5 H (ser_decision_body R) now st (H state_json) kind ''local'' of
               None \<Rightarrow> (fs, Some SerializationFailed)
             | Some d \<Rightarrow>
               (case build_records v5 H (ser_evidence_body R) st d of
                  None \<Rightarrow> (fs, Some SerializationFailed)
                | Some records \<Rightarrow>
                    serialized (write_jsonl (enc_evidence R) records) fs (\<lambda>evidence_jsonl.
                      write_text writable fs ''evidence.jsonl'' evidence_jsonl (\<lambda>fs.
                        serialized (write_jsonl (enc_decision R) [d]) fs (\<lambda>decisions_jsonl.
                          write_text writable fs ''decisions.jsonl'' decisions_jsonl (\<lambda>fs.
                            serialized (enc_explain R [d]) fs (\<lambda>explain_json.
                              write_text writable fs ''explain.json'' explain_json (\<lambda>fs.
                                serialized (enc_manifest R
                                    (build_manifest H R st d state_json evidence_jsonl decisions_jsonl epoch_root)) fs
                                  (\<lambda>manifest_json. write_text writable fs ''manifest.json'' manifest_json
                                    (\<lambda>fs. (fs, None))))))))))))"

section \<open>Reading the files back\<close>

definition directory_of :: "(string \<times> string) list \<Rightarrow> string \<Rightarrow> read_outcome" where
  "directory_of fs p = (case map_of fs p of None \<Rightarrow> FileNotFound | Some t \<Rightarrow> FileText t)"

text \<open>The decoded form of a decision record.\<close>

definition artifact_of :: "decision_record \<Rightarrow> decision_artifact" where
  "artifact_of d =
     (let b = decision_of d
      in \<lparr>da_decision_id = decision_id b, da_run_id = run_id b, da_created_at = created_at b, da_status = status b,
          da_reason_code = reason_code b, da_message = message b, da_state_hash = state_hash b,
          da_left = Some (quality_left_strength b), da_right = Some (quality_right_strength b),
          da_report = Some (quality_report b), da_hash = decision_hash d\<rparr>)"

text \<open>
  What the run and the verifier rely on in the JSON library: a serialised record is one line without
  surrounding white space, and reading it back gives the record.
\<close>

definition json_line :: "string \<Rightarrow> bool" where
  "json_line t \<longleftrightarrow> t \<noteq> [] \<and> CHR 0x0A \<notin> set t \<and> trim t = t \<and> last t \<noteq> CHR 0x0D"

definition decodes :: "run_codecs \<Rightarrow> codecs \<Rightarrow> bool" where
  "decodes R cs \<longleftrightarrow>
     (\<forall>d t. enc_decision R d = Some t \<longrightarrow> json_line t \<and> dec_decision cs t = Some (artifact_of d)) \<and>
     (\<forall>r t. enc_evidence R r = Some t \<longrightarrow> json_line t \<and> dec_evidence cs t = Some r) \<and>
     (\<forall>m t. enc_manifest R m = Some t \<longrightarrow> dec_manifest cs t = Some (manifest.truncate m))"

lemma parse_written:
  assumes "write_jsonl enc xs = Some t" and "\<And>x l. enc x = Some l \<Longrightarrow> json_line l \<and> dec l = Some (g x)"
  shows "parse_lines dec label n (text_lines [] t) = Inr (map g xs)"
  using assms(1)
proof (induction xs arbitrary: t n)
  case (Cons x xs)
  obtain l u where l: "enc x = Some l" "write_jsonl enc xs = Some u" "t = l @ [CHR 0x0A] @ u"
    using Cons.prems by (auto split: option.splits)
  have j: "json_line l" "dec l = Some (g x)" using assms(2) [OF l(1)] by simp_all
  then have "text_lines [] t = l # text_lines [] u"
    using text_lines_line [of l "[]" u] by (simp add: l(3) json_line_def strip_cr_def)
  then show ?case using j Cons.IH [OF l(2)] by (simp add: json_line_def)
qed simp

section \<open>A complete run\<close>

text \<open>What a run that ends without an error has written.\<close>

lemma completed_run:
  assumes "run_pipeline v5 H R writable st now clock epoch_root = (fs, None)"
  obtains state_json a d rs et dt xt mt where
    "enc_state R st = Some state_json"
    "translate (parse_json R) (rfc3339 R) H pipeline_limit state_json 1048576 = Inr a"
    "evaluate_decision v5 H (ser_decision_body R) now st (H state_json) (kind_of_strength (evidence_strength a)) ''local'' = Some d"
    "build_records v5 H (ser_evidence_body R) st d = Some rs"
    "write_jsonl (enc_evidence R) rs = Some et" "write_jsonl (enc_decision R) [d] = Some dt"
    "enc_manifest R (build_manifest H R st d state_json et dt epoch_root) = Some mt"
    "fs = [(''state.json'', state_json), (''evidence.jsonl'', et), (''decisions.jsonl'', dt), (''explain.json'', xt),
      (''manifest.json'', mt)]"
proof -
  note defs = run_pipeline_def serialized_def write_text_def Let_def
  show thesis
    using assms unfolding defs
    by (auto split: option.splits sum.splits if_splits intro!: that)
qed

lemma quality_of_kind:
  assumes "trim sh \<noteq> []"
  shows "evaluate_quality sh (kind_of_strength s) = max Local s" and "evaluate_quality sh ''local'' = Local"
proof -
  have "\<forall>k \<in> {''anchored'', ''signed'', ''witness'', ''local''}. map lower_char (trim k) = k" by code_simp
  then have "map lower_char (trim (kind_of_strength s)) = kind_of_strength s" "map lower_char (trim ''local'') = ''local''"
    by (cases s; simp)+
  then show "evaluate_quality sh (kind_of_strength s) = max Local s" "evaluate_quality sh ''local'' = Local"
    using assms by (cases s; simp add: evaluate_quality_def max_def strength_order)+
qed

lemma declared_by_run:
  assumes "evaluate_decision v5 H ser now st sh (kind_of_strength s) ''local'' = Some d" and "trim sh \<noteq> []"
  shows "declared_strength (artifact_of d) = max Local s" and "run_id (decision_of d) = st_run_id st"
  using assms(1) quality_of_kind(1) [OF assms(2), of s] quality_of_kind(2) [OF assms(2)]
  by (auto simp: evaluate_decision_def decision_record_new_def declared_strength_def artifact_of_def report_side Let_def
      max_def split: prod.splits option.splits if_splits)

lemma records_of_run:
  assumes "build_records v5 H ser st d = Some rs"
    and "v5 (st_run_id st) (ascii_bytes ''state_snapshot'') \<noteq> v5 (st_run_id st) (ascii_bytes ''decision_attestation'')"
  shows "ids_distinct rs" and "rs \<noteq> []" and "\<forall>r \<in> set rs. ev_run_id (ev_body r) = st_run_id st"
    and "\<forall>r \<in> set rs. ev_decision_hash (ev_body r) = decision_hash d" and "weakest_kind rs = Signed"
  using assms
  by (auto simp: build_records_def evidence_record_new_def Let_def ids_distinct_def weakest_kind_def split: option.splits)

lemma verify_whole_group:
  assumes "inj sh" and "ids_distinct rs" and "rs \<noteq> []" and "\<forall>r \<in> set rs. ev_decision_hash (ev_body r) = da_hash a"
  shows "declared (verify_decision sh (group_evidence_by_decision rs) a) = declared_strength a"
    and "recomputed (verify_decision sh (group_evidence_by_decision rs) a) = weakest_kind rs"
    and "valid (verify_decision sh (group_evidence_by_decision rs) a) \<longleftrightarrow> declared_strength a \<le> weakest_kind rs"
    and "ve_reason_code (verify_decision sh (group_evidence_by_decision rs) a) =
      (if declared_strength a \<le> weakest_kind rs then ''VERIFIED'' else ''CHAIN_TOO_WEAK'')"
proof -
  obtain c where c: "group_evidence_by_decision rs (da_hash a) = Some c"
    using assms(3,4) group_None_iff [of rs "da_hash a"] by (cases "group_evidence_by_decision rs (da_hash a)"; cases rs) auto
  note g = group_Some [OF c]
  have "weakest_kind c = weakest_kind rs" using g assms(4) by (auto simp: weakest_kind_def)
  then have r: "recompute_chain_strength sh c = weakest_kind rs"
    using recompute_distinct [OF assms(1) group_distinct [OF assms(2) c]] g by simp
  show "declared (verify_decision sh (group_evidence_by_decision rs) a) = declared_strength a"
    "recomputed (verify_decision sh (group_evidence_by_decision rs) a) = weakest_kind rs"
    "valid (verify_decision sh (group_evidence_by_decision rs) a) \<longleftrightarrow> declared_strength a \<le> weakest_kind rs"
    "ve_reason_code (verify_decision sh (group_evidence_by_decision rs) a) =
      (if declared_strength a \<le> weakest_kind rs then ''VERIFIED'' else ''CHAIN_TOO_WEAK'')"
    using c g r by (simp_all add: verify_decision_def Let_def)
qed

lemma written_not_blank:
  assumes "write_jsonl enc xs = Some t" and "xs \<noteq> []" and "\<And>x l. enc x = Some l \<Longrightarrow> json_line l"
  shows "trim t \<noteq> []"
proof -
  obtain x l u where l: "enc x = Some l" "t = l @ [CHR 0x0A] @ u"
    using assms(1,2) by (cases xs) (auto split: option.splits)
  then have "trim l = l" "l \<noteq> []" using assms(3) by (auto simp: json_line_def)
  then show ?thesis unfolding l(2) trim_empty using trim_empty [of l] by auto
qed

lemma fresh_limiter:
  "fst (check_source hash (source_limiter_new 100 60) k now) \<longleftrightarrow> length k \<le> MAX_RATE_LIMIT_KEY_LEN"
  using shard_index_bound [of hash k]
  by (auto simp: check_source_def source_limiter_new_def Let_def MAX_RATE_LIMIT_SOURCES_def split: option.splits)

lemma run_artifacts:
  assumes "decodes R cs" and "inj sh"
    and ids: "v5 (st_run_id st) (ascii_bytes ''state_snapshot'') \<noteq> v5 (st_run_id st) (ascii_bytes ''decision_attestation'')"
    and d: "run_id (decision_of d) = st_run_id st"
    and rs: "build_records v5 H (ser_evidence_body R) st d = Some rs"
    and et: "write_jsonl (enc_evidence R) rs = Some et" and dt: "write_jsonl (enc_decision R) [d] = Some dt"
    and mt: "enc_manifest R (build_manifest H R st d sj et dt er) = Some mt"
    and fs: "fs = [(''state.json'', sj), (''evidence.jsonl'', et), (''decisions.jsonl'', dt), (''explain.json'', xt),
      (''manifest.json'', mt)]"
  shows "verify_directory H sh cs (directory_of fs) = Inr [verify_decision sh (group_evidence_by_decision rs) (artifact_of d)]"
proof -
  note dec = assms(1) [unfolded decodes_def]
  note r = records_of_run [OF rs ids]
  let ?m = "manifest.truncate (build_manifest H R st d sj et dt er)"
  have files: "directory_of fs ''manifest.json'' = FileText mt" "directory_of fs ''decisions.jsonl'' = FileText dt"
    "directory_of fs ''evidence.jsonl'' = FileText et" "directory_of fs ''state.json'' = FileText sj"
    by (simp_all add: directory_of_def fs)
  have "parse_jsonl (dec_decision cs) dt ''decisions.jsonl'' = Inr (map artifact_of [d])"
    unfolding parse_jsonl_def using dec by (intro parse_written [OF dt]) auto
  moreover have "parse_jsonl (dec_evidence cs) et ''evidence.jsonl'' = Inr (map (\<lambda>r. r) rs)"
    unfolding parse_jsonl_def using dec by (intro parse_written [OF et]) auto
  moreover have "trim et \<noteq> []" using dec r(2) by (intro written_not_blank [OF et]) auto
  moreover have "dec_manifest cs mt = Some ?m" using dec mt by auto
  moreover have "mf_run_id ?m = st_run_id st" "mf_artifacts ?m = [summary_of H ''state.json'' sj,
      summary_of H ''evidence.jsonl'' et, summary_of H ''decisions.jsonl'' dt]"
    by (simp_all add: build_manifest_def manifest.defs)
  moreover have "da_run_id (artifact_of d) = st_run_id st" using d by (simp add: artifact_of_def Let_def)
  ultimately show ?thesis
    using r(3) files
    by (simp add: verify_directory_def parse_optional_jsonl_def validate_manifest_artifact_def summary_of_def list_ex_iff)
qed

section \<open>Properties\<close>

text \<open>
  C25: the directory written by a run that ends without an error passes every check of the verifier on
  the manifest, the hashes and the run identifiers, and the report has one entry. It declares the strength of the engine
  (at least \<open>Local\<close>), and it is valid exactly when that is at most \<open>Signed\<close>: a state without
  metadata always passes, while a state in which every factor is present is reported as
  \<open>CHAIN_TOO_WEAK\<close>. The hypotheses: the decoders read back what the run wrote, the text of a UUID and the two
  names under the run's identifier are unambiguous, and a hash is not blank.
\<close>

theorem pipeline_run_verifies:
  assumes "run_pipeline v5 H R writable st now clock epoch_root = (fs, None)" and "decodes R cs" and "inj show_uuid"
    and "v5 (st_run_id st) (ascii_bytes ''state_snapshot'') \<noteq> v5 (st_run_id st) (ascii_bytes ''decision_attestation'')"
    and "\<forall>t. trim (H t) \<noteq> []"
  shows "\<exists>state_json j e. map_of fs ''state.json'' = Some state_json \<and> parse_json R state_json = Some j \<and>
     verify_directory H show_uuid cs (directory_of fs) = Inr [e] \<and>
     declared e = max Local (strength_of_score pipeline_limit (calculate_score (analyze_factors (rfc3339 R) j))) \<and>
     (valid e \<longleftrightarrow> declared e \<le> Signed) \<and>
     (json_get j ''lgpd'' = None \<longrightarrow> valid e) \<and>
     (complete_factors (analyze_factors (rfc3339 R) j) \<longrightarrow> \<not> valid e \<and> ve_reason_code e = ''CHAIN_TOO_WEAK'')"
proof -
  obtain sj a d rs et dt xt mt where run:
    "translate (parse_json R) (rfc3339 R) H pipeline_limit sj 1048576 = Inr a"
    "evaluate_decision v5 H (ser_decision_body R) now st (H sj) (kind_of_strength (evidence_strength a)) ''local'' = Some d"
    "build_records v5 H (ser_evidence_body R) st d = Some rs"
    "write_jsonl (enc_evidence R) rs = Some et" "write_jsonl (enc_decision R) [d] = Some dt"
    "enc_manifest R (build_manifest H R st d sj et dt epoch_root) = Some mt"
    "fs = [(''state.json'', sj), (''evidence.jsonl'', et), (''decisions.jsonl'', dt), (''explain.json'', xt), (''manifest.json'', mt)]"
    by (rule completed_run [OF assms(1)])
  obtain j where j: "parse_json R sj = Some j"
    "evidence_strength a = strength_of_score pipeline_limit (calculate_score (analyze_factors (rfc3339 R) j))"
    using run(1) by (auto simp: translate_def Let_def split: sum.splits option.splits)
  let ?e = "verify_decision show_uuid (group_evidence_by_decision rs) (artifact_of d)"
  have blank: "trim (H sj) \<noteq> []" using assms(5) by blast
  note d = declared_by_run [OF run(2) blank]
  note r = records_of_run [OF run(3) assms(4)]
  have hash: "\<forall>r \<in> set rs. ev_decision_hash (ev_body r) = da_hash (artifact_of d)"
    using r(4) by (simp add: artifact_of_def Let_def)
  note e = verify_whole_group [OF assms(3) r(1,2) hash, unfolded r(5) d(1)]
  have "evidence_strength a \<le> Witnessed" if "json_get j ''lgpd'' = None"
    unfolding j(2) using that by (intro score_without_lgpd) (simp add: analyze_factors_def Let_def)
  moreover have "evidence_strength a = Anchored" if "complete_factors (analyze_factors (rfc3339 R) j)"
    unfolding j(2) using that by (rule score_complete)
  moreover have "verify_directory H show_uuid cs (directory_of fs) = Inr [?e]"
    by (rule run_artifacts [OF assms(2,3,4) d(2) run(3-7)])
  ultimately show ?thesis
    using e j run(7) by (intro exI [of _ sj] exI [of _ j] exI [of _ ?e]) (auto simp: strength_order max_def)
qed

theorem pipeline_run_verifies_witness:
  "\<exists>v5 R cs st fs e. run_pipeline v5 (\<lambda>t. ''h'') R (\<lambda>_. True) st 0 0 None = (fs, None) \<and>
     verify_directory (\<lambda>t. ''h'') unary_uuid cs (directory_of fs) = Inr [e] \<and> declared e = Anchored \<and> \<not> valid e"
proof -
  define j where "j = JObj [(''lgpd'', JObj [(''data_subject_hash'', JStr ''x''), (''consent_id'', JStr ''c''), (''dpia_ref'', JStr ''r''),
      (''purpose'', JStr ''medical research'')]), (''generated_at_utc'', JStr ''t''), (''run_id'', JStr ''r''),
      (''threshold'', JInt 1), (''input_value'', JInt 2)]"
  define st where "st = \<lparr>st_project = ''p'', st_run_id = 7, generated_at = 0, st_scenario = ScenarioOk, st_subject = ''s'',
      threshold = 1, input_value = Some 2, st_lgpd = None\<rparr>"
  define v5 :: "uuid \<Rightarrow> bytes \<Rightarrow> uuid" where "v5 = (\<lambda>u n. if n = ascii_bytes ''state_snapshot'' then 1 else 2)"
  let ?H = "\<lambda>t :: string. ''h''"
  have complete: "complete_factors (analyze_factors (\<lambda>_. True) j)" unfolding j_def by code_simp
  note anchored = score_complete [OF complete]
  obtain d where d: "evaluate_decision v5 ?H (\<lambda>_. Some ''b'') 0 st ''h'' ''anchored'' ''local'' = Some d"
    by (cases "classify st") (simp add: evaluate_decision_def decision_record_new_def Let_def)
  obtain s a where sa: "build_records v5 ?H (\<lambda>_. Some ''b'') st d = Some [s, a]"
    by (simp add: build_records_def evidence_record_new_def)
  define m where "m = \<lparr>mf_project = st_project st, mf_run_id = st_run_id st, mf_generated_at = generated_at st,
      mf_status = status (decision_of d), mf_reason_code = reason_code (decision_of d), mf_message = message (decision_of d),
      mf_artifacts = [summary_of ?H ''state.json'' ''t'', summary_of ?H ''evidence.jsonl'' (''s'' @ [CHR 0x0A] @ ''a'' @ [CHR 0x0A]),
        summary_of ?H ''decisions.jsonl'' (''d'' @ [CHR 0x0A])],
      mf_lgpd = None, mf_lgpd_hash = None, mf_epoch_root = None\<rparr>"
  define R where "R = \<lparr>enc_state = \<lambda>_. Some ''t'', parse_json = \<lambda>_. Some j, rfc3339 = \<lambda>_. True, source_hash = \<lambda>_. 0,
      ser_decision_body = \<lambda>_. Some ''b'', ser_evidence_body = \<lambda>_. Some ''b'',
      enc_decision = \<lambda>x. if x = d then Some ''d'' else None,
      enc_evidence = \<lambda>x. if x = s then Some ''s'' else if x = a then Some ''a'' else None,
      enc_explain = \<lambda>_. Some ''x'', enc_manifest = \<lambda>x. if x = m then Some ''m'' else None, ser_lgpd = \<lambda>_. []\<rparr>"
  define cs where "cs = \<lparr>dec_manifest = \<lambda>_. Some (manifest.truncate m), dec_decision = \<lambda>_. Some (artifact_of d),
      dec_evidence = \<lambda>t. Some (if t = ''s'' then s else a)\<rparr>"
  have "s \<noteq> a" using sa by (auto simp: build_records_def evidence_record_new_def)
  have decodes: "decodes R cs"
    by (simp add: decodes_def R_def cs_def json_line_def trim_def is_space_def \<open>s \<noteq> a\<close>)
  have "translate (parse_json R) (rfc3339 R) ?H pipeline_limit ''t'' 1048576 =
      Inr \<lparr>context_id = ''ctx_r'', evidence_strength = Anchored,
        confidence = calculate_score (analyze_factors (\<lambda>_. True) j)\<rparr>"
    using anchored by (simp add: R_def translate_def validate_raw_input_def Let_def) (simp add: j_def get_str_def)
  moreover have "build_manifest ?H R st d ''t'' (''s'' @ [CHR 0x0A] @ ''a'' @ [CHR 0x0A]) (''d'' @ [CHR 0x0A]) None = m"
    by (simp add: build_manifest_def m_def st_def)
  moreover have "st_subject st = ''s''" by (simp add: st_def)
  moreover have "enc_state R st = Some ''t''" "ser_decision_body R = (\<lambda>_. Some ''b'')" "ser_evidence_body R = (\<lambda>_. Some ''b'')"
    "enc_decision R d = Some ''d''" "enc_evidence R s = Some ''s''" "enc_evidence R a = Some ''a''"
    "enc_explain R [d] = Some ''x''" "enc_manifest R m = Some ''m''"
    by (simp_all add: R_def \<open>s \<noteq> a\<close> \<open>s \<noteq> a\<close> [symmetric])
  ultimately obtain fs where run: "run_pipeline v5 ?H R (\<lambda>_. True) st 0 0 None = (fs, None)"
    using d sa unfolding run_pipeline_def fresh_limiter
    by (simp add: serialized_def write_text_def validate_raw_input_def MAX_RATE_LIMIT_KEY_LEN_def)
  have "v5 (st_run_id st) (ascii_bytes ''state_snapshot'') \<noteq> v5 (st_run_id st) (ascii_bytes ''decision_attestation'')"
    by (simp add: v5_def ascii_bytes_def)
  from pipeline_run_verifies [OF run decodes inj_unary_uuid this] obtain e where
    "verify_directory ?H unary_uuid cs (directory_of fs) = Inr [e]" "declared e = Anchored" "\<not> valid e"
    using complete anchored by (auto simp: R_def trim_def is_space_def)
  then show ?thesis using run by blast
qed

text \<open>
  The limiter of a run is made by the run itself, so it never limits a rate: the only requests it
  refuses are those whose subject is longer than a key may be.
\<close>

theorem pipeline_never_limits_a_rate:
  "snd (run_pipeline v5 H R writable st now clock epoch_root) = Some RateLimited \<longleftrightarrow>
     (\<exists>t. enc_state R st = Some t \<and> validate_raw_input t 1048576 = Inr () \<and> MAX_RATE_LIMIT_KEY_LEN < length (st_subject st))"
  unfolding run_pipeline_def serialized_def write_text_def Let_def fresh_limiter
  by (auto split: option.splits sum.splits)

end
