(* ===== verification/Nex_Printing.thy ===== *)
theory Nex_Printing
  imports Nex_Parser
begin

text \<open>
  A canonical text of NEX programs, the specification against which the lexer and the parser are proved: one line
  of tokens, each followed by a space, for every simple statement, and one line per statement in a block.
\<close>

section \<open>Text of tokens\<close>

definition word_char :: "char \<Rightarrow> bool" where
  "word_char c \<longleftrightarrow> of_char c \<in> {97..122 :: nat} \<union> {65..90} \<union> {48..57} \<union> {95, 46}"

text \<open>Letters, digits, underscores and dots, not starting with a digit.\<close>

definition ident :: "string \<Rightarrow> bool" where
  "ident w \<longleftrightarrow> w \<noteq> [] \<and> \<not> is_digit (hd w) \<and> (\<forall>c \<in> set w. word_char c)"

definition escape :: "string \<Rightarrow> string" where
  "escape s = concat (map (\<lambda>c. if c = CHR 0x22 \<or> c = CHR 0x5C then [CHR 0x5C, c]
      else if c = CHR 0x0A then [CHR 0x5C, CHR ''n''] else [c]) s)"

fun tk_text :: "token_kind \<Rightarrow> string" where
  "tk_text (TkWord w) = w"
| "tk_text (TkInt v) = int_text (sint v)"
| "tk_text (TkStr s) = CHR 0x22 # escape s @ [CHR 0x22]"
| "tk_text TkEq = ''=''"
| "tk_text TkGte = ''>=''"
| "tk_text TkGt = ''>''"
| "tk_text TkLt = ''<''"
| "tk_text TkColon = '':''"
| "tk_text TkComma = '',''"
| "tk_text TkLBrace = ''{''"
| "tk_text TkRBrace = ''}''"
| "tk_text TkLParen = ''(''"
| "tk_text TkRParen = '')''"
| "tk_text (TkFloat _) = []"
| "tk_text TkNewline = []"

fun lexable :: "token_kind \<Rightarrow> bool" where
  "lexable (TkWord w) = ident w"
| "lexable (TkFloat _) = False"
| "lexable TkNewline = False"
| "lexable _ = True"

definition line_text :: "token_kind list \<Rightarrow> string" where
  "line_text ks = concat (map (\<lambda>k. tk_text k @ '' '') ks)"

section \<open>Lexing the text of a line\<close>

lemma is_digit_range: "is_digit c \<longleftrightarrow> of_char c \<in> {48..57 :: nat}"
  by (simp add: is_digit_def)

lemma char_neq_code: "of_char c \<noteq> (of_char d :: nat) \<Longrightarrow> c \<noteq> d"
  by auto

lemma word_char_plain:
  assumes "word_char c"
  shows "\<not> ends_word c rest" "punctuation c = None" "c \<noteq> CHR 0x22" "\<not> is_space c" "c \<noteq> CHR ''#''" "c \<noteq> CHR ''/''"
    "c \<noteq> CHR ''-''" "c \<noteq> CHR ''>''" "c \<noteq> CHR 0x0A" "c \<noteq> CHR 0x0D" "c \<noteq> CHR '' ''"
proof -
  have n: "c \<noteq> d" if "\<not> word_char d" for d using assms that by auto
  have neq: "c \<noteq> CHR 0x22" "c \<noteq> CHR ''#''" "c \<noteq> CHR ''/''" "c \<noteq> CHR ''-''" "c \<noteq> CHR ''>''" "c \<noteq> CHR 0x0A" "c \<noteq> CHR 0x0D"
    "c \<noteq> CHR '' ''" "c \<noteq> CHR ''=''" "c \<noteq> CHR ''<''" "c \<noteq> CHR '':''" "c \<noteq> CHR '',''" "c \<noteq> CHR ''{''" "c \<noteq> CHR ''}''"
    "c \<noteq> CHR ''(''" "c \<noteq> CHR '')''"
    by (rule n, simp add: word_char_def)+
  show sp: "\<not> is_space c"
  proof -
    have "of_char c \<notin> {9..13 :: nat}"
      using assms by (auto simp: word_char_def)
    then show ?thesis using neq(8) by (simp only: is_space_def simp_thms)
  qed
  show "punctuation c = None" unfolding punctuation_def using neq by (simp only: if_False simp_thms)
  show "\<not> ends_word c rest" unfolding ends_word_def by (simp only: insert_iff empty_iff neq sp simp_thms)
  show "c \<noteq> CHR 0x22" "c \<noteq> CHR ''#''" "c \<noteq> CHR ''/''" "c \<noteq> CHR ''-''" "c \<noteq> CHR ''>''" "c \<noteq> CHR 0x0A" "c \<noteq> CHR 0x0D" "c \<noteq> CHR '' ''"
    by (rule neq)+
qed

lemma word_rest_chars: "\<forall>c \<in> set w. word_char c \<Longrightarrow> word_rest (w @ CHR '' '' # rest) = (w, CHR '' '' # rest)"
proof (induction w)
  case Nil
  then show ?case by (simp add: ends_word_def is_space_def)
next
  case (Cons c w)
  then show ?case using word_char_plain(1) [of c "w @ CHR '' '' # rest"] by simp
qed

declare nat_text.simps [simp del]

lemma nat_text_digits: "nat_text n \<noteq> [] \<and> (\<forall>c \<in> set (nat_text n). is_digit c)"
proof (induction n rule: nat_text.induct)
  case (1 n)
  have d: "is_digit (char_of (48 + k))" if "k < 10" for k :: nat
    using that digit_char [OF that] by (simp add: is_digit_def)
  show ?case
  proof (cases "n < 10")
    case True
    then show ?thesis using d by (simp add: nat_text.simps [of n])
  next
    case False
    have "nat_text n = nat_text (n div 10) @ [char_of (48 + n mod 10)]" using False by (simp add: nat_text.simps [of n])
    moreover have "is_digit (char_of (48 + n mod 10))" by (rule d) simp
    ultimately show ?thesis using 1 [OF False] by auto
  qed
qed

lemma is_digit_plain: "is_digit c \<Longrightarrow> word_char c"
  unfolding is_digit_def word_char_def by blast

lemma not_digit_space: "\<not> is_digit (CHR '' '')"
  by (simp add: is_digit_def)

lemma take_digits:
  "\<forall>c \<in> set ds. is_digit c \<Longrightarrow> takeWhile is_digit (ds @ CHR '' '' # rest) = ds"
  "\<forall>c \<in> set ds. is_digit c \<Longrightarrow> dropWhile is_digit (ds @ CHR '' '' # rest) = CHR '' '' # rest"
  using not_digit_space by (simp_all add: takeWhile_append dropWhile_append)

lemma lex_number_text:
  "lex_number line col (int_text (sint v) @ CHR '' '' # rest) = Inr (TkInt v, CHR '' '' # rest)"
proof -
  have range: "- (2 ^ 63) \<le> sint v" "sint v < 2 ^ 63"
    using sint_range_size [of v] by (simp_all add: word_size)
  define n where "n = nat \<bar>sint v\<bar>"
  note d = nat_text_digits [of n]
  have sp: "\<not> (2 \<le> length (CHR '' '' # rest) \<and> (CHR '' '' # rest) ! 0 = CHR ''.'' \<and> X)" for X by simp
  show ?thesis
  proof (cases "sint v < 0")
    case True
    then have t: "int_text (sint v) = CHR ''-'' # nat_text n" by (simp add: int_text_def n_def)
    have v: "- int (text_nat (nat_text n)) = sint v" using True by (simp add: text_nat_text n_def)
    moreover have "- word_of_nat (text_nat (nat_text n)) = v" using arg_cong [OF v, of "word_of_int :: int \<Rightarrow> 64 word"] by simp
    ultimately show ?thesis
      using d range unfolding t lex_number_def Let_def by (simp add: take_digits not_digit_space)
  next
    case False
    then have t: "int_text (sint v) = nat_text n" by (simp add: int_text_def n_def)
    have v: "int (text_nat (nat_text n)) = sint v" using False by (simp add: text_nat_text n_def)
    moreover have "word_of_nat (text_nat (nat_text n)) = v" using arg_cong [OF v, of "word_of_int :: int \<Rightarrow> 64 word"] by simp
    moreover have "hd (nat_text n @ CHR '' '' # rest) \<noteq> CHR ''-''"
    proof -
      have "is_digit (hd (nat_text n))" using d hd_in_set by blast
      then show ?thesis using d word_char_plain(7) [OF is_digit_plain] by simp
    qed
    ultimately show ?thesis
      using d range unfolding t lex_number_def Let_def by (simp add: take_digits not_digit_space)
  qed
qed

lemma lex_string_text: "lex_string (escape s @ CHR 0x22 # rest) = Some (s, rest)"
proof (induction s)
  case (Cons c s)
  consider "c = CHR 0x22" | "c = CHR 0x5C" | "c = CHR 0x0A" | "c \<noteq> CHR 0x22" "c \<noteq> CHR 0x5C" "c \<noteq> CHR 0x0A" by blast
  then show ?case using Cons by cases (simp_all add: escape_def unescape_def)
qed (simp add: escape_def)

text \<open>Every text of a token starts with a character that is neither white space nor the start of a comment.\<close>

lemma tk_text_start:
  assumes "lexable k"
  obtains ch t where "tk_text k = ch # t" "\<not> is_space ch" "ch \<noteq> CHR ''#''" "ch \<noteq> CHR ''/''"
proof (cases "\<exists>c \<in> set (tk_text k). \<not> word_char c")
  case False
  have "tk_text k \<noteq> []" using assms by (cases k) (auto simp: ident_def int_text_def nat_text_digits)
  then obtain ch t where t: "tk_text k = ch # t" by (cases "tk_text k") auto
  then have "word_char ch" using False by simp
  then show thesis using t word_char_plain that by blast
next
  case True
  have i: "\<exists>ch t. tk_text (TkInt v) = ch # t \<and> \<not> is_space ch \<and> ch \<noteq> CHR ''#'' \<and> ch \<noteq> CHR ''/''" for v
  proof (cases "sint v < 0")
    case False
    then have "\<forall>c \<in> set (tk_text (TkInt v)). word_char c" "tk_text (TkInt v) \<noteq> []"
      using nat_text_digits is_digit_plain by (auto simp: int_text_def)
    then show ?thesis using word_char_plain by (cases "tk_text (TkInt v)") auto
  qed (simp add: int_text_def is_space_def)
  have "\<exists>ch t. tk_text k = ch # t \<and> \<not> is_space ch \<and> ch \<noteq> CHR ''#'' \<and> ch \<noteq> CHR ''/''"
    using assms True i by (cases k) (auto simp: ident_def is_space_def)
  then show thesis using that by blast
qed

lemma lex_token_text:
  assumes "lexable k" and "tk_text k = ch # t"
  shows "lex_token line col ch (t @ CHR '' '' # rest) = Inr (k, CHR '' '' # rest)"
proof (cases k)
  case (TkWord w)
  then have w: "word_char ch" "\<forall>c \<in> set t. word_char c" "\<not> is_digit ch" "w = ch # t"
    using assms by (auto simp: ident_def)
  note p = word_char_plain(2,3,7,8) [OF w(1)]
  show ?thesis using p w(3) word_rest_chars [OF w(2), of rest] by (simp add: lex_token_def TkWord w(4))
next
  case (TkInt v)
  have n: "lex_number line col (ch # t @ CHR '' '' # rest) = Inr (k, CHR '' '' # rest)"
    using lex_number_text [of line col v rest] assms(2) TkInt by simp
  show ?thesis
  proof (cases "sint v < 0")
    case True
    then have t: "ch = CHR ''-''" "t \<noteq> []" "is_digit (hd t)"
      using assms(2) TkInt nat_text_digits [of "nat (- sint v)"] hd_in_set by (auto simp: int_text_def)
    then show ?thesis using n by (simp add: lex_token_def punctuation_def)
  next
    case False
    then have "is_digit ch" using assms(2) TkInt nat_text_digits [of "nat (sint v)"] by (auto simp: int_text_def)
    then show ?thesis
      using n word_char_plain(2,3,8) [OF is_digit_plain, of ch] by (simp add: lex_token_def)
  qed
next
  case (TkStr s)
  then have "ch = CHR 0x22" "t = escape s @ [CHR 0x22]" using assms(2) by auto
  then show ?thesis using lex_string_text [of s "CHR '' '' # rest"] TkStr by (simp add: lex_token_def punctuation_def)
qed (use assms(1) assms(2) [symmetric] in \<open>simp_all add: lex_token_def punctuation_def next_is_def\<close>)

lemma lex_from_text:
  "\<forall>k \<in> set ks. lexable k \<Longrightarrow> \<exists>ts. lex_from line idx (line_text ks) = Inr ts \<and> map tok_kind ts = ks"
proof (induction ks arbitrary: idx)
  case (Cons k ks)
  obtain ch t where t: "tk_text k = ch # t" "\<not> is_space ch" "ch \<noteq> CHR ''#''" "ch \<noteq> CHR ''/''"
    using tk_text_start Cons.prems by auto
  let ?j = "idx + 1 + (length (t @ CHR '' '' # line_text ks) - length (CHR '' '' # line_text ks))"
  obtain ts where ts: "lex_from line (?j + 1) (line_text ks) = Inr ts" "map tok_kind ts = ks"
    using Cons by fastforce
  have sp: "is_space (CHR '' '')" by (simp add: is_space_def)
  have "lex_from line idx (line_text (k # ks)) = Inr (\<lparr>tok_kind = k, tok_column = idx + 1\<rparr> # ts)"
    using t ts(1) lex_token_text [OF _ t(1), of line "idx + 1" "line_text ks"] Cons.prems sp
    by (simp add: line_text_def)
  then show ?case using ts(2) by auto
qed (simp add: line_text_def)

section \<open>Text of statements\<close>

fun strength_word :: "evidence_strength \<Rightarrow> string" where
  "strength_word Unverifiable = ''unverifiable''"
| "strength_word Local = ''local''"
| "strength_word Witnessed = ''witnessed''"
| "strength_word Signed = ''signed''"
| "strength_word Anchored = ''anchored''"

fun type_word :: "nex_type \<Rightarrow> string" where
  "type_word TyI64 = ''i64''"
| "type_word TyString = ''string''"

fun event_word :: "event_type \<Rightarrow> string" where
  "event_word ZkProofInvalid = ''ZkProofInvalid''"
| "event_word HeartbeatMiss = ''HeartbeatMiss''"
| "event_word MalformedPacket = ''MalformedPacket''"

fun expr_token :: "expr \<Rightarrow> token_kind" where
  "expr_token (IntLit v) = TkInt v"
| "expr_token (StrLit s) = TkStr s"
| "expr_token (Ident w) = TkWord w"

fun reaction_tokens :: "reactive_action \<Rightarrow> token_kind list" where
  "reaction_tokens (ReactLog s) = [TkWord ''log'', TkStr s]"
| "reaction_tokens (ReactEmit e) = [TkWord ''emit'', TkWord e]"
| "reaction_tokens (ReactMarkInactive p) = [TkWord ''marcar_inativo'', TkWord p]"
| "reaction_tokens (ReactAdjustReputation p d) = [TkWord ''ajustar_reputacao'', TkWord p, TkInt (scast d)]"

fun reactions_tokens :: "reactive_action list \<Rightarrow> token_kind list" where
  "reactions_tokens [] = []"
| "reactions_tokens [a] = reaction_tokens a"
| "reactions_tokens (a # as) = reaction_tokens a @ TkComma # reactions_tokens as"

text \<open>The one line of a simple statement. Triggers other than a missed heartbeat have no text here.\<close>

fun simple_tokens :: "stmt \<Rightarrow> token_kind list" where
  "simple_tokens (Use p) = [TkWord ''use'', TkWord p]"
| "simple_tokens (Node i v s) = [TkWord ''let'', TkWord i, TkEq, TkWord ''node'', expr_token v, TkWord (strength_word s)]"
| "simple_tokens (Attest i n b) = [TkWord ''attest'', TkWord i, TkWord ''with'', TkInt (word_of_nat n), TkWord ''external'',
     TkWord (if b then ''true'' else ''false'')]"
| "simple_tokens (Derive i l r ty) = [TkWord ''let'', TkWord i, TkEq, TkWord l, TkWord ''derive'', TkWord r, TkWord ''as'',
     TkWord (type_word ty)]"
| "simple_tokens (Assert i s) = [TkWord ''assert'', TkWord i, TkGte, TkWord (strength_word s)]"
| "simple_tokens (Act i a s) = [TkWord ''act'', TkWord i, TkEq, TkWord (action_name a), TkWord ''requires'', TkWord (strength_word s)]"
| "simple_tokens (On (OnHeartbeatMiss n) as) =
     [TkWord ''on'', TkWord ''heartbeat_miss'', TkGt, TkInt (ucast n), TkColon] @ reactions_tokens as"
| "simple_tokens _ = []"

fun simple :: "stmt \<Rightarrow> bool" where
  "simple (Use p) = (ident p \<and> import_path_ok p)"
| "simple (Node i v s) = (ident i \<and> (case v of Ident w \<Rightarrow> ident w | _ \<Rightarrow> True))"
| "simple (Attest i n b) = (ident i \<and> n < 2 ^ 63)"
| "simple (Derive i l r ty) = (ident i \<and> ident l \<and> ident r \<and> l \<noteq> ''node'')"
| "simple (Assert i s) = ident i"
| "simple (Act i a s) = ident i"
| "simple (On (OnHeartbeatMiss n) as) =
     (\<forall>a \<in> set as. case a of ReactLog s \<Rightarrow> True | ReactEmit e \<Rightarrow> ident e | ReactMarkInactive p \<Rightarrow> ident p
                          | ReactAdjustReputation p d \<Rightarrow> ident p)"
| "simple _ = False"

definition header_tokens :: "event_type \<Rightarrow> 32 word \<Rightarrow> u64 \<Rightarrow> string \<Rightarrow> token_kind list" where
  "header_tokens e n w target =
     [TkWord ''on'', TkWord ''event'', TkWord (event_word e), TkLParen, TkWord ''threshold'', TkColon, TkInt (ucast n), TkComma,
      TkWord ''window'', TkColon, TkInt w, TkWord ''s'', TkRParen, TkWord ''for'', TkWord target, TkLBrace]"

fun stmt_lines :: "stmt \<Rightarrow> token_kind list list" where
  "stmt_lines (ReactiveBlock e n w target body) = header_tokens e n w target # map simple_tokens body @ [[TkRBrace]]"
| "stmt_lines s = [simple_tokens s]"

fun printable :: "stmt \<Rightarrow> bool" where
  "printable (ReactiveBlock e n w target body) = (unat n \<le> MAX_REACTIVE_THRESHOLD \<and> ident target \<and> (\<forall>s \<in> set body. simple s))"
| "printable s = simple s"

definition program_text :: "stmt list \<Rightarrow> string" where
  "program_text p = concat (map (\<lambda>ks. line_text ks @ [CHR 0x0A]) (concat (map stmt_lines p)))"

end
