(* ===== verification/Nex_Parser_Theorems.thy ===== *)
theory Nex_Parser_Theorems
  imports Nex_Printing
begin

text \<open>
  Theorems on the parser of NEX programs: the canonical text of a program is parsed back, what every
  accepted program satisfies, and where the parser panics or ignores a part of its input.
\<close>

section \<open>Parsing the tokens of a simple statement\<close>

lemmas parse_defs =
  token_at_def word_of_def expect_word_def kind_at_def expect_eq_def keyword_at_def ensure_end_def lower_word_def
  parse_import_path_def parse_expr_def parse_action_def parse_type_def parse_strength_def parse_bool_def witness_count_def

lemma parse_strength_word: "tok_kind t = TkWord (strength_word s) \<Longrightarrow> parse_strength line t = Inr s"
  by (cases s) (simp_all add: parse_defs lower_char_def)

lemma parse_action_word: "tok_kind t = TkWord (action_name a) \<Longrightarrow> parse_action line t = Inr a"
  by (cases a) (simp_all add: parse_defs lower_char_def)

lemma parse_type_word: "tok_kind t = TkWord (type_word ty) \<Longrightarrow> parse_type line t = Inr ty"
  by (cases ty) (simp_all add: parse_defs lower_char_def)

lemma parse_bool_word: "tok_kind t = TkWord (if b then ''true'' else ''false'') \<Longrightarrow> parse_bool line t = Inr b"
  by (cases b) (simp_all add: parse_defs lower_char_def)

lemma parse_expr_token: "tok_kind t = expr_token v \<Longrightarrow> parse_expr t = Inr v"
  by (cases v) (simp_all add: parse_expr_def)

lemma map_kind_nth: "map tok_kind ts = ks \<Longrightarrow> i < length ks \<Longrightarrow> i < length ts \<and> tok_kind (ts ! i) = ks ! i"
  by auto

lemma map_kind_drop:
  assumes "map tok_kind (drop i ts) = ks" and "j < length ks"
  shows "i + j < length ts \<and> tok_kind (ts ! (i + j)) = ks ! j"
proof -
  have d: "j < length (drop i ts)" "tok_kind (drop i ts ! j) = ks ! j" using map_kind_nth [OF assms] by simp_all
  then show ?thesis by (simp add: less_diff_conv add.commute)
qed

lemma map_kind_rest: "map tok_kind (drop i ts) = ks @ ls \<Longrightarrow> map tok_kind (drop (i + length ks) ts) = ls"
  by (metis add.commute append_eq_conv_conj drop_drop drop_map)

lemma reaction_parsed:
  assumes "map tok_kind (drop i ts) = reaction_tokens a @ ks"
  shows "parse_reactive_action line ts i = Inr (a, i + length (reaction_tokens a))"
proof -
  note n = map_kind_drop [OF assms]
  have c: "ucast (scast d :: 64 word) = d" for d :: "32 word"
    by (rule bit_word_eqI) (simp add: bit_unsigned_iff bit_signed_iff)
  show ?thesis
    using n [of 0] n [of 1] n [of 2] c
    by (cases a) (simp_all add: parse_reactive_action_def parse_defs)
qed

lemma reactions_parsed:
  "map tok_kind (drop i ts) = reactions_tokens as \<Longrightarrow> parse_reactive_actions line ts i = Inr as"
proof (induction as arbitrary: i rule: reactions_tokens.induct)
  case 1
  then show ?case by (simp add: parse_reactive_actions.simps)
next
  case (2 a)
  have "map tok_kind (drop i ts) = reaction_tokens a @ []" using 2 by simp
  note p = reaction_parsed [OF this] and r = map_kind_rest [OF this]
  have "i < length ts" using map_kind_drop [of i ts "reaction_tokens a" 0] 2 by (cases a) simp_all
  then show ?case using p r by (simp add: parse_reactive_actions.simps)
next
  case (3 a b as)
  let ?j = "i + length (reaction_tokens a)"
  have k: "map tok_kind (drop i ts) = reaction_tokens a @ TkComma # reactions_tokens (b # as)" using 3(2) by simp
  note p = reaction_parsed [OF k] and r = map_kind_rest [OF k]
  have "?j < length ts \<and> tok_kind (ts ! ?j) = TkComma" using map_kind_drop [OF r, of 0] by simp
  moreover have "map tok_kind (drop (?j + 1) ts) = reactions_tokens (b # as)"
    using map_kind_rest [of ?j ts "[TkComma]"] r by simp
  then have "parse_reactive_actions line ts (?j + 1) = Inr (b # as)" by (rule 3(1))
  ultimately show ?case using p by (subst parse_reactive_actions.simps) simp
qed

lemma parse_statement_keyword:
  assumes "0 < length ts" and "tok_kind (ts ! 0) = TkWord kw"
  shows "parse_statement line ts =
    (if kw = ''use'' then parse_use line ts
     else if kw = ''let'' then parse_let line ts
     else if kw = ''attest'' then parse_attest line ts
     else if kw = ''assert'' then parse_assert line ts
     else if kw = ''act'' then parse_act line ts
     else if kw = ''if'' then parse_if line ts
     else if kw = ''on'' then
       parse_on line ts
         (pbind (block_header line ts) (\<lambda>(event, th, window, target).
          pbind (collect (parse_statement line) (body_segments [] (drop 16 ts))) (\<lambda>body.
            Inr (ReactiveBlock event th window target body))))
     else rejected line (column ts 0) (UnknownKeyword kw))"
  using assms by (cases ts; subst parse_statement.simps) (simp_all add: word_of_def column_def)

lemma simple_parsed:
  assumes "simple s" and "map tok_kind ts = simple_tokens s"
  shows "parse_statement line ts = Inr s"
proof -
  note k = map_kind_nth [OF assms(2)]
  have len: "length ts = length (simple_tokens s)" using arg_cong [OF assms(2), of length] by simp
  note parsed = parse_strength_word parse_action_word parse_type_word parse_bool_word parse_expr_token
  show ?thesis
  proof (cases s rule: simple.cases)
    case (1 p)
    then show ?thesis using assms(1) k [of 0] k [of 1] len
      by (simp add: parse_statement_keyword parse_use_def parse_defs)
  next
    case (2 i v s)
    then show ?thesis using k [of 0] k [of 1] k [of 2] k [of 3] k [of 4] k [of 5] len
      by (simp add: parse_statement_keyword parse_let_def parse_node_def parsed parse_defs(1-7))
  next
    case (3 i n b)
    have "sint (word_of_nat n :: 64 word) = int n"
      using 3 assms(1) using signed_take_bit_int_eq_self [of 63 "int n"] by (simp add: signed_of_nat)
    then show ?thesis using 3 k [of 0] k [of 1] k [of 2] k [of 3] k [of 4] k [of 5] len
      by (simp add: parse_statement_keyword parse_attest_def parsed parse_defs(1-7) witness_count_def)
  next
    case (4 i l r ty)
    then show ?thesis using assms(1) k [of 0] k [of 1] k [of 2] k [of 3] k [of 4] k [of 5] k [of 6] k [of 7] len
      by (simp add: parse_statement_keyword parse_let_def parse_derive_def parsed parse_defs(1-7))
  next
    case (5 i s)
    then show ?thesis using k [of 0] k [of 1] k [of 2] k [of 3] len
      by (simp add: parse_statement_keyword parse_assert_def parsed parse_defs(1-7))
  next
    case (6 i a s)
    then show ?thesis using k [of 0] k [of 1] k [of 2] k [of 3] k [of 4] k [of 5] len
      by (simp add: parse_statement_keyword parse_act_def parsed parse_defs(1-8) lower_char_def)
  next
    case (7 n as)
    have c: "ucast (ucast n :: 64 word) = n"
      by (rule bit_word_eqI) (auto simp: bit_unsigned_iff)
    have "map tok_kind (drop 5 ts) = reactions_tokens as"
      using map_kind_rest [of 0 ts _ "reactions_tokens as"] assms(2) 7 by (simp add: eval_nat_numeral)
    then have "parse_reactive_actions line ts 5 = Inr as" by (rule reactions_parsed)
    then show ?thesis using 7 c k [of 0] k [of 1] k [of 2] k [of 3] k [of 4] len
      by (simp add: parse_statement_keyword parse_on_def parse_heartbeat_trigger_def parse_defs(1-7))
  qed (use assms in simp_all)
qed

section \<open>Lines\<close>

text \<open>The tokens of printed statements are those the lexer reads back, and their text is one line.\<close>

lemma ident_words: "ident (strength_word s)" "ident (action_name a)" "ident (type_word ty)" "ident (event_word e)"
proof -
  show "ident (strength_word s)" by (cases s) (simp_all add: ident_def word_char_def is_digit_def)
  show "ident (action_name a)" by (cases a) (simp_all add: ident_def word_char_def is_digit_def)
  show "ident (type_word ty)" by (cases ty) (simp_all add: ident_def word_char_def is_digit_def)
  show "ident (event_word e)" by (cases e) (simp_all add: ident_def word_char_def is_digit_def)
qed

lemma ident_keywords:
  "\<forall>w \<in> {''use'', ''let'', ''node'', ''derive'', ''as'', ''attest'', ''with'', ''external'', ''true'', ''false'', ''assert'', ''act'',
     ''requires'', ''on'', ''heartbeat_miss'', ''event'', ''threshold'', ''window'', ''s'', ''for'', ''log'', ''emit'', ''marcar_inativo'',
     ''ajustar_reputacao''}. ident w"
  by (simp add: ident_def word_char_def is_digit_def)

lemma reactions_lexable:
  "\<forall>a \<in> set as. case a of ReactLog s \<Rightarrow> True | ReactEmit e \<Rightarrow> ident e | ReactMarkInactive p \<Rightarrow> ident p
     | ReactAdjustReputation p d \<Rightarrow> ident p \<Longrightarrow> \<forall>k \<in> set (reactions_tokens as). lexable k"
proof (induction as rule: reactions_tokens.induct)
  case (2 a)
  then show ?case using ident_keywords by (cases a) simp_all
next
  case (3 a b as)
  have "\<forall>k \<in> set (reaction_tokens a). lexable k" using 3(2) ident_keywords by (cases a) simp_all
  then show ?case using 3 by auto
qed simp

lemma simple_lexable:
  assumes "simple s"
  shows "\<forall>k \<in> set (simple_tokens s). lexable k"
  using assms
proof (induction s rule: simple.induct)
  case (2 i v s)
  then show ?case using ident_keywords by (cases v) (simp_all add: ident_words)
next
  case (3 i n b)
  then show ?case using ident_keywords by simp
next
  case (7 n as)
  then show ?case using ident_keywords reactions_lexable [of as] by simp
qed (use ident_keywords in \<open>simp_all add: ident_words\<close>)

lemma header_lexable: "ident target \<Longrightarrow> \<forall>k \<in> set (header_tokens e n w target). lexable k"
  using ident_keywords by (simp add: header_tokens_def ident_words)

lemma lines_lexable:
  assumes "printable s" and "ks \<in> set (stmt_lines s)"
  shows "\<forall>k \<in> set ks. lexable k"
proof (cases "\<exists>e n w t b. s = ReactiveBlock e n w t b")
  case True
  then obtain e n w t b where s: "s = ReactiveBlock e n w t b" by blast
  have "\<forall>k \<in> set (header_tokens e n w t). lexable k" using assms(1) s by (intro header_lexable) simp
  moreover have "\<forall>k \<in> set (simple_tokens r). lexable k" if "r \<in> set b" for r
    using that assms(1) s by (intro simple_lexable) simp
  ultimately show ?thesis using assms(2) s by auto
next
  case False
  then have "printable s = simple s" "stmt_lines s = [simple_tokens s]" by (cases s; simp)+
  then show ?thesis using assms simple_lexable by simp
qed

text \<open>No line feed or carriage return in the text of a line, and a start that is not a comment.\<close>

lemma token_no_break:
  assumes "lexable k"
  shows "CHR 0x0A \<notin> set (tk_text k)"
proof (cases k)
  case (TkInt v)
  have "is_digit c \<or> c = CHR ''-''" if "c \<in> set (int_text (sint v))" for c
    using that nat_text_digits by (auto simp: int_text_def split: if_splits)
  moreover have "\<not> is_digit (CHR 0x0A)" by (simp add: is_digit_def)
  ultimately show ?thesis using TkInt by fastforce
next
  case (TkStr s)
  then show ?thesis by (auto simp: escape_def split: if_splits)
next
  case (TkWord w)
  then show ?thesis using assms word_char_plain(9) by (auto simp: ident_def)
qed simp_all

lemma line_no_break: "\<forall>k \<in> set ks. lexable k \<Longrightarrow> CHR 0x0A \<notin> set (line_text ks)"
  using token_no_break by (auto simp: line_text_def)

lemma line_text_end: "ks \<noteq> [] \<Longrightarrow> line_text ks \<noteq> [] \<and> last (line_text ks) = CHR '' ''"
  by (induction ks rule: rev_induct) (simp_all add: line_text_def)

lemma lines_of_text:
  "\<forall>ks \<in> set kss. ks \<noteq> [] \<and> (\<forall>k \<in> set ks. lexable k) \<Longrightarrow>
     text_lines [] (concat (map (\<lambda>ks. line_text ks @ [CHR 0x0A]) kss)) = map line_text kss"
proof (induction kss)
  case (Cons ks kss)
  have "strip_cr (line_text ks) = line_text ks" using line_text_end [of ks] Cons.prems by (simp add: strip_cr_def)
  then show ?case using Cons text_lines_line [OF line_no_break, of ks "[]"] by simp
qed simp

lemma parse_line_text:
  assumes "ks \<noteq> []" and "\<forall>k \<in> set ks. lexable k"
  obtains ts where "map tok_kind ts = ks" and "parse_line P n (line_text ks) = add_tokens P n ts"
proof -
  obtain k ks' where ks: "ks = k # ks'" using assms(1) by (cases ks) auto
  obtain ch t where t: "tk_text k = ch # t" "\<not> is_space ch" "ch \<noteq> CHR ''#''" "ch \<noteq> CHR ''/''"
    using tk_text_start assms(2) ks by auto
  obtain u where u: "line_text ks = ch # u" using ks t(1) by (simp add: line_text_def)
  obtain ts where ts: "lex_from n 0 (line_text ks) = Inr ts" "map tok_kind ts = ks"
    using lex_from_text [OF assms(2)] by blast
  have "dropWhile is_space (line_text ks) = ch # u" using u t(2) by simp
  moreover have "parse_version_header (ch # u) = None" "\<not> is_comment_line (ch # u)"
    using t(3,4) by (simp_all add: parse_version_header_def strip_prefix_def is_comment_line_def next_is_def)
  moreover have "ts \<noteq> []" using ts(2) assms(1) by auto
  ultimately show thesis using that [OF ts(2)] ts(1) by (simp add: parse_line_def lex_line_def)
qed

section \<open>Statements and programs\<close>

abbreviation newline_token :: token where
  "newline_token \<equiv> \<lparr>tok_kind = TkNewline, tok_column = 0\<rparr>"

lemma braces_kinds: "braces k ts = int (count_list (map tok_kind ts) k)"
  by (induction ts) (simp_all add: braces_def)

lemma reactions_plain: "TkLBrace \<notin> set (reactions_tokens as) \<and> TkRBrace \<notin> set (reactions_tokens as) \<and> TkNewline \<notin> set (reactions_tokens as)"
proof (induction as rule: reactions_tokens.induct)
  case (2 a)
  then show ?case by (cases a) simp_all
next
  case (3 a b as)
  then show ?case by (cases a) simp_all
qed simp

lemma simple_plain:
  assumes "simple s"
  shows "simple_tokens s \<noteq> []" "TkLBrace \<notin> set (simple_tokens s)" "TkRBrace \<notin> set (simple_tokens s)" "TkNewline \<notin> set (simple_tokens s)"
proof -
  have "simple_tokens s \<noteq> [] \<and> TkLBrace \<notin> set (simple_tokens s) \<and> TkRBrace \<notin> set (simple_tokens s) \<and> TkNewline \<notin> set (simple_tokens s)"
    using assms
  proof (induction s rule: simple.induct)
    case (2 i v s)
    then show ?case by (cases v) simp_all
  next
    case (7 n as)
    then show ?case using reactions_plain by simp
  qed simp_all
  then show "simple_tokens s \<noteq> []" "TkLBrace \<notin> set (simple_tokens s)" "TkRBrace \<notin> set (simple_tokens s)"
    "TkNewline \<notin> set (simple_tokens s)" by simp_all
qed

lemma simple_braces:
  assumes "simple s" and "map tok_kind ts = simple_tokens s"
  shows "braces TkLBrace ts = 0" "braces TkRBrace ts = 0"
  using simple_plain(2,3) [OF assms(1)] by (simp_all add: braces_kinds assms(2) count_list_0_iff)

lemma parse_simple_line:
  assumes "simple s" and "block_tokens P = []" and "brace_depth P = 0"
  shows "parse_line P n (line_text (simple_tokens s)) =
    Inr \<lparr>statements = statements P @ [s], first_seen = True, block_tokens = [], brace_depth = 0, start_line = n\<rparr>"
proof -
  note plain = simple_plain(1) [OF assms(1)] and lex = simple_lexable [OF assms(1)]
  from parse_line_text [OF plain lex] obtain ts where ts: "map tok_kind ts = simple_tokens s"
    and l: "parse_line P n (line_text (simple_tokens s)) = add_tokens P n ts" .
  show ?thesis
    unfolding l add_tokens_def using assms simple_braces [OF assms(1) ts] simple_parsed [OF assms(1) ts] by (simp add: Let_def)
qed

lemma parse_body_lines:
  "block_tokens P \<noteq> [] \<Longrightarrow> brace_depth P = 1 \<Longrightarrow> \<forall>s \<in> set body. simple s \<Longrightarrow>
     \<exists>tss. map (map tok_kind) tss = map simple_tokens body \<and>
       parse_lines_from n P (map line_text (map simple_tokens body) @ rest) =
         parse_lines_from (n + length body) (P\<lparr>block_tokens := block_tokens P @ concat (map (\<lambda>ts. ts @ [newline_token]) tss)\<rparr>) rest"
proof (induction body arbitrary: P n)
  case Nil
  then show ?case by simp
next
  case (Cons s body)
  have s: "simple s" using Cons.prems by simp
  from parse_line_text [OF simple_plain(1) [OF s] simple_lexable [OF s]] obtain ts where ts: "map tok_kind ts = simple_tokens s"
    and l: "parse_line P n (line_text (simple_tokens s)) = add_tokens P n ts" .
  let ?P = "P\<lparr>block_tokens := block_tokens P @ ts @ [newline_token]\<rparr>"
  have "parse_line P n (line_text (simple_tokens s)) = Inr ?P"
    unfolding l add_tokens_def using Cons.prems simple_braces [OF s ts] by (cases P) (simp add: Let_def)
  moreover obtain tss where "map (map tok_kind) tss = map simple_tokens body"
    "parse_lines_from (n + 1) ?P (map line_text (map simple_tokens body) @ rest) =
       parse_lines_from (n + 1 + length body) (?P\<lparr>block_tokens := block_tokens ?P @ concat (map (\<lambda>ts. ts @ [newline_token]) tss)\<rparr>) rest"
    using Cons.IH [of ?P "n + 1"] Cons.prems by auto
  ultimately show ?case using ts by (intro exI [of _ "ts # tss"]) (simp add: add.assoc)
qed

lemma segments_of_lines:
  assumes "tok_kind rb = TkRBrace"
  shows "\<forall>ts \<in> set tss. ts \<noteq> [] \<and> (\<forall>t \<in> set ts. tok_kind t \<noteq> TkRBrace \<and> tok_kind t \<noteq> TkNewline) \<Longrightarrow>
    body_segments [] (concat (map (\<lambda>ts. ts @ [newline_token]) tss) @ rb # rest) = tss"
proof -
  have step: "\<forall>t \<in> set ts. tok_kind t \<noteq> TkRBrace \<and> tok_kind t \<noteq> TkNewline \<Longrightarrow>
      body_segments cur (ts @ rest) = body_segments (cur @ ts) rest" for ts cur rest
    by (induction ts arbitrary: cur) simp_all
  show "\<forall>ts \<in> set tss. ts \<noteq> [] \<and> (\<forall>t \<in> set ts. tok_kind t \<noteq> TkRBrace \<and> tok_kind t \<noteq> TkNewline) \<Longrightarrow>
    body_segments [] (concat (map (\<lambda>ts. ts @ [newline_token]) tss) @ rb # rest) = tss"
  proof (induction tss)
    case (Cons ts tss)
    then show ?case using step [of ts "[]"] by simp
  qed (simp add: assms)
qed

lemma collect_simple:
  "map (map tok_kind) tss = map simple_tokens body \<Longrightarrow> \<forall>s \<in> set body. simple s \<Longrightarrow> collect (parse_statement line) tss = Inr body"
proof (induction body arbitrary: tss)
  case (Cons s body)
  then obtain ts tss' where t: "tss = ts # tss'" "map tok_kind ts = simple_tokens s" "map (map tok_kind) tss' = map simple_tokens body"
    by auto
  have "parse_statement line ts = Inr s" using Cons.prems t(2) by (intro simple_parsed) simp_all
  then show ?case using Cons.IH [OF t(3)] Cons.prems t(1) by simp
qed simp

lemma header_parsed:
  assumes "map tok_kind ts = header_tokens e n w target @ ks" and "unat n \<le> MAX_REACTIVE_THRESHOLD"
  shows "block_header line ts = Inr (e, n, w, target)"
proof -
  note k = map_kind_nth [OF assms(1)]
  have c: "ucast (ucast n :: 64 word) = n"
    by (rule bit_word_eqI) (auto simp: bit_unsigned_iff)
  have e: "parse_event line t = Inr e" if "tok_kind t = TkWord (event_word e)" for t
    using that by (cases e) (simp_all add: parse_event_def word_of_def)
  show ?thesis
    using k [of 2] k [of 3] k [of 4] k [of 5] k [of 6] k [of 7] k [of 8] k [of 9] k [of 10] k [of 11] k [of 12] k [of 13]
      k [of 14] k [of 15] assms(2) c
    by (simp add: header_tokens_def block_header_def e parse_defs(1-7) this_word_def eq_or_colon_def block_threshold_def
        block_window_def Let_def)
qed

lemma block_parsed:
  assumes "printable (ReactiveBlock e n w target body)" and hd: "map tok_kind hs = header_tokens e n w target"
    and body: "map (map tok_kind) tss = map simple_tokens body" and rb: "tok_kind rb = TkRBrace"
  shows "parse_statement line (hs @ newline_token # concat (map (\<lambda>ts. ts @ [newline_token]) tss) @ rb # rest) =
    Inr (ReactiveBlock e n w target body)"
proof -
  let ?ts = "hs @ newline_token # concat (map (\<lambda>ts. ts @ [newline_token]) tss) @ rb # rest"
  have simple: "\<forall>s \<in> set body. simple s" and th: "unat n \<le> MAX_REACTIVE_THRESHOLD" using assms(1) by simp_all
  have k: "map tok_kind ?ts = header_tokens e n w target @ map tok_kind (drop (length hs) ?ts)" by (simp add: hd)
  have len: "length hs = 16" using arg_cong [OF hd, of length] by (simp add: header_tokens_def)
  have "\<forall>ts \<in> set tss. ts \<noteq> [] \<and> (\<forall>t \<in> set ts. tok_kind t \<noteq> TkRBrace \<and> tok_kind t \<noteq> TkNewline)"
  proof
    fix ts assume "ts \<in> set tss"
    then have "map tok_kind ts \<in> set (map simple_tokens body)" using body by (metis imageI list.set_map)
    then obtain s where s: "simple s" "map tok_kind ts = simple_tokens s" using simple by auto
    then show "ts \<noteq> [] \<and> (\<forall>t \<in> set ts. tok_kind t \<noteq> TkRBrace \<and> tok_kind t \<noteq> TkNewline)"
      using simple_plain [OF s(1)] by (metis (no_types, lifting) image_eqI list.set_map list.simps(8))
  qed
  from segments_of_lines [OF rb this, of rest] have seg: "body_segments [] (drop 16 ?ts) = tss" by (simp add: len)
  note kw = map_kind_nth [OF k]
  have first: "tok_kind (?ts ! 0) = TkWord ''on''" "tok_kind (?ts ! 1) = TkWord ''event''"
    using kw [of 0] kw [of 1] by (simp_all add: header_tokens_def)
  have "parse_statement line ?ts = parse_on line ?ts (pbind (block_header line ?ts) (\<lambda>(event, th, window, target).
      pbind (collect (parse_statement line) (body_segments [] (drop 16 ?ts))) (\<lambda>body. Inr (ReactiveBlock event th window target body))))"
    by (subst parse_statement_keyword [OF _ first(1)]) simp_all
  also have "\<dots> = pbind (block_header line ?ts) (\<lambda>(event, th, window, target).
      pbind (collect (parse_statement line) (body_segments [] (drop 16 ?ts))) (\<lambda>body. Inr (ReactiveBlock event th window target body)))"
    using first(2) by (simp only: parse_on_def) (simp add: token_at_def word_of_def)
  also have "\<dots> = Inr (ReactiveBlock e n w target body)"
    unfolding seg header_parsed [OF k th] by (simp add: collect_simple [OF body simple])
  finally show ?thesis .
qed

lemma parse_block_lines:
  assumes "printable (ReactiveBlock e k w target body)" and "block_tokens P = []" and "brace_depth P = 0"
  shows "parse_lines_from n P (map line_text (stmt_lines (ReactiveBlock e k w target body)) @ rest) =
    parse_lines_from (n + length body + 2)
      \<lparr>statements = statements P @ [ReactiveBlock e k w target body], first_seen = True, block_tokens = [], brace_depth = 0,
       start_line = n\<rparr> rest"
proof -
  have simple: "\<forall>s \<in> set body. simple s" and th: "unat k \<le> MAX_REACTIVE_THRESHOLD" and target: "ident target"
    using assms(1) by simp_all
  have ne: "header_tokens e k w target \<noteq> []" by (simp add: header_tokens_def)
  have rbl: "\<forall>k \<in> set [TkRBrace]. lexable k" by simp
  from parse_line_text [OF ne header_lexable [OF target]] obtain hs where hs: "map tok_kind hs = header_tokens e k w target"
    and l: "parse_line P n (line_text (header_tokens e k w target)) = add_tokens P n hs" .
  have "braces TkLBrace hs = 1" "braces TkRBrace hs = 0" by (simp_all add: braces_kinds hs header_tokens_def)
  then have head: "parse_line P n (line_text (header_tokens e k w target)) =
      Inr (P\<lparr>block_tokens := hs @ [newline_token], brace_depth := 1, start_line := n\<rparr>)"
    unfolding l add_tokens_def using assms(2,3) by (simp add: Let_def)
  let ?Q = "P\<lparr>block_tokens := hs @ [newline_token], brace_depth := 1, start_line := n\<rparr>"
  obtain tss where tss: "map (map tok_kind) tss = map simple_tokens body"
    and b: "parse_lines_from (n + 1) ?Q (map line_text (map simple_tokens body) @ line_text [TkRBrace] # rest) =
      parse_lines_from (n + 1 + length body) (?Q\<lparr>block_tokens := block_tokens ?Q @ concat (map (\<lambda>ts. ts @ [newline_token]) tss)\<rparr>)
        (line_text [TkRBrace] # rest)"
    using parse_body_lines [of ?Q body "n + 1" "line_text [TkRBrace] # rest"] simple by auto
  let ?R = "?Q\<lparr>block_tokens := block_tokens ?Q @ concat (map (\<lambda>ts. ts @ [newline_token]) tss)\<rparr>" and ?m = "n + 1 + length body"
  from parse_line_text [OF _ rbl] obtain rs where rs: "map tok_kind rs = [TkRBrace]"
    and r: "parse_line ?R ?m (line_text [TkRBrace]) = add_tokens ?R ?m rs"
    by blast
  obtain rb where rb: "rs = [rb]" "tok_kind rb = TkRBrace" using rs by auto
  have "braces TkLBrace rs = 0" "braces TkRBrace rs = 1" by (simp_all add: braces_kinds rs)
  then have tail: "parse_line ?R ?m (line_text [TkRBrace]) = Inr \<lparr>statements = statements P @ [ReactiveBlock e k w target body],
      first_seen = True, block_tokens = [], brace_depth = 0, start_line = n\<rparr>"
    unfolding r add_tokens_def using block_parsed [OF assms(1) hs tss rb(2), of n "[]"] by (simp add: Let_def rb(1))
  have "parse_lines_from n P (map line_text (stmt_lines (ReactiveBlock e k w target body)) @ rest) =
      parse_lines_from (n + 1) ?Q (map line_text (map simple_tokens body) @ line_text [TkRBrace] # rest)"
    using head by simp
  also have "\<dots> = parse_lines_from ?m ?R (line_text [TkRBrace] # rest)" by (rule b)
  also have "\<dots> = parse_lines_from (n + length body + 2) \<lparr>statements = statements P @ [ReactiveBlock e k w target body],
      first_seen = True, block_tokens = [], brace_depth = 0, start_line = n\<rparr> rest"
    using tail by simp
  finally show ?thesis .
qed

lemma parse_printed:
  "\<forall>s \<in> set p. printable s \<Longrightarrow> block_tokens P = [] \<Longrightarrow> brace_depth P = 0 \<Longrightarrow>
     \<exists>Q. parse_lines_from n P (map line_text (concat (map stmt_lines p))) = Inr Q \<and> statements Q = statements P @ p \<and> brace_depth Q = 0"
proof (induction p arbitrary: n P)
  case (Cons s p)
  have p: "\<forall>s \<in> set p. printable s" using Cons.prems by simp
  let ?rest = "map line_text (concat (map stmt_lines p))"
  obtain m where m: "parse_lines_from n P (map line_text (stmt_lines s) @ ?rest) =
      parse_lines_from m \<lparr>statements = statements P @ [s], first_seen = True, block_tokens = [], brace_depth = 0, start_line = n\<rparr> ?rest"
  proof (cases "\<exists>e k w t b. s = ReactiveBlock e k w t b")
    case True
    then show thesis using that parse_block_lines Cons.prems by (metis list.set_intros(1))
  next
    case False
    then have "simple s" "stmt_lines s = [simple_tokens s]" using Cons.prems(1) by (cases s; simp)+
    then show thesis using that parse_simple_line [OF _ Cons.prems(2,3)] by simp
  qed
  show ?case using Cons.IH [OF p, of "\<lparr>statements = statements P @ [s], first_seen = True, block_tokens = [], brace_depth = 0, start_line = n\<rparr>" m]
    by (simp add: m [simplified])
qed simp

lemma lines_not_empty: "printable s \<Longrightarrow> [] \<notin> set (stmt_lines s)"
  using simple_plain(1) by (cases s) (auto simp: header_tokens_def, metis+)

text \<open>
  C22: the canonical text of every printable program (identifiers of letters, digits, underscores and
  dots; any string literal, any integer; blocks of simple statements with a threshold within the limit) is parsed
  back to the same program. The lexer, the accumulation of the lines of a block and the statements are all involved.
\<close>

theorem nex_parse_printed:
  assumes "\<forall>s \<in> set p. printable s"
  shows "parse (program_text p) = Inr p"
proof -
  have "ks \<noteq> [] \<and> (\<forall>k \<in> set ks. lexable k)" if s: "s \<in> set p" "ks \<in> set (stmt_lines s)" for s ks
    using lines_lexable [OF _ s(2)] lines_not_empty [of s] assms s by metis
  then have "text_lines [] (program_text p) = map line_text (concat (map stmt_lines p))"
    unfolding program_text_def by (intro lines_of_text) auto
  then show ?thesis
    using parse_printed [OF assms, of parse_start 1] by (auto simp: parse_def parse_start_def)
qed

definition demo_program :: "stmt list" where
  "demo_program = [Node ''a'' (StrLit [CHR 0x22, CHR 0x0A]) Signed, Attest ''a'' 2 True,
     ReactiveBlock ZkProofInvalid 5 60 ''peer'' [Act ''a'' Deny Local, Assert ''a'' Anchored],
     On (OnHeartbeatMiss 3) [ReactLog ''x'', ReactAdjustReputation ''p'' (- 5)]]"

theorem nex_parse_printed_witness: "parse (program_text demo_program) = Inr demo_program"
proof (rule nex_parse_printed)
  show "\<forall>s \<in> set demo_program. printable s"
    by (simp add: demo_program_def ident_def word_char_def is_digit_def MAX_REACTIVE_THRESHOLD_def)
qed

end
