(* ===== verification/Nex_Parser_Limits.thy ===== *)
theory Nex_Parser_Limits
  imports Nex_Parser
begin

text \<open>
  What every accepted NEX program satisfies, among which that it has no conditional, where the parser
  panics, and which part of a reactive block it ignores.
\<close>

section \<open>No word is a colon\<close>

definition no_colon_word :: "token list \<Rightarrow> bool" where
  "no_colon_word ts \<longleftrightarrow> (\<forall>t \<in> set ts. tok_kind t \<noteq> TkWord '':'')"

lemma punctuation_no_word: "punctuation ch = Some k \<Longrightarrow> k \<noteq> TkWord w"
  by (auto simp: punctuation_def split: if_splits)

lemma number_no_word: "lex_number line col cs = Inr (k, r) \<Longrightarrow> k \<noteq> TkWord w"
  by (auto simp: lex_number_def Let_def split: if_splits)

lemma lex_token_no_colon:
  assumes "lex_token line col ch rest = Inr (k, r)"
  shows "k \<noteq> TkWord '':''"
proof (cases "ch = CHR '':''")
  case True
  then have "k = TkColon" using assms by (simp add: lex_token_def punctuation_def)
  then show ?thesis by simp
next
  case colon: False
  show ?thesis
  proof (cases "ch = CHR ''>'' \<and> next_is (CHR ''='') rest")
    case True
    then show ?thesis using assms by (simp add: lex_token_def)
  next
    case False
    note gte = this
    show ?thesis
    proof (cases "punctuation ch")
      case (Some k')
      then have "k = k'" using assms gte unfolding lex_token_def by (simp only: if_False option.case sum.inject prod.inject simp_thms)
      then show ?thesis using punctuation_no_word [OF Some] by simp
    next
      case None
      consider "ch = CHR 0x22" | "ch \<noteq> CHR 0x22" "ch = CHR ''-'' \<and> rest \<noteq> [] \<and> is_digit (hd rest) \<or> is_digit ch"
        | "ch \<noteq> CHR 0x22" "\<not> (ch = CHR ''-'' \<and> rest \<noteq> [] \<and> is_digit (hd rest) \<or> is_digit ch)" by blast
      then show ?thesis
      proof cases
        case 1
        then show ?thesis using assms by (auto simp: lex_token_def punctuation_def split: option.splits)
      next
        case 2
        then have "lex_number line col (ch # rest) = Inr (k, r)"
          using assms gte None unfolding lex_token_def by (simp only: if_False if_True option.case)
        then show ?thesis by (rule number_no_word)
      next
        case 3
        then have "k = TkWord (ch # fst (word_rest rest))"
          using assms gte None unfolding lex_token_def Let_def
          by (cases "word_rest rest") (simp only: if_False option.case prod.case sum.inject prod.inject fst_conv simp_thms)
        then show ?thesis using colon by (simp only: token_kind.inject list.inject simp_thms)
      qed
    qed
  qed
qed

lemma lex_from_no_colon: "lex_from line idx cs = Inr ts \<Longrightarrow> no_colon_word ts"
proof (induction line idx cs arbitrary: ts rule: lex_from.induct)
  case (2 line idx ch rest)
  show ?case
  proof (cases "is_space ch \<or> ch = CHR ''#'' \<or> ch = CHR ''/'' \<and> next_is (CHR ''/'') rest")
    case True
    then show ?thesis using 2 by (auto simp: no_colon_word_def split: if_splits)
  next
    case False
    then obtain k r ts' where "lex_token line (idx + 1) ch rest = Inr (k, r)"
      "lex_from line (idx + 1 + (length rest - length r)) r = Inr ts'" "ts = \<lparr>tok_kind = k, tok_column = idx + 1\<rparr> # ts'"
      using 2(3) by (auto simp: pbind_Inr)
    then show ?thesis using False 2(2) lex_token_no_colon by (simp add: no_colon_word_def)
  qed
qed (simp add: no_colon_word_def)

section \<open>Accepted statements\<close>

fun accepted :: "stmt \<Rightarrow> bool" where
  "accepted (Use p) = import_path_ok p"
| "accepted (Attest i n b) = (n < 2 ^ 63)"
| "accepted (If c t e) = False"
| "accepted (On t as) =
     (case t of OnHeartbeatMiss n \<Rightarrow> True | OnReputationBelow f \<Rightarrow> True | OnPeerConnected \<Rightarrow> True | OnPeerDisconnected \<Rightarrow> True
      | _ \<Rightarrow> False)"
| "accepted (ReactiveBlock e n w target body) = (unat n \<le> MAX_REACTIVE_THRESHOLD \<and> (\<forall>s \<in> set body. accepted s))"
| "accepted _ = True"

lemma parse_if_colon: "parse_if line ts = Inr s \<Longrightarrow> \<not> no_colon_word ts"
  by (auto simp: parse_if_def pbind_Inr no_colon_word_def Let_def split: if_splits)

lemma parse_let_accepted:
  assumes "parse_let line ts = Inr s"
  shows "accepted s"
proof -
  have n: "accepted s" if "parse_node line ts i = Inr s" for i
    using that by (auto simp: parse_node_def pbind_Inr)
  have d: "accepted s" if "parse_derive line ts i l = Inr s" for i l
    using that by (auto simp: parse_derive_def pbind_Inr)
  show ?thesis using assms by (auto simp: parse_let_def pbind_Inr) (auto split: token_kind.splits if_splits dest: n d)
qed

lemma parse_attest_accepted: "parse_attest line ts = Inr s \<Longrightarrow> accepted s"
proof -
  assume "parse_attest line ts = Inr s"
  then obtain t i n b where "witness_count line t = Inr n" "s = Attest i n b"
    by (auto simp: parse_attest_def pbind_Inr)
  then obtain v where v: "s = Attest i (nat (sint (v :: 64 word))) b" by (auto simp: witness_count_def split: token_kind.splits if_splits)
  have "sint v < 2 ^ 63" using sint_range_size [of v] by (simp add: word_size)
  then show ?thesis unfolding v by (simp add: nat_less_iff)
qed

lemma parse_on_accepted:
  assumes "parse_on line ts block = Inr s"
  shows "accepted s \<or> block = Inr s"
  using assms
  by (auto simp: parse_on_def parse_heartbeat_trigger_def parse_reputation_trigger_def pbind_Inr split: if_splits)
    (auto split: token_kind.splits)

lemma block_header_threshold: "block_header line ts = Inr (e, n, w, target) \<Longrightarrow> unat n \<le> MAX_REACTIVE_THRESHOLD"
proof -
  assume "block_header line ts = Inr (e, n, w, target)"
  then obtain t where "block_threshold line t = Inr n" by (auto simp: block_header_def pbind_Inr)
  then show ?thesis by (auto simp: block_threshold_def Let_def split: token_kind.splits if_splits)
qed

lemma segment_tokens: "seg \<in> set (body_segments cur ts) \<Longrightarrow> set seg \<subseteq> set cur \<union> set ts"
  by (induction cur ts rule: body_segments.induct) (auto split: if_splits)

lemma collect_elements: "collect f xs = Inr ys \<Longrightarrow> y \<in> set ys \<Longrightarrow> \<exists>x \<in> set xs. f x = Inr y"
  by (induction xs arbitrary: ys) (auto simp: pbind_Inr)

lemma statement_accepted: "parse_statement line ts = Inr s \<Longrightarrow> no_colon_word ts \<Longrightarrow> accepted s"
proof (induction ts arbitrary: s rule: measure_induct_rule [where f = length])
  case (less ts)
  obtain first rest kw where ts: "ts = first # rest" and kw: "word_of line first = Inr kw"
    using less.prems(1) by (cases ts; cases "word_of line (hd ts)") (simp_all add: parse_statement.simps)
  let ?block = "pbind (block_header line ts) (\<lambda>(event, th, window, target).
      pbind (collect (parse_statement line) (body_segments [] (drop 16 ts))) (\<lambda>body. Inr (ReactiveBlock event th window target body)))"
  have block: "accepted s" if b: "?block = Inr s"
  proof -
    obtain e n w target body where h: "block_header line ts = Inr (e, n, w, target)"
      and c: "collect (parse_statement line) (body_segments [] (drop 16 ts)) = Inr body" and s: "s = ReactiveBlock e n w target body"
      using b by (auto simp: pbind_Inr)
    have "accepted r" if r: "r \<in> set body" for r
    proof -
      obtain seg where seg: "seg \<in> set (body_segments [] (drop 16 ts))" "parse_statement line seg = Inr r"
        using collect_elements [OF c r] by blast
      have "no_colon_word seg"
        using segment_tokens [OF seg(1)] set_drop_subset [of 16 ts] less.prems(2) by (auto simp: no_colon_word_def)
      moreover have "length seg < length ts" using segment_length [OF seg(1)] block_header_length [OF h] by simp
      ultimately show ?thesis using less.IH seg(2) by blast
    qed
    then show ?thesis using block_header_threshold [OF h] s by simp
  qed
  have p: "(if kw = ''use'' then parse_use line ts else if kw = ''let'' then parse_let line ts
      else if kw = ''attest'' then parse_attest line ts else if kw = ''assert'' then parse_assert line ts
      else if kw = ''act'' then parse_act line ts else if kw = ''if'' then parse_if line ts
      else if kw = ''on'' then parse_on line ts ?block
      else rejected line (tok_column first) (UnknownKeyword kw)) = Inr s"
    using less.prems(1) kw unfolding parse_statement.simps [of line ts] by (simp only: ts list.case pbind_simps)
  consider "kw = ''use'' \<or> kw = ''assert'' \<or> kw = ''act''" | "kw = ''on''" | "kw = ''let'' \<or> kw = ''attest'' \<or> kw = ''if''"
    using p by (auto split: if_splits)
  then show ?case
  proof cases
    case 1
    then show ?thesis using p
      by (auto simp: parse_use_def parse_assert_def parse_act_def parse_import_path_def pbind_Inr split: if_splits)
  next
    case 2
    then have "parse_on line ts ?block = Inr s" using p by simp
    then show ?thesis using parse_on_accepted block by blast
  next
    case 3
    then show ?thesis using p parse_let_accepted parse_attest_accepted parse_if_colon less.prems(2) by (auto split: if_splits)
  qed
qed

section \<open>Panics\<close>

lemma parts_no_panic [simp]:
  "token_at l ts i c m \<noteq> Inl IndexPanic" "word_of l t \<noteq> Inl IndexPanic" "ensure_end l ts i \<noteq> Inl IndexPanic"
  "lower_word l t \<noteq> Inl IndexPanic" "witness_count l t \<noteq> Inl IndexPanic" "parse_expr t \<noteq> Inl IndexPanic"
  by (auto simp: token_at_def word_of_def ensure_end_def lower_word_def witness_count_def parse_expr_def pbind_panic
      split: token_kind.splits)

lemma composed_no_panic [simp]:
  "expect_word l ts i m \<noteq> Inl IndexPanic" "kind_at l ts i c k m \<noteq> Inl IndexPanic" "expect_eq l ts i m \<noteq> Inl IndexPanic"
  "keyword_at l ts i c kw m \<noteq> Inl IndexPanic" "parse_strength l t \<noteq> Inl IndexPanic" "parse_action l t \<noteq> Inl IndexPanic"
  "parse_type l t \<noteq> Inl IndexPanic" "parse_bool l t \<noteq> Inl IndexPanic" "parse_import_path l t \<noteq> Inl IndexPanic"
  by (auto simp: expect_word_def kind_at_def expect_eq_def keyword_at_def parse_strength_def parse_action_def parse_type_def
      parse_bool_def parse_import_path_def pbind_panic split: if_splits)

lemma simple_no_panic:
  "parse_use l ts \<noteq> Inl IndexPanic" "parse_let l ts \<noteq> Inl IndexPanic" "parse_attest l ts \<noteq> Inl IndexPanic"
  "parse_assert l ts \<noteq> Inl IndexPanic" "parse_act l ts \<noteq> Inl IndexPanic" "parse_if l ts \<noteq> Inl IndexPanic"
  by (auto simp: parse_use_def parse_let_def parse_node_def parse_derive_def parse_attest_def parse_assert_def parse_act_def
      parse_if_def second_condition_def Let_def pbind_panic split: if_splits token_kind.splits)

lemma statement_panic:
  assumes "parse_statement line ts = Inl IndexPanic"
  shows "\<exists>t \<in> set ts. tok_kind t = TkWord ''on''"
proof -
  obtain first rest where ts: "ts = first # rest" using assms by (cases ts) (simp_all add: parse_statement.simps)
  have "word_of line first = Inr ''on''"
    using assms simple_no_panic unfolding parse_statement.simps [of line ts]
    by (auto simp: ts pbind_panic split: if_splits)
  then show ?thesis by (auto simp: ts word_of_def split: token_kind.splits)
qed

lemma number_no_panic: "lex_number line col cs \<noteq> Inl IndexPanic"
  by (simp add: lex_number_def Let_def)

lemma lex_token_no_panic: "lex_token line col ch rest \<noteq> Inl IndexPanic"
  unfolding lex_token_def by (auto simp: number_no_panic split: option.splits prod.splits)

lemma lex_from_no_panic: "lex_from line idx cs \<noteq> Inl IndexPanic"
  by (induction line idx cs rule: lex_from.induct) (auto simp: lex_token_no_panic pbind_panic)

section \<open>Lines\<close>

lemma guarded_panic:
  "(if a then Inr x else if b then if c then Inl (Rejected e) else Inr x else if d then Inr x else m) = Inl IndexPanic \<Longrightarrow>
     m = Inl IndexPanic"
  by (simp split: if_splits)

lemma parse_line_cases:
  assumes "parse_line P n raw = Inr Q"
  obtains "Q = P"
  | ts where "lex_line raw n = Inr ts" "set (block_tokens Q) \<subseteq> set (block_tokens P) \<union> set ts \<union> {\<lparr>tok_kind = TkNewline, tok_column = 0\<rparr>}"
      "statements Q = statements P"
  | ts start s where "lex_line raw n = Inr ts" "block_tokens Q = []" "parse_statement start (block_tokens P @ ts) = Inr s"
      "statements Q = statements P @ [s]"
proof (cases "Q = P")
  case False
  then obtain ts where ts: "lex_line raw n = Inr ts" and r: "add_tokens P n ts = Inr Q"
    using assms unfolding parse_line_def Let_def
    by (simp only: sum.inject sum.distinct pbind_Inr simp_thms split: if_split_asm) (simp split: if_splits, blast)
  show thesis
  proof (cases "brace_depth P + braces TkLBrace ts - braces TkRBrace ts = 0")
    case True
    then show thesis using r that(3) [OF ts] by (auto simp: add_tokens_def Let_def pbind_Inr)
  next
    case False
    then show thesis using r by (intro that(2) [OF ts]) (auto simp: add_tokens_def Let_def)
  qed
qed (rule that(1))

lemma parse_line_panic:
  assumes "parse_line P n raw = Inl IndexPanic"
  shows "\<exists>ts start. lex_line raw n = Inr ts \<and> parse_statement start (block_tokens P @ ts) = Inl IndexPanic"
proof -
  obtain ts where ts: "lex_line raw n = Inr ts" "add_tokens P n ts = Inl IndexPanic"
    using guarded_panic [OF assms [unfolded parse_line_def Let_def]] lex_from_no_panic [of n 0 raw]
    by (auto simp: pbind_panic lex_line_def split: if_splits)
  then show ?thesis by (auto simp: add_tokens_def Let_def pbind_panic split: if_splits)
qed

lemma all_tokens:
  "set us \<subseteq> set vs \<union> set ws \<union> {n} \<Longrightarrow> \<forall>t \<in> set vs. P t \<Longrightarrow> \<forall>t \<in> set ws. P t \<Longrightarrow> P n \<Longrightarrow> \<forall>t \<in> set us. P t"
  by blast

lemma lines_accepted:
  "parse_lines_from n P ls = Inr Q \<Longrightarrow> no_colon_word (block_tokens P) \<Longrightarrow> \<forall>s \<in> set (statements P). accepted s \<Longrightarrow>
     \<forall>s \<in> set (statements Q). accepted s"
proof (induction ls arbitrary: n P)
  case (Cons l ls)
  obtain R where R: "parse_line P n l = Inr R" "parse_lines_from (n + 1) R ls = Inr Q" using Cons.prems(1) by (auto simp: pbind_Inr)
  have lex: "no_colon_word ts" if "lex_line l n = Inr ts" for ts using that lex_from_no_colon by (simp add: lex_line_def)
  show ?case
  proof (cases rule: parse_line_cases [OF R(1)])
    case 1
    then show ?thesis using Cons.IH R Cons.prems by blast
  next
    case (2 ts)
    have "no_colon_word (block_tokens R)"
      unfolding no_colon_word_def
      by (rule all_tokens [OF 2(2) Cons.prems(2) [unfolded no_colon_word_def] lex [OF 2(1), unfolded no_colon_word_def]]) simp
    from Cons.IH [OF R(2) this] show ?thesis using 2(3) Cons.prems(3) by simp
  next
    case (3 ts start s)
    have "no_colon_word (block_tokens P @ ts)" using lex [OF 3(1)] Cons.prems(2) by (simp add: no_colon_word_def ball_Un)
    with 3(3) have "accepted s" by (rule statement_accepted)
    then have "\<forall>s \<in> set (statements R). accepted s" using 3(4) Cons.prems(3) by simp
    moreover have "no_colon_word (block_tokens R)" by (simp add: 3(2) no_colon_word_def)
    ultimately show ?thesis using Cons.IH [OF R(2)] by blast
  qed
qed simp

lemma lines_panic:
  "parse_lines_from n P ls = Inl IndexPanic \<Longrightarrow> \<forall>t \<in> set (block_tokens P). tok_kind t \<noteq> TkWord ''on'' \<Longrightarrow>
     \<exists>l \<in> set ls. \<exists>m ts. lex_line l m = Inr ts \<and> (\<exists>t \<in> set ts. tok_kind t = TkWord ''on'')"
proof (induction ls arbitrary: n P)
  case (Cons l ls)
  from Cons.prems(1) consider "parse_line P n l = Inl IndexPanic"
    | R where "parse_line P n l = Inr R" "parse_lines_from (n + 1) R ls = Inl IndexPanic" by (auto simp: pbind_panic)
  then show ?case
  proof cases
    case 1
    then obtain ts start where "lex_line l n = Inr ts" "parse_statement start (block_tokens P @ ts) = Inl IndexPanic"
      using parse_line_panic by blast
    then show ?thesis using statement_panic Cons.prems(2) by (fastforce)
  next
    case (2 R)
    show ?thesis
    proof (cases "\<exists>t \<in> set (block_tokens R). tok_kind t = TkWord ''on''")
      case False
      then show ?thesis using Cons.IH [OF 2(2)] by auto
    next
      case True
      show ?thesis
      proof (cases rule: parse_line_cases [OF 2(1)])
        case 1
        then show ?thesis using True Cons.prems(2) by blast
      next
        case (2 ts)
        have "\<exists>t \<in> set ts. tok_kind t = TkWord ''on''"
        proof (rule ccontr)
          assume "\<not> ?thesis"
          then have "\<forall>t \<in> set ts. tok_kind t \<noteq> TkWord ''on''" by blast
          from all_tokens [OF 2(2) Cons.prems(2) this] show False using True by simp
        qed
        then show ?thesis using 2(1) by auto
      next
        case (3 ts start s)
        then show ?thesis using True by simp
      qed
    qed
  qed
qed simp

section \<open>Properties\<close>

text \<open>
  C23: every statement of an accepted program is of the kinds the parser can build: imports have a
  well-formed path, witness counts fit in 63 bits, triggers are the four with a syntax, thresholds of blocks are within the
  limit, also in the bodies of blocks. There is no conditional: a colon is never read as a word, which the
  parser of \<open>if\<close> asks for, so every conditional is rejected.
\<close>

theorem nex_accepted_programs:
  assumes "parse source = Inr p"
  shows "\<forall>s \<in> set p. accepted s"
proof -
  obtain Q where Q: "parse_lines_from 1 parse_start (text_lines [] source) = Inr Q" "p = statements Q"
    using assms by (auto simp: parse_def pbind_Inr split: if_splits)
  show ?thesis unfolding Q(2) by (rule lines_accepted [OF Q(1)]) (simp_all add: parse_start_def no_colon_word_def)
qed

theorem nex_accepted_programs_witness:
  "\<exists>p. parse ''attest a with 2 external true'' = Inr p \<and> (\<forall>s \<in> set p. accepted s) \<and>
     parse ''if a >= signed : allow'' = Inl (Rejected (Syntax 1 16 (ExpectedWord TkColon)))"
proof -
  have p: "parse ''attest a with 2 external true'' = Inr [Attest ''a'' 2 True]" by code_simp
  have "parse ''if a >= signed : allow'' = Inl (Rejected (Syntax 1 16 (ExpectedWord TkColon)))" by code_simp
  then show ?thesis using p nex_accepted_programs [OF p] by blast
qed

text \<open>
  C24: a source panics only when some line has the word \<open>on\<close>. Then it may: a rule for a connection without two more
  words, and a block cut off after the name of a parameter, index past the end of their tokens. The
  documented form of the first is rejected, as its colon is looked for two tokens later.
\<close>

theorem nex_parser_panics:
  "(parse source = Inl IndexPanic \<longrightarrow>
      (\<exists>l \<in> set (text_lines [] source). \<exists>n ts. lex_line l n = Inr ts \<and> TkWord ''on'' \<in> tok_kind ` set ts)) \<and>
   parse ''on peer_connected'' = Inl IndexPanic \<and>
   parse ''on event ZkProofInvalid(threshold'' = Inl IndexPanic \<and>
   parse ''on peer_connected: emit x'' = Inl (Rejected (Syntax 1 25 (Text ''expected : after trigger'')))"
proof (intro conjI impI)
  assume "parse source = Inl IndexPanic"
  then have "parse_lines_from 1 parse_start (text_lines [] source) = Inl IndexPanic"
    by (auto simp: parse_def pbind_panic split: if_splits)
  from lines_panic [OF this] have "\<exists>l \<in> set (text_lines [] source). \<exists>n ts. lex_line l n = Inr ts \<and>
      (\<exists>t \<in> set ts. tok_kind t = TkWord ''on'')" by (simp add: parse_start_def)
  then show "\<exists>l \<in> set (text_lines [] source). \<exists>n ts. lex_line l n = Inr ts \<and> TkWord ''on'' \<in> tok_kind ` set ts"
    by (metis imageI)
next
  show "parse ''on peer_connected'' = Inl IndexPanic" by code_simp
next
  show "parse ''on event ZkProofInvalid(threshold'' = Inl IndexPanic" by code_simp
next
  show "parse ''on peer_connected: emit x'' = Inl (Rejected (Syntax 1 25 (Text ''expected : after trigger'')))" by code_simp
qed

theorem nex_parser_panics_witness:
  "\<exists>l \<in> set (text_lines [] ''on peer_connected''). \<exists>n ts. lex_line l n = Inr ts \<and> TkWord ''on'' \<in> tok_kind ` set ts"
  using nex_parser_panics [of "''on peer_connected''"] by blast

text \<open>
  A block ends at its first closing brace: whatever follows is ignored, statements and the rest of an outer
  block included.
\<close>

lemma segments_tail: "tok_kind rb = TkRBrace \<Longrightarrow> body_segments cur (ts @ rb # rest) = body_segments cur (ts @ [rb])"
  by (induction cur ts rule: body_segments.induct) simp_all

lemma block_header_append:
  assumes "block_header line ts = Inr h"
  shows "block_header line (ts @ us) = Inr h"
proof -
  have "15 < length ts" using block_header_length [OF assms] .
  then show ?thesis using assms
    by (simp add: block_header_def token_at_def kind_at_def this_word_def expect_word_def eq_or_colon_def column_def nth_append
        cong: if_cong)
qed

theorem nex_block_ignores_tail:
  assumes "block_header line ts = Inr h" and "tok_kind (ts ! 0) = TkWord ''on''" and "tok_kind (ts ! 1) = TkWord ''event''"
    and "tok_kind rb = TkRBrace"
  shows "parse_statement line (ts @ rb # rest) = parse_statement line (ts @ [rb])"
proof -
  have len: "15 < length ts" using block_header_length [OF assms(1)] .
  have p: "parse_statement line (ts @ rb # us) = pbind (block_header line ts) (\<lambda>(event, th, window, target).
      pbind (collect (parse_statement line) (body_segments [] (drop 16 ts @ [rb]))) (\<lambda>body.
        Inr (ReactiveBlock event th window target body)))" for us
  proof -
    obtain first rest' where ts: "ts = first # rest'" using len by (cases ts) auto
    have h: "block_header line (ts @ rb # us) = block_header line ts" using block_header_append assms(1) by simp
    have seg: "body_segments [] (drop 16 (ts @ rb # us)) = body_segments [] (drop 16 ts @ [rb])"
      using segments_tail [OF assms(4), of "[]" "drop 16 ts" us] len by simp
    have first: "word_of line first = Inr ''on''" using assms(2) ts by (simp add: word_of_def)
    have kw: "token_at line (ts @ rb # us) 1 c m = Inr (ts ! 1)" "word_of line (ts ! 1) = Inr ''event''" for c m
      using assms(3) len by (auto simp: word_of_def token_at_def nth_append)
    have "parse_statement line (ts @ rb # us) = parse_on line (ts @ rb # us) (pbind (block_header line (ts @ rb # us))
        (\<lambda>(event, th, window, target). pbind (collect (parse_statement line) (body_segments [] (drop 16 (ts @ rb # us)))) (\<lambda>body.
          Inr (ReactiveBlock event th window target body))))"
      using first by (subst parse_statement.simps) (simp add: ts)
    then show ?thesis unfolding h seg parse_on_def kw(1) pbind_simps kw(2) by simp
  qed
  show ?thesis unfolding p ..
qed

end
