(* ===== verification/Nex_Reactive_Theorems.thy ===== *)
theory Nex_Reactive_Theorems
  imports Nex_Reactive
begin

text \<open>
  What the reactive rules do: evaluation against its specification by lists, the effects of the executor on the
  membrane and on reputations, and what the monitor of the heartbeats ever triggers.
\<close>

section \<open>Evaluation\<close>

fun rule_fires :: "network_event \<Rightarrow> reactive_rule \<Rightarrow> bool" where
  "rule_fires ev (Legacy tr acts) \<longleftrightarrow> matches_trigger tr ev"
| "rule_fires ev (Block et th w target body) \<longleftrightarrow> matches_event et ev \<noteq> None"

fun rule_actions :: "network_event \<Rightarrow> reactive_rule \<Rightarrow> executable_action list" where
  "rule_actions ev (Legacy tr acts) = (if matches_trigger tr ev then List.map_filter (\<lambda>a. prepare_action a ev) acts else [])"
| "rule_actions ev (Block et th w target body) =
     (case matches_event et ev of Some p \<Rightarrow> [RunNexBlock p body] | None \<Rightarrow> [])"

lemma evaluate_rule_spec:
  "evaluate_rule ev r R =
     R\<lparr>matched := matched R \<or> rule_fires ev r, result_actions := result_actions R @ rule_actions ev r\<rparr>"
  by (cases r) (auto split: option.splits)

lemma evaluate_fold:
  "fold (evaluate_rule ev) rs R =
     R\<lparr>matched := matched R \<or> list_ex (rule_fires ev) rs, result_actions := result_actions R @ concat (map (rule_actions ev) rs)\<rparr>"
  by (induction rs arbitrary: R) (simp_all add: evaluate_rule_spec)

lemma evaluate_spec:
  "evaluate E ev =
     \<lparr>matched = list_ex (rule_fires ev) (engine_rules E), result_actions = concat (map (rule_actions ev) (engine_rules E))\<rparr>"
  by (simp add: evaluate_def evaluate_fold)

lemma add_rule_advanced: "engine_layer E = Advanced \<Longrightarrow> add_rule E r = (Inr (), E\<lparr>engine_rules := engine_rules E @ [r]\<rparr>)"
  by (simp add: add_rule_def less_nex_layer_def)

lemma add_rule_below: "engine_layer E \<noteq> Advanced \<Longrightarrow> add_rule E r = (Inl (LayerTooLow Advanced (engine_layer E)), E)"
  by (cases "engine_layer E") (simp_all add: add_rule_def less_nex_layer_def)

lemma load_fold_advanced:
  "engine_layer E = Advanced \<Longrightarrow>
     fold load_statement p (n, E) =
       (n + length (List.map_filter statement_rule p), E\<lparr>engine_rules := engine_rules E @ List.map_filter statement_rule p\<rparr>)"
proof (induction p arbitrary: n E)
  case (Cons s p)
  then show ?case
    by (cases "statement_rule s") (simp_all add: load_statement_def add_rule_advanced map_filter_simps)
qed (simp add: map_filter_simps)

lemma load_fold_below: "engine_layer E \<noteq> Advanced \<Longrightarrow> fold load_statement p (n, E) = (n, E)"
proof (induction p)
  case (Cons s p)
  then show ?case by (cases "statement_rule s") (simp_all add: load_statement_def add_rule_below)
qed simp

lemma load_from_program_spec:
  "load_from_program (with_layer l) p =
     (if l = Advanced
      then (length (List.map_filter statement_rule p), \<lparr>engine_rules = List.map_filter statement_rule p, engine_layer = Advanced\<rparr>)
      else (0, with_layer l))"
  by (simp add: load_from_program_def load_fold_advanced load_fold_below with_layer_def)

section \<open>The executor\<close>

fun block_target :: "executable_action \<Rightarrow> string option" where
  "block_target (RunNexBlock t body) = Some t"
| "block_target _ = None"

text \<open>The addresses whose IP is banned by a list of actions, in order.\<close>

definition banned_addrs :: "exec_env \<Rightarrow> executable_action list \<Rightarrow> addr list" where
  "banned_addrs V acts = List.map_filter (peer_addrs V) (List.map_filter block_target acts)"

lemma execute_membrane:
  "ex_membrane (fold (execute_action V now) acts S) =
     map_option (\<lambda>B. fold (\<lambda>a B. ban_ip (ip_hash V) B (ip_of V a)) (banned_addrs V acts) B) (ex_membrane S)"
proof (induction acts arbitrary: S)
  case Nil
  then show ?case by (cases "ex_membrane S") (simp_all add: banned_addrs_def map_filter_simps)
next
  case (Cons a acts)
  then show ?case
    by (cases a) (auto simp: banned_addrs_def map_filter_simps case_prod_beta Let_def split: option.splits)
qed

lemma run_block_only:
  assumes "\<forall>a \<in> set acts. block_target a \<noteq> None"
  shows "ex_states (fold (execute_action V now) acts S) = ex_states S \<and>
    ex_reputation (fold (execute_action V now) acts S) = ex_reputation S"
  using assms
proof (induction acts arbitrary: S)
  case (Cons a acts)
  then show ?case by (cases a) (auto split: option.splits)
qed simp

lemma ban_fold:
  "fold (\<lambda>a B. ban_ip h B (ip a)) as B = foldl (ban_ip h) B (map ip as)"
  by (induction as arbitrary: B) simp_all

section \<open>Reputations\<close>

lemma make_room_unknown: "map_of R p = None \<Longrightarrow> map_of (make_room R) p = None"
proof -
  assume "map_of R p = None"
  then have "p \<notin> fst ` set (sort_key fst R)" by (simp add: map_of_eq_None_iff)
  then have "p \<notin> fst ` set (make_room R)"
    using set_delete_subset [of _ "sort_key fst R"] by (auto simp: make_room_def evict_min_def split: option.splits)
  then show ?thesis by (simp add: map_of_eq_None_iff)
qed

lemma note_success_times: "banned (((\<lambda>r. note_success r now) ^^ k) r) = banned r"
  by (induction k) (simp_all add: note_success_def Let_def)

lemma note_failure_times:
  assumes "failures r = 0" and "\<not> banned r" and "k < 2 ^ 31"
  shows "unat (failures (((\<lambda>r. note_failure r now) ^^ k) r)) = k \<and>
    (banned (((\<lambda>r. note_failure r now) ^^ k) r) \<longleftrightarrow> 10 \<le> k) \<and>
    (10 \<le> k \<longrightarrow> ban_expires_at (((\<lambda>r. note_failure r now) ^^ k) r) = Some (now + BAN_MILLIS))"
  using assms(3)
proof (induction k)
  case 0
  then show ?case using assms by simp
next
  case (Suc k)
  define q where "q = ((\<lambda>r. note_failure r now) ^^ k) r"
  have q: "unat (failures q) = k" "banned q \<longleftrightarrow> 10 \<le> k" using Suc by (simp_all add: q_def)
  then have f: "unat (failures q + 1) = Suc k" using Suc.prems by (simp add: unat_word_ariths)
  then have "10 \<le> failures q + 1 \<longleftrightarrow> 10 \<le> Suc k" by (simp add: word_le_nat_alt)
  moreover have "((\<lambda>r. note_failure r now) ^^ Suc k) r = note_failure q now" by (simp add: q_def)
  ultimately show ?case using f q by (auto simp: note_failure_def Let_def)
qed

lemma minus_min: "sint (- d) = (if d = 0x80000000 then - (2 ^ 31) else - sint d)" for d :: "32 word"
proof (cases "d = 0x80000000")
  case False
  have "sint d \<noteq> - (2 ^ 31)"
  proof
    assume "sint d = - (2 ^ 31)"
    then have "(word_of_int (sint d) :: 32 word) = word_of_int (- (2 ^ 31))" by simp
    then show False using False by simp
  qed
  moreover have "- (2 ^ 31) \<le> sint d" "sint d < 2 ^ 31" using sint_range_size [of d] by (simp_all add: word_size)
  ultimately show ?thesis using False by (simp add: sint_word_ariths signed_take_bit_int_eq_self)
qed simp

section \<open>The monitor\<close>

fun monitor_step :: "exec_env \<Rightarrow> reactive_engine \<Rightarrow> monitor_state \<Rightarrow> heartbeat_op \<Rightarrow> monitor_state" where
  "monitor_step V E M (MonitorRound now) = monitor_round V E (nat now) M"
| "monitor_step V E M x = M\<lparr>mon_states := heartbeat_step (mon_states M) x\<rparr>"

lemma monitor_events_disconnect:
  assumes "all_never_missed T" and "ev \<in> set (monitor_events T now)"
  shows "\<exists>a. ev = EvPeerDisconnected a"
proof -
  obtain a p where p: "(a, p) \<in> set T" "monitor_event now (a, p) = Some ev"
    using assms(2) by (auto simp: monitor_events_def List.map_filter_def)
  have n: "never_missed p" using assms(1) p(1) by (auto simp: all_never_missed_def)
  show ?thesis
  proof (cases "heartbeat_window p = []")
    case True
    then have "is_inactive p 300 now" using n by (simp add: never_missed_inactive)
    then show ?thesis using p(2) by (auto simp: monitor_event_def)
  next
    case False
    then have "consecutive_misses p = 0" "\<not> is_inactive p 300 now" using n by (auto simp: never_missed_def never_missed_inactive)
    then show ?thesis using p(2) by (simp add: monitor_event_def)
  qed
qed

definition deaf :: "reactive_engine \<Rightarrow> bool" where
  "deaf E \<longleftrightarrow> (\<forall>acts. Legacy OnPeerDisconnected acts \<notin> set (engine_rules E))"

lemma deaf_unmatched: "deaf E \<Longrightarrow> \<not> matched (evaluate E (EvPeerDisconnected a))"
proof -
  assume d: "deaf E"
  have "\<not> rule_fires (EvPeerDisconnected a) r" if "r \<in> set (engine_rules E)" for r
  proof (cases r)
    case (Legacy tr acts)
    then show ?thesis using d that by (cases tr) (auto simp: deaf_def)
  next
    case (Block et th w target body)
    then show ?thesis by (cases et) simp_all
  qed
  then show ?thesis by (auto simp: evaluate_spec list_ex_iff)
qed

lemma quiet_reactions:
  assumes "\<forall>ev \<in> set evs. \<not> matched (evaluate E ev)"
  shows "fold (react V E now) evs TR = TR"
  using assms by (induction evs arbitrary: TR) (auto simp: react_def)

lemma quiet_round:
  assumes "deaf E" and "all_never_missed (mon_states M)"
  shows "all_never_missed (mon_states (monitor_round V E now M)) \<and>
    mon_reputation (monitor_round V E now M) = mon_reputation M"
proof -
  have "\<forall>ev \<in> set (monitor_events (mon_states M) (int now)). \<not> matched (evaluate E ev)"
    using monitor_events_disconnect [OF assms(2)] deaf_unmatched [OF assms(1)] by blast
  note q = quiet_reactions [OF this]
  have "all_never_missed (case map_of T a of Some p \<Rightarrow> AList.update a (schedule_reconnect p t) T | None \<Rightarrow> T)"
    if "all_never_missed T" for T :: peer_states and a t
    using all_never_missed_lookup [of T a] that by (auto split: option.splits)
  then show ?thesis
    using assms(2) by (simp add: monitor_round_def Let_def q reconnect_all_def all_never_missed_fold)
qed

lemma quiet_step:
  assumes "deaf E" and "all_never_missed (mon_states M)"
  shows "all_never_missed (mon_states (monitor_step V E M x)) \<and> mon_reputation (monitor_step V E M x) = mon_reputation M"
  using quiet_round [OF assms] beats.step_inv assms(2) by (cases x) (simp_all del: heartbeat_step.simps)

text \<open>The layer of a program looks at its outermost statements only, and not at reactive blocks.\<close>

lemma layer_fold:
  "fold layer_step ss l =
     (if l = Advanced \<or> (\<exists>tr acts. On tr acts \<in> set ss) then Advanced
      else if l = Intermediate \<or> (\<exists>c t e. If c t e \<in> set ss) then Intermediate else Basic)"
proof (induction ss arbitrary: l)
  case Nil
  then show ?case by (cases l) simp_all
next
  case (Cons s ss)
  then show ?case by (cases s; cases l) (auto simp: less_nex_layer_def, blast+)
qed

theorem required_layer_outermost:
  "required_layer ss =
     (if \<exists>tr acts. On tr acts \<in> set ss then Advanced
      else if \<exists>c t e. If c t e \<in> set ss then Intermediate else Basic)"
  by (simp add: required_layer_def layer_fold)

section \<open>Properties\<close>

text \<open>
  An engine loaded from a program answers an event with the actions of the reactive statements of the program
  that match it, in the order of the program, provided its layer is Advanced; below it holds no rules and
  answers nothing.
\<close>

theorem nex_reactive_evaluation:
  "evaluate (snd (load_from_program (with_layer l) p)) ev =
     (let rules = (if l = Advanced then List.map_filter statement_rule p else [])
      in \<lparr>matched = list_ex (rule_fires ev) rules, result_actions = concat (map (rule_actions ev) rules)\<rparr>)"
  by (simp add: load_from_program_spec evaluate_spec Let_def) (simp add: with_layer_def)

lemma blocks_give_blocks:
  assumes "\<forall>tr acts. On tr acts \<notin> set p"
    and "x \<in> set (result_actions (evaluate (snd (load_from_program (with_layer Advanced) p)) ev))"
  shows "block_target x \<noteq> None"
proof -
  obtain r where r: "r \<in> set (List.map_filter statement_rule p)" "x \<in> set (rule_actions ev r)"
    using assms(2) by (auto simp: evaluate_spec load_from_program_spec)
  then obtain st where st: "st \<in> set p" "statement_rule st = Some r" by (auto simp: List.map_filter_def)
  then have "\<forall>tr acts. st \<noteq> On tr acts" using assms(1) by blast
  then show ?thesis using st(2) r(2) by (cases st) (auto split: option.splits if_splits dest!: sym [of "Some _"])
qed

text \<open>
  C26: a block for invalid proofs bans the address of the peer at the first event, whatever its
  threshold, window, target and body. Blocks do nothing else: running one, with a membrane or without, leaves
  peer states and reputations as they are, and changes the membrane only by the ban of a known address, which
  it logs; so a program that has no rules other than blocks never changes peer states or reputations, whatever
  the event.
\<close>

theorem nex_block_bans_at_once:
  assumes "parse source = Inr p" and "ReactiveBlock ZkProofInvalid th w target body \<in> set p"
    and "peer_addrs V peer = Some a"
  shows "(\<exists>B. ex_membrane (execute V now
      (result_actions (evaluate (snd (load_from_program (with_layer Advanced) p)) (EvZkProofInvalid peer)))
      T R (Some (foldl (ban_ip (ip_hash V)) blacklist_new ips))) = Some B \<and> ip_banned (ip_hash V) B (ip_of V a)) \<and>
    execute V now [RunNexBlock q code] T R M =
      (case (peer_addrs V q, M) of
         (Some b, Some B) \<Rightarrow>
           \<lparr>ex_states = T, ex_reputation = R, ex_membrane = Some (ban_ip (ip_hash V) B (ip_of V b)),
            ex_report = empty_report\<lparr>logs := [''Membrane Enforced: '' @ ip_text V b @ '' banned at socket level'']\<rparr>\<rparr>
       | _ \<Rightarrow> \<lparr>ex_states = T, ex_reputation = R, ex_membrane = M, ex_report = empty_report\<rparr>) \<and>
    ((\<forall>tr acts. On tr acts \<notin> set p) \<longrightarrow>
      (let S = execute V now (result_actions (evaluate (snd (load_from_program (with_layer Advanced) p)) ev)) T R M
       in ex_states S = T \<and> ex_reputation S = R))"
proof -
  define acts where "acts = result_actions (evaluate (snd (load_from_program (with_layer Advanced) p)) (EvZkProofInvalid peer))"
  have "Block ZkProofInvalid th w target body \<in> set (List.map_filter statement_rule p)"
    using assms(2) by (force simp: List.map_filter_def)
  then have "RunNexBlock peer body \<in> set acts"
    unfolding acts_def by (force simp: evaluate_spec load_from_program_spec)
  then have "a \<in> set (banned_addrs V acts)"
    using assms(3) by (force simp: banned_addrs_def List.map_filter_def)
  then have "bloom_bits (ip_hash V) (ip_of V a) \<subseteq> (\<Union>q \<in> set (ips @ map (ip_of V) (banned_addrs V acts)). bloom_bits (ip_hash V) q)"
    by auto
  then have "ip_banned (ip_hash V) (foldl (ban_ip (ip_hash V)) blacklist_new (ips @ map (ip_of V) (banned_addrs V acts))) (ip_of V a)"
    by (simp only: blacklist_no_false_negative)
  then have banned: "\<exists>B. ex_membrane (execute V now acts T R (Some (foldl (ban_ip (ip_hash V)) blacklist_new ips))) = Some B \<and>
      ip_banned (ip_hash V) B (ip_of V a)"
    by (simp add: execute_def execute_membrane ban_fold)
  have one: "execute V now [RunNexBlock q code] T R M =
      (case (peer_addrs V q, M) of
         (Some b, Some B) \<Rightarrow>
           \<lparr>ex_states = T, ex_reputation = R, ex_membrane = Some (ban_ip (ip_hash V) B (ip_of V b)),
            ex_report = empty_report\<lparr>logs := [''Membrane Enforced: '' @ ip_text V b @ '' banned at socket level'']\<rparr>\<rparr>
       | _ \<Rightarrow> \<lparr>ex_states = T, ex_reputation = R, ex_membrane = M, ex_report = empty_report\<rparr>)"
    by (simp add: execute_def empty_report_def split: option.split)
  have "let S = execute V now (result_actions (evaluate (snd (load_from_program (with_layer Advanced) p)) ev)) T R M
      in ex_states S = T \<and> ex_reputation S = R" if "\<forall>tr acts. On tr acts \<notin> set p"
    unfolding Let_def execute_def
    using run_block_only [of "result_actions (evaluate (snd (load_from_program (with_layer Advanced) p)) ev)"] blocks_give_blocks [OF that]
    by simp
  then show ?thesis using banned one unfolding acts_def by blast
qed

theorem nex_block_bans_at_once_witness:
  "\<exists>B. ex_membrane (execute \<lparr>peer_addrs = [''p'' \<mapsto> ''10.0.0.1:9''], ip_of = (\<lambda>a. [10, 0, 0, 1]), ip_text = (\<lambda>a. ''10.0.0.1''), ip_hash = (\<lambda>b. zeros 32)\<rparr> 7
      (result_actions (evaluate (snd (load_from_program (with_layer Advanced)
        [ReactiveBlock ZkProofInvalid 16 3600 ''q'' []])) (EvZkProofInvalid ''p'')))
      [] [] (Some blacklist_new)) = Some B \<and> ip_banned (\<lambda>b. zeros 32) B [10, 0, 0, 1]"
proof -
  define V where "V = \<lparr>peer_addrs = [''p'' \<mapsto> ''10.0.0.1:9''], ip_of = (\<lambda>a :: addr. [10, 0, 0, 1] :: bytes),
    ip_text = (\<lambda>a :: addr. ''10.0.0.1''), ip_hash = (\<lambda>b :: bytes. zeros 32)\<rparr>"
  have p: "parse ''on event ZkProofInvalid(threshold=16, window=3600 s) for q { }'' = Inr [ReactiveBlock ZkProofInvalid 16 3600 ''q'' []]"
    by code_simp
  show ?thesis
    using nex_block_bans_at_once [OF p, of 16 3600 "''q''" "[]" V "''p''" "''10.0.0.1:9''" 7 "[]" "[]" "[]", THEN conjunct1]
    by (auto simp flip: V_def) (auto simp: V_def)
qed

text \<open>
  Adjusting the reputation of an unknown peer by \<open>d\<close> bans it for a day exactly when \<open>d\<close> is at most
  -10, except for the least \<^verbatim>\<open>i32\<close>, whose negation wraps to a negative bound: that adjustment does nothing.
\<close>

theorem nex_adjust_bans:
  assumes "reputations_ok R" and "map_of R p = None"
  shows "store_banned (ex_reputation (execute V now [AdjustReputation p d] T R M)) p t \<longleftrightarrow>
    sint d \<le> - 10 \<and> d \<noteq> 0x80000000 \<and> t \<le> now + BAN_MILLIS"
proof -
  define r where "r = fst (get_or_create R p now)"
  have r: "r = reputation_new p now"
    using assms(2) make_room_unknown [OF assms(2)] by (simp add: r_def get_or_create_def)
  have s: "map_of (ex_reputation (execute V now [AdjustReputation p d] T R M)) p = Some (adjust_node d now r)"
    by (simp add: execute_def case_prod_beta Let_def update_conv' r_def)
  show ?thesis
  proof (cases "0 < sint d")
    case True
    then show ?thesis by (simp add: store_banned_def s adjust_node_def node_banned_def note_success_times r reputation_new_def)
  next
    case False
    have k: "nat (sint (- d)) < 2 ^ 31" using sint_range_size [of "- d"] by (simp add: word_size) linarith
    have "10 \<le> nat (sint (- d)) \<longleftrightarrow> sint d \<le> - 10 \<and> d \<noteq> 0x80000000" by (auto simp: minus_min)
    then show ?thesis
      using False note_failure_times [OF _ _ k, of r now]
      by (auto simp: store_banned_def s adjust_node_def node_banned_def r reputation_new_def)
  qed
qed

theorem nex_adjust_bans_witness:
  "\<forall>V. store_banned (ex_reputation (execute V 5 [AdjustReputation ''x'' (- 10)] [] [] None)) ''x'' 6 \<and>
   \<not> store_banned (ex_reputation (execute V 5 [AdjustReputation ''x'' 0x80000000] [] [] None)) ''x'' 6"
  by (simp add: nex_adjust_bans reputations_ok_def BAN_MILLIS_def keys_distinct_def)

text \<open>
  With any rules that do not watch for disconnections, among them the default rules, the monitor never
  fires a rule: whatever heartbeats arrive and whenever the tasks run, its only events are disconnections, and
  reputations stay as they were.
\<close>

theorem default_rules_never_fire:
  assumes "\<forall>acts. Legacy OnPeerDisconnected acts \<notin> set (engine_rules E)" and "mon_states M = []"
  shows "mon_reputation (foldl (monitor_step V E) M xs) = mon_reputation M \<and>
    \<not> (\<exists>ev \<in> set (monitor_events (mon_states (foldl (monitor_step V E) M xs)) now). matched (evaluate E ev))"
proof -
  have d: "deaf E" using assms(1) by (simp add: deaf_def)
  have r: "all_never_missed (mon_states (foldl (monitor_step V E) M xs)) \<and> mon_reputation (foldl (monitor_step V E) M xs) = mon_reputation M"
  proof (induction xs rule: rev_induct)
    case Nil
    then show ?case using assms(2) by (simp add: all_never_missed_def)
  next
    case (snoc x xs)
    then show ?case using quiet_step [OF d, of "foldl (monitor_step V E) M xs" V x] by simp
  qed
  then show ?thesis using monitor_events_disconnect deaf_unmatched [OF d] by blast
qed

theorem default_rules_never_fire_witness:
  "\<forall>V M xs. mon_reputation (foldl (monitor_step V (starting_engine [] None)) (M\<lparr>mon_states := []\<rparr>) xs) = mon_reputation M"
  using default_rules_never_fire [of "starting_engine [] None" "M\<lparr>mon_states := []\<rparr>" V xs 0 for M V xs]
  by (simp add: starting_engine_def add_default_rules_def with_layer_def add_rule_advanced)

end
