(* ===== verification/Persistence.thy ===== *)
theory Persistence
  imports Peer_Lists Epa Provenance_Chain
begin

text \<open>
  The files of a node: reading and the atomic replacement of a file, as
  \<^verbatim>\<open>crates/host/src/network/persistence.rs\<close> and \<^verbatim>\<open>nex/checkpoint.rs\<close> do them, and the network state. A file
  system maps paths to texts; a fault of the operating system, or the end of the process, is an argument. JSON
  is a parameter.
\<close>

section \<open>Replacing a file\<close>

type_synonym file_system = "string \<rightharpoonup> string"

datatype file_error = IoFailed | InvalidData

text \<open>
  How far a save gets: the directory cannot be made, the text cannot be printed, the temporary file is cut off
  after so many characters, it is written but not renamed, or everything succeeds.
\<close>

datatype save_fault = NoDirectory | NotPrinted | CutOff nat | NotRenamed | SaveDone

definition write_file :: "string \<Rightarrow> string \<Rightarrow> nat option \<Rightarrow> file_system \<Rightarrow> (file_error + unit) \<times> file_system" where
  "write_file path text stop F =
     (case stop of
        None \<Rightarrow> (Inr (), F(path \<mapsto> text))
      | Some n \<Rightarrow> (Inl IoFailed, F(path \<mapsto> take n text)))"

definition rename_file :: "string \<Rightarrow> string \<Rightarrow> bool \<Rightarrow> file_system \<Rightarrow> (file_error + unit) \<times> file_system" where
  "rename_file from to fails F =
     (if fails then (Inl IoFailed, F)
      else case F from of None \<Rightarrow> (Inl IoFailed, F) | Some text \<Rightarrow> (Inr (), F(to \<mapsto> text, from := None)))"

definition replace_file :: "string \<Rightarrow> string \<Rightarrow> string \<Rightarrow> save_fault \<Rightarrow> file_system \<Rightarrow> (file_error + unit) \<times> file_system" where
  "replace_file temp final text fault F =
     (if fault = NoDirectory then (Inl IoFailed, F)
      else if fault = NotPrinted then (Inl InvalidData, F)
      else case write_file temp text (case fault of CutOff n \<Rightarrow> Some n | _ \<Rightarrow> None) F of
        (Inl e, F) \<Rightarrow> (Inl e, F)
      | (Inr _, F) \<Rightarrow> rename_file temp final (fault = NotRenamed) F)"

text \<open>The file read back is the old or the new one, and the new one exactly when the save succeeds.\<close>

lemma replace_file_result:
  assumes "temp \<noteq> final"
  shows "(fst (replace_file temp final text fault F) = Inr () \<longleftrightarrow> fault = SaveDone) \<and>
    snd (replace_file temp final text fault F) final = (if fault = SaveDone then Some text else F final)"
  using assms by (cases fault) (auto simp: replace_file_def write_file_def rename_file_def)

lemma replace_file_other:
  "p \<noteq> temp \<Longrightarrow> p \<noteq> final \<Longrightarrow> snd (replace_file temp final text fault F) p = F p"
  by (cases fault) (auto simp: replace_file_def write_file_def rename_file_def)

section \<open>The network state\<close>

record persisted_data =
  pd_peers :: "string list"
  pd_epas :: "shared_epa list"
  pd_trusted :: "persisted_peer list"
  pd_provenance :: "provenance_node list"

definition no_data :: persisted_data where
  "no_data = \<lparr>pd_peers = [], pd_epas = [], pd_trusted = [], pd_provenance = []\<rparr>"

definition valid_epas :: "shared_epa list \<Rightarrow> shared_epa list" where
  "valid_epas es = filter (\<lambda>e. \<not> (epa_id e = [] \<or> epa_node_id e = [])) es"

definition clean_data :: "(string \<Rightarrow> addr option) \<Rightarrow> persisted_data \<Rightarrow> persisted_data" where
  "clean_data parse_addr d =
     \<lparr>pd_peers = valid_peers parse_addr (pd_peers d), pd_epas = valid_epas (pd_epas d),
      pd_trusted = valid_trusted parse_addr (pd_trusted d), pd_provenance = pd_provenance d\<rparr>"

text \<open>\<open>readable\<close> says whether the file that exists can be read.\<close>

definition load_data ::
    "(string \<Rightarrow> addr option) \<Rightarrow> (string \<Rightarrow> persisted_data option) \<Rightarrow> bool \<Rightarrow> file_system \<Rightarrow> string \<Rightarrow> file_error + persisted_data" where
  "load_data parse_addr from_json readable F path =
     (case F path of
        None \<Rightarrow> Inr no_data
      | Some text \<Rightarrow>
          if \<not> readable then Inl IoFailed
          else case from_json text of None \<Rightarrow> Inl InvalidData | Some d \<Rightarrow> Inr (clean_data parse_addr d))"

definition save_data ::
    "(persisted_data \<Rightarrow> string) \<Rightarrow> save_fault \<Rightarrow> string \<Rightarrow> string \<Rightarrow> persisted_data \<Rightarrow> file_system \<Rightarrow> (file_error + unit) \<times> file_system" where
  "save_data to_json fault temp path d F = replace_file temp path (to_json d) fault F"

text \<open>The state saved by \<^verbatim>\<open>save_network_state\<close>, which prints a failure and goes on.\<close>

definition network_state :: "peer_list \<Rightarrow> shared_epa list \<Rightarrow> trusted_list \<Rightarrow> provenance_node list \<Rightarrow> persisted_data" where
  "network_state L es T ns =
     \<lparr>pd_peers = pl_peers L, pd_epas = es, pd_trusted = trusted_to_persisted T, pd_provenance = ns\<rparr>"

definition save_network_state ::
    "(persisted_data \<Rightarrow> string) \<Rightarrow> save_fault \<Rightarrow> string \<Rightarrow> string \<Rightarrow> peer_list \<Rightarrow> shared_epa list \<Rightarrow> trusted_list \<Rightarrow>
       provenance_node list \<Rightarrow> file_system \<Rightarrow> file_system" where
  "save_network_state to_json fault temp path L es T ns F =
     snd (save_data to_json fault temp path (network_state L es T ns) F)"

section \<open>Properties\<close>

text \<open>
  Wherever saving the network state stops, loading it afterwards gives the state saved, without its
  malformed entries, when the save succeeded, and otherwise what loading gave before.
\<close>

theorem network_state_atomic:
  assumes "temp \<noteq> path" and "from_json (to_json (network_state L es T ns)) = Some (network_state L es T ns)"
  shows "load_data parse_addr from_json True (save_network_state to_json fault temp path L es T ns F) path =
    (if fault = SaveDone then Inr (clean_data parse_addr (network_state L es T ns))
     else load_data parse_addr from_json True F path)"
  using replace_file_result [OF assms(1), of "to_json (network_state L es T ns)" fault F] assms(2)
  by (simp add: load_data_def save_network_state_def save_data_def)

theorem network_state_atomic_witness:
  "load_data (\<lambda>a. Some a) (\<lambda>s. if s = ''new'' then Some (network_state (peer_list_new 4) [] (trusted_new 4) []) else None) True
     (save_network_state (\<lambda>d. ''new'') (CutOff 2) ''n.tmp'' ''n.json'' (peer_list_new 4) [] (trusted_new 4) []
       [''n.json'' \<mapsto> ''old'']) ''n.json'' = Inl InvalidData"
  by (subst network_state_atomic) (simp_all add: load_data_def)

text \<open>Loading again what was loaded drops nothing more.\<close>

lemma clean_clean: "clean_data parse_addr (clean_data parse_addr d) = clean_data parse_addr d"
  by (simp add: clean_data_def valid_peers_def valid_epas_def valid_trusted_def)

end
