(* ===== verification/Nex_Checkpoint.thy ===== *)
theory Nex_Checkpoint
  imports Nex_Reactive Persistence
begin

text \<open>
  Checkpoints of reactive rules, \<^verbatim>\<open>crates/host/src/nex/checkpoint.rs\<close>, with the restoration and the final save
  of \<^verbatim>\<open>main.rs\<close>. Actions are stored in the \<^verbatim>\<open>Debug\<close> format of Rust and parsed back from it. Printing and
  parsing an \<^verbatim>\<open>f32\<close>, JSON and the time are parameters; strings are ASCII.
\<close>

section \<open>The Debug format\<close>

text \<open>\<^verbatim>\<open>escape_debug\<close> of a character of a string: a single quote stays.\<close>

definition hex_digit :: "nat \<Rightarrow> char" where
  "hex_digit n = (if n < 10 then char_of (48 + n) else char_of (87 + n))"

definition debug_char :: "char \<Rightarrow> string" where
  "debug_char c =
     (let n = of_char c :: nat; bs = CHR 0x5C in
      if n = 0 then [bs, CHR ''0'']
      else if n = 9 then [bs, CHR ''t'']
      else if n = 10 then [bs, CHR ''n'']
      else if n = 13 then [bs, CHR ''r'']
      else if n = 34 \<or> n = 92 then [bs, c]
      else if n < 32 \<or> n = 127 then
        [bs, CHR ''u'', CHR ''{''] @ (if n < 16 then [] else [hex_digit (n div 16)]) @ [hex_digit (n mod 16), CHR ''}'']
      else [c])"

definition debug_escape :: "string \<Rightarrow> string" where
  "debug_escape s = concat (map debug_char s)"

definition debug_string :: "string \<Rightarrow> string" where
  "debug_string s = [CHR 0x22] @ debug_escape s @ [CHR 0x22]"

fun debug_event :: "event_type \<Rightarrow> string" where
  "debug_event ZkProofInvalid = ''ZkProofInvalid''"
| "debug_event HeartbeatMiss = ''HeartbeatMiss''"
| "debug_event MalformedPacket = ''MalformedPacket''"

fun debug_action :: "reactive_action \<Rightarrow> string" where
  "debug_action (ReactLog m) = ''Log('' @ debug_string m @ '')''"
| "debug_action (ReactEmit e) = ''Emit('' @ debug_string e @ '')''"
| "debug_action (ReactMarkInactive p) = ''MarkInactive { peer: '' @ debug_string p @ '' }''"
| "debug_action (ReactAdjustReputation p d) =
     ''AdjustReputation { peer: '' @ debug_string p @ '', delta: '' @ int_text (sint d) @ '' }''"

section \<open>Parsing it back\<close>

definition strip_suffix :: "string \<Rightarrow> string \<Rightarrow> string option" where
  "strip_suffix q s = map_option rev (strip_prefix (rev q) (rev s))"

text \<open>The text before and after the first occurrence of a pattern, and the second piece of \<^verbatim>\<open>split\<close>.\<close>

fun split_once :: "string \<Rightarrow> string \<Rightarrow> string \<Rightarrow> (string \<times> string) option" where
  "split_once pat acc [] = (if pat = [] then Some (acc, []) else None)"
| "split_once pat acc (c # cs) =
     (case strip_prefix pat (c # cs) of Some r \<Rightarrow> Some (acc, r) | None \<Rightarrow> split_once pat (acc @ [c]) cs)"

definition second_piece :: "string \<Rightarrow> string \<Rightarrow> string option" where
  "second_piece pat s =
     (case split_once pat [] s of
        None \<Rightarrow> None
      | Some (b, r) \<Rightarrow> Some (case split_once pat [] r of None \<Rightarrow> r | Some (b', r') \<Rightarrow> b'))"

text \<open>\<^verbatim>\<open>str::parse\<close> for \<^verbatim>\<open>u32\<close> and \<^verbatim>\<open>i32\<close>.\<close>

definition all_digits :: "string \<Rightarrow> bool" where
  "all_digits s \<longleftrightarrow> s \<noteq> [] \<and> (\<forall>c \<in> set s. is_digit c)"

definition without_plus :: "string \<Rightarrow> string" where
  "without_plus s = (if s \<noteq> [] \<and> hd s = CHR ''+'' then tl s else s)"

definition parse_u32 :: "string \<Rightarrow> 32 word option" where
  "parse_u32 s =
     (let ds = without_plus s
      in if all_digits ds \<and> text_nat ds < 2 ^ 32 then Some (of_nat (text_nat ds)) else None)"

definition parse_i32 :: "string \<Rightarrow> 32 word option" where
  "parse_i32 s =
     (if s \<noteq> [] \<and> hd s = CHR ''-''
      then (if all_digits (tl s) \<and> text_nat (tl s) \<le> 2 ^ 31 then Some (- of_nat (text_nat (tl s))) else None)
      else let ds = without_plus s
           in if all_digits ds \<and> text_nat ds < 2 ^ 31 then Some (of_nat (text_nat ds)) else None)"

definition peer_field :: "string \<Rightarrow> string" where
  "peer_field a =
     (case second_piece (''peer: '' @ [CHR 0x22]) a of
        None \<Rightarrow> ''unknown''
      | Some s \<Rightarrow> takeWhile (\<lambda>c. c \<noteq> CHR 0x22) s)"

definition trim_end_braces :: "string \<Rightarrow> string" where
  "trim_end_braces s = rev (dropWhile (\<lambda>c. c = CHR ''}'') (rev s))"

definition delta_field :: "string \<Rightarrow> 32 word" where
  "delta_field a =
     (case second_piece ''delta: '' a of
        None \<Rightarrow> 0
      | Some s \<Rightarrow> (case parse_i32 (trim (trim_end_braces s)) of None \<Rightarrow> 0 | Some d \<Rightarrow> d))"

definition quoted_argument :: "string \<Rightarrow> string \<Rightarrow> string option" where
  "quoted_argument f a =
     (case strip_prefix (f @ ''('' @ [CHR 0x22]) a of None \<Rightarrow> None | Some s \<Rightarrow> strip_suffix ([CHR 0x22] @ '')'') s)"

definition parse_action_debug :: "string \<Rightarrow> reactive_action option" where
  "parse_action_debug a =
     (case quoted_argument ''Log'' a of
        Some m \<Rightarrow> Some (ReactLog m)
      | None \<Rightarrow>
          (case quoted_argument ''Emit'' a of
             Some e \<Rightarrow> Some (ReactEmit e)
           | None \<Rightarrow>
               if strip_prefix ''MarkInactive {'' a \<noteq> None then Some (ReactMarkInactive (peer_field a))
               else if strip_prefix ''AdjustReputation {'' a \<noteq> None
               then Some (ReactAdjustReputation (peer_field a) (delta_field a))
               else None))"

section \<open>Snapshots\<close>

record rule_snapshot =
  trigger_type :: string
  trigger_params :: string
  snapshot_actions :: "string list"

fun trigger_snapshot :: "(32 word \<Rightarrow> string) \<Rightarrow> trigger \<Rightarrow> string \<times> string" where
  "trigger_snapshot show_f32 (OnHeartbeatMiss th) = (''heartbeat_miss'', nat_text (unat th))"
| "trigger_snapshot show_f32 (OnReputationBelow th) = (''reputation_below'', show_f32 th)"
| "trigger_snapshot show_f32 OnPeerConnected = (''peer_connected'', [])"
| "trigger_snapshot show_f32 OnPeerDisconnected = (''peer_disconnected'', [])"
| "trigger_snapshot show_f32 OnHandshakeCompleted = (''handshake_completed'', [])"
| "trigger_snapshot show_f32 OnHandshakeFailed = (''handshake_failed'', [])"
| "trigger_snapshot show_f32 OnSessionCreated = (''session_created'', [])"
| "trigger_snapshot show_f32 OnSessionRemoved = (''session_removed'', [])"

fun rule_to_snapshot :: "(32 word \<Rightarrow> string) \<Rightarrow> reactive_rule \<Rightarrow> rule_snapshot" where
  "rule_to_snapshot show_f32 (Legacy tr acts) =
     (let (ty, ps) = trigger_snapshot show_f32 tr
      in \<lparr>trigger_type = ty, trigger_params = ps, snapshot_actions = map debug_action acts\<rparr>)"
| "rule_to_snapshot show_f32 (Block ev th w target body) =
     \<lparr>trigger_type = ''block'',
      trigger_params = debug_event ev @ ''_'' @ nat_text (unat th) @ ''_'' @ nat_text (unat w),
      snapshot_actions = [target]\<rparr>"

definition snapshot_trigger :: "(string \<Rightarrow> 32 word option) \<Rightarrow> rule_snapshot \<Rightarrow> trigger option" where
  "snapshot_trigger parse_f32 s =
     (let ty = trigger_type s
      in if ty = ''heartbeat_miss'' then
           Some (OnHeartbeatMiss (case parse_u32 (trigger_params s) of None \<Rightarrow> 3 | Some n \<Rightarrow> n))
         else if ty = ''reputation_below'' then
           Some (OnReputationBelow (case parse_f32 (trigger_params s) of None \<Rightarrow> 0x3E99999A | Some x \<Rightarrow> x))
         else if ty = ''peer_connected'' then Some OnPeerConnected
         else if ty = ''peer_disconnected'' then Some OnPeerDisconnected
         else if ty = ''handshake_completed'' then Some OnHandshakeCompleted
         else if ty = ''handshake_failed'' then Some OnHandshakeFailed
         else if ty = ''session_created'' then Some OnSessionCreated
         else if ty = ''session_removed'' then Some OnSessionRemoved
         else None)"

definition to_rule :: "(string \<Rightarrow> 32 word option) \<Rightarrow> rule_snapshot \<Rightarrow> reactive_rule option" where
  "to_rule parse_f32 s =
     (case snapshot_trigger parse_f32 s of
        None \<Rightarrow> None
      | Some tr \<Rightarrow> Some (Legacy tr (List.map_filter parse_action_debug (snapshot_actions s))))"

section \<open>Checkpoints\<close>

record checkpoint =
  ck_version :: "32 word"
  ck_timestamp :: string
  ck_network :: persisted_data
  ck_node_id :: string
  ck_rules :: "rule_snapshot list"

definition create_checkpoint ::
    "(32 word \<Rightarrow> string) \<Rightarrow> string \<Rightarrow> string \<Rightarrow> persisted_data \<Rightarrow> reactive_rule list \<Rightarrow> checkpoint" where
  "create_checkpoint show_f32 now i d rs =
     \<lparr>ck_version = 1, ck_timestamp = now, ck_network = d, ck_node_id = i, ck_rules = map (rule_to_snapshot show_f32) rs\<rparr>"

definition apply_checkpoint :: "(string \<Rightarrow> 32 word option) \<Rightarrow> checkpoint \<Rightarrow> persisted_data \<Rightarrow> persisted_data \<times> reactive_rule list" where
  "apply_checkpoint parse_f32 c d = (ck_network c, List.map_filter (to_rule parse_f32) (ck_rules c))"

definition TEMP_PATH :: string where "TEMP_PATH = ''checkpoint.tmp''"
definition FINAL_PATH :: string where "FINAL_PATH = ''checkpoint.json''"

definition checkpoint_save ::
    "(checkpoint \<Rightarrow> string) \<Rightarrow> save_fault \<Rightarrow> checkpoint \<Rightarrow> file_system \<Rightarrow> (file_error + unit) \<times> file_system" where
  "checkpoint_save to_json fault c F = replace_file TEMP_PATH FINAL_PATH (to_json c) fault F"

definition checkpoint_load ::
    "(string \<Rightarrow> checkpoint option) \<Rightarrow> bool \<Rightarrow> file_system \<Rightarrow> file_error + checkpoint option" where
  "checkpoint_load from_json readable F =
     (case F FINAL_PATH of
        None \<Rightarrow> Inr None
      | Some text \<Rightarrow>
          if \<not> readable then Inl IoFailed
          else case from_json text of None \<Rightarrow> Inl InvalidData | Some c \<Rightarrow> Inr (Some c))"

text \<open>The rules restored when the node starts, and the checkpoint written when it stops.\<close>

definition restored_rules ::
    "(string \<Rightarrow> checkpoint option) \<Rightarrow> (string \<Rightarrow> 32 word option) \<Rightarrow> bool \<Rightarrow> file_system \<Rightarrow> reactive_rule list" where
  "restored_rules from_json parse_f32 readable F =
     (case checkpoint_load from_json readable F of
        Inr (Some c) \<Rightarrow> List.map_filter (to_rule parse_f32) (ck_rules c)
      | Inr None \<Rightarrow> []
      | Inl e \<Rightarrow> [])"

record shutdown_input =
  sd_time :: string
  sd_node :: string
  sd_network :: "file_error + persisted_data"
  sd_fault :: save_fault
  sd_readable :: bool

definition shutdown_checkpoint ::
    "(checkpoint \<Rightarrow> string) \<Rightarrow> (32 word \<Rightarrow> string) \<Rightarrow> shutdown_input \<Rightarrow> reactive_rule list \<Rightarrow> file_system \<Rightarrow> file_system" where
  "shutdown_checkpoint to_json show_f32 inp checkpoint_rules F =
     (let d = (case sd_network inp of Inr d \<Rightarrow> d | Inl e \<Rightarrow> no_data)
      in snd (checkpoint_save to_json (sd_fault inp)
           (create_checkpoint show_f32 (sd_time inp) (sd_node inp) d checkpoint_rules) F))"

end
