(* ===== verification/Nex_Checkpoint_Theorems.thy ===== *)
theory Nex_Checkpoint_Theorems
  imports Nex_Checkpoint Nex_Printing
begin

text \<open>
  What survives a checkpoint: the round trip of a rule through its snapshot, the atomic replacement of the file,
  and the rules a node finds after any number of restarts.
\<close>

declare nat_text.simps [simp del]

section \<open>Texts\<close>

lemma strip_prefix_simps [simp]:
  "strip_prefix [] s = Some s"
  "strip_prefix (c # p) [] = None"
  "strip_prefix (c # p) (d # s) = (if c = d then strip_prefix p s else None)"
  by (auto simp: strip_prefix_def)

lemma strip_prefix_append: "strip_prefix p (p @ s) = Some s"
  by (simp add: strip_prefix_def)

lemma strip_prefix_Some: "strip_prefix p s = Some r \<Longrightarrow> s = p @ r"
  by (metis append_take_drop_id option.distinct(1) option.inject strip_prefix_def)

lemma strip_suffix_append: "strip_suffix q (s @ q) = Some s"
  by (simp add: strip_suffix_def strip_prefix_append)

lemma split_once_Some: "split_once pat acc s = Some (b, r) \<Longrightarrow> acc @ s = b @ pat @ r"
proof (induction s arbitrary: acc)
  case Nil
  then show ?case by (simp split: if_splits)
next
  case (Cons c s)
  then show ?case
    using Cons.IH [of "acc @ [c]"] by (cases "strip_prefix pat (c # s)") (auto dest: strip_prefix_Some)
qed

lemma split_once_missing: "c \<notin> set s \<Longrightarrow> split_once (c # pat) acc s = None"
  by (induction s arbitrary: acc) auto

lemma strip_prefix_word:
  assumes "sp \<notin> set p" and "sp \<in> set pat" and "q \<notin> set pat"
  shows "strip_prefix pat (p @ q # t) = None"
proof (rule ccontr)
  assume "\<not> ?thesis"
  then obtain r where "p @ q # t = pat @ r" by (auto dest: strip_prefix_Some)
  then obtain us where "p = pat @ us \<and> us @ q # t = r \<or> p @ us = pat \<and> q # t = us @ r"
    by (auto simp: append_eq_append_conv2)
  then show False using assms by (cases us) auto
qed

lemma split_once_word:
  assumes "sp \<notin> set p" and "sp \<in> set pat" and "q \<notin> set pat"
  shows "split_once pat acc (p @ q # t) = split_once pat (acc @ p) (q # t)"
  using assms(1)
proof (induction p arbitrary: acc)
  case (Cons c p)
  then have "split_once pat acc (c # (p @ q # t)) = split_once pat (acc @ [c]) (p @ q # t)"
    using strip_prefix_word [OF Cons.prems assms(2,3), of t] by simp
  also have "\<dots> = split_once pat ((acc @ [c]) @ p) (q # t)" using Cons.prems by (intro Cons.IH) simp
  finally show ?case by simp
qed simp

section \<open>Numbers\<close>

lemma all_digits_nat: "all_digits (nat_text n)"
  using nat_text_digits [of n] by (simp add: all_digits_def)

lemma digits_plain:
  assumes "all_digits s"
  shows "without_plus s = s" and "hd s \<noteq> CHR ''-''" and "s \<noteq> []"
proof -
  have d: "s \<noteq> []" "is_digit (hd s)" using assms hd_in_set by (auto simp: all_digits_def)
  have "\<not> is_digit (CHR ''+'')" "\<not> is_digit (CHR ''-'')" by (simp_all add: is_digit_def)
  then have neq: "hd s \<noteq> CHR ''+''" "hd s \<noteq> CHR ''-''" using d(2) by metis+
  show "without_plus s = s" using neq(1) unfolding without_plus_def by (simp only: simp_thms if_False)
  show "hd s \<noteq> CHR ''-''" by (rule neq(2))
  show "s \<noteq> []" by (rule d(1))
qed

lemma parse_u32_text: "parse_u32 (nat_text (unat w)) = Some w"
  using digits_plain [OF all_digits_nat] all_digits_nat unsigned_less [of w]
  by (simp add: parse_u32_def text_nat_text)

lemma parse_i32_text: "parse_i32 (int_text (sint d)) = Some d"
proof -
  have range: "- (2 ^ 31) \<le> sint d" "sint d < 2 ^ 31"
    using sint_range_size [of d] by (simp_all add: word_size)
  define n where "n = nat \<bar>sint d\<bar>"
  show ?thesis
  proof (cases "sint d < 0")
    case True
    then have t: "int_text (sint d) = CHR ''-'' # nat_text n" by (simp add: int_text_def n_def)
    have v: "- int n = sint d" using True by (simp add: n_def)
    have "- word_of_nat n = d" using arg_cong [OF v, of "word_of_int :: int \<Rightarrow> 32 word"] by simp
    moreover have "n \<le> 2 ^ 31" using range(1) True by (simp add: n_def nat_le_iff)
    ultimately show ?thesis by (simp add: t parse_i32_def all_digits_nat text_nat_text)
  next
    case False
    then have t: "int_text (sint d) = nat_text n" by (simp add: int_text_def n_def)
    have v: "int n = sint d" using False by (simp add: n_def)
    have "word_of_nat n = d" using arg_cong [OF v, of "word_of_int :: int \<Rightarrow> 32 word"] by simp
    moreover have "n < 2 ^ 31" using range(2) False by (simp add: n_def nat_less_iff)
    ultimately show ?thesis
      using digits_plain [OF all_digits_nat, of n] by (simp add: t parse_i32_def all_digits_nat text_nat_text Let_def)
  qed
qed

lemma int_text_chars: "int_text i \<noteq> [] \<and> (\<forall>c \<in> set (int_text i). c = CHR ''-'' \<or> is_digit c)"
  using nat_text_digits by (auto simp: int_text_def)

lemma not_digit_chars: "\<not> is_digit (CHR ''d'')" "\<not> is_digit (CHR 0x22)" "\<not> is_digit (CHR ''}'')"
  by (simp_all add: is_digit_def)

lemma int_text_avoids: "CHR ''d'' \<notin> set (int_text i)" "CHR 0x22 \<notin> set (int_text i)" "CHR ''}'' \<notin> set (int_text i)"
  using int_text_chars [of i] not_digit_chars by fastforce+

lemma int_text_no_space: "\<forall>c \<in> set (int_text i). \<not> is_space c"
proof
  fix c assume "c \<in> set (int_text i)"
  then have "c = CHR ''-'' \<or> is_digit c" using int_text_chars by blast
  then show "\<not> is_space c" using word_char_plain(4) [OF is_digit_plain] by (auto simp: is_space_def)
qed

section \<open>Actions\<close>

text \<open>A name without quotes, backslashes, spaces and control characters.\<close>

definition plain_name :: "string \<Rightarrow> bool" where
  "plain_name p \<longleftrightarrow> (\<forall>c \<in> set p. 33 \<le> (of_char c :: nat) \<and> of_char c \<noteq> (34 :: nat) \<and> of_char c \<noteq> (92 :: nat) \<and> of_char c \<noteq> (127 :: nat))"

lemma debug_plain: "plain_name p \<Longrightarrow> debug_escape p = p"
  by (induction p) (auto simp: plain_name_def debug_escape_def debug_char_def Let_def)

lemma plain_name_chars: "plain_name p \<Longrightarrow> CHR '' '' \<notin> set p \<and> CHR 0x22 \<notin> set p"
  by (auto simp: plain_name_def)

lemma first_word:
  assumes "CHR '' '' \<notin> set p" and "CHR 0x22 \<notin> set p" and "CHR 0x22 \<notin> set t"
  shows "split_once (''peer: '' @ [CHR 0x22]) [] (p @ CHR 0x22 # t) = None"
proof (rule ccontr)
  assume "\<not> ?thesis"
  then obtain b r where "p @ CHR 0x22 # t = (b @ ''peer: '') @ CHR 0x22 # r"
    by (auto dest: split_once_Some)
  then have "p = b @ ''peer: ''" using assms(2,3) append_Cons_eq_iff [of "CHR 0x22" p t "b @ ''peer: ''" r] by (simp only: simp_thms)
  then show False using assms(1) by simp
qed

lemma peer_field_text:
  assumes "plain_name p" and "CHR 0x22 \<notin> set t"
    and "split_once (''peer: '' @ [CHR 0x22]) [] a = Some (b, p @ CHR 0x22 # t)"
  shows "peer_field a = p"
proof -
  note p = plain_name_chars [OF assms(1)]
  have "takeWhile (\<lambda>c. c \<noteq> CHR 0x22) (p @ CHR 0x22 # t) = p" using p by (subst takeWhile_append2) auto
  then show ?thesis
    using first_word [OF _ _ assms(2), of p] p by (simp only: peer_field_def second_piece_def assms(3) option.case prod.case simp_thms)
qed

lemma delta_field_text:
  assumes "split_once ''delta: '' [] a = Some (b, int_text (sint d) @ '' }'')"
  shows "delta_field a = d"
proof -
  define n where "n = int_text (sint d)"
  have n: "n \<noteq> []" "\<forall>c \<in> set n. \<not> is_space c" "CHR ''d'' \<notin> set n"
    using int_text_chars int_text_no_space int_text_avoids(1) by (simp_all add: n_def)
  have "split_once ''delta: '' [] (n @ '' }'') = None" by (rule split_once_missing) (use n(3) in simp)
  then have piece: "second_piece ''delta: '' a = Some (n @ '' }'')" using assms by (simp add: second_piece_def n_def)
  have "trim_end_braces (n @ '' }'') = n @ '' ''" by (simp add: trim_end_braces_def)
  moreover have "trim (n @ '' '') = n"
  proof -
    have "dropWhile is_space (n @ '' '') = n @ '' ''" using n(1,2) by (cases n) auto
    moreover have "dropWhile is_space (rev (n @ '' '')) = rev n"
      using n(1,2) by (cases n rule: rev_cases) (auto simp: is_space_def)
    ultimately show ?thesis by (simp add: trim_def)
  qed
  ultimately have "trim (trim_end_braces (n @ '' }'')) = n" by simp
  then show ?thesis by (simp add: delta_field_def piece n_def parse_i32_text)
qed

fun escaped :: "reactive_action \<Rightarrow> reactive_action" where
  "escaped (ReactLog m) = ReactLog (debug_escape m)"
| "escaped (ReactEmit e) = ReactEmit (debug_escape e)"
| "escaped a = a"

fun plain_peer :: "reactive_action \<Rightarrow> bool" where
  "plain_peer (ReactMarkInactive p) = plain_name p"
| "plain_peer (ReactAdjustReputation p d) = plain_name p"
| "plain_peer _ = True"

lemma quoted_argument_text: "quoted_argument f (f @ ''('' @ debug_string m @ '')'') = Some (debug_escape m)"
proof -
  have "f @ ''('' @ debug_string m @ '')'' = (f @ ''('' @ [CHR 0x22]) @ (debug_escape m @ [CHR 0x22] @ '')'')"
    by (simp add: debug_string_def)
  then show ?thesis using strip_prefix_append strip_suffix_append by (simp only: quoted_argument_def option.case)
qed

lemma parse_debug_action:
  assumes "plain_peer a"
  shows "parse_action_debug (debug_action a) = Some (escaped a)"
proof (cases a)
  case (ReactLog m)
  show ?thesis using quoted_argument_text [of "''Log''" m] by (simp only: ReactLog debug_action.simps parse_action_debug_def append_Cons append_Nil option.case escaped.simps)
next
  case (ReactEmit e)
  have "quoted_argument ''Log'' (''Emit('' @ debug_string e @ '')'') = None" by (simp add: quoted_argument_def)
  then show ?thesis using quoted_argument_text [of "''Emit''" e]
    by (simp only: ReactEmit debug_action.simps parse_action_debug_def append_Cons append_Nil option.case escaped.simps)
next
  case (ReactMarkInactive p)
  then have p: "plain_name p" using assms by simp
  define t where "t = '' }''"
  have d: "debug_action a = ''MarkInactive { peer: '' @ [CHR 0x22] @ p @ CHR 0x22 # t"
    by (simp add: ReactMarkInactive debug_string_def debug_plain [OF p] t_def)
  have "split_once (''peer: '' @ [CHR 0x22]) [] (debug_action a) = Some (''MarkInactive { '', p @ CHR 0x22 # t)"
    unfolding d by simp
  from peer_field_text [OF p _ this] have f: "peer_field (debug_action a) = p" by (simp add: t_def)
  show ?thesis
    unfolding parse_action_debug_def using f by (simp add: d quoted_argument_def ReactMarkInactive)
next
  case (ReactAdjustReputation p n)
  then have p: "plain_name p" using assms by simp
  note q = plain_name_chars [OF p]
  define t where "t = '', delta: '' @ int_text (sint n) @ '' }''"
  have d: "debug_action a = ''AdjustReputation { peer: '' @ [CHR 0x22] @ p @ CHR 0x22 # t"
    by (simp add: ReactAdjustReputation debug_string_def debug_plain [OF p] t_def)
  have "split_once (''peer: '' @ [CHR 0x22]) [] (debug_action a) = Some (''AdjustReputation { '', p @ CHR 0x22 # t)"
    unfolding d by simp
  moreover have "CHR 0x22 \<notin> set t" using int_text_avoids(2) by (simp add: t_def)
  ultimately have f: "peer_field (debug_action a) = p" using peer_field_text [OF p] by blast
  have w: "split_once ''delta: '' acc (p @ CHR 0x22 # t) = split_once ''delta: '' (acc @ p) (CHR 0x22 # t)" for acc
    using q by (intro split_once_word [of "CHR '' ''"]) simp_all
  have "split_once ''delta: '' [] (debug_action a) =
      split_once ''delta: '' (''AdjustReputation { peer: '' @ [CHR 0x22]) (p @ CHR 0x22 # t)"
    unfolding d by simp
  also have "\<dots> = Some ((''AdjustReputation { peer: '' @ [CHR 0x22]) @ p @ [CHR 0x22] @ '', '', int_text (sint n) @ '' }'')"
    unfolding w by (simp add: t_def)
  finally have g: "delta_field (debug_action a) = n" by (rule delta_field_text)
  show ?thesis
    unfolding parse_action_debug_def using f g by (simp add: d quoted_argument_def ReactAdjustReputation)
qed

section \<open>Properties\<close>

text \<open>
  A rule comes back from its snapshot with its trigger and its actions, names without quotes or spaces
  unchanged, but the texts it logs and the events it emits with their special characters escaped; a block does
  not come back at all.
\<close>

theorem checkpoint_rule_roundtrip:
  assumes "\<forall>a \<in> set acts. plain_peer a" and "\<forall>th. tr = OnReputationBelow th \<longrightarrow> parse_f32 (show_f32 th) = Some th"
  shows "to_rule parse_f32 (rule_to_snapshot show_f32 (Legacy tr acts)) = Some (Legacy tr (map escaped acts)) \<and>
    to_rule parse_f32 (rule_to_snapshot show_f32 (Block ev th w target body)) = None"
proof
  have acts: "List.map_filter parse_action_debug (map debug_action acts) = map escaped acts"
    using assms(1) by (induction acts) (simp_all add: map_filter_simps parse_debug_action)
  have tr: "snapshot_trigger parse_f32 (rule_to_snapshot show_f32 (Legacy tr acts)) = Some tr"
    using assms(2) by (cases tr) (simp_all add: snapshot_trigger_def Let_def parse_u32_text)
  have sn: "snapshot_actions (rule_to_snapshot show_f32 (Legacy tr acts)) = map debug_action acts"
    by (cases tr) simp_all
  show "to_rule parse_f32 (rule_to_snapshot show_f32 (Legacy tr acts)) = Some (Legacy tr (map escaped acts))"
    unfolding to_rule_def tr sn acts by simp
  show "to_rule parse_f32 (rule_to_snapshot show_f32 (Block ev th w target body)) = None"
    by (simp add: to_rule_def snapshot_trigger_def Let_def)
qed

theorem checkpoint_rule_roundtrip_witness:
  "to_rule (\<lambda>s. Some 7) (rule_to_snapshot (\<lambda>x. ''7'') (Legacy (OnReputationBelow 7)
       [ReactLog [CHR 0x22], ReactAdjustReputation ''bad_node'' (- 10)])) =
     Some (Legacy (OnReputationBelow 7) [ReactLog [CHR 0x5C, CHR 0x22], ReactAdjustReputation ''bad_node'' (- 10)])"
  by (subst checkpoint_rule_roundtrip [THEN conjunct1])
    (simp_all add: plain_name_def debug_escape_def debug_char_def)

lemma no_rules_preserved:
  assumes json: "\<And>c d. from_json (to_json c) = Some d \<Longrightarrow> ck_rules d = ck_rules c"
    and none: "\<And>r. restored_rules from_json parse_f32 r F = []"
  shows "restored_rules from_json parse_f32 r
    (shutdown_checkpoint to_json show_f32 inp (restored_rules from_json parse_f32 r' F) F) = []"
proof -
  define c where "c = create_checkpoint show_f32 (sd_time inp) (sd_node inp) (case sd_network inp of Inr d \<Rightarrow> d | Inl e \<Rightarrow> no_data) []"
  have after: "shutdown_checkpoint to_json show_f32 inp (restored_rules from_json parse_f32 r' F) F =
      snd (replace_file TEMP_PATH FINAL_PATH (to_json c) (sd_fault inp) F)"
    by (simp add: shutdown_checkpoint_def none c_def Let_def checkpoint_save_def)
  have saved: "snd (replace_file TEMP_PATH FINAL_PATH (to_json c) (sd_fault inp) F) FINAL_PATH =
      (if sd_fault inp = SaveDone then Some (to_json c) else F FINAL_PATH)"
    using replace_file_result [of TEMP_PATH FINAL_PATH "to_json c" "sd_fault inp" F] by (simp add: TEMP_PATH_def FINAL_PATH_def)
  have rules: "ck_rules c = []" by (simp add: c_def create_checkpoint_def)
  show ?thesis
    unfolding after
    using none [of r] json [of c] rules saved
    by (cases "sd_fault inp = SaveDone")
      (auto simp: restored_rules_def checkpoint_load_def map_filter_simps split: option.splits)
qed

text \<open>
  However often the node is started and stopped, and wherever the save of its checkpoint fails, a node that
  starts without a checkpoint never restores a rule: what is saved at the end are the rules that were
  restored at the start, not the rules that ran.
\<close>

theorem checkpoint_restores_no_rules:
  assumes "\<forall>c d. from_json (to_json c) = Some d \<longrightarrow> ck_rules d = ck_rules c" and "F FINAL_PATH = None"
  shows "restored_rules from_json parse_f32 readable
    (foldl (\<lambda>F inp. shutdown_checkpoint to_json show_f32 inp (restored_rules from_json parse_f32 (sd_readable inp) F) F) F inps) = []"
proof -
  have "restored_rules from_json parse_f32 r
      (foldl (\<lambda>F inp. shutdown_checkpoint to_json show_f32 inp (restored_rules from_json parse_f32 (sd_readable inp) F) F) F inps) = []" for r
  proof (induction inps arbitrary: r rule: rev_induct)
    case Nil
    then show ?case using assms(2) by (simp add: restored_rules_def checkpoint_load_def)
  next
    case (snoc inp inps)
    then show ?case using no_rules_preserved [OF assms(1) [rule_format] snoc.IH] by simp
  qed
  then show ?thesis .
qed

theorem checkpoint_restores_no_rules_witness:
  "restored_rules (\<lambda>s. if s = ''none'' then Some (create_checkpoint (\<lambda>x. []) [] [] no_data []) else None) (\<lambda>s. None) True
     (shutdown_checkpoint (\<lambda>c. if ck_rules c = [] then ''none'' else ''some'') (\<lambda>x. [])
        \<lparr>sd_time = ''t'', sd_node = ''n'', sd_network = Inl IoFailed, sd_fault = SaveDone, sd_readable = True\<rparr> [] Map.empty) = []"
proof -
  define j where "j = (\<lambda>s. if s = ''none'' then Some (create_checkpoint (\<lambda>x. []) [] [] no_data []) else None)"
  define t where "t = (\<lambda>c :: checkpoint. if ck_rules c = [] then ''none'' else ''some'')"
  define i where "i = \<lparr>sd_time = ''t'', sd_node = ''n'', sd_network = Inl IoFailed, sd_fault = SaveDone, sd_readable = True\<rparr>"
  have json: "\<forall>c d. j (t c) = Some d \<longrightarrow> ck_rules d = ck_rules c"
    by (auto simp: j_def t_def create_checkpoint_def split: if_splits)
  have e: "restored_rules j p r (Map.empty :: file_system) = []" for p r by (simp add: restored_rules_def checkpoint_load_def)
  have f: "(Map.empty :: file_system) FINAL_PATH = None" by simp
  from checkpoint_restores_no_rules [of j t, OF json f, of "\<lambda>s. None" True "\<lambda>x. []" "[i]"] have
    "restored_rules j (\<lambda>s. None) True (shutdown_checkpoint t (\<lambda>x. []) i [] Map.empty) = []" by (simp add: e)
  then show ?thesis unfolding j_def t_def i_def .
qed

end
