(* ===== verification/Lgpd_Rights.thy ===== *)
theory Lgpd_Rights
  imports Epa Tables
begin

text \<open>
  The rights of a data subject, \<^verbatim>\<open>crates/host/src/lgpd_rights.rs\<close>: the index from the hash of a subject to
  the packages about it, the anonymisation of a package and the package that records it. Times are nanoseconds;
  \<open>tmax\<close> is the last time the library represents, an addition beyond it panics. The readings of the clock
  inside one call are taken as one.
\<close>

section \<open>The index\<close>

record epa_ref =
  er_id :: string
  er_hash :: string
  er_basis :: lawful_basis
  er_purpose :: string
  er_created :: int
  er_expires :: int

type_synonym lgpd_index = "(string \<times> epa_ref list) list"

definition lgpd_new :: lgpd_index where
  "lgpd_new = []"

definition lgpd_lookup :: "lgpd_index \<Rightarrow> string \<Rightarrow> epa_ref list" where
  "lgpd_lookup ix h = (case map_of ix h of None \<Rightarrow> [] | Some es \<Rightarrow> es)"

definition lgpd_insert :: "lgpd_index \<Rightarrow> string \<Rightarrow> epa_ref \<Rightarrow> lgpd_index" where
  "lgpd_insert ix h e = AList.update h (lgpd_lookup ix h @ [e]) ix"

definition remove_epa :: "lgpd_index \<Rightarrow> string \<Rightarrow> string \<Rightarrow> lgpd_index" where
  "remove_epa ix h i =
     (case map_of ix h of
        None \<Rightarrow> ix
      | Some es \<Rightarrow>
          let es = filter (\<lambda>e. er_id e \<noteq> i) es
          in if es = [] then AList.delete h ix else AList.update h es ix)"

definition lgpd_count :: "lgpd_index \<Rightarrow> nat" where
  "lgpd_count ix = sum_list (map (length \<circ> snd) ix)"

definition subjects :: "lgpd_index \<Rightarrow> string list" where
  "subjects ix = map fst ix"

definition extract_lgpd_from_epa :: "shared_epa \<Rightarrow> lgpd_metadata option" where
  "extract_lgpd_from_epa e = epa_lgpd e"

definition parse_timestamp :: "epa_crypto \<Rightarrow> int \<Rightarrow> string \<Rightarrow> int" where
  "parse_timestamp C now s = (case parse_time C s of None \<Rightarrow> now | Some t \<Rightarrow> t)"

definition DAY_NANOS :: int where
  "DAY_NANOS = 24 * 3600 * 1000000000"

definition calc_expiry :: "epa_crypto \<Rightarrow> int \<Rightarrow> int \<Rightarrow> 32 word \<Rightarrow> string \<Rightarrow> int option" where
  "calc_expiry C tmax now days s =
     (let t = parse_timestamp C now s + uint days * DAY_NANOS in if tmax < t then None else Some t)"

text \<open>One package; \<open>None\<close> is a panic.\<close>

definition index_entry :: "epa_crypto \<Rightarrow> int \<Rightarrow> int \<Rightarrow> shared_epa \<Rightarrow> lgpd_metadata \<Rightarrow> epa_ref option" where
  "index_entry C tmax now e m =
     map_option (\<lambda>x. \<lparr>er_id = epa_id e, er_hash = canonical_hash C (epa_integrity_hash e), er_basis = lgpd_basis m,
         er_purpose = lgpd_purpose m, er_created = parse_timestamp C now (epa_timestamp e), er_expires = x\<rparr>)
       (calc_expiry C tmax now (retention_days m) (epa_timestamp e))"

definition index_package ::
    "epa_crypto \<Rightarrow> int \<Rightarrow> int \<Rightarrow> (shared_epa \<Rightarrow> lgpd_metadata option) \<Rightarrow> lgpd_index option \<Rightarrow> shared_epa \<Rightarrow> lgpd_index option" where
  "index_package C tmax now meta acc e =
     (case acc of
        None \<Rightarrow> None
      | Some ix \<Rightarrow>
          (case meta e of
             None \<Rightarrow> Some ix
           | Some m \<Rightarrow>
               (case data_subject_hash m of
                  None \<Rightarrow> Some ix
                | Some h \<Rightarrow> map_option (lgpd_insert ix h) (index_entry C tmax now e m))))"

definition build_from_epas :: "epa_crypto \<Rightarrow> int \<Rightarrow> int \<Rightarrow> shared_epa list \<Rightarrow> lgpd_index option" where
  "build_from_epas C tmax now es = foldl (index_package C tmax now extract_lgpd_from_epa) (Some lgpd_new) es"

definition index_from_epas_with_lgpd ::
    "epa_crypto \<Rightarrow> int \<Rightarrow> int \<Rightarrow> shared_epa list \<Rightarrow> (string \<rightharpoonup> lgpd_metadata) \<Rightarrow> lgpd_index option" where
  "index_from_epas_with_lgpd C tmax now es lgpd_map =
     foldl (index_package C tmax now (\<lambda>e. lgpd_map (epa_id e))) (Some lgpd_new) es"

section \<open>Anonymisation\<close>

definition zero_hash :: string where
  "zero_hash = replicate 64 CHR ''0''"

definition anonymize_epa_fields :: "shared_epa \<Rightarrow> string list \<times> shared_epa" where
  "anonymize_epa_fields e =
     (let fs = [];
          (fs, e) = (if encrypted_payload e \<noteq> None then (fs @ [''encrypted_payload''], e\<lparr>encrypted_payload := None\<rparr>) else (fs, e));
          (fs, e) = (if ephemeral_public_key e \<noteq> None then (fs @ [''ephemeral_public_key''], e\<lparr>ephemeral_public_key := None\<rparr>) else (fs, e));
          (fs, e) = (if epa_state_hash e \<noteq> zero_hash then (fs @ [''state_hash''], e\<lparr>epa_state_hash := zero_hash\<rparr>) else (fs, e));
          (fs, e) = (if epa_evidence_hash e \<noteq> zero_hash then (fs @ [''evidence_hash''], e\<lparr>epa_evidence_hash := zero_hash\<rparr>) else (fs, e))
      in if epa_lgpd e \<noteq> None then (fs @ [''lgpd_metadata''], e\<lparr>epa_lgpd := None\<rparr>) else (fs, e))"

definition create_suppression_epa ::
    "epa_crypto \<Rightarrow> (bytes \<Rightarrow> bytes) \<Rightarrow> string \<Rightarrow> string \<Rightarrow> int \<Rightarrow> shared_epa \<Rightarrow> shared_epa" where
  "create_suppression_epa C sign i public_key now e =
     epa_create C sign i public_key
       ''{\"lgpd_action\":\"suppression\",\"status\":\"anonymized\"}''
       (''{\"action\":\"anonymize\",\"original_epa_id\":\"'' @ epa_id e @ ''\",\"timestamp\":\"'' @ show_time C now @ ''\"}'')
       (''{\"decision\":\"suppress\",\"reason\":\"lgpd_data_subject_request\",\"original_epa\":\"'' @ epa_id e @ ''\"}'')
       (''{\"project\":\"lgpd_suppression\",\"original_epa_id\":\"'' @ epa_id e @ ''\",\"action\":\"data_anonymization\"}'')
       None now"

section \<open>Facts\<close>

lemma anonymize_spec:
  "snd (anonymize_epa_fields e) =
     e\<lparr>encrypted_payload := None, ephemeral_public_key := None, epa_state_hash := zero_hash,
       epa_evidence_hash := zero_hash, epa_lgpd := None\<rparr>"
  by (cases e) (simp add: anonymize_epa_fields_def Let_def)

text \<open>The index keeps distinct keys and no empty entry.\<close>

definition lgpd_index_ok :: "lgpd_index \<Rightarrow> bool" where
  "lgpd_index_ok ix \<longleftrightarrow> distinct (map fst ix) \<and> (\<forall>(h, es) \<in> set ix. es \<noteq> [])"

lemma lookup_insert: "lgpd_lookup (lgpd_insert ix h e) k = (if k = h then lgpd_lookup ix h @ [e] else lgpd_lookup ix k)"
  by (simp add: lgpd_lookup_def lgpd_insert_def update_conv')

lemma lookup_remove:
  "lgpd_lookup (remove_epa ix h i) k = (if k = h then filter (\<lambda>e. er_id e \<noteq> i) (lgpd_lookup ix h) else lgpd_lookup ix k)"
  by (simp add: lgpd_lookup_def remove_epa_def update_conv' delete_conv' Let_def split: option.splits)

lemma index_ok_new: "lgpd_index_ok lgpd_new"
  by (simp add: lgpd_index_ok_def lgpd_new_def)

lemma index_ok_insert: "lgpd_index_ok ix \<Longrightarrow> lgpd_index_ok (lgpd_insert ix h e)"
  using set_update_subset [of h "lgpd_lookup ix h @ [e]" ix]
  by (fastforce simp: lgpd_index_ok_def lgpd_insert_def distinct_update)

lemma index_ok_remove: "lgpd_index_ok ix \<Longrightarrow> lgpd_index_ok (remove_epa ix h i)"
proof -
  assume ok: "lgpd_index_ok ix"
  have "lgpd_index_ok (AList.delete h ix)"
    using ok set_delete_subset [of h ix] by (fastforce simp: lgpd_index_ok_def distinct_delete)
  moreover have "lgpd_index_ok (AList.update h es ix)" if "es \<noteq> []" for es
    using ok that set_update_subset [of h es ix] by (fastforce simp: lgpd_index_ok_def distinct_update)
  ultimately show ?thesis using ok by (auto simp: remove_epa_def Let_def split: option.splits)
qed

lemma index_package_None [simp]: "foldl (index_package C tmax now meta) None es = None"
  by (induction es) (simp_all add: index_package_def)

end
