(* ===== verification/Api.thy ===== *)
theory Api
  imports Listener Lgpd_Rights Provenance_Chain Defense
begin

text \<open>
  The handlers of the HTTP interface, \<^verbatim>\<open>crates/host/src/network/api.rs\<close>, as functions on the state they
  share: packages, peers, the index of data subjects, the provenance nodes with their derivations, and the
  witnesses. Routing, TLS and JSON are left out; the clock, hashing, Ed25519 and the encryption are parameters.
  A datagram that is sent is recorded.
\<close>

section \<open>State and answers\<close>

record api_state =
  ap_epas :: "shared_epa list"
  ap_peers :: peer_list
  ap_index :: lgpd_index
  ap_limiter :: source_limiter
  ap_nodes :: "provenance_node list"
  ap_derivations :: derivation_index
  ap_witnesses :: "(string \<times> witness_set) list"
  ap_sent :: "(net_message \<times> addr) list"

datatype status_code = NotFound | Unauthorized | BadRequest | TooManyRequests

record api_response =
  ar_status :: string
  ar_message :: string

definition health :: api_response where
  "health = \<lparr>ar_status = ''ok'', ar_message = ''nexoia node is running''\<rparr>"

definition node_info :: "node_identity \<Rightarrow> api_state \<Rightarrow> string \<times> nat" where
  "node_info N S = (ni_node_id N, length (ap_epas S))"

text \<open>The middleware in front of every route but one: whether the request goes on.\<close>

definition rate_limit_middleware :: "(string \<Rightarrow> u64) \<Rightarrow> nat \<Rightarrow> string \<Rightarrow> string \<Rightarrow> api_state \<Rightarrow> (status_code + unit) \<times> api_state" where
  "rate_limit_middleware hash now path ip S =
     (if path = ''/health'' then (Inr (), S)
      else
        let (ok, L) = check_source hash (ap_limiter S) ip now
        in (if ok then Inr () else Inl TooManyRequests, S\<lparr>ap_limiter := L\<rparr>))"

definition broadcast_epa :: "shared_epa \<Rightarrow> api_state \<Rightarrow> api_state" where
  "broadcast_epa e S = S\<lparr>ap_sent := ap_sent S @ map (\<lambda>a. (MsgEPA e, a)) (pl_peers (ap_peers S))\<rparr>"

definition push_epa :: "shared_epa list \<Rightarrow> shared_epa \<Rightarrow> shared_epa list" where
  "push_epa es e = (if MAX_EPA_ENTRIES \<le> length es then tl es else es) @ [e]"

definition find_epa :: "api_state \<Rightarrow> string \<Rightarrow> shared_epa option" where
  "find_epa S i = List.find (\<lambda>e. epa_id e = i) (ap_epas S)"

section \<open>Packages\<close>

definition receive_epa :: "epa_crypto \<Rightarrow> int \<Rightarrow> api_state \<Rightarrow> shared_epa \<Rightarrow> (status_code + api_response) \<times> api_state" where
  "receive_epa C now S e =
     (if verify_epa C e now = Valid
      then (Inr \<lparr>ar_status = ''accepted'', ar_message = ''EPA received and verified''\<rparr>,
            broadcast_epa e (S\<lparr>ap_epas := push_epa (ap_epas S) e\<rparr>))
      else (Inl Unauthorized, S))"

definition list_epas :: "api_state \<Rightarrow> shared_epa list" where
  "list_epas S = ap_epas S"

fun verify_result_text :: "verify_result \<Rightarrow> string" where
  "verify_result_text Valid = ''VALID''"
| "verify_result_text InvalidIntegrity = ''INVALID_INTEGRITY''"
| "verify_result_text InvalidSignature = ''INVALID_SIGNATURE''"
| "verify_result_text ResultExpired = ''TIMESTAMP_EXPIRED''"
| "verify_result_text ResultTooNew = ''TIMESTAMP_TOO_NEW''"
| "verify_result_text MissingData = ''MISSING_DATA''"

definition verify_epa_endpoint :: "epa_crypto \<Rightarrow> int \<Rightarrow> api_state \<Rightarrow> string \<Rightarrow> status_code + string \<times> string" where
  "verify_epa_endpoint C now S i =
     (case find_epa S i of None \<Rightarrow> Inl NotFound | Some e \<Rightarrow> Inr (verify_result_text (verify_epa C e now), epa_id e))"

definition verify_quick_endpoint :: "epa_crypto \<Rightarrow> int \<Rightarrow> api_state \<Rightarrow> string \<Rightarrow> status_code + bool \<times> bool \<times> string" where
  "verify_quick_endpoint C now S i =
     (case find_epa S i of
        None \<Rightarrow> Inl NotFound
      | Some e \<Rightarrow> Inr (epa_verify_signature C e now = Inr (), verify_integrity C e, epa_id e))"

text \<open>\<open>seal\<close> encrypts for a key under a fresh key pair: the payload and the public half.\<close>

definition create_encrypted ::
    "epa_crypto \<Rightarrow> (bytes \<Rightarrow> bytes \<Rightarrow> (bytes \<times> bytes) option) \<Rightarrow> node_identity \<Rightarrow> string \<Rightarrow> string \<Rightarrow> string \<Rightarrow> string \<Rightarrow>
       bytes \<Rightarrow> lgpd_metadata option \<Rightarrow> int \<Rightarrow> shared_epa option" where
  "create_encrypted C seal N state_json evidence_jsonl decisions_jsonl manifest_json recipient lgpd now =
     (let e = epa_create C (ni_sign N) (ni_node_id N) (ni_public_key N) state_json evidence_jsonl decisions_jsonl manifest_json lgpd now;
          sensitive = state_json @ ''|'' @ evidence_jsonl @ ''|'' @ decisions_jsonl @ ''|'' @ manifest_json
      in case seal recipient (string_bytes sensitive) of
           None \<Rightarrow> None
         | Some (payload, public) \<Rightarrow> Some (e\<lparr>encrypted_payload := Some payload, ephemeral_public_key := Some public\<rparr>))"

record encrypted_request =
  rq_state :: string
  rq_evidence :: string
  rq_decisions :: string
  rq_manifest :: string
  rq_recipient :: string

datatype request_error = InvalidRecipientHex | RecipientLength nat | EncryptionFailed

definition receive_encrypted_epa ::
    "epa_crypto \<Rightarrow> (bytes \<Rightarrow> bytes \<Rightarrow> (bytes \<times> bytes) option) \<Rightarrow> node_identity \<Rightarrow> int \<Rightarrow> api_state \<Rightarrow> encrypted_request \<Rightarrow>
       (request_error + shared_epa) \<times> api_state" where
  "receive_encrypted_epa C seal N now S rq =
     (case hex_decode C (rq_recipient rq) of
        None \<Rightarrow> (Inl InvalidRecipientHex, S)
      | Some key \<Rightarrow>
          if length key \<noteq> 32 then (Inl (RecipientLength (length key)), S)
          else
            case create_encrypted C seal N (rq_state rq) (rq_evidence rq) (rq_decisions rq) (rq_manifest rq) key None now of
              None \<Rightarrow> (Inl EncryptionFailed, S)
            | Some e \<Rightarrow> (Inr e, broadcast_epa e (S\<lparr>ap_epas := push_epa (ap_epas S) e\<rparr>)))"

section \<open>Compliance and witnesses\<close>

datatype blinding_status = NotBlinded | IsBlinded string string

record chain_link =
  cl_id :: string
  cl_relationship :: string
  cl_blinded :: bool

record compliance_report =
  cr_id :: string
  cr_blinding :: blinding_status
  cr_chain :: "chain_link list"
  cr_integrity :: bool
  cr_lgpd :: bool
  cr_witnesses :: nat
  cr_attested :: bool

definition find_node :: "api_state \<Rightarrow> string \<Rightarrow> provenance_node option" where
  "find_node S i = List.find (\<lambda>n. node_id n = i) (ap_nodes S)"

definition node_blinding :: "provenance_node \<Rightarrow> blinding_status" where
  "node_blinding n =
     (case parent_ref n of
        Some (Active h) \<Rightarrow> NotBlinded
      | Some (Blinded b s) \<Rightarrow> IsBlinded b s
      | None \<Rightarrow> NotBlinded)"

definition child_link :: "api_state \<Rightarrow> string \<Rightarrow> chain_link" where
  "child_link S c =
     \<lparr>cl_id = c, cl_relationship = ''child'',
      cl_blinded = (case Option.bind (find_node S c) parent_ref of None \<Rightarrow> False | Some r \<Rightarrow> is_blinded r)\<rparr>"

definition get_compliance :: "api_state \<Rightarrow> string \<Rightarrow> status_code + compliance_report" where
  "get_compliance S i =
     (case find_epa S i of
        None \<Rightarrow> Inl NotFound
      | Some e \<Rightarrow>
          let (status, chain) =
                (case find_node S i of
                   Some n \<Rightarrow> (node_blinding n, map (child_link S) (children_of (ap_derivations S) i))
                 | None \<Rightarrow> (NotBlinded, []));
              (count, attested) =
                (case map_of (ap_witnesses S) i of
                   Some ws \<Rightarrow> (length ws, 2 \<le> length ws)
                 | None \<Rightarrow> (0, False))
          in Inr \<lparr>cr_id = i, cr_blinding = status, cr_chain = chain, cr_integrity = True,
                  cr_lgpd = (epa_lgpd e \<noteq> None), cr_witnesses = count, cr_attested = attested\<rparr>)"

record witness_response =
  wr_id :: string
  wr_count :: nat
  wr_attested :: bool
  wr_message :: string

definition parse_witness_kind :: "string \<Rightarrow> witness_kind option" where
  "parse_witness_kind s =
     (if s = ''cosigned'' then Some Cosigned
      else if s = ''timestamped'' then Some TimestampedByTrustedSource
      else if s = ''external_ledger'' then Some CrossReferencedInExternalLedger
      else None)"

definition witness_epa_endpoint ::
    "(string \<Rightarrow> uuid option) \<Rightarrow> int \<Rightarrow> api_state \<Rightarrow> string \<Rightarrow> string \<Rightarrow> string \<Rightarrow> (status_code + witness_response) \<times> api_state" where
  "witness_epa_endpoint parse_uuid now S i wid kind =
     (if \<not> list_ex (\<lambda>e. epa_id e = i) (ap_epas S) then (Inl NotFound, S)
      else
        case parse_witness_kind kind of
          None \<Rightarrow> (Inl BadRequest, S)
        | Some k \<Rightarrow>
            (case parse_uuid wid of
               None \<Rightarrow> (Inl BadRequest, S)
             | Some u \<Rightarrow>
                 let old = (case map_of (ap_witnesses S) i of None \<Rightarrow> witness_set_new | Some ws \<Rightarrow> ws);
                     ws = add_witness old \<lparr>witness_id = u, witnessed_at = now, witness_kind = k\<rparr>;
                     count = length ws; attested = (2 \<le> count)
                 in (Inr \<lparr>wr_id = i, wr_count = count, wr_attested = attested,
                          wr_message = (if attested then ''EPA attested by sufficient witnesses''
                            else nat_text count @ '' witness(es) recorded, need 2+ for attestation'')\<rparr>,
                     S\<lparr>ap_witnesses := AList.update i ws (ap_witnesses S)\<rparr>)))"

section \<open>Rights of the data subject\<close>

definition titular_dados :: "api_state \<Rightarrow> string \<Rightarrow> epa_ref list" where
  "titular_dados S h = lgpd_lookup (ap_index S) h"

record titular_export =
  te_subject :: string
  te_epas :: "epa_ref list"
  te_exported_at :: int

definition export_titular :: "int \<Rightarrow> api_state \<Rightarrow> string \<Rightarrow> titular_export" where
  "export_titular now S h = \<lparr>te_subject = h, te_epas = lgpd_lookup (ap_index S) h, te_exported_at = now\<rparr>"

record anonymization_result =
  an_original :: string
  an_suppression :: string
  an_fields :: "string list"
  an_timestamp :: int
  an_links_blinded :: nat

text \<open>The first package with an identifier is anonymised in place and the suppression is appended.\<close>

fun anonymize_first :: "string \<Rightarrow> shared_epa list \<Rightarrow> (string list \<times> shared_epa \<times> shared_epa list) option" where
  "anonymize_first i [] = None"
| "anonymize_first i (e # es) =
     (if epa_id e = i then (let (fs, e') = anonymize_epa_fields e in Some (fs, e', e' # es))
      else map_option (\<lambda>(fs, e', es'). (fs, e', e # es')) (anonymize_first i es))"

type_synonym erasure = "shared_epa list \<times> anonymization_result list \<times> shared_epa list"

definition anonymize_ref :: "epa_crypto \<Rightarrow> node_identity \<Rightarrow> int \<Rightarrow> epa_ref \<Rightarrow> erasure \<Rightarrow> erasure" where
  "anonymize_ref C N now r = (\<lambda>(es, results, suppressions).
     case anonymize_first (er_id r) es of
       None \<Rightarrow> (es, results, suppressions)
     | Some (fs, e, es') \<Rightarrow>
         let s = create_suppression_epa C (ni_sign N) (ni_node_id N) (ni_public_key N) now e
         in (push_epa es' s,
             results @ [\<lparr>an_original = er_id r, an_suppression = epa_id s, an_fields = fs, an_timestamp = now, an_links_blinded = 0\<rparr>],
             suppressions @ [s]))"

definition suppression_integrity :: "shared_epa list \<Rightarrow> anonymization_result \<Rightarrow> string" where
  "suppression_integrity ss r =
     (case List.find (\<lambda>s. epa_id s = an_suppression r) ss of None \<Rightarrow> [] | Some s \<Rightarrow> epa_integrity_hash s)"

definition blind_result ::
    "epa_crypto \<Rightarrow> shared_epa list \<Rightarrow> anonymization_result \<Rightarrow> provenance_node list \<times> derivation_index \<Rightarrow>
       provenance_node list \<times> derivation_index" where
  "blind_result C ss r = (\<lambda>(ns, ix).
     let ns' = fst (blind_derivation_links (canonical_hash C) ns (an_original r) (suppression_integrity ss r));
         ix = remove_parent ix (an_original r);
         ix = build_from_chain_refs ns'
     in (ns', ix))"

definition contains_text :: "string \<Rightarrow> string \<Rightarrow> bool" where
  "contains_text p s \<longleftrightarrow> list_ex (\<lambda>k. take (length p) (drop k s) = p) [0..<Suc (length s)]"

definition count_links :: "shared_epa list \<Rightarrow> provenance_node list \<Rightarrow> anonymization_result \<Rightarrow> anonymization_result" where
  "count_links ss ns r =
     r\<lparr>an_links_blinded := length (filter (\<lambda>n. case parent_ref n of
         None \<Rightarrow> False
       | Some p \<Rightarrow> is_blinded p \<and> contains_text (suppression_integrity ss r) (ref_str p)) ns)\<rparr>"

definition index_suppression :: "epa_crypto \<Rightarrow> string \<Rightarrow> anonymization_result \<Rightarrow> lgpd_index \<Rightarrow> lgpd_index" where
  "index_suppression C h r ix =
     lgpd_insert (remove_epa ix h (an_original r)) h
       \<lparr>er_id = an_suppression r, er_hash = canonical_hash C (an_suppression r), er_basis = ObrigacaoLegal,
        er_purpose = ''lgpd_suppression'', er_created = an_timestamp r, er_expires = an_timestamp r + 3650 * DAY_NANOS\<rparr>"

definition titular_anonymize ::
    "epa_crypto \<Rightarrow> node_identity \<Rightarrow> int \<Rightarrow> api_state \<Rightarrow> string \<Rightarrow> (status_code + anonymization_result list) \<times> api_state" where
  "titular_anonymize C N now S h =
     (let refs = lgpd_lookup (ap_index S) h
      in if refs = [] then (Inl NotFound, S)
         else
           let (es, results, ss) = fold (anonymize_ref C N now) refs (ap_epas S, [], []);
               (ns, ix) = fold (blind_result C ss) results (ap_nodes S, ap_derivations S);
               results = map (count_links ss ns) results;
               S = fold broadcast_epa ss (S\<lparr>ap_epas := es, ap_nodes := ns, ap_derivations := ix\<rparr>)
           in (Inr results, S\<lparr>ap_index := fold (index_suppression C h) results (ap_index S)\<rparr>))"

record revocation_result =
  rv_id :: string
  rv_revoked_at :: int
  rv_basis_before :: lawful_basis

definition revoke_ref :: "string \<Rightarrow> int \<Rightarrow> epa_ref \<Rightarrow> lgpd_index \<times> revocation_result list \<Rightarrow> lgpd_index \<times> revocation_result list" where
  "revoke_ref h now r = (\<lambda>(ix, results).
     if er_basis r = Consentimento
     then (remove_epa ix h (er_id r), results @ [\<lparr>rv_id = er_id r, rv_revoked_at = now, rv_basis_before = er_basis r\<rparr>])
     else (ix, results))"

definition titular_revoke :: "int \<Rightarrow> api_state \<Rightarrow> string \<Rightarrow> (status_code + revocation_result list) \<times> api_state" where
  "titular_revoke now S h =
     (let refs = lgpd_lookup (ap_index S) h
      in if refs = [] then (Inl NotFound, S)
         else let (ix, results) = fold (revoke_ref h now) refs (ap_index S, []) in (Inr results, S\<lparr>ap_index := ix\<rparr>))"

end
