(* ===== verification/Api_Theorems.thy ===== *)
theory Api_Theorems
  imports Api
begin

text \<open>
  What the requests of a data subject achieve: erasure on a store of distinct packages and its limits, consent that
  is revoked, and the store of packages under repeated posts.
\<close>

section \<open>The index of a store\<close>

definition about :: "string \<Rightarrow> shared_epa \<Rightarrow> bool" where
  "about h e \<longleftrightarrow> (case epa_lgpd e of None \<Rightarrow> False | Some m \<Rightarrow> data_subject_hash m = Some h)"

lemma index_entry_id: "index_entry C tmax now e m = Some r \<Longrightarrow> er_id r = epa_id e"
  by (auto simp: index_entry_def)

lemma index_package_lookup:
  assumes "index_package C tmax now extract_lgpd_from_epa (Some ix) e = Some ix'"
  shows "map er_id (lgpd_lookup ix' h) = map er_id (lgpd_lookup ix h) @ (if about h e then [epa_id e] else [])"
  using assms
  by (auto simp: index_package_def extract_lgpd_from_epa_def about_def lookup_insert index_entry_id split: option.splits)

lemma build_lookup_from:
  "foldl (index_package C tmax now extract_lgpd_from_epa) (Some ix) es = Some ix' \<Longrightarrow>
     map er_id (lgpd_lookup ix' h) = map er_id (lgpd_lookup ix h) @ map epa_id (filter (about h) es)"
proof (induction es arbitrary: ix)
  case (Cons e es)
  obtain ix1 where ix1: "index_package C tmax now extract_lgpd_from_epa (Some ix) e = Some ix1"
    using Cons.prems by (cases "index_package C tmax now extract_lgpd_from_epa (Some ix) e") simp_all
  then show ?case using Cons.IH [of ix1] Cons.prems index_package_lookup [OF ix1, of h] by simp
qed simp

lemma build_lookup:
  "build_from_epas C tmax now es = Some ix \<Longrightarrow> map er_id (lgpd_lookup ix h) = map epa_id (filter (about h) es)"
  using build_lookup_from [of C tmax now lgpd_new es ix h] by (simp add: build_from_epas_def lgpd_new_def lgpd_lookup_def)

section \<open>Erasure\<close>

definition erased :: "shared_epa \<Rightarrow> shared_epa" where
  "erased e = snd (anonymize_epa_fields e)"

lemma erased_simps [simp]: "epa_id (erased e) = epa_id e" "epa_lgpd (erased e) = None"
  by (simp_all add: erased_def anonymize_spec)

lemma erased_twice: "erased (erased e) = erased e"
  by (simp add: erased_def anonymize_spec)

definition erase_ids :: "string set \<Rightarrow> shared_epa list \<Rightarrow> shared_epa list" where
  "erase_ids I es = map (\<lambda>e. if epa_id e \<in> I then erased e else e) es"

lemma anonymize_first_append:
  assumes "i \<in> epa_id ` set es" and "distinct (map epa_id es)"
  shows "\<exists>fs e. anonymize_first i (es @ ss) = Some (fs, e, erase_ids {i} es @ ss) \<and> epa_id e = i"
  using assms
proof (induction es)
  case (Cons x es)
  show ?case
  proof (cases "epa_id x = i")
    case True
    then have "i \<notin> epa_id ` set es" using Cons.prems(2) by simp
    then have "epa_id y \<noteq> i" if "y \<in> set es" for y using that by blast
    then have "erase_ids {i} es = es" by (simp add: erase_ids_def map_idI)
    then show ?thesis using True by (simp add: erase_ids_def erased_def anonymize_spec case_prod_beta Let_def)
  next
    case False
    then obtain fs e where "anonymize_first i (es @ ss) = Some (fs, e, erase_ids {i} es @ ss)" "epa_id e = i" using Cons by auto
    then show ?thesis using False by (simp add: erase_ids_def)
  qed
qed simp

lemma erase_more: "erase_ids {i} (erase_ids I es) = erase_ids (insert i I) es"
  by (auto simp: erase_ids_def erased_twice)

lemma erase_ids_ids [simp]: "map epa_id (erase_ids I es) = map epa_id es"
  by (auto simp: erase_ids_def)

lemma length_erase_ids [simp]: "length (erase_ids I es) = length es"
  by (simp add: erase_ids_def)

text \<open>A suppression names the erased package and carries nothing else of it.\<close>

definition suppression_for :: "epa_crypto \<Rightarrow> node_identity \<Rightarrow> int \<Rightarrow> string \<Rightarrow> shared_epa" where
  "suppression_for C N now i =
     epa_create C (ni_sign N) (ni_node_id N) (ni_public_key N)
       ''{\"lgpd_action\":\"suppression\",\"status\":\"anonymized\"}''
       (''{\"action\":\"anonymize\",\"original_epa_id\":\"'' @ i @ ''\",\"timestamp\":\"'' @ show_time C now @ ''\"}'')
       (''{\"decision\":\"suppress\",\"reason\":\"lgpd_data_subject_request\",\"original_epa\":\"'' @ i @ ''\"}'')
       (''{\"project\":\"lgpd_suppression\",\"original_epa_id\":\"'' @ i @ ''\",\"action\":\"data_anonymization\"}'')
       None now"

lemma create_suppression_for:
  "create_suppression_epa C (ni_sign N) (ni_node_id N) (ni_public_key N) now e = suppression_for C N now (epa_id e)"
  by (simp add: create_suppression_epa_def suppression_for_def)

lemma suppression_plain: "epa_lgpd (suppression_for C N now i) = None"
  by (simp add: suppression_for_def epa_create_def Let_def)

lemma erase_refs:
  assumes "distinct (map epa_id es)" and "er_id ` set refs \<subseteq> epa_id ` set es"
    and "length es + length ss + length refs \<le> MAX_EPA_ENTRIES"
  shows "\<exists>rs'. fold (anonymize_ref C N now) refs (erase_ids I es @ ss, results, sups) =
      (erase_ids (I \<union> er_id ` set refs) es @ ss @ map (suppression_for C N now \<circ> er_id) refs, results @ rs',
       sups @ map (suppression_for C N now \<circ> er_id) refs) \<and>
      map an_original rs' = map er_id refs \<and> map an_suppression rs' = map (epa_id \<circ> suppression_for C N now \<circ> er_id) refs"
  using assms(2-)
proof (induction refs arbitrary: I ss results sups)
  case (Cons r refs)
  have "er_id r \<in> epa_id ` set (erase_ids I es)"
    using Cons.prems(1) erase_ids_ids [of I es] by (metis image_set insert_subset list.simps(15) image_insert)
  moreover have "distinct (map epa_id (erase_ids I es))" using assms(1) by simp
  ultimately obtain fs e where a: "anonymize_first (er_id r) (erase_ids I es @ ss) = Some (fs, e, erase_ids {er_id r} (erase_ids I es) @ ss)"
    and id: "epa_id e = er_id r"
    using anonymize_first_append by blast
  define s where "s = suppression_for C N now (er_id r)"
  define x where "x = \<lparr>an_original = er_id r, an_suppression = epa_id s, an_fields = fs, an_timestamp = now, an_links_blinded = 0\<rparr>"
  have "push_epa (erase_ids (insert (er_id r) I) es @ ss) s = erase_ids (insert (er_id r) I) es @ (ss @ [s])"
    using Cons.prems(2) by (simp add: push_epa_def)
  then have step: "anonymize_ref C N now r (erase_ids I es @ ss, results, sups) =
      (erase_ids (insert (er_id r) I) es @ (ss @ [s]), results @ [x], sups @ [s])"
    by (simp add: anonymize_ref_def a erase_more create_suppression_for id x_def Let_def flip: s_def)
  obtain rs' where IH: "fold (anonymize_ref C N now) refs (erase_ids (insert (er_id r) I) es @ (ss @ [s]), results @ [x], sups @ [s]) =
      (erase_ids (insert (er_id r) I \<union> er_id ` set refs) es @ (ss @ [s]) @ map (suppression_for C N now \<circ> er_id) refs,
       (results @ [x]) @ rs', (sups @ [s]) @ map (suppression_for C N now \<circ> er_id) refs)"
    "map an_original rs' = map er_id refs" "map an_suppression rs' = map (epa_id \<circ> suppression_for C N now \<circ> er_id) refs"
    using Cons.IH [of "ss @ [s]" "insert (er_id r) I" "results @ [x]" "sups @ [s]"] Cons.prems by auto
  show ?case using IH step by (intro exI [of _ "x # rs'"]) (simp add: x_def s_def)
qed simp

lemma broadcast_epas: "ap_epas (fold broadcast_epa ss S) = ap_epas S"
  by (induction ss arbitrary: S) (simp_all add: broadcast_epa_def)

lemma anonymize_epas:
  assumes "lgpd_lookup (ap_index S) h \<noteq> []"
  shows "ap_epas (snd (titular_anonymize C N now S h)) = fst (fold (anonymize_ref C N now) (lgpd_lookup (ap_index S) h) (ap_epas S, [], []))"
  using assms by (simp add: titular_anonymize_def case_prod_beta Let_def broadcast_epas)

lemma anonymize_answer:
  assumes "lgpd_lookup (ap_index S) h \<noteq> []"
    and "fold (anonymize_ref C N now) (lgpd_lookup (ap_index S) h) (ap_epas S, [], []) = (es, rs, ss)"
  shows "\<exists>results. fst (titular_anonymize C N now S h) = Inr results \<and>
    map an_original results = map an_original rs \<and> map an_suppression results = map an_suppression rs"
  using assms by (simp add: titular_anonymize_def case_prod_beta Let_def count_links_def comp_def)

section \<open>Revocation and the store\<close>

lemma revoke_fold:
  "\<forall>r \<in> set refs. er_basis r = Consentimento \<Longrightarrow>
     lgpd_lookup (fst (fold (revoke_ref h now) refs (ix, results))) h = filter (\<lambda>e. er_id e \<notin> er_id ` set refs) (lgpd_lookup ix h)"
proof (induction refs arbitrary: ix results)
  case (Cons r refs)
  then show ?case by (simp add: revoke_ref_def lookup_remove)
qed simp

lemma drop_push: "k < length xs \<Longrightarrow> tl (drop k xs) @ [e] = drop (Suc k) (xs @ [e])"
  by (cases "drop k xs") (simp_all add: drop_Suc tl_drop [symmetric])

section \<open>Examples\<close>

definition empty_api :: api_state where
  "empty_api =
     \<lparr>ap_epas = [], ap_peers = peer_list_new 4, ap_index = lgpd_new, ap_limiter = source_limiter_new 100 60000, ap_nodes = [],
      ap_derivations = index_new, ap_witnesses = [], ap_sent = []\<rparr>"

definition sample_node :: node_identity where
  "sample_node =
     \<lparr>ni_node_id = ''n'', ni_public_key = ''k'', ni_sign = (\<lambda>m. zeros 64), ni_enc_public = [], ni_kem = \<lparr>kem_ek = [], kem_seed = []\<rparr>\<rparr>"

definition sample_metadata :: lgpd_metadata where
  "sample_metadata =
     \<lparr>lgpd_basis = Consentimento, lgpd_purpose = ''p'', retention_days = 30, data_subject_hash = Some ''h'', dpia_ref = None, consent_id = None\<rparr>"

definition sample_package :: shared_epa where
  "sample_package = epa_create stamped_crypto (\<lambda>m. zeros 64) ''n'' ''k'' ''s'' ''e'' ''d'' ''m'' (Some sample_metadata) 5"

definition sample_ref :: epa_ref where
  "sample_ref =
     \<lparr>er_id = epa_id sample_package, er_hash = epa_integrity_hash sample_package, er_basis = Consentimento, er_purpose = ''p'',
      er_created = 5, er_expires = 5 + 30 * DAY_NANOS\<rparr>"

definition sample_api :: api_state where
  "sample_api = empty_api\<lparr>ap_epas := [sample_package], ap_index := [(''h'', [sample_ref])]\<rparr>"

lemma sample_about: "about h sample_package \<longleftrightarrow> h = ''h''"
  by (auto simp: about_def sample_package_def epa_create_def Let_def sample_metadata_def)

lemma sample_valid: "verify_epa stamped_crypto sample_package 6 = Valid"
  unfolding verify_epa_valid sample_package_def
  by (simp add: verify_integrity_def epa_create_def Let_def signature_valid_def verify_signature_def stamped_time)
    (simp add: stamped_crypto_def open_crypto_def zeros_def)

lemma sample_index: "build_from_epas stamped_crypto (10 ^ 18) 0 [sample_package] = Some [(''h'', [sample_ref])]"
proof -
  have "parse_time stamped_crypto (epa_timestamp sample_package) = Some 5"
    by (simp add: sample_package_def epa_create_def Let_def stamped_time)
  moreover have "epa_lgpd sample_package = Some sample_metadata" "canonical_hash stamped_crypto s = s" for s
    by (simp_all add: sample_package_def epa_create_def Let_def stamped_crypto_def open_crypto_def)
  ultimately show ?thesis
    by (simp add: build_from_epas_def index_package_def extract_lgpd_from_epa_def sample_metadata_def index_entry_def calc_expiry_def
        parse_timestamp_def lgpd_insert_def lgpd_lookup_def lgpd_new_def sample_ref_def DAY_NANOS_def Let_def)
qed

section \<open>Properties\<close>

text \<open>
  C27: on a store of packages with distinct identifiers whose index was built from it, and with room for the
  suppressions below the limit of 10000 packages, the request to erase a subject clears the encrypted payload, the
  key of its encryption, the hashes of state and evidence and the metadata of exactly the packages about it, in
  place, and leaves every other package as it is; it appends, in their order, one suppression for each, which names
  the package and carries nothing else of it, and answers with the pairs of the two. No package is about the subject
  any more.
\<close>

theorem titular_erasure:
  assumes "build_from_epas C tmax t (ap_epas S) = Some (ap_index S)" and "distinct (map epa_id (ap_epas S))"
    and "length (ap_epas S) + length (filter (about h) (ap_epas S)) \<le> 10000" and "filter (about h) (ap_epas S) \<noteq> []"
  shows "\<exists>ss results S'. titular_anonymize C N now S h = (Inr results, S') \<and>
    ap_epas S' = map (\<lambda>e. if about h e
      then e\<lparr>encrypted_payload := None, ephemeral_public_key := None, epa_state_hash := replicate 64 CHR ''0'',
             epa_evidence_hash := replicate 64 CHR ''0'', epa_lgpd := None\<rparr>
      else e) (ap_epas S) @ ss \<and>
    ss = map (\<lambda>e. epa_create C (ni_sign N) (ni_node_id N) (ni_public_key N)
       ''{\"lgpd_action\":\"suppression\",\"status\":\"anonymized\"}''
       (''{\"action\":\"anonymize\",\"original_epa_id\":\"'' @ epa_id e @ ''\",\"timestamp\":\"'' @ show_time C now @ ''\"}'')
       (''{\"decision\":\"suppress\",\"reason\":\"lgpd_data_subject_request\",\"original_epa\":\"'' @ epa_id e @ ''\"}'')
       (''{\"project\":\"lgpd_suppression\",\"original_epa_id\":\"'' @ epa_id e @ ''\",\"action\":\"data_anonymization\"}'')
       None now) (filter (about h) (ap_epas S)) \<and>
    map an_original results = map epa_id (filter (about h) (ap_epas S)) \<and> map an_suppression results = map epa_id ss \<and>
    \<not> list_ex (about h) (ap_epas S')"
proof -
  define refs where "refs = lgpd_lookup (ap_index S) h"
  define es where "es = filter (about h) (ap_epas S)"
  define ss where "ss = map (\<lambda>e. suppression_for C N now (epa_id e)) es"
  have ids: "map er_id refs = map epa_id es" using build_lookup [OF assms(1)] by (simp add: refs_def es_def)
  have sups: "map (suppression_for C N now \<circ> er_id) refs = ss"
    using arg_cong [OF ids, of "map (suppression_for C N now)"] by (simp add: ss_def comp_def)
  have sup_ids: "map (epa_id \<circ> suppression_for C N now \<circ> er_id) refs = map epa_id ss"
    using arg_cong [OF sups, of "map epa_id"] by (simp add: comp_def)
  have len: "length refs = length es" using ids by (metis length_map)
  have set: "er_id ` set refs = epa_id ` set es" using ids by (metis set_map)
  have ne: "lgpd_lookup (ap_index S) h \<noteq> []" using assms(4) len by (auto simp: es_def refs_def)
  have "er_id ` set refs \<subseteq> epa_id ` set (ap_epas S)" using set by (auto simp: es_def)
  with erase_refs [OF assms(2), of refs "[]" C N now "{}" "[]" "[]"] obtain rs where
    f: "fold (anonymize_ref C N now) refs (erase_ids {} (ap_epas S), [], []) = (erase_ids (er_id ` set refs) (ap_epas S) @ ss, rs, ss)"
    "map an_original rs = map epa_id es" "map an_suppression rs = map epa_id ss"
    using assms(3) len by (auto simp: es_def [symmetric] sups sup_ids MAX_EPA_ENTRIES_def ids)
  have "epa_id e \<in> er_id ` set refs \<longleftrightarrow> about h e" if "e \<in> set (ap_epas S)" for e
    using set that assms(2) by (auto simp: es_def distinct_map inj_on_def)
  then have e: "erase_ids (er_id ` set refs) (ap_epas S) = map (\<lambda>e. if about h e then erased e else e) (ap_epas S)"
    by (simp add: erase_ids_def)
  have z: "erase_ids {} (ap_epas S) = ap_epas S" by (simp add: erase_ids_def)
  obtain results where r: "fst (titular_anonymize C N now S h) = Inr results"
    "map an_original results = map epa_id es" "map an_suppression results = map epa_id ss"
    using anonymize_answer [OF ne] f by (metis refs_def z)
  have a: "ap_epas (snd (titular_anonymize C N now S h)) = map (\<lambda>e. if about h e then erased e else e) (ap_epas S) @ ss"
    using anonymize_epas [OF ne, of C N now] f(1) e z by (simp add: refs_def)
  have "\<not> about h (erased e)" "\<not> about h (suppression_for C N now i)" for e i by (simp_all add: about_def suppression_plain)
  then have n: "\<not> list_ex (about h) (ap_epas (snd (titular_anonymize C N now S h)))" by (auto simp: a list_ex_iff ss_def)
  show ?thesis
    by (rule exI [of _ ss], rule exI [of _ results], rule exI [of _ "snd (titular_anonymize C N now S h)"], intro conjI)
      (use r a n in \<open>simp_all add: prod_eq_iff es_def comp_def ss_def suppression_for_def erased_def anonymize_spec zero_hash_def\<close>)
qed

theorem titular_erasure_witness:
  "\<exists>s. ap_epas (snd (titular_anonymize stamped_crypto sample_node 7 sample_api ''h'')) =
     [sample_package\<lparr>encrypted_payload := None, ephemeral_public_key := None, epa_state_hash := replicate 64 CHR ''0'',
        epa_evidence_hash := replicate 64 CHR ''0'', epa_lgpd := None\<rparr>, s]"
  using titular_erasure [of stamped_crypto "10 ^ 18" 0 sample_api "''h''" sample_node 7] sample_index
  by (auto simp: sample_api_def sample_about empty_api_def)

text \<open>
  Once every consent of a subject is revoked the index knows nothing of it any more: the packages still carry
  its data, and the request to erase them is answered with not found.
\<close>

theorem revoked_subject_cannot_be_erased:
  assumes "\<forall>r \<in> set (titular_dados S h). er_basis r = Consentimento" and "titular_dados S h \<noteq> []"
  shows "\<exists>results S'. titular_revoke now S h = (Inr results, S') \<and> ap_epas S' = ap_epas S \<and>
    titular_anonymize C N later S' h = (Inl NotFound, S')"
proof -
  define refs where "refs = lgpd_lookup (ap_index S) h"
  define r where "r = fold (revoke_ref h now) refs (ap_index S, [])"
  have "lgpd_lookup (fst r) h = []"
    using revoke_fold [of refs h now "ap_index S" "[]"] assms(1) by (simp add: r_def refs_def titular_dados_def)
  moreover have "titular_revoke now S h = (Inr (snd r), S\<lparr>ap_index := fst r\<rparr>)"
    using assms(2) by (simp add: titular_revoke_def titular_dados_def r_def refs_def case_prod_beta Let_def)
  ultimately show ?thesis by (simp add: titular_anonymize_def)
qed

theorem revoked_subject_cannot_be_erased_witness:
  "\<exists>S'. snd (titular_revoke 7 sample_api ''h'') = S' \<and> list_ex (about ''h'') (ap_epas S') \<and>
     titular_anonymize stamped_crypto sample_node 8 S' ''h'' = (Inl NotFound, S')"
proof -
  have "titular_dados sample_api ''h'' = [sample_ref]" by (simp add: titular_dados_def sample_api_def lgpd_lookup_def)
  then obtain results S' where "titular_revoke 7 sample_api ''h'' = (Inr results, S') \<and> ap_epas S' = ap_epas sample_api \<and>
      titular_anonymize stamped_crypto sample_node 8 S' ''h'' = (Inl NotFound, S')"
    using revoked_subject_cannot_be_erased [of sample_api "''h''" 7 stamped_crypto sample_node 8] by (auto simp: sample_ref_def)
  then show ?thesis by (auto simp: sample_api_def sample_about)
qed

text \<open>
  A valid package posted again is stored again: posting one package as often as the store has room evicts
  every other package.
\<close>

theorem one_package_fills_store:
  assumes "verify_epa C e now = Valid" and "length (ap_epas S) \<le> MAX_EPA_ENTRIES"
  shows "ap_epas (((\<lambda>S. snd (receive_epa C now S e)) ^^ n) S) =
    drop (length (ap_epas S) + n - MAX_EPA_ENTRIES) (ap_epas S @ replicate n e)"
proof (induction n)
  case 0
  then show ?case using assms(2) by simp
next
  case (Suc n)
  define es where "es = ap_epas (((\<lambda>S. snd (receive_epa C now S e)) ^^ n) S)"
  define k where "k = length (ap_epas S) + n - MAX_EPA_ENTRIES"
  have es: "es = drop k (ap_epas S @ replicate n e)" using Suc by (simp add: es_def k_def)
  have len: "length es = length (ap_epas S) + n - k" by (simp add: es)
  have "ap_epas (((\<lambda>S. snd (receive_epa C now S e)) ^^ Suc n) S) = push_epa es e"
    using assms(1) by (simp add: receive_epa_def broadcast_epa_def es_def)
  also have "\<dots> = drop (length (ap_epas S) + Suc n - MAX_EPA_ENTRIES) (ap_epas S @ replicate (Suc n) e)"
  proof (cases "MAX_EPA_ENTRIES \<le> length (ap_epas S) + n")
    case True
    then have "MAX_EPA_ENTRIES \<le> length es" "length (ap_epas S) + Suc n - MAX_EPA_ENTRIES = Suc k" by (simp_all add: len k_def)
    moreover have "k < length (ap_epas S @ replicate n e)" using True by (simp add: k_def MAX_EPA_ENTRIES_def)
    ultimately show ?thesis
      using drop_push [of k "ap_epas S @ replicate n e" e] by (simp add: push_epa_def es replicate_append_same del: drop_append)
  next
    case False
    then have "k = 0" "length (ap_epas S) + Suc n - MAX_EPA_ENTRIES = 0" "\<not> MAX_EPA_ENTRIES \<le> length es" by (simp_all add: len k_def)
    then show ?thesis by (simp add: push_epa_def es replicate_append_same)
  qed
  finally show ?case .
qed

theorem one_package_fills_store_witness:
  "ap_epas (((\<lambda>S. snd (receive_epa stamped_crypto 6 S sample_package)) ^^ 3) empty_api) = replicate 3 sample_package"
  using one_package_fills_store [OF sample_valid, of empty_api 3] by (simp add: empty_api_def MAX_EPA_ENTRIES_def)

text \<open>
  Two copies of a package in the store are one for the request to erase: it anonymises the first copy twice and
  leaves the second with all its data.
\<close>

theorem erasure_misses_a_copy:
  assumes "ap_epas S = [e, e]" and "map er_id (lgpd_lookup (ap_index S) h) = [epa_id e, epa_id e]"
  shows "\<exists>ss. ap_epas (snd (titular_anonymize C N now S h)) = erased e # e # ss"
proof -
  obtain r r' where refs: "lgpd_lookup (ap_index S) h = [r, r']" "er_id r = epa_id e" "er_id r' = epa_id e"
    using assms(2) by (auto simp: map_eq_Cons_conv)
  have a: "anonymize_first (epa_id e) (x # es) = Some (fst (anonymize_epa_fields x), erased x, erased x # es)" if "epa_id x = epa_id e" for x es
    using that by (simp add: erased_def case_prod_beta Let_def)
  show ?thesis
    using refs by (subst anonymize_epas) (simp_all add: assms(1) anonymize_ref_def a erased_twice push_epa_def MAX_EPA_ENTRIES_def Let_def del: anonymize_first.simps)
qed

text \<open>
  An anonymised package verifies no more, unless the hash collides: it keeps the hash and the signature of its old
  content.
\<close>

theorem erased_package_unverifiable:
  assumes "verify_integrity C e" and "epa_content (epa_node_id e) zero_hash zero_hash (epa_decision_hash e) (epa_manifest_hash e) \<noteq>
      epa_content (epa_node_id e) (epa_state_hash e) (epa_evidence_hash e) (epa_decision_hash e) (epa_manifest_hash e)"
    and "\<And>x y. canonical_hash C x = canonical_hash C y \<Longrightarrow> x = y"
  shows "verify_epa C (erased e) now = InvalidIntegrity"
proof -
  have "\<not> verify_integrity C (erased e)"
    using assms by (auto simp: verify_integrity_def erased_def anonymize_spec dest: assms(3) [THEN sym])
  then show ?thesis by (simp add: verify_epa_def verify_full_def)
qed

text \<open>
  Two posts of one witness attest a package for the interface, although the rule of attestation asks for distinct
  witnesses and an external reference.
\<close>

theorem repeated_witness_attests:
  assumes "list_ex (\<lambda>e. epa_id e = i) (ap_epas S)" and "map_of (ap_witnesses S) i = None" and "parse_uuid w = Some u"
  shows "\<exists>r S' ws. witness_epa_endpoint parse_uuid t (snd (witness_epa_endpoint parse_uuid t S i w ''cosigned'')) i w ''cosigned'' = (Inr r, S') \<and>
    wr_attested r \<and> map_of (ap_witnesses S') i = Some ws \<and> attest ws node = Inl DuplicateWitnessId"
  using assms by (simp add: witness_epa_endpoint_def parse_witness_kind_def witness_set_new_def add_witness_def attest_def update_conv' Let_def)

end
