(* ===== verification/Explain.thy ===== *)
theory Explain
  imports Decision
begin

text \<open>
  Explanations of decisions, \<^verbatim>\<open>crates/host/src/explain.rs\<close>: the diagnosis of each record, the conflicts
  between records of one run, and the summary. Texts are kept as constructors with the values printed in them;
  JSON is a parameter.
\<close>

datatype bottleneck_side = LeftSide | RightSide | EqualSides

text \<open>The three texts of a diagnosis; the text without a bottleneck is never printed.\<close>

datatype diagnosis_text =
    SideIsBottleneck bottleneck_side decision_status string evidence_strength evidence_strength evidence_strength
  | SidesEqual decision_status string evidence_strength evidence_strength
  | EffectiveOnly decision_status string evidence_strength

datatype hint = AddLocalSource | ObtainSignature | AddSecondWitness | AnchorExternally

record node_diagnosis =
  nd_hash :: string
  nd_status :: decision_status
  nd_left :: evidence_strength
  nd_right :: evidence_strength
  nd_side :: "bottleneck_side option"
  nd_effective :: evidence_strength
  nd_text :: diagnosis_text
  nd_suggestion :: "hint option"

text \<open>The decision that prevails and the one it prevails over, with their strengths.\<close>

datatype resolution_text = Prevails decision_status evidence_strength decision_status evidence_strength

record conflict_record =
  cf_hash_a :: string
  cf_status_a :: decision_status
  cf_strength_a :: evidence_strength
  cf_hash_b :: string
  cf_status_b :: decision_status
  cf_strength_b :: evidence_strength
  cf_resolution :: resolution_text
  cf_winner :: string

datatype summary_line =
    Title
  | Analysed nat
  | WithBottleneck nat
  | WithSuggestion nat
  | ConflictsFound nat
  | EmptyLine
  | DiagnosisLine diagnosis_text
  | SuggestionLine hint
  | ConflictsTitle
  | ConflictLine string decision_status string decision_status
  | ResolutionLine resolution_text

record explain_report =
  xr_diagnoses :: "node_diagnosis list"
  xr_conflicts :: "conflict_record list"
  xr_summary :: "summary_line list"

fun upgrade_hint :: "evidence_strength \<Rightarrow> hint option" where
  "upgrade_hint Unverifiable = Some AddLocalSource"
| "upgrade_hint Local = Some ObtainSignature"
| "upgrade_hint Witnessed = Some AddSecondWitness"
| "upgrade_hint Signed = Some AnchorExternally"
| "upgrade_hint Anchored = None"

definition build_diagnosis ::
    "decision_record \<Rightarrow> evidence_strength \<Rightarrow> evidence_strength \<Rightarrow> evidence_strength \<Rightarrow> bottleneck_side option \<Rightarrow> diagnosis_text" where
  "build_diagnosis r left right effective side =
     (let st = status (decision_of r); reason = reason_code (decision_of r)
      in case side of
           Some LeftSide \<Rightarrow> SideIsBottleneck LeftSide st reason left right effective
         | Some RightSide \<Rightarrow> SideIsBottleneck RightSide st reason right left effective
         | Some EqualSides \<Rightarrow> SidesEqual st reason left effective
         | None \<Rightarrow> EffectiveOnly st reason effective)"

definition diagnose :: "decision_record \<Rightarrow> node_diagnosis" where
  "diagnose r =
     (let left = quality_left_strength (decision_of r); right = quality_right_strength (decision_of r);
          effective = min left right;
          side = (if left < right then Some LeftSide else if right < left then Some RightSide else Some EqualSides)
      in \<lparr>nd_hash = decision_hash r, nd_status = status (decision_of r), nd_left = left, nd_right = right, nd_side = side,
          nd_effective = effective, nd_text = build_diagnosis r left right effective side,
          nd_suggestion = upgrade_hint effective\<rparr>)"

definition record_strength :: "decision_record \<Rightarrow> evidence_strength" where
  "record_strength r = min (quality_left_strength (decision_of r)) (quality_right_strength (decision_of r))"

definition build_conflict :: "decision_record \<Rightarrow> decision_record \<Rightarrow> conflict_record" where
  "build_conflict a b =
     (let sa = record_strength a; sb = record_strength b;
          ta = status (decision_of a); tb = status (decision_of b);
          (winner, resolution) =
            (if sa \<le> sb then (decision_hash a, Prevails ta sa tb sb) else (decision_hash b, Prevails tb sb ta sa))
      in \<lparr>cf_hash_a = decision_hash a, cf_status_a = ta, cf_strength_a = sa,
          cf_hash_b = decision_hash b, cf_status_b = tb, cf_strength_b = sb,
          cf_resolution = resolution, cf_winner = winner\<rparr>)"

definition conflicting :: "decision_record \<Rightarrow> decision_record \<Rightarrow> bool" where
  "conflicting a b \<longleftrightarrow> run_id (decision_of a) = run_id (decision_of b) \<and> status (decision_of a) \<noteq> status (decision_of b)"

definition detect_conflicts :: "decision_record list \<Rightarrow> conflict_record list" where
  "detect_conflicts rs =
     concat (map (\<lambda>i. concat (map (\<lambda>j.
         if conflicting (rs ! i) (rs ! j) then [build_conflict (rs ! i) (rs ! j)] else []) [i + 1..<length rs])) [0..<length rs])"

definition build_summary :: "node_diagnosis list \<Rightarrow> conflict_record list \<Rightarrow> summary_line list" where
  "build_summary ds cs =
     [Title, Analysed (length ds), WithBottleneck (length (filter (\<lambda>d. nd_side d \<noteq> Some EqualSides) ds)),
      WithSuggestion (length (filter (\<lambda>d. nd_suggestion d \<noteq> None) ds)), ConflictsFound (length cs), EmptyLine] @
     concat (map (\<lambda>d. DiagnosisLine (nd_text d) #
         (case nd_suggestion d of Some s \<Rightarrow> [SuggestionLine s] | None \<Rightarrow> [])) ds) @
     (if cs = [] then []
      else [EmptyLine, ConflictsTitle] @
        concat (map (\<lambda>c. [ConflictLine (take 8 (cf_hash_a c)) (cf_status_a c) (take 8 (cf_hash_b c)) (cf_status_b c),
          ResolutionLine (cf_resolution c)]) cs))"

definition explain_chain :: "decision_record list \<Rightarrow> explain_report" where
  "explain_chain rs =
     (let ds = map diagnose rs; cs = detect_conflicts rs
      in \<lparr>xr_diagnoses = ds, xr_conflicts = cs, xr_summary = build_summary ds cs\<rparr>)"

text \<open>The loader: \<open>None\<close> when the file cannot be read, the number of the line that does not parse.\<close>

datatype load_jsonl_error = CannotRead | BadLine nat

fun load_lines :: "(string \<Rightarrow> decision_record option) \<Rightarrow> nat \<Rightarrow> string list \<Rightarrow> load_jsonl_error + decision_record list" where
  "load_lines from_json i [] = Inr []"
| "load_lines from_json i (l # ls) =
     (let t = trim l
      in if t = [] then load_lines from_json (i + 1) ls
         else
           case from_json t of
             None \<Rightarrow> Inl (BadLine (i + 1))
           | Some r \<Rightarrow> (case load_lines from_json (i + 1) ls of Inl e \<Rightarrow> Inl e | Inr rs \<Rightarrow> Inr (r # rs)))"

definition load_decisions_jsonl :: "(string \<Rightarrow> decision_record option) \<Rightarrow> string option \<Rightarrow> load_jsonl_error + decision_record list" where
  "load_decisions_jsonl from_json content =
     (case content of None \<Rightarrow> Inl CannotRead | Some s \<Rightarrow> load_lines from_json 0 (text_lines [] s))"

section \<open>What the report says\<close>

text \<open>The pairs of positions compared, in the order of the loops.\<close>

definition pairs :: "nat \<Rightarrow> (nat \<times> nat) list" where
  "pairs n = concat (map (\<lambda>i. map (Pair i) [i + 1..<n]) [0..<n])"

lemma pairs_set: "set (pairs n) = {(i, j). i < j \<and> j < n}"
  by (force simp: pairs_def image_iff)

lemma distinct_concat_map:
  "distinct xs \<Longrightarrow> \<forall>x \<in> set xs. distinct (f x) \<Longrightarrow> \<forall>x \<in> set xs. \<forall>y \<in> set xs. x \<noteq> y \<longrightarrow> set (f x) \<inter> set (f y) = {} \<Longrightarrow>
     distinct (concat (map f xs))"
  by (induction xs) auto

lemma pairs_distinct: "distinct (pairs n)"
  unfolding pairs_def by (rule distinct_concat_map) (auto simp: distinct_map inj_on_def)

lemma map_filter_concat: "concat (map (\<lambda>x. if P x then [f x] else []) xs) = map f (filter P xs)"
  by (induction xs) simp_all

lemma detect_pairs:
  "detect_conflicts rs = map (\<lambda>(i, j). build_conflict (rs ! i) (rs ! j)) (filter (\<lambda>(i, j). conflicting (rs ! i) (rs ! j)) (pairs (length rs)))"
  by (simp add: detect_conflicts_def pairs_def map_filter_concat filter_concat map_concat comp_def filter_map)

lemma upgrade_hint_None: "upgrade_hint s = None \<longleftrightarrow> s = Anchored"
  by (cases s) simp_all

text \<open>
  A report diagnoses every record in order by the weaker of its two sides, suggests something
  exactly below the top, and lists each pair of records of one run with different decisions once, the earlier
  first; the winner of a conflict is the earlier record unless the later one is strictly weaker.
\<close>

theorem explain_report_meaning:
  shows "map nd_effective (xr_diagnoses (explain_chain rs)) = map record_strength rs"
    and "\<forall>d \<in> set (xr_diagnoses (explain_chain rs)). nd_suggestion d = None \<longleftrightarrow> nd_effective d = Anchored"
    and "length (xr_conflicts (explain_chain rs)) =
      card {(i, j). i < j \<and> j < length rs \<and> conflicting (rs ! i) (rs ! j)}"
    and "c \<in> set (xr_conflicts (explain_chain rs)) \<longleftrightarrow>
      (\<exists>i j. i < j \<and> j < length rs \<and> conflicting (rs ! i) (rs ! j) \<and> c = build_conflict (rs ! i) (rs ! j))"
    and "cf_winner (build_conflict a b) = decision_hash (if record_strength b < record_strength a then b else a)"
proof -
  show "map nd_effective (xr_diagnoses (explain_chain rs)) = map record_strength rs"
    by (simp add: explain_chain_def Let_def diagnose_def record_strength_def)
  show "\<forall>d \<in> set (xr_diagnoses (explain_chain rs)). nd_suggestion d = None \<longleftrightarrow> nd_effective d = Anchored"
    by (auto simp: explain_chain_def Let_def diagnose_def upgrade_hint_None)
  have "distinct (filter (\<lambda>(i, j). conflicting (rs ! i) (rs ! j)) (pairs (length rs)))" by (simp add: pairs_distinct)
  moreover have "set (filter (\<lambda>(i, j). conflicting (rs ! i) (rs ! j)) (pairs (length rs))) =
      {(i, j). i < j \<and> j < length rs \<and> conflicting (rs ! i) (rs ! j)}" by (auto simp: pairs_set)
  ultimately show "length (xr_conflicts (explain_chain rs)) =
      card {(i, j). i < j \<and> j < length rs \<and> conflicting (rs ! i) (rs ! j)}"
    by (simp add: explain_chain_def Let_def detect_pairs distinct_card [symmetric])
  show "c \<in> set (xr_conflicts (explain_chain rs)) \<longleftrightarrow>
      (\<exists>i j. i < j \<and> j < length rs \<and> conflicting (rs ! i) (rs ! j) \<and> c = build_conflict (rs ! i) (rs ! j))"
    by (auto simp: explain_chain_def Let_def detect_pairs pairs_set)
  show "cf_winner (build_conflict a b) = decision_hash (if record_strength b < record_strength a then b else a)"
    by (auto simp: build_conflict_def Let_def)
qed

end
