(* ===== verification/Nex_Learning.thy ===== *)
theory Nex_Learning
  imports F64 Texts Tables
begin

text \<open>
  The learning cycle of NEX: the log of iterations (\<^verbatim>\<open>crates/host/src/nex/iteration.rs\<close>), the detector of
  patterns (\<^verbatim>\<open>pattern_detector.rs\<close>), the adjuster of rules (\<^verbatim>\<open>rule_adjuster.rs\<close>) and the loop that runs
  them (\<^verbatim>\<open>feedback_loop.rs\<close>). Hashing, JSON, the clock and the printing of numbers are parameters, texts for people
  are constructors or parameters; a hash map is an association list in the order in which it is iterated.
\<close>

section \<open>Iterations\<close>

record system_state =
  build_ok :: bool
  warnings :: nat
  tests_passed :: nat
  tests_failed :: nat
  clippy_ok :: bool
  fmt_ok :: bool

record iter_action =
  tipo :: string
  descricao :: string
  arquivos :: "string list"

datatype outcome = Sucesso string | Falha string | NenhumaAcao string

record iteration =
  it_id :: u64
  it_timestamp :: u64
  it_timestamp_iso :: string
  estado_anterior :: system_state
  acao :: iter_action
  resultado :: outcome
  licao :: "string option"
  it_hash :: string
  hash_anterior :: "string option"

text \<open>
  The files of the log: \<^verbatim>\<open>iter_{:06}.json\<close> for a number, and \<^verbatim>\<open>latest.json\<close>. A directory is an
  association list from files to texts.
\<close>

datatype iter_file = Numbered u64 | Latest

type_synonym iter_dir = "(iter_file \<times> string) list"

record learning_library =
  iter_hash :: "string \<Rightarrow> string"
  show_iso :: "u64 \<Rightarrow> string"
  ser_state :: "system_state \<Rightarrow> string"
  ser_action :: "iter_action \<Rightarrow> string"
  ser_outcome :: "outcome \<Rightarrow> string"
  iter_to_json :: "iteration \<Rightarrow> string"
  iter_from_json :: "string \<Rightarrow> iteration option"

record iteration_log =
  log_dir :: iter_dir
  log_counter :: u64

definition log_open :: "iter_dir \<Rightarrow> iteration_log" where
  "log_open D = \<lparr>log_dir = D, log_counter = of_nat (length D)\<rparr>"

text \<open>What one registration takes from the outside: the clock, and whether each of the two writes works.\<close>

record register_input =
  ri_now :: u64
  ri_numbered :: bool
  ri_latest :: bool

definition registrar ::
    "learning_library \<Rightarrow> register_input \<Rightarrow> iteration_log \<Rightarrow> system_state \<Rightarrow> iter_action \<Rightarrow> outcome \<Rightarrow> string option \<Rightarrow>
       string option \<Rightarrow> iteration \<times> iteration_log" where
  "registrar P inp L st a out lic prev =
     (let n = log_counter L + 1; t = ri_now inp;
          content = nat_text (unat n) @ '':'' @ nat_text (unat t) @ '':'' @ ser_state P st @ '':'' @ ser_action P a @ '':'' @
            ser_outcome P out @ '':'' @ (case lic of None \<Rightarrow> ''none'' | Some l \<Rightarrow> l);
          it = \<lparr>it_id = n, it_timestamp = t, it_timestamp_iso = show_iso P t, estado_anterior = st, acao = a, resultado = out,
                licao = lic, it_hash = iter_hash P content, hash_anterior = prev\<rparr>;
          D = log_dir L;
          D = (if ri_numbered inp then AList.update (Numbered n) (iter_to_json P it) D else D);
          D = (if ri_latest inp then AList.update Latest (iter_to_json P it) D else D)
      in (it, L\<lparr>log_counter := n, log_dir := D\<rparr>))"

definition ultima :: "learning_library \<Rightarrow> iteration_log \<Rightarrow> iteration option" where
  "ultima P L = Option.bind (map_of (log_dir L) Latest) (iter_from_json P)"

definition todas :: "learning_library \<Rightarrow> iteration_log \<Rightarrow> iteration list" where
  "todas P L =
     sort_key it_id (List.map_filter (\<lambda>(f, t). case f of Numbered n \<Rightarrow> iter_from_json P t | Latest \<Rightarrow> None) (log_dir L))"

record log_stats =
  ls_total :: nat
  ls_sucessos :: nat
  ls_falhas :: nat
  ls_sem_acao :: nat
  ls_com_licao :: nat

fun is_sucesso :: "outcome \<Rightarrow> bool" where
  "is_sucesso (Sucesso m) = True"
| "is_sucesso _ = False"

fun is_falha :: "outcome \<Rightarrow> bool" where
  "is_falha (Falha m) = True"
| "is_falha _ = False"

fun is_nenhuma :: "outcome \<Rightarrow> bool" where
  "is_nenhuma (NenhumaAcao m) = True"
| "is_nenhuma _ = False"

definition stats :: "learning_library \<Rightarrow> iteration_log \<Rightarrow> log_stats" where
  "stats P L =
     (let is = todas P L
      in \<lparr>ls_total = length is, ls_sucessos = length (filter (\<lambda>i. is_sucesso (resultado i)) is),
          ls_falhas = length (filter (\<lambda>i. is_falha (resultado i)) is),
          ls_sem_acao = length (filter (\<lambda>i. is_nenhuma (resultado i)) is),
          ls_com_licao = length (filter (\<lambda>i. licao i \<noteq> None) is)\<rparr>)"

definition chain_hash :: "learning_library \<Rightarrow> iteration_log \<Rightarrow> string" where
  "chain_hash P L = iter_hash P (concat (map it_hash (todas P L)))"

section \<open>Patterns\<close>

datatype pattern_kind = Recorrencia | Causalidade | Correlacao | Periodicidade

text \<open>A confidence is an \<^verbatim>\<open>f64\<close> at least zero, \<open>None\<close> for the infinity of a division by zero.\<close>

type_synonym confidence = "rat option"

datatype pattern_text = RecurrenceText string string nat confidence | CausalText string string nat | CorrelationText string string nat

text \<open>A text is the list of its UTF-8 bytes; this is the arrow of the evidence.\<close>

definition ARROW :: string where
  "ARROW = [CHR 0xE2, CHR 0x86, CHR 0x92]"

record pattern =
  pt_kind :: pattern_kind
  pt_descricao :: pattern_text
  frequencia :: nat
  confianca :: confidence
  evidencia :: "string list"

type_synonym feature = "string \<times> string"

record pattern_detector =
  pd_features :: "(feature \<times> nat) list"
  min_frequencia :: nat
  min_confianca :: rat

definition detector_new :: pattern_detector where
  "detector_new = \<lparr>pd_features = [], min_frequencia = 3, min_confianca = f64_round (6 / 10)\<rparr>"

definition com_thresholds :: "pattern_detector \<Rightarrow> nat \<Rightarrow> rat \<Rightarrow> pattern_detector" where
  "com_thresholds d f c = d\<lparr>min_frequencia := f, min_confianca := c\<rparr>"

definition outcome_name :: "outcome \<Rightarrow> string" where
  "outcome_name out = (case out of Sucesso m \<Rightarrow> ''sucesso'' | Falha m \<Rightarrow> ''falha'' | NenhumaAcao m \<Rightarrow> ''neutro'')"

definition extrair_features :: "iteration \<Rightarrow> feature list" where
  "extrair_features it =
     (let st = estado_anterior it
      in [(''build'', if build_ok st then ''ok'' else ''fail''),
          (''tests'', if tests_failed st = 0 then ''pass'' else ''fail''),
          (''warnings'', if warnings st = 0 then ''clean'' else ''w'' @ nat_text (warnings st)),
          (''acao_tipo'', tipo (acao it)),
          (''resultado'', outcome_name (resultado it))])"

text \<open>One more in a table of counts.\<close>

definition bump :: "'k \<Rightarrow> ('k \<times> nat) list \<Rightarrow> ('k \<times> nat) list" where
  "bump k T = AList.update k ((case map_of T k of None \<Rightarrow> 0 | Some n \<Rightarrow> n) + 1) T"

definition alimentar :: "iteration \<Rightarrow> pattern_detector \<Rightarrow> pattern_detector" where
  "alimentar it d = d\<lparr>pd_features := fold bump (extrair_features it) (pd_features d)\<rparr>"

definition confidence_of :: "nat \<Rightarrow> nat \<Rightarrow> confidence" where
  "confidence_of freq n = (if n = 0 then None else Some (f64_div (f64_of_nat freq) (f64_of_nat n)))"

fun above :: "confidence \<Rightarrow> rat \<Rightarrow> bool" where
  "above None x = True"
| "above (Some c) x = (x < c)"

fun at_least :: "confidence \<Rightarrow> rat \<Rightarrow> bool" where
  "at_least None x = True"
| "at_least (Some c) x = (x \<le> c)"

definition estado_key :: "system_state \<Rightarrow> string" where
  "estado_key st =
     ''build:'' @ (if build_ok st then ''true'' else ''false'') @ '':tests:'' @ (if tests_failed st = 0 then ''true'' else ''false'')"

definition recurrences :: "pattern_detector \<Rightarrow> nat \<Rightarrow> pattern list" where
  "recurrences d n =
     List.map_filter (\<lambda>((cat, val), freq).
       if min_frequencia d \<le> freq then
         let c = confidence_of freq n
         in if at_least c (min_confianca d)
            then Some \<lparr>pt_kind = Recorrencia, pt_descricao = RecurrenceText cat val freq c, frequencia = freq, confianca = c,
                       evidencia = [''feature='' @ cat @ '':'' @ val]\<rparr>
            else None
       else None) (pd_features d)"

definition causalities :: "pattern_detector \<Rightarrow> iteration list \<Rightarrow> pattern list" where
  "causalities d hist =
     List.map_filter (\<lambda>((st, ac), freq).
       if min_frequencia d \<le> freq
       then Some \<lparr>pt_kind = Causalidade, pt_descricao = CausalText st ac freq, frequencia = freq,
                  confianca = confidence_of freq (length hist), evidencia = [''causal:'' @ st @ ARROW @ ac]\<rparr>
       else None) (fold (\<lambda>it. bump (estado_key (estado_anterior it), tipo (acao it))) hist [])"

definition correlations :: "pattern_detector \<Rightarrow> iteration list \<Rightarrow> pattern list" where
  "correlations d hist =
     List.map_filter (\<lambda>((ac, out), freq).
       if min_frequencia d \<le> freq
       then Some \<lparr>pt_kind = Correlacao, pt_descricao = CorrelationText ac out freq, frequencia = freq,
                  confianca = confidence_of freq (length hist), evidencia = [''corr:'' @ ac @ ARROW @ out]\<rparr>
       else None) (fold (\<lambda>it. bump (tipo (acao it), outcome_name (resultado it))) hist [])"

text \<open>The stable sort by falling confidence.\<close>

fun confidence_key :: "confidence \<Rightarrow> rat" where
  "confidence_key None = - 1"
| "confidence_key (Some c) = 1 / (c + 1)"

definition detectar :: "pattern_detector \<Rightarrow> iteration list \<Rightarrow> pattern list" where
  "detectar d hist =
     sort_key (confidence_key \<circ> confianca) (recurrences d (length hist) @ causalities d hist @ correlations d hist)"

section \<open>Rules\<close>

datatype ajuste_kind = AjustarLimiar | AdicionarCondicao | RemoverCondicao | TrocarEstrategia | Nenhum

text \<open>A value is an \<^verbatim>\<open>f64\<close> or the infinity.\<close>

datatype regra =
    Condicao string string confidence
  | E "regra list"
  | Ou "regra list"
  | Nao regra
  | Acao regra string

datatype justification = RecurrentPattern pattern_text nat confidence | CausalPattern pattern_text

record ajuste =
  aj_kind :: ajuste_kind
  regra_antes :: regra
  regra_depois :: regra
  justificativa :: justification
  aj_confianca :: confidence

record rule_adjuster =
  regras :: "regra list"
  historico_ajustes :: "ajuste list"
  max_historico :: nat

definition com_regras :: "regra list \<Rightarrow> rule_adjuster" where
  "com_regras rs = \<lparr>regras = rs, historico_ajustes = [], max_historico = 1000\<rparr>"

definition adjuster_new :: rule_adjuster where
  "adjuster_new = com_regras []"

definition first_evidence :: "pattern \<Rightarrow> string" where
  "first_evidence p = (case evidencia p of [] \<Rightarrow> [] | e # es \<Rightarrow> e)"

definition analisar_padrao :: "pattern \<Rightarrow> ajuste list" where
  "analisar_padrao p =
     (if 10 < frequencia p \<and> above (confianca p) (f64_round (8 / 10))
      then [\<lparr>aj_kind = AjustarLimiar, regra_antes = Condicao (first_evidence p) ''>'' (Some 0),
             regra_depois = Condicao (first_evidence p) ''>'' (map_option (\<lambda>c. f64_mul c 100) (confianca p)),
             justificativa = RecurrentPattern (pt_descricao p) (frequencia p) (confianca p), aj_confianca = confianca p\<rparr>]
      else []) @
     (if pt_kind p = Causalidade \<and> above (confianca p) (f64_round (7 / 10))
      then [\<lparr>aj_kind = AdicionarCondicao, regra_antes = Condicao ''default'' ''>'' (Some 0),
             regra_depois = E [Condicao ''default'' ''>'' (Some 0), Condicao (first_evidence p) ''contains'' (Some 1)],
             justificativa = CausalPattern (pt_descricao p), aj_confianca = confianca p\<rparr>]
      else [])"

definition analisar :: "pattern list \<Rightarrow> ajuste list" where
  "analisar ps = concat (map analisar_padrao ps)"

definition aplicar :: "ajuste \<Rightarrow> rule_adjuster \<Rightarrow> rule_adjuster" where
  "aplicar a A =
     (let h = historico_ajustes A @ [a]
      in A\<lparr>historico_ajustes := (if max_historico A < length h then tl h else h)\<rparr>)"

definition EPSILON :: rat where
  "EPSILON = pow2 (- 52)"

text \<open>The evaluation of a rule; the values are finite here.\<close>

fun compare_values :: "string \<Rightarrow> rat \<Rightarrow> rat \<Rightarrow> bool" where
  "compare_values op v w =
     (if op = ''>'' then w < v
      else if op = ''>='' then w \<le> v
      else if op = ''<'' then v < w
      else if op = ''<='' then v \<le> w
      else if op = ''=='' then \<bar>f64_sub v w\<bar> < EPSILON
      else if op = ''!='' then EPSILON \<le> \<bar>f64_sub v w\<bar>
      else False)"

fun avaliar :: "(string \<rightharpoonup> rat) \<Rightarrow> regra \<Rightarrow> bool" where
  "avaliar ctx (Condicao c op w) =
     (let v = (case ctx c of None \<Rightarrow> 0 | Some v \<Rightarrow> v)
      in case w of Some w \<Rightarrow> compare_values op v w | None \<Rightarrow> op = ''<'' \<or> op = ''<='' \<or> op = ''!='')"
| "avaliar ctx (E rs) = list_all (avaliar ctx) rs"
| "avaliar ctx (Ou rs) = list_ex (avaliar ctx) rs"
| "avaliar ctx (Nao r) = (\<not> avaliar ctx r)"
| "avaliar ctx (Acao r a) = avaliar ctx r"

fun profundidade :: "regra \<Rightarrow> nat" where
  "profundidade (Condicao c op w) = 1"
| "profundidade (E rs) = 1 + fold max (map profundidade rs) 0"
| "profundidade (Ou rs) = 1 + fold max (map profundidade rs) 0"
| "profundidade (Nao r) = 1 + profundidade r"
| "profundidade (Acao r a) = 1 + profundidade r"

fun num_nos :: "regra \<Rightarrow> nat" where
  "num_nos (Condicao c op w) = 1"
| "num_nos (E rs) = 1 + sum_list (map num_nos rs)"
| "num_nos (Ou rs) = 1 + sum_list (map num_nos rs)"
| "num_nos (Nao r) = 1 + num_nos r"
| "num_nos (Acao r a) = 1 + num_nos r"

section \<open>The cycle\<close>

record feedback_loop =
  fb_detector :: pattern_detector
  fb_adjuster :: rule_adjuster
  fb_last_score :: rat
  fb_total :: nat

record feedback_result =
  fr_iteration :: u64
  fr_padroes :: nat
  fr_sugeridos :: nat
  fr_aplicados :: nat
  fr_score :: rat
  fr_motivo :: string
  fr_hash :: string

definition feedback_new :: feedback_loop where
  "feedback_new =
     \<lparr>fb_detector = com_thresholds detector_new 3 (1 / 2), fb_adjuster = adjuster_new, fb_last_score = 0, fb_total = 0\<rparr>"

definition calcular_score :: "iteration list \<Rightarrow> pattern list \<Rightarrow> rat" where
  "calcular_score hist ps =
     (if hist = [] then 0
      else
        let taxa = f64_div (f64_of_nat (length (filter (\<lambda>i. is_sucesso (resultado i)) hist))) (f64_of_nat (length hist));
            bonus = f64_mul (f64_of_nat (length ps)) (f64_round (1 / 100));
            penalidade = f64_mul (f64_of_nat (length (filter (\<lambda>i. is_falha (resultado i)) hist))) (f64_round (5 / 100))
        in max (f64_sub (f64_add taxa bonus) penalidade) 0)"

text \<open>The texts of the cycle: the description of its action, its outcomes and the text that is hashed.\<close>

record feedback_texts =
  describe_cycle :: "nat \<Rightarrow> nat \<Rightarrow> nat \<Rightarrow> rat \<Rightarrow> rat \<Rightarrow> string"
  applied_text :: "nat \<Rightarrow> string"
  no_adjustment_text :: "nat \<Rightarrow> string"
  no_pattern_text :: string
  patterns_text :: "nat \<Rightarrow> string"
  no_change_text :: string
  hashed_cycle :: "u64 \<Rightarrow> nat \<Rightarrow> nat \<Rightarrow> nat \<Rightarrow> rat \<Rightarrow> rat \<Rightarrow> string"

definition executar ::
    "learning_library \<Rightarrow> feedback_texts \<Rightarrow> register_input \<Rightarrow> feedback_loop \<Rightarrow> iteration_log \<Rightarrow>
       feedback_result \<times> feedback_loop \<times> iteration_log" where
  "executar P X inp F L =
     (let hist = todas P L;
          d = fold alimentar hist (fb_detector F);
          ps = detectar d hist; novos = length ps;
          as = analisar ps; sugeridos = length as;
          used = filter (\<lambda>a. above (aj_confianca a) (f64_round (7 / 10))) as; aplicados = length used;
          A = fold aplicar used (fb_adjuster F);
          score = calcular_score hist ps; delta = f64_sub score (fb_last_score F);
          st = (if hist = [] then \<lparr>build_ok = True, warnings = 0, tests_passed = 0, tests_failed = 0, clippy_ok = True, fmt_ok = True\<rparr>
                else estado_anterior (last hist));
          a = \<lparr>tipo = ''feedback_loop'', descricao = describe_cycle X novos sugeridos aplicados score delta, arquivos = []\<rparr>;
          out = (if 0 < aplicados then Sucesso (applied_text X aplicados)
                 else if 0 < novos then NenhumaAcao (no_adjustment_text X novos)
                 else NenhumaAcao (no_pattern_text X));
          prev = (if hist = [] then None else Some (it_hash (last hist)));
          (it, L) = registrar P inp L st a out None prev
      in (\<lparr>fr_iteration = it_id it, fr_padroes = novos, fr_sugeridos = sugeridos, fr_aplicados = aplicados, fr_score = score,
           fr_motivo = (if 0 < aplicados then applied_text X aplicados else if 0 < novos then patterns_text X novos else no_change_text X),
           fr_hash = iter_hash P (hashed_cycle X (it_id it) novos sugeridos aplicados score delta)\<rparr>,
          \<lparr>fb_detector = d, fb_adjuster = A, fb_last_score = score, fb_total = fb_total F + 1\<rparr>, L))"

end
