(* ===== verification/Nex_Learning_Theorems.thy ===== *)
theory Nex_Learning_Theorems
  imports Nex_Learning
begin

text \<open>
  The history across restarts, the counts of the detector against the history they stand for, what a cycle
  changes, and what the suggested rules can ever say.
\<close>

declare nat_text.simps [simp del]

section \<open>The log across sessions\<close>

type_synonym registration = "register_input \<times> system_state \<times> iter_action \<times> outcome \<times> string option \<times> string option"

definition register_step :: "learning_library \<Rightarrow> iteration list \<times> iteration_log \<Rightarrow> registration \<Rightarrow> iteration list \<times> iteration_log" where
  "register_step P s x =
     (case x of (inp, st, a, out, lic, prev) \<Rightarrow>
        let (it, L) = registrar P inp (snd s) st a out lic prev in (fst s @ [it], L))"

text \<open>One run of the program: the log is opened on the directory, then iterations are registered.\<close>

definition log_session :: "learning_library \<Rightarrow> iteration list \<times> iter_dir \<Rightarrow> registration list \<Rightarrow> iteration list \<times> iter_dir" where
  "log_session P s xs =
     (let (its, L) = foldl (register_step P) (fst s, log_open (snd s)) xs in (its, log_dir L))"

definition written :: "registration \<Rightarrow> bool" where
  "written x \<longleftrightarrow> ri_numbered (fst x) \<and> ri_latest (fst x)"

definition numbered_texts :: "iter_dir \<Rightarrow> string list" where
  "numbered_texts D = List.map_filter (\<lambda>(f, t). case f of Numbered n \<Rightarrow> Some t | Latest \<Rightarrow> None) D"

lemma numbered_texts_simps [simp]:
  "numbered_texts [] = []"
  "numbered_texts (x # D) = (case fst x of Numbered n \<Rightarrow> [snd x] | Latest \<Rightarrow> []) @ numbered_texts D"
  by (auto simp: numbered_texts_def map_filter_simps split: prod.splits iter_file.splits)

lemma numbered_texts_append: "numbered_texts (D @ D') = numbered_texts D @ numbered_texts D'"
  by (induction D) simp_all

lemma update_fresh: "k \<notin> fst ` set D \<Longrightarrow> AList.update k v D = D @ [(k, v)]"
  by (induction D) auto

lemma numbered_texts_latest: "numbered_texts (AList.update Latest t D) = numbered_texts D"
  by (induction D) (auto split: iter_file.splits)

lemma length_update: "length (AList.update k v D) = length D + (if k \<in> fst ` set D then 0 else 1)"
  by (induction D) auto

lemma todas_texts: "todas P L = sort_key it_id (List.map_filter (iter_from_json P) (numbered_texts (log_dir L)))"
proof -
  have "List.map_filter (\<lambda>(f, t). case f of Numbered n \<Rightarrow> iter_from_json P t | Latest \<Rightarrow> None) D =
      List.map_filter (iter_from_json P) (numbered_texts D)" for D
    by (induction D) (auto simp: map_filter_simps split: iter_file.splits option.splits)
  then show ?thesis by (simp add: todas_def)
qed

text \<open>The directory holds the iterations in the order of their registration, under growing numbers.\<close>

definition dir_holds :: "learning_library \<Rightarrow> iteration list \<Rightarrow> iter_dir \<Rightarrow> bool" where
  "dir_holds P its D \<longleftrightarrow>
     numbered_texts D = map (iter_to_json P) its \<and>
     (\<forall>n. Numbered n \<in> fst ` set D \<longrightarrow> n \<in> it_id ` set its) \<and> (Latest \<in> fst ` set D \<longleftrightarrow> its \<noteq> []) \<and>
     length D = length its + (if its = [] then 0 else 1) \<and> sorted_wrt (<) (map it_id its)"

definition log_holds :: "learning_library \<Rightarrow> iteration list \<times> iteration_log \<Rightarrow> bool" where
  "log_holds P s \<longleftrightarrow>
     dir_holds P (fst s) (log_dir (snd s)) \<and> (\<forall>it \<in> set (fst s). it_id it \<le> log_counter (snd s)) \<and>
     unat (log_counter (snd s)) \<le> length (fst s) + (if fst s = [] then 0 else 1)"

lemma register_holds:
  assumes "log_holds P s" and "written x" and "length (fst s) + 2 < 2 ^ 64"
  shows "log_holds P (register_step P s x) \<and> length (fst (register_step P s x)) = Suc (length (fst s))"
proof -
  obtain its L where s: "s = (its, L)" by (cases s)
  obtain inp st a out lic prev where x: "x = (inp, st, a, out, lic, prev)" by (cases x)
  define n where "n = log_counter L + 1"
  obtain it L' where r: "registrar P inp L st a out lic prev = (it, L')" by (cases "registrar P inp L st a out lic prev")
  have it: "it_id it = n" and c: "log_counter L' = n"
    and D: "log_dir L' = AList.update Latest (iter_to_json P it) (AList.update (Numbered n) (iter_to_json P it) (log_dir L))"
    using r assms(2) by (auto simp: registrar_def Let_def n_def written_def x)
  have h: "dir_holds P its (log_dir L)" "\<forall>i \<in> set its. it_id i \<le> log_counter L"
    "unat (log_counter L) \<le> length its + (if its = [] then 0 else 1)" using assms(1) by (simp_all add: log_holds_def s)
  have un: "unat n = unat (log_counter L) + 1"
    using h(3) assms(3) by (simp add: n_def s unat_word_ariths split: if_splits)
  have less: "i < n" if "i \<le> log_counter L" for i using that un by (simp add: word_less_nat_alt word_le_nat_alt)
  have fresh: "Numbered n \<notin> fst ` set (log_dir L)"
  proof
    assume "Numbered n \<in> fst ` set (log_dir L)"
    then have "n \<in> it_id ` set its" using h(1) by (simp add: dir_holds_def)
    then have "n \<le> log_counter L" using h(2) by auto
    then show False using less [of n] by simp
  qed
  define D' where "D' = AList.update (Numbered n) (iter_to_json P it) (log_dir L)"
  have D': "D' = log_dir L @ [(Numbered n, iter_to_json P it)]" using fresh by (simp add: D'_def update_fresh)
  have "dir_holds P (its @ [it]) (log_dir L')"
    using h(1,2) less unfolding D D'_def [symmetric]
    by (auto simp: dir_holds_def numbered_texts_latest numbered_texts_append D' length_update dom_update it sorted_wrt_append)
  moreover have "\<forall>i \<in> set (its @ [it]). it_id i \<le> n" using h(2) less it by (auto simp: less_imp_le)
  ultimately have "log_holds P (its @ [it], L')"
    using h(3) un by (simp add: log_holds_def c split: if_splits)
  then show ?thesis by (simp add: register_step_def s x r)
qed

lemma registrations_hold:
  "log_holds P s \<Longrightarrow> \<forall>x \<in> set xs. written x \<Longrightarrow> length (fst s) + length xs + 1 < 2 ^ 64 \<Longrightarrow>
     log_holds P (foldl (register_step P) s xs) \<and> length (fst (foldl (register_step P) s xs)) = length (fst s) + length xs"
proof (induction xs arbitrary: s)
  case (Cons x xs)
  have "log_holds P (register_step P s x) \<and> length (fst (register_step P s x)) = Suc (length (fst s))"
    using Cons.prems by (intro register_holds) auto
  then show ?case using Cons.IH [of "register_step P s x"] Cons.prems by simp
qed simp

lemma open_holds:
  assumes "dir_holds P its D" and "length its + 1 < 2 ^ 64" and "\<forall>it \<in> set its. unat (it_id it) \<le> length its + 1"
  shows "log_holds P (its, log_open D)"
proof -
  have "length D < 2 ^ 64" using assms(1,2) by (simp add: dir_holds_def split: if_splits)
  then have u: "unat (word_of_nat (length D) :: u64) = length D" by (simp add: unat_of_nat)
  moreover have "it_id it \<le> word_of_nat (length D)" if "it \<in> set its" for it
    using assms that u by (cases "its = []") (auto simp: dir_holds_def word_le_nat_alt)
  ultimately show ?thesis using assms(1) by (auto simp: log_holds_def log_open_def dir_holds_def)
qed

definition sessions_hold :: "learning_library \<Rightarrow> iteration list \<times> iter_dir \<Rightarrow> bool" where
  "sessions_hold P s \<longleftrightarrow> dir_holds P (fst s) (snd s) \<and> (\<forall>it \<in> set (fst s). unat (it_id it) \<le> length (fst s) + 1)"

lemma session_holds:
  assumes "sessions_hold P s" and "\<forall>x \<in> set xs. written x" and "length (fst s) + length xs + 1 < 2 ^ 64"
  shows "sessions_hold P (log_session P s xs) \<and> length (fst (log_session P s xs)) = length (fst s) + length xs"
proof -
  have "log_holds P (fst s, log_open (snd s))" using assms(1,3) by (intro open_holds) (auto simp: sessions_hold_def)
  from registrations_hold [OF this assms(2)] have
    h: "log_holds P (foldl (register_step P) (fst s, log_open (snd s)) xs)"
       "length (fst (foldl (register_step P) (fst s, log_open (snd s)) xs)) = length (fst s) + length xs" using assms(3) by auto
  obtain its L where f: "foldl (register_step P) (fst s, log_open (snd s)) xs = (its, L)" by fastforce
  have "unat (it_id it) \<le> length its + 1" if "it \<in> set its" for it
    using h(1) that by (cases "its = []") (auto simp: f log_holds_def word_le_nat_alt intro: order_trans)
  then show ?thesis using h by (auto simp: log_session_def f sessions_hold_def log_holds_def)
qed

section \<open>Counts\<close>

definition count_of :: "pattern_detector \<Rightarrow> feature \<Rightarrow> nat" where
  "count_of d f = (case map_of (pd_features d) f of None \<Rightarrow> 0 | Some n \<Rightarrow> n)"

lemma bump_count: "(case map_of (bump k T) f of None \<Rightarrow> 0 | Some n \<Rightarrow> n) = (case map_of T f of None \<Rightarrow> 0 | Some n \<Rightarrow> n) + (if f = k then 1 else 0)"
  by (auto simp: bump_def update_conv' split: option.splits)

lemma bumps_count:
  "distinct fs \<Longrightarrow> (case map_of (fold bump fs T) f of None \<Rightarrow> 0 | Some n \<Rightarrow> n) =
     (case map_of T f of None \<Rightarrow> 0 | Some n \<Rightarrow> n) + (if f \<in> set fs then 1 else 0)"
proof (induction fs arbitrary: T)
  case (Cons k fs)
  then show ?case using Cons.IH [of "bump k T"] by (auto simp: bump_count)
qed simp

lemma features_distinct: "distinct (extrair_features it)"
  by (simp add: extrair_features_def Let_def)

lemma alimentar_count: "count_of (alimentar it d) f = count_of d f + (if f \<in> set (extrair_features it) then 1 else 0)"
  using bumps_count [OF features_distinct, of it "pd_features d" f] by (simp add: count_of_def alimentar_def)

lemma alimentar_counts:
  "count_of (fold alimentar hist d) f = count_of d f + length (filter (\<lambda>it. f \<in> set (extrair_features it)) hist)"
  by (induction hist arbitrary: d) (simp_all add: alimentar_count)

section \<open>The cycle\<close>

lemma executar_parts:
  "fb_detector (fst (snd (executar P X inp F L))) = fold alimentar (todas P L) (fb_detector F)"
  "\<exists>as. fb_adjuster (fst (snd (executar P X inp F L))) = fold aplicar as (fb_adjuster F)"
  by (auto simp: executar_def Let_def case_prod_beta)

definition adjuster_ok :: "regra list \<Rightarrow> rule_adjuster \<Rightarrow> bool" where
  "adjuster_ok rs A \<longleftrightarrow> regras A = rs \<and> max_historico A = 1000 \<and> length (historico_ajustes A) \<le> 1000"

lemma aplicar_ok: "adjuster_ok rs A \<Longrightarrow> adjuster_ok rs (aplicar a A)"
  by (auto simp: adjuster_ok_def aplicar_def Let_def)

lemma aplicar_all_ok: "adjuster_ok rs A \<Longrightarrow> adjuster_ok rs (fold aplicar as A)"
  by (induction as arbitrary: A) (simp_all add: aplicar_ok)

section \<open>Properties\<close>

text \<open>
  Over any runs of the program, with any registrations whose files are written, the history read back is
  exactly the iterations registered, in order, under strictly growing numbers.
\<close>

theorem iteration_log_history:
  assumes "\<forall>x \<in> set (concat xss). written x" and "length (concat xss) + 1 < 2 ^ 64"
    and "\<forall>it \<in> set (fst (foldl (log_session P) ([], []) xss)). iter_from_json P (iter_to_json P it) = Some it"
  shows "todas P (log_open (snd (foldl (log_session P) ([], []) xss))) = fst (foldl (log_session P) ([], []) xss) \<and>
    sorted_wrt (<) (map it_id (fst (foldl (log_session P) ([], []) xss))) \<and>
    length (fst (foldl (log_session P) ([], []) xss)) = length (concat xss)"
proof -
  have run: "sessions_hold P (foldl (log_session P) ([], []) xss) \<and> length (fst (foldl (log_session P) ([], []) xss)) = length (concat xss)"
    using assms(1,2)
  proof (induction xss rule: rev_induct)
    case Nil
    then show ?case by (simp add: sessions_hold_def dir_holds_def)
  next
    case (snoc xs xss)
    then have "sessions_hold P (foldl (log_session P) ([], []) xss)" "length (fst (foldl (log_session P) ([], []) xss)) = length (concat xss)"
      by auto
    then show ?case using session_holds [of P "foldl (log_session P) ([], []) xss" xs] snoc.prems by simp
  qed
  define its D where "its = fst (foldl (log_session P) ([], []) xss)" and "D = snd (foldl (log_session P) ([], []) xss)"
  have h: "dir_holds P its D" using run by (simp add: sessions_hold_def its_def D_def)
  have "List.map_filter (iter_from_json P) (map (iter_to_json P) is) = is"
    if "\<forall>it \<in> set is. iter_from_json P (iter_to_json P it) = Some it" for "is"
    using that by (induction "is") (simp_all add: map_filter_simps)
  then have "List.map_filter (iter_from_json P) (numbered_texts D) = its"
    using h assms(3) by (simp add: dir_holds_def its_def)
  moreover have "sorted (map it_id its)" using h by (simp add: dir_holds_def strict_sorted_imp_sorted)
  ultimately have "todas P (log_open D) = its" by (simp add: todas_texts log_open_def sort_key_id_if_sorted)
  then show ?thesis using h run by (simp add: dir_holds_def its_def D_def)
qed

definition plain_library :: learning_library where
  "plain_library =
     \<lparr>iter_hash = (\<lambda>s. []), show_iso = (\<lambda>t. []), ser_state = (\<lambda>s. []), ser_action = (\<lambda>a. []), ser_outcome = (\<lambda>out. []),
      iter_to_json = (\<lambda>it. nat_text (unat (it_id it))),
      iter_from_json = (\<lambda>s. Some \<lparr>it_id = of_nat (text_nat s), it_timestamp = 9, it_timestamp_iso = [],
        estado_anterior = \<lparr>build_ok = True, warnings = 0, tests_passed = 1, tests_failed = 0, clippy_ok = True, fmt_ok = True\<rparr>,
        acao = \<lparr>tipo = ''fix'', descricao = [], arquivos = []\<rparr>, resultado = Sucesso [], licao = None, it_hash = [], hash_anterior = None\<rparr>)\<rparr>"

definition plain_registration :: registration where
  "plain_registration =
     (\<lparr>ri_now = 9, ri_numbered = True, ri_latest = True\<rparr>,
      \<lparr>build_ok = True, warnings = 0, tests_passed = 1, tests_failed = 0, clippy_ok = True, fmt_ok = True\<rparr>,
      \<lparr>tipo = ''fix'', descricao = [], arquivos = []\<rparr>, Sucesso [], None, None)"

theorem iteration_log_history_witness:
  "map it_id (todas plain_library (log_open (snd (foldl (log_session plain_library) ([], []) [[plain_registration], [plain_registration]])))) = [1, 3]"
proof -
  define s where "s = foldl (log_session plain_library) ([], []) [[plain_registration], [plain_registration]]"
  have its: "map it_id (fst s) = [1, 3]"
    by (simp add: s_def log_session_def register_step_def registrar_def log_open_def plain_registration_def Let_def)
  have "\<forall>it \<in> set (fst s). iter_from_json plain_library (iter_to_json plain_library it) = Some it"
    by (simp add: s_def log_session_def register_step_def registrar_def log_open_def plain_registration_def plain_library_def
        text_nat_text Let_def)
  moreover have "written plain_registration" by (simp add: written_def plain_registration_def)
  ultimately have "todas plain_library (log_open (snd s)) = fst s"
    using iteration_log_history [of "[[plain_registration], [plain_registration]]" plain_library] by (simp add: s_def)
  then show ?thesis using its by (simp add: s_def)
qed

text \<open>
  The detector counts the whole history again in every cycle: its count of a feature is the sum, over all cycles so
  far, of the iterations with the feature in the history each cycle read, while the confidence divides by the last
  history alone.
\<close>

theorem detector_counts_every_cycle:
  "count_of (fb_detector (foldl (\<lambda>F (inp, L). fst (snd (executar P X inp F L))) feedback_new xs)) f =
     sum_list (map (\<lambda>(inp, L). length (filter (\<lambda>it. f \<in> set (extrair_features it)) (todas P L))) xs)"
proof (induction xs rule: rev_induct)
  case Nil
  then show ?case by (simp add: feedback_new_def com_thresholds_def detector_new_def count_of_def)
next
  case (snoc x xs)
  then show ?case by (cases x) (simp add: executar_parts(1) alimentar_counts)
qed

text \<open>
  No cycle ever changes a rule: however many adjustments a cycle reports as applied, the rules stay the
  ones the adjuster was made with, and the adjustments are only remembered, at most a thousand of them.
\<close>

theorem feedback_changes_no_rule:
  "regras (fb_adjuster (foldl (\<lambda>F (inp, L). fst (snd (executar P X inp F L))) feedback_new xs)) = [] \<and>
   length (historico_ajustes (fb_adjuster (foldl (\<lambda>F (inp, L). fst (snd (executar P X inp F L))) feedback_new xs))) \<le> 1000"
proof -
  have "adjuster_ok [] (fb_adjuster (foldl (\<lambda>F (inp, L). fst (snd (executar P X inp F L))) feedback_new xs))"
  proof (induction xs rule: rev_induct)
    case Nil
    then show ?case by (simp add: feedback_new_def adjuster_new_def com_regras_def adjuster_ok_def)
  next
    case (snoc x xs)
    obtain inp L where x: "x = (inp, L)" by (cases x)
    define F where "F = foldl (\<lambda>F (inp, L). fst (snd (executar P X inp F L))) feedback_new xs"
    obtain as where "fb_adjuster (fst (snd (executar P X inp F L))) = fold aplicar as (fb_adjuster F)"
      using executar_parts(2) by blast
    then show ?case using snoc aplicar_all_ok by (simp add: x F_def)
  qed
  then show ?thesis by (simp add: adjuster_ok_def)
qed

text \<open>
  When writes fail the count of the files falls behind the numbers: after two iterations that could not be written and a third
  that was, the next run numbers its first iteration 3 as well and overwrites the third.
\<close>

theorem iteration_overwritten:
  assumes "\<not> ri_numbered i1 \<and> ri_latest i1" and "\<not> ri_numbered i2 \<and> ri_latest i2" and "written (i3, x3)" and "written (i4, x4)"
  shows "\<exists>a b c d L. fst (log_session P (log_session P ([], []) [(i1, x1), (i2, x2), (i3, x3)]) [(i4, x4)]) = [a, b, c, d] \<and>
    it_id c = 3 \<and> it_id d = 3 \<and>
    map_of (snd (log_session P (log_session P ([], []) [(i1, x1), (i2, x2), (i3, x3)]) [(i4, x4)])) (Numbered 3) = Some (iter_to_json P d)"
  using assms
  by (simp add: log_session_def register_step_def registrar_def log_open_def written_def Let_def case_prod_beta update_conv')

text \<open>
  The condition suggested for a causal pattern can never hold: it compares with an operator that the
  evaluation does not know.
\<close>

theorem suggested_condition_never_holds:
  assumes "a \<in> set (analisar ps)" and "aj_kind a = AdicionarCondicao"
  shows "\<not> avaliar ctx (regra_depois a)"
  using assms by (auto simp: analisar_def analisar_padrao_def Let_def split: if_splits)

text \<open>Evaluation is the Boolean algebra of the conditions, and a rule is at most as deep as it is large.\<close>

lemma avaliar_dual: "avaliar ctx (Nao (E rs)) \<longleftrightarrow> avaliar ctx (Ou (map Nao rs))"
  by (induction rs) auto

lemma fold_max_bound: "\<forall>x \<in> set xs. f x \<le> (g x :: nat) \<Longrightarrow> m \<le> k \<Longrightarrow> fold max (map f xs) m \<le> k + sum_list (map g xs)"
proof (induction xs arbitrary: m k)
  case (Cons x xs)
  have "fold max (map f xs) (max (f x) m) \<le> (k + g x) + sum_list (map g xs)"
    using Cons.prems by (intro Cons.IH) auto
  then show ?case by simp
qed simp

lemma profundidade_num_nos: "profundidade r \<le> num_nos r"
proof (induction r)
  case (E rs)
  then show ?case using fold_max_bound [of rs profundidade num_nos 0 0] by simp
next
  case (Ou rs)
  then show ?case using fold_max_bound [of rs profundidade num_nos 0 0] by simp
qed simp_all

end
