(* ===== verification/Identity.thy ===== *)
theory Identity
  imports Listener Persistence
begin

text \<open>
  The identity of a node: the encryption of keys under a passphrase
  (\<^verbatim>\<open>crates/host/src/network/crypto_key.rs\<close>) and the identity with its file
  (\<^verbatim>\<open>network/identity.rs\<close>). Key derivation, AES-GCM, the public halves of keys and JSON are parameters; random
  bytes and the time are inputs.
\<close>

section \<open>Encryption under a passphrase\<close>

record key_crypto =
  pbkdf2 :: "bytes \<Rightarrow> bytes \<Rightarrow> nat \<Rightarrow> bytes"
  gcm_encrypt :: "bytes \<Rightarrow> bytes \<Rightarrow> bytes \<Rightarrow> bytes option"
  gcm_decrypt :: "bytes \<Rightarrow> bytes \<Rightarrow> bytes \<Rightarrow> bytes option"
  ed_public_hex :: "bytes \<Rightarrow> string"
  x25519_public :: "bytes \<Rightarrow> bytes"
  seed_ok :: "bytes \<Rightarrow> bool"
  node_hash :: "string \<Rightarrow> string"

definition PBKDF2_ITERATIONS :: nat where "PBKDF2_ITERATIONS = 100000"
definition SALT_LEN :: nat where "SALT_LEN = 16"
definition KEY_NONCE_LEN :: nat where "KEY_NONCE_LEN = 12"

type_synonym salt_nonce = "bytes \<times> bytes"

definition encrypt_with_passphrase :: "key_crypto \<Rightarrow> salt_nonce \<Rightarrow> bytes \<Rightarrow> bytes \<Rightarrow> string + bytes" where
  "encrypt_with_passphrase K sn plain passphrase =
     (case gcm_encrypt K (pbkdf2 K passphrase (fst sn) PBKDF2_ITERATIONS) (snd sn) plain of
        None \<Rightarrow> Inl ''Encryption error''
      | Some c \<Rightarrow> Inr (fst sn @ snd sn @ c))"

definition decrypt_with_passphrase :: "key_crypto \<Rightarrow> bytes \<Rightarrow> bytes \<Rightarrow> string + bytes" where
  "decrypt_with_passphrase K encrypted passphrase =
     (if length encrypted < SALT_LEN + KEY_NONCE_LEN then Inl ''Encrypted data too short''
      else let salt = take SALT_LEN encrypted; rest = drop SALT_LEN encrypted in
        case gcm_decrypt K (pbkdf2 K passphrase salt PBKDF2_ITERATIONS) (take KEY_NONCE_LEN rest) (drop KEY_NONCE_LEN rest) of
          None \<Rightarrow> Inl ''Decryption error''
        | Some d \<Rightarrow> Inr d)"

text \<open>What the code relies on: decryption undoes encryption under the same key and nonce.\<close>

definition gcm_law :: "key_crypto \<Rightarrow> bool" where
  "gcm_law K \<longleftrightarrow> (\<forall>k n d c. gcm_encrypt K k n d = Some c \<longrightarrow> gcm_decrypt K k n c = Some d)"

definition salt_nonce_ok :: "salt_nonce \<Rightarrow> bool" where
  "salt_nonce_ok sn \<longleftrightarrow> length (fst sn) = SALT_LEN \<and> length (snd sn) = KEY_NONCE_LEN"

lemma decrypt_encrypt:
  "gcm_law K \<Longrightarrow> salt_nonce_ok sn \<Longrightarrow> encrypt_with_passphrase K sn d p = Inr e \<Longrightarrow>
     decrypt_with_passphrase K e p = Inr d"
  by (cases "gcm_encrypt K (pbkdf2 K p (fst sn) PBKDF2_ITERATIONS) (snd sn) d")
    (auto simp: encrypt_with_passphrase_def decrypt_with_passphrase_def gcm_law_def salt_nonce_ok_def)

section \<open>Identities\<close>

record key_pair =
  kp_public :: bytes
  kp_secret :: bytes

definition key_pair_from_secret :: "key_crypto \<Rightarrow> bytes \<Rightarrow> key_pair" where
  "key_pair_from_secret K s = \<lparr>kp_public = x25519_public K s, kp_secret = s\<rparr>"

record identity =
  id_node_id :: string
  id_public_key :: string
  id_created_at :: string
  id_signing_key :: bytes
  id_encryption :: key_pair
  id_ml_kem :: kem_pair

record saved_identity =
  sv_node_id :: string
  sv_public_key :: string
  sv_created_at :: string
  secret_key_bytes :: bytes
  encryption_secret_bytes :: bytes
  encryption_public_bytes :: bytes
  ml_kem_encapsulation_key_bytes :: bytes
  ml_kem_decapsulation_key_bytes :: bytes
  encrypted_secret_key :: "bytes option"
  encrypted_encryption_key :: "bytes option"
  ml_kem_encapsulation_key :: "bytes option"
  ml_kem_decapsulation_key :: "bytes option"

text \<open>Random bytes and the time that generating a key takes.\<close>

record key_random =
  rn_secret :: bytes
  rn_time :: string
  rn_x25519 :: bytes
  rn_kem :: kem_pair

definition identity_generate :: "key_crypto \<Rightarrow> key_random \<Rightarrow> string \<Rightarrow> identity" where
  "identity_generate K r name =
     (let public_key = ed_public_hex K (rn_secret r)
      in \<lparr>id_node_id = node_hash K (''node:'' @ name @ '':'' @ public_key), id_public_key = public_key,
          id_created_at = rn_time r, id_signing_key = rn_secret r,
          id_encryption = key_pair_from_secret K (rn_x25519 r), id_ml_kem = rn_kem r\<rparr>)"

datatype identity_error = IdentityIo | InvalidDataError string | InvalidInputError string

section \<open>Reading\<close>

definition unlock :: "key_crypto \<Rightarrow> bytes option \<Rightarrow> string \<Rightarrow> bytes \<Rightarrow> identity_error + bytes" where
  "unlock K passphrase what encrypted =
     (case passphrase of
        None \<Rightarrow> Inl (InvalidInputError (''Passphrase required to decrypt '' @ what))
      | Some p \<Rightarrow> (case decrypt_with_passphrase K encrypted p of Inl e \<Rightarrow> Inl (InvalidDataError e) | Inr d \<Rightarrow> Inr d))"

definition key_of_length_32 :: "string \<Rightarrow> bytes \<Rightarrow> identity_error + bytes" where
  "key_of_length_32 msg k = (if length k = 32 then Inr k else Inl (InvalidDataError msg))"

definition load_signing_key :: "key_crypto \<Rightarrow> bytes option \<Rightarrow> saved_identity \<Rightarrow> identity_error + bytes" where
  "load_signing_key K passphrase s =
     (case encrypted_secret_key s of
        Some e \<Rightarrow>
          (case unlock K passphrase ''identity'' e of
             Inl x \<Rightarrow> Inl x
           | Inr d \<Rightarrow> key_of_length_32 ''invalid key length after decrypt'' d)
      | None \<Rightarrow> key_of_length_32 ''invalid key length'' (secret_key_bytes s))"

definition load_encryption_secret :: "key_crypto \<Rightarrow> key_random \<Rightarrow> bytes option \<Rightarrow> saved_identity \<Rightarrow> identity_error + bytes" where
  "load_encryption_secret K r passphrase s =
     (case encrypted_encryption_key s of
        Some e \<Rightarrow>
          (case unlock K passphrase ''encryption key'' e of
             Inl x \<Rightarrow> Inl x
           | Inr d \<Rightarrow> key_of_length_32 ''invalid encryption key after decrypt'' d)
      | None \<Rightarrow>
          if encryption_secret_bytes s \<noteq> [] then key_of_length_32 ''invalid encryption key'' (encryption_secret_bytes s)
          else Inr (rn_x25519 r))"

definition load_kem_bytes :: "key_crypto \<Rightarrow> bytes option \<Rightarrow> bytes option \<Rightarrow> bytes \<Rightarrow> identity_error + bytes" where
  "load_kem_bytes K passphrase encrypted plain =
     (case encrypted of Some e \<Rightarrow> unlock K passphrase ''ML-KEM key'' e | None \<Rightarrow> Inr plain)"

definition ml_kem_from_bytes :: "key_crypto \<Rightarrow> bytes \<Rightarrow> bytes \<Rightarrow> string + kem_pair" where
  "ml_kem_from_bytes K ek seed =
     (if seed_ok K seed then Inr \<lparr>kem_ek = ek, kem_seed = seed\<rparr> else Inl ''Invalid decapsulation key seed length'')"

definition load_ml_kem :: "key_crypto \<Rightarrow> bytes option \<Rightarrow> saved_identity \<Rightarrow> identity_error + kem_pair" where
  "load_ml_kem K passphrase s =
     (case load_kem_bytes K passphrase (ml_kem_encapsulation_key s) (ml_kem_encapsulation_key_bytes s) of
        Inl x \<Rightarrow> Inl x
      | Inr ek \<Rightarrow>
          (case load_kem_bytes K passphrase (ml_kem_decapsulation_key s) (ml_kem_decapsulation_key_bytes s) of
             Inl x \<Rightarrow> Inl x
           | Inr dk \<Rightarrow> (case ml_kem_from_bytes K ek dk of Inl e \<Rightarrow> Inl (InvalidDataError e) | Inr k \<Rightarrow> Inr k)))"

definition identity_of_saved :: "key_crypto \<Rightarrow> key_random \<Rightarrow> bytes option \<Rightarrow> saved_identity \<Rightarrow> identity_error + identity" where
  "identity_of_saved K r passphrase s =
     (case load_signing_key K passphrase s of
        Inl x \<Rightarrow> Inl x
      | Inr sk \<Rightarrow>
          (case load_encryption_secret K r passphrase s of
             Inl x \<Rightarrow> Inl x
           | Inr es \<Rightarrow>
               (case load_ml_kem K passphrase s of
                  Inl x \<Rightarrow> Inl x
                | Inr km \<Rightarrow> Inr \<lparr>id_node_id = sv_node_id s, id_public_key = sv_public_key s, id_created_at = sv_created_at s,
                    id_signing_key = sk, id_encryption = key_pair_from_secret K es, id_ml_kem = km\<rparr>)))"

section \<open>Writing\<close>

definition identity_plain :: "identity \<Rightarrow> saved_identity" where
  "identity_plain i =
     \<lparr>sv_node_id = id_node_id i, sv_public_key = id_public_key i, sv_created_at = id_created_at i,
      secret_key_bytes = id_signing_key i, encryption_secret_bytes = kp_secret (id_encryption i),
      encryption_public_bytes = kp_public (id_encryption i), ml_kem_encapsulation_key_bytes = kem_ek (id_ml_kem i),
      ml_kem_decapsulation_key_bytes = kem_seed (id_ml_kem i), encrypted_secret_key = None,
      encrypted_encryption_key = None, ml_kem_encapsulation_key = None, ml_kem_decapsulation_key = None\<rparr>"

definition identity_sealed :: "key_crypto \<Rightarrow> (nat \<Rightarrow> salt_nonce) \<Rightarrow> bytes \<Rightarrow> identity \<Rightarrow> string + saved_identity" where
  "identity_sealed K rnd p i =
     (case encrypt_with_passphrase K (rnd 0) (id_signing_key i) p of
        Inl e \<Rightarrow> Inl e
      | Inr a \<Rightarrow>
     (case encrypt_with_passphrase K (rnd 1) (kp_secret (id_encryption i)) p of
        Inl e \<Rightarrow> Inl e
      | Inr b \<Rightarrow>
     (case encrypt_with_passphrase K (rnd 2) (kem_ek (id_ml_kem i)) p of
        Inl e \<Rightarrow> Inl e
      | Inr c \<Rightarrow>
     (case encrypt_with_passphrase K (rnd 3) (kem_seed (id_ml_kem i)) p of
        Inl e \<Rightarrow> Inl e
      | Inr d \<Rightarrow>
          Inr ((identity_plain i)\<lparr>secret_key_bytes := [], encryption_secret_bytes := [],
            ml_kem_encapsulation_key_bytes := [], ml_kem_decapsulation_key_bytes := [],
            encrypted_secret_key := Some a, encrypted_encryption_key := Some b,
            ml_kem_encapsulation_key := Some c, ml_kem_decapsulation_key := Some d\<rparr>)))))"

definition saved_of_identity ::
    "key_crypto \<Rightarrow> (nat \<Rightarrow> salt_nonce) \<Rightarrow> bytes option \<Rightarrow> identity \<Rightarrow> identity_error + saved_identity" where
  "saved_of_identity K rnd passphrase i =
     (case passphrase of
        None \<Rightarrow> Inr (identity_plain i)
      | Some p \<Rightarrow> (case identity_sealed K rnd p i of Inl e \<Rightarrow> Inl (InvalidDataError e) | Inr s \<Rightarrow> Inr s))"

text \<open>
  The disk keeps the text and the access mode of a file. Writing creates a file with the mode of the
  process and keeps the mode of a file that exists; the mode \<open>0o600\<close> is set after the text is written.
\<close>

record disk =
  dk_files :: file_system
  dk_modes :: "string \<rightharpoonup> nat"

datatype identity_fault = NoParent | WriteStopped nat | ModeFailed | NoFault

definition identity_save ::
    "key_crypto \<Rightarrow> (nat \<Rightarrow> salt_nonce) \<Rightarrow> (saved_identity \<Rightarrow> string) \<Rightarrow> nat \<Rightarrow> identity_fault \<Rightarrow> string \<Rightarrow> bytes option \<Rightarrow>
       identity \<Rightarrow> disk \<Rightarrow> (identity_error + unit) \<times> disk" where
  "identity_save K rnd to_json umask fault path passphrase i D =
     (if fault = NoParent then (Inl IdentityIo, D)
      else case saved_of_identity K rnd passphrase i of
        Inl e \<Rightarrow> (Inl e, D)
      | Inr s \<Rightarrow>
          (case write_file path (to_json s) (case fault of WriteStopped n \<Rightarrow> Some n | _ \<Rightarrow> None) (dk_files D) of
             (r, F) \<Rightarrow>
               let D = \<lparr>dk_files = F, dk_modes = (if dk_modes D path = None then (dk_modes D)(path \<mapsto> umask) else dk_modes D)\<rparr>
               in case r of
                    Inl _ \<Rightarrow> (Inl IdentityIo, D)
                  | Inr _ \<Rightarrow> if fault = ModeFailed then (Inl IdentityIo, D)
                      else (Inr (), D\<lparr>dk_modes := (dk_modes D)(path \<mapsto> 384)\<rparr>)))"

definition load_or_create ::
    "key_crypto \<Rightarrow> key_random \<Rightarrow> (nat \<Rightarrow> salt_nonce) \<Rightarrow> (saved_identity \<Rightarrow> string) \<Rightarrow> (string \<Rightarrow> string + saved_identity) \<Rightarrow>
       nat \<Rightarrow> identity_fault \<Rightarrow> bool \<Rightarrow> string \<Rightarrow> string \<Rightarrow> bytes option \<Rightarrow> disk \<Rightarrow> (identity_error + identity) \<times> disk" where
  "load_or_create K r rnd to_json from_json umask fault readable path name passphrase D =
     (case dk_files D path of
        Some text \<Rightarrow>
          (if \<not> readable then (Inl IdentityIo, D)
           else case from_json text of
               Inl e \<Rightarrow> (Inl (InvalidDataError e), D)
             | Inr s \<Rightarrow> (identity_of_saved K r passphrase s, D))
      | None \<Rightarrow>
          let i = identity_generate K r name in
          (case identity_save K rnd to_json umask fault path passphrase i D of
             (Inl e, D) \<Rightarrow> (Inl e, D)
           | (Inr _, D) \<Rightarrow> (Inr i, D)))"

text \<open>The traits \<open>Serialize\<close> and \<open>Deserialize\<close>, which take no passphrase.\<close>

definition identity_serialize :: "identity \<Rightarrow> saved_identity" where
  "identity_serialize i = identity_plain i"

definition identity_deserialize :: "key_crypto \<Rightarrow> key_random \<Rightarrow> saved_identity \<Rightarrow> string + identity" where
  "identity_deserialize K r s =
     (if encrypted_secret_key s \<noteq> None then Inl ''Encrypted identity requires passphrase. Use load_or_create() instead.''
      else if length (secret_key_bytes s) \<noteq> 32 then Inl ''invalid key length''
      else if encrypted_encryption_key s \<noteq> None then Inl ''Encrypted identity requires passphrase. Use load_or_create() instead.''
      else if encryption_secret_bytes s \<noteq> [] \<and> length (encryption_secret_bytes s) \<noteq> 32 then Inl ''invalid encryption key''
      else if ml_kem_encapsulation_key s \<noteq> None \<or> ml_kem_decapsulation_key s \<noteq> None
        then Inl ''Encrypted ML-KEM identity requires passphrase. Use load_or_create() instead.''
      else case (if ml_kem_encapsulation_key_bytes s \<noteq> []
                 then ml_kem_from_bytes K (ml_kem_encapsulation_key_bytes s) (ml_kem_decapsulation_key_bytes s)
                 else Inr (rn_kem r)) of
          Inl e \<Rightarrow> Inl (''invalid ML-KEM key: '' @ e)
        | Inr km \<Rightarrow> Inr \<lparr>id_node_id = sv_node_id s, id_public_key = sv_public_key s, id_created_at = sv_created_at s,
            id_signing_key = secret_key_bytes s,
            id_encryption = key_pair_from_secret K (if encryption_secret_bytes s \<noteq> [] then encryption_secret_bytes s else rn_x25519 r),
            id_ml_kem = km\<rparr>)"

text \<open>How an identity is shown, and the start of the key that the program prints; a shorter key panics.\<close>

definition identity_display :: "identity \<Rightarrow> string" where
  "identity_display i = ''Node('' @ take 12 (id_node_id i) @ '')''"

definition shown_key :: "identity \<Rightarrow> string option" where
  "shown_key i = (if length (id_public_key i) < 16 then None else Some (take 16 (id_public_key i)))"

section \<open>Properties\<close>

definition identity_ok :: "key_crypto \<Rightarrow> identity \<Rightarrow> bool" where
  "identity_ok K i \<longleftrightarrow> length (id_signing_key i) = 32 \<and> length (kp_secret (id_encryption i)) = 32 \<and>
     kp_public (id_encryption i) = x25519_public K (kp_secret (id_encryption i)) \<and> seed_ok K (kem_seed (id_ml_kem i))"

lemma identity_of_plain:
  assumes "identity_ok K i" shows "identity_of_saved K r passphrase (identity_plain i) = Inr i"
proof -
  have "kp_secret (id_encryption i) \<noteq> []" using assms by (auto simp: identity_ok_def)
  then show ?thesis using assms
    by (simp add: identity_of_saved_def load_signing_key_def load_encryption_secret_def load_ml_kem_def load_kem_bytes_def
        ml_kem_from_bytes_def key_of_length_32_def key_pair_from_secret_def identity_plain_def identity_ok_def)
qed

lemma identity_sealedE:
  assumes "identity_sealed K rnd p i = Inr s"
  obtains a b c d where
    "encrypt_with_passphrase K (rnd 0) (id_signing_key i) p = Inr a"
    "encrypt_with_passphrase K (rnd 1) (kp_secret (id_encryption i)) p = Inr b"
    "encrypt_with_passphrase K (rnd 2) (kem_ek (id_ml_kem i)) p = Inr c"
    "encrypt_with_passphrase K (rnd 3) (kem_seed (id_ml_kem i)) p = Inr d"
    "s = (identity_plain i)\<lparr>secret_key_bytes := [], encryption_secret_bytes := [],
       ml_kem_encapsulation_key_bytes := [], ml_kem_decapsulation_key_bytes := [],
       encrypted_secret_key := Some a, encrypted_encryption_key := Some b,
       ml_kem_encapsulation_key := Some c, ml_kem_decapsulation_key := Some d\<rparr>"
  using assms that unfolding identity_sealed_def by (simp split: sum.splits)

lemma identity_of_sealed:
  assumes "gcm_law K" "\<And>n. salt_nonce_ok (rnd n)" "identity_ok K i" "identity_sealed K rnd p i = Inr s"
  shows "identity_of_saved K r (Some p) s = Inr i"
proof -
  obtain a b c d where e: "encrypt_with_passphrase K (rnd 0) (id_signing_key i) p = Inr a"
    "encrypt_with_passphrase K (rnd 1) (kp_secret (id_encryption i)) p = Inr b"
    "encrypt_with_passphrase K (rnd 2) (kem_ek (id_ml_kem i)) p = Inr c"
    "encrypt_with_passphrase K (rnd 3) (kem_seed (id_ml_kem i)) p = Inr d"
    and s: "s = (identity_plain i)\<lparr>secret_key_bytes := [], encryption_secret_bytes := [],
       ml_kem_encapsulation_key_bytes := [], ml_kem_decapsulation_key_bytes := [],
       encrypted_secret_key := Some a, encrypted_encryption_key := Some b,
       ml_kem_encapsulation_key := Some c, ml_kem_decapsulation_key := Some d\<rparr>"
    using identity_sealedE [OF assms(4)] by blast
  note d = e [THEN decrypt_encrypt [OF assms(1) assms(2)]]
  show ?thesis using assms(3) unfolding s
    by (simp add: identity_of_saved_def load_signing_key_def load_encryption_secret_def load_ml_kem_def
        load_kem_bytes_def ml_kem_from_bytes_def key_of_length_32_def key_pair_from_secret_def identity_plain_def
        identity_ok_def unlock_def d)
qed

lemma identity_of_saved_saved:
  assumes "gcm_law K" "\<And>n. salt_nonce_ok (rnd n)" "identity_ok K i" "saved_of_identity K rnd passphrase i = Inr s"
  shows "identity_of_saved K r passphrase s = Inr i"
proof (cases passphrase)
  case None
  then show ?thesis using assms(4) identity_of_plain [OF assms(3)] by (simp add: saved_of_identity_def)
next
  case (Some p)
  then have "identity_sealed K rnd p i = Inr s" using assms(4) by (simp add: saved_of_identity_def split: sum.splits)
  then show ?thesis unfolding Some by (rule identity_of_sealed [OF assms(1) assms(2) assms(3)])
qed

lemma sealed_hides:
  assumes "identity_sealed K rnd p i = Inr s"
  shows "secret_key_bytes s = [] \<and> encryption_secret_bytes s = [] \<and> ml_kem_decapsulation_key_bytes s = [] \<and>
    identity_of_saved K r None s = Inl (InvalidInputError ''Passphrase required to decrypt identity'')"
  by (rule identity_sealedE [OF assms]) (simp add: identity_of_saved_def load_signing_key_def unlock_def)

lemma identity_generate_ok:
  "length (rn_secret r) = 32 \<Longrightarrow> length (rn_x25519 r) = 32 \<Longrightarrow> seed_ok K (kem_seed (rn_kem r)) \<Longrightarrow>
     identity_ok K (identity_generate K r name)"
  by (simp add: identity_generate_def identity_ok_def key_pair_from_secret_def Let_def)

text \<open>A save that succeeds writes exactly the saved form and ends with the mode \<open>0o600\<close>.\<close>

lemma identity_save_success:
  assumes "identity_save K rnd to_json umask fault path passphrase i D = (Inr (), D')"
  obtains s where "saved_of_identity K rnd passphrase i = Inr s" "dk_files D' = (dk_files D)(path \<mapsto> to_json s)"
    "dk_modes D' path = Some 384" "fault = NoFault"
  using assms that
  by (cases fault) (auto simp: identity_save_def write_file_def Let_def split: sum.splits if_splits)

text \<open>
  C33: a node that could create its identity gets the same identity at every later start with the same
  passphrase, and without the passphrase the start fails when one was used.
\<close>

theorem identity_survives_restart:
  assumes "gcm_law K" and "\<And>n. salt_nonce_ok (rnd n)" 
    and "\<And>s. saved_of_identity K rnd passphrase (identity_generate K r name) = Inr s \<Longrightarrow> from_json (to_json s) = Inr s"
    and "length (rn_secret r) = 32" "length (rn_x25519 r) = 32" "seed_ok K (kem_seed (rn_kem r))"
    and "dk_files D path = None"
    and "load_or_create K r rnd to_json from_json umask fault readable path name passphrase D = (Inr i, D')"
  shows "i = identity_generate K r name \<and> dk_modes D' path = Some 384 \<and>
    load_or_create K r' rnd' to_json from_json umask fault' True path name' passphrase D' = (Inr i, D') \<and>
    load_or_create K r' rnd' to_json from_json umask fault' True path name' None D' =
      (if passphrase = None then Inr i else Inl (InvalidInputError ''Passphrase required to decrypt identity''), D')"
proof -
  have g: "identity_ok K (identity_generate K r name)" using assms(4-6) by (rule identity_generate_ok)
  have i: "i = identity_generate K r name"
    and sv: "identity_save K rnd to_json umask fault path passphrase i D = (Inr (), D')"
    using assms(7,8) by (auto simp: load_or_create_def Let_def split: prod.splits sum.splits)
  obtain s where s: "saved_of_identity K rnd passphrase i = Inr s" and f: "dk_files D' = (dk_files D)(path \<mapsto> to_json s)"
    and m: "dk_modes D' path = Some 384"
    using sv by (rule identity_save_success)
  have l: "identity_of_saved K r' passphrase s = Inr i"
    by (rule identity_of_saved_saved [OF assms(1,2) g [folded i] s])
  have "identity_of_saved K r' None s =
      (if passphrase = None then Inr i else Inl (InvalidInputError ''Passphrase required to decrypt identity''))"
    using s l sealed_hides [of K rnd _ i s r'] by (auto simp: saved_of_identity_def split: option.splits sum.splits)
  then show ?thesis using l by (simp add: i m load_or_create_def f assms(3) [OF s [unfolded i]])
qed

text \<open>
  A save that stops while writing leaves a text that no later start repairs: a node whose file is cut off
  does not start again, whatever it is given.
\<close>

theorem identity_cut_is_final:
  assumes "saved_of_identity K rnd passphrase i = Inr s" and "from_json (take n (to_json s)) = Inl e"
    and "identity_save K rnd to_json umask (WriteStopped n) path passphrase i D = (q, D')"
  shows "q = Inl IdentityIo \<and>
    load_or_create K r' rnd' to_json from_json umask' fault' True path name' passphrase' D' = (Inl (InvalidDataError e), D')"
  using assms by (auto simp: identity_save_def write_file_def load_or_create_def Let_def)

text \<open>The node identifier, the public key and the date of a file are believed: no key is compared with them.\<close>

lemma load_ignores_fields:
  fixes s :: saved_identity and a b c d
  defines "s' \<equiv> s\<lparr>sv_node_id := a, sv_public_key := b, sv_created_at := c, encryption_public_bytes := d\<rparr>"
  shows "load_signing_key K passphrase s' = load_signing_key K passphrase s"
    and "load_encryption_secret K r passphrase s' = load_encryption_secret K r passphrase s"
    and "load_ml_kem K passphrase s' = load_ml_kem K passphrase s"
  by (simp_all add: s'_def load_signing_key_def load_encryption_secret_def load_ml_kem_def cong: option.case_cong sum.case_cong)

theorem identity_fields_unchecked:
  "identity_of_saved K r passphrase (s\<lparr>sv_node_id := a, sv_public_key := b, sv_created_at := c, encryption_public_bytes := d\<rparr>) =
     map_sum id (\<lambda>i. i\<lparr>id_node_id := a, id_public_key := b, id_created_at := c\<rparr>) (identity_of_saved K r passphrase s)"
  by (simp add: identity_of_saved_def load_ignores_fields split: sum.splits)

text \<open>A key of fewer than sixteen characters in the file panics the start.\<close>

lemma short_key_panics:
  assumes "identity_of_saved K r passphrase (s\<lparr>sv_public_key := b\<rparr>) = Inr i"
  shows "shown_key i = None \<longleftrightarrow> length b < 16"
proof -
  have "id_public_key i = b" using assms by (auto simp: identity_of_saved_def split: sum.splits)
  then show ?thesis by (simp add: shown_key_def)
qed

text \<open>A file in plain text is read with any passphrase and is not encrypted, whatever the program says.\<close>

lemma plain_file_stays_plain:
  assumes "identity_ok K i" "from_json (to_json (identity_plain i)) = Inr (identity_plain i)"
    "dk_files D path = Some (to_json (identity_plain i))"
  shows "load_or_create K r rnd to_json from_json umask fault True path name passphrase D = (Inr i, D)"
  using assms by (simp add: load_or_create_def identity_of_plain)

text \<open>With the mode still to be set, the whole text is readable with the mode of the process.\<close>

lemma mode_set_last:
  assumes "saved_of_identity K rnd passphrase i = Inr s" "dk_modes D path = None"
    and "identity_save K rnd to_json umask ModeFailed path passphrase i D = (q, D')"
  shows "q = Inl IdentityIo \<and> dk_files D' path = Some (to_json s) \<and> dk_modes D' path = Some umask"
  using assms by (auto simp: identity_save_def write_file_def Let_def)

text \<open>The two ways to read a saved identity agree on the plain form.\<close>

lemma identity_deserialize_serialize:
  assumes "identity_ok K i" "kem_ek (id_ml_kem i) \<noteq> []"
  shows "identity_deserialize K r (identity_serialize i) = Inr i"
proof -
  have "kp_secret (id_encryption i) \<noteq> []" using assms(1) by (auto simp: identity_ok_def)
  then show ?thesis using assms
    by (simp add: identity_deserialize_def identity_serialize_def identity_plain_def ml_kem_from_bytes_def
        key_pair_from_secret_def identity_ok_def)
qed

section \<open>Concrete runs\<close>

text \<open>A toy cipher that keeps the key beside the text: it obeys the law and refuses a wrong passphrase.\<close>

definition toy_keys :: key_crypto where
  "toy_keys = \<lparr>pbkdf2 = (\<lambda>p s n. take 1 (p @ zeros 1)), gcm_encrypt = (\<lambda>k n d. if length k = 1 then Some (k @ d) else None),
     gcm_decrypt = (\<lambda>k n c. if take 1 c = k then Some (drop 1 c) else None),
     ed_public_hex = (\<lambda>s. replicate 64 (CHR ''a'')), x25519_public = id, seed_ok = (\<lambda>s. length s = 64), node_hash = id\<rparr>"

lemma toy_law: "gcm_law toy_keys"
  by (auto simp: gcm_law_def toy_keys_def)

definition toy_random :: key_random where
  "toy_random = \<lparr>rn_secret = zeros 32, rn_time = ''t'', rn_x25519 = zeros 32, rn_kem = \<lparr>kem_ek = [1], kem_seed = zeros 64\<rparr>\<rparr>"

definition toy_salts :: "nat \<Rightarrow> salt_nonce" where
  "toy_salts n = (zeros 16, zeros 12)"

definition toy_saved :: saved_identity where
  "toy_saved = projr (saved_of_identity toy_keys toy_salts (Some [7]) (identity_generate toy_keys toy_random ''n''))"

lemma toy_saves: "saved_of_identity toy_keys toy_salts (Some [7]) (identity_generate toy_keys toy_random ''n'') = Inr toy_saved"
proof -
  have "\<exists>s. saved_of_identity toy_keys toy_salts (Some [7]) (identity_generate toy_keys toy_random ''n'') = Inr s"
    by (simp add: saved_of_identity_def identity_sealed_def encrypt_with_passphrase_def toy_keys_def)
  then show ?thesis by (auto simp: toy_saved_def)
qed

theorem identity_survives_restart_witness:
  "\<exists>i D. load_or_create toy_keys toy_random toy_salts (\<lambda>s. ''j'') (\<lambda>t. Inr toy_saved) 420 NoFault True ''id'' ''n'' (Some [7])
        \<lparr>dk_files = Map.empty, dk_modes = Map.empty\<rparr> = (Inr i, D) \<and> id_node_id i = ''node:n:'' @ replicate 64 (CHR ''a'') \<and>
      dk_modes D ''id'' = Some 384 \<and>
      load_or_create toy_keys toy_random toy_salts (\<lambda>s. ''j'') (\<lambda>t. Inr toy_saved) 420 NoFault True ''id'' ''m'' (Some [7]) D = (Inr i, D)"
proof -
  let ?i = "identity_generate toy_keys toy_random ''n''"
  let ?D = "\<lparr>dk_files = [''id'' \<mapsto> ''j''], dk_modes = [''id'' \<mapsto> 384]\<rparr>"
  have run: "load_or_create toy_keys toy_random toy_salts (\<lambda>s. ''j'') (\<lambda>t. Inr toy_saved) 420 NoFault True ''id'' ''n'' (Some [7])
        \<lparr>dk_files = Map.empty, dk_modes = Map.empty\<rparr> = (Inr ?i, ?D)"
    by (simp add: load_or_create_def identity_save_def toy_saves write_file_def Let_def)
  have inputs: "salt_nonce_ok (toy_salts n)" "length (rn_secret toy_random) = 32" "length (rn_x25519 toy_random) = 32"
    "seed_ok toy_keys (kem_seed (rn_kem toy_random))" for n
    by (simp_all add: salt_nonce_ok_def toy_salts_def SALT_LEN_def KEY_NONCE_LEN_def toy_random_def toy_keys_def)
  have "?i = ?i \<and> dk_modes ?D ''id'' = Some 384 \<and>
    load_or_create toy_keys toy_random toy_salts (\<lambda>s. ''j'') (\<lambda>t. Inr toy_saved) 420 NoFault True ''id'' ''m'' (Some [7]) ?D = (Inr ?i, ?D)"
    using identity_survives_restart [OF toy_law inputs(1) _ inputs(2-4) _ run] by (simp add: toy_saves)
  then show ?thesis using run
    by (intro exI [of _ ?i] exI [of _ ?D]) (simp add: identity_generate_def toy_keys_def toy_random_def Let_def)
qed

theorem identity_cut_is_final_witness:
  "\<exists>D. load_or_create toy_keys toy_random toy_salts (\<lambda>s. ''j'') (\<lambda>t. if t = [] then Inl ''EOF'' else Inr toy_saved) 420 NoFault True
     ''id'' ''n'' None D = (Inl (InvalidDataError ''EOF''), D)"
proof -
  define F where "F = (\<lambda>t :: string. if t = [] then Inl ''EOF'' else Inr toy_saved)"
  have "F (take 0 ''j'') = Inl ''EOF''" by (simp add: F_def)
  from identity_cut_is_final [OF toy_saves, of F 0 "\<lambda>s. ''j''", OF this surjective_pairing]
  show ?thesis unfolding F_def by blast
qed

end
