(* ===== verification/Nex_Internet.thy ===== *)
theory Nex_Internet
  imports Nex_Parser "HOL-Library.Sublist"
begin

text \<open>
  The controlled access to the internet of \<^verbatim>\<open>crates/host/src/nex/internet.rs\<close>: the list of allowed
  domains, the cache of answers and its clean-up. Hashing, JSON and the HTTP client are parameters; the clock
  and the answer of the client are inputs of an operation. The cache directory is an association list from file
  names to texts.
\<close>

section \<open>The allowed domains\<close>

definition ALLOWED_DOMAINS :: "string list" where
  "ALLOWED_DOMAINS = [''doc.rust-lang.org'', ''crates.io'', ''docs.rs'', ''raw.githubusercontent.com'', ''github.com'']"

definition CACHE_TTL_SECS :: nat where "CACHE_TTL_SECS = 86400"
definition MAX_RESPONSE_BYTES :: nat where "MAX_RESPONSE_BYTES = 1048576"

definition strip_scheme :: "string \<Rightarrow> string" where
  "strip_scheme url =
     (case strip_prefix ''https://'' url of
        Some r \<Rightarrow> r
      | None \<Rightarrow> (case strip_prefix ''http://'' url of Some r \<Rightarrow> r | None \<Rightarrow> url))"

definition url_domain :: "string \<Rightarrow> string" where
  "url_domain url = takeWhile (\<lambda>c. c \<noteq> CHR '':'') (takeWhile (\<lambda>c. c \<noteq> CHR ''/'') (strip_scheme url))"

definition allowed_domain :: "string \<Rightarrow> bool" where
  "allowed_domain d \<longleftrightarrow> list_ex (\<lambda>a. d = a \<or> suffix (CHR ''.'' # a) d) ALLOWED_DOMAINS"

datatype fetch_error =
    NotAllowed string
  | Offline
  | SendFailed string
  | BadStatus nat string
  | BodyFailed
  | TooLarge nat
  | NotCached string

definition validate_url :: "string \<Rightarrow> fetch_error + unit" where
  "validate_url url = (if allowed_domain (url_domain url) then Inr () else Inl (NotAllowed (url_domain url)))"

section \<open>The cache\<close>

record cache_entry =
  ce_url :: string
  ce_url_hash :: string
  ce_content_hash :: string
  ce_fetched_at :: nat
  ce_content :: string
  ce_content_type :: string

record fetch_result =
  ft_content :: string
  ft_from_cache :: bool
  ft_url :: string
  ft_content_hash :: string

record fetch_library =
  url_digest :: "string \<Rightarrow> string"
  entry_to_json :: "cache_entry \<Rightarrow> string"
  entry_from_json :: "string \<Rightarrow> cache_entry option"

type_synonym cache_dir = "(string \<times> string) list"

definition cache_path :: "fetch_library \<Rightarrow> string \<Rightarrow> string" where
  "cache_path P url = take 16 (url_digest P url) @ ''.json''"

definition cached_entry :: "fetch_library \<Rightarrow> cache_dir \<Rightarrow> string \<Rightarrow> cache_entry option" where
  "cached_entry P D url = Option.bind (map_of D (cache_path P url)) (entry_from_json P)"

definition is_cache_fresh :: "nat \<Rightarrow> cache_entry \<Rightarrow> bool" where
  "is_cache_fresh now e \<longleftrightarrow> now - ce_fetched_at e < CACHE_TTL_SECS"

definition cache_result :: "string \<Rightarrow> cache_entry \<Rightarrow> fetch_result" where
  "cache_result url e = \<lparr>ft_content = ce_content e, ft_from_cache = True, ft_url = url, ft_content_hash = ce_content_hash e\<rparr>"

definition fetch_offline :: "fetch_library \<Rightarrow> cache_dir \<Rightarrow> string \<Rightarrow> fetch_error + fetch_result" where
  "fetch_offline P D url =
     (case validate_url url of
        Inl e \<Rightarrow> Inl e
      | Inr _ \<Rightarrow> (case cached_entry P D url of Some e \<Rightarrow> Inr (cache_result url e) | None \<Rightarrow> Inl (NotCached url)))"

definition detect_content_type :: "string \<Rightarrow> string \<Rightarrow> string" where
  "detect_content_type url content =
     (if suffix ''.json'' url \<or> prefix [CHR 0x7B] content \<or> prefix [CHR 0x5B] content then ''application/json''
      else if suffix ''.rs'' url \<or> sublist ''doc.rust-lang.org'' url \<or> sublist ''/rust/'' url then ''text/rust''
      else if suffix ''.md'' url \<or> sublist ''github.com'' url then ''text/markdown''
      else if suffix ''.html'' url \<or> sublist ''docs.rs'' url then ''text/html''
      else ''text/plain'')"

text \<open>What the client does with a request, when there is a client: it fails, or answers with a status and a body.\<close>

datatype http_answer = NoAnswer string | Answer nat "string option"

text \<open>
  One request; \<open>writes\<close> says whether the write of the cache works, whose failure is ignored. The
  status of success is from 200 to 299.
\<close>

definition fetched_entry :: "fetch_library \<Rightarrow> nat \<Rightarrow> string \<Rightarrow> string \<Rightarrow> cache_entry" where
  "fetched_entry P now url content =
     \<lparr>ce_url = url, ce_url_hash = url_digest P url, ce_content_hash = url_digest P content, ce_fetched_at = now,
      ce_content = content, ce_content_type = detect_content_type url content\<rparr>"

definition fetch ::
    "fetch_library \<Rightarrow> nat \<Rightarrow> http_answer option \<Rightarrow> nat \<Rightarrow> bool \<Rightarrow> cache_dir \<Rightarrow> string \<Rightarrow> (fetch_error + fetch_result) \<times> cache_dir" where
  "fetch P now client later writes D url =
     (case validate_url url of
        Inl e \<Rightarrow> (Inl e, D)
      | Inr _ \<Rightarrow>
          (case (case cached_entry P D url of
                   Some e \<Rightarrow> if is_cache_fresh now e then Some (cache_result url e) else None
                 | None \<Rightarrow> None) of
            Some r \<Rightarrow> (Inr r, D)
          | None \<Rightarrow>
              (case client of
                 None \<Rightarrow> (Inl Offline, D)
               | Some (NoAnswer e) \<Rightarrow> (Inl (SendFailed e), D)
               | Some (Answer status body) \<Rightarrow>
                   if \<not> (200 \<le> status \<and> status \<le> 299) then (Inl (BadStatus status url), D)
                   else case body of
                     None \<Rightarrow> (Inl BodyFailed, D)
                   | Some content \<Rightarrow>
                       if MAX_RESPONSE_BYTES < length content then (Inl (TooLarge (length content)), D)
                       else
                         (Inr \<lparr>ft_content = content, ft_from_cache = False, ft_url = url, ft_content_hash = url_digest P content\<rparr>,
                          if writes then AList.update (cache_path P url) (entry_to_json P (fetched_entry P later url content)) D
                          else D))))"

definition json_file :: "string \<Rightarrow> bool" where
  "json_file f \<longleftrightarrow> suffix ''.json'' f \<and> 5 < length f"

text \<open>A file whose removal fails stays and is counted all the same.\<close>

definition stale_file :: "fetch_library \<Rightarrow> nat \<Rightarrow> string \<times> string \<Rightarrow> bool" where
  "stale_file P now f \<longleftrightarrow>
     json_file (fst f) \<and> (case entry_from_json P (snd f) of None \<Rightarrow> False | Some e \<Rightarrow> \<not> is_cache_fresh now e)"

definition cleanup_cache :: "fetch_library \<Rightarrow> nat \<Rightarrow> (string \<Rightarrow> bool) \<Rightarrow> cache_dir \<Rightarrow> nat \<times> cache_dir" where
  "cleanup_cache P now removable D =
     (length (filter (stale_file P now) D), filter (\<lambda>f. \<not> (stale_file P now f \<and> removable (fst f))) D)"

record cache_statistics =
  cs_total :: nat
  cs_fresh :: nat
  cs_stale :: nat

definition fresh_file :: "fetch_library \<Rightarrow> nat \<Rightarrow> string \<times> string \<Rightarrow> bool" where
  "fresh_file P now f \<longleftrightarrow>
     json_file (fst f) \<and> (case entry_from_json P (snd f) of None \<Rightarrow> False | Some e \<Rightarrow> is_cache_fresh now e)"

definition cache_stats :: "fetch_library \<Rightarrow> nat \<Rightarrow> cache_dir \<Rightarrow> cache_statistics" where
  "cache_stats P now D =
     \<lparr>cs_total = length (filter (\<lambda>f. json_file (fst f)) D), cs_fresh = length (filter (fresh_file P now) D),
      cs_stale = length (filter (stale_file P now) D)\<rparr>"

section \<open>The host of a URL\<close>

text \<open>
  The host that a client connects to: after the scheme, the authority ends at the first slash, question mark, hash
  or backslash; what precedes its last at sign are credentials, and a colon starts the port.
\<close>

definition url_authority :: "string \<Rightarrow> string" where
  "url_authority url = takeWhile (\<lambda>c. c \<notin> {CHR ''/'', CHR ''?'', CHR ''#'', CHR 0x5C}) (strip_scheme url)"

definition url_host :: "string \<Rightarrow> string" where
  "url_host url = takeWhile (\<lambda>c. c \<noteq> CHR '':'') (rev (takeWhile (\<lambda>c. c \<noteq> CHR ''@'') (rev (url_authority url))))"

section \<open>Properties\<close>


lemma takeWhile_weaken:
  assumes "\<And>c. p c \<Longrightarrow> q c" and "\<forall>c \<in> set (takeWhile q t). p c"
  shows "takeWhile p t = takeWhile q t"
  using assms(2)
proof (induction t)
  case (Cons c t)
  then show ?case using assms(1) [of c] by (cases "q c") auto
qed simp

text \<open>Without credentials, queries or fragments before the first slash the domain checked is the host.\<close>

lemma domain_is_host:
  assumes "set (takeWhile (\<lambda>c. c \<noteq> CHR ''/'') (strip_scheme url)) \<inter> {CHR ''@'', CHR ''?'', CHR ''#'', CHR 0x5C} = {}"
  shows "url_domain url = url_host url"
proof -
  let ?s = "strip_scheme url"
  have p: "c \<notin> {CHR ''/'', CHR ''?'', CHR ''#'', CHR 0x5C}" if "c \<in> set (takeWhile (\<lambda>c. c \<noteq> CHR ''/'') ?s)" for c
  proof -
    have "c \<noteq> CHR ''/''" using set_takeWhileD [OF that] by (rule conjunct2)
    moreover have "c \<notin> {CHR ''@'', CHR ''?'', CHR ''#'', CHR 0x5C}" using that assms by (meson disjoint_iff)
    ultimately show ?thesis by simp
  qed
  have a: "url_authority url = takeWhile (\<lambda>c. c \<noteq> CHR ''/'') ?s"
    unfolding url_authority_def by (rule takeWhile_weaken, simp, rule ballI, rule p)
  have "CHR ''@'' \<notin> set (rev (url_authority url))" using assms unfolding a set_rev by (meson disjoint_iff insertCI)
  then have t: "takeWhile (\<lambda>c. c \<noteq> CHR ''@'') (rev (url_authority url)) = rev (url_authority url)"
    by (intro takeWhile_eq_all_conv [THEN iffD2] ballI notI) (simp only:)
  show ?thesis by (simp only: url_host_def t rev_rev_ident) (simp only: url_domain_def a)
qed















text \<open>
  A page that was fetched and cached is the answer without the network for a day, and without a limit of
  time to the offline search.
\<close>

theorem fetch_then_cached:
  assumes run: "fetch P now client later True D url = (Inr r, D')" and new: "\<not> ft_from_cache r"
    and json: "entry_from_json P (entry_to_json P (fetched_entry P later url (ft_content r))) =
      Some (fetched_entry P later url (ft_content r))"
  shows "fetch_offline P D' url = Inr (r\<lparr>ft_from_cache := True\<rparr>) \<and>
    (t < later + CACHE_TTL_SECS \<longrightarrow> fetch P t any later' w D' url = (Inr (r\<lparr>ft_from_cache := True\<rparr>), D')) \<and>
    fetch P t None later' w D' url =
      (if t < later + CACHE_TTL_SECS then Inr (r\<lparr>ft_from_cache := True\<rparr>) else Inl Offline, D')"
proof -
  have v: "validate_url url = Inr ()" using run by (auto simp: fetch_def split: sum.splits)
  obtain c where r: "r = \<lparr>ft_content = c, ft_from_cache = False, ft_url = url, ft_content_hash = url_digest P c\<rparr>"
    and d: "D' = AList.update (cache_path P url) (entry_to_json P (fetched_entry P later url c)) D"
    using run new
    by (auto simp: fetch_def v cache_result_def split: option.splits http_answer.splits if_splits)
  have e: "cached_entry P D' url = Some (fetched_entry P later url c)"
    using json by (simp add: cached_entry_def d r update_conv')
  have "t - later < CACHE_TTL_SECS \<longleftrightarrow> t < later + CACHE_TTL_SECS"
    unfolding CACHE_TTL_SECS_def by arith
  then show ?thesis
    by (simp add: fetch_offline_def fetch_def v e is_cache_fresh_def cache_result_def fetched_entry_def r)
qed

text \<open>Nothing compares a cached page with the address asked for: addresses that share sixteen digits share a page.\<close>

lemma cache_ignores_url:
  assumes "cache_path P u = cache_path P v" "validate_url u = Inr ()" "fetch_offline P D v = Inr r"
  shows "fetch_offline P D u = Inr (r\<lparr>ft_url := u\<rparr>)"
  using assms
  by (auto simp: fetch_offline_def cached_entry_def cache_result_def split: sum.splits option.splits)

text \<open>Only allowed addresses change the cache or reach the client.\<close>

lemma fetch_not_allowed:
  "validate_url url = Inl e \<Longrightarrow> fetch P now client later w D url = (Inl e, D)"
  by (simp add: fetch_def)

text \<open>A clean-up that can remove files leaves no expired page, counts them, and keeps everything else.\<close>

lemma cleanup_leaves_fresh:
  assumes "cleanup_cache P now (\<lambda>f. True) D = (n, D')"
  shows "cs_stale (cache_stats P now D') = 0 \<and> cs_fresh (cache_stats P now D') = cs_fresh (cache_stats P now D) \<and>
    cs_total (cache_stats P now D') + n = cs_total (cache_stats P now D)"
proof -
  have d: "D' = filter (\<lambda>f. \<not> stale_file P now f) D" and n: "n = length (filter (stale_file P now) D)"
    using assms by (auto simp: cleanup_cache_def)
  have disj: "\<not> (fresh_file P now f \<and> stale_file P now f)" for f
    by (auto simp: fresh_file_def stale_file_def split: option.splits)
  have "filter (fresh_file P now) D' = filter (fresh_file P now) D" using disj by (auto simp: d intro!: filter_cong)
  moreover have "filter (stale_file P now) D' = []" by (simp add: d filter_empty_conv)
  moreover have "length (filter (\<lambda>f. json_file (fst f)) D') + n = length (filter (\<lambda>f. json_file (fst f)) D)"
    unfolding d n by (induction D) (auto simp: stale_file_def)
  ultimately show ?thesis by (simp add: cache_stats_def)
qed

text \<open>A page dated in the future is fresh until a day after that date.\<close>

lemma future_page_fresh: "now \<le> ce_fetched_at e \<Longrightarrow> is_cache_fresh now e"
  by (simp add: is_cache_fresh_def CACHE_TTL_SECS_def)

end
