(* ===== verification/Self_Awareness.thy ===== *)
theory Self_Awareness
  imports Nex_Learning Nex_Checkpoint "HOL-Library.Sublist"
begin

text \<open>
  What the behaviour engine observes of its own project (\<^verbatim>\<open>crates/host/src/nex/self_awareness.rs\<close>): the
  commands of \<^verbatim>\<open>cargo\<close> it runs and what it reads in their output. What a command gives back, the clock and hashing are
  parameters.
\<close>

section \<open>Observed states\<close>

record observed_state =
  ob_build_ok :: bool
  ob_build_warnings :: nat
  ob_tests_passed :: nat
  ob_tests_failed :: nat
  ob_tests_ignored :: nat
  ob_clippy_ok :: bool
  ob_clippy_warnings :: nat
  ob_fmt_ok :: bool
  ob_miri_ok :: bool
  ob_miri_errors :: "string list"
  ob_timestamp :: u64
  ob_timestamp_iso :: string
  ob_health_hash :: string

definition to_system_state :: "observed_state \<Rightarrow> system_state" where
  "to_system_state s =
     \<lparr>build_ok = ob_build_ok s, warnings = ob_build_warnings s + ob_clippy_warnings s, tests_passed = ob_tests_passed s,
      tests_failed = ob_tests_failed s, clippy_ok = ob_clippy_ok s, fmt_ok = ob_fmt_ok s\<rparr>"

definition is_healthy :: "observed_state \<Rightarrow> bool" where
  "is_healthy s \<longleftrightarrow> ob_build_ok s \<and> ob_tests_failed s = 0 \<and> ob_clippy_ok s \<and> ob_fmt_ok s \<and> ob_miri_ok s"

section \<open>Commands\<close>

record cmd_result =
  cm_ok :: bool
  cm_stdout :: string
  cm_stderr :: string

datatype cargo_call = CargoCheck | CargoTest | CargoClippy | CargoMiri | CargoFmt

text \<open>What the operating system says of a call: it cannot be run, or its status and its two outputs.\<close>

datatype cargo_outcome = NotRun string | Ran bool string string

definition run_cmd :: "cargo_outcome \<Rightarrow> cmd_result" where
  "run_cmd out =
     (case out of
        Ran success stdout stderr \<Rightarrow> \<lparr>cm_ok = success, cm_stdout = stdout, cm_stderr = stderr\<rparr>
      | NotRun e \<Rightarrow> \<lparr>cm_ok = False, cm_stdout = [], cm_stderr = ''exec error: '' @ e\<rparr>)"

definition find_cargo :: "(string \<Rightarrow> string option) \<Rightarrow> (string \<Rightarrow> bool) \<Rightarrow> string" where
  "find_cargo env exists =
     (let windows = map_option (\<lambda>h. h @ CHR 0x5C # ''.cargo'' @ CHR 0x5C # ''bin'' @ CHR 0x5C # ''cargo.exe'') (env ''USERPROFILE'');
          unix = map_option (\<lambda>h. h @ ''/.cargo/bin/cargo'') (env ''HOME'')
      in case windows of
           Some p \<Rightarrow> if exists p then p else (case unix of Some q \<Rightarrow> if exists q then q else ''cargo'' | None \<Rightarrow> ''cargo'')
         | None \<Rightarrow> (case unix of Some q \<Rightarrow> if exists q then q else ''cargo'' | None \<Rightarrow> ''cargo''))"

definition count_warnings :: "string \<Rightarrow> nat" where
  "count_warnings output = length (filter (sublist ''warning:'') (text_lines [] output))"

text \<open>\<^verbatim>\<open>split(..).next()\<close>, \<^verbatim>\<open>split_whitespace\<close> and \<^verbatim>\<open>parse::<usize>\<close>.\<close>

definition first_piece :: "string \<Rightarrow> string \<Rightarrow> string" where
  "first_piece pat s = (case split_once pat [] s of None \<Rightarrow> s | Some (a, r) \<Rightarrow> a)"

fun space_words :: "string \<Rightarrow> string \<Rightarrow> string list" where
  "space_words acc [] = (if acc = [] then [] else [acc])"
| "space_words acc (c # cs) =
     (if is_space c then (if acc = [] then space_words [] cs else acc # space_words [] cs)
      else space_words (acc @ [c]) cs)"

definition parse_usize :: "string \<Rightarrow> nat option" where
  "parse_usize s =
     (let ds = without_plus s in if all_digits ds \<and> text_nat ds < 2 ^ 64 then Some (text_nat ds) else None)"

definition count_word :: "string option \<Rightarrow> nat" where
  "count_word w = (case Option.bind w parse_usize of None \<Rightarrow> 0 | Some n \<Rightarrow> n)"

definition first_word :: "string \<Rightarrow> string option" where
  "first_word s = (case space_words [] s of [] \<Rightarrow> None | w # ws \<Rightarrow> Some w)"

definition last_word :: "string \<Rightarrow> string option" where
  "last_word s = (case space_words [] s of [] \<Rightarrow> None | w # ws \<Rightarrow> Some (last (w # ws)))"

definition parse_test_line :: "string \<Rightarrow> nat \<times> nat \<times> nat" where
  "parse_test_line line =
     (case second_piece ''test result:'' line of
        None \<Rightarrow> (0, 0, 0)
      | Some rest \<Rightarrow>
          let rest = trim rest
          in (count_word (last_word (first_piece ''passed'' rest)),
              count_word (Option.bind (second_piece ''passed;'' (first_piece ''failed'' rest)) first_word),
              count_word (Option.bind (second_piece ''failed;'' (first_piece ''ignored'' rest)) first_word)))"

definition add_counts :: "nat \<times> nat \<times> nat \<Rightarrow> nat \<times> nat \<times> nat \<Rightarrow> nat \<times> nat \<times> nat" where
  "add_counts a b = (fst a + fst b, fst (snd a) + fst (snd b), snd (snd a) + snd (snd b))"

definition parse_test_results :: "string \<Rightarrow> nat \<times> nat \<times> nat" where
  "parse_test_results output = foldl (\<lambda>n line. add_counts n (parse_test_line line)) (0, 0, 0) (text_lines [] output)"

definition miri_error :: "string \<Rightarrow> bool" where
  "miri_error l \<longleftrightarrow>
     prefix ''error:'' l \<or> sublist ''undefined behavior'' l \<or> sublist ''UndefinedBehavior'' l \<or>
     sublist ''memory allocation'' l \<or> sublist ''stacked borrows'' l"

definition parse_miri_errors :: "string \<Rightarrow> string list" where
  "parse_miri_errors output = filter miri_error (map trim (text_lines [] output))"

section \<open>Observing\<close>

definition bool_text :: "bool \<Rightarrow> string" where
  "bool_text b = (if b then ''true'' else ''false'')"

record awareness =
  aw_cargo_path :: string
  aw_hash :: "string \<Rightarrow> string"
  aw_iso :: "u64 \<Rightarrow> string"

definition fake_state :: "awareness \<Rightarrow> u64 \<Rightarrow> observed_state" where
  "fake_state A now =
     \<lparr>ob_build_ok = True, ob_build_warnings = 0, ob_tests_passed = 0, ob_tests_failed = 0, ob_tests_ignored = 0,
      ob_clippy_ok = True, ob_clippy_warnings = 0, ob_fmt_ok = True, ob_miri_ok = True, ob_miri_errors = [],
      ob_timestamp = now, ob_timestamp_iso = aw_iso A now,
      ob_health_hash = aw_hash A (''fake:'' @ nat_text (unat now) @ '':0:0:true:0:true:true'')\<rparr>"

definition miri_result :: "bool \<Rightarrow> (cargo_call \<Rightarrow> cargo_outcome) \<Rightarrow> cmd_result" where
  "miri_result requested outcome =
     (if requested then run_cmd (outcome CargoMiri)
      else \<lparr>cm_ok = True, cm_stdout = [], cm_stderr = ''skipped (use MIRI=1 to enable)''\<rparr>)"

definition observe :: "awareness \<Rightarrow> u64 \<Rightarrow> bool \<Rightarrow> (cargo_call \<Rightarrow> cargo_outcome) \<Rightarrow> observed_state" where
  "observe A now requested outcome =
     (if aw_cargo_path A = [] then fake_state A now
      else
        let build = run_cmd (outcome CargoCheck); bw = count_warnings (cm_stderr build);
            test = run_cmd (outcome CargoTest);
            (tp, tf, ti) = parse_test_results (cm_stdout test @ [CHR 0x0A] @ cm_stderr test);
            clippy = run_cmd (outcome CargoClippy); cw = count_warnings (cm_stderr clippy);
            miri = miri_result requested outcome;
            errors = parse_miri_errors (cm_stdout miri @ [CHR 0x0A] @ cm_stderr miri);
            fmt = run_cmd (outcome CargoFmt);
            content = bool_text (cm_ok build) @ '':'' @ nat_text bw @ '':'' @ nat_text tp @ '':'' @ nat_text tf @ '':'' @
              bool_text (cm_ok clippy) @ '':'' @ nat_text cw @ '':'' @ bool_text (cm_ok fmt) @ '':'' @ bool_text (cm_ok miri)
        in \<lparr>ob_build_ok = cm_ok build, ob_build_warnings = bw, ob_tests_passed = tp, ob_tests_failed = tf, ob_tests_ignored = ti,
            ob_clippy_ok = cm_ok clippy, ob_clippy_warnings = cw, ob_fmt_ok = cm_ok fmt, ob_miri_ok = cm_ok miri,
            ob_miri_errors = errors, ob_timestamp = now, ob_timestamp_iso = aw_iso A now, ob_health_hash = aw_hash A content\<rparr>)"

text \<open>The light observation of a cycle: only \<^verbatim>\<open>cargo check\<close> is run.\<close>

definition observe_light :: "awareness \<Rightarrow> u64 \<Rightarrow> cargo_outcome \<Rightarrow> observed_state" where
  "observe_light A now check =
     (if aw_cargo_path A = [] then fake_state A now
      else
        let build = run_cmd check; bw = count_warnings (cm_stderr build)
        in \<lparr>ob_build_ok = cm_ok build, ob_build_warnings = bw, ob_tests_passed = 0, ob_tests_failed = 0, ob_tests_ignored = 0,
            ob_clippy_ok = True, ob_clippy_warnings = 0, ob_fmt_ok = True, ob_miri_ok = True, ob_miri_errors = [],
            ob_timestamp = now, ob_timestamp_iso = aw_iso A now,
            ob_health_hash = aw_hash A (''light:'' @ bool_text (cm_ok build) @ '':'' @ nat_text bw)\<rparr>)"

end
