(* ===== verification/Awareness_Theorems.thy ===== *)
theory Awareness_Theorems
  imports Self_Awareness Nex_Checkpoint_Theorems Nex_Printing
begin

text \<open>
  The counts read from the output of cargo are those it printed; and the health report of the daemon, which is
  made from the same commands.
\<close>

declare nat_text.simps [simp del]

section \<open>Reading the output of the tests\<close>

lemma split_once_skip: "c \<notin> set b \<Longrightarrow> split_once (c # pat) acc (b @ r) = split_once (c # pat) (acc @ b) r"
proof (induction b arbitrary: acc)
  case (Cons a b)
  then have "strip_prefix (c # pat) (a # b @ r) = None" by auto
  then show ?case using Cons by simp
qed simp

lemma split_once_without: "c \<in> set pat \<Longrightarrow> c \<notin> set s \<Longrightarrow> split_once pat [] s = None"
  by (cases "split_once pat [] s") (auto dest: split_once_Some)

lemma space_words_word: "\<forall>x \<in> set w. \<not> is_space x \<Longrightarrow> space_words acc (w @ r) = space_words (acc @ w) r"
  by (induction w arbitrary: acc) simp_all

lemma number_word:
  "\<forall>x \<in> set (nat_text n). \<not> is_space x" "nat_text n \<noteq> []"
  using nat_text_digits [of n] by (auto simp: is_digit_range is_space_def)

lemma number_chars [simp]:
  "CHR ''p'' \<notin> set (nat_text n)" "CHR ''f'' \<notin> set (nat_text n)" "CHR ''i'' \<notin> set (nat_text n)"
  "CHR '':'' \<notin> set (nat_text n)" "CHR ''+'' \<notin> set (nat_text n)"
  using nat_text_digits [of n] by (auto simp: is_digit_range)

lemma count_number: "n < 2 ^ 64 \<Longrightarrow> count_word (Some (nat_text n)) = n"
proof -
  have "hd (nat_text n) \<noteq> CHR ''+''" using number_word(2) [of n] number_chars(5) [of n] hd_in_set by metis
  then show "n < 2 ^ 64 \<Longrightarrow> ?thesis"
    using nat_text_digits [of n] by (simp add: count_word_def parse_usize_def without_plus_def all_digits_def text_nat_text)
qed

lemma trim_inner: "a \<noteq> [] \<Longrightarrow> \<not> is_space (hd a) \<Longrightarrow> t \<noteq> [] \<Longrightarrow> \<not> is_space (last t) \<Longrightarrow> trim (CHR '' '' # a @ t) = a @ t"
proof -
  have space: "is_space (CHR '' '')" by (simp add: is_space_def)
  assume a: "a \<noteq> []" "\<not> is_space (hd a)" and t: "t \<noteq> []" "\<not> is_space (last t)"
  have "dropWhile is_space (CHR '' '' # a @ t) = a @ t" using a space by (cases a) simp_all
  moreover have "dropWhile is_space (rev (a @ t)) = rev (a @ t)" using t by (cases t rule: rev_cases) simp_all
  ultimately show ?thesis by (simp add: trim_def)
qed

text \<open>The counts that cargo prints in a summary line are the counts read from it.\<close>

lemma summary_line_counts:
  assumes "p < 2 ^ 64" "f < 2 ^ 64" "i < 2 ^ 64" and "v = ''ok.'' \<or> v = ''FAILED.''"
    and "CHR '':'' \<notin> set t" "t \<noteq> []" "\<not> is_space (last t)"
  shows "parse_test_line (''test result: '' @ v @ '' '' @ nat_text p @ '' passed; '' @ nat_text f @ '' failed; '' @
      nat_text i @ '' ignored; '' @ t) = (p, f, i)"
proof -
  define s1 where "s1 = v @ '' '' @ nat_text p @ '' ''"
  define s2 where "s2 = '' '' @ nat_text f @ '' ''"
  define s3 where "s3 = '' '' @ nat_text i @ '' ''"
  define R where "R = (s1 @ ''passed;'' @ s2 @ ''failed;'' @ s3 @ ''ignored; '') @ t"
  have line: "''test result: '' @ v @ '' '' @ nat_text p @ '' passed; '' @ nat_text f @ '' failed; '' @ nat_text i @ '' ignored; '' @ t =
      ''test result:'' @ CHR '' '' # R"
    by (simp add: R_def s1_def s2_def s3_def)
  have n1: "CHR ''p'' \<notin> set s1" "CHR ''f'' \<notin> set s1" "CHR '':'' \<notin> set s1"
    using assms(4) by (elim disjE; simp add: s1_def)+
  have n2: "CHR ''p'' \<notin> set s2" "CHR ''f'' \<notin> set s2" "CHR '':'' \<notin> set s2" by (simp_all add: s2_def)
  have n3: "CHR ''f'' \<notin> set s3" "CHR '':'' \<notin> set s3" by (simp_all add: s3_def)
  have "CHR '':'' \<notin> set (CHR '' '' # R)" using n1 n2 n3 assms(5) by (simp add: R_def)
  then have "split_once ''test result:'' [] (CHR '' '' # R) = None" by (intro split_once_without [of "CHR '':''"]) simp_all
  moreover have "split_once ''test result:'' [] (''test result:'' @ CHR '' '' # R) = Some ([], CHR '' '' # R)"
    by simp
  ultimately have piece: "second_piece ''test result:'' (''test result:'' @ CHR '' '' # R) = Some (CHR '' '' # R)"
    by (simp only: second_piece_def option.case prod.case)
  have R: "trim (CHR '' '' # R) = R"
    unfolding R_def by (rule trim_inner) (use assms(4,6,7) in \<open>auto simp: s1_def is_space_def\<close>)
  have "split_once ''passed'' [] (s1 @ ''passed;'' @ q) = Some (s1, CHR '';'' # q)" for q
    using n1(1) by (subst split_once_skip) simp_all
  then have passed: "first_piece ''passed'' R = s1" by (simp add: first_piece_def R_def)
  have "split_once ''failed'' [] ((s1 @ ''passed;'' @ s2) @ ''failed;'' @ q) = Some (s1 @ ''passed;'' @ s2, CHR '';'' # q)" for q
    using n1(2) n2(2) by (subst split_once_skip) simp_all
  then have failed: "first_piece ''failed'' R = s1 @ ''passed;'' @ s2" by (simp add: first_piece_def R_def)
  have i: "CHR ''i'' \<notin> set s1" "CHR ''i'' \<notin> set s2" "CHR ''i'' \<notin> set s3"
    using assms(4) by (elim disjE; simp add: s1_def s2_def s3_def)+
  have "split_once ''ignored'' [] ((s1 @ ''passed;'' @ s2 @ ''fa'') @ ''iled;'' @ s3 @ ''ignored; '' @ q) =
      split_once ''ignored'' (s1 @ ''passed;'' @ s2 @ ''fa'') (CHR ''i'' # (''led;'' @ s3) @ ''ignored; '' @ q)" for q
    using i by (subst split_once_skip) simp_all
  also have "\<dots> q = split_once ''ignored'' (s1 @ ''passed;'' @ s2 @ ''fai'') ((''led;'' @ s3) @ ''ignored; '' @ q)" for q
    by simp
  also have "\<dots> q = Some (s1 @ ''passed;'' @ s2 @ ''failed;'' @ s3, ''; '' @ q)" for q
    using i by (subst split_once_skip) simp_all
  finally have ignored: "first_piece ''ignored'' R = s1 @ ''passed;'' @ s2 @ ''failed;'' @ s3"
    by (simp add: first_piece_def R_def)
  have "split_once ''passed;'' [] (s1 @ ''passed;'' @ s2) = Some (s1, s2)" using n1 by (subst split_once_skip) simp_all
  moreover have "split_once ''passed;'' [] s2 = None" using n2 by (intro split_once_without [of "CHR ''p''"]) simp_all
  ultimately have p2: "second_piece ''passed;'' (s1 @ ''passed;'' @ s2) = Some s2" by (simp only: second_piece_def option.case prod.case)
  have "split_once ''failed;'' [] ((s1 @ ''passed;'' @ s2) @ ''failed;'' @ s3) = Some (s1 @ ''passed;'' @ s2, s3)"
    using n1 n2 by (subst split_once_skip) simp_all
  moreover have "split_once ''failed;'' [] s3 = None" using n3 by (intro split_once_without [of "CHR ''f''"]) simp_all
  ultimately have p3: "second_piece ''failed;'' ((s1 @ ''passed;'' @ s2) @ ''failed;'' @ s3) = Some s3"
    by (simp only: second_piece_def option.case prod.case)
  have sp: "is_space (CHR '' '')" by (simp add: is_space_def)
  have w: "first_word ('' '' @ nat_text k @ '' '') = Some (nat_text k)" for k
    using number_word [of k] by (simp add: first_word_def sp space_words_word)
  have "\<forall>x \<in> set v. \<not> is_space x" "v \<noteq> []" using assms(4) by (auto simp: is_space_def)
  then have "last_word s1 = Some (nat_text p)"
    using number_word [of p] by (simp add: last_word_def s1_def sp space_words_word)
  moreover have "first_word s2 = Some (nat_text f)" "first_word s3 = Some (nat_text i)"
    by (simp_all only: s2_def s3_def w)
  ultimately show ?thesis
    unfolding line parse_test_line_def piece option.case Let_def R passed failed p2 ignored p3 [simplified append_assoc] bind.bind_lunit
    by (simp only: count_number [OF assms(1)] count_number [OF assms(2)] count_number [OF assms(3)])
qed

section \<open>The health report\<close>

text \<open>
  The health report of \<^verbatim>\<open>crates/host/src/bin/daemon.rs\<close>, from four commands of \<^verbatim>\<open>cargo\<close>, and the state that
  \<^verbatim>\<open>crates/host/src/bin/awaken.rs\<close> prints of a cycle. The commands, the hash and the clock are arguments. The text parsers are
  the same code as in \<^verbatim>\<open>self_awareness.rs\<close>.
\<close>

section \<open>The report\<close>

text \<open>The standard output of a command is dropped.\<close>

definition daemon_run_cmd :: "cargo_outcome \<Rightarrow> bool \<times> string" where
  "daemon_run_cmd out =
     (case out of Ran success stdout stderr \<Rightarrow> (success, stderr) | NotRun e \<Rightarrow> (False, ''exec error: '' @ e))"

definition daemon_count_warnings :: "string \<Rightarrow> nat" where
  "daemon_count_warnings output = count_warnings output"

definition daemon_parse_test_results :: "string \<Rightarrow> nat \<times> nat \<times> nat" where
  "daemon_parse_test_results output = parse_test_results output"

definition daemon_cargo_path :: "string option \<Rightarrow> string" where
  "daemon_cargo_path userprofile =
     (case userprofile of Some h \<Rightarrow> h | None \<Rightarrow> []) @ CHR 0x5C # ''.cargo'' @ CHR 0x5C # ''bin'' @ CHR 0x5C # ''cargo.exe''"

record daemon_health =
  dh_build_ok :: bool
  dh_build_warnings :: nat
  dh_tests :: "nat \<times> nat \<times> nat"
  dh_clippy_ok :: bool
  dh_clippy_warnings :: nat
  dh_fmt_ok :: bool

definition daemon_observe :: "cargo_outcome \<Rightarrow> cargo_outcome \<Rightarrow> cargo_outcome \<Rightarrow> cargo_outcome \<Rightarrow> daemon_health" where
  "daemon_observe build test clippy fmt =
     (let (build_ok, build_err) = daemon_run_cmd build; (_, test_err) = daemon_run_cmd test;
          (clippy_ok, clippy_err) = daemon_run_cmd clippy; (fmt_ok, _) = daemon_run_cmd fmt
      in \<lparr>dh_build_ok = build_ok, dh_build_warnings = daemon_count_warnings build_err,
          dh_tests = daemon_parse_test_results test_err, dh_clippy_ok = clippy_ok,
          dh_clippy_warnings = daemon_count_warnings clippy_err, dh_fmt_ok = fmt_ok\<rparr>)"

definition daemon_content :: "daemon_health \<Rightarrow> string" where
  "daemon_content d =
     bool_text (dh_build_ok d) @ '':'' @ nat_text (dh_build_warnings d) @ '':'' @ nat_text (fst (dh_tests d)) @ '':'' @
     nat_text (fst (snd (dh_tests d))) @ '':'' @ bool_text (dh_clippy_ok d) @ '':'' @ nat_text (dh_clippy_warnings d) @ '':'' @
     bool_text (dh_fmt_ok d)"

definition daemon_healthy :: "daemon_health \<Rightarrow> bool" where
  "daemon_healthy d \<longleftrightarrow> dh_build_ok d \<and> fst (snd (dh_tests d)) = 0 \<and> dh_clippy_ok d \<and> dh_fmt_ok d"

definition report_line :: "string \<Rightarrow> string \<Rightarrow> string" where
  "report_line key val = ''  '' @ [CHR 0x22] @ key @ [CHR 0x22] @ '': '' @ val @ '','' @ [CHR 0x0A]"

definition report_text :: "string \<Rightarrow> string" where
  "report_text t = [CHR 0x22] @ t @ [CHR 0x22]"

definition daemon_report :: "(string \<Rightarrow> string) \<Rightarrow> u64 \<Rightarrow> string \<Rightarrow> daemon_health \<Rightarrow> string" where
  "daemon_report hash now at_iso d =
     ''{'' @ [CHR 0x0A] @
     report_line ''timestamp'' (nat_text (unat now)) @ report_line ''timestamp_iso'' (report_text at_iso) @
     report_line ''project'' (report_text ''nexoia'') @ report_line ''build_ok'' (bool_text (dh_build_ok d)) @
     report_line ''build_warnings'' (nat_text (dh_build_warnings d)) @
     report_line ''tests_passed'' (nat_text (fst (dh_tests d))) @
     report_line ''tests_failed'' (nat_text (fst (snd (dh_tests d)))) @
     report_line ''tests_ignored'' (nat_text (snd (snd (dh_tests d)))) @
     report_line ''clippy_ok'' (bool_text (dh_clippy_ok d)) @
     report_line ''clippy_warnings'' (nat_text (dh_clippy_warnings d)) @ report_line ''fmt_ok'' (bool_text (dh_fmt_ok d)) @
     report_line ''healthy'' (bool_text (daemon_healthy d)) @
     ''  '' @ report_text ''overall_hash'' @ '': '' @ report_text (hash (daemon_content d)) @ [CHR 0x0A] @ ''}''"

section \<open>The state of a cycle\<close>

definition cycle_status :: "rat \<Rightarrow> string" where
  "cycle_status score = (if f64_round (7 / 10) < score then ''SAUDAVEL'' else if f64_round (3 / 10) < score then ''ATENCAO'' else ''Critico'')"

section \<open>Property\<close>

lemma no_results_no_counts:
  assumes "\<forall>l \<in> set (text_lines [] s). parse_test_line l = (0, 0, 0)"
  shows "parse_test_results s = (0, 0, 0)"
proof -
  have "foldl (\<lambda>n line. add_counts n (parse_test_line line)) (0, 0, 0) ls = (0, 0, 0)"
    if "\<forall>l \<in> set ls. parse_test_line l = (0, 0, 0)" for ls
    using that by (induction ls) (simp_all add: add_counts_def)
  then show ?thesis using assms by (simp add: parse_test_results_def)
qed

text \<open>
  The verdict of the daemon does not depend on the tests: neither the status of \<^verbatim>\<open>cargo test\<close> nor anything it prints on its
  standard output, where the harness reports its results, changes a byte of the report; with no result line on the error
  stream a project that builds, is formatted and passes Clippy is healthy however many tests fail.
\<close>

theorem daemon_ignores_tests:
  "daemon_report hash now at_iso (daemon_observe build (Ran ok out err) clippy fmt) =
     daemon_report hash now at_iso (daemon_observe build (Ran ok' out' err) clippy fmt) \<and>
   ((\<exists>l \<in> set (text_lines [] err). parse_test_line l \<noteq> (0, 0, 0)) \<or>
    (daemon_healthy (daemon_observe build (Ran ok out err) clippy fmt) \<longleftrightarrow>
       fst (daemon_run_cmd build) \<and> fst (daemon_run_cmd clippy) \<and> fst (daemon_run_cmd fmt)))"
proof
  show "daemon_report hash now at_iso (daemon_observe build (Ran ok out err) clippy fmt) =
     daemon_report hash now at_iso (daemon_observe build (Ran ok' out' err) clippy fmt)"
    by (simp add: daemon_observe_def daemon_run_cmd_def)
  show "(\<exists>l \<in> set (text_lines [] err). parse_test_line l \<noteq> (0, 0, 0)) \<or>
    (daemon_healthy (daemon_observe build (Ran ok out err) clippy fmt) \<longleftrightarrow>
       fst (daemon_run_cmd build) \<and> fst (daemon_run_cmd clippy) \<and> fst (daemon_run_cmd fmt))"
  proof (cases "\<forall>l \<in> set (text_lines [] err). parse_test_line l = (0, 0, 0)")
    case True
    then show ?thesis using no_results_no_counts [OF True]
      by (simp add: daemon_observe_def daemon_healthy_def daemon_parse_test_results_def daemon_run_cmd_def split: prod.splits)
  qed blast
qed

end
