(* ===== verification/Dictionary.thy ===== *)
theory Dictionary
  imports Nex_Learning "HOL-Library.Sublist" "HOL-Library.Multiset" "HOL-Library.Char_ord" "HOL-Library.List_Lexorder"
begin

text \<open>
  The knowledge base of \<^verbatim>\<open>crates/host/src/nex/dictionary.rs\<close>: entries with a level of certainty, read
  from every file with the extension \<^verbatim>\<open>jsonl\<close> of a directory and saved in one file per category. JSON and hashing are
  parameters; a directory is an association list from names to texts, in the order in which it is listed. Letters beyond ASCII
  have no lower case here.
\<close>

section \<open>Entries\<close>

datatype knowledge_level = Hypothese | Tested | Verified

fun level_rank :: "knowledge_level \<Rightarrow> nat" where
  "level_rank Hypothese = 1"
| "level_rank Tested = 2"
| "level_rank Verified = 3"

lemma level_rank_inj: "level_rank a = level_rank b \<longleftrightarrow> a = b"
  by (cases a; cases b) simp_all

instantiation knowledge_level :: linorder
begin

definition less_eq_knowledge_level :: "knowledge_level \<Rightarrow> knowledge_level \<Rightarrow> bool" where
  "less_eq_knowledge_level a b \<longleftrightarrow> level_rank a \<le> level_rank b"

definition less_knowledge_level :: "knowledge_level \<Rightarrow> knowledge_level \<Rightarrow> bool" where
  "less_knowledge_level a b \<longleftrightarrow> level_rank a < level_rank b"

instance
  by standard (auto simp: less_eq_knowledge_level_def less_knowledge_level_def level_rank_inj)

end

lemma level_top [simp]: "(l :: knowledge_level) \<le> Verified"
  by (cases l) (simp_all add: less_eq_knowledge_level_def)

lemma level_top_eq [simp]: "Verified \<le> l \<longleftrightarrow> l = Verified"
  by (cases l) (simp_all add: less_eq_knowledge_level_def)

definition level_text :: "knowledge_level \<Rightarrow> string" where
  "level_text l = (case l of Hypothese \<Rightarrow> ''hipotese'' | Tested \<Rightarrow> ''testado'' | Verified \<Rightarrow> ''verificado'')"

datatype entry_category = Rust | Nex | Project | Learned

definition category_text :: "entry_category \<Rightarrow> string" where
  "category_text c = (case c of Rust \<Rightarrow> ''rust'' | Nex \<Rightarrow> ''nex'' | Project \<Rightarrow> ''project'' | Learned \<Rightarrow> ''learned'')"

record dictionary_entry =
  de_id :: string
  de_category :: entry_category
  de_level :: knowledge_level
  de_pattern :: string
  de_description :: string
  de_suggestion :: string
  de_confidence :: rat
  de_miri_passed :: bool
  de_occurrences :: nat

datatype dictionary_source = FromFile string | FromInternet | FromLearning

record dictionary =
  dc_entries :: "dictionary_entry list"
  dc_sources :: "(string \<times> dictionary_source) list"

definition dictionary_empty :: dictionary where
  "dictionary_empty = \<lparr>dc_entries = [], dc_sources = []\<rparr>"

section \<open>Reading\<close>

type_synonym knowledge_dir = "(string \<times> string) list"

definition jsonl_file :: "string \<Rightarrow> bool" where
  "jsonl_file f \<longleftrightarrow> suffix ''.jsonl'' f \<and> 6 < length f"

definition file_entries :: "(string \<Rightarrow> dictionary_entry option) \<Rightarrow> string \<Rightarrow> dictionary_entry list" where
  "file_entries from_json text =
     List.map_filter (\<lambda>l. if trim l = [] then None else from_json (trim l)) (text_lines [] text)"

definition jsonl_entries :: "(string \<Rightarrow> dictionary_entry option) \<Rightarrow> (string \<Rightarrow> bool) \<Rightarrow> string \<times> string \<Rightarrow> dictionary_entry list" where
  "jsonl_entries from_json readable f =
     (if jsonl_file (fst f) \<and> readable (fst f) then file_entries from_json (snd f) else [])"

definition note_source :: "string \<Rightarrow> dictionary_entry \<Rightarrow> (string \<times> dictionary_source) list \<Rightarrow> (string \<times> dictionary_source) list" where
  "note_source name e = AList.update (de_id e) (FromFile (take (length name - 6) name))"

definition dictionary_load :: "(string \<Rightarrow> dictionary_entry option) \<Rightarrow> (string \<Rightarrow> bool) \<Rightarrow> knowledge_dir \<Rightarrow> dictionary" where
  "dictionary_load from_json readable D =
     \<lparr>dc_entries = concat (map (jsonl_entries from_json readable) D),
      dc_sources = fold (\<lambda>f. fold (note_source (fst f)) (jsonl_entries from_json readable f)) D []\<rparr>"

section \<open>Searching\<close>

definition lower :: "string \<Rightarrow> string" where
  "lower s = map lower_char s"

definition entry_matches :: "string \<Rightarrow> dictionary_entry \<Rightarrow> bool" where
  "entry_matches query e \<longleftrightarrow>
     sublist (lower query) (lower (de_pattern e)) \<or> sublist (lower query) (lower (de_description e)) \<or>
     sublist (lower query) (lower (de_suggestion e))"

text \<open>
  The stable sort by falling level, then by falling confidence; a stable sort by the second key followed by one
  by the first is that sort.
\<close>

definition by_certainty :: "dictionary_entry list \<Rightarrow> dictionary_entry list" where
  "by_certainty es = sort_key (\<lambda>e. 3 - level_rank (de_level e)) (sort_key (\<lambda>e. - de_confidence e) es)"

definition dictionary_lookup :: "string \<Rightarrow> dictionary \<Rightarrow> dictionary_entry list" where
  "dictionary_lookup query d = by_certainty (filter (entry_matches query) (dc_entries d))"

definition lookup_clippy :: "string \<Rightarrow> dictionary \<Rightarrow> dictionary_entry list" where
  "lookup_clippy lint d =
     filter (\<lambda>e. de_category e = Rust \<and> (sublist (lower lint) (lower (de_pattern e)) \<or> sublist (lower lint) (lower (de_id e)))) (dc_entries d)"

definition lookup_verified :: "string \<Rightarrow> dictionary \<Rightarrow> dictionary_entry list" where
  "lookup_verified query d = filter (\<lambda>e. Verified \<le> de_level e) (dictionary_lookup query d)"

section \<open>Changing\<close>

text \<open>The first entry with an identifier, changed in place.\<close>

fun update_entry :: "string \<Rightarrow> (dictionary_entry \<Rightarrow> dictionary_entry) \<Rightarrow> dictionary_entry list \<Rightarrow> dictionary_entry list option" where
  "update_entry i f [] = None"
| "update_entry i f (e # es) = (if de_id e = i then Some (f e # es) else map_option (Cons e) (update_entry i f es))"

definition relearn :: "dictionary_entry \<Rightarrow> dictionary_entry \<Rightarrow> dictionary_entry" where
  "relearn new old =
     (let e = (if de_level old < de_level new
               then old\<lparr>de_level := de_level new, de_confidence := de_confidence new, de_miri_passed := de_miri_passed new\<rparr>
               else old)
      in e\<lparr>de_occurrences := de_occurrences e + 1\<rparr>)"

definition learn :: "dictionary_entry \<Rightarrow> dictionary \<Rightarrow> dictionary" where
  "learn e d =
     (case update_entry (de_id e) (relearn e) (dc_entries d) of
        Some es \<Rightarrow> d\<lparr>dc_entries := es\<rparr>
      | None \<Rightarrow> d\<lparr>dc_entries := dc_entries d @ [e]\<rparr>)"

definition promote :: "string \<Rightarrow> knowledge_level \<Rightarrow> dictionary \<Rightarrow> dictionary" where
  "promote i l d =
     (case update_entry i (\<lambda>e. e\<lparr>de_level := l, de_miri_passed := (l = Verified),
             de_confidence := (if l = Verified then 1 else de_confidence e)\<rparr>) (dc_entries d) of
        Some es \<Rightarrow> d\<lparr>dc_entries := es\<rparr>
      | None \<Rightarrow> d)"

definition touch :: "string \<Rightarrow> dictionary \<Rightarrow> dictionary" where
  "touch i d =
     (case update_entry i (\<lambda>e. e\<lparr>de_occurrences := de_occurrences e + 1,
             de_confidence := min (f64_add (de_confidence e) (f64_round (5 / 100))) 1\<rparr>) (dc_entries d) of
        Some es \<Rightarrow> d\<lparr>dc_entries := es\<rparr>
      | None \<Rightarrow> d)"

section \<open>Saving\<close>

definition category_file :: "entry_category \<Rightarrow> string" where
  "category_file c = category_text c @ ''.jsonl''"

definition category_lines :: "(dictionary_entry \<Rightarrow> string) \<Rightarrow> dictionary_entry list \<Rightarrow> string" where
  "category_lines to_json es = concat (map (\<lambda>e. to_json e @ [CHR 0x0A]) es)"

definition in_category :: "entry_category \<Rightarrow> dictionary \<Rightarrow> dictionary_entry list" where
  "in_category c d = filter (\<lambda>e. de_category e = c) (dc_entries d)"

fun write_categories ::
    "(dictionary_entry \<Rightarrow> string) \<Rightarrow> (string \<Rightarrow> bool) \<Rightarrow> dictionary \<Rightarrow> entry_category list \<Rightarrow> knowledge_dir \<Rightarrow> bool \<times> knowledge_dir" where
  "write_categories to_json writes d [] D = (True, D)"
| "write_categories to_json writes d (c # cs) D =
     (if writes (category_file c)
      then write_categories to_json writes d cs (AList.update (category_file c) (category_lines to_json (in_category c d)) D)
      else (False, D))"

text \<open>
  \<open>order\<close> is the order in which the hash map of categories is iterated; only those that have an entry are in it.
\<close>

definition dictionary_save ::
    "(dictionary_entry \<Rightarrow> string) \<Rightarrow> bool \<Rightarrow> (string \<Rightarrow> bool) \<Rightarrow> entry_category list \<Rightarrow> dictionary \<Rightarrow> knowledge_dir \<Rightarrow> bool \<times> knowledge_dir" where
  "dictionary_save to_json directory writes order d D =
     (if directory then write_categories to_json writes d (filter (\<lambda>c. in_category c d \<noteq> []) order) D else (False, D))"

definition dictionary_hash :: "(string \<Rightarrow> string) \<Rightarrow> dictionary \<Rightarrow> string" where
  "dictionary_hash hash d =
     hash (concat (map (\<lambda>e. de_id e @ '':'' @ de_pattern e @ [CHR 0x0A]) (sort_key de_id (dc_entries d))))"

record dictionary_stats =
  ds_total :: nat
  ds_verified :: nat
  ds_tested :: nat
  ds_hypothetical :: nat
  ds_rust :: nat
  ds_nex :: nat
  ds_project :: nat
  ds_learned :: nat

definition dictionary_statistics :: "dictionary \<Rightarrow> dictionary_stats" where
  "dictionary_statistics d =
     (let level = (\<lambda>l. length (filter (\<lambda>e. de_level e = l) (dc_entries d))); category = (\<lambda>c. length (in_category c d))
      in \<lparr>ds_total = length (dc_entries d), ds_verified = level Verified, ds_tested = level Tested,
          ds_hypothetical = level Hypothese, ds_rust = category Rust, ds_nex = category Nex,
          ds_project = category Project, ds_learned = category Learned\<rparr>)"

definition stats_text :: "dictionary_stats \<Rightarrow> string" where
  "stats_text s =
     ''total='' @ nat_text (ds_total s) @ '', verificados='' @ nat_text (ds_verified s) @ '', testados='' @ nat_text (ds_tested s) @
     '', hipoteses='' @ nat_text (ds_hypothetical s) @ '', rust='' @ nat_text (ds_rust s) @ '', nex='' @ nat_text (ds_nex s) @
     '', project='' @ nat_text (ds_project s) @ '', learned='' @ nat_text (ds_learned s)"

end
