(* ===== verification/Behavior.thy ===== *)
theory Behavior
  imports Dictionary Self_Awareness Nex_Internet
begin

text \<open>
  The behaviour engine of \<^verbatim>\<open>crates/host/src/nex/behavior_engine.rs\<close>: a cycle observes the project, plans
  actions, registers what became of them, runs the feedback loop and learns. Texts are their UTF-8 bytes. JSON, hashing
  and the printing of numbers are parameters; the clock, the command and the writes are inputs of a cycle.
\<close>

section \<open>State\<close>

record regra_estrategia =
  rg_id :: string
  rg_condicao :: string
  rg_acao :: string
  rg_prioridade :: nat
  rg_ativa :: bool
  rg_score :: rat
  rg_criada_em :: u64

record knowledge =
  kn_regras :: "regra_estrategia list"
  kn_metricas :: "(string \<times> rat) list"
  kn_ultimo_hash :: string
  kn_iteracoes :: u64

record acao_planejada =
  ap_tipo :: string
  ap_parametro :: string
  ap_esperado :: string

record plano =
  pl_acoes :: "acao_planejada list"
  pl_justificativa :: string
  pl_hash :: string

record execucao_resultado =
  ex_plano_hash :: string
  ex_executadas :: nat
  ex_bem_sucedidas :: nat
  ex_score :: rat
  ex_conhecimento :: knowledge
  ex_hash :: string

record behavior_library =
  bl_hash :: "string \<Rightarrow> string"
  show_f64 :: "rat \<Rightarrow> string"
  show_f64_2 :: "rat \<Rightarrow> string"
  show_f64_4 :: "rat \<Rightarrow> string"
  bl_fetch :: fetch_library

record behavior_engine =
  be_knowledge :: knowledge
  be_feedback :: feedback_loop
  be_dictionary :: dictionary
  be_cache :: cache_dir

definition regra_inicial :: "string \<Rightarrow> string \<Rightarrow> string \<Rightarrow> nat \<Rightarrow> regra_estrategia" where
  "regra_inicial i c a p =
     \<lparr>rg_id = i, rg_condicao = c, rg_acao = a, rg_prioridade = p, rg_ativa = True, rg_score = 1, rg_criada_em = 0\<rparr>"

definition conhecimento_inicial :: knowledge where
  "conhecimento_inicial =
     \<lparr>kn_regras =
        [regra_inicial ''R001'' ''build_ok == true AND warnings == 0'' ''manter_estado'' 10,
         regra_inicial ''R002'' ''tests_failed > 0'' ''investigar_falha'' 9,
         regra_inicial ''R003'' ''warnings > 0'' ''corrigir_warning'' 7],
      kn_metricas = [], kn_ultimo_hash = [], kn_iteracoes = 0\<rparr>"

definition carregar_knowledge :: "(string \<Rightarrow> knowledge option) \<Rightarrow> string option \<Rightarrow> knowledge" where
  "carregar_knowledge from_json file_text =
     (case Option.bind file_text from_json of Some k \<Rightarrow> k | None \<Rightarrow> conhecimento_inicial)"

definition behavior_new ::
    "(string \<Rightarrow> knowledge option) \<Rightarrow> (string \<Rightarrow> dictionary_entry option) \<Rightarrow> (string \<Rightarrow> bool) \<Rightarrow> string option \<Rightarrow> knowledge_dir \<Rightarrow>
       cache_dir \<Rightarrow> behavior_engine" where
  "behavior_new from_json entry_json readable file_text D C =
     \<lparr>be_knowledge = carregar_knowledge from_json file_text, be_feedback = feedback_new,
      be_dictionary = dictionary_load entry_json readable D, be_cache = C\<rparr>"

section \<open>Planning\<close>

definition join_with :: "string \<Rightarrow> string list \<Rightarrow> string" where
  "join_with sep xs = concat (case xs of [] \<Rightarrow> [] | x # xs \<Rightarrow> x # map (\<lambda>y. sep @ y) xs)"

definition useful_line :: "string \<Rightarrow> string" where
  "useful_line content =
     join_with '' '' (take 3 (filter (\<lambda>l. \<not> prefix ''<'' l \<and> l \<noteq> []) (text_lines [] content)))"

fun first_useful :: "behavior_library \<Rightarrow> cache_dir \<Rightarrow> string list \<Rightarrow> string" where
  "first_useful B C [] = []"
| "first_useful B C (url # urls) =
     (case fetch_offline (bl_fetch B) C url of
        Inl e \<Rightarrow> first_useful B C urls
      | Inr r \<Rightarrow> let l = useful_line (ft_content r)
          in if l \<noteq> [] \<and> 10 < length l then l else first_useful B C urls)"

definition buscar_na_internet :: "behavior_library \<Rightarrow> cache_dir \<Rightarrow> string \<Rightarrow> string" where
  "buscar_na_internet B C query =
     first_useful B C [''https://doc.rust-lang.org/std/index.html?search='' @ query,
       ''https://docs.rs/reqwest/latest/reqwest/?search='' @ query]"

definition dica_miri :: "behavior_library \<Rightarrow> behavior_engine \<Rightarrow> string \<Rightarrow> string" where
  "dica_miri B M e =
     (case dictionary_lookup e (be_dictionary M) of
        d # ds \<Rightarrow> e @ ('' '' @ [CHR 0xE2, CHR 0x86, CHR 0x92] @ '' '') @ de_suggestion d
      | [] \<Rightarrow> let i = buscar_na_internet B (be_cache M) e
          in if i \<noteq> [] then e @ ('' '' @ [CHR 0xE2, CHR 0x86, CHR 0x92] @ '' [internet] '') @ i else e)"

definition planejar_miri :: "behavior_library \<Rightarrow> behavior_engine \<Rightarrow> observed_state \<Rightarrow> acao_planejada list" where
  "planejar_miri B M ob =
     (if ob_miri_ok ob then []
      else let dicas = map (dica_miri B M) (ob_miri_errors ob)
        in [\<lparr>ap_tipo = ''corrigir_seguranca'', ap_parametro = ''miri'',
             ap_esperado = (if dicas = [] then (''Miri detectou erro de seguran'' @ [CHR 0xC3, CHR 0xA7] @ ''a '' @ [CHR 0xE2, CHR 0x80, CHR 0x94] @ '' investigar'')
               else ''Miri: '' @ join_with ''; '' dicas @ ('' '' @ [CHR 0xE2, CHR 0x80, CHR 0x94] @ '' dicas: '') @ nat_text (length dicas))\<rparr>])"

definition planejar_build :: "behavior_library \<Rightarrow> behavior_engine \<Rightarrow> observed_state \<Rightarrow> acao_planejada list" where
  "planejar_build B M ob =
     (if ob_build_ok ob then []
      else [\<lparr>ap_tipo = ''corrigir_build'', ap_parametro = ''build'',
        ap_esperado = (case dictionary_lookup ''build'' (be_dictionary M) of
            d # ds \<Rightarrow> (''build falhou '' @ [CHR 0xE2, CHR 0x80, CHR 0x94] @ '' dica: '') @ de_suggestion d
          | [] \<Rightarrow> let i = buscar_na_internet B (be_cache M) ''rust build error''
              in if i \<noteq> [] then (''build falhou '' @ [CHR 0xE2, CHR 0x80, CHR 0x94] @ '' [internet] '') @ i else (''build falhou '' @ [CHR 0xE2, CHR 0x80, CHR 0x94] @ '' corrigir imediatamente''))\<rparr>])"

definition planejar_testes :: "behavior_engine \<Rightarrow> observed_state \<Rightarrow> acao_planejada list" where
  "planejar_testes M ob =
     (if 0 < ob_tests_failed ob
      then [\<lparr>ap_tipo = ''corrigir_testes'', ap_parametro = ''tests'',
        ap_esperado = (case dictionary_lookup ''test'' (be_dictionary M) of
            d # ds \<Rightarrow> nat_text (ob_tests_failed ob) @ ('' testes falharam '' @ [CHR 0xE2, CHR 0x80, CHR 0x94] @ '' dica: '') @ de_suggestion d
          | [] \<Rightarrow> nat_text (ob_tests_failed ob) @ '' testes falharam'')\<rparr>]
      else [])"

definition planejar_warnings :: "behavior_engine \<Rightarrow> observed_state \<Rightarrow> acao_planejada list" where
  "planejar_warnings M ob =
     (if 0 < ob_build_warnings ob + ob_clippy_warnings ob
      then let dicas = dictionary_lookup ''clippy'' (be_dictionary M)
        in [\<lparr>ap_tipo = ''limpar_warnings'', ap_parametro = ''warnings'',
             ap_esperado =
               (if dicas \<noteq> []
                then nat_text (ob_build_warnings ob + ob_clippy_warnings ob) @ ('' warnings '' @ [CHR 0xE2, CHR 0x80, CHR 0x94] @ '' dicas: '') @
                  join_with ''; '' (map de_suggestion (take 3 dicas))
                else nat_text (ob_build_warnings ob) @ '' warnings (build) + '' @ nat_text (ob_clippy_warnings ob) @
                  '' warnings (clippy)'')\<rparr>]
      else [])"

definition planejar_fmt :: "observed_state \<Rightarrow> acao_planejada list" where
  "planejar_fmt ob =
     (if ob_fmt_ok ob then []
      else [\<lparr>ap_tipo = ''formatar'', ap_parametro = ''fmt'', ap_esperado = ''cargo fmt --check falhou''\<rparr>])"

definition planejar_promocao :: "observed_state \<Rightarrow> acao_planejada list" where
  "planejar_promocao ob =
     (if ob_miri_ok ob \<and> ob_miri_errors ob \<noteq> []
      then [\<lparr>ap_tipo = ''verificar_miri'', ap_parametro = ''miri'',
        ap_esperado = ''Miri passou com '' @ nat_text (length (ob_miri_errors ob)) @ ('' warnings '' @ [CHR 0xE2, CHR 0x80, CHR 0x94] @ '' considerar promoted'')\<rparr>]
      else [])"

definition MONITORAR :: acao_planejada where
  "MONITORAR =
     \<lparr>ap_tipo = ''monitorar'', ap_parametro = ''sistema'', ap_esperado = (''sistema saud'' @ [CHR 0xC3, CHR 0xA1] @ ''vel '' @ [CHR 0xE2, CHR 0x80, CHR 0x94] @ '' continuar observando'')\<rparr>"

definition planejar_historico :: "iteration \<Rightarrow> acao_planejada list" where
  "planejar_historico it =
     (case resultado it of
        Falha erro \<Rightarrow>
          [\<lparr>ap_tipo = ''investigar'', ap_parametro = ''iter_'' @ nat_text (unat (it_id it)), ap_esperado = ''diagnosticar causa: '' @ erro\<rparr>]
      | NenhumaAcao motivo \<Rightarrow>
          if sublist (''padr'' @ [CHR 0xC3, CHR 0xA3] @ ''o'') motivo
          then [\<lparr>ap_tipo = ''otimizar'', ap_parametro = ''iter_'' @ nat_text (unat (it_id it)), ap_esperado = (''explorar padr'' @ [CHR 0xC3, CHR 0xA3] @ ''o detectado'')\<rparr>]
          else []
      | Sucesso m \<Rightarrow> [])"

definition recentes :: "iteration list \<Rightarrow> iteration list" where
  "recentes hist = take 10 (rev hist)"

definition planejar_estado :: "behavior_library \<Rightarrow> behavior_engine \<Rightarrow> observed_state \<Rightarrow> acao_planejada list" where
  "planejar_estado B M ob =
     (let acoes = planejar_miri B M ob @ planejar_build B M ob @ planejar_testes M ob @ planejar_warnings M ob @
        planejar_fmt ob @ planejar_promocao ob
      in if acoes = [] then [MONITORAR] else acoes)"

definition ok_text :: "bool \<Rightarrow> string" where
  "ok_text b = (if b then ''OK'' else ''FALHOU'')"

definition justificar :: "behavior_engine \<Rightarrow> observed_state \<Rightarrow> nat \<Rightarrow> nat \<Rightarrow> string" where
  "justificar M ob iters acoes =
     ''Estado: build='' @ ok_text (ob_build_ok ob) @ '', tests='' @ nat_text (ob_tests_passed ob) @ ''/'' @ nat_text (ob_tests_failed ob) @
     '', warnings='' @ nat_text (ob_build_warnings ob + ob_clippy_warnings ob) @ '', clippy='' @ ok_text (ob_clippy_ok ob) @
     '', fmt='' @ ok_text (ob_fmt_ok ob) @ '', miri='' @ ok_text (ob_miri_ok ob) @ ('' | Dicion'' @ [CHR 0xC3, CHR 0xA1] @ ''rio: '') @
     nat_text (length (dc_entries (be_dictionary M))) @ '' entradas | '' @ nat_text iters @ ('' itera'' @ [CHR 0xC3, CHR 0xA7, CHR 0xC3, CHR 0xB5] @ ''es '' @ [CHR 0xE2, CHR 0x86, CHR 0x92] @ '' '') @ nat_text acoes @
     ('' a'' @ [CHR 0xC3, CHR 0xA7, CHR 0xC3, CHR 0xB5] @ ''es'')"

definition pensar :: "learning_library \<Rightarrow> behavior_library \<Rightarrow> behavior_engine \<Rightarrow> iteration_log \<Rightarrow> observed_state \<Rightarrow> plano" where
  "pensar P B M L ob =
     (let rs = recentes (todas P L);
          acoes = planejar_estado B M ob @ concat (map planejar_historico rs);
          acoes = (if acoes = [] then [MONITORAR] else acoes);
          j = justificar M ob (length rs) (length acoes)
      in \<lparr>pl_acoes = acoes, pl_justificativa = j,
          pl_hash = bl_hash B (j @ '':'' @ nat_text (length acoes) @ '':'' @ ob_health_hash ob)\<rparr>)"

section \<open>Acting\<close>

definition executar_acao :: "observed_state \<Rightarrow> acao_planejada \<Rightarrow> outcome" where
  "executar_acao ob a =
     (let t = ap_tipo a; total = ob_build_warnings ob + ob_clippy_warnings ob in
      if t = ''corrigir_build'' then
        (if ob_build_ok ob then Sucesso (''Build j'' @ [CHR 0xC3, CHR 0xA1] @ '' est'' @ [CHR 0xC3, CHR 0xA1] @ '' OK'') else Falha (''Build falhou '' @ [CHR 0xE2, CHR 0x80, CHR 0x94] @ '' precisa de corre'' @ [CHR 0xC3, CHR 0xA7, CHR 0xC3, CHR 0xA3] @ ''o manual''))
      else if t = ''corrigir_testes'' then
        (if ob_tests_failed ob = 0 then Sucesso ''Todos os testes passando''
         else Falha (nat_text (ob_tests_failed ob) @ '' testes falhando''))
      else if t = ''limpar_warnings'' then
        (if total = 0 then Sucesso ''Zero warnings'' else NenhumaAcao (nat_text total @ '' warnings restantes''))
      else if t = ''formatar'' then
        (if ob_fmt_ok ob then Sucesso (''Formata'' @ [CHR 0xC3, CHR 0xA7, CHR 0xC3, CHR 0xA3] @ ''o OK'') else Falha ''cargo fmt precisa rodar'')
      else if t = ''investigar'' then Sucesso ((''Investiga'' @ [CHR 0xC3, CHR 0xA7, CHR 0xC3, CHR 0xA3] @ ''o de '') @ ap_parametro a @ ('' conclu'' @ [CHR 0xC3, CHR 0xAD] @ ''da''))
      else if t = ''otimizar'' then Sucesso ((''Otimiza'' @ [CHR 0xC3, CHR 0xA7, CHR 0xC3, CHR 0xA3] @ ''o de '') @ ap_parametro a @ '' planejada'')
      else if t = ''monitorar'' then NenhumaAcao (''Monitoramento cont'' @ [CHR 0xC3, CHR 0xAD] @ ''nuo'')
      else NenhumaAcao ((''A'' @ [CHR 0xC3, CHR 0xA7, CHR 0xC3, CHR 0xA3] @ ''o desconhecida: '') @ t))"

text \<open>The actions are registered one after the other; the inputs give the clock and the writes of each.\<close>

fun registrar_acoes ::
    "learning_library \<Rightarrow> (nat \<Rightarrow> register_input) \<Rightarrow> observed_state \<Rightarrow> acao_planejada list \<Rightarrow> iteration_log \<Rightarrow> iteration_log" where
  "registrar_acoes P inp ob [] L = L"
| "registrar_acoes P inp ob (a # as) L =
     registrar_acoes P (inp \<circ> Suc) ob as
       (snd (registrar P (inp 0) L (to_system_state ob) \<lparr>tipo = ap_tipo a, descricao = ap_esperado a, arquivos = []\<rparr>
          (executar_acao ob a) None None))"

definition agir ::
    "learning_library \<Rightarrow> behavior_library \<Rightarrow> (nat \<Rightarrow> register_input) \<Rightarrow> behavior_engine \<Rightarrow> plano \<Rightarrow> iteration_log \<Rightarrow> observed_state \<Rightarrow>
       execucao_resultado \<times> iteration_log" where
  "agir P B inp M p L ob =
     (let n = length (pl_acoes p); k = length (filter (\<lambda>a. is_sucesso (executar_acao ob a)) (pl_acoes p));
          score = (if 0 < n then f64_div (f64_of_nat k) (f64_of_nat n) else 1)
      in (\<lparr>ex_plano_hash = pl_hash p, ex_executadas = n, ex_bem_sucedidas = k, ex_score = score, ex_conhecimento = be_knowledge M,
           ex_hash = bl_hash B (nat_text n @ '':'' @ nat_text k @ '':'' @ show_f64 B score @ '':'' @ ob_health_hash ob)\<rparr>,
          registrar_acoes P inp ob (pl_acoes p) L))"

section \<open>Learning\<close>

definition aprendido :: "behavior_library \<Rightarrow> u64 \<Rightarrow> execucao_resultado \<Rightarrow> feedback_result \<Rightarrow> dictionary_entry list" where
  "aprendido B n ex fb =
     (if f64_round (7 / 10) < fr_score fb \<and> fr_motivo fb \<noteq> []
      then [\<lparr>de_id = ''learned_'' @ nat_text (unat n), de_category = Learned, de_level = Verified, de_pattern = fr_motivo fb,
             de_description = (''A'' @ [CHR 0xC3, CHR 0xA7, CHR 0xC3, CHR 0xA3] @ ''o bem-sucedida (score='') @ show_f64_2 B (fr_score fb) @ '', '' @ nat_text (ex_bem_sucedidas ex) @
               ''/'' @ nat_text (ex_executadas ex) @ '' OK)'',
             de_suggestion = fr_motivo fb, de_confidence = fr_score fb, de_miri_passed = True, de_occurrences = 1\<rparr>]
      else [])"

definition padrao_novo :: "behavior_library \<Rightarrow> u64 \<Rightarrow> feedback_result \<Rightarrow> dictionary_entry list" where
  "padrao_novo B n fb =
     (if 0 < fr_padroes fb
      then [\<lparr>de_id = ''pattern_'' @ nat_text (unat n), de_category = Learned, de_level = Hypothese,
             de_pattern = (''padr'' @ [CHR 0xC3, CHR 0xA3] @ ''o detectado na itera'' @ [CHR 0xC3, CHR 0xA7, CHR 0xC3, CHR 0xA3] @ ''o '') @ nat_text (unat n),
             de_description = (''Novo padr'' @ [CHR 0xC3, CHR 0xA3] @ ''o identificado ('') @ nat_text (fr_padroes fb) @ ('' padr'' @ [CHR 0xC3, CHR 0xB5] @ ''es novos, score='') @
               show_f64_2 B (fr_score fb) @ '')'',
             de_suggestion = (''Monitorar e coletar mais evid'' @ [CHR 0xC3, CHR 0xAA] @ ''ncias''), de_confidence = 1 / 2, de_miri_passed = False,
             de_occurrences = 1\<rparr>]
      else [])"

definition estado_aprendido :: "observed_state \<Rightarrow> dictionary_entry list" where
  "estado_aprendido ob =
     (if 0 < ob_tests_passed ob \<and> ob_tests_failed ob = 0
      then [\<lparr>de_id = ''tests_passing'', de_category = Rust, de_level = Verified, de_pattern = ''cargo test passa'',
             de_description = nat_text (ob_tests_passed ob) @ '' testes passando, 0 falhando'',
             de_suggestion = (''Sistema de testes est'' @ [CHR 0xC3, CHR 0xA1] @ ''vel''), de_confidence = 1, de_miri_passed = ob_miri_ok ob,
             de_occurrences = ob_tests_passed ob\<rparr>]
      else []) @
     (if ob_clippy_ok ob \<and> ob_clippy_warnings ob = 0
      then [\<lparr>de_id = ''clippy_clean'', de_category = Rust, de_level = Verified, de_pattern = ''clippy sem warnings'',
             de_description = ''Cargo clippy passa sem warnings'', de_suggestion = (''C'' @ [CHR 0xC3, CHR 0xB3] @ ''digo segue boas pr'' @ [CHR 0xC3, CHR 0xA1] @ ''ticas Rust''),
             de_confidence = 1, de_miri_passed = ob_miri_ok ob, de_occurrences = 1\<rparr>]
      else []) @
     (if ob_miri_ok ob \<and> ob_miri_errors ob = []
      then [\<lparr>de_id = ''miri_verified'', de_category = Rust, de_level = Verified, de_pattern = ''miri formal verification passed'',
             de_description = (''Miri verificou aus'' @ [CHR 0xC3, CHR 0xAA] @ ''ncia de undefined behavior''),
             de_suggestion = (''C'' @ [CHR 0xC3, CHR 0xB3] @ ''digo '' @ [CHR 0xC3, CHR 0xA9] @ '' formalmente seguro (sem UB)''), de_confidence = 1, de_miri_passed = True,
             de_occurrences = 1\<rparr>]
      else [])"

definition erro_aprendido :: "u64 \<Rightarrow> nat \<times> string \<Rightarrow> dictionary_entry" where
  "erro_aprendido n ie =
     \<lparr>de_id = ''miri_error_'' @ nat_text (unat n) @ ''_'' @ nat_text (fst ie), de_category = Rust, de_level = Hypothese,
      de_pattern = snd ie, de_description = ''Miri detectou: '' @ snd ie,
      de_suggestion = ''Investigar e corrigir comportamento indefinido'', de_confidence = f64_round (3 / 10),
      de_miri_passed = False, de_occurrences = 1\<rparr>"

definition erros_aprendidos :: "u64 \<Rightarrow> observed_state \<Rightarrow> dictionary_entry list" where
  "erros_aprendidos n ob =
     (if \<not> ob_miri_ok ob \<and> ob_miri_errors ob \<noteq> [] then map (erro_aprendido n) (enumerate 0 (take 3 (ob_miri_errors ob))) else [])"

definition ajustar_regra :: "rat \<Rightarrow> regra_estrategia \<Rightarrow> regra_estrategia" where
  "ajustar_regra score r =
     (if \<not> rg_ativa r then r
      else if f64_round (7 / 10) < score then r\<lparr>rg_score := min (f64_add (rg_score r) (f64_round (1 / 10))) 1\<rparr>
      else if score < f64_round (3 / 10) then r\<lparr>rg_score := max (f64_sub (rg_score r) (f64_round (1 / 10))) 0\<rparr>
      else r)"

definition aprender :: "behavior_library \<Rightarrow> execucao_resultado \<Rightarrow> feedback_result \<Rightarrow> observed_state \<Rightarrow> behavior_engine \<Rightarrow> behavior_engine" where
  "aprender B ex fb ob M =
     (let k = be_knowledge M; n = kn_iteracoes k + 1;
          d = fold learn (aprendido B n ex fb @ padrao_novo B n fb @ estado_aprendido ob @ erros_aprendidos n ob) (be_dictionary M);
          m = AList.update ''score_atual'' (fr_score fb) (kn_metricas k);
          m = AList.update ''taxa_sucesso''
            (if 0 < ex_executadas ex then f64_div (f64_of_nat (ex_bem_sucedidas ex)) (f64_of_nat (ex_executadas ex)) else 1) m;
          m = AList.update ''padroes_detectados'' (f64_of_nat (fr_padroes fb)) m
      in M\<lparr>be_dictionary := d,
           be_knowledge := k\<lparr>kn_iteracoes := n, kn_ultimo_hash := ex_hash ex, kn_metricas := m,
             kn_regras := map (ajustar_regra (fr_score fb)) (kn_regras k)\<rparr>\<rparr>)"

section \<open>The cycle\<close>

text \<open>The files of the engine: the text of \<^verbatim>\<open>knowledge.json\<close> and the files of the dictionary.\<close>

record behavior_disk =
  bd_knowledge :: "string option"
  bd_entries :: knowledge_dir

record cycle_input =
  ci_now :: u64
  ci_check :: cargo_outcome
  ci_register :: "nat \<Rightarrow> register_input"
  ci_feedback :: register_input
  ci_knowledge_write :: bool
  ci_directory :: bool
  ci_writes :: "string \<Rightarrow> bool"
  ci_order :: "entry_category list"

definition ciclo ::
    "learning_library \<Rightarrow> feedback_texts \<Rightarrow> behavior_library \<Rightarrow> awareness \<Rightarrow> (knowledge \<Rightarrow> string) \<Rightarrow> (dictionary_entry \<Rightarrow> string) \<Rightarrow>
       cycle_input \<Rightarrow> behavior_engine \<Rightarrow> iteration_log \<Rightarrow> behavior_disk \<Rightarrow>
       execucao_resultado \<times> behavior_engine \<times> iteration_log \<times> behavior_disk" where
  "ciclo P X B A to_json entry_json inp M L D =
     (let ob = observe_light A (ci_now inp) (ci_check inp);
          p = pensar P B M L ob;
          (ex, L) = agir P B (ci_register inp) M p L ob;
          (fb, F, L) = executar P X (ci_feedback inp) (be_feedback M) L;
          M = aprender B ex fb ob (M\<lparr>be_feedback := F\<rparr>);
          D = (if ci_knowledge_write inp then D\<lparr>bd_knowledge := Some (to_json (be_knowledge M))\<rparr> else D);
          D = D\<lparr>bd_entries := snd (dictionary_save entry_json (ci_directory inp) (ci_writes inp) (ci_order inp) (be_dictionary M) (bd_entries D))\<rparr>;
          content = pl_hash p @ '':'' @ nat_text (ex_executadas ex) @ '':'' @ nat_text (ex_bem_sucedidas ex) @ '':'' @
            show_f64 B (fr_score fb) @ '':'' @ nat_text (unat (kn_iteracoes (be_knowledge M))) @ '':'' @ ob_health_hash ob
      in (\<lparr>ex_plano_hash = pl_hash p, ex_executadas = ex_executadas ex, ex_bem_sucedidas = ex_bem_sucedidas ex, ex_score = fr_score fb,
           ex_conhecimento = be_knowledge M, ex_hash = bl_hash B content\<rparr>, M, L, D))"

definition resumo :: "behavior_library \<Rightarrow> behavior_engine \<Rightarrow> string" where
  "resumo B M =
     (let k = be_knowledge M
      in (''itera'' @ [CHR 0xC3, CHR 0xA7, CHR 0xC3, CHR 0xB5] @ ''es='') @ nat_text (unat (kn_iteracoes k)) @ '', regras='' @ nat_text (length (kn_regras k)) @ '', score='' @
         show_f64_4 B (case map_of (kn_metricas k) ''score_atual'' of None \<Rightarrow> 0 | Some s \<Rightarrow> s) @ ('', '' @ [CHR 0xC3, CHR 0xBA] @ ''ltimo_hash='') @
         take 16 (kn_ultimo_hash k) @ ('', dicion'' @ [CHR 0xC3, CHR 0xA1] @ ''rio='') @ stats_text (dictionary_statistics (be_dictionary M)))"

end
