(* ===== verification/Dictionary_Theorems.thy ===== *)
theory Dictionary_Theorems
  imports Dictionary
begin

text \<open>
  What the knowledge base keeps: searches return the matching entries, the best first; learning never lowers a
  level; saving and loading give the entries back, and once more those of files that are not named after a category.
\<close>

declare nat_text.simps [simp del]

section \<open>Searching\<close>

lemma mset_by_certainty [simp]: "mset (by_certainty es) = mset es"
  by (simp add: by_certainty_def)

lemma set_by_certainty [simp]: "set (by_certainty es) = set es"
  by (simp add: by_certainty_def)

text \<open>The order of two neighbours: a higher level, or the same level and at least the confidence.\<close>

definition as_certain :: "dictionary_entry \<Rightarrow> dictionary_entry \<Rightarrow> bool" where
  "as_certain a b \<longleftrightarrow> de_level b < de_level a \<or> de_level a = de_level b \<and> de_confidence b \<le> de_confidence a"

text \<open>A stable sort by one key of a list sorted by another is sorted by both.\<close>

definition lex_le :: "('a \<Rightarrow> 'b::linorder) \<Rightarrow> ('a \<Rightarrow> 'c::linorder) \<Rightarrow> 'a \<Rightarrow> 'a \<Rightarrow> bool" where
  "lex_le f g a b \<longleftrightarrow> f a < f b \<or> f a = f b \<and> g a \<le> g b"

lemma insort_key_lex:
  assumes "sorted_wrt (lex_le f g) zs" and "\<forall>z \<in> set zs. g y \<le> g z"
  shows "sorted_wrt (lex_le f g) (insort_key f y zs)"
  using assms
proof (induction zs)
  case (Cons z zs)
  then show ?case
    by (cases "f y \<le> f z") (auto simp: lex_le_def set_insort_key)
qed simp

lemma sort_key_lex:
  "sorted_wrt (\<lambda>a b. g a \<le> g b) ys \<Longrightarrow> sorted_wrt (lex_le f g) (sort_key f ys)"
  by (induction ys) (auto intro: insort_key_lex)

lemma by_certainty_sorted: "sorted_wrt as_certain (by_certainty es)"
proof -
  have "sorted_wrt (\<lambda>a b. - de_confidence a \<le> - de_confidence b) (sort_key (\<lambda>e. - de_confidence e) es)"
    using sorted_sort_key [of "\<lambda>e. - de_confidence e" es] by (simp add: sorted_map)
  then have "sorted_wrt (lex_le (\<lambda>e. 3 - level_rank (de_level e)) (\<lambda>e. - de_confidence e)) (by_certainty es)"
    unfolding by_certainty_def by (rule sort_key_lex)
  moreover have "as_certain a b" if "lex_le (\<lambda>e. 3 - level_rank (de_level e)) (\<lambda>e. - de_confidence e) a b" for a b
    using that by (cases "de_level a"; cases "de_level b")
      (auto simp: lex_le_def as_certain_def less_knowledge_level_def)
  ultimately show ?thesis by (rule sorted_wrt_mono_rel [rotated]) simp
qed

text \<open>
  A search returns exactly the entries that match, the more certain ones first; the verified ones are those it
  returns first.
\<close>

theorem dictionary_lookup_best_first:
  "mset (dictionary_lookup q d) = filter_mset (entry_matches q) (mset (dc_entries d)) \<and>
   sorted_wrt as_certain (dictionary_lookup q d) \<and>
   lookup_verified q d = takeWhile (\<lambda>e. de_level e = Verified) (dictionary_lookup q d)"
proof -
  have s: "sorted_wrt as_certain (dictionary_lookup q d)"
    by (simp add: dictionary_lookup_def by_certainty_sorted)
  have "filter (\<lambda>e. de_level e = Verified) es = takeWhile (\<lambda>e. de_level e = Verified) es" if "sorted_wrt as_certain es" for es
    using that
  proof (induction es)
    case (Cons e es)
    have "de_level x \<noteq> Verified" if "de_level e \<noteq> Verified" "x \<in> set es" for x
    proof -
      have "as_certain e x" using Cons.prems that(2) by simp
      then have "de_level x \<le> de_level e" by (auto simp: as_certain_def)
      then show ?thesis using that(1) by (metis level_top_eq)
    qed
    then show ?case using Cons by (auto simp: filter_empty_conv)
  qed simp
  then show ?thesis using s
    by (simp add: lookup_verified_def) (simp add: dictionary_lookup_def)
qed

section \<open>Learning\<close>

lemma update_entry_Some:
  "update_entry i f es = Some es' \<Longrightarrow>
    \<exists>as e bs. es = as @ e # bs \<and> es' = as @ f e # bs \<and> de_id e = i \<and> i \<notin> de_id ` set as"
proof (induction es arbitrary: es')
  case (Cons x es)
  show ?case
  proof (cases "de_id x = i")
    case True
    then show ?thesis using Cons.prems by (intro exI [of _ "[]"] exI [of _ x] exI [of _ es]) simp
  next
    case False
    then obtain fs where "update_entry i f es = Some fs" "es' = x # fs" using Cons.prems by auto
    then obtain as e bs where "es = as @ e # bs" "es' = x # as @ f e # bs" "de_id e = i" "i \<notin> de_id ` set as"
      using Cons.IH by blast
    then show ?thesis using False by (intro exI [of _ "x # as"] exI [of _ e] exI [of _ bs]) auto
  qed
qed simp

lemma update_entry_None: "update_entry i f es = None \<longleftrightarrow> i \<notin> de_id ` set es"
  by (induction es) auto

lemma relearn_fields [simp]:
  "de_id (relearn n e) = de_id e" "de_pattern (relearn n e) = de_pattern e" "de_category (relearn n e) = de_category e"
  "de_suggestion (relearn n e) = de_suggestion e" "de_description (relearn n e) = de_description e"
  "de_level (relearn n e) = max (de_level e) (de_level n)" "de_occurrences (relearn n e) = de_occurrences e + 1"
  by (auto simp: relearn_def Let_def max_def)

text \<open>Learning is adding a new entry, or raising the first entry with the identifier where it stands.\<close>

lemma learn_cases:
  obtains (new) "de_id n \<notin> de_id ` set (dc_entries d)" "dc_entries (learn n d) = dc_entries d @ [n]"
  | (old) as e bs where "dc_entries d = as @ e # bs" "de_id e = de_id n" "de_id n \<notin> de_id ` set as"
      "dc_entries (learn n d) = as @ relearn n e # bs"
proof (cases "update_entry (de_id n) (relearn n) (dc_entries d)")
  case None
  then show ?thesis using new update_entry_None [THEN iffD1, OF None] by (simp add: learn_def None)
next
  case (Some es)
  then show ?thesis using old update_entry_Some [OF Some] by (auto simp: learn_def)
qed

definition known :: "string \<Rightarrow> knowledge_level \<Rightarrow> dictionary \<Rightarrow> bool" where
  "known i l d \<longleftrightarrow> (\<exists>e \<in> set (dc_entries d). de_id e = i \<and> l \<le> de_level e)"

lemma learn_known: "known (de_id n) (de_level n) (learn n d)"
  by (rule learn_cases [of n d]) (auto simp: known_def)

lemma learn_keeps_known: "known i l d \<Longrightarrow> known i l (learn n d)"
  by (rule learn_cases [of n d]) (auto simp: known_def max.coboundedI1)

lemma learn_ids: "set (map de_id (dc_entries (learn n d))) = insert (de_id n) (set (map de_id (dc_entries d)))"
  by (rule learn_cases [of n d]) auto

lemma learn_distinct: "distinct (map de_id (dc_entries d)) \<Longrightarrow> distinct (map de_id (dc_entries (learn n d)))"
  by (rule learn_cases [of n d]) auto

lemma fold_learn_known:
  "known i l d \<or> (\<exists>n \<in> set ns. de_id n = i \<and> l \<le> de_level n) \<Longrightarrow> known i l (fold learn ns d)"
proof (induction ns arbitrary: d)
  case (Cons n ns)
  have "known i l (learn n d)" if "de_id n = i" "l \<le> de_level n"
    using learn_known [of n d] that by (auto simp: known_def intro: order_trans)
  then show ?case using Cons learn_keeps_known by auto
qed simp

text \<open>
  Learning anything, in any order, keeps every entry with its texts and never lowers its level; identifiers that were
  distinct stay distinct, and what was learned is known at least at its level.
\<close>

theorem learning_never_forgets:
  assumes "distinct (map de_id (dc_entries d))"
  shows "distinct (map de_id (dc_entries (fold learn ns d))) \<and>
    (known i l d \<or> (\<exists>n \<in> set ns. de_id n = i \<and> l \<le> de_level n) \<longrightarrow> known i l (fold learn ns d))"
proof -
  have "distinct (map de_id (dc_entries (fold learn ns d)))"
    using assms by (induction ns arbitrary: d) (simp_all add: learn_distinct)
  then show ?thesis using fold_learn_known by blast
qed

section \<open>Saving and loading\<close>

text \<open>What is relied on of JSON: an entry is one line that reads back.\<close>

definition json_line :: "(dictionary_entry \<Rightarrow> string) \<Rightarrow> (string \<Rightarrow> dictionary_entry option) \<Rightarrow> dictionary_entry \<Rightarrow> bool" where
  "json_line to_json from_json e \<longleftrightarrow>
     CHR 0x0A \<notin> set (to_json e) \<and> CHR 0x0D \<notin> set (to_json e) \<and> trim (to_json e) \<noteq> [] \<and> from_json (trim (to_json e)) = Some e"

lemma strip_cr_none: "CHR 0x0D \<notin> set s \<Longrightarrow> strip_cr s = s"
  by (metis last_in_set strip_cr_def)

lemma file_entries_lines:
  "\<forall>e \<in> set es. json_line to_json from_json e \<Longrightarrow> file_entries from_json (category_lines to_json es) = es"
proof (induction es)
  case Nil
  then show ?case by (simp add: file_entries_def category_lines_def map_filter_simps)
next
  case (Cons e es)
  have e: "json_line to_json from_json e" using Cons.prems by simp
  have "text_lines [] (to_json e @ [CHR 0x0A] @ category_lines to_json es) = to_json e # text_lines [] (category_lines to_json es)"
    using e by (subst text_lines_line) (simp_all add: json_line_def strip_cr_none)
  moreover have "category_lines to_json (e # es) = to_json e @ [CHR 0x0A] @ category_lines to_json es"
    by (simp add: category_lines_def)
  ultimately show ?case using Cons e by (simp add: file_entries_def map_filter_simps json_line_def)
qed

lemma category_file_inj: "category_file a = category_file b \<longleftrightarrow> a = b"
  by (cases a; cases b) (simp_all add: category_file_def category_text_def)

lemma jsonl_category: "jsonl_file (category_file c)"
  by (cases c) (simp_all add: jsonl_file_def category_file_def category_text_def suffix_def)

lemma jsonl_entries_category:
  "readable (category_file c) \<Longrightarrow> \<forall>e \<in> set es. json_line to_json from_json e \<Longrightarrow>
     jsonl_entries from_json readable (category_file c, category_lines to_json es) = es"
  by (simp add: jsonl_entries_def jsonl_category file_entries_lines)

lemma mset_update:
  "distinct (map fst D) \<Longrightarrow>
     mset (concat (map g (AList.update k v D))) = mset (g (k, v)) + mset (concat (map g (filter (\<lambda>f. fst f \<noteq> k) D)))"
proof (induction D)
  case (Cons f D)
  have "filter (\<lambda>f. fst f \<noteq> k) D = D" if "fst f = k"
    using Cons.prems that by (intro filter_True) (auto simp: image_iff)
  then show ?case using Cons by (cases f) auto
qed simp

lemma filter_update:
  "q (k, v) \<Longrightarrow> (\<And>w. q (k, w)) \<Longrightarrow> filter q (AList.update k v D) = AList.update k v (filter q D)"
  by (induction D) auto

lemma filter_update_other:
  "filter (\<lambda>f. fst f \<noteq> k) (AList.update k v D) = filter (\<lambda>f. fst f \<noteq> k) D"
  by (induction D) auto

text \<open>The entries of a directory, and those of its files that are not in a list of categories.\<close>

definition dir_entries :: "(string \<Rightarrow> dictionary_entry option) \<Rightarrow> (string \<Rightarrow> bool) \<Rightarrow> knowledge_dir \<Rightarrow> dictionary_entry multiset" where
  "dir_entries from_json readable D = mset (dc_entries (dictionary_load from_json readable D))"

definition other_files :: "entry_category list \<Rightarrow> knowledge_dir \<Rightarrow> knowledge_dir" where
  "other_files cs D = filter (\<lambda>f. fst f \<notin> category_file ` set cs) D"

lemma write_categories_entries:
  assumes "\<forall>e \<in> set (dc_entries d). json_line to_json from_json e" and "\<forall>c. readable (category_file c)"
    and "distinct cs" "distinct (map fst D)" and "write_categories to_json writes d cs D = (True, D')"
  shows "dir_entries from_json readable D' =
      sum_list (map (\<lambda>c. mset (in_category c d)) cs) + dir_entries from_json readable (other_files cs D) \<and>
    distinct (map fst D') \<and> other_files cs D' = other_files cs D"
  using assms(3-5)
proof (induction cs arbitrary: D)
  case Nil
  then show ?case by (simp add: other_files_def)
next
  case (Cons c cs)
  define t where "t = category_lines to_json (in_category c d)"
  let ?U = "AList.update (category_file c) t D"
  have w: "write_categories to_json writes d cs ?U = (True, D')"
    using Cons.prems(3) by (auto simp: t_def split: if_splits)
  have u: "distinct (map fst ?U)" using Cons.prems(2) by (rule distinct_update)
  have ih: "dir_entries from_json readable D' =
      sum_list (map (\<lambda>c. mset (in_category c d)) cs) + dir_entries from_json readable (other_files cs ?U) \<and>
    distinct (map fst D') \<and> other_files cs D' = other_files cs ?U"
    using Cons.prems(1) by (intro Cons.IH u w) simp
  have c: "category_file c \<notin> category_file ` set cs" using Cons.prems(1) by (auto simp: category_file_inj)
  then have o: "other_files cs ?U = AList.update (category_file c) t (other_files cs D)"
    unfolding other_files_def by (intro filter_update) simp_all
  have d: "distinct (map fst (other_files cs D))"
    using Cons.prems(2) by (simp add: other_files_def distinct_map_filter)
  have f: "filter (\<lambda>f. fst f \<noteq> category_file c) (other_files cs E) = other_files (c # cs) E" for E
    by (auto simp: other_files_def intro: filter_cong)
  have "jsonl_entries from_json readable (category_file c, t) = in_category c d"
    unfolding t_def using assms(1,2) by (intro jsonl_entries_category) (auto simp: in_category_def)
  then have "dir_entries from_json readable (other_files cs ?U) =
      mset (in_category c d) + dir_entries from_json readable (other_files (c # cs) D)"
    by (simp add: dir_entries_def dictionary_load_def o mset_update [OF d] f)
  moreover have "other_files (c # cs) D' = other_files (c # cs) D"
  proof -
    have "other_files (c # cs) D' = filter (\<lambda>f. fst f \<noteq> category_file c) (other_files cs ?U)" using ih f [of D'] by simp
    also have "\<dots> = filter (\<lambda>f. fst f \<noteq> category_file c) (other_files cs D)"
      unfolding o by (rule filter_update_other)
    finally show ?thesis by (simp add: f)
  qed
  ultimately show ?case using ih by simp
qed

lemma category_sum:
  assumes "distinct cs"
  shows "sum_list (map (\<lambda>c. if de_category e = c then {#e#} else {#}) cs) = (if de_category e \<in> set cs then {#e#} else {#})"
  using assms by (induction cs) auto

lemma categories_partition:
  assumes "distinct order" "\<forall>c. c \<in> set order"
  shows "sum_list (map (\<lambda>c. mset (in_category c d)) (filter (\<lambda>c. in_category c d \<noteq> []) order)) = mset (dc_entries d)"
proof -
  have "sum_list (map (\<lambda>c. mset (filter (\<lambda>e. de_category e = c) es)) order) = mset es" for es
  proof (induction es)
    case (Cons e es)
    have "sum_list (map (\<lambda>c. mset (filter (\<lambda>e. de_category e = c) (e # es))) order) =
        sum_list (map (\<lambda>c. (if de_category e = c then {#e#} else {#}) + mset (filter (\<lambda>e. de_category e = c) es)) order)"
      by (intro arg_cong [of _ _ sum_list] map_cong) auto
    also have "\<dots> = {#e#} + mset es"
      using Cons category_sum [OF assms(1), of e] assms(2) by (simp add: sum_list_addf)
    finally show ?case by simp
  qed (induction order, simp_all)
  then have "sum_list (map (\<lambda>c. mset (in_category c d)) order) = mset (dc_entries d)"
    by (simp add: in_category_def)
  moreover have "sum_list (map (\<lambda>c. mset (in_category c d)) (filter (\<lambda>c. in_category c d \<noteq> []) cs)) =
      sum_list (map (\<lambda>c. mset (in_category c d)) cs)" for cs
    by (induction cs) auto
  ultimately show ?thesis by simp
qed

text \<open>
  Saving and loading again gives the entries of the dictionary, each category from its file, and in addition
  those of every file that the save does not write.
\<close>

lemma dictionary_save_load:
  assumes "\<forall>e \<in> set (dc_entries d). json_line to_json from_json e" "\<forall>c. readable (category_file c)"
    and "distinct order" "\<forall>c. c \<in> set order" "distinct (map fst D)"
    and "dictionary_save to_json directory writes order d D = (True, D')"
  shows "dir_entries from_json readable D' = mset (dc_entries d) +
      dir_entries from_json readable (other_files (filter (\<lambda>c. in_category c d \<noteq> []) order) D) \<and>
    distinct (map fst D') \<and>
    other_files (filter (\<lambda>c. in_category c d \<noteq> []) order) D' = other_files (filter (\<lambda>c. in_category c d \<noteq> []) order) D"
  using write_categories_entries [OF assms(1,2), of "filter (\<lambda>c. in_category c d \<noteq> []) order" D writes D'] assms(3-6)
  by (simp add: dictionary_save_def categories_partition split: if_splits)

text \<open>Starting and saving, as every cycle of the behaviour engine does; files not named after a category are never written.\<close>

definition restart ::
    "(dictionary_entry \<Rightarrow> string) \<Rightarrow> (string \<Rightarrow> dictionary_entry option) \<Rightarrow> (string \<Rightarrow> bool) \<Rightarrow> entry_category list \<Rightarrow> knowledge_dir \<Rightarrow> knowledge_dir" where
  "restart to_json from_json readable order D =
     snd (dictionary_save to_json True (\<lambda>f. True) order (dictionary_load from_json readable D) D)"

definition foreign_files :: "knowledge_dir \<Rightarrow> knowledge_dir" where
  "foreign_files = other_files [Rust, Nex, Project, Learned]"

lemma write_categories_works: "fst (write_categories to_json (\<lambda>f. True) d cs D)"
  by (induction cs arbitrary: D) simp_all

lemma foreign_other: "foreign_files (other_files cs D) = foreign_files D"
proof -
  have "set cs \<subseteq> set [Rust, Nex, Project, Learned]"
  proof
    fix c show "c \<in> set [Rust, Nex, Project, Learned]" by (cases c) simp_all
  qed
  then have "category_file ` set cs \<subseteq> category_file ` set [Rust, Nex, Project, Learned]" by (rule image_mono)
  then show ?thesis unfolding foreign_files_def other_files_def filter_filter by (intro filter_cong) blast+
qed

lemma dir_entries_subset: "dir_entries from_json readable (other_files cs D) \<subseteq># dir_entries from_json readable D"
proof -
  have "mset (concat (map g (filter p D))) \<subseteq># mset (concat (map g D))" for g :: "_ \<Rightarrow> dictionary_entry list" and p
    by (induction D) (auto simp: subset_mset.add_left_mono intro: subset_mset.order_trans)
  then show ?thesis by (simp add: dir_entries_def dictionary_load_def other_files_def)
qed

lemma restart_step:
  assumes "\<forall>e \<in># dir_entries from_json readable D. json_line to_json from_json e" "\<forall>c. readable (category_file c)"
    and "distinct order" "\<forall>c. c \<in> set order" "distinct (map fst D)"
  defines "D' \<equiv> restart to_json from_json readable order D"
  shows "dir_entries from_json readable D + dir_entries from_json readable (foreign_files D) \<subseteq># dir_entries from_json readable D' \<and>
    set_mset (dir_entries from_json readable D') = set_mset (dir_entries from_json readable D) \<and>
    foreign_files D' = foreign_files D \<and> distinct (map fst D')"
proof -
  define d where "d = dictionary_load from_json readable D"
  define cs where "cs = filter (\<lambda>c. in_category c d \<noteq> []) order"
  have "dictionary_save to_json True (\<lambda>f. True) order d D = (True, D')"
    by (auto simp: D'_def restart_def d_def dictionary_save_def prod_eq_iff write_categories_works)
  then have s: "dir_entries from_json readable D' = mset (dc_entries d) + dir_entries from_json readable (other_files cs D)"
    "distinct (map fst D')" "other_files cs D' = other_files cs D"
    using dictionary_save_load [of d to_json from_json readable order D True "\<lambda>f. True" D'] assms(1-5)
    by (auto simp: cs_def d_def dir_entries_def)
  have f: "foreign_files D' = foreign_files D" using s(3) by (metis foreign_other)
  have "foreign_files (other_files cs D) = foreign_files D" by (rule foreign_other)
  then have "dir_entries from_json readable (foreign_files D) \<subseteq># dir_entries from_json readable (other_files cs D)"
    by (metis dir_entries_subset foreign_files_def)
  moreover have "set_mset (dir_entries from_json readable (other_files cs D)) \<subseteq> set_mset (dir_entries from_json readable D)"
    by (rule set_mset_mono [OF dir_entries_subset])
  ultimately show ?thesis using s(1,2) f by (auto simp: d_def dir_entries_def)
qed

text \<open>
  Every start adds the entries of the other files once more: after \<open>n\<close> starts an entry of such a file is there
  at least \<open>n + 1\<close> times.
\<close>

theorem dictionary_grows_with_restarts:
  assumes "\<forall>e \<in># dir_entries from_json readable D. json_line to_json from_json e" "\<forall>c. readable (category_file c)"
    and "distinct order" "\<forall>c. c \<in> set order" "distinct (map fst D)"
  shows "size (dir_entries from_json readable ((restart to_json from_json readable order ^^ n) D)) \<ge>
    size (dir_entries from_json readable D) + n * size (dir_entries from_json readable (foreign_files D))"
proof -
  define R where "R = restart to_json from_json readable order"
  have "size (dir_entries from_json readable D) + n * size (dir_entries from_json readable (foreign_files D)) \<le>
      size (dir_entries from_json readable ((R ^^ n) D)) \<and>
    set_mset (dir_entries from_json readable ((R ^^ n) D)) = set_mset (dir_entries from_json readable D) \<and>
    foreign_files ((R ^^ n) D) = foreign_files D \<and> distinct (map fst ((R ^^ n) D))"
  proof (induction n)
    case (Suc n)
    let ?E = "(R ^^ n) D"
    have st: "dir_entries from_json readable ?E + dir_entries from_json readable (foreign_files ?E) \<subseteq># dir_entries from_json readable (R ?E) \<and>
      set_mset (dir_entries from_json readable (R ?E)) = set_mset (dir_entries from_json readable ?E) \<and>
      foreign_files (R ?E) = foreign_files ?E \<and> distinct (map fst (R ?E))"
      unfolding R_def by (rule restart_step) (use assms Suc in \<open>auto simp: R_def\<close>)
    then have "size (dir_entries from_json readable ?E + dir_entries from_json readable (foreign_files ?E)) \<le>
        size (dir_entries from_json readable (R ?E))"
      by (intro size_mset_mono) simp
    then show ?case using Suc st by simp
  qed (simp add: assms(5))
  then show ?thesis by (simp add: R_def)
qed

definition sample_entry :: dictionary_entry where
  "sample_entry = \<lparr>de_id = ''r'', de_category = Rust, de_level = Tested, de_pattern = ''p'', de_description = ''d'',
     de_suggestion = ''s'', de_confidence = 1, de_miri_passed = False, de_occurrences = 1\<rparr>"

theorem dictionary_grows_with_restarts_witness:
  "4 \<le> size (dir_entries (\<lambda>t. Some sample_entry) (\<lambda>f. True)
     ((restart (\<lambda>e. ''x'') (\<lambda>t. Some sample_entry) (\<lambda>f. True) [Rust, Nex, Project, Learned] ^^ 3) [(''seed.jsonl'', ''x'')]))"
proof -
  have "dir_entries (\<lambda>t. Some sample_entry) (\<lambda>f. True) [(''seed.jsonl'', ''x'')] = {#sample_entry#}"
    by (simp add: dir_entries_def dictionary_load_def jsonl_entries_def jsonl_file_def suffix_def file_entries_def
        trim_def is_space_def map_filter_simps)
  moreover have "foreign_files [(''seed.jsonl'', ''x'')] = [(''seed.jsonl'', ''x'')]"
    by (simp add: foreign_files_def other_files_def category_file_def category_text_def)
  moreover have "c \<in> set [Rust, Nex, Project, Learned]" for c by (cases c) simp_all
  ultimately show ?thesis
    using dictionary_grows_with_restarts [of "\<lambda>t. Some sample_entry" "\<lambda>f. True" "[(''seed.jsonl'', ''x'')]" "\<lambda>e. ''x''"
        "[Rust, Nex, Project, Learned]" 3]
    by (simp add: json_line_def trim_def is_space_def)
qed

theorem learning_never_forgets_witness:
  "known ''r'' Tested (fold learn [sample_entry, sample_entry\<lparr>de_level := Hypothese\<rparr>, sample_entry\<lparr>de_id := ''q''\<rparr>] dictionary_empty)"
  using learning_never_forgets [of dictionary_empty, where i = "''r''" and l = Tested and ns = "[sample_entry, sample_entry\<lparr>de_level := Hypothese\<rparr>, sample_entry\<lparr>de_id := ''q''\<rparr>]"]
  by (simp add: dictionary_empty_def sample_entry_def)

section \<open>The other changes\<close>

text \<open>A promotion may lower a level, and marks the check of Miri as passed whether or not it ran.\<close>

definition promoted :: "knowledge_level \<Rightarrow> dictionary_entry \<Rightarrow> dictionary_entry" where
  "promoted l e = e\<lparr>de_level := l, de_miri_passed := (l = Verified), de_confidence := (if l = Verified then 1 else de_confidence e)\<rparr>"

lemma promote_sets_level:
  assumes "distinct (map de_id (dc_entries d))" "e \<in> set (dc_entries (promote i l d))" "de_id e = i"
  shows "de_level e = l \<and> de_miri_passed e = (l = Verified)"
proof (cases "update_entry i (promoted l) (dc_entries d)")
  case None
  then show ?thesis using assms(2,3) update_entry_None [THEN iffD1, OF None] by (auto simp: promote_def promoted_def [abs_def])
next
  case (Some es)
  then obtain as x bs where d: "dc_entries d = as @ x # bs" "es = as @ promoted l x # bs" "de_id x = i"
    using update_entry_Some by blast
  moreover have "dc_entries (promote i l d) = es" using Some by (simp add: promote_def promoted_def [abs_def])
  ultimately have "e = promoted l x" using assms by (auto simp: image_iff)
  then show ?thesis by (simp add: promoted_def)
qed

definition touched :: "dictionary_entry \<Rightarrow> dictionary_entry" where
  "touched e = e\<lparr>de_occurrences := de_occurrences e + 1, de_confidence := min (f64_add (de_confidence e) (f64_round (5 / 100))) 1\<rparr>"

lemma touch_confidence:
  assumes "\<forall>e \<in> set (dc_entries d). de_confidence e \<le> 1"
  shows "\<forall>e \<in> set (dc_entries (touch i d)). de_confidence e \<le> 1"
proof (cases "update_entry i touched (dc_entries d)")
  case None
  then show ?thesis using assms by (simp add: touch_def touched_def [abs_def])
next
  case (Some es)
  then obtain as x bs where "dc_entries d = as @ x # bs" "es = as @ touched x # bs" using update_entry_Some by blast
  moreover have "dc_entries (touch i d) = es" using Some by (simp add: touch_def touched_def [abs_def])
  ultimately show ?thesis using assms by (auto simp: touched_def)
qed

text \<open>Every entry is counted once by its level and once by its category.\<close>

lemma statistics_add_up:
  defines "s d \<equiv> dictionary_statistics d"
  shows "ds_verified (s d) + ds_tested (s d) + ds_hypothetical (s d) = ds_total (s d)"
    and "ds_rust (s d) + ds_nex (s d) + ds_project (s d) + ds_learned (s d) = ds_total (s d)"
proof -
  have "length (filter (\<lambda>e. de_level e = Verified) es) + length (filter (\<lambda>e. de_level e = Tested) es) +
      length (filter (\<lambda>e. de_level e = Hypothese) es) = length es" for es
  proof (induction es)
    case (Cons e es) then show ?case by (cases "de_level e") simp_all
  qed simp
  then show "ds_verified (s d) + ds_tested (s d) + ds_hypothetical (s d) = ds_total (s d)"
    by (simp add: s_def dictionary_statistics_def)
  have "length (filter (\<lambda>e. de_category e = Rust) es) + length (filter (\<lambda>e. de_category e = Nex) es) +
      length (filter (\<lambda>e. de_category e = Project) es) + length (filter (\<lambda>e. de_category e = Learned) es) = length es" for es
  proof (induction es)
    case (Cons e es) then show ?case by (cases "de_category e") simp_all
  qed simp
  then show "ds_rust (s d) + ds_nex (s d) + ds_project (s d) + ds_learned (s d) = ds_total (s d)"
    by (simp add: s_def dictionary_statistics_def in_category_def)
qed

end
