(* ===== verification/Behavior_Theorems.thy ===== *)
theory Behavior_Theorems
  imports Behavior Dictionary_Theorems
begin

text \<open>
  What a cycle of the behaviour engine does: which of its actions count as successes, what it takes for verified, that
  its rules are never used, and that its knowledge survives a restart.
\<close>

declare nat_text.simps [simp del]

section \<open>Actions\<close>

text \<open>No action planned for the observed state succeeds in it; every action planned for the history does.\<close>

lemma planned_types:
  "a \<in> set (planejar_miri B M ob) \<Longrightarrow> ap_tipo a = ''corrigir_seguranca''"
  "a \<in> set (planejar_build B M ob) \<Longrightarrow> ap_tipo a = ''corrigir_build'' \<and> \<not> ob_build_ok ob"
  "a \<in> set (planejar_testes M ob) \<Longrightarrow> ap_tipo a = ''corrigir_testes'' \<and> ob_tests_failed ob \<noteq> 0"
  "a \<in> set (planejar_warnings M ob) \<Longrightarrow> ap_tipo a = ''limpar_warnings'' \<and> (0 < ob_build_warnings ob \<or> 0 < ob_clippy_warnings ob)"
  "a \<in> set (planejar_fmt ob) \<Longrightarrow> ap_tipo a = ''formatar'' \<and> \<not> ob_fmt_ok ob"
  "a \<in> set (planejar_promocao ob) \<Longrightarrow> ap_tipo a = ''verificar_miri''"
  by (simp_all add: planejar_miri_def planejar_build_def planejar_testes_def planejar_warnings_def planejar_fmt_def
      planejar_promocao_def Let_def split: if_splits)

lemma planned_fail:
  "a \<in> set (planejar_miri B M ob) \<Longrightarrow> \<not> is_sucesso (executar_acao ob a)"
  "a \<in> set (planejar_build B M ob) \<Longrightarrow> \<not> is_sucesso (executar_acao ob a)"
  "a \<in> set (planejar_testes M ob) \<Longrightarrow> \<not> is_sucesso (executar_acao ob a)"
  "a \<in> set (planejar_warnings M ob) \<Longrightarrow> \<not> is_sucesso (executar_acao ob a)"
  "a \<in> set (planejar_fmt ob) \<Longrightarrow> \<not> is_sucesso (executar_acao ob a)"
  "a \<in> set (planejar_promocao ob) \<Longrightarrow> \<not> is_sucesso (executar_acao ob a)"
  "\<not> is_sucesso (executar_acao ob MONITORAR)"
  by (simp_all add: executar_acao_def planned_types MONITORAR_def)

lemma state_actions_fail:
  assumes "a \<in> set (planejar_estado B M ob)" shows "\<not> is_sucesso (executar_acao ob a)"
proof -
  consider "a = MONITORAR" | "a \<in> set (planejar_miri B M ob)" | "a \<in> set (planejar_build B M ob)"
    | "a \<in> set (planejar_testes M ob)" | "a \<in> set (planejar_warnings M ob)" | "a \<in> set (planejar_fmt ob)"
    | "a \<in> set (planejar_promocao ob)"
    using assms by (simp add: planejar_estado_def Let_def split: if_splits) blast
  then show ?thesis by cases (simp_all add: planned_fail)
qed

lemma history_actions_succeed: "a \<in> set (planejar_historico it) \<Longrightarrow> is_sucesso (executar_acao ob a)"
  by (auto simp: planejar_historico_def executar_acao_def split: outcome.splits if_splits)

text \<open>Whether an iteration asks for an action.\<close>

definition calls_for_action :: "iteration \<Rightarrow> bool" where
  "calls_for_action it \<longleftrightarrow> planejar_historico it \<noteq> []"

lemma history_length: "length (concat (map planejar_historico its)) = length (filter calls_for_action its)"
  by (induction its) (auto simp: calls_for_action_def planejar_historico_def split: outcome.splits)

lemma planned: "pl_acoes (pensar P B M L ob) = planejar_estado B M ob @ concat (map planejar_historico (recentes (todas P L)))"
proof -
  have "planejar_estado B M ob \<noteq> []" by (simp add: planejar_estado_def Let_def)
  then show ?thesis by (simp add: pensar_def Let_def)
qed

lemma successes:
  "ex_bem_sucedidas (fst (agir P B inp M (pensar P B M L ob) L ob)) = length (filter calls_for_action (recentes (todas P L)))"
proof -
  have "filter (\<lambda>a. is_sucesso (executar_acao ob a)) (planejar_estado B M ob) = []"
    using state_actions_fail by (simp add: filter_empty_conv)
  moreover have "filter (\<lambda>a. is_sucesso (executar_acao ob a)) (concat (map planejar_historico its)) = concat (map planejar_historico its)" for its
    using history_actions_succeed by (intro filter_True) auto
  ultimately show ?thesis by (simp add: agir_def planned Let_def history_length [symmetric])
qed

lemma ciclo_parts:
  assumes "ciclo P X B A to_json entry_json inp M L D = (r, M', L', D')"
  defines "ob \<equiv> observe_light A (ci_now inp) (ci_check inp)"
  obtains ex L1 fb F where
    "agir P B (ci_register inp) M (pensar P B M L ob) L ob = (ex, L1)"
    "executar P X (ci_feedback inp) (be_feedback M) L1 = (fb, F, L')"
    "M' = aprender B ex fb ob (M\<lparr>be_feedback := F\<rparr>)"
    "ex_bem_sucedidas r = ex_bem_sucedidas ex" "ex_executadas r = ex_executadas ex" "ex_conhecimento r = be_knowledge M'"
    "bd_knowledge D' = (if ci_knowledge_write inp then Some (to_json (be_knowledge M')) else bd_knowledge D)"
proof -
  obtain ex L1 where a: "agir P B (ci_register inp) M (pensar P B M L ob) L ob = (ex, L1)" by force
  obtain fb F L2 where e: "executar P X (ci_feedback inp) (be_feedback M) L1 = (fb, F, L2)" by (metis prod_cases3)
  show ?thesis
    by (rule that [OF a, of fb F]) (use assms(1) a e in \<open>auto simp: ciclo_def Let_def ob_def\<close>)
qed

lemma calls_for_action_spec:
  "calls_for_action it \<longleftrightarrow>
     (case resultado it of
        Falha e \<Rightarrow> True
      | NenhumaAcao m \<Rightarrow> sublist [CHR ''p'', CHR ''a'', CHR ''d'', CHR ''r'', CHR 0xC3, CHR 0xA3, CHR ''o''] m
      | Sucesso m \<Rightarrow> False)"
  by (simp add: calls_for_action_def planejar_historico_def split: outcome.split)

text \<open>
  C35: the successes of a cycle are those of the last ten iterations of the log, read in the order of their numbers, that failed,
  or took no action for a reason that contains the word for pattern (in UTF-8). They are fewer than the actions executed: nothing
  that the cycle finds wrong with the project is ever corrected.
\<close>

theorem cycle_successes:
  "ex_bem_sucedidas (fst (ciclo P X B A to_json entry_json inp M L D)) =
     length (filter (\<lambda>it. case resultado it of
         Falha e \<Rightarrow> True
       | NenhumaAcao m \<Rightarrow> sublist [CHR ''p'', CHR ''a'', CHR ''d'', CHR ''r'', CHR 0xC3, CHR 0xA3, CHR ''o''] m
       | Sucesso m \<Rightarrow> False) (take 10 (rev (todas P L)))) \<and>
   ex_bem_sucedidas (fst (ciclo P X B A to_json entry_json inp M L D)) < ex_executadas (fst (ciclo P X B A to_json entry_json inp M L D))"
proof -
  obtain r M' L' D' where run: "ciclo P X B A to_json entry_json inp M L D = (r, M', L', D')" by (metis prod_cases4)
  let ?ob = "observe_light A (ci_now inp) (ci_check inp)"
  obtain ex L1 where a: "agir P B (ci_register inp) M (pensar P B M L ?ob) L ?ob = (ex, L1)"
    and r: "ex_bem_sucedidas r = ex_bem_sucedidas ex" "ex_executadas r = ex_executadas ex"
    using ciclo_parts [OF run] by metis
  have k: "ex_bem_sucedidas ex = length (filter calls_for_action (recentes (todas P L)))"
    using successes [of P B "ci_register inp" M L ?ob] by (simp add: a)
  have "ex_executadas ex = length (planejar_estado B M ?ob) + length (filter calls_for_action (recentes (todas P L)))"
    using a by (auto simp: agir_def Let_def planned history_length)
  moreover have "planejar_estado B M ?ob \<noteq> []" by (simp add: planejar_estado_def Let_def)
  ultimately show ?thesis using k r by (simp add: run recentes_def flip: calls_for_action_spec)
qed

section \<open>Knowledge\<close>

lemma aprender_dictionary:
  "be_dictionary (aprender B ex fb ob M) =
     fold learn (aprendido B (kn_iteracoes (be_knowledge M) + 1) ex fb @ padrao_novo B (kn_iteracoes (be_knowledge M) + 1) fb @
       estado_aprendido ob @ erros_aprendidos (kn_iteracoes (be_knowledge M) + 1) ob) (be_dictionary M)"
  by (simp add: aprender_def Let_def)

lemma light_state:
  "ob_clippy_ok (observe_light A now c) \<and> ob_clippy_warnings (observe_light A now c) = 0 \<and> ob_miri_ok (observe_light A now c) \<and>
   ob_miri_errors (observe_light A now c) = [] \<and> ob_tests_passed (observe_light A now c) = 0 \<and> ob_tests_failed (observe_light A now c) = 0"
  by (simp add: observe_light_def fake_state_def Let_def)

text \<open>
  After any cycle, whatever the check of the project gave and though neither Clippy nor Miri was run, the
  dictionary holds at the highest level that both passed.
\<close>

theorem cycle_claims_verification:
  "known ''miri_verified'' Verified (be_dictionary (fst (snd (ciclo P X B A to_json entry_json inp M L D)))) \<and>
   known ''clippy_clean'' Verified (be_dictionary (fst (snd (ciclo P X B A to_json entry_json inp M L D))))"
proof -
  obtain r M' L' D' where run: "ciclo P X B A to_json entry_json inp M L D = (r, M', L', D')" by (metis prod_cases4)
  let ?ob = "observe_light A (ci_now inp) (ci_check inp)"
  obtain ex fb F where m: "M' = aprender B ex fb ?ob (M\<lparr>be_feedback := F\<rparr>)"
    using ciclo_parts [OF run] by metis
  have "\<exists>e \<in> set (estado_aprendido ?ob). de_id e = ''miri_verified'' \<and> Verified \<le> de_level e"
    and "\<exists>e \<in> set (estado_aprendido ?ob). de_id e = ''clippy_clean'' \<and> Verified \<le> de_level e"
    by (simp_all add: estado_aprendido_def light_state)
  then have "known ''miri_verified'' Verified (be_dictionary M') \<and> known ''clippy_clean'' Verified (be_dictionary M')"
    unfolding m aprender_dictionary by (intro conjI fold_learn_known) auto
  then show ?thesis by (simp add: run)
qed

lemma cycle_keeps_known:
  assumes "ciclo P X B A to_json entry_json inp M L D = (r, M', L', D')" "known i l (be_dictionary M)"
  shows "known i l (be_dictionary M')"
proof -
  obtain ex fb F where m: "M' = aprender B ex fb (observe_light A (ci_now inp) (ci_check inp)) (M\<lparr>be_feedback := F\<rparr>)"
    using ciclo_parts [OF assms(1)] by metis
  show ?thesis unfolding m aprender_dictionary by (rule fold_learn_known) (simp add: assms(2))
qed

text \<open>Rules are never used: they do not change a plan, and their conditions and actions never change.\<close>

lemma plan_depends_on:
  assumes "be_dictionary N = be_dictionary M" "be_cache N = be_cache M"
  shows "planejar_estado B N ob = planejar_estado B M ob"
  unfolding planejar_estado_def planejar_miri_def planejar_build_def planejar_testes_def planejar_warnings_def dica_miri_def [abs_def]
    assms by (rule refl)

lemma plan_ignores_rules: "pensar P B (M\<lparr>be_knowledge := k\<rparr>) L ob = pensar P B M L ob"
  using plan_depends_on [of "M\<lparr>be_knowledge := k\<rparr>" M B ob] by (simp add: pensar_def justificar_def)

definition scores_ok :: "behavior_engine \<Rightarrow> bool" where
  "scores_ok M \<longleftrightarrow> (\<forall>r \<in> set (kn_regras (be_knowledge M)). 0 \<le> rg_score r \<and> rg_score r \<le> 1)"

definition rule_text :: "regra_estrategia \<Rightarrow> string \<times> string \<times> string \<times> nat \<times> bool" where
  "rule_text r = (rg_id r, rg_condicao r, rg_acao r, rg_prioridade r, rg_ativa r)"

lemma ajustar_text: "rule_text (ajustar_regra s r) = rule_text r"
  by (simp add: ajustar_regra_def rule_text_def)

lemma ajustar_score:
  assumes "0 \<le> rg_score r" "rg_score r \<le> 1"
  shows "0 \<le> rg_score (ajustar_regra s r) \<and> rg_score (ajustar_regra s r) \<le> 1"
proof -
  have t: "0 \<le> f64_round (1 / 10)" by (rule f64_round_nonneg) simp
  have "0 \<le> f64_add (rg_score r) (f64_round (1 / 10))"
    unfolding f64_add_def using assms t by (intro f64_round_nonneg) simp
  moreover have "f64_round (rg_score r - f64_round (1 / 10)) \<le> f64_round 1"
    using assms t by (intro f64_round_mono) simp
  then have "f64_sub (rg_score r) (f64_round (1 / 10)) \<le> 1"
    using f64_round_of_int [of 1] by (simp add: f64_sub_def)
  ultimately show ?thesis using assms by (simp add: ajustar_regra_def)
qed

text \<open>
  A cycle whose knowledge is written is remembered: a new engine knows one cycle more, the same rules with scores
  from zero to one, but nothing of the patterns and scores of the feedback loop.
\<close>

theorem cycle_survives_restart:
  assumes run: "ciclo P X B A to_json entry_json inp M L D = (r, M', L', D')"
    and "ci_knowledge_write inp" "from_json (to_json (be_knowledge M')) = Some (be_knowledge M')" "scores_ok M"
    and N_def: "N = behavior_new from_json entry_read readable (bd_knowledge D') (bd_entries D') C"
  shows "kn_iteracoes (be_knowledge N) = kn_iteracoes (be_knowledge M) + 1 \<and>
    map rule_text (kn_regras (be_knowledge N)) = map rule_text (kn_regras (be_knowledge M)) \<and> scores_ok N \<and>
    ex_conhecimento r = be_knowledge N \<and> be_feedback N = feedback_new"
proof -
  let ?ob = "observe_light A (ci_now inp) (ci_check inp)"
  obtain ex fb F where m: "M' = aprender B ex fb ?ob (M\<lparr>be_feedback := F\<rparr>)"
    and d: "bd_knowledge D' = Some (to_json (be_knowledge M'))" and r: "ex_conhecimento r = be_knowledge M'"
    using ciclo_parts [OF run] assms(2) by metis
  have n: "be_knowledge N = be_knowledge M'" "be_feedback N = feedback_new"
    using assms(3) by (simp_all add: N_def behavior_new_def carregar_knowledge_def d)
  have "kn_regras (be_knowledge M') = map (ajustar_regra (fr_score fb)) (kn_regras (be_knowledge M))"
    and "kn_iteracoes (be_knowledge M') = kn_iteracoes (be_knowledge M) + 1"
    by (simp_all add: m aprender_def Let_def)
  then show ?thesis
    using assms(4) by (auto simp: n r scores_ok_def ajustar_text ajustar_score)
qed

end
