(* ===== verification/Cortex_Knowledge.thy ===== *)
theory Cortex_Knowledge
  imports Nexo_Prelude
begin

text \<open>
  The table of knowledge of the WebAssembly cortex (\<^verbatim>\<open>crates/wasm_cortex/src/knowledge.rs\<close>): 64 slots,
  insertion with replacement, decay, and the marks that the host is asked to forget; and what these operations keep.
  Integers have the widths of the source.
\<close>

section \<open>The table\<close>

definition KNOWLEDGE_TABLE_SIZE :: nat where "KNOWLEDGE_TABLE_SIZE = 64"
definition REM_INTERVAL :: "32 word" where "REM_INTERVAL = 10"
definition DECAY_THRESHOLD :: "8 word" where "DECAY_THRESHOLD = 32"

record knowledge_entry =
  ke_id :: "64 word"
  ke_last_seen :: "32 word"
  ke_hits :: "16 word"
  ke_strength :: "8 word"
  ke_dirty :: bool

record knowledge_table =
  kt_slots :: "knowledge_entry list"
  kt_count :: "16 word"

definition EMPTY_ENTRY :: knowledge_entry where
  "EMPTY_ENTRY = \<lparr>ke_id = 0, ke_last_seen = 0, ke_hits = 0, ke_strength = 0, ke_dirty = False\<rparr>"

definition table_new :: knowledge_table where
  "table_new = \<lparr>kt_slots = replicate KNOWLEDGE_TABLE_SIZE EMPTY_ENTRY, kt_count = 0\<rparr>"

fun position :: "('a \<Rightarrow> bool) \<Rightarrow> 'a list \<Rightarrow> nat option" where
  "position p [] = None"
| "position p (x # xs) = (if p x then Some 0 else map_option Suc (position p xs))"

definition find_index :: "64 word \<Rightarrow> knowledge_table \<Rightarrow> nat option" where
  "find_index i t = position (\<lambda>e. ke_id e = i) (kt_slots t)"

definition find_empty :: "knowledge_table \<Rightarrow> nat option" where
  "find_empty t = position (\<lambda>e. ke_id e = 0) (kt_slots t)"

text \<open>The score, ten times the documented one: strength, hits and recency with weights 5, 3 and 2.\<close>

definition recency :: "32 word \<Rightarrow> 32 word \<Rightarrow> 8 word" where
  "recency now seen = (let age = now - seen in if 255 < age then 0 else 255 - ucast age)"

definition entry_score_inner :: "knowledge_entry \<Rightarrow> 32 word \<Rightarrow> 16 word" where
  "entry_score_inner e now =
     ucast (ke_strength e) * 5 + min (ke_hits e) 255 * 3 + ucast (recency now (ke_last_seen e)) * 2"

definition entry_score :: "knowledge_table \<Rightarrow> 64 word \<Rightarrow> 32 word \<Rightarrow> 8 word" where
  "entry_score t i now =
     (case find_index i t of None \<Rightarrow> 0 | Some k \<Rightarrow> ucast (entry_score_inner (kt_slots t ! k) now div 10))"

text \<open>\<^verbatim>\<open>min_by_key\<close>: the first of the smallest.\<close>

fun first_min :: "('a \<Rightarrow> 'b::linorder) \<Rightarrow> 'a list \<Rightarrow> 'a option" where
  "first_min key [] = None"
| "first_min key (x # xs) =
     (case first_min key xs of None \<Rightarrow> Some x | Some y \<Rightarrow> if key x \<le> key y then Some x else Some y)"

definition replace_index :: "32 word \<Rightarrow> knowledge_table \<Rightarrow> nat option" where
  "replace_index now t =
     (let es = enumerate 0 (kt_slots t); score = (\<lambda>ie. entry_score_inner (snd ie) now)
      in case first_min score (filter (\<lambda>ie. \<not> ke_dirty (snd ie)) es) of
           Some ie \<Rightarrow> Some (fst ie)
         | None \<Rightarrow> map_option fst (first_min score es))"

definition fresh_entry :: "64 word \<Rightarrow> 8 word \<Rightarrow> 32 word \<Rightarrow> knowledge_entry" where
  "fresh_entry i s now = \<lparr>ke_id = i, ke_last_seen = now, ke_hits = 0, ke_strength = s, ke_dirty = False\<rparr>"

definition seen_again :: "8 word \<Rightarrow> 32 word \<Rightarrow> knowledge_entry \<Rightarrow> knowledge_entry" where
  "seen_again s now e =
     e\<lparr>ke_last_seen := now, ke_hits := (if ke_hits e = - 1 then ke_hits e else ke_hits e + 1),
       ke_strength := max (ke_strength e) s, ke_dirty := False\<rparr>"

definition insert_or_update :: "64 word \<Rightarrow> 8 word \<Rightarrow> 32 word \<Rightarrow> knowledge_table \<Rightarrow> knowledge_table" where
  "insert_or_update i s now t =
     (if i = 0 then t
      else case find_index i t of
        Some k \<Rightarrow> t\<lparr>kt_slots := (kt_slots t)[k := seen_again s now (kt_slots t ! k)]\<rparr>
      | None \<Rightarrow>
          (case find_empty t of
             Some k \<Rightarrow> t\<lparr>kt_slots := (kt_slots t)[k := fresh_entry i s now], kt_count := kt_count t + 1\<rparr>
           | None \<Rightarrow>
               (case replace_index now t of
                  Some k \<Rightarrow> t\<lparr>kt_slots := (kt_slots t)[k := fresh_entry i s now]\<rparr>
                | None \<Rightarrow> t)))"

definition decay_entry :: "32 word \<Rightarrow> knowledge_entry \<Rightarrow> knowledge_entry" where
  "decay_entry now e =
     (if ke_id e = 0 then e
      else if ke_last_seen e = now then e
      else let e = e\<lparr>ke_strength := ke_strength e div 2\<rparr>
        in if entry_score_inner e now div 10 < ucast DECAY_THRESHOLD then e\<lparr>ke_dirty := True\<rparr> else e)"

definition decay :: "32 word \<Rightarrow> knowledge_table \<Rightarrow> knowledge_table" where
  "decay now t = t\<lparr>kt_slots := map (decay_entry now) (kt_slots t)\<rparr>"

text \<open>The identifiers written to a buffer of the given length, in the order of the slots.\<close>

definition collect_dirty :: "nat \<Rightarrow> knowledge_table \<Rightarrow> 64 word list" where
  "collect_dirty n t = take n (map ke_id (filter (\<lambda>e. ke_dirty e \<and> ke_id e \<noteq> 0) (kt_slots t)))"

definition clear_slot :: "64 word \<Rightarrow> knowledge_table \<Rightarrow> knowledge_table" where
  "clear_slot i t =
     (case find_index i t of
        None \<Rightarrow> t
      | Some k \<Rightarrow>
          let e = (kt_slots t ! k)\<lparr>ke_dirty := False\<rparr>
          in if ke_strength e = 0
             then t\<lparr>kt_slots := (kt_slots t)[k := e\<lparr>ke_id := 0, ke_hits := 0, ke_last_seen := 0\<rparr>],
                    kt_count := (if kt_count t = 0 then 0 else kt_count t - 1)\<rparr>
             else t\<lparr>kt_slots := (kt_slots t)[k := e]\<rparr>)"

definition clear_dirty :: "64 word list \<Rightarrow> knowledge_table \<Rightarrow> knowledge_table" where
  "clear_dirty ids t = fold clear_slot ids t"

section \<open>Scores\<close>

lemma unat_ucast_mod: "unat (ucast w :: 'b::len word) = unat w mod 2 ^ LENGTH('b)"
  by (simp add: unsigned_ucast_eq take_bit_eq_mod)

lemma unat_byte_le: "unat (b :: 8 word) \<le> 255"
proof -
  have "unat b < 2 ^ LENGTH(8)" by (rule unsigned_less)
  then show ?thesis by simp
qed

lemma recency_nat: "unat (recency now seen) = 255 - unat (now - seen)"
proof (cases "255 < now - seen")
  case True
  then have "255 < unat (now - seen)" by (simp add: word_less_nat_alt)
  then show ?thesis using True by (simp add: recency_def)
next
  case False
  then have a: "unat (now - seen) \<le> 255" by (simp add: word_less_nat_alt)
  then have "unat (ucast (now - seen) :: 8 word) = unat (now - seen)" by (simp add: unat_ucast_mod)
  moreover from this a have "(ucast (now - seen) :: 8 word) \<le> 255" by (simp add: word_le_nat_alt)
  ultimately show ?thesis using False by (simp add: recency_def unat_sub)
qed

text \<open>No product or sum overflows.\<close>

lemma score_nat:
  "unat (entry_score_inner e now) =
     5 * unat (ke_strength e) + 3 * min (unat (ke_hits e)) 255 + 2 * (255 - unat (now - ke_last_seen e))"
proof -
  have s: "unat (ke_strength e) \<le> 255" by (rule unat_byte_le)
  have h: "unat (min (ke_hits e) 255) = min (unat (ke_hits e)) 255"
    by (simp add: min_def word_le_nat_alt)
  have r: "unat (recency now (ke_last_seen e)) \<le> 255" by (simp add: recency_nat)
  have 1: "unat (ucast (ke_strength e) * 5 :: 16 word) = 5 * unat (ke_strength e)"
    using s by (simp add: unat_word_ariths unat_ucast_mod)
  have 2: "unat (min (ke_hits e) 255 * 3) = 3 * min (unat (ke_hits e)) 255"
    by (simp add: unat_word_ariths h)
  have 3: "unat (ucast (recency now (ke_last_seen e)) * 2 :: 16 word) = 2 * unat (recency now (ke_last_seen e))"
    using r by (simp add: unat_word_ariths unat_ucast_mod)
  show ?thesis
    using s r by (simp add: entry_score_inner_def unat_word_ariths(1) 1 2 3) (simp add: recency_nat)
qed

lemma score_bound: "unat (entry_score_inner e now) \<le> 2550"
  using unat_byte_le [of "ke_strength e"] by (simp add: score_nat)

section \<open>What the table keeps\<close>

text \<open>
  What the table of knowledge keeps: its slots, distinct identifiers and an exact count; what an insertion, a decay and a
  clearing do to the entry of an identifier; which entries decay marks.
\<close>

section \<open>Positions\<close>

lemma position_Some: "position p xs = Some k \<Longrightarrow> k < length xs \<and> p (xs ! k)"
  by (induction xs arbitrary: k) (auto split: if_splits)

lemma position_None: "position p xs = None \<longleftrightarrow> (\<forall>x \<in> set xs. \<not> p x)"
  by (induction xs) auto

lemma first_min_None [simp]: "first_min key xs = None \<longleftrightarrow> xs = []"
  by (cases xs) (auto split: option.splits)

lemma first_min_Some: "first_min key xs = Some x \<Longrightarrow> x \<in> set xs \<and> (\<forall>y \<in> set xs. key x \<le> key y)"
  by (induction xs arbitrary: x) (auto split: option.splits if_splits)

lemma slot_split:
  assumes "k < length xs"
  obtains as bs where "xs = as @ xs ! k # bs" "\<And>y. xs[k := y] = as @ y # bs"
  using assms id_take_nth_drop upd_conv_take_nth_drop by metis

section \<open>The invariant\<close>

text \<open>The identifiers in use.\<close>

definition used :: "64 word list \<Rightarrow> 64 word list" where
  "used ids = filter (\<lambda>i. i \<noteq> 0) ids"

definition table_wf :: "knowledge_table \<Rightarrow> bool" where
  "table_wf t \<longleftrightarrow> length (kt_slots t) = KNOWLEDGE_TABLE_SIZE \<and> distinct (used (map ke_id (kt_slots t))) \<and>
     unat (kt_count t) = length (used (map ke_id (kt_slots t)))"

lemma table_new_wf: "table_wf table_new"
  by (simp add: table_wf_def table_new_def used_def EMPTY_ENTRY_def KNOWLEDGE_TABLE_SIZE_def)

lemma used_update:
  assumes "distinct (used ids)" "k < length ids"
  shows "i \<noteq> 0 \<Longrightarrow> i \<notin> set ids \<Longrightarrow> distinct (used (ids[k := i]))"
    and "distinct (used (ids[k := 0]))"
    and "ids ! k = 0 \<Longrightarrow> i \<noteq> 0 \<Longrightarrow> length (used (ids[k := i])) = length (used ids) + 1"
    and "ids ! k \<noteq> 0 \<Longrightarrow> i \<noteq> 0 \<Longrightarrow> length (used (ids[k := i])) = length (used ids)"
    and "ids ! k \<noteq> 0 \<Longrightarrow> length (used (ids[k := 0])) + 1 = length (used ids)"
proof -
  obtain as x bs where s: "ids = as @ x # bs" and x: "ids ! k = x" and u: "\<And>y. ids[k := y] = as @ y # bs"
    using slot_split [OF assms(2)] by metis
  have d: "distinct (used as @ used bs)" using assms(1) by (auto simp: s used_def split: if_splits)
  show "i \<noteq> 0 \<Longrightarrow> i \<notin> set ids \<Longrightarrow> distinct (used (ids[k := i]))"
    unfolding u using d by (auto simp: s used_def)
  show "distinct (used (ids[k := 0]))" unfolding u using d by (simp add: used_def)
  show "ids ! k = 0 \<Longrightarrow> i \<noteq> 0 \<Longrightarrow> length (used (ids[k := i])) = length (used ids) + 1"
    and "ids ! k \<noteq> 0 \<Longrightarrow> i \<noteq> 0 \<Longrightarrow> length (used (ids[k := i])) = length (used ids)"
    and "ids ! k \<noteq> 0 \<Longrightarrow> length (used (ids[k := 0])) + 1 = length (used ids)"
    unfolding u x by (simp_all add: s used_def)
qed

lemma used_le: "table_wf t \<Longrightarrow> length (used (map ke_id (kt_slots t))) \<le> 64"
  using length_filter_le [of "\<lambda>i. i \<noteq> 0" "map ke_id (kt_slots t)"] by (simp add: table_wf_def KNOWLEDGE_TABLE_SIZE_def used_def)

lemma count_up: "table_wf t \<Longrightarrow> unat (kt_count t + 1) = unat (kt_count t) + 1"
  using used_le [of t] by (simp add: table_wf_def unat_word_ariths)

lemma find_index_Some:
  "find_index i t = Some k \<Longrightarrow> k < length (kt_slots t) \<and> ke_id (kt_slots t ! k) = i"
  unfolding find_index_def using position_Some by fastforce

lemma find_index_None: "find_index i t = None \<longleftrightarrow> i \<notin> set (map ke_id (kt_slots t))"
  by (auto simp: find_index_def position_None)

lemma find_empty_Some: "find_empty t = Some k \<Longrightarrow> k < length (kt_slots t) \<and> ke_id (kt_slots t ! k) = 0"
  unfolding find_empty_def using position_Some by fastforce

lemma find_empty_None: "find_empty t = None \<longleftrightarrow> (\<forall>e \<in> set (kt_slots t). ke_id e \<noteq> 0)"
  by (simp add: find_empty_def position_None)

text \<open>The slot that a full table gives up exists; it is one of the lowest score, and not a marked one if it can be helped.\<close>

lemma replace_index_best:
  assumes "kt_slots t \<noteq> []"
  obtains k where "replace_index now t = Some k" "k < length (kt_slots t)"
    "\<not> ke_dirty (kt_slots t ! k) \<or> (\<forall>e \<in> set (kt_slots t). ke_dirty e)"
    "\<And>e. e \<in> set (kt_slots t) \<Longrightarrow> (\<not> ke_dirty e \<or> ke_dirty (kt_slots t ! k)) \<Longrightarrow>
       entry_score_inner (kt_slots t ! k) now \<le> entry_score_inner e now"
proof -
  let ?es = "enumerate 0 (kt_slots t)" and ?s = "\<lambda>ie. entry_score_inner (snd ie) now"
  have mem: "ie \<in> set ?es \<longleftrightarrow> fst ie < length (kt_slots t) \<and> kt_slots t ! fst ie = snd ie" for ie
    by (cases ie) (auto simp: in_set_enumerate_eq)
  have idx: "\<exists>k. (k, e) \<in> set ?es" if "e \<in> set (kt_slots t)" for e
  proof -
    obtain k where "k < length (kt_slots t)" "kt_slots t ! k = e" using \<open>e \<in> set (kt_slots t)\<close> by (auto simp: in_set_conv_nth)
    then show ?thesis using mem [of "(k, e)"] by auto
  qed
  show ?thesis
  proof (cases "first_min ?s (filter (\<lambda>ie. \<not> ke_dirty (snd ie)) ?es)")
    case (Some ie)
    note m = first_min_Some [OF Some]
    have "ie \<in> set ?es" "\<not> ke_dirty (snd ie)" using m by auto
    then have k: "fst ie < length (kt_slots t)" "kt_slots t ! fst ie = snd ie" "\<not> ke_dirty (snd ie)" by (simp_all add: mem)
    have low: "entry_score_inner (snd ie) now \<le> entry_score_inner e now" if "e \<in> set (kt_slots t)" "\<not> ke_dirty e" for e
      using idx [OF that(1)] m that(2) by fastforce
    show ?thesis by (rule that [of "fst ie"]) (use k low in \<open>auto simp: replace_index_def Some\<close>)
  next
    case None
    then have all: "\<forall>e \<in> set (kt_slots t). ke_dirty e" using idx by (fastforce simp: filter_empty_conv)
    obtain ie where ie: "first_min ?s ?es = Some ie"
      using assms first_min_None [of ?s ?es] length_enumerate [of 0 "kt_slots t"] by (cases "first_min ?s ?es") auto
    note m = first_min_Some [OF ie]
    then have k: "fst ie < length (kt_slots t)" "kt_slots t ! fst ie = snd ie" by (simp_all add: mem)
    have low: "entry_score_inner (snd ie) now \<le> entry_score_inner e now" if "e \<in> set (kt_slots t)" for e
      using idx [OF that] m by fastforce
    show ?thesis by (rule that [of "fst ie"]) (use k low all in \<open>auto simp: replace_index_def None ie\<close>)
  qed
qed

lemma insert_wf: "table_wf t \<Longrightarrow> table_wf (insert_or_update i s now t)"
proof -
  assume wf: "table_wf t"
  then have len: "length (kt_slots t) = 64" and d: "distinct (used (map ke_id (kt_slots t)))"
    and c: "unat (kt_count t) = length (used (map ke_id (kt_slots t)))"
    by (simp_all add: table_wf_def KNOWLEDGE_TABLE_SIZE_def)
  show ?thesis
  proof (cases "i = 0")
    case False
    show ?thesis
    proof (cases "find_index i t")
      case (Some k)
      then have "k < length (kt_slots t)" "ke_id (kt_slots t ! k) = i" using find_index_Some by auto
      then have "map ke_id ((kt_slots t)[k := seen_again s now (kt_slots t ! k)]) = map ke_id (kt_slots t)"
        by (simp add: map_update seen_again_def list_update_same_conv)
      then show ?thesis using wf False by (simp add: insert_or_update_def Some table_wf_def)
    next
      case None
      then have new: "i \<notin> set (map ke_id (kt_slots t))" by (simp add: find_index_None)
      show ?thesis
      proof (cases "find_empty t")
        case (Some k)
        then have k: "k < length (map ke_id (kt_slots t))" "map ke_id (kt_slots t) ! k = 0" using find_empty_Some by auto
        then show ?thesis
          using False None Some used_update(1) [OF d k(1) False new] used_update(3) [OF d k(1,2) False] count_up [OF wf] c len
          by (simp add: insert_or_update_def table_wf_def map_update fresh_entry_def KNOWLEDGE_TABLE_SIZE_def)
      next
        case full: None
        have "kt_slots t \<noteq> []" using len by auto
        then obtain k where r: "replace_index now t = Some k" and k: "k < length (map ke_id (kt_slots t))"
          by (elim replace_index_best [of t now]) simp
        have "map ke_id (kt_slots t) ! k \<noteq> 0" using full k by (simp add: find_empty_None)
        then show ?thesis
          using False None full r used_update(1) [OF d k False new] used_update(4) [OF d k _ False] c len
          by (simp add: insert_or_update_def table_wf_def map_update fresh_entry_def KNOWLEDGE_TABLE_SIZE_def)
      qed
    qed
  qed (simp add: insert_or_update_def wf)
qed

lemma decay_id [simp]: "ke_id (decay_entry now e) = ke_id e"
  by (simp add: decay_entry_def Let_def)

lemma decay_wf: "table_wf t \<Longrightarrow> table_wf (decay now t)"
  by (simp add: table_wf_def decay_def comp_def)

lemma clear_slot_wf:
  assumes "table_wf t" "i \<noteq> 0" shows "table_wf (clear_slot i t)"
proof (cases "find_index i t")
  case (Some k)
  have d: "distinct (used (map ke_id (kt_slots t)))" and c: "unat (kt_count t) = length (used (map ke_id (kt_slots t)))"
    using assms(1) by (simp_all add: table_wf_def)
  have k: "k < length (map ke_id (kt_slots t))" and i: "ke_id (kt_slots t ! k) = i" using find_index_Some [OF Some] by auto
  have same: "map ke_id ((kt_slots t)[k := (kt_slots t ! k)\<lparr>ke_dirty := False\<rparr>]) = map ke_id (kt_slots t)"
    using k by (simp add: map_update list_update_same_conv)
  have one: "length (used ((map ke_id (kt_slots t))[k := 0])) + 1 = length (used (map ke_id (kt_slots t)))"
    using used_update(5) [OF d k] k i assms(2) by simp
  have "unat (kt_count t) \<noteq> 0" unfolding c using one by linarith
  then have n: "kt_count t \<noteq> 0" by auto
  then have "unat (kt_count t - 1) = unat (kt_count t) - 1" by (simp add: unat_minus_one)
  also have "\<dots> = length (used ((map ke_id (kt_slots t))[k := 0]))" unfolding c using one by linarith
  finally show ?thesis
    using assms(1) same c n used_update(2) [OF d k]
    by (simp add: clear_slot_def Some Let_def table_wf_def map_update)
qed (use assms in \<open>simp add: clear_slot_def\<close>)

lemma clear_dirty_wf: "table_wf t \<Longrightarrow> 0 \<notin> set ids \<Longrightarrow> table_wf (clear_dirty ids t)"
  unfolding clear_dirty_def by (induction ids arbitrary: t) (auto intro: clear_slot_wf)

section \<open>Decay\<close>

text \<open>
  An entry is marked exactly when, with its strength halved, five times the strength, three times the hits and twice
  the recency stay below 320; entries of this instant are spared.
\<close>

lemma decay_marks:
  assumes "ke_id e \<noteq> 0" "ke_last_seen e \<noteq> now"
  shows "ke_dirty (decay_entry now e) \<longleftrightarrow> ke_dirty e \<or>
      5 * (unat (ke_strength e) div 2) + 3 * min (unat (ke_hits e)) 255 + 2 * (255 - unat (now - ke_last_seen e)) < 320"
    and "ke_strength (decay_entry now e) = ke_strength e div 2"
proof -
  define f where "f = e\<lparr>ke_strength := ke_strength e div 2\<rparr>"
  have "entry_score_inner f now div 10 < ucast DECAY_THRESHOLD \<longleftrightarrow> unat (entry_score_inner f now) div 10 < 32"
    by (simp add: word_less_nat_alt unat_div DECAY_THRESHOLD_def)
  also have "\<dots> \<longleftrightarrow> unat (entry_score_inner f now) < 320" by auto
  also have "unat (entry_score_inner f now) =
      5 * (unat (ke_strength e) div 2) + 3 * min (unat (ke_hits e)) 255 + 2 * (255 - unat (now - ke_last_seen e))"
    unfolding score_nat by (simp add: f_def unat_div)
  finally show "ke_dirty (decay_entry now e) \<longleftrightarrow> ke_dirty e \<or>
      5 * (unat (ke_strength e) div 2) + 3 * min (unat (ke_hits e)) 255 + 2 * (255 - unat (now - ke_last_seen e)) < 320"
    using assms by (auto simp: decay_entry_def Let_def f_def)
  show "ke_strength (decay_entry now e) = ke_strength e div 2"
    using assms by (simp add: decay_entry_def Let_def)
qed

text \<open>An entry seen again at least 107 times is never marked, however weak and old it is.\<close>

lemma hits_protect: "107 \<le> unat (ke_hits e) \<Longrightarrow> \<not> ke_dirty e \<Longrightarrow> \<not> ke_dirty (decay_entry now e)"
proof (cases "ke_id e \<noteq> 0 \<and> ke_last_seen e \<noteq> now")
  case True
  assume "107 \<le> unat (ke_hits e)" "\<not> ke_dirty e"
  then show ?thesis using True by (auto simp: decay_marks min_def)
qed (auto simp: decay_entry_def)

section \<open>Entries by identifier\<close>

definition entry_of :: "64 word \<Rightarrow> knowledge_table \<Rightarrow> knowledge_entry option" where
  "entry_of i t = map_option (\<lambda>k. kt_slots t ! k) (find_index i t)"

lemma position_update_other:
  "k < length xs \<Longrightarrow> \<not> p (xs ! k) \<Longrightarrow> \<not> p y \<Longrightarrow> position p (xs[k := y]) = position p xs"
proof (induction xs arbitrary: k)
  case (Cons x xs)
  then show ?case by (cases k) simp_all
qed simp

lemma position_update_same:
  "position p xs = Some k \<Longrightarrow> p y \<Longrightarrow> position p (xs[k := y]) = Some k"
proof (induction xs arbitrary: k)
  case (Cons x xs)
  then show ?case by (cases k) (auto split: if_splits)
qed simp

lemma entry_of_update:
  assumes "k < length (kt_slots t)" "ke_id (kt_slots t ! k) \<noteq> j" "ke_id e \<noteq> j"
  shows "entry_of j (t\<lparr>kt_slots := (kt_slots t)[k := e], kt_count := c\<rparr>) = entry_of j t"
proof (cases "find_index j t")
  case None
  then show ?thesis
    using position_update_other [of k "kt_slots t" "\<lambda>e. ke_id e = j" e] assms by (simp add: entry_of_def find_index_def)
next
  case (Some n)
  then have "n \<noteq> k" using assms(2) find_index_Some by blast
  then show ?thesis
    using Some position_update_other [of k "kt_slots t" "\<lambda>e. ke_id e = j" e] assms by (simp add: entry_of_def find_index_def)
qed

lemma entry_of_decay: "entry_of i (decay now t) = map_option (decay_entry now) (entry_of i t)"
proof -
  have "position (\<lambda>e. ke_id e = i) (map (decay_entry now) es) = position (\<lambda>e. ke_id e = i) es" for es
    by (induction es) simp_all
  then show ?thesis using find_index_Some [of i t]
    by (cases "find_index i t") (auto simp: entry_of_def find_index_def decay_def)
qed

text \<open>What was inserted is there, with the larger strength and unmarked.\<close>

lemma entry_of_insert:
  assumes "i \<noteq> 0" "kt_slots t \<noteq> []"
  shows "entry_of i (insert_or_update i s now t) =
    Some (case entry_of i t of None \<Rightarrow> fresh_entry i s now | Some e \<Rightarrow> seen_again s now e)"
proof (cases "find_index i t")
  case (Some k)
  note k = find_index_Some [OF Some]
  have "find_index i (t\<lparr>kt_slots := (kt_slots t)[k := seen_again s now (kt_slots t ! k)]\<rparr>) = Some k"
    using Some k by (simp add: find_index_def position_update_same seen_again_def)
  then show ?thesis using Some k assms(1) by (simp add: insert_or_update_def entry_of_def)
next
  case None
  have there: "entry_of i (t\<lparr>kt_slots := (kt_slots t)[k := fresh_entry i s now], kt_count := c\<rparr>) = Some (fresh_entry i s now)"
    if k: "k < length (kt_slots t)" for k c
  proof -
    have "position (\<lambda>e. ke_id e = i) (es[n := fresh_entry i s now]) = Some n" if "n < length es" "\<forall>e \<in> set es. ke_id e \<noteq> i" for n es
      using that
    proof (induction es arbitrary: n)
      case (Cons e es)
      then show ?case by (cases n) (auto simp: fresh_entry_def)
    qed simp
    then show ?thesis using None k by (simp add: entry_of_def find_index_def position_None)
  qed
  have slot: "\<exists>k c. k < length (kt_slots t) \<and> insert_or_update i s now t = t\<lparr>kt_slots := (kt_slots t)[k := fresh_entry i s now], kt_count := c\<rparr>"
  proof (cases "find_empty t")
    case (Some k)
    then show ?thesis using None find_empty_Some [OF Some] assms(1) by (auto simp: insert_or_update_def)
  next
    case full: None
    obtain k where r: "replace_index now t = Some k" and "k < length (kt_slots t)"
      using assms(2) by (elim replace_index_best [of t now]) simp
    then show ?thesis using None full assms(1) by (intro exI [of _ k] exI [of _ "kt_count t"]) (simp add: insert_or_update_def)
  qed
  then obtain k c where "k < length (kt_slots t)"
    "insert_or_update i s now t = t\<lparr>kt_slots := (kt_slots t)[k := fresh_entry i s now], kt_count := c\<rparr>" by blast
  then show ?thesis using there None by (simp add: entry_of_def)
qed

lemma used_removed:
  assumes "distinct (used ids)" "k < length ids" "ids ! k \<noteq> 0"
  shows "ids ! k \<notin> set (ids[k := 0])"
proof -
  obtain as x bs where s: "ids = as @ x # bs" and x: "ids ! k = x" and u: "\<And>y. ids[k := y] = as @ y # bs"
    using slot_split [OF assms(2)] by metis
  have "x \<noteq> 0" using assms(3) x by simp
  then show ?thesis using assms(1) unfolding u x by (auto simp: s used_def)
qed

lemma entry_of_clear:
  assumes "i \<noteq> 0" "j \<noteq> 0" "table_wf t"
  shows "entry_of j (clear_slot i t) =
    (if j = i then (case entry_of i t of None \<Rightarrow> None
       | Some e \<Rightarrow> if ke_strength e = 0 then None else Some (e\<lparr>ke_dirty := False\<rparr>))
     else entry_of j t)"
proof (cases "find_index i t")
  case (Some k)
  note k = find_index_Some [OF Some]
  define e where "e = kt_slots t ! k"
  define f where "f = (if ke_strength e = 0 then e\<lparr>ke_dirty := False, ke_id := 0, ke_hits := 0, ke_last_seen := 0\<rparr> else e\<lparr>ke_dirty := False\<rparr>)"
  have id: "ke_id e = i" using k by (simp add: e_def)
  obtain c where c: "clear_slot i t = t\<lparr>kt_slots := (kt_slots t)[k := f], kt_count := c\<rparr>"
  proof (cases "ke_strength e = 0")
    case True
    then show ?thesis
      by (intro that [of "if kt_count t = 0 then 0 else kt_count t - 1"]) (simp add: clear_slot_def Some Let_def f_def e_def)
  next
    case False
    then show ?thesis by (intro that [of "kt_count t"]) (simp add: clear_slot_def Some Let_def f_def e_def)
  qed
  have e_of: "entry_of i t = Some e" by (simp add: entry_of_def Some e_def)
  show ?thesis
  proof (cases "j = i")
    case False
    have "ke_id f \<noteq> j" using False id assms(2) by (simp add: f_def)
    then have "entry_of j (clear_slot i t) = entry_of j t"
      unfolding c by (intro entry_of_update) (use k False in auto)
    then show ?thesis using False by simp
  next
    case True
    show ?thesis
    proof (cases "ke_strength e = 0")
      case zero: True
      have "i \<notin> set ((map ke_id (kt_slots t))[k := 0])"
        using used_removed [of "map ke_id (kt_slots t)" k] k assms(1,3) by (simp add: table_wf_def)
      then have "find_index i (clear_slot i t) = None"
        unfolding c find_index_None by (simp add: map_update f_def zero)
      then show ?thesis using True zero by (simp add: entry_of_def [of i "clear_slot i t"] e_of)
    next
      case False
      then have "ke_id f = i" using id by (simp add: f_def)
      then have "find_index i (clear_slot i t) = Some k"
        unfolding c using Some by (simp add: find_index_def position_update_same)
      moreover have "kt_slots (clear_slot i t) ! k = f" using k by (simp add: c)
      ultimately have "entry_of i (clear_slot i t) = Some f" by (simp add: entry_of_def)
      then show ?thesis using True False by (simp add: e_of f_def)
    qed
  qed
qed (use assms in \<open>auto simp: clear_slot_def entry_of_def\<close>)

text \<open>Clearing distinct identifiers takes the mark off the strong entries and removes the ones without strength.\<close>

lemma entry_of_clear_dirty:
  assumes "distinct ids" "0 \<notin> set ids" "j \<noteq> 0" "table_wf t"
  shows "entry_of j (clear_dirty ids t) =
    (if j \<in> set ids then (case entry_of j t of None \<Rightarrow> None
       | Some e \<Rightarrow> if ke_strength e = 0 then None else Some (e\<lparr>ke_dirty := False\<rparr>))
     else entry_of j t)"
  using assms(1,2,4)
proof (induction ids arbitrary: t)
  case (Cons i ids)
  have i: "i \<noteq> 0" and w: "table_wf (clear_slot i t)" using Cons.prems by (auto intro: clear_slot_wf)
  have "entry_of j (clear_dirty (i # ids) t) = entry_of j (clear_dirty ids (clear_slot i t))" by (simp add: clear_dirty_def)
  then show ?case
    using Cons.IH [OF _ _ w] Cons.prems entry_of_clear [OF i assms(3) Cons.prems(3)] by auto
qed (simp add: clear_dirty_def)

text \<open>The marked entries are those collected, when the buffer has room for the whole table.\<close>

lemma entry_of_member:
  assumes "table_wf t" "e \<in> set (kt_slots t)" "ke_id e \<noteq> 0" shows "entry_of (ke_id e) t = Some e"
proof -
  obtain k where k: "find_index (ke_id e) t = Some k"
    using assms(2) find_index_None [of "ke_id e" t] by (cases "find_index (ke_id e) t") auto
  note f = find_index_Some [OF k]
  obtain as x bs where s: "kt_slots t = as @ x # bs" and x: "kt_slots t ! k = x"
    using slot_split [of k "kt_slots t"] f by metis
  have "ke_id x = ke_id e" using f x by simp
  then have "x = e" using assms by (auto simp: table_wf_def s used_def split: if_splits)
  then show ?thesis using x by (simp add: entry_of_def k)
qed

lemma entry_of_in: "entry_of i t = Some e \<Longrightarrow> e \<in> set (kt_slots t) \<and> ke_id e = i"
  using find_index_Some [of i t] by (auto simp: entry_of_def)

lemma collect_all:
  assumes "table_wf t"
  shows "set (collect_dirty KNOWLEDGE_TABLE_SIZE t) = {i. i \<noteq> 0 \<and> (\<exists>e. entry_of i t = Some e \<and> ke_dirty e)} \<and>
    distinct (collect_dirty KNOWLEDGE_TABLE_SIZE t) \<and> length (collect_dirty KNOWLEDGE_TABLE_SIZE t) \<le> 64"
proof -
  define ds where "ds = filter (\<lambda>e. ke_dirty e \<and> ke_id e \<noteq> 0) (kt_slots t)"
  have "length ds \<le> length (kt_slots t)" unfolding ds_def by (rule length_filter_le)
  then have l: "length ds \<le> 64" using assms by (simp add: table_wf_def KNOWLEDGE_TABLE_SIZE_def)
  then have c: "collect_dirty KNOWLEDGE_TABLE_SIZE t = map ke_id ds"
    by (simp add: collect_dirty_def ds_def KNOWLEDGE_TABLE_SIZE_def)
  have u: "used (map ke_id es) = map ke_id (filter (\<lambda>e. ke_id e \<noteq> 0) es)" for es by (simp add: used_def filter_map comp_def)
  have "distinct (map ke_id (filter (\<lambda>e. ke_id e \<noteq> 0) (kt_slots t)))" using assms by (simp add: table_wf_def u)
  then have "distinct (map ke_id (filter ke_dirty (filter (\<lambda>e. ke_id e \<noteq> 0) (kt_slots t))))" by (rule distinct_map_filter)
  then have "distinct (map ke_id ds)" by (simp add: ds_def conj_commute)
  moreover have "set (map ke_id ds) = {i. i \<noteq> 0 \<and> (\<exists>e. entry_of i t = Some e \<and> ke_dirty e)}"
    using entry_of_member [OF assms] entry_of_in [of _ t] by (fastforce simp: ds_def image_iff)
  ultimately show ?thesis using l c by simp
qed

end
