(* ===== verification/Cortex_Host.thy ===== *)
theory Cortex_Host
  imports Nexo_Prelude
begin

text \<open>
  What the host offers to the WebAssembly cortex: the semantic memory (\<^verbatim>\<open>crates/host/src/memory.rs\<close>) and the
  imported functions (\<^verbatim>\<open>crates/host/src/ffi.rs\<close>), which read and write the bytes of the guest's memory at
  32-bit addresses. Addresses are extended to the 64 bits of the host before they are added, so no bounds check wraps.
  The packet decoder, the serializer and the channel are libraries and come as arguments.
\<close>

section \<open>Packets\<close>

definition PACKET_PROVENANCE :: nat where "PACKET_PROVENANCE = 12"

record packet_provenance =
  pp_fragments :: "u64 list"
  pp_influence :: bytes
  pp_count :: byte

definition packet_provenance_default :: packet_provenance where
  "packet_provenance_default =
     \<lparr>pp_fragments = replicate PACKET_PROVENANCE 0, pp_influence = replicate PACKET_PROVENANCE 0, pp_count = 0\<rparr>"

record nexo_packet =
  np_fragment_id :: u64
  np_payload :: bytes
  np_provenance :: packet_provenance

section \<open>The semantic memory\<close>

record fragment_meta =
  fm_offset :: nat
  fm_len :: nat

text \<open>The texts of the dictionary are their UTF-8 bytes.\<close>

record memory_store =
  ms_index :: "u64 \<rightharpoonup> fragment_meta"
  ms_tombstones :: "u64 set"
  ms_live :: "u64 set"
  ms_dict :: "bytes \<rightharpoonup> bytes"

definition memory_store_new :: memory_store where
  "memory_store_new = \<lparr>ms_index = Map.empty, ms_tombstones = {}, ms_live = {}, ms_dict = Map.empty\<rparr>"

definition mark_for_deletion :: "u64 list \<Rightarrow> memory_store \<Rightarrow> memory_store" where
  "mark_for_deletion ids s =
     fold (\<lambda>i s. s\<lparr>ms_tombstones := insert i (ms_tombstones s), ms_live := ms_live s - {i}\<rparr>) ids s"

text \<open>What is printed of a packet: its text, or a notice that the hash has none.\<close>

datatype spoken = Translated bytes | Untranslated bytes

text \<open>The state of the host that the imported functions use; the channel is of any type.\<close>

record 'q host_state =
  hs_store :: memory_store
  hs_tx :: 'q
  hs_out :: "spoken list"

section \<open>Imported functions\<close>

text \<open>\<open>None\<close> is a panic of the host.\<close>

definition request_manifest :: "bytes \<Rightarrow> bytes \<Rightarrow> 32 word \<Rightarrow> 32 word \<Rightarrow> (32 word \<times> bytes) option" where
  "request_manifest manifest mem ptr max_len =
     (let len = word_of_nat (length manifest) :: 32 word; start = unat ptr; stop = start + unat len
      in if max_len < len then Some (0, mem)
         else if length mem < stop \<or> unat len \<noteq> length manifest then None
         else Some (len, put_at start manifest mem))"

definition request_fragment_by_id :: "u64 \<Rightarrow> 32 word \<Rightarrow> 32 word \<Rightarrow> 32 word" where
  "request_fragment_by_id i ptr max_len = 0"

definition lookup_semantic ::
    "memory_store \<Rightarrow> bytes \<Rightarrow> 32 word \<Rightarrow> 32 word \<Rightarrow> 32 word \<Rightarrow> (32 word \<times> bytes) option" where
  "lookup_semantic s mem hash_ptr out_ptr out_max_len =
     (let hash_start = unat hash_ptr; hash_end = hash_start + 32
      in if length mem < hash_end then Some (0, mem)
         else case ms_dict s (slice mem hash_start hash_end) of
           None \<Rightarrow> Some (0, mem)
         | Some text \<Rightarrow>
             (let len = word_of_nat (length text) :: 32 word; out_start = unat out_ptr; out_end = out_start + unat len
              in if out_max_len < len then Some (0, mem)
                 else if length mem < out_end then Some (0, mem)
                 else if unat len \<noteq> length text then None
                 else Some (len, put_at out_start text mem)))"

definition batch_forget :: "bytes \<Rightarrow> 32 word \<Rightarrow> 32 word \<Rightarrow> 'q host_state \<Rightarrow> 32 word \<times> 'q host_state" where
  "batch_forget mem ptr n h =
     (let start = unat ptr; stop = start + unat n * 8
      in if length mem < stop \<or> n = 0 then (0, h)
         else let ids = map (\<lambda>i. u64_from_le (slice mem (start + i * 8) (start + i * 8 + 8))) [0..<unat n];
                  processed = word_of_nat (length (filter (\<lambda>i. i \<noteq> 0) ids))
              in (processed,
                  fold (\<lambda>i h. if i \<noteq> 0 then h\<lparr>hs_store := mark_for_deletion [i] (hs_store h)\<rparr> else h) ids h))"

definition forget_active_context :: "u64 \<Rightarrow> 'q host_state \<Rightarrow> 32 word \<times> 'q host_state" where
  "forget_active_context i h = (1, h\<lparr>hs_store := mark_for_deletion [i] (hs_store h)\<rparr>)"

definition broadcast_packet ::
    "(bytes \<Rightarrow> nexo_packet option) \<Rightarrow> (bytes \<Rightarrow> 'q \<Rightarrow> 'q) \<Rightarrow> bytes \<Rightarrow> 32 word \<Rightarrow> 32 word \<Rightarrow> 'q host_state
      \<Rightarrow> 32 word \<times> 'q host_state" where
  "broadcast_packet from_bytes try_send mem ptr len h =
     (let start = unat ptr; stop = start + unat len
      in if stop \<le> length mem then
           (let packet_bytes = slice mem start stop;
                h = (case from_bytes packet_bytes of
                       None \<Rightarrow> h
                     | Some p \<Rightarrow> h\<lparr>hs_out := hs_out h @
                         [case ms_dict (hs_store h) (np_payload p) of Some text \<Rightarrow> Translated text | None \<Rightarrow> Untranslated (np_payload p)]\<rparr>)
            in (1, h\<lparr>hs_tx := try_send packet_bytes (hs_tx h)\<rparr>))
         else (0, h))"

section \<open>Marks\<close>

lemma mark_for_deletion_sets:
  "ms_tombstones (mark_for_deletion ids s) = set ids \<union> ms_tombstones s"
  "ms_live (mark_for_deletion ids s) = ms_live s - set ids"
  "ms_index (mark_for_deletion ids s) = ms_index s"
  "ms_dict (mark_for_deletion ids s) = ms_dict s"
  unfolding mark_for_deletion_def by (induction ids arbitrary: s) auto

lemma mark_for_deletion_eq:
  "mark_for_deletion ids s = s\<lparr>ms_tombstones := set ids \<union> ms_tombstones s, ms_live := ms_live s - set ids\<rparr>"
  by (rule memory_store.equality) (simp_all add: mark_for_deletion_sets)

text \<open>No identifier is live and forgotten at once.\<close>

definition store_wf :: "memory_store \<Rightarrow> bool" where
  "store_wf s \<longleftrightarrow> ms_live s \<inter> ms_tombstones s = {}"

lemma mark_for_deletion_wf: "store_wf s \<Longrightarrow> store_wf (mark_for_deletion ids s)"
  by (auto simp: store_wf_def mark_for_deletion_sets)

text \<open>The batch read from memory is the list of identifiers that was written there.\<close>

lemma fold_mark_one:
  "fold (\<lambda>i h. if i \<noteq> 0 then h\<lparr>hs_store := mark_for_deletion [i] (hs_store h)\<rparr> else h) ids h =
     h\<lparr>hs_store := mark_for_deletion (filter (\<lambda>i. i \<noteq> 0) ids) (hs_store h)\<rparr>"
  by (induction ids arbitrary: h) (simp_all add: mark_for_deletion_def)

lemma concat_u64_nth:
  "i < length ids \<Longrightarrow> slice (concat (map u64_to_le ids)) (i * 8) (i * 8 + 8) = u64_to_le (ids ! i)"
proof (induction ids arbitrary: i)
  case (Cons x xs)
  show ?case
  proof (cases i)
    case 0
    then show ?thesis by (simp add: slice_def)
  next
    case (Suc j)
    then show ?thesis using Cons.IH [of j] Cons.prems by (simp add: slice_append_right add.commute)
  qed
qed simp

lemma length_concat_u64 [simp, len_simps]: "length (concat (map u64_to_le ids)) = 8 * length ids"
  by (induction ids) auto

lemma slice_put_at:
  "off + length bs \<le> length mem \<Longrightarrow> b \<le> length bs \<Longrightarrow> a \<le> b \<Longrightarrow> slice (put_at off bs mem) (off + a) (off + b) = slice bs a b"
  by (simp add: slice_def put_at_def)

lemma batch_forget_written:
  assumes "unat ptr + 8 * length ids \<le> length mem" "n \<noteq> 0" "unat n \<le> length ids"
  shows "batch_forget (put_at (unat ptr) (concat (map u64_to_le ids)) mem) ptr n h =
    (word_of_nat (length (filter (\<lambda>i. i \<noteq> 0) (take (unat n) ids))),
     h\<lparr>hs_store := mark_for_deletion (filter (\<lambda>i. i \<noteq> 0) (take (unat n) ids)) (hs_store h)\<rparr>)"
proof -
  define mem' where "mem' = put_at (unat ptr) (concat (map u64_to_le ids)) mem"
  have len: "length mem' = length mem" using assms(1) by (simp add: mem'_def)
  have read: "u64_from_le (slice mem' (unat ptr + i * 8) (unat ptr + i * 8 + 8)) = ids ! i" if "i < unat n" for i
  proof -
    have i: "i < length ids" using that assms(3) by simp
    have "slice mem' (unat ptr + i * 8) (unat ptr + (i * 8 + 8)) = slice (concat (map u64_to_le ids)) (i * 8) (i * 8 + 8)"
      unfolding mem'_def using assms(1) i by (intro slice_put_at) simp_all
    then show ?thesis using concat_u64_nth [OF i] by (simp add: add.assoc)
  qed
  have "map (\<lambda>i. u64_from_le (slice mem' (unat ptr + i * 8) (unat ptr + i * 8 + 8))) [0..<unat n] = take (unat n) ids"
    using read assms(3) by (intro nth_equalityI) simp_all
  moreover have "\<not> length mem' < unat ptr + unat n * 8" using len assms(1,3) by simp
  ultimately show ?thesis
    unfolding mem'_def [symmetric] using assms(2) by (simp add: batch_forget_def Let_def fold_mark_one)
qed

text \<open>The channel is not asked whether it took the packet: the answer is 1 for any range inside the memory.\<close>

lemma broadcast_packet_sent:
  "unat ptr + unat len \<le> length mem \<Longrightarrow>
     fst (broadcast_packet from_bytes try_send mem ptr len h) = 1 \<and>
     hs_tx (snd (broadcast_packet from_bytes try_send mem ptr len h)) =
       try_send (slice mem (unat ptr) (unat ptr + unat len)) (hs_tx h) \<and>
     hs_store (snd (broadcast_packet from_bytes try_send mem ptr len h)) = hs_store h"
  by (simp add: broadcast_packet_def Let_def split: option.splits)

lemma batch_forget_count:
  "unat (fst (batch_forget mem ptr n h)) \<le> unat n"
proof -
  have "unat (word_of_nat (length (filter (\<lambda>i. i \<noteq> 0) (map f [0..<unat n]))) :: 32 word) \<le> unat n" for f :: "nat \<Rightarrow> u64"
    using length_filter_le [of "\<lambda>i. i \<noteq> 0" "map f [0..<unat n]"] unsigned_less [of n]
    by (simp add: unat_of_nat)
  then show ?thesis by (simp add: batch_forget_def Let_def)
qed

end
