(* ===== verification/Cortex.thy ===== *)
theory Cortex
  imports Cortex_Knowledge Cortex_Host F64
begin

text \<open>
  The WebAssembly cortex (\<^verbatim>\<open>crates/wasm_cortex/src\<close>): the provenance a packet carries, the contradiction score, the
  bump allocator, and the life of a packet: the table of knowledge, the REM cycle, the persistent value and strength,
  and the reflex sent back to the host. Machine integers wrap, as in the release build of a guest;
  a debug build traps instead when the count of ingestions or an address of the allocator overflows.
  \<open>None\<close> is a trap of the guest. The guest's memory is a byte list; the addresses of its static buffer and of
  its stack buffer are arguments.
\<close>

section \<open>Provenance of a packet\<close>

definition sat_add8 :: "byte \<Rightarrow> byte \<Rightarrow> byte" where
  "sat_add8 a b = (if 255 < unat a + unat b then - 1 else a + b)"

text \<open>The scan for the least influence: the first of the smallest.\<close>

definition least_influence :: "bytes \<Rightarrow> nat" where
  "least_influence w =
     fst (fold (\<lambda>i (m, v). if w ! i < v then (i, w ! i) else (m, v)) [1..<PACKET_PROVENANCE] (0, w ! 0))"

text \<open>A count beyond the arrays makes the scan read out of bounds.\<close>

definition add_fragment :: "u64 \<Rightarrow> byte \<Rightarrow> packet_provenance \<Rightarrow> packet_provenance option" where
  "add_fragment i w p =
     (let n = unat (pp_count p)
      in case position (\<lambda>f. f = i) (take n (pp_fragments p)) of
           Some k \<Rightarrow> Some (p\<lparr>pp_influence := (pp_influence p)[k := sat_add8 (pp_influence p ! k) w]\<rparr>)
         | None \<Rightarrow>
             if PACKET_PROVENANCE < n then None
             else if n < PACKET_PROVENANCE then
               Some (p\<lparr>pp_fragments := (pp_fragments p)[n := i], pp_influence := (pp_influence p)[n := w],
                       pp_count := pp_count p + 1\<rparr>)
             else
               (let k = least_influence (pp_influence p)
                in Some (p\<lparr>pp_fragments := (pp_fragments p)[k := i], pp_influence := (pp_influence p)[k := w]\<rparr>)))"

section \<open>Contradiction\<close>

record cortex_state =
  rs_value :: fpval
  rs_strength :: byte
  rs_provenance :: packet_provenance

definition f32_lit :: "rat \<Rightarrow> fpval" where "f32_lit q = fround q"

definition calculate_contradiction_score :: "cortex_state \<Rightarrow> cortex_state \<Rightarrow> fpval" where
  "calculate_contradiction_score left right =
     (let diff = fabs (fsub (rs_value left) (rs_value right));
          max_val = fmax (fmax (rs_value left) (rs_value right)) (Fin 1);
          score = fadd (Fin 0) (fmul (fmin (fdiv diff max_val) (Fin 1)) (f32_lit (6 / 10)));
          s_diff = fdiv (fabs (fsub (fround (of_nat (unat (rs_strength left)))) (fround (of_nat (unat (rs_strength right))))))
                     (Fin 255);
          score = fadd score (fmul s_diff (f32_lit (4 / 10)))
      in fmin score (Fin 1))"

definition trace_contradiction_source :: "cortex_state \<Rightarrow> cortex_state \<Rightarrow> u64 option" where
  "trace_contradiction_source left right =
     (if rs_strength left < rs_strength right \<and> 0 < pp_count (rs_provenance left)
      then Some (pp_fragments (rs_provenance left) ! 0)
      else if 0 < pp_count (rs_provenance right) then Some (pp_fragments (rs_provenance right) ! 0)
      else None)"

section \<open>The allocator\<close>

definition WASM_PAGE :: "32 word" where "WASM_PAGE = 65536"
definition HEAP_START :: "32 word" where "HEAP_START = 1024 * 1024"

text \<open>The heap pointer and the number of pages; the engine grants or refuses to grow.\<close>

definition alloc_tensor :: "(32 word \<Rightarrow> 32 word \<Rightarrow> bool) \<Rightarrow> 32 word \<Rightarrow> 32 word \<times> 32 word \<Rightarrow> (32 word \<times> 32 word \<times> 32 word) option" where
  "alloc_tensor may_grow n hp =
     (case hp of (current, pages) \<Rightarrow>
        let aligned = and (current + 15) (not 15); nxt = aligned + n; max_allowed = pages * WASM_PAGE
        in if max_allowed < nxt then
             (let pages_needed = (nxt - max_allowed + WASM_PAGE - 1) div WASM_PAGE
              in if may_grow pages pages_needed then Some (aligned, nxt, pages + pages_needed) else None)
           else Some (aligned, nxt, pages))"

text \<open>The sum of the blocks, lane by lane, then over the lanes; reading past the memory traps.\<close>

definition tensor_block :: "bytes \<Rightarrow> nat \<Rightarrow> fpval list" where
  "tensor_block mem a = map (\<lambda>j. f32_from_le (slice mem (a + 4 * j) (a + 4 * j + 4))) [0..<4]"

definition process_neural_tensor :: "bytes \<Rightarrow> 32 word \<Rightarrow> nat \<Rightarrow> fpval option" where
  "process_neural_tensor mem ptr blocks =
     (if 0 < blocks \<and> length mem < unat ptr + 16 * blocks then None
      else let lanes = fold (\<lambda>i s. map2 fadd s (tensor_block mem (unat ptr + 16 * i))) [0..<blocks] (replicate 4 (Fin 0))
        in Some (fadd (fadd (fadd (lanes ! 0) (lanes ! 1)) (lanes ! 2)) (lanes ! 3)))"

section \<open>The life of a packet\<close>

record cortex =
  cx_value :: fpval
  cx_strength :: byte
  cx_ingest :: "32 word"
  cx_table :: knowledge_table
  cx_generation :: u64

definition cortex_new :: cortex where
  "cortex_new = \<lparr>cx_value = Fin 1, cx_strength = 128, cx_ingest = 0, cx_table = table_new, cx_generation = 0\<rparr>"

text \<open>The guest, its memory and the host it calls.\<close>

record 'q organism =
  og_cortex :: cortex
  og_memory :: bytes
  og_host :: "'q host_state"

text \<open>The libraries and the addresses: the packet format, the channel, the reflex buffer, the buffer of dirty identifiers.\<close>

record 'q cortex_env =
  ce_from_bytes :: "bytes \<Rightarrow> nexo_packet option"
  ce_to_bytes :: "nexo_packet \<Rightarrow> bytes"
  ce_try_send :: "bytes \<Rightarrow> 'q \<Rightarrow> 'q"
  ce_reflex :: "32 word"
  ce_dirty :: "32 word"

definition REFLEX_CAPACITY :: nat where "REFLEX_CAPACITY = 1024"

text \<open>
  The packet is written to the reflex buffer and broadcast. A packet that does not fit is not sent.
\<close>

definition emit_neural_reflex :: "'q cortex_env \<Rightarrow> nexo_packet \<Rightarrow> 'q organism \<Rightarrow> bool \<times> 'q organism" where
  "emit_neural_reflex env p s =
     (let bs = ce_to_bytes env p
      in if REFLEX_CAPACITY < length bs then (False, s)
         else let mem = put_at (unat (ce_reflex env)) bs (og_memory s);
                  (sent, h) = broadcast_packet (ce_from_bytes env) (ce_try_send env) mem (ce_reflex env)
                                (word_of_nat (length bs)) (og_host s);
                  s = s\<lparr>og_memory := mem, og_host := h\<rparr>
              in if 0 < sent
                 then (True, s\<lparr>og_cortex := (og_cortex s)\<lparr>cx_generation := cx_generation (og_cortex s) + 1\<rparr>\<rparr>)
                 else (False, s))"

definition rem_cycle :: "'q cortex_env \<Rightarrow> 'q organism \<Rightarrow> (32 word \<times> 'q organism) option" where
  "rem_cycle env s =
     (let c = og_cortex s;
          t = decay (cx_ingest c) (cx_table c);
          ids = collect_dirty KNOWLEDGE_TABLE_SIZE t;
          buf = ids @ replicate (KNOWLEDGE_TABLE_SIZE - length ids) 0;
          mem = put_at (unat (ce_dirty env)) (concat (map u64_to_le buf)) (og_memory s);
          dirty_count = word_of_nat (length ids) :: 32 word
      in if 0 < dirty_count then
           (let (processed, h) = batch_forget mem (ce_dirty env) dirty_count (og_host s)
            in if KNOWLEDGE_TABLE_SIZE < unat processed then None
               else Some (processed,
                 s\<lparr>og_cortex := c\<lparr>cx_table := clear_dirty (take (unat processed) buf) t\<rparr>, og_memory := mem, og_host := h\<rparr>))
         else Some (0, s\<lparr>og_cortex := c\<lparr>cx_table := t\<rparr>, og_memory := mem\<rparr>))"

text \<open>Weighted means of the strength: three and seven tenths, nine tenths and one.\<close>

definition mix_strength :: "nat \<Rightarrow> nat \<Rightarrow> byte \<Rightarrow> byte \<Rightarrow> byte" where
  "mix_strength a b old new =
     ucast ((ucast old * word_of_nat a + ucast new * word_of_nat b :: 16 word) div 10)"

definition mix_value :: "rat \<Rightarrow> rat \<Rightarrow> fpval \<Rightarrow> fpval \<Rightarrow> fpval" where
  "mix_value a b old new = fadd (fmul old (f32_lit a)) (fmul new (f32_lit b))"

text \<open>The packet is registered under the next instant; every tenth instant is followed by a REM cycle.\<close>

definition register_fragment :: "'q cortex_env \<Rightarrow> u64 \<Rightarrow> byte \<Rightarrow> 'q organism \<Rightarrow> 'q organism option" where
  "register_fragment env i strength s =
     (let c = og_cortex s; now = cx_ingest c + 1;
          s = s\<lparr>og_cortex := c\<lparr>cx_ingest := now, cx_table := insert_or_update i strength now (cx_table c)\<rparr>\<rparr>
      in if now mod REM_INTERVAL = 0 then map_option snd (rem_cycle env s) else Some s)"

definition ingest_packet :: "'q cortex_env \<Rightarrow> bytes \<Rightarrow> 'q organism \<Rightarrow> (32 word \<times> 'q organism) option" where
  "ingest_packet env bs s =
     (case ce_from_bytes env bs of
        None \<Rightarrow> Some (0, s)
      | Some p \<Rightarrow>
          let value = f32_from_le (take 4 (np_payload p)); strength = np_payload p ! 4;
              received = \<lparr>rs_value = value, rs_strength = strength, rs_provenance = np_provenance p\<rparr>;
              current = \<lparr>rs_value = cx_value (og_cortex s), rs_strength = cx_strength (og_cortex s),
                         rs_provenance = packet_provenance_default\<rparr>;
              score = calculate_contradiction_score current received
          in case register_fragment env (np_fragment_id p) strength s of
               None \<Rightarrow> None
             | Some s \<Rightarrow>
                 let c = og_cortex s; wide = fless (f32_lit (8 / 10)) score;
                     c = (if wide
                          then c\<lparr>cx_value := mix_value (3 / 10) (7 / 10) (cx_value c) value,
                                 cx_strength := mix_strength 3 7 (cx_strength c) strength\<rparr>
                          else c\<lparr>cx_value := mix_value (9 / 10) (1 / 10) (cx_value c) value,
                                 cx_strength := mix_strength 9 1 (cx_strength c) strength\<rparr>)
                 in Some (if wide then 3 else 1, snd (emit_neural_reflex env p (s\<lparr>og_cortex := c\<rparr>))))"

definition get_reflex_generation :: "'q organism \<Rightarrow> u64" where
  "get_reflex_generation s = cx_generation (og_cortex s)"

text \<open>A sequence of packets, until a trap.\<close>

fun ingest_all :: "'q cortex_env \<Rightarrow> bytes list \<Rightarrow> 'q organism \<Rightarrow> 'q organism option" where
  "ingest_all env [] s = Some s"
| "ingest_all env (bs # rest) s =
     (case ingest_packet env bs s of None \<Rightarrow> None | Some (_, s) \<Rightarrow> ingest_all env rest s)"

section \<open>Other calls to the host\<close>

text \<open>The text of a hash: the 32 bytes and the answer of at most 512 bytes are in the guest's memory.\<close>

definition lookup_text :: "memory_store \<Rightarrow> bytes \<Rightarrow> 32 word \<Rightarrow> 32 word \<Rightarrow> (bytes option \<times> bytes) option" where
  "lookup_text store mem hash_ptr buf_ptr =
     (let mem = put_at (unat buf_ptr) (zeros 512) mem
      in case lookup_semantic store mem hash_ptr buf_ptr 512 of
           None \<Rightarrow> None
         | Some (len, mem) \<Rightarrow>
             Some (if 0 < len then Some (slice mem (unat buf_ptr) (unat buf_ptr + unat len)) else None, mem))"

definition forget_and_cleanup :: "u64 \<Rightarrow> 32 word \<Rightarrow> nat \<Rightarrow> bytes \<times> 'q host_state \<Rightarrow> bytes \<times> 'q host_state" where
  "forget_and_cleanup i ptr len mh =
     (let (result, h) = forget_active_context i (snd mh)
      in (if 0 < result then put_at (unat ptr) (zeros len) (fst mh) else fst mh, h))"

text \<open>The start: the manifest is requested into a fresh block; what it says changes nothing.\<close>

definition cortex_start ::
    "(32 word \<Rightarrow> 32 word \<Rightarrow> bool) \<Rightarrow> bytes \<Rightarrow> 32 word \<times> 32 word \<times> bytes \<Rightarrow> (32 word \<times> 32 word \<times> bytes) option" where
  "cortex_start may_grow manifest g =
     (case g of (hp, pages, mem) \<Rightarrow>
        case alloc_tensor may_grow 1024 (hp, pages) of
          None \<Rightarrow> None
        | Some (ptr, hp', pages') \<Rightarrow>
            (case request_manifest manifest (mem @ zeros (65536 * unat (pages' - pages))) ptr 1024 of
               None \<Rightarrow> None
             | Some (written, mem') \<Rightarrow> Some (hp', pages', mem')))"

end
