(* ===== verification/Cortex_Theorems.thy ===== *)
theory Cortex_Theorems
  imports Cortex
begin

text \<open>
  The cortex never traps on a packet and keeps its table, its memory and the host's store well formed; what a REM cycle
  forgets on both sides; the fragment of a packet is known afterwards; the score is a number between zero and one; a NaN
  in one packet stays in the persistent value; blocks of the allocator.
\<close>

section \<open>Well-formed states\<close>

definition layout_ok :: "'q cortex_env \<Rightarrow> bytes \<Rightarrow> bool" where
  "layout_ok env mem \<longleftrightarrow> unat (ce_reflex env) + REFLEX_CAPACITY \<le> length mem \<and>
     unat (ce_dirty env) + 8 * KNOWLEDGE_TABLE_SIZE \<le> length mem"

text \<open>The packets that the decoder accepts are encoded in at most 1024 bytes.\<close>

definition cortex_ok :: "'q cortex_env \<Rightarrow> 'q organism \<Rightarrow> bool" where
  "cortex_ok env s \<longleftrightarrow> table_wf (cx_table (og_cortex s)) \<and> layout_ok env (og_memory s) \<and> store_wf (hs_store (og_host s)) \<and>
     (\<forall>bs p. ce_from_bytes env bs = Some p \<longrightarrow> length (ce_to_bytes env p) \<le> REFLEX_CAPACITY)"

section \<open>The REM cycle\<close>

text \<open>The identifiers that a cycle reports.\<close>

definition reported :: "cortex \<Rightarrow> u64 list" where
  "reported c = collect_dirty KNOWLEDGE_TABLE_SIZE (decay (cx_ingest c) (cx_table c))"

lemma reported_facts:
  assumes "table_wf (cx_table c)"
  shows "distinct (reported c)" "0 \<notin> set (reported c)" "length (reported c) \<le> 64"
    and "i \<in> set (reported c) \<longleftrightarrow>
      i \<noteq> 0 \<and> (\<exists>e. entry_of i (cx_table c) = Some e \<and> ke_dirty (decay_entry (cx_ingest c) e))"
  using collect_all [OF decay_wf [OF assms], of "cx_ingest c"]
  by (auto simp: reported_def entry_of_decay)

lemma filter_nonzero: "0 \<notin> set xs \<Longrightarrow> filter (\<lambda>i. i \<noteq> 0) xs = xs"
  by (induction xs) auto

lemma rem_cycle_eq:
  assumes "table_wf (cx_table (og_cortex s))" and "layout_ok env (og_memory s)"
  obtains mem where "length mem = length (og_memory s)"
    "rem_cycle env s = Some (word_of_nat (length (reported (og_cortex s))),
       s\<lparr>og_cortex := (og_cortex s)\<lparr>cx_table := clear_dirty (reported (og_cortex s))
             (decay (cx_ingest (og_cortex s)) (cx_table (og_cortex s)))\<rparr>,
         og_memory := mem,
         og_host := (og_host s)\<lparr>hs_store := mark_for_deletion (reported (og_cortex s)) (hs_store (og_host s))\<rparr>\<rparr>)"
proof -
  define ids where "ids = reported (og_cortex s)"
  note r = reported_facts [OF assms(1), folded ids_def]
  define buf where "buf = ids @ replicate (KNOWLEDGE_TABLE_SIZE - length ids) 0"
  have len: "length buf = 64" using r(3) by (simp add: buf_def KNOWLEDGE_TABLE_SIZE_def)
  define mem where "mem = put_at (unat (ce_dirty env)) (concat (map u64_to_le buf)) (og_memory s)"
  have room: "unat (ce_dirty env) + 8 * length buf \<le> length (og_memory s)"
    using assms(2) len by (simp add: layout_ok_def KNOWLEDGE_TABLE_SIZE_def)
  define n where "n = (word_of_nat (length ids) :: 32 word)"
  have un: "unat n = length ids" using r(3) by (simp add: n_def unat_of_nat)
  have take: "take (length ids) buf = ids" by (simp add: buf_def)
  have unf: "rem_cycle env s =
     (if 0 < n then
        (let (processed, h) = batch_forget mem (ce_dirty env) n (og_host s)
         in if KNOWLEDGE_TABLE_SIZE < unat processed then None
            else Some (processed, s\<lparr>og_cortex := (og_cortex s)\<lparr>cx_table := clear_dirty (take (unat processed) buf)
                (decay (cx_ingest (og_cortex s)) (cx_table (og_cortex s)))\<rparr>, og_memory := mem, og_host := h\<rparr>))
      else Some (0, s\<lparr>og_cortex := (og_cortex s)\<lparr>cx_table := decay (cx_ingest (og_cortex s)) (cx_table (og_cortex s))\<rparr>,
        og_memory := mem\<rparr>))"
    by (simp only: rem_cycle_def Let_def reported_def ids_def buf_def mem_def n_def)
  have "rem_cycle env s = Some (n, s\<lparr>og_cortex := (og_cortex s)\<lparr>cx_table := clear_dirty ids
        (decay (cx_ingest (og_cortex s)) (cx_table (og_cortex s)))\<rparr>, og_memory := mem,
      og_host := (og_host s)\<lparr>hs_store := mark_for_deletion ids (hs_store (og_host s))\<rparr>\<rparr>)"
  proof (cases "n = 0")
    case True
    then have "ids = []" using un by simp
    then show ?thesis using True by (simp add: unf clear_dirty_def mark_for_deletion_def)
  next
    case False
    have "batch_forget mem (ce_dirty env) n (og_host s) =
        (word_of_nat (length ids), (og_host s)\<lparr>hs_store := mark_for_deletion ids (hs_store (og_host s))\<rparr>)"
      unfolding mem_def using batch_forget_written [OF room False] un len r(2,3) take filter_nonzero [OF r(2)] by simp
    moreover have "0 < n" using False by (simp add: word_neq_0_conv)
    ultimately show ?thesis using un r(3) take by (simp add: unf n_def KNOWLEDGE_TABLE_SIZE_def)
  qed
  then show ?thesis using that [of mem] room unfolding ids_def n_def by (simp add: mem_def)
qed

section \<open>The reflex\<close>

text \<open>What the host prints of the bytes it broadcasts.\<close>

definition spoken_of :: "(bytes \<Rightarrow> nexo_packet option) \<Rightarrow> memory_store \<Rightarrow> bytes \<Rightarrow> spoken list" where
  "spoken_of from_bytes s bs =
     (case from_bytes bs of None \<Rightarrow> []
      | Some p \<Rightarrow> [case ms_dict s (np_payload p) of Some text \<Rightarrow> Translated text | None \<Rightarrow> Untranslated (np_payload p)])"

lemma spoken_of_mark [simp]: "spoken_of from_bytes (mark_for_deletion ids s) bs = spoken_of from_bytes s bs"
  by (simp add: spoken_of_def mark_for_deletion_sets split: option.splits)

lemma broadcast_packet_out:
  "unat ptr + unat len \<le> length mem \<Longrightarrow> hs_out (snd (broadcast_packet from_bytes try_send mem ptr len h)) =
     hs_out h @ spoken_of from_bytes (hs_store h) (slice mem (unat ptr) (unat ptr + unat len))"
  by (simp add: broadcast_packet_def Let_def spoken_of_def split: option.splits)

text \<open>A packet that fits is always counted as sent; the table, the value and the store do not change.\<close>

lemma emit_neural_reflex_eq:
  assumes "layout_ok env (og_memory s)" and "length (ce_to_bytes env p) \<le> REFLEX_CAPACITY"
  obtains mem tx out where "length mem = length (og_memory s)"
    "emit_neural_reflex env p s = (True, s\<lparr>og_cortex := (og_cortex s)\<lparr>cx_generation := cx_generation (og_cortex s) + 1\<rparr>,
       og_memory := mem, og_host := (og_host s)\<lparr>hs_tx := tx, hs_out := out\<rparr>\<rparr>)"
    "tx = ce_try_send env (ce_to_bytes env p) (hs_tx (og_host s))"
    "out = hs_out (og_host s) @ spoken_of (ce_from_bytes env) (hs_store (og_host s)) (ce_to_bytes env p)"
proof -
  define bs where "bs = ce_to_bytes env p"
  define mem where "mem = put_at (unat (ce_reflex env)) bs (og_memory s)"
  have room: "unat (ce_reflex env) + length bs \<le> length (og_memory s)"
    using assms by (simp add: layout_ok_def bs_def)
  then have lm: "length mem = length (og_memory s)" by (simp add: mem_def)
  define n where "n = (word_of_nat (length bs) :: 32 word)"
  have un: "unat n = length bs" using assms(2) by (simp add: n_def unat_of_nat bs_def REFLEX_CAPACITY_def)
  have sl: "slice mem (unat (ce_reflex env)) (unat (ce_reflex env) + unat n) = bs"
    using slice_put_at [OF room, of "length bs" 0] by (simp add: mem_def un slice_all)
  obtain sent h where b: "broadcast_packet (ce_from_bytes env) (ce_try_send env) mem (ce_reflex env) n (og_host s) = (sent, h)"
    by fastforce
  have "sent = 1" and tx: "hs_tx h = ce_try_send env bs (hs_tx (og_host s))" and "hs_store h = hs_store (og_host s)"
    using broadcast_packet_sent [of "ce_reflex env" n mem "ce_from_bytes env" "ce_try_send env" "og_host s"] room un sl b lm
    by auto
  have out: "hs_out h = hs_out (og_host s) @ spoken_of (ce_from_bytes env) (hs_store (og_host s)) bs"
    using broadcast_packet_out [of "ce_reflex env" n mem "ce_from_bytes env" "ce_try_send env" "og_host s"] room un sl b lm by simp
  have h: "h = (og_host s)\<lparr>hs_tx := ce_try_send env bs (hs_tx (og_host s)), hs_out := hs_out h\<rparr>"
    using tx \<open>hs_store h = hs_store (og_host s)\<close> by (cases h; cases "og_host s") simp
  have "emit_neural_reflex env p s = (True, s\<lparr>og_cortex := (og_cortex s)\<lparr>cx_generation := cx_generation (og_cortex s) + 1\<rparr>,
      og_memory := mem, og_host := h\<rparr>)"
    using assms(2) b [unfolded mem_def n_def bs_def] \<open>sent = 1\<close>
    by (simp add: emit_neural_reflex_def Let_def mem_def bs_def)
  then show ?thesis using that [OF lm, where tx = "ce_try_send env bs (hs_tx (og_host s))" and out = "hs_out h"] h out by (simp add: bs_def)
qed

section \<open>A packet\<close>

text \<open>The table and the store after a packet is registered.\<close>

definition table_after :: "u64 \<Rightarrow> byte \<Rightarrow> cortex \<Rightarrow> cortex" where
  "table_after i w c = c\<lparr>cx_ingest := cx_ingest c + 1, cx_table := insert_or_update i w (cx_ingest c + 1) (cx_table c)\<rparr>"

lemma register_fragment_eq:
  assumes "cortex_ok env s"
  obtains mem t ids where "length mem = length (og_memory s)"
    "register_fragment env i w s = Some (s\<lparr>og_cortex := (og_cortex s)\<lparr>cx_ingest := cx_ingest (og_cortex s) + 1, cx_table := t\<rparr>,
       og_memory := mem, og_host := (og_host s)\<lparr>hs_store := mark_for_deletion ids (hs_store (og_host s))\<rparr>\<rparr>)"
    "table_wf t"
    "i \<noteq> 0 \<Longrightarrow> entry_of i t = Some (case entry_of i (cx_table (og_cortex s)) of
        None \<Rightarrow> fresh_entry i w (cx_ingest (og_cortex s) + 1) | Some e \<Rightarrow> seen_again w (cx_ingest (og_cortex s) + 1) e)"
    "ids = (if (cx_ingest (og_cortex s) + 1) mod REM_INTERVAL = 0 then reported (table_after i w (og_cortex s)) else [])"
proof -
  define c where "c = table_after i w (og_cortex s)"
  define now where "now = cx_ingest (og_cortex s) + 1"
  have wf0: "table_wf (cx_table (og_cortex s))" and lay: "layout_ok env (og_memory s)" using assms by (simp_all add: cortex_ok_def)
  have wf: "table_wf (cx_table c)" using insert_wf [OF wf0] by (simp add: c_def table_after_def)
  have ne: "kt_slots (cx_table (og_cortex s)) \<noteq> []"
    using wf0 by (auto simp: table_wf_def KNOWLEDGE_TABLE_SIZE_def)
  define e where "e = (case entry_of i (cx_table (og_cortex s)) of None \<Rightarrow> fresh_entry i w now | Some e \<Rightarrow> seen_again w now e)"
  have ins: "entry_of i (cx_table c) = Some e" if "i \<noteq> 0"
    using entry_of_insert [OF that ne] unfolding e_def now_def by (simp add: c_def table_after_def)
  have e: "ke_last_seen e = now" "\<not> ke_dirty e"
    by (auto simp: e_def fresh_entry_def seen_again_def split: option.splits)
  have reg: "register_fragment env i w s = (if now mod REM_INTERVAL = 0 then map_option snd (rem_cycle env (s\<lparr>og_cortex := c\<rparr>)) else Some (s\<lparr>og_cortex := c\<rparr>))"
    by (simp add: register_fragment_def Let_def c_def table_after_def now_def)
  have ci: "cx_ingest c = now" by (simp add: c_def table_after_def now_def)
  show ?thesis
  proof (cases "now mod REM_INTERVAL = 0")
    case False
    show ?thesis
    proof (rule that [where mem = "og_memory s" and t = "cx_table c" and ids = "[]"])
      show "register_fragment env i w s = Some (s\<lparr>og_cortex := (og_cortex s)\<lparr>cx_ingest := cx_ingest (og_cortex s) + 1, cx_table := cx_table c\<rparr>,
          og_memory := og_memory s, og_host := (og_host s)\<lparr>hs_store := mark_for_deletion [] (hs_store (og_host s))\<rparr>\<rparr>)"
        using False by (simp add: reg c_def table_after_def mark_for_deletion_def)
      show "[] = (if (cx_ingest (og_cortex s) + 1) mod REM_INTERVAL = 0 then reported (table_after i w (og_cortex s)) else [])"
        using False by (simp add: now_def)
    qed (use wf ins [unfolded e_def now_def] in simp_all)
  next
    case True
    let ?t = "clear_dirty (reported c) (decay now (cx_table c))"
    note r = reported_facts [OF wf]
    obtain mem where lm: "length mem = length (og_memory s)" and rc: "rem_cycle env (s\<lparr>og_cortex := c\<rparr>) =
        Some (word_of_nat (length (reported c)), s\<lparr>og_cortex := c\<lparr>cx_table := ?t\<rparr>, og_memory := mem,
          og_host := (og_host s)\<lparr>hs_store := mark_for_deletion (reported c) (hs_store (og_host s))\<rparr>\<rparr>)"
      using rem_cycle_eq [of "s\<lparr>og_cortex := c\<rparr>" env] wf lay ci by auto
    have wt: "table_wf ?t" using clear_dirty_wf [OF decay_wf [OF wf] r(2)] by simp
    have spared: "entry_of i ?t = Some e" if i: "i \<noteq> 0"
    proof -
      have d: "decay_entry now e = e" using e(1) by (simp add: decay_entry_def)
      then have "i \<notin> set (reported c)" using r(4) [of i] ins [OF i] e ci by simp
      then show ?thesis
        using entry_of_clear_dirty [OF r(1,2) i decay_wf [OF wf], of now] ins [OF i] d by (simp add: entry_of_decay)
    qed
    show ?thesis
    proof (rule that [where mem = mem and t = "?t" and ids = "reported c"])
      show "register_fragment env i w s = Some (s\<lparr>og_cortex := (og_cortex s)\<lparr>cx_ingest := cx_ingest (og_cortex s) + 1, cx_table := ?t\<rparr>,
          og_memory := mem, og_host := (og_host s)\<lparr>hs_store := mark_for_deletion (reported c) (hs_store (og_host s))\<rparr>\<rparr>)"
        using True rc by (simp add: reg c_def table_after_def)
    qed (use True wt lm spared [unfolded e_def now_def] in \<open>simp_all add: now_def c_def\<close>)
  qed
qed

text \<open>Whether the score is above 0.8.\<close>

definition wide :: "cortex \<Rightarrow> nexo_packet \<Rightarrow> bool" where
  "wide c p = fless (f32_lit (8 / 10)) (calculate_contradiction_score
     \<lparr>rs_value = cx_value c, rs_strength = cx_strength c, rs_provenance = packet_provenance_default\<rparr>
     \<lparr>rs_value = f32_from_le (take 4 (np_payload p)), rs_strength = np_payload p ! 4, rs_provenance = np_provenance p\<rparr>)"

lemma ingest_packet_eq:
  assumes "cortex_ok env s" and "ce_from_bytes env bs = Some p"
  obtains mem t ids out v w where "length mem = length (og_memory s)"
    "ingest_packet env bs s = Some (if wide (og_cortex s) p then 3 else 1,
       \<lparr>og_cortex = \<lparr>cx_value = v, cx_strength = w, cx_ingest = cx_ingest (og_cortex s) + 1, cx_table = t,
                    cx_generation = cx_generation (og_cortex s) + 1\<rparr>,
        og_memory = mem,
        og_host = \<lparr>hs_store = mark_for_deletion ids (hs_store (og_host s)),
                   hs_tx = ce_try_send env (ce_to_bytes env p) (hs_tx (og_host s)), hs_out = out\<rparr>\<rparr>)"
    "table_wf t"
    "np_fragment_id p \<noteq> 0 \<Longrightarrow> entry_of (np_fragment_id p) t = Some (case entry_of (np_fragment_id p) (cx_table (og_cortex s)) of
        None \<Rightarrow> fresh_entry (np_fragment_id p) (np_payload p ! 4) (cx_ingest (og_cortex s) + 1)
      | Some e \<Rightarrow> seen_again (np_payload p ! 4) (cx_ingest (og_cortex s) + 1) e)"
    "ids = (if (cx_ingest (og_cortex s) + 1) mod REM_INTERVAL = 0
            then reported (table_after (np_fragment_id p) (np_payload p ! 4) (og_cortex s)) else [])"
    "v = (if wide (og_cortex s) p then mix_value (3 / 10) (7 / 10) (cx_value (og_cortex s)) (f32_from_le (take 4 (np_payload p)))
          else mix_value (9 / 10) (1 / 10) (cx_value (og_cortex s)) (f32_from_le (take 4 (np_payload p))))"
    "w = (if wide (og_cortex s) p then mix_strength 3 7 (cx_strength (og_cortex s)) (np_payload p ! 4)
          else mix_strength 9 1 (cx_strength (og_cortex s)) (np_payload p ! 4))"
    "out = hs_out (og_host s) @ spoken_of (ce_from_bytes env) (hs_store (og_host s)) (ce_to_bytes env p)"
proof -
  let ?c = "og_cortex s"
  obtain mem t ids where m: "length mem = length (og_memory s)"
    and r: "register_fragment env (np_fragment_id p) (np_payload p ! 4) s =
      Some (s\<lparr>og_cortex := ?c\<lparr>cx_ingest := cx_ingest ?c + 1, cx_table := t\<rparr>,
         og_memory := mem, og_host := (og_host s)\<lparr>hs_store := mark_for_deletion ids (hs_store (og_host s))\<rparr>\<rparr>)"
    and t: "table_wf t" and known: "np_fragment_id p \<noteq> 0 \<Longrightarrow> entry_of (np_fragment_id p) t = Some (case entry_of (np_fragment_id p) (cx_table ?c) of
        None \<Rightarrow> fresh_entry (np_fragment_id p) (np_payload p ! 4) (cx_ingest ?c + 1) | Some e \<Rightarrow> seen_again (np_payload p ! 4) (cx_ingest ?c + 1) e)"
    and ids: "ids = (if (cx_ingest ?c + 1) mod REM_INTERVAL = 0 then reported (table_after (np_fragment_id p) (np_payload p ! 4) ?c) else [])"
    by (rule register_fragment_eq [OF assms(1), of "np_fragment_id p" "np_payload p ! 4"]) auto
  define v where "v = (if wide ?c p then mix_value (3 / 10) (7 / 10) (cx_value ?c) (f32_from_le (take 4 (np_payload p)))
          else mix_value (9 / 10) (1 / 10) (cx_value ?c) (f32_from_le (take 4 (np_payload p))))"
  define w where "w = (if wide ?c p then mix_strength 3 7 (cx_strength ?c) (np_payload p ! 4) else mix_strength 9 1 (cx_strength ?c) (np_payload p ! 4))"
  define s1 where "s1 = s\<lparr>og_memory := mem, og_host := (og_host s)\<lparr>hs_store := mark_for_deletion ids (hs_store (og_host s))\<rparr>,
      og_cortex := ?c\<lparr>cx_ingest := cx_ingest ?c + 1, cx_table := t, cx_value := v, cx_strength := w\<rparr>\<rparr>"
  have step: "ingest_packet env bs s = Some (if wide ?c p then 3 else 1, snd (emit_neural_reflex env p s1))"
    unfolding s1_def v_def w_def wide_def using assms(2) r by (simp add: ingest_packet_def Let_def)
  have "layout_ok env (og_memory s1)" and "length (ce_to_bytes env p) \<le> REFLEX_CAPACITY"
    using assms m by (auto simp: cortex_ok_def layout_ok_def s1_def)
  then obtain mem' tx out where e: "length mem' = length (og_memory s1)"
    "emit_neural_reflex env p s1 = (True, s1\<lparr>og_cortex := (og_cortex s1)\<lparr>cx_generation := cx_generation (og_cortex s1) + 1\<rparr>,
       og_memory := mem', og_host := (og_host s1)\<lparr>hs_tx := tx, hs_out := out\<rparr>\<rparr>)"
    "tx = ce_try_send env (ce_to_bytes env p) (hs_tx (og_host s1))"
    "out = hs_out (og_host s1) @ spoken_of (ce_from_bytes env) (hs_store (og_host s1)) (ce_to_bytes env p)"
    by (rule emit_neural_reflex_eq)
  show ?thesis
    by (rule that [where mem = mem' and t = t and ids = ids and out = out and v = v and w = w])
      (use step e m t known ids in \<open>simp_all add: s1_def v_def w_def\<close>)
qed

lemma ingest_packet_none: "ce_from_bytes env bs = None \<Longrightarrow> ingest_packet env bs s = Some (0, s)"
  by (simp add: ingest_packet_def)

text \<open>One packet as a step that may trap.\<close>

definition ingest_step :: "'q cortex_env \<Rightarrow> 'q organism option \<Rightarrow> bytes \<Rightarrow> 'q organism option" where
  "ingest_step env s bs = (case s of None \<Rightarrow> None | Some s \<Rightarrow> map_option snd (ingest_packet env bs s))"

definition alive :: "'q cortex_env \<Rightarrow> 'q organism option \<Rightarrow> bool" where
  "alive env s \<longleftrightarrow> (case s of None \<Rightarrow> False | Some s \<Rightarrow> cortex_ok env s)"

lemma ingest_all_foldl: "ingest_all env bss s = foldl (ingest_step env) (Some s) bss"
proof (induction bss arbitrary: s)
  case (Cons bs bss)
  have dead: "foldl (ingest_step env) None bss = None" by (induction bss) (simp_all add: ingest_step_def)
  have step: "ingest_step env (Some s) bs = map_option snd (ingest_packet env bs s)" by (simp add: ingest_step_def)
  show ?case by (cases "ingest_packet env bs s") (auto simp: step dead Cons)
qed simp

lemma ingest_packet_keeps: "cortex_ok env s \<Longrightarrow> \<exists>code s'. ingest_packet env bs s = Some (code, s') \<and> cortex_ok env s'"
proof (cases "ce_from_bytes env bs")
  case None
  assume "cortex_ok env s"
  then show ?thesis using None by (simp add: ingest_packet_none)
next
  case (Some p)
  assume ok: "cortex_ok env s"
  from ok Some obtain mem t ids out v w where "length mem = length (og_memory s)" "table_wf t"
    "ingest_packet env bs s = Some (if wide (og_cortex s) p then 3 else 1,
       \<lparr>og_cortex = \<lparr>cx_value = v, cx_strength = w, cx_ingest = cx_ingest (og_cortex s) + 1, cx_table = t,
                    cx_generation = cx_generation (og_cortex s) + 1\<rparr>,
        og_memory = mem,
        og_host = \<lparr>hs_store = mark_for_deletion ids (hs_store (og_host s)),
                   hs_tx = ce_try_send env (ce_to_bytes env p) (hs_tx (og_host s)), hs_out = out\<rparr>\<rparr>)"
    by (rule ingest_packet_eq) auto
  then show ?thesis using ok by (auto simp: cortex_ok_def layout_ok_def mark_for_deletion_wf)
qed

interpretation life: preserved "ingest_step env" "alive env" for env :: "'q cortex_env"
proof
  fix s bs show "alive env s \<Longrightarrow> alive env (ingest_step env s bs)"
    using ingest_packet_keeps [of env _ bs] by (fastforce simp: alive_def ingest_step_def split: option.splits)
qed

section \<open>Properties\<close>

text \<open>
  The properties of the WebAssembly cortex and of what it tells the host, with instances on a small packet format.
\<close>

section \<open>An instance\<close>

text \<open>A packet of 40 bytes: the identifier and the payload; the channel keeps what it is given.\<close>

definition demo_packet :: "bytes \<Rightarrow> nexo_packet option" where
  "demo_packet bs = (if length bs = 40
     then Some \<lparr>np_fragment_id = u64_from_le (take 8 bs), np_payload = drop 8 bs, np_provenance = packet_provenance_default\<rparr>
     else None)"

definition demo_env :: "bytes list cortex_env" where
  "demo_env = \<lparr>ce_from_bytes = demo_packet, ce_to_bytes = \<lambda>p. u64_to_le (np_fragment_id p) @ np_payload p,
     ce_try_send = \<lambda>b q. q @ [b], ce_reflex = 0, ce_dirty = 1024\<rparr>"

definition demo_organism :: "bytes list organism" where
  "demo_organism = \<lparr>og_cortex = cortex_new, og_memory = zeros 2048,
     og_host = \<lparr>hs_store = memory_store_new, hs_tx = [], hs_out = []\<rparr>\<rparr>"

lemma demo_ok: "cortex_ok demo_env demo_organism"
  by (auto simp: cortex_ok_def demo_env_def demo_organism_def cortex_new_def table_new_wf layout_ok_def store_wf_def
      memory_store_new_def demo_packet_def REFLEX_CAPACITY_def KNOWLEDGE_TABLE_SIZE_def split: if_splits)

section \<open>A run of packets\<close>

definition decoded :: "'q cortex_env \<Rightarrow> bytes list \<Rightarrow> nexo_packet list" where
  "decoded env bss = List.map_filter (ce_from_bytes env) bss"

lemma decoded_simps:
  "decoded env [] = []"
  "decoded env (bs # bss) = (case ce_from_bytes env bs of None \<Rightarrow> decoded env bss | Some p \<Rightarrow> p # decoded env bss)"
  by (simp_all add: decoded_def map_filter_simps split: option.splits)

text \<open>
  C36: no sequence of packets makes the cortex trap: from a well-formed state every packet is ingested and the state stays
  well formed, the table of knowledge, the memory and the host's sets included. The count of ingestions and the generation
  of the reflex both advance by the number of packets that decode, and the host's channel is given the encoding of each of
  them in order, whether or not it has room: the guest never learns that a packet was dropped.
\<close>

theorem cortex_never_traps:
  assumes "cortex_ok env s"
  shows "\<exists>s'. ingest_all env bss s = Some s' \<and> cortex_ok env s' \<and>
    cx_ingest (og_cortex s') = cx_ingest (og_cortex s) + word_of_nat (length (decoded env bss)) \<and>
    get_reflex_generation s' = get_reflex_generation s + word_of_nat (length (decoded env bss)) \<and>
    hs_tx (og_host s') = fold (\<lambda>p. ce_try_send env (ce_to_bytes env p)) (decoded env bss) (hs_tx (og_host s))"
proof -
  have "alive env (foldl (ingest_step env) (Some s) bss)"
    by (rule life.run_inv) (use assms in \<open>simp add: alive_def\<close>)
  then obtain s' where s': "ingest_all env bss s = Some s'" "cortex_ok env s'"
    by (auto simp: ingest_all_foldl alive_def split: option.splits)
  have "cx_ingest (og_cortex s') = cx_ingest (og_cortex s) + word_of_nat (length (decoded env bss)) \<and>
    cx_generation (og_cortex s') = cx_generation (og_cortex s) + word_of_nat (length (decoded env bss)) \<and>
    hs_tx (og_host s') = fold (\<lambda>p. ce_try_send env (ce_to_bytes env p)) (decoded env bss) (hs_tx (og_host s))"
    using assms s'(1)
  proof (induction bss arbitrary: s)
    case (Cons bs bss)
    show ?case
    proof (cases "ce_from_bytes env bs")
      case None
      then show ?thesis using Cons by (simp add: ingest_packet_none decoded_simps)
    next
      case (Some p)
      obtain code s1 where s1: "ingest_packet env bs s = Some (code, s1)" "cortex_ok env s1"
        using ingest_packet_keeps [OF Cons.prems(1), of bs] by blast
      then have "ingest_all env bss s1 = Some s'" using Cons.prems(2) by simp
      note ih = Cons.IH [OF s1(2) this]
      have "cx_ingest (og_cortex s1) = cx_ingest (og_cortex s) + 1 \<and> cx_generation (og_cortex s1) = cx_generation (og_cortex s) + 1 \<and>
          hs_tx (og_host s1) = ce_try_send env (ce_to_bytes env p) (hs_tx (og_host s))"
        using s1(1) by (rule_tac ingest_packet_eq [OF Cons.prems(1) Some]) auto
      then show ?thesis using ih Some by (simp add: decoded_simps)
    qed
  qed (simp add: decoded_simps)
  then show ?thesis using s' by (auto simp: get_reflex_generation_def)
qed

theorem cortex_never_traps_witness:
  "\<exists>s'. ingest_all demo_env [zeros 40, zeros 3, zeros 40] demo_organism = Some s' \<and> get_reflex_generation s' = 2 \<and>
     length (hs_tx (og_host s')) = 2"
  using cortex_never_traps [OF demo_ok, of "[zeros 40, zeros 3, zeros 40]"]
  by (auto simp: decoded_simps demo_env_def demo_packet_def get_reflex_generation_def demo_organism_def cortex_new_def)

section \<open>Knowledge\<close>

text \<open>
  The fragment of an accepted packet is in the table afterwards, unmarked and with the larger of its strengths, even when
  the packet triggers a REM cycle; the answer is 3 or 1 by the contradiction score.
\<close>

theorem ingest_remembers:
  assumes "cortex_ok env s" and "ce_from_bytes env bs = Some p" and "np_fragment_id p \<noteq> 0"
  shows "\<exists>s'. ingest_packet env bs s = Some (if wide (og_cortex s) p then 3 else 1, s') \<and>
    entry_of (np_fragment_id p) (cx_table (og_cortex s')) =
      Some (case entry_of (np_fragment_id p) (cx_table (og_cortex s)) of
        None \<Rightarrow> fresh_entry (np_fragment_id p) (np_payload p ! 4) (cx_ingest (og_cortex s) + 1)
      | Some e \<Rightarrow> seen_again (np_payload p ! 4) (cx_ingest (og_cortex s) + 1) e)"
  by (rule ingest_packet_eq [OF assms(1,2)]) (use assms(3) in simp)

theorem ingest_remembers_witness:
  "\<exists>s'. ingest_packet demo_env (u64_to_le 7 @ zeros 32) demo_organism = Some s' \<and>
     entry_of 7 (cx_table (og_cortex (snd s'))) = Some (fresh_entry 7 0 1)"
proof -
  have d: "ce_from_bytes demo_env (u64_to_le 7 @ zeros 32) =
      Some \<lparr>np_fragment_id = 7, np_payload = zeros 32, np_provenance = packet_provenance_default\<rparr>"
    by (simp add: demo_env_def demo_packet_def)
  have "entry_of 7 (cx_table (og_cortex demo_organism)) = None" "cx_ingest (og_cortex demo_organism) = 0"
    by (simp_all add: demo_organism_def cortex_new_def entry_of_def find_index_None table_new_def EMPTY_ENTRY_def)
  then show ?thesis using ingest_remembers [OF demo_ok d] by auto
qed

text \<open>
  C37: a REM cycle asks the host to forget exactly the entries that the decay of this instant marks: the host holds each of them
  as forgotten and none as live, and the number returned is how many they are. In the guest, an entry whose strength has
  decayed to zero leaves the table; a marked entry that still has strength stays, unmarked, although the host was told to
  forget it; every other entry is only decayed.
\<close>

theorem rem_cycle_forgets:
  assumes "cortex_ok env s"
  defines "now \<equiv> cx_ingest (og_cortex s)" and "t \<equiv> cx_table (og_cortex s)"
  defines "marked \<equiv> {i. i \<noteq> 0 \<and> (\<exists>e. entry_of i t = Some e \<and> ke_dirty (decay_entry now e))}"
  shows "\<exists>n s'. rem_cycle env s = Some (n, s') \<and> cortex_ok env s' \<and> unat n = card marked \<and>
    ms_tombstones (hs_store (og_host s')) = marked \<union> ms_tombstones (hs_store (og_host s)) \<and>
    ms_live (hs_store (og_host s')) = ms_live (hs_store (og_host s)) - marked \<and>
    (\<forall>i. i \<noteq> 0 \<longrightarrow> entry_of i (cx_table (og_cortex s')) =
       (case map_option (decay_entry now) (entry_of i t) of
          None \<Rightarrow> None
        | Some e \<Rightarrow> if i \<notin> marked then Some e else if ke_strength e = 0 then None else Some (e\<lparr>ke_dirty := False\<rparr>)))"
proof -
  have wf: "table_wf t" and lay: "layout_ok env (og_memory s)" using assms(1) by (simp_all add: cortex_ok_def t_def)
  note r = reported_facts [OF wf [unfolded t_def], folded t_def now_def]
  have m: "set (reported (og_cortex s)) = marked" unfolding marked_def using r(4) by blast
  obtain mem where lm: "length mem = length (og_memory s)" and rc: "rem_cycle env s =
      Some (word_of_nat (length (reported (og_cortex s))),
       s\<lparr>og_cortex := (og_cortex s)\<lparr>cx_table := clear_dirty (reported (og_cortex s)) (decay now t)\<rparr>,
         og_memory := mem,
         og_host := (og_host s)\<lparr>hs_store := mark_for_deletion (reported (og_cortex s)) (hs_store (og_host s))\<rparr>\<rparr>)"
    using rem_cycle_eq [of s env, folded t_def now_def] wf lay by blast
  define t' where "t' = clear_dirty (reported (og_cortex s)) (decay now t)"
  have n: "unat (word_of_nat (length (reported (og_cortex s))) :: 32 word) = card marked"
    using r(3) distinct_card [OF r(1)] m by (simp add: unat_of_nat)
  have w: "table_wf t'" unfolding t'_def by (rule clear_dirty_wf [OF decay_wf [OF wf] r(2)])
  have e: "\<forall>i. i \<noteq> 0 \<longrightarrow> entry_of i t' = (case map_option (decay_entry now) (entry_of i t) of
          None \<Rightarrow> None
        | Some e \<Rightarrow> if i \<notin> marked then Some e else if ke_strength e = 0 then None else Some (e\<lparr>ke_dirty := False\<rparr>))"
  proof (intro allI impI)
    fix i :: u64 assume i: "i \<noteq> 0"
    show "entry_of i t' = (case map_option (decay_entry now) (entry_of i t) of
          None \<Rightarrow> None
        | Some e \<Rightarrow> if i \<notin> marked then Some e else if ke_strength e = 0 then None else Some (e\<lparr>ke_dirty := False\<rparr>))"
      unfolding t'_def entry_of_clear_dirty [OF r(1,2) i decay_wf [OF wf]] m entry_of_decay
      by (cases "entry_of i t") simp_all
  qed
  define s' where "s' = s\<lparr>og_cortex := (og_cortex s)\<lparr>cx_table := t'\<rparr>, og_memory := mem,
      og_host := (og_host s)\<lparr>hs_store := mark_for_deletion (reported (og_cortex s)) (hs_store (og_host s))\<rparr>\<rparr>"
  have ok: "cortex_ok env s'"
    using assms(1) w lm mark_for_deletion_wf unfolding cortex_ok_def layout_ok_def by (simp add: s'_def)
  have st: "cx_table (og_cortex s') = t'"
    "hs_store (og_host s') = mark_for_deletion (reported (og_cortex s)) (hs_store (og_host s))"
    by (simp_all add: s'_def)
  show ?thesis
    by (intro exI conjI, rule rc [folded t'_def, folded s'_def], rule ok, rule n)
      (simp_all only: st mark_for_deletion_sets m, rule e)
qed

theorem rem_cycle_forgets_witness:
  "\<exists>n s'. rem_cycle demo_env demo_organism = Some (n, s') \<and> cortex_ok demo_env s'"
  using rem_cycle_forgets [OF demo_ok] by blast

section \<open>Contradiction\<close>

lemma fabs_fsub_commute: "fabs (fsub x y) = fabs (fsub y x)"
proof -
  have minus: "fabs (fround q) = fabs (fround (- q))" for q by (simp add: fround_def fp_to_def Let_def)
  have "fabs (fround (p + - q)) = fabs (fround (q + - p))" for p q using minus [of "p + - q"] by (simp add: algebra_simps)
  then show ?thesis
    by (cases x; cases y) (simp_all only: sub_by_def fneg.simps add_by.simps fabs.simps add_NaN, auto)
qed

lemma fmax_commute: "fmax x y = fmax y x"
  by (cases x; cases y) (auto simp: fmax_def)

lemma lit_six: "f32_lit (6 / 10) = Fin (5033165 / 8388608)"
proof -
  have "\<lfloor>50331648 / 5 :: rat\<rfloor> = 10066329" by (simp add: floor_eq_iff)
  then show ?thesis using fround_eval [of "- 1" "6 / 10"] by (simp add: f32_lit_def pow2_def round_even_def Let_def)
qed

lemma lit_four: "f32_lit (4 / 10) = Fin (13421773 / 33554432)"
proof -
  have "\<lfloor>67108864 / 5 :: rat\<rfloor> = 13421772" by (simp add: floor_eq_iff)
  then show ?thesis using fround_eval [of "- 2" "4 / 10"] by (simp add: f32_lit_def pow2_def round_even_def Let_def)
qed

text \<open>The strengths and their difference are exact; the quotient by 255 is at most one.\<close>

lemma strength_part:
  "nonneg (fmul (fdiv (fabs (fsub (fround (of_nat (unat (a :: byte)))) (fround (of_nat (unat (b :: byte)))))) (Fin 255)) (f32_lit (4 / 10)))"
proof -
  have exact: "fround (of_nat (unat c)) = Fin (of_nat (unat c))" for c :: byte
    by (rule fround_nat) (use unat_byte_le [of c] in simp)
  note a = exact [of a] and b = exact [of b]
  define d where "d = int (unat a) - int (unat b)"
  have dab: "(of_nat (unat a) :: rat) + - of_nat (unat b) = of_int d" by (simp add: d_def)
  have "\<bar>d\<bar> \<le> 255" using unat_byte_le [of a] unat_byte_le [of b] unfolding d_def by linarith
  then have "fround (of_int d) = Fin (of_int d)" using fround_dyadic [of d 0] by (simp add: pow2_def)
  moreover have "nonneg (fmul (fround (\<bar>of_int d\<bar> / 255)) (Fin (13421773 / 33554432)))"
    using fround_nonneg [of "\<bar>of_int d\<bar> / 255"] by (cases "fround (\<bar>of_int d\<bar> / 255)") (auto intro: fround_nonneg)
  ultimately show ?thesis by (simp only: a b sub_by_def fneg.simps add_by.simps dab fabs.simps div_by.simps lit_four) simp
qed

text \<open>
  C38: the contradiction score is a number between zero and one for any two states, whatever bytes the value of a packet
  holds, infinities and NaN included, and it does not depend on the order of the two states.
\<close>

theorem contradiction_score_unit:
  "unit_range (calculate_contradiction_score l r) \<and>
   calculate_contradiction_score l r = calculate_contradiction_score r l"
proof
  let ?m = "fmax (fmax (rs_value l) (rs_value r)) (Fin 1)"
  have q: "nonneg (fdiv (fabs (fsub (rs_value l) (rs_value r))) ?m) \<or> fdiv (fabs (fsub (rs_value l) (rs_value r))) ?m = NaN"
    using fabs_nonneg [of "fsub (rs_value l) (rs_value r)"] fdiv_nonneg fmax_one by fastforce
  have "nonneg (fmul (fmin (fdiv (fabs (fsub (rs_value l) (rs_value r))) ?m) (Fin 1)) (f32_lit (6 / 10)))"
    unfolding lit_six using fmin_unit [OF q] by (auto simp: unit_range_def intro!: fround_nonneg)
  moreover have "nonneg (fmul (fdiv (fabs (fsub (fround (of_nat (unat (rs_strength l)))) (fround (of_nat (unat (rs_strength r)))))) (Fin 255))
      (f32_lit (4 / 10)))"
    by (rule strength_part)
  ultimately show "unit_range (calculate_contradiction_score l r)"
    unfolding calculate_contradiction_score_def Let_def
    by (intro fmin_unit disjI1 fadd_nonneg) simp_all
  show "calculate_contradiction_score l r = calculate_contradiction_score r l"
    unfolding calculate_contradiction_score_def
    by (simp only: fabs_fsub_commute [of "rs_value r"] fmax_commute [of "rs_value r"]
        fabs_fsub_commute [of "fround (of_nat (unat (rs_strength r)))"])
qed


section \<open>NaN\<close>

lemma mix_NaN: "v = NaN \<or> w = NaN \<Longrightarrow> mix_value a b v w = NaN"
  by (auto simp: mix_value_def)

text \<open>
  One packet whose value is a NaN makes the persistent value of the cortex a NaN for ever: no later packet brings it back.
  From then on the score compares strengths only: two values have no influence on it.
\<close>

theorem nan_value_stays:
  assumes "cortex_ok env s" and "ce_from_bytes env bs = Some p" and "f32_from_le (take 4 (np_payload p)) = NaN"
  shows "(\<exists>s'. ingest_all env (bs # bss) s = Some s' \<and> cx_value (og_cortex s') = NaN) \<and>
    (\<forall>v v' k k' pv pv'. calculate_contradiction_score \<lparr>rs_value = NaN, rs_strength = k, rs_provenance = pv\<rparr> \<lparr>rs_value = v, rs_strength = k', rs_provenance = pv'\<rparr> =
       calculate_contradiction_score \<lparr>rs_value = NaN, rs_strength = k, rs_provenance = pv\<rparr> \<lparr>rs_value = v', rs_strength = k', rs_provenance = pv'\<rparr>)"
proof
  have keep: "cortex_ok env s \<Longrightarrow> cx_value (og_cortex s) = NaN \<Longrightarrow> \<exists>s'. ingest_all env bss s = Some s' \<and> cx_value (og_cortex s') = NaN" for s
  proof (induction bss arbitrary: s)
    case (Cons bs bss)
    obtain code s1 where s1: "ingest_packet env bs s = Some (code, s1)" "cortex_ok env s1"
      using ingest_packet_keeps [OF Cons.prems(1), of bs] by blast
    have "cx_value (og_cortex s1) = NaN"
    proof (cases "ce_from_bytes env bs")
      case None
      then show ?thesis using s1 Cons.prems(2) by (simp add: ingest_packet_none)
    next
      case (Some p)
      show ?thesis by (rule ingest_packet_eq [OF Cons.prems(1) Some]) (use s1 Cons.prems(2) in \<open>auto simp: mix_NaN\<close>)
    qed
    then show ?case using Cons.IH [OF s1(2)] s1(1) by simp
  qed simp
  obtain code s1 where s1: "ingest_packet env bs s = Some (code, s1)" "cortex_ok env s1"
    using ingest_packet_keeps [OF assms(1), of bs] by blast
  have "cx_value (og_cortex s1) = NaN"
    by (rule ingest_packet_eq [OF assms(1,2)]) (use s1 assms(3) in \<open>auto simp: mix_NaN\<close>)
  then show "\<exists>s'. ingest_all env (bs # bss) s = Some s' \<and> cx_value (og_cortex s') = NaN" using keep [OF s1(2)] s1(1) by simp
  show "\<forall>v v' k k' pv pv'. calculate_contradiction_score \<lparr>rs_value = NaN, rs_strength = k, rs_provenance = pv\<rparr> \<lparr>rs_value = v, rs_strength = k', rs_provenance = pv'\<rparr> =
       calculate_contradiction_score \<lparr>rs_value = NaN, rs_strength = k, rs_provenance = pv\<rparr> \<lparr>rs_value = v', rs_strength = k', rs_provenance = pv'\<rparr>"
    by (simp add: calculate_contradiction_score_def sub_by_def)
qed

theorem nan_value_stays_witness:
  "\<exists>s'. ingest_all demo_env [u64_to_le 7 @ [0, 0, 192, 127] @ zeros 28, u64_to_le 7 @ zeros 32] demo_organism = Some s' \<and>
     cx_value (og_cortex s') = NaN"
proof -
  let ?p = "[0, 0, 192, 127] @ zeros 28"
  have d: "ce_from_bytes demo_env (u64_to_le 7 @ ?p) =
      Some \<lparr>np_fragment_id = 7, np_payload = ?p, np_provenance = packet_provenance_default\<rparr>"
    by (simp add: demo_env_def demo_packet_def)
  show ?thesis using nan_value_stays [OF demo_ok d, of "[u64_to_le 7 @ zeros 32]"] by (simp add: f32_from_le_def)
qed

section \<open>The allocator\<close>

lemma align_down: "and x (not 15) = (x - x mod 16 :: 32 word)"
proof -
  have "x - and x (mask 4) = and x (not (and x (mask 4)))"
    by (rule disjunctive_diff_eq_and_not) (simp add: and.assoc [symmetric] and.commute [of "not x"])
  also have "\<dots> = and x (not (mask 4))" by (rule bit_eqI) (auto simp: bit_simps)
  finally have "and x (not (mask 4)) = x - x mod 16" by (simp add: take_bit_eq_mod flip: take_bit_eq_mask)
  moreover have "mask 4 = (15 :: 32 word)" by (simp add: mask_eq_exp_minus_1)
  ultimately show ?thesis by simp
qed

text \<open>
  As long as no sum wraps, the blocks of the allocator are aligned to 16 bytes, do not overlap what was handed out
  before, and end inside the memory, which grows by whole pages when the engine allows it; otherwise the guest traps.
\<close>

theorem alloc_tensor_block:
  assumes "unat hp + 15 + unat n + 65536 < 2 ^ 32" and "unat pages * 65536 + 65536 < 2 ^ 32"
    and "alloc_tensor may_grow n (hp, pages) = Some (p, hp', pages')"
  shows "unat p mod 16 = 0 \<and> unat hp \<le> unat p \<and> unat p < unat hp + 16 \<and> unat hp' = unat p + unat n \<and>
    unat hp' \<le> unat pages' * 65536 \<and> unat pages \<le> unat pages' \<and> (pages' = pages \<or> may_grow pages (pages' - pages))"
proof -
  have up: "unat (hp + 15) = unat hp + 15" using assms(1) by (simp add: unat_word_ariths)
  have "hp + 15 - (hp + 15) mod 16 = (hp + 15) div 16 * 16" by (simp add: minus_mod_eq_div_mult)
  have al: "unat (and (hp + 15) (not 15)) = unat hp + 15 - (unat hp + 15) mod 16"
    unfolding align_down using up by (subst unat_sub) (simp_all add: word_le_nat_alt unat_mod)
  define a where "a = and (hp + 15) (not 15)"
  have a: "unat a = unat hp + 15 - (unat hp + 15) mod 16" using al by (simp add: a_def)
  then have a16: "unat a mod 16 = 0" by (simp add: minus_mod_eq_mult_div)
  have ab: "unat hp \<le> unat a" "unat a < unat hp + 16" using a by auto
  have nx: "unat (a + n) = unat a + unat n" using ab assms(1) by (simp add: unat_word_ariths)
  have mx: "unat (pages * WASM_PAGE) = unat pages * 65536" using assms(2) by (simp add: unat_word_ariths WASM_PAGE_def)
  define k where "k = (a + n - pages * WASM_PAGE + WASM_PAGE - 1) div WASM_PAGE"
  have unf: "alloc_tensor may_grow n (hp, pages) =
      (if pages * WASM_PAGE < a + n then (if may_grow pages k then Some (a, a + n, pages + k) else None) else Some (a, a + n, pages))"
    by (simp only: alloc_tensor_def Let_def prod.case a_def k_def)
  show ?thesis
  proof (cases "pages * WASM_PAGE < a + n")
    case False
    then show ?thesis using assms(3) a16 ab nx mx unfolding unf by (auto simp: word_less_nat_alt)
  next
    case True
    then have lt: "unat pages * 65536 < unat a + unat n" by (simp add: word_less_nat_alt nx mx)
    have "unat (a + n - pages * WASM_PAGE) = unat a + unat n - unat pages * 65536"
      using True nx mx by (subst unat_sub) (simp_all add: word_le_nat_alt word_less_nat_alt)
    moreover have "unat (a + n - pages * WASM_PAGE + (WASM_PAGE - 1)) = unat (a + n - pages * WASM_PAGE) + 65535"
      using calculation ab assms(1) by (simp add: unat_word_ariths WASM_PAGE_def)
    ultimately have k: "unat k = (unat a + unat n - unat pages * 65536 + 65535) div 65536"
      by (simp add: k_def unat_div add_diff_eq [symmetric]) (simp add: WASM_PAGE_def)
    have "unat pages + unat k < 2 ^ 32" using k ab assms(1,2) by simp
    then have pk: "unat (pages + k) = unat pages + unat k" by (simp add: unat_word_ariths)
    have "unat a + unat n \<le> (unat pages + unat k) * 65536" using k lt by simp
    moreover have "may_grow pages k" "p = a" "hp' = a + n" "pages' = pages + k"
      using assms(3) True unfolding unf by (auto split: if_splits)
    ultimately show ?thesis using a16 ab nx pk by simp
  qed
qed

theorem alloc_tensor_block_witness:
  "alloc_tensor (\<lambda>_ _. True) 100 (HEAP_START + 1, 17) = Some (0x100010, 0x100074, 17) \<and> unat (0x100010 :: 32 word) mod 16 = 0"
proof
  show r: "alloc_tensor (\<lambda>_ _. True) 100 (HEAP_START + 1, 17) = Some (0x100010, 0x100074, 17)"
    by (simp add: alloc_tensor_def HEAP_START_def WASM_PAGE_def Let_def)
  have "unat (HEAP_START + 1) + 15 + unat (100 :: 32 word) + 65536 < 2 ^ 32" and "unat (17 :: 32 word) * 65536 + 65536 < 2 ^ 32"
    by (simp_all add: HEAP_START_def)
  from alloc_tensor_block [OF this r] show "unat (0x100010 :: 32 word) mod 16 = 0" by simp
qed

text \<open>
  A size close to the address space wraps: the block starts at the heap and the heap pointer moves back to zero,
  below everything handed out, without a trap and without growing.
\<close>

lemma alloc_tensor_wraps:
  "alloc_tensor may_grow 0xFFF00000 (HEAP_START, 17) = Some (HEAP_START, 0, 17)"
  by (simp add: alloc_tensor_def HEAP_START_def WASM_PAGE_def Let_def)

section \<open>Provenance\<close>

definition provenance_ok :: "packet_provenance \<Rightarrow> bool" where
  "provenance_ok p \<longleftrightarrow> length (pp_fragments p) = PACKET_PROVENANCE \<and> length (pp_influence p) = PACKET_PROVENANCE \<and>
     unat (pp_count p) \<le> PACKET_PROVENANCE \<and> distinct (take (unat (pp_count p)) (pp_fragments p))"

lemma least_influence_upto:
  "0 < n \<Longrightarrow> (\<exists>m. fold (\<lambda>i (m, v). if w ! i < v then (i, w ! i) else (m, v)) [1..<n] (0, w ! 0) = (m, w ! m) \<and> m < n \<and>
     (\<forall>j < n. w ! m \<le> w ! j))" for w :: bytes
proof (induction n)
  case (Suc n)
  show ?case
  proof (cases "n = 0")
    case False
    then obtain m where m: "fold (\<lambda>i (m, v). if w ! i < v then (i, w ! i) else (m, v)) [1..<n] (0, w ! 0) = (m, w ! m)"
      "m < n" "\<forall>j < n. w ! m \<le> w ! j" using Suc.IH by auto
    show ?thesis
    proof (cases "w ! n < w ! m")
      case True
      then have "w ! n \<le> w ! j" if "j < Suc n" for j
      proof (cases "j = n")
        case False
        then have "w ! m \<le> w ! j" using that m(3) by simp
        then show ?thesis using True by order
      qed simp
      then show ?thesis using True m False by (intro exI [of _ n]) auto
    next
      case F: False
      then have "w ! m \<le> w ! j" if "j < Suc n" for j using that m(3) by (cases "j = n") auto
      then show ?thesis using F m False by (intro exI [of _ m]) auto
    qed
  qed simp
qed simp

lemma least_influence_least:
  "least_influence w < PACKET_PROVENANCE" "j < PACKET_PROVENANCE \<Longrightarrow> w ! least_influence w \<le> w ! j"
  using least_influence_upto [of PACKET_PROVENANCE w] by (auto simp: least_influence_def PACKET_PROVENANCE_def)

text \<open>
  Adding a fragment to a well-formed provenance succeeds and keeps it well formed; the fragment is then among the fragments
  in use; and a full provenance that does not know the fragment gives up one whose influence is the least.
\<close>

theorem add_fragment_keeps:
  assumes "provenance_ok p"
  shows "\<exists>q. add_fragment i w p = Some q \<and> provenance_ok q \<and> i \<in> set (take (unat (pp_count q)) (pp_fragments q)) \<and>
    (unat (pp_count p) = PACKET_PROVENANCE \<and> i \<notin> set (pp_fragments p) \<longrightarrow>
      (\<exists>k < PACKET_PROVENANCE. pp_fragments q = (pp_fragments p)[k := i] \<and> pp_influence q = (pp_influence p)[k := w] \<and>
         (\<forall>j < PACKET_PROVENANCE. pp_influence p ! k \<le> pp_influence p ! j)))"
proof (cases "position (\<lambda>f. f = i) (take (unat (pp_count p)) (pp_fragments p))")
  case (Some k)
  then have "k < length (take (unat (pp_count p)) (pp_fragments p))" "take (unat (pp_count p)) (pp_fragments p) ! k = i"
    using position_Some [OF Some] by auto
  then have "i \<in> set (take (unat (pp_count p)) (pp_fragments p))" by (metis nth_mem)
  then show ?thesis using Some assms by (auto simp: add_fragment_def provenance_ok_def dest: in_set_takeD)
next
  case None
  then have new: "i \<notin> set (take (unat (pp_count p)) (pp_fragments p))" by (auto simp: position_None)
  have len: "length (pp_fragments p) = 12" "length (pp_influence p) = 12" and c: "unat (pp_count p) \<le> 12"
    and d: "distinct (take (unat (pp_count p)) (pp_fragments p))"
    using assms by (simp_all add: provenance_ok_def PACKET_PROVENANCE_def)
  show ?thesis
  proof (cases "unat (pp_count p) < 12")
    case True
    have up: "unat (pp_count p + 1) = unat (pp_count p) + 1" using True by (simp add: unat_word_ariths)
    have "take (unat (pp_count p) + 1) ((pp_fragments p)[unat (pp_count p) := i]) = take (unat (pp_count p)) (pp_fragments p) @ [i]"
      using True len by (simp add: take_Suc_conv_app_nth)
    then show ?thesis using None new True len d up
      by (simp add: add_fragment_def provenance_ok_def PACKET_PROVENANCE_def Let_def)
  next
    case False
    then have full: "unat (pp_count p) = 12" using c by simp
    define k where "k = least_influence (pp_influence p)"
    have k: "k < 12" using least_influence_least(1) by (simp add: k_def PACKET_PROVENANCE_def)
    have "i \<notin> set (pp_fragments p)" "distinct (pp_fragments p)" using new d full len by simp_all
    then have "distinct ((pp_fragments p)[k := i])" by (intro distinct_list_update) auto
    moreover have "i \<in> set ((pp_fragments p)[k := i])" using k len by (intro set_update_memI) simp
    ultimately show ?thesis using None full len k least_influence_least(2) [where w = "pp_influence p"]
      by (auto simp: add_fragment_def provenance_ok_def PACKET_PROVENANCE_def Let_def k_def [symmetric] intro!: exI [of _ k])
  qed
qed

theorem add_fragment_keeps_witness:
  "\<exists>q. add_fragment 5 9 packet_provenance_default = Some q \<and> provenance_ok q"
proof -
  have "provenance_ok packet_provenance_default"
    by (simp add: provenance_ok_def packet_provenance_default_def PACKET_PROVENANCE_def)
  from add_fragment_keeps [OF this] show ?thesis by blast
qed

end
