(* ===== verification/Storage.thy ===== *)
theory Storage
  imports Cortex_Host
begin

text \<open>
  The log of the WebAssembly host (\<^verbatim>\<open>crates/host/src/storage.rs\<close>): a memory-mapped file of fixed size with frames of
  length, data and BLAKE3 hash, the recovery of its cursor, and the snapshot of the semantic memory. The hash, the serializer and
  the compressor are arguments; addresses are natural numbers, as the file has 10 MB.
\<close>

section \<open>The log\<close>

definition WAL_SIZE :: nat where "WAL_SIZE = 10 * 1024 * 1024"

record wal_buffer =
  wb_mmap :: bytes
  wb_cursor :: nat

text \<open>The length stored in the four bytes at a position.\<close>

definition frame_size :: "bytes \<Rightarrow> nat \<Rightarrow> nat" where
  "frame_size mmap c = nat_of_le (slice mmap c (c + 4))"

text \<open>The position is moved over frames that lie in the file, are not empty and match their hash.\<close>

definition frame_fits :: "bytes \<Rightarrow> nat \<Rightarrow> bool" where
  "frame_fits mmap c \<longleftrightarrow> frame_size mmap c \<noteq> 0 \<and> c + 4 + frame_size mmap c + 32 \<le> length mmap"

definition frame_intact :: "(bytes \<Rightarrow> bytes) \<Rightarrow> bytes \<Rightarrow> nat \<Rightarrow> bool" where
  "frame_intact blake mmap c \<longleftrightarrow>
     (let n = frame_size mmap c
      in blake (slice mmap (c + 4) (c + 4 + n)) = slice mmap (c + 4 + n) (c + 4 + n + 32))"

function recover_from :: "(bytes \<Rightarrow> bytes) \<Rightarrow> bytes \<Rightarrow> nat \<Rightarrow> nat" where
  "recover_from blake mmap c =
     (if c + 4 \<le> length mmap \<and> frame_fits mmap c \<and> frame_intact blake mmap c
      then recover_from blake mmap (c + 4 + frame_size mmap c + 32) else c)"
  by pat_completeness auto
termination by (relation "measure (\<lambda>(_, mmap, c). length mmap - c)") (auto simp: frame_fits_def)

declare recover_from.simps [simp del]

definition recover_cursor :: "(bytes \<Rightarrow> bytes) \<Rightarrow> bytes \<Rightarrow> nat" where
  "recover_cursor blake mmap = recover_from blake mmap 0"

text \<open>The file is cut or filled with zeros to its size; a missing file is empty.\<close>

definition wal_buffer_new :: "(bytes \<Rightarrow> bytes) \<Rightarrow> bytes option \<Rightarrow> wal_buffer" where
  "wal_buffer_new blake content =
     (let bs = (case content of None \<Rightarrow> [] | Some bs \<Rightarrow> bs); mmap = take WAL_SIZE bs @ zeros (WAL_SIZE - length bs)
      in \<lparr>wb_mmap = mmap, wb_cursor = recover_cursor blake mmap\<rparr>)"

datatype wal_buffer_error = WalOverflow

definition append_delta :: "(bytes \<Rightarrow> bytes) \<Rightarrow> bytes \<Rightarrow> wal_buffer \<Rightarrow> (wal_buffer_error + unit) \<times> wal_buffer" where
  "append_delta blake payload b =
     (let payload_len = length payload; total_frame_size = 4 + payload_len + 32
      in if length (wb_mmap b) < wb_cursor b + total_frame_size then (Inl WalOverflow, b)
         else let mmap = put_at (wb_cursor b) (le_bytes 4 (payload_len mod 2 ^ 32)) (wb_mmap b);
                  data_start = wb_cursor b + 4;
                  mmap = put_at data_start payload mmap;
                  mmap = put_at (data_start + payload_len) (blake payload) mmap
              in (Inr (), b\<lparr>wb_mmap := mmap, wb_cursor := wb_cursor b + total_frame_size\<rparr>))"

definition wal_cursor :: "wal_buffer \<Rightarrow> nat" where
  "wal_cursor b = wb_cursor b"

definition wal_reset :: "wal_buffer \<Rightarrow> wal_buffer" where
  "wal_reset b = b\<lparr>wb_cursor := 0, wb_mmap := zeros (length (wb_mmap b))\<rparr>"

section \<open>The snapshot\<close>

text \<open>
  The files by path. The process may stop after any of its steps: the temporary file created empty, the hash
  written, the compressed state written, and the rename.
\<close>

definition snapshot_steps :: "(bytes \<Rightarrow> bytes) \<Rightarrow> string \<Rightarrow> string \<Rightarrow> bytes \<Rightarrow> ((string \<rightharpoonup> bytes) \<Rightarrow> (string \<rightharpoonup> bytes)) list" where
  "snapshot_steps blake tmp path compressed =
     [\<lambda>F. F(tmp \<mapsto> []), \<lambda>F. F(tmp \<mapsto> blake compressed), \<lambda>F. F(tmp \<mapsto> blake compressed @ compressed),
      \<lambda>F. (F(path := F tmp))(tmp := None)]"

definition create_snapshot ::
    "(bytes \<Rightarrow> bytes) \<Rightarrow> (memory_store \<Rightarrow> bytes option) \<Rightarrow> (bytes \<Rightarrow> bytes option) \<Rightarrow> nat \<Rightarrow> memory_store \<Rightarrow> string \<Rightarrow> string
      \<Rightarrow> (string \<rightharpoonup> bytes) \<Rightarrow> bool \<times> (string \<rightharpoonup> bytes)" where
  "create_snapshot blake serialize compress steps memory tmp path F =
     (case serialize memory of
        None \<Rightarrow> (False, F)
      | Some payload \<Rightarrow>
          (case compress payload of
             None \<Rightarrow> (False, F)
           | Some compressed \<Rightarrow>
               (4 \<le> steps, fold (\<lambda>f F. f F) (take steps (snapshot_steps blake tmp path compressed)) F)))"

section \<open>Frames\<close>

definition frame :: "(bytes \<Rightarrow> bytes) \<Rightarrow> bytes \<Rightarrow> bytes" where
  "frame blake p = le_bytes 4 (length p mod 2 ^ 32) @ p @ blake p"

definition payload_ok :: "bytes \<Rightarrow> bool" where
  "payload_ok p \<longleftrightarrow> p \<noteq> [] \<and> length p < 2 ^ 32"

lemma length_frame: "digest32 blake \<Longrightarrow> length (frame blake p) = length p + 36"
  by (simp add: frame_def digest32_length)

text \<open>What the recovery sees at the start of a frame.\<close>

lemma frame_at:
  assumes "digest32 blake" "length p < 2 ^ 32"
  shows "frame_size (ps @ frame blake p @ rest) (length ps) = length p"
    and "frame_intact blake (ps @ frame blake p @ rest) (length ps)"
  using assms(2)
  by (simp_all add: frame_size_def frame_intact_def frame_def slice_def nat_of_le_le_bytes assms(1) digest32_length Let_def
      del: le_bytes.simps)

lemma recover_frame:
  assumes "digest32 blake" "payload_ok p"
  shows "recover_from blake (ps @ frame blake p @ rest) (length ps) =
    recover_from blake ((ps @ frame blake p) @ rest) (length (ps @ frame blake p))"
proof -
  have n: "frame_size (ps @ frame blake p @ rest) (length ps) = length p"
    and i: "frame_intact blake (ps @ frame blake p @ rest) (length ps)"
    using frame_at assms by (auto simp: payload_ok_def)
  have "length ps + 4 \<le> length (ps @ frame blake p @ rest)" "frame_fits (ps @ frame blake p @ rest) (length ps)"
    using assms length_frame [OF assms(1), of p] by (simp_all add: frame_fits_def n payload_ok_def)
  then show ?thesis
    using i length_frame [OF assms(1), of p] by (subst recover_from.simps) (simp add: n add.commute add.left_commute)
qed

lemma recover_frames:
  assumes "digest32 blake" "\<forall>p \<in> set qs. payload_ok p"
  shows "recover_from blake (ps @ concat (map (frame blake) qs) @ rest) (length ps) =
    recover_from blake ((ps @ concat (map (frame blake) qs)) @ rest) (length (ps @ concat (map (frame blake) qs)))"
  using assms(2)
proof (induction qs arbitrary: ps)
  case (Cons q qs)
  have "recover_from blake (ps @ frame blake q @ concat (map (frame blake) qs) @ rest) (length ps) =
      recover_from blake ((ps @ frame blake q) @ concat (map (frame blake) qs) @ rest) (length (ps @ frame blake q))"
    using recover_frame [OF assms(1), of q ps "concat (map (frame blake) qs) @ rest"] Cons.prems by simp
  then show ?case using Cons.IH [of "ps @ frame blake q"] Cons.prems by simp
qed simp

text \<open>A region that starts with four zeros, or has no room for a length, ends the log.\<close>

definition blank :: "bytes \<Rightarrow> bool" where
  "blank rest \<longleftrightarrow> length rest < 4 \<or> take 4 rest = zeros 4"

lemma recover_blank: "blank rest \<Longrightarrow> recover_from blake (ps @ rest) (length ps) = length ps"
proof -
  have "nat_of_le (zeros 4) = 0" by (simp add: zeros_def eval_nat_numeral)
  moreover assume "blank rest"
  ultimately have "length rest < 4 \<or> frame_size (ps @ rest) (length ps) = 0"
    by (auto simp: blank_def frame_size_def slice_def)
  then show ?thesis by (subst recover_from.simps) (auto simp: frame_fits_def)
qed

lemma put_at_append: "length ps = c \<Longrightarrow> put_at c xs (ps @ rest) = ps @ xs @ drop (length xs) rest"
  by (simp add: put_at_def)

lemma append_delta_frame:
  assumes "digest32 blake" "length p < 2 ^ 32" "length p + 36 \<le> length rest"
  shows "append_delta blake p \<lparr>wb_mmap = ps @ rest, wb_cursor = length ps\<rparr> =
    (Inr (), \<lparr>wb_mmap = (ps @ frame blake p) @ drop (length p + 36) rest, wb_cursor = length (ps @ frame blake p)\<rparr>)"
proof -
  have a: "put_at (length ps) (le_bytes 4 (length p)) (ps @ rest) = (ps @ le_bytes 4 (length p)) @ drop 4 rest"
    by (simp add: put_at_append del: le_bytes.simps)
  have b: "put_at (length ps + 4) p ((ps @ le_bytes 4 (length p)) @ drop 4 rest) =
      (ps @ le_bytes 4 (length p) @ p) @ drop (length p + 4) rest"
    using put_at_append [of "ps @ le_bytes 4 (length p)" "length ps + 4" p "drop 4 rest"] by (simp del: le_bytes.simps)
  have c: "put_at (length ps + 4 + length p) (blake p) ((ps @ le_bytes 4 (length p) @ p) @ drop (length p + 4) rest) =
      (ps @ le_bytes 4 (length p) @ p @ blake p) @ drop (length p + 36) rest"
    using put_at_append [of "ps @ le_bytes 4 (length p) @ p" "length ps + 4 + length p" "blake p" "drop (length p + 4) rest"] assms(1)
    by (simp add: digest32_length add.commute add.left_commute del: le_bytes.simps)
  show ?thesis using assms by (simp add: append_delta_def Let_def frame_def a b c digest32_length del: le_bytes.simps append_assoc)
qed

text \<open>A frame whose hash is not that of its data ends the log.\<close>

lemma recover_damaged:
  assumes "payload_ok d" "length h = 32" "h \<noteq> blake d"
  shows "recover_from blake (ps @ le_bytes 4 (length d) @ d @ h @ rest) (length ps) = length ps"
proof -
  have "frame_size (ps @ le_bytes 4 (length d) @ d @ h @ rest) (length ps) = length d"
    using assms(1) by (simp add: frame_size_def slice_def nat_of_le_le_bytes payload_ok_def del: le_bytes.simps)
  then have "\<not> frame_intact blake (ps @ le_bytes 4 (length d) @ d @ h @ rest) (length ps)"
    using assms(2,3) by (simp add: frame_intact_def slice_def Let_def del: le_bytes.simps)
  then show ?thesis by (subst recover_from.simps) simp
qed

section \<open>Properties\<close>

text \<open>The log after opening an empty file and appending, until one does not fit.\<close>

fun append_all :: "(bytes \<Rightarrow> bytes) \<Rightarrow> bytes list \<Rightarrow> wal_buffer \<Rightarrow> wal_buffer" where
  "append_all blake [] b = b"
| "append_all blake (p # ps) b = append_all blake ps (snd (append_delta blake p b))"

definition frames_room :: "bytes list \<Rightarrow> nat" where
  "frames_room ps = sum_list (map (\<lambda>p. length p + 36) ps)"

lemma length_frames: "digest32 blake \<Longrightarrow> length (concat (map (frame blake) ps)) = frames_room ps"
  by (induction ps) (simp_all add: frames_room_def length_frame)

lemma append_all_frames:
  assumes "digest32 blake" "\<forall>p \<in> set ps. length p < 2 ^ 32" "frames_room ps \<le> length rest"
  shows "append_all blake ps \<lparr>wb_mmap = qs @ rest, wb_cursor = length qs\<rparr> =
    \<lparr>wb_mmap = (qs @ concat (map (frame blake) ps)) @ drop (frames_room ps) rest,
     wb_cursor = length (qs @ concat (map (frame blake) ps))\<rparr>"
  using assms(2,3)
proof (induction ps arbitrary: qs rest)
  case (Cons p ps)
  have "frames_room (p # ps) = length p + 36 + frames_room ps" by (simp add: frames_room_def)
  moreover from this have "length p < 2 ^ 32" "length p + 36 \<le> length rest" using Cons.prems by simp_all
  ultimately show ?case
    using Cons.IH [of "drop (length p + 36) rest" "qs @ frame blake p"] Cons.prems append_delta_frame [OF assms(1), of p rest qs]
    by (simp add: add.commute add.left_commute)
qed (simp add: frames_room_def)

lemma blank_zeros: "blank (zeros n)"
  by (auto simp: blank_def zeros_def)

lemma recover_log:
  assumes "digest32 blake" "\<forall>p \<in> set ps. payload_ok p" "blank rest"
  shows "recover_cursor blake (concat (map (frame blake) ps) @ rest) = frames_room ps"
  using recover_frames [OF assms(1,2), of "[]" rest] recover_blank [OF assms(3), of blake "concat (map (frame blake) ps)"]
  by (simp add: recover_cursor_def length_frames [OF assms(1)])

lemma wal_buffer_new_frames:
  assumes "digest32 blake" "\<forall>p \<in> set ps. payload_ok p" "frames_room ps \<le> WAL_SIZE"
  shows "wal_buffer_new blake (Some (concat (map (frame blake) ps) @ zeros (WAL_SIZE - frames_room ps))) =
    \<lparr>wb_mmap = concat (map (frame blake) ps) @ zeros (WAL_SIZE - frames_room ps), wb_cursor = frames_room ps\<rparr>"
proof -
  have "length (concat (map (frame blake) ps) @ zeros (WAL_SIZE - frames_room ps)) = WAL_SIZE"
    using assms(3) by (simp add: length_frames [OF assms(1)])
  moreover have "recover_cursor blake (concat (map (frame blake) ps) @ zeros (WAL_SIZE - frames_room ps)) = frames_room ps"
    by (rule recover_log [OF assms(1,2) blank_zeros])
  ultimately show ?thesis by (simp add: wal_buffer_new_def Let_def length_frames [OF assms(1)]) (simp add: zeros_def)
qed

text \<open>
  C39: a process that appends non-empty records to a new log and stops finds the same log when it opens the file again: the
  bytes, each record behind its length and before its hash, and the cursor behind the last record. A record that does not
  fit is refused and changes nothing. When a record of the file is damaged, so that its 32 bytes of hash are not the hash of
  its data, whatever follows it, the opening keeps the bytes and sets the cursor in front of that record.
\<close>

theorem wal_buffer_recovers:
  assumes "digest32 blake" and "\<forall>p \<in> set ps. p \<noteq> [] \<and> length p < 2 ^ 32"
    and "frames_room ps \<le> 10485760"
  shows "wal_buffer_new blake (Some (wb_mmap (append_all blake ps (wal_buffer_new blake None)))) =
      append_all blake ps (wal_buffer_new blake None) \<and>
    append_all blake ps (wal_buffer_new blake None) =
      \<lparr>wb_mmap = concat (map (\<lambda>p. le_bytes 4 (length p) @ p @ blake p) ps) @ zeros (10485760 - frames_room ps),
       wb_cursor = frames_room ps\<rparr> \<and>
    (10485760 < frames_room ps + length q + 36 \<longrightarrow>
      append_delta blake q (append_all blake ps (wal_buffer_new blake None)) =
        (Inl WalOverflow, append_all blake ps (wal_buffer_new blake None))) \<and>
    (d \<noteq> [] \<and> length d < 2 ^ 32 \<and> length h = 32 \<and> h \<noteq> blake d \<and>
       img = concat (map (\<lambda>p. le_bytes 4 (length p) @ p @ blake p) ps) @ le_bytes 4 (length d) @ d @ h @ tail \<and>
       length img = 10485760 \<longrightarrow>
      wal_buffer_new blake (Some img) = \<lparr>wb_mmap = img, wb_cursor = frames_room ps\<rparr>)"
proof -
  have ok: "\<forall>p \<in> set ps. payload_ok p" using assms(2) by (simp add: payload_ok_def)
  have room: "frames_room ps \<le> WAL_SIZE" using assms(3) by (simp add: WAL_SIZE_def)
  have size: "WAL_SIZE = 10485760" by (simp add: WAL_SIZE_def)
  have new: "wal_buffer_new blake None = \<lparr>wb_mmap = [] @ zeros WAL_SIZE, wb_cursor = length ([] :: bytes)\<rparr>"
    using recover_blank [OF blank_zeros, of blake "[]"] by (simp add: wal_buffer_new_def recover_cursor_def Let_def)
  have "\<forall>p \<in> set ps. length p < 2 ^ 32" using assms(2) by simp
  then have all: "append_all blake ps (wal_buffer_new blake None) =
      \<lparr>wb_mmap = concat (map (frame blake) ps) @ zeros (WAL_SIZE - frames_room ps), wb_cursor = frames_room ps\<rparr>"
    unfolding new using append_all_frames [OF assms(1), of ps "zeros WAL_SIZE" "[]"] room length_frames [OF assms(1)]
    by (simp add: zeros_def)
  have f: "map (\<lambda>p. le_bytes 4 (length p) @ p @ blake p) ps = map (frame blake) ps"
    using assms(2) by (intro map_cong) (simp_all add: frame_def del: le_bytes.simps)
  have damaged: "wal_buffer_new blake (Some img) = \<lparr>wb_mmap = img, wb_cursor = frames_room ps\<rparr>"
    if "payload_ok d" "length h = 32" "h \<noteq> blake d" "length img = WAL_SIZE"
      and img: "img = concat (map (frame blake) ps) @ le_bytes 4 (length d) @ d @ h @ tail"
  proof -
    have "recover_cursor blake img = frames_room ps"
      unfolding recover_cursor_def img
      using recover_frames [OF assms(1) ok, of "[]"] recover_damaged [of d h blake "concat (map (frame blake) ps)" tail] that(1-3)
        length_frames [OF assms(1)] by (simp del: le_bytes.simps)
    then show ?thesis using that(4) by (simp add: wal_buffer_new_def Let_def) (simp add: zeros_def)
  qed
  have "length (concat (map (frame blake) ps) @ zeros (WAL_SIZE - frames_room ps)) = WAL_SIZE"
    using room by (simp add: length_frames [OF assms(1)])
  then show ?thesis
    using wal_buffer_new_frames [OF assms(1) ok room] unfolding size [symmetric] f
    by (intro conjI impI; (elim conjE, intro damaged)?) (simp_all add: all append_delta_def payload_ok_def Let_def del: le_bytes.simps)
qed

theorem wal_buffer_recovers_witness:
  "wal_cursor (append_all (\<lambda>_. zeros 32) [[1], [2, 3]] (wal_buffer_new (\<lambda>_. zeros 32) None)) = 75"
proof -
  have "digest32 (\<lambda>_. zeros 32)" "\<forall>p \<in> set [[1], [2, 3 :: 8 word]]. p \<noteq> [] \<and> length p < 2 ^ 32" "frames_room [[1], [2, 3]] \<le> 10485760"
    by (simp_all add: digest32_def frames_room_def)
  from wal_buffer_recovers [OF this, THEN conjunct2, THEN conjunct1] show ?thesis by (simp add: frames_room_def wal_cursor_def)
qed

text \<open>
  An empty record is accepted, but the recovery takes its length for the end of the log: it and everything
  appended after it are lost at the next opening.
\<close>

lemma empty_record_ends_recovery:
  assumes "digest32 blake" "\<forall>p \<in> set ps. payload_ok p"
  shows "recover_cursor blake (concat (map (frame blake) ps) @ frame blake [] @ rest) = frames_room ps"
proof -
  have "le_bytes n 0 = zeros n" for n by (induction n) (simp_all add: zeros_def)
  then have "blank (frame blake [] @ rest)" by (simp add: blank_def frame_def del: le_bytes.simps)
  then show ?thesis by (rule recover_log [OF assms])
qed

text \<open>
  Records behind a damaged one come back: when the damaged record is overwritten by one of the same length, the old
  records behind it are part of the log again at the next opening.
\<close>

lemma stale_records_return:
  assumes "digest32 blake" "\<forall>p \<in> set (ps @ qs). payload_ok p" "payload_ok new" "length bad = length new + 36"
    and "blank rest"
  shows "append_delta blake new \<lparr>wb_mmap = concat (map (frame blake) ps) @ bad @ concat (map (frame blake) qs) @ rest, wb_cursor = frames_room ps\<rparr> =
      (Inr (), \<lparr>wb_mmap = concat (map (frame blake) ps) @ frame blake new @ concat (map (frame blake) qs) @ rest,
        wb_cursor = frames_room (ps @ [new])\<rparr>)"
    and "recover_cursor blake (concat (map (frame blake) ps) @ frame blake new @ concat (map (frame blake) qs) @ rest) =
      frames_room (ps @ new # qs)"
proof -
  show "append_delta blake new \<lparr>wb_mmap = concat (map (frame blake) ps) @ bad @ concat (map (frame blake) qs) @ rest, wb_cursor = frames_room ps\<rparr> =
      (Inr (), \<lparr>wb_mmap = concat (map (frame blake) ps) @ frame blake new @ concat (map (frame blake) qs) @ rest,
        wb_cursor = frames_room (ps @ [new])\<rparr>)"
    using append_delta_frame [OF assms(1), of new "bad @ concat (map (frame blake) qs) @ rest" "concat (map (frame blake) ps)"] assms(3,4)
    by (simp add: payload_ok_def length_frames [OF assms(1)] length_frame [OF assms(1)] frames_room_def)
  show "recover_cursor blake (concat (map (frame blake) ps) @ frame blake new @ concat (map (frame blake) qs) @ rest) =
      frames_room (ps @ new # qs)"
    using recover_log [OF assms(1) _ assms(5), of "ps @ new # qs"] assms(2,3) by simp
qed

text \<open>
  At whatever step the process stops while it writes a snapshot, the file at the path is the old one or the complete new
  one, the hash of the compressed state followed by that state, and it is the new one exactly when the snapshot
  reports success; a state that cannot be serialized or compressed leaves every file alone.
\<close>

theorem snapshot_atomic:
  assumes "tmp \<noteq> path"
  shows "snd (create_snapshot blake serialize compress steps m tmp path F) path =
      (if fst (create_snapshot blake serialize compress steps m tmp path F)
       then map_option (\<lambda>c. blake c @ c) (Option.bind (serialize m) compress) else F path) \<and>
    (fst (create_snapshot blake serialize compress steps m tmp path F) \<longleftrightarrow>
       4 \<le> steps \<and> Option.bind (serialize m) compress \<noteq> None) \<and>
    (Option.bind (serialize m) compress = None \<longrightarrow> snd (create_snapshot blake serialize compress steps m tmp path F) = F)"
proof -
  have s: "take steps (snapshot_steps blake tmp path c) = snapshot_steps blake tmp path c" if "4 \<le> steps" for c
    using that by (simp add: snapshot_steps_def)
  have less: "steps = 0 \<or> steps = 1 \<or> steps = 2 \<or> steps = 3" if "\<not> 4 \<le> steps" using that by auto
  have "fold (\<lambda>f F. f F) (take steps (snapshot_steps blake tmp path c)) F path = (if 4 \<le> steps then Some (blake c @ c) else F path)" for c
  proof (cases "4 \<le> steps")
    case True
    then show ?thesis using assms by (simp add: s) (simp add: snapshot_steps_def)
  next
    case False
    then show ?thesis using assms less [OF False] by (auto simp: snapshot_steps_def numeral_2_eq_2 numeral_3_eq_3)
  qed
  then show ?thesis by (auto simp: create_snapshot_def split: option.splits)
qed

theorem snapshot_atomic_witness:
  "snd (create_snapshot (\<lambda>_. zeros 32) (\<lambda>_. Some [1]) Some 3 memory_store_new ''nexo_brain.zst.tmp'' ''nexo_brain.zst'' Map.empty) ''nexo_brain.zst'' = None \<and>
   snd (create_snapshot (\<lambda>_. zeros 32) (\<lambda>_. Some [1]) Some 4 memory_store_new ''nexo_brain.zst.tmp'' ''nexo_brain.zst'' Map.empty) ''nexo_brain.zst'' =
     Some (zeros 32 @ [1])"
  using snapshot_atomic [of "''nexo_brain.zst.tmp''" "''nexo_brain.zst''" "\<lambda>_. zeros 32" "\<lambda>_. Some [1]" Some 3 memory_store_new Map.empty]
    snapshot_atomic [of "''nexo_brain.zst.tmp''" "''nexo_brain.zst''" "\<lambda>_. zeros 32" "\<lambda>_. Some [1]" Some 4 memory_store_new Map.empty]
  by simp

end
