(* ===== verification/Nexus.thy ===== *)
theory Nexus
  imports Cortex_Theorems Storage Assertion Texts
begin

text \<open>
  The program around the cortex (\<^verbatim>\<open>crates/host/src/bin/nexus.rs\<close>): the packets of the swarm, whose length the node
  of \<^verbatim>\<open>p2p.rs\<close> limits, the lines a human types, the concepts loaded at the start, and the snapshot that follows a full
  log. Each of them writes a packet into the ingestion buffer of the guest and calls it. The guest is given enough
  fuel for a packet.
\<close>

section \<open>Events\<close>

record 'q nexus_env =
  ne_cortex :: "'q cortex_env"
  ne_ingest :: "32 word"
  ne_encode :: "nexo_packet \<Rightarrow> bytes option"
  ne_blake :: "bytes \<Rightarrow> bytes"
  ne_parse :: "string \<Rightarrow> json option"
  ne_serialize :: "memory_store \<Rightarrow> bytes option"
  ne_compress :: "bytes \<Rightarrow> bytes option"

record 'q nexus =
  nx_body :: "'q organism"
  nx_wal :: wal_buffer
  nx_files :: "string \<rightharpoonup> bytes"

datatype nexus_error = MemoryWrite | Trapped | NotEncoded | BadJson

datatype cortex_answer = Assimilated | Expanded | Rejected

definition answer_of :: "32 word \<Rightarrow> cortex_answer" where
  "answer_of r = (if r = 1 then Assimilated else if r = 3 then Expanded else Rejected)"

text \<open>The bytes are written where the guest's buffer begins; the write checks the end of the memory, not of the buffer.\<close>

definition deliver :: "'q nexus_env \<Rightarrow> bytes \<Rightarrow> 'q organism \<Rightarrow> nexus_error + cortex_answer \<times> 'q organism" where
  "deliver E bs s =
     (if length (og_memory s) < unat (ne_ingest E) + length bs then Inl MemoryWrite
      else case ingest_packet (ne_cortex E) bs (s\<lparr>og_memory := put_at (unat (ne_ingest E)) bs (og_memory s)\<rparr>) of
        None \<Rightarrow> Inl Trapped
      | Some (r, s) \<Rightarrow> Inr (answer_of r, s))"

definition learn_text :: "bytes \<Rightarrow> string \<Rightarrow> 'q organism \<Rightarrow> 'q organism" where
  "learn_text h text s = s\<lparr>og_host := (og_host s)\<lparr>hs_store := (hs_store (og_host s))
     \<lparr>ms_dict := (ms_dict (hs_store (og_host s)))(h \<mapsto> string_bytes text)\<rparr>\<rparr>\<rparr>"

text \<open>Words of a human and concepts carry the identifier zero.\<close>

definition text_packet :: "bytes \<Rightarrow> nexo_packet" where
  "text_packet h = \<lparr>np_fragment_id = 0, np_payload = h, np_provenance = packet_provenance_default\<rparr>"

text \<open>A typed line; a packet that cannot be encoded is not delivered.\<close>

definition nexus_cli :: "'q nexus_env \<Rightarrow> string \<Rightarrow> 'q nexus \<Rightarrow> nexus_error + 'q nexus" where
  "nexus_cli E text n =
     (let h = ne_blake E (string_bytes text); s = learn_text h text (nx_body n)
      in case ne_encode E (text_packet h) of
           None \<Rightarrow> Inr (n\<lparr>nx_body := s\<rparr>)
         | Some bs \<Rightarrow> (case deliver E bs s of Inl e \<Rightarrow> Inl e | Inr (_, s) \<Rightarrow> Inr (n\<lparr>nx_body := s\<rparr>)))"

definition P2P_LIMIT :: nat where "P2P_LIMIT = 1024"
definition SNAPSHOT_LIMIT :: nat where "SNAPSHOT_LIMIT = 1024 * 1024"
definition SNAPSHOT_PATH :: string where "SNAPSHOT_PATH = ''nexo_brain.zst''"
definition SNAPSHOT_TMP :: string where "SNAPSHOT_TMP = ''nexo_brain.zst.tmp''"

text \<open>The snapshot of a full log; the number of steps says how far the operating system lets it get.\<close>

definition maybe_snapshot :: "'q nexus_env \<Rightarrow> nat \<Rightarrow> 'q nexus \<Rightarrow> 'q nexus" where
  "maybe_snapshot E steps n =
     (if SNAPSHOT_LIMIT < wal_cursor (nx_wal n) then
        (let (ok, F) = create_snapshot (ne_blake E) (ne_serialize E) (ne_compress E) steps
               (hs_store (og_host (nx_body n))) SNAPSHOT_TMP SNAPSHOT_PATH (nx_files n)
         in if ok then n\<lparr>nx_files := F, nx_wal := wal_reset (nx_wal n)\<rparr> else n\<lparr>nx_files := F\<rparr>)
      else n)"

definition nexus_net :: "'q nexus_env \<Rightarrow> nat \<Rightarrow> bytes \<Rightarrow> 'q nexus \<Rightarrow> nexus_error + 'q nexus" where
  "nexus_net E steps bs n =
     (case deliver E bs (nx_body n) of
        Inl e \<Rightarrow> Inl e
      | Inr (_, s) \<Rightarrow> Inr (maybe_snapshot E steps (n\<lparr>nx_body := s\<rparr>)))"

text \<open>A message of the swarm is passed on when it is short enough; a line when it is not blank; a datagram is ignored.\<close>

datatype nexus_event = Received bytes nat | Typed string | Datagram bytes

definition nexus_step :: "'q nexus_env \<Rightarrow> 'q nexus \<Rightarrow> nexus_event \<Rightarrow> nexus_error + 'q nexus" where
  "nexus_step E n ev =
     (case ev of
        Received bs steps \<Rightarrow> if length bs \<le> P2P_LIMIT then nexus_net E steps bs n else Inr n
      | Typed line \<Rightarrow> (let text = trim line in if text = [] then Inr n else nexus_cli E text n)
      | Datagram _ \<Rightarrow> Inr n)"

fun nexus_run :: "'q nexus_env \<Rightarrow> 'q nexus \<Rightarrow> nexus_event list \<Rightarrow> nexus_error + 'q nexus" where
  "nexus_run E n [] = Inr n"
| "nexus_run E n (ev # evs) =
     (case nexus_step E n ev of Inl e \<Rightarrow> Inl e | Inr n \<Rightarrow> nexus_run E n evs)"

section \<open>Concepts\<close>

definition json_concepts :: "json \<Rightarrow> string list" where
  "json_concepts j =
     (case j of
        JArr vs \<Rightarrow> List.map_filter as_str vs
      | JObj kvs \<Rightarrow> concat (map (\<lambda>(k, v). k # (case as_str v of Some s \<Rightarrow> [s] | None \<Rightarrow> [])) kvs)
      | _ \<Rightarrow> [])"

fun inject_concepts :: "'q nexus_env \<Rightarrow> string list \<Rightarrow> 'q organism \<Rightarrow> (nexus_error + unit) \<times> 'q organism" where
  "inject_concepts E [] s = (Inr (), s)"
| "inject_concepts E (c # cs) s =
     (let h = ne_blake E (string_bytes c); s = learn_text h c s
      in case ne_encode E (text_packet h) of
           None \<Rightarrow> (Inl NotEncoded, s)
         | Some bs \<Rightarrow> (case deliver E bs s of Inl e \<Rightarrow> (Inl e, s) | Inr (_, s) \<Rightarrow> inject_concepts E cs s))"

text \<open>A missing file is skipped.\<close>

definition bootstrap_knowledge :: "'q nexus_env \<Rightarrow> string option \<Rightarrow> 'q organism \<Rightarrow> (nexus_error + unit) \<times> 'q organism" where
  "bootstrap_knowledge E content s =
     (case content of
        None \<Rightarrow> (Inr (), s)
      | Some text \<Rightarrow> (case ne_parse E text of None \<Rightarrow> (Inl BadJson, s) | Some j \<Rightarrow> inject_concepts E (json_concepts j) s))"

section \<open>Streams\<close>

text \<open>
  \<^verbatim>\<open>bridge.rs\<close>: a stream of an announced length is read into a fresh block of the guest. The length is cut to 32
  bits for the allocation but not for the window; a window outside the memory panics, and so does a trap.
\<close>

definition stream_network_to_wasm ::
    "(32 word \<Rightarrow> 32 word \<Rightarrow> bool) \<Rightarrow> bytes \<Rightarrow> nat \<Rightarrow> 32 word \<times> 32 word \<times> bytes \<Rightarrow> ((unit + 32 word) \<times> 32 word \<times> 32 word \<times> bytes) option" where
  "stream_network_to_wasm may_grow stream n g =
     (case g of (hp, pages, mem) \<Rightarrow>
        case alloc_tensor may_grow (word_of_nat n) (hp, pages) of
          None \<Rightarrow> None
        | Some (p, hp', pages') \<Rightarrow>
            (let mem = mem @ zeros (65536 * unat (pages' - pages))
             in if length mem < unat p + n then None
                else if length stream < n then Some (Inl (), hp', pages', put_at (unat p) stream mem)
                else Some (Inr p, hp', pages', put_at (unat p) (take n stream) mem)))"

section \<open>Delivery\<close>

definition nexus_ok :: "'q nexus_env \<Rightarrow> 'q organism \<Rightarrow> bool" where
  "nexus_ok E s \<longleftrightarrow> cortex_ok (ne_cortex E) s \<and> unat (ne_ingest E) + P2P_LIMIT \<le> length (og_memory s) \<and>
     (\<forall>h bs. ne_encode E (text_packet h) = Some bs \<longrightarrow> length bs \<le> P2P_LIMIT)"

lemma deliver_keeps:
  assumes "nexus_ok E s" "length bs \<le> P2P_LIMIT"
  shows "\<exists>a s'. deliver E bs s = Inr (a, s') \<and> nexus_ok E s'"
proof -
  define m where "m = s\<lparr>og_memory := put_at (unat (ne_ingest E)) bs (og_memory s)\<rparr>"
  have l: "length (og_memory m) = length (og_memory s)" using assms by (simp add: m_def nexus_ok_def)
  have ok: "cortex_ok (ne_cortex E) m" using assms l by (auto simp: nexus_ok_def cortex_ok_def layout_ok_def m_def)
  obtain r s' where "ingest_packet (ne_cortex E) bs m = Some (r, s')" and ok': "cortex_ok (ne_cortex E) s'"
    using ingest_packet_keeps [OF ok, of bs] by blast
  moreover have "length (og_memory s') = length (og_memory m)"
  proof (cases "ce_from_bytes (ne_cortex E) bs")
    case None
    then show ?thesis using calculation by (simp add: ingest_packet_none)
  next
    case (Some p)
    show ?thesis by (rule ingest_packet_eq [OF ok Some]) (use calculation in auto)
  qed
  ultimately show ?thesis using assms l unfolding m_def by (auto simp: deliver_def nexus_ok_def)
qed

lemma learn_text_keeps: "nexus_ok E s \<Longrightarrow> nexus_ok E (learn_text h t s)"
  by (simp add: nexus_ok_def cortex_ok_def learn_text_def store_wf_def)

lemma nexus_cli_keeps: "nexus_ok E (nx_body n) \<Longrightarrow> \<exists>n'. nexus_cli E text n = Inr n' \<and> nexus_ok E (nx_body n') \<and> nx_wal n' = nx_wal n \<and> nx_files n' = nx_files n"
proof -
  assume ok: "nexus_ok E (nx_body n)"
  define s where "s = learn_text (ne_blake E (string_bytes text)) text (nx_body n)"
  have s: "nexus_ok E s" unfolding s_def by (rule learn_text_keeps [OF ok])
  show ?thesis
  proof (cases "ne_encode E (text_packet (ne_blake E (string_bytes text)))")
    case None
    then show ?thesis using s by (simp add: nexus_cli_def Let_def s_def)
  next
    case (Some bs)
    then have "length bs \<le> P2P_LIMIT" using ok by (auto simp: nexus_ok_def)
    then obtain a s' where "deliver E bs s = Inr (a, s')" "nexus_ok E s'" using deliver_keeps [OF s] by blast
    then show ?thesis using Some by (simp add: nexus_cli_def Let_def s_def)
  qed
qed

text \<open>What an event does to the log: nothing, or it is emptied after a snapshot.\<close>

definition wal_kept :: "wal_buffer \<Rightarrow> wal_buffer \<Rightarrow> bool" where
  "wal_kept b b' \<longleftrightarrow> b' = b \<or> SNAPSHOT_LIMIT < wal_cursor b \<and> b' = wal_reset b"

lemma maybe_snapshot_keeps:
  "nx_body (maybe_snapshot E steps n) = nx_body n \<and> wal_kept (nx_wal n) (nx_wal (maybe_snapshot E steps n))"
  by (auto simp: maybe_snapshot_def wal_kept_def split: prod.splits)

lemma nexus_step_keeps:
  assumes "nexus_ok E (nx_body n)"
  shows "\<exists>n'. nexus_step E n ev = Inr n' \<and> nexus_ok E (nx_body n') \<and> wal_kept (nx_wal n) (nx_wal n')"
proof (cases ev)
  case (Received bs steps)
  show ?thesis
  proof (cases "length bs \<le> P2P_LIMIT")
    case True
    obtain a s' where d: "deliver E bs (nx_body n) = Inr (a, s')" "nexus_ok E s'" using deliver_keeps [OF assms True] by blast
    then show ?thesis using True Received maybe_snapshot_keeps [of E steps "n\<lparr>nx_body := s'\<rparr>"]
      by (simp add: nexus_step_def nexus_net_def)
  qed (use assms Received in \<open>simp add: nexus_step_def wal_kept_def\<close>)
next
  case (Typed line)
  then show ?thesis using nexus_cli_keeps [OF assms, of "trim line"] assms
    by (auto simp: nexus_step_def Let_def wal_kept_def)
qed (use assms in \<open>simp add: nexus_step_def wal_kept_def\<close>)

lemma wal_kept_trans: "wal_kept a b \<Longrightarrow> wal_kept b c \<Longrightarrow> wal_kept a c"
  by (auto simp: wal_kept_def wal_reset_def wal_cursor_def)

section \<open>Properties\<close>

text \<open>
  From a well-formed state every sequence of messages, lines and datagrams is served to its end: no message that the swarm
  node passes on overruns the guest's buffer or makes it trap. Over the whole run the log is left as it was, or emptied when
  it was already longer than a megabyte at the start: no event is ever written to it.
\<close>

theorem nexus_serves_all:
  assumes "nexus_ok E (nx_body n)"
  shows "\<exists>n'. nexus_run E n evs = Inr n' \<and> nexus_ok E (nx_body n') \<and>
    (nx_wal n' = nx_wal n \<or> SNAPSHOT_LIMIT < wal_cursor (nx_wal n) \<and> nx_wal n' = wal_reset (nx_wal n))"
  unfolding wal_kept_def [symmetric] using assms
proof (induction evs arbitrary: n)
  case (Cons ev evs)
  obtain n1 where n1: "nexus_step E n ev = Inr n1" "nexus_ok E (nx_body n1)" "wal_kept (nx_wal n) (nx_wal n1)"
    using nexus_step_keeps [OF Cons.prems] by blast
  then show ?case using Cons.IH [OF n1(2)] wal_kept_trans [OF n1(3)] by auto
qed (simp add: wal_kept_def)

definition demo_encode :: "nexo_packet \<Rightarrow> bytes" where
  "demo_encode p = u64_to_le (np_fragment_id p) @ np_payload p"

definition demo_nexus_env :: "bytes list nexus_env" where
  "demo_nexus_env = \<lparr>ne_cortex = \<lparr>ce_from_bytes = demo_packet, ce_to_bytes = demo_encode, ce_try_send = \<lambda>b q. q @ [b],
       ce_reflex = 0, ce_dirty = 1024\<rparr>,
     ne_ingest = 2048, ne_encode = \<lambda>p. if length (np_payload p) = 32 then Some (demo_encode p) else None,
     ne_blake = \<lambda>_. zeros 32, ne_parse = \<lambda>_. None, ne_serialize = \<lambda>_. Some [], ne_compress = Some\<rparr>"

definition demo_nexus :: "bytes list nexus" where
  "demo_nexus = \<lparr>nx_body = \<lparr>og_cortex = cortex_new, og_memory = zeros 4096,
       og_host = \<lparr>hs_store = memory_store_new, hs_tx = [], hs_out = []\<rparr>\<rparr>,
     nx_wal = \<lparr>wb_mmap = zeros 8, wb_cursor = 0\<rparr>, nx_files = Map.empty\<rparr>"

lemma demo_nexus_ok: "nexus_ok demo_nexus_env (nx_body demo_nexus)"
  by (auto simp: nexus_ok_def cortex_ok_def demo_nexus_env_def demo_nexus_def cortex_new_def table_new_wf layout_ok_def store_wf_def
      memory_store_new_def demo_packet_def demo_encode_def text_packet_def REFLEX_CAPACITY_def KNOWLEDGE_TABLE_SIZE_def P2P_LIMIT_def
      split: if_splits)

theorem nexus_serves_all_witness:
  "\<exists>n'. nexus_run demo_nexus_env demo_nexus [Received (zeros 40) 0, Typed ''hello'', Datagram [1], Received (zeros 2000) 0] = Inr n' \<and>
     nx_wal n' = nx_wal demo_nexus"
  using nexus_serves_all [OF demo_nexus_ok, of "[Received (zeros 40) 0, Typed ''hello'', Datagram [1], Received (zeros 2000) 0]"]
  by (auto simp: SNAPSHOT_LIMIT_def wal_cursor_def demo_nexus_def)

text \<open>
  What a human types comes back: the line enters the dictionary under its hash, the cortex reflects the packet, and the host
  prints the line it finds under the payload.
\<close>

theorem nexus_echoes:
  assumes "nexus_ok E (nx_body n)"
    and "ne_encode E (text_packet (ne_blake E (string_bytes text))) = Some bs"
    and "ce_from_bytes (ne_cortex E) bs = Some (text_packet (ne_blake E (string_bytes text)))"
    and "ce_to_bytes (ne_cortex E) (text_packet (ne_blake E (string_bytes text))) = bs"
  shows "\<exists>n'. nexus_cli E text n = Inr n' \<and>
    hs_out (og_host (nx_body n')) = hs_out (og_host (nx_body n)) @ [Translated (string_bytes text)] \<and>
    get_reflex_generation (nx_body n') = get_reflex_generation (nx_body n) + 1"
proof -
  define h where "h = ne_blake E (string_bytes text)"
  define s where "s = learn_text h text (nx_body n)"
  define m where "m = s\<lparr>og_memory := put_at (unat (ne_ingest E)) bs (og_memory s)\<rparr>"
  have s: "nexus_ok E s" unfolding s_def by (rule learn_text_keeps [OF assms(1)])
  have bl: "length bs \<le> P2P_LIMIT" using assms(1,2) by (auto simp: nexus_ok_def)
  then have room: "unat (ne_ingest E) + length bs \<le> length (og_memory s)" using s by (simp add: nexus_ok_def)
  then have l: "length (og_memory m) = length (og_memory s)" by (simp add: m_def)
  have ok: "cortex_ok (ne_cortex E) m" using s l by (auto simp: nexus_ok_def cortex_ok_def layout_ok_def m_def)
  have dict: "ms_dict (hs_store (og_host m)) h = Some (string_bytes text)" by (simp add: m_def s_def learn_text_def)
  obtain r s' where i: "ingest_packet (ne_cortex E) bs m = Some (r, s')"
    using ingest_packet_keeps [OF ok, of bs] by blast
  have "hs_out (og_host s') = hs_out (og_host m) @ spoken_of (ce_from_bytes (ne_cortex E)) (hs_store (og_host m)) bs \<and>
      cx_generation (og_cortex s') = cx_generation (og_cortex m) + 1"
    by (rule ingest_packet_eq [OF ok, of bs "text_packet h"]) (use assms(3,4) i in \<open>auto simp: h_def\<close>)
  moreover have "spoken_of (ce_from_bytes (ne_cortex E)) (hs_store (og_host m)) bs = [Translated (string_bytes text)]"
    using assms(3) dict by (simp add: spoken_of_def text_packet_def h_def)
  moreover have "nexus_cli E text n = Inr (n\<lparr>nx_body := s'\<rparr>)"
    using assms(2) room i by (simp add: nexus_cli_def Let_def deliver_def h_def [symmetric] s_def [symmetric] m_def [symmetric])
  ultimately show ?thesis by (simp add: m_def s_def learn_text_def get_reflex_generation_def)
qed

theorem nexus_echoes_witness:
  "\<exists>n'. nexus_cli demo_nexus_env ''hello'' demo_nexus = Inr n' \<and> hs_out (og_host (nx_body n')) = [Translated (string_bytes ''hello'')]"
proof -
  have "ne_encode demo_nexus_env (text_packet (ne_blake demo_nexus_env (string_bytes ''hello''))) = Some (u64_to_le 0 @ zeros 32)"
    "ce_from_bytes (ne_cortex demo_nexus_env) (u64_to_le 0 @ zeros 32) = Some (text_packet (ne_blake demo_nexus_env (string_bytes ''hello'')))"
    "ce_to_bytes (ne_cortex demo_nexus_env) (text_packet (ne_blake demo_nexus_env (string_bytes ''hello''))) = u64_to_le 0 @ zeros 32"
    by (simp_all add: demo_nexus_env_def demo_packet_def demo_encode_def text_packet_def)
  from nexus_echoes [OF demo_nexus_ok this] show ?thesis by (auto simp: demo_nexus_def)
qed

text \<open>Packets without an identifier are counted but leave no trace in the table of knowledge.\<close>

lemma unidentified_not_recorded: "insert_or_update 0 w now t = t"
  by (simp add: insert_or_update_def)

end
