(* ===== verification/Brain.thy ===== *)
theory Brain
  imports F64 Texts Strength
begin

text \<open>
  The inference brain (\<^verbatim>\<open>crates/host/src/nex/brain.rs\<close>): its generator of random numbers, layers, tensors, statistics, the
  cascade of rules, inference and the translation of a JSON text into an assertion. The seed is a global: it is passed along. Arithmetic is that of \<open>F64\<close>; the exponential, the
  hyperbolic tangent and the square root, whose results depend on the platform's library, come as an argument, as do JSON, the
  printing of numbers and the hash. \<open>None\<close> is a panic.
\<close>

section \<open>Random numbers\<close>

definition BRAIN_SEED :: u64 where "BRAIN_SEED = 0x517cc1b727220a95"
definition GOLDEN_GAMMA :: u64 where "GOLDEN_GAMMA = 0x9e3779b97f4a7c15"

definition splitmix64 :: "u64 \<Rightarrow> u64 \<times> u64" where
  "splitmix64 x =
     (let x = x + GOLDEN_GAMMA; z = x;
          z = (xor z (drop_bit 30 z)) * 0xbf58476d1ce4e5b9;
          z = (xor z (drop_bit 27 z)) * 0x94d049bb133111eb
      in (xor z (drop_bit 31 z), x))"

definition xoshiro256ss :: "u64 \<times> u64 \<times> u64 \<times> u64 \<Rightarrow> u64 \<times> u64 \<times> u64 \<times> u64 \<times> u64" where
  "xoshiro256ss s =
     (case s of (s0, s1, s2, s3) \<Rightarrow>
        let result = word_rotl 7 (s1 * 5) * 9; t = push_bit 17 s1;
            s2 = xor s2 s0; s3 = xor s3 s1; s1 = xor s1 s2; s0 = xor s0 s3; s2 = xor s2 t; s3 = word_rotl 45 s3
        in (result, s0, s1, s2, s3))"

text \<open>Two draws of the generator are joined; the number is that of the upper 53 bits.\<close>

definition rand_bits :: "u64 \<Rightarrow> u64 \<times> u64" where
  "rand_bits seed =
     (let (hi, x) = splitmix64 seed; (lo, x) = splitmix64 x in (or (push_bit 32 hi) lo, x))"

definition rand_f64 :: "u64 \<Rightarrow> fpval \<times> u64" where
  "rand_f64 seed =
     (let (s, x) = rand_bits seed
      in (ddiv (dround (of_nat (unat (drop_bit 11 s)))) (Fin (2 ^ 53)), x))"

section \<open>Numbers\<close>

record libm =
  lm_exp :: "fpval \<Rightarrow> fpval"
  lm_tanh :: "fpval \<Rightarrow> fpval"
  lm_sqrt :: "fpval \<Rightarrow> fpval"

datatype brain_error = ShapeMismatch nat nat | InvalidOp string | DataEmpty

definition dlit :: "rat \<Rightarrow> fpval" where "dlit q = dround q"

definition dsum :: "fpval list \<Rightarrow> fpval" where
  "dsum xs = foldl dadd (Fin 0) xs"

definition dcount :: "nat \<Rightarrow> fpval" where
  "dcount n = dround (of_nat n)"

definition dot :: "fpval list \<Rightarrow> fpval list \<Rightarrow> fpval" where
  "dot a b = dsum (map (\<lambda>(x, y). dmul x y) (zip a b))"

definition dmax_of :: "fpval list \<Rightarrow> fpval" where
  "dmax_of xs = foldl fmax (Inf True) xs"

definition dmin_of :: "fpval list \<Rightarrow> fpval" where
  "dmin_of xs = foldl fmin (Inf False) xs"

definition softmax :: "libm \<Rightarrow> fpval list \<Rightarrow> fpval list" where
  "softmax L v =
     (let m = dmax_of v; exps = map (\<lambda>x. lm_exp L (dsub x m)) v; s = dsum exps in map (\<lambda>e. ddiv e s) exps)"

section \<open>Activation\<close>

datatype activation = ReLU | Sigmoid | TanhAct | Linear

fun activate :: "libm \<Rightarrow> activation \<Rightarrow> fpval \<Rightarrow> fpval" where
  "activate L ReLU x = fmax x (Fin 0)"
| "activate L Sigmoid x = ddiv (Fin 1) (dadd (Fin 1) (lm_exp L (fneg x)))"
| "activate L TanhAct x = lm_tanh L x"
| "activate L Linear x = x"

fun activation_name :: "activation \<Rightarrow> string" where
  "activation_name ReLU = ''relu''"
| "activation_name Sigmoid = ''sigmoid''"
| "activation_name TanhAct = ''tanh''"
| "activation_name Linear = ''linear''"

definition activation_of :: "string \<Rightarrow> activation" where
  "activation_of s =
     (if s = ''sigmoid'' then Sigmoid else if s = ''tanh'' then TanhAct else if s = ''linear'' then Linear else ReLU)"

section \<open>Configuration\<close>

record brain_config =
  bc_model_name :: string
  bc_input_size :: nat
  bc_hidden_layers :: "nat list"
  bc_output_size :: nat
  bc_learning_rate :: fpval
  bc_activation :: string
  bc_dropout :: fpval

definition brain_config_new :: "string \<Rightarrow> brain_config" where
  "brain_config_new name = \<lparr>bc_model_name = name, bc_input_size = 3, bc_hidden_layers = [8, 4], bc_output_size = 3,
     bc_learning_rate = dlit (1 / 1000), bc_activation = ''relu'', bc_dropout = Fin 0\<rparr>"

section \<open>Layers\<close>

record neural_layer =
  nl_weights :: "fpval list list"
  nl_biases :: "fpval list"
  nl_act :: activation

text \<open>\<open>n\<close> values of a random computation, in order.\<close>

fun draws :: "nat \<Rightarrow> (u64 \<Rightarrow> 'a \<times> u64) \<Rightarrow> u64 \<Rightarrow> 'a list \<times> u64" where
  "draws 0 f seed = ([], seed)"
| "draws (Suc n) f seed = (let (x, seed) = f seed; (xs, seed) = draws n f seed in (x # xs, seed))"

definition draw_weight :: "fpval \<Rightarrow> u64 \<Rightarrow> fpval \<times> u64" where
  "draw_weight scale seed =
     (let (r, seed) = rand_f64 seed in (dmul (dmul (dsub r (dlit (1 / 2))) (Fin 2)) scale, seed))"

definition neural_layer_new :: "libm \<Rightarrow> nat \<Rightarrow> nat \<Rightarrow> activation \<Rightarrow> u64 \<Rightarrow> neural_layer \<times> u64" where
  "neural_layer_new L input output act seed =
     (let scale = lm_sqrt L (ddiv (Fin 2) (dcount input));
          (weights, seed) = draws output (draws input (draw_weight scale)) seed
      in (\<lparr>nl_weights = weights, nl_biases = replicate output (Fin 0), nl_act = act\<rparr>, seed))"

definition forward :: "libm \<Rightarrow> neural_layer \<Rightarrow> fpval list \<Rightarrow> fpval list" where
  "forward L l input =
     map (\<lambda>(row, b). activate L (nl_act l) (dadd (dot row input) b)) (zip (nl_weights l) (nl_biases l))"

definition neural_layer_clone :: "neural_layer \<Rightarrow> neural_layer" where
  "neural_layer_clone l = l\<lparr>nl_act := activation_of (activation_name (nl_act l))\<rparr>"

text \<open>A pipeline of stages.\<close>

definition pipeline_run :: "(fpval list \<Rightarrow> fpval list) list \<Rightarrow> fpval list \<Rightarrow> fpval list" where
  "pipeline_run stages input = foldl (\<lambda>data stage. stage data) input stages"

section \<open>Tensors\<close>

record tensor =
  tn_data :: "fpval list"
  tn_shape :: "nat list"

definition tensor_new :: "fpval list \<Rightarrow> nat list \<Rightarrow> brain_error + tensor" where
  "tensor_new data shape =
     (if length data \<noteq> prod_list shape then Inl (ShapeMismatch (prod_list shape) (length data))
      else Inr \<lparr>tn_data = data, tn_shape = shape\<rparr>)"

definition tensor_zeros :: "nat list \<Rightarrow> tensor" where
  "tensor_zeros shape = \<lparr>tn_data = replicate (prod_list shape) (Fin 0), tn_shape = shape\<rparr>"

text \<open>The three loops over the flat arrays, the innermost over the columns of the result.\<close>

definition matmul_inner :: "nat \<Rightarrow> nat \<Rightarrow> fpval \<Rightarrow> nat \<Rightarrow> fpval list \<Rightarrow> fpval list \<Rightarrow> fpval list" where
  "matmul_inner n i a_ip p b out =
     fold (\<lambda>j out. out[i * n + j := dadd (out ! (i * n + j)) (dmul a_ip (b ! (p * n + j)))]) [0..<n] out"

definition matmul :: "tensor \<Rightarrow> tensor \<Rightarrow> brain_error + tensor" where
  "matmul a b =
     (if length (tn_shape a) \<noteq> 2 \<or> length (tn_shape b) \<noteq> 2 then Inl (InvalidOp ''matmul requer tensores 2D'')
      else
        let m = tn_shape a ! 0; k = tn_shape a ! 1; k2 = tn_shape b ! 0; n = tn_shape b ! 1
        in if k \<noteq> k2 then Inl (ShapeMismatch k k2)
           else tensor_new
             (fold (\<lambda>i out. fold (\<lambda>p out. matmul_inner n i (tn_data a ! (i * k + p)) p (tn_data b) out) [0..<k] out) [0..<m]
               (replicate (m * n) (Fin 0)))
             [m, n])"

section \<open>Statistics\<close>

definition stats_mean :: "fpval list \<Rightarrow> fpval" where
  "stats_mean d = ddiv (dsum d) (dcount (length d))"

text \<open>\<^verbatim>\<open>powi(2)\<close> is the square.\<close>

definition stats_variance :: "fpval list \<Rightarrow> fpval" where
  "stats_variance d =
     (let m = stats_mean d in ddiv (dsum (map (\<lambda>x. dmul (dsub x m) (dsub x m)) d)) (dcount (length d)))"

definition stats_std_dev :: "libm \<Rightarrow> fpval list \<Rightarrow> fpval" where
  "stats_std_dev L d = lm_sqrt L (stats_variance d)"

definition TINY :: fpval where "TINY = dlit (1 / 10 ^ 10)"

definition stats_normalize :: "libm \<Rightarrow> fpval list \<Rightarrow> fpval list" where
  "stats_normalize L d =
     (let m = stats_mean d; s = stats_std_dev L d in if fless s TINY then d else map (\<lambda>x. ddiv (dsub x m) s) d)"

definition cosine_sim :: "libm \<Rightarrow> fpval list \<Rightarrow> fpval list \<Rightarrow> fpval" where
  "cosine_sim L a b =
     (let d = dot a b; na = lm_sqrt L (dot a a); nb = lm_sqrt L (dot b b)
      in if fless na TINY \<or> fless nb TINY then Fin 0 else ddiv d (dmul na nb))"

definition stats_accuracy :: "nat list \<Rightarrow> nat list \<Rightarrow> fpval" where
  "stats_accuracy preds labels =
     ddiv (dcount (length (filter (\<lambda>(p, l). p = l) (zip preds labels)))) (dcount (length labels))"

section \<open>Rules\<close>

type_synonym rule_context = "string \<rightharpoonup> fpval"

record nex_rule =
  nr_priority :: nat
  nr_condition :: "rule_context \<Rightarrow> bool"
  nr_action :: "rule_context \<Rightarrow> string"

definition rule_push :: "nex_rule list \<Rightarrow> nat \<Rightarrow> (rule_context \<Rightarrow> bool) \<Rightarrow> (rule_context \<Rightarrow> string) \<Rightarrow> nex_rule list" where
  "rule_push rs p c a = rs @ [\<lparr>nr_priority = p, nr_condition = c, nr_action = a\<rparr>]"

text \<open>A stable sort by falling priority, a byte.\<close>

definition rule_compile :: "nex_rule list \<Rightarrow> nex_rule list" where
  "rule_compile rs = sort_key (\<lambda>r. 255 - nr_priority r) rs"

definition rule_apply :: "nex_rule list \<Rightarrow> rule_context \<Rightarrow> string list" where
  "rule_apply rs ctx = map (\<lambda>r. nr_action r ctx) (filter (\<lambda>r. nr_condition r ctx) rs)"

section \<open>The brain\<close>

record nex_brain =
  nb_config :: brain_config
  nb_layers :: "neural_layer list"
  nb_rules :: "nex_rule list"
  nb_log :: "fpval list"

definition LOG_CAPACITY :: nat where "LOG_CAPACITY = 10000"

fun layers_new :: "libm \<Rightarrow> activation \<Rightarrow> nat list \<Rightarrow> u64 \<Rightarrow> neural_layer list \<times> u64" where
  "layers_new L act (a # b # rest) seed =
     (let (l, seed) = neural_layer_new L a b act seed; (ls, seed) = layers_new L act (b # rest) seed in (l # ls, seed))"
| "layers_new L act sizes seed = ([], seed)"

definition brain_rules :: "nex_rule list" where
  "brain_rules = rule_compile
     (rule_push (rule_push (rule_push (rule_push []
       10 (\<lambda>ctx. ctx ''confidence_high'' \<noteq> None) (\<lambda>_. ''accept_output''))
       7 (\<lambda>ctx. ctx ''ambiguous'' \<noteq> None) (\<lambda>_. ''request_more_data''))
       4 (\<lambda>ctx. ctx ''confidence_low'' \<noteq> None) (\<lambda>_. ''flag_for_review''))
       1 (\<lambda>_. True) (\<lambda>_. ''log_and_continue''))"

definition nex_brain_new :: "libm \<Rightarrow> brain_config \<Rightarrow> u64 \<Rightarrow> nex_brain \<times> u64" where
  "nex_brain_new L c seed =
     (let sizes = bc_input_size c # bc_hidden_layers c @ [bc_output_size c];
          (layers, seed) = layers_new L (activation_of (bc_activation c)) sizes seed
      in (\<lparr>nb_config = c, nb_layers = layers, nb_rules = brain_rules, nb_log = []\<rparr>, seed))"

record brain_output =
  bo_probabilities :: "fpval list"
  bo_predicted_class :: nat
  bo_confidence :: fpval
  bo_rules_applied :: "string list"

text \<open>\<^verbatim>\<open>max_by\<close> with \<^verbatim>\<open>partial_cmp().unwrap()\<close>: the last of the greatest; comparing with a NaN panics.\<close>

fun last_max :: "nat \<times> fpval \<Rightarrow> (nat \<times> fpval) list \<Rightarrow> (nat \<times> fpval) option" where
  "last_max b [] = Some b"
| "last_max b (x # xs) =
     (if snd b = NaN \<or> snd x = NaN then None else last_max (if fless (snd x) (snd b) then b else x) xs)"

definition predicted_class :: "fpval list \<Rightarrow> nat option" where
  "predicted_class probs =
     (case enumerate 0 probs of [] \<Rightarrow> Some 0 | b # xs \<Rightarrow> map_option fst (last_max b xs))"

definition confidence_context :: "fpval \<Rightarrow> rule_context" where
  "confidence_context c =
     (if fless (dlit (7 / 10)) c then Map.empty(''confidence_high'' \<mapsto> c)
      else if fless c (dlit (4 / 10)) then Map.empty(''confidence_low'' \<mapsto> c)
      else Map.empty(''ambiguous'' \<mapsto> c))(''default'' \<mapsto> Fin 1)"

definition checked_input :: "nat \<Rightarrow> fpval list \<Rightarrow> brain_error + unit" where
  "checked_input n input =
     (if input = [] then Inl DataEmpty
      else if length input \<noteq> n then Inl (ShapeMismatch n (length input)) else Inr ())"

definition layer_output :: "libm \<Rightarrow> neural_layer list \<Rightarrow> fpval list \<Rightarrow> fpval list" where
  "layer_output L layers input = foldl (\<lambda>data layer. forward L layer data) (stats_normalize L input) layers"

definition infer :: "libm \<Rightarrow> fpval list \<Rightarrow> nex_brain \<Rightarrow> ((brain_error + brain_output) \<times> nex_brain) option" where
  "infer L input b =
     (case checked_input (bc_input_size (nb_config b)) input of
        Inl e \<Rightarrow> Some (Inl e, b)
      | Inr _ \<Rightarrow>
          (let probs = softmax L (layer_output L (nb_layers b) input); confidence = dmax_of probs;
               log = (if LOG_CAPACITY \<le> length (nb_log b) then tl (nb_log b) else nb_log b) @ [confidence]
           in case predicted_class probs of
                None \<Rightarrow> None
              | Some k \<Rightarrow> Some (Inr \<lparr>bo_probabilities = probs, bo_predicted_class = k, bo_confidence = confidence,
                                    bo_rules_applied = rule_apply (nb_rules b) (confidence_context confidence)\<rparr>,
                              b\<lparr>nb_log := log\<rparr>)))"

definition brain_stats :: "libm \<Rightarrow> (fpval \<Rightarrow> string) \<Rightarrow> nex_brain \<Rightarrow> string" where
  "brain_stats L fmt4 b =
     (if nb_log b = [] then ''Sem infer'' @ [CHR 0xC3, CHR 0xAA] @ ''ncias.''
      else let mean = stats_mean (nb_log b); std = lm_sqrt L (stats_variance (nb_log b))
        in ''n='' @ nat_text (length (nb_log b)) @ '' | mean='' @ fmt4 mean @ '' | std='' @ fmt4 std @
           '' | min='' @ fmt4 (dmin_of (nb_log b)) @ '' | max='' @ fmt4 (dmax_of (nb_log b)))"

definition state_hash :: "(string \<Rightarrow> string) \<Rightarrow> nex_brain \<Rightarrow> string" where
  "state_hash hash b =
     hash (bc_model_name (nb_config b) @ '':'' @ nat_text (length (bc_hidden_layers (nb_config b))) @ '':'' @
       nat_text (bc_output_size (nb_config b)) @ '':'' @ nat_text (length (nb_log b)))"

text \<open>Inference without a log.\<close>

record nex_read_only =
  ro_layers :: "neural_layer list"
  ro_input_size :: nat

definition read_only_infer :: "libm \<Rightarrow> nex_read_only \<Rightarrow> fpval list \<Rightarrow> brain_error + fpval list" where
  "read_only_infer L r input =
     (case checked_input (ro_input_size r) input of
        Inl e \<Rightarrow> Inl e | Inr _ \<Rightarrow> Inr (softmax L (layer_output L (ro_layers r) input)))"

definition infer_batch :: "libm \<Rightarrow> nex_read_only \<Rightarrow> fpval list list \<Rightarrow> (brain_error + fpval list) list" where
  "infer_batch L r inputs = map (read_only_infer L r) inputs"

section \<open>Evidence\<close>

fun join_rules :: "string list \<Rightarrow> string" where
  "join_rules [] = []"
| "join_rules [r] = r"
| "join_rules (r # rs) = r @ '','' @ join_rules rs"

text \<open>A JSON value, as far as it is read: the numbers of an object in the order of its keys.\<close>

datatype json_numbers = NotObject | ObjectOf "fpval option list"

definition json_features :: "json_numbers \<Rightarrow> fpval list" where
  "json_features j = (case j of NotObject \<Rightarrow> [] | ObjectOf vs \<Rightarrow> List.map_filter id vs)"

definition three_features :: "fpval list \<Rightarrow> fpval list" where
  "three_features fs = take 3 (fs @ replicate (3 - length fs) (Fin 0))"

definition confidence_strength :: "fpval \<Rightarrow> evidence_strength" where
  "confidence_strength c =
     (if \<not> fless c (dlit (75 / 100)) \<and> c \<noteq> NaN then Anchored
      else if \<not> fless c (dlit (55 / 100)) \<and> c \<noteq> NaN then Signed
      else if \<not> fless c (dlit (35 / 100)) \<and> c \<noteq> NaN then Witnessed
      else Local)"

definition f64_as_f32 :: "fpval \<Rightarrow> fpval" where
  "f64_as_f32 x = (case x of Fin q \<Rightarrow> fround q | _ \<Rightarrow> x)"

record brain_assertion =
  ba_context_id :: string
  ba_strength :: evidence_strength
  ba_confidence :: fpval

definition brain_translate ::
    "libm \<Rightarrow> (string \<Rightarrow> string + json_numbers) \<Rightarrow> (fpval \<Rightarrow> string) \<Rightarrow> (string \<Rightarrow> string) \<Rightarrow> string \<Rightarrow> u64
      \<Rightarrow> ((brain_error + brain_assertion) \<times> u64) option" where
  "brain_translate L parse show_f64 hash raw seed =
     (case parse raw of
        Inl e \<Rightarrow> Some (Inl (InvalidOp (''JSON parse error: '' @ e)), seed)
      | Inr j \<Rightarrow>
          (let fs = json_features j
           in if fs = [] then Some (Inl DataEmpty, seed)
              else let (b, seed) = nex_brain_new L (brain_config_new ''evidence'') seed
                in case infer L (three_features fs) b of
                     None \<Rightarrow> None
                   | Some (Inl e, _) \<Rightarrow> Some (Inl e, seed)
                   | Some (Inr out, _) \<Rightarrow>
                       Some (Inr \<lparr>ba_context_id = hash (nat_text (bo_predicted_class out) @ '':'' @ show_f64 (bo_confidence out) @ '':'' @
                                    join_rules (bo_rules_applied out)),
                                  ba_strength = confidence_strength (bo_confidence out),
                                  ba_confidence = f64_as_f32 (bo_confidence out)\<rparr>, seed)))"

section \<open>The manifesto\<close>

text \<open>What the hash of \<^verbatim>\<open>manifesto.rs\<close> is taken of: the title, three counts and the proposal.\<close>

record manifesto =
  mf_titulo :: string
  mf_principios :: "(string \<times> string \<times> bool) list"
  mf_capacidades :: "(string \<times> string \<times> string) list"
  mf_limitacoes :: "string list"
  mf_proposta :: string

definition calcular_hash :: "(string \<Rightarrow> string) \<Rightarrow> manifesto \<Rightarrow> string" where
  "calcular_hash hash m =
     hash (mf_titulo m @ '':'' @ nat_text (length (mf_principios m)) @ '':'' @ nat_text (length (mf_capacidades m)) @ '':'' @
       nat_text (length (mf_limitacoes m)) @ '':'' @ mf_proposta m)"

section \<open>The generator\<close>

lemma splitmix_seed: "snd (splitmix64 x) = x + GOLDEN_GAMMA"
  by (simp add: splitmix64_def Let_def)

lemma rand_bits_seed: "snd (rand_bits x) = x + 2 * GOLDEN_GAMMA"
  using splitmix_seed by (auto simp: rand_bits_def split: prod.splits) (metis add.assoc mult_2 snd_conv)

text \<open>The upper half of the joined bits is the disjunction of two draws, so a bit is set three times out of four.\<close>

lemma rand_bits_or:
  assumes "32 \<le> n" "n < 64"
  shows "bit (fst (rand_bits x)) n \<longleftrightarrow>
    bit (fst (splitmix64 x)) (n - 32) \<or> bit (fst (splitmix64 (x + GOLDEN_GAMMA))) n"
  using assms splitmix_seed [of x] by (auto simp: rand_bits_def bit_simps split: prod.splits)

text \<open>
  A random number of the brain is an exact multiple of \<open>2 ^ -53\<close> in the unit interval without its upper end, the upper 53
  of the joined bits, and the seed advances by twice the increment.
\<close>

lemma rand_f64_range:
  "rand_f64 x = (Fin (of_nat (unat (drop_bit 11 (fst (rand_bits x)))) / 2 ^ 53), x + 2 * GOLDEN_GAMMA) \<and>
   unat (drop_bit 11 (fst (rand_bits x))) < 2 ^ 53"
proof -
  define k where "k = unat (drop_bit 11 (fst (rand_bits x)))"
  have "unat (fst (rand_bits x)) < 2 ^ LENGTH(64)" by (rule unsigned_less)
  then have "unat (fst (rand_bits x)) div 2 ^ 11 < 2 ^ 53" by (intro less_mult_imp_div_less) simp
  moreover have "k = unat (fst (rand_bits x)) div 2 ^ 11" unfolding k_def unat_drop_bit_eq by (rule drop_bit_eq_div)
  ultimately have k: "k < 2 ^ 53" by simp
  have "dround (of_nat k) = Fin (of_nat k)" by (rule dround_nat [OF k])
  moreover have "dround (of_nat k / 2 ^ 53) = Fin (of_nat k / 2 ^ 53)"
    using dround_dyadic [of "int k" "- 53"] k by (simp add: pow2_def)
  moreover have "rand_f64 x = (ddiv (dround (of_nat k)) (Fin (2 ^ 53)), snd (rand_bits x))"
    unfolding rand_f64_def k_def by (simp only: Let_def case_prod_beta)
  ultimately have "rand_f64 x = (Fin (of_nat k / 2 ^ 53), x + 2 * GOLDEN_GAMMA)"
    by (simp only: div_by.simps rand_bits_seed) simp
  then show ?thesis using k unfolding k_def by blast
qed

lemma draws_seed: "(\<And>x. snd (f x) = x + d) \<Longrightarrow> snd (draws n f x) = x + of_nat n * (d :: u64)"
proof (induction n arbitrary: x)
  case (Suc n)
  then show ?case by (simp add: Let_def case_prod_beta algebra_simps)
qed simp

lemma draw_weight_seed: "snd (draw_weight c x) = x + 2 * GOLDEN_GAMMA"
proof -
  have "snd (rand_f64 x) = x + 2 * GOLDEN_GAMMA" by (simp add: rand_f64_range)
  then show ?thesis by (simp add: draw_weight_def case_prod_beta)
qed

lemma neural_layer_new_seed: "snd (neural_layer_new L a b act x) = x + of_nat (b * a) * (2 * GOLDEN_GAMMA)"
proof -
  have "snd (draws a (draw_weight c) y) = y + of_nat a * (2 * GOLDEN_GAMMA)" for c y
    by (rule draws_seed) (rule draw_weight_seed)
  from draws_seed [OF this] show ?thesis
    by (simp add: neural_layer_new_def Let_def case_prod_beta algebra_simps)
qed

lemma layers_new_seed:
  "snd (layers_new L act sizes x) = x + of_nat (sum_list (map2 (*) (tl sizes) sizes)) * (2 * GOLDEN_GAMMA)"
proof (induction sizes arbitrary: x rule: induct_list012)
  case (3 a b rest)
  then show ?case by (simp add: Let_def case_prod_beta neural_layer_new_seed algebra_simps)
qed simp_all

section \<open>Products\<close>

lemma matmul_inner_nth:
  assumes "i < m" "length out = m * n" "y < m * n" "z = y - i * n" "l \<le> n"
  shows "fold (\<lambda>j out. out[i * n + j := dadd (out ! (i * n + j)) (dmul c (b ! (p * n + j)))]) [0..<l] out ! y =
    (if i * n \<le> y \<and> y < i * n + l then dadd (out ! y) (dmul c (b ! (p * n + z))) else out ! y)"
    and "length (fold (\<lambda>j out. out[i * n + j := dadd (out ! (i * n + j)) (dmul c (b ! (p * n + j)))]) [0..<l] out) = m * n"
  using assms(5)
proof (induction l)
  case (Suc l)
  let ?f = "\<lambda>j out. out[i * n + j := dadd (out ! (i * n + j)) (dmul c (b ! (p * n + j)))]"
  case 1
  have l: "l \<le> n" "l < n" using 1 by simp_all
  have "Suc i * n \<le> m * n" using assms(1) by (intro mult_right_mono) simp_all
  then have il: "i * n + l < m * n" using l by simp
  show ?case
  proof (cases "y = i * n + l")
    case True
    then show ?thesis using Suc(1) [OF l(1)] Suc(2) [OF l(1)] il assms(4) by simp
  next
    case False
    then show ?thesis using Suc(1) [OF l(1)] by auto
  qed
  case 2
  show ?case using Suc(2) [OF l(1)] by simp
qed (auto simp: assms(2))

lemma matmul_inner_entry:
  assumes "i < m" "length out = m * n" "y < m * n" "z = y - i * n"
  shows "matmul_inner n i c p b out ! y =
      (if i * n \<le> y \<and> y < i * n + n then dadd (out ! y) (dmul c (b ! (p * n + z))) else out ! y)"
    and "length (matmul_inner n i c p b out) = m * n"
  using matmul_inner_nth [OF assms order.refl, of c b p] by (simp_all add: matmul_inner_def)

text \<open>One row: the products of the row with the columns are added in the order of the common index.\<close>

lemma matmul_row_nth:
  assumes "i < m" "length out = m * n" "y < m * n" "z = y - i * n"
  shows "fold (\<lambda>p out. matmul_inner n i (a ! (i * k + p)) p b out) [0..<q] out ! y =
    (if i * n \<le> y \<and> y < i * n + n
     then foldl (\<lambda>s p. dadd s (dmul (a ! (i * k + p)) (b ! (p * n + z)))) (out ! y) [0..<q] else out ! y)"
    and "length (fold (\<lambda>p out. matmul_inner n i (a ! (i * k + p)) p b out) [0..<q] out) = m * n"
proof (induction q)
  case (Suc q)
  let ?o = "fold (\<lambda>p out. matmul_inner n i (a ! (i * k + p)) p b out) [0..<q] out"
  have nth: "matmul_inner n i c p b ?o ! y =
      (if i * n \<le> y \<and> y < i * n + n then dadd (?o ! y) (dmul c (b ! (p * n + z))) else ?o ! y)" for c p
    by (rule matmul_inner_entry(1) [OF assms(1) Suc(2) assms(3,4)])
  have len: "length (matmul_inner n i c p b ?o) = m * n" for c p
    by (rule matmul_inner_entry(2) [OF assms(1) Suc(2) assms(3,4)])
  case 1
  show ?case using Suc(1) by (simp add: nth)
  case 2
  show ?case by (simp add: len)
qed (simp_all add: assms(2))

lemma matmul_rows_nth:
  assumes "length out = m * n" "y < m * n" "r \<le> m" "0 < n"
  shows "fold (\<lambda>i out. fold (\<lambda>p out. matmul_inner n i (a ! (i * k + p)) p b out) [0..<k] out) [0..<r] out ! y =
    (if y div n < r
     then foldl (\<lambda>s p. dadd s (dmul (a ! (y div n * k + p)) (b ! (p * n + y mod n)))) (out ! y) [0..<k] else out ! y)"
    and "length (fold (\<lambda>i out. fold (\<lambda>p out. matmul_inner n i (a ! (i * k + p)) p b out) [0..<k] out) [0..<r] out) = m * n"
  using assms(3)
proof (induction r)
  case (Suc r)
  have r: "r \<le> m" "r < m" if "Suc r \<le> m" using that by simp_all
  case 1
  note row = matmul_row_nth [OF r(2) [OF 1] Suc(2) [OF r(1) [OF 1]] assms(2) refl, of a k b k]
  have "r * n \<le> y \<and> y < r * n + n \<longleftrightarrow> y div n = r"
    using assms(4) by (metis add.commute div_nat_eqI dividend_less_times_div div_times_less_eq_dividend mult.commute mult_Suc)
  moreover have "y - r * n = y mod n" if "y div n = r" using that by (metis minus_div_mult_eq_mod)
  ultimately show ?case using row(1) Suc(1) [OF r(1) [OF 1]] by (auto simp: less_Suc_eq)
  case 2
  show ?case using matmul_row_nth(2) [OF r(2) [OF 2] Suc(2) [OF r(1) [OF 2]] assms(2) refl, of a k b k] by simp
qed (simp_all add: assms(1))

text \<open>
  The product of an \<open>m\<close> by \<open>k\<close> and a \<open>k\<close> by \<open>n\<close> tensor is a tensor of that shape whose entry in row \<open>i\<close> and column \<open>j\<close> is the
  sum of the products of row and column, rounded and added from the left; tensors of other dimensions or shapes are refused.
\<close>

theorem matmul_entries:
  assumes "tn_shape a = [m, k]" and "tn_shape b = [k2, n]"
  shows "(k \<noteq> k2 \<longrightarrow> matmul a b = Inl (ShapeMismatch k k2)) \<and>
    (k = k2 \<longrightarrow> (\<exists>c. matmul a b = Inr c \<and> tn_shape c = [m, n] \<and> length (tn_data c) = m * n \<and>
       (\<forall>i < m. \<forall>j < n. tn_data c ! (i * n + j) =
          foldl (\<lambda>s p. dadd s (dmul (tn_data a ! (i * k + p)) (tn_data b ! (p * n + j)))) (Fin 0) [0..<k])))"
proof (intro conjI impI)
  show "k \<noteq> k2 \<Longrightarrow> matmul a b = Inl (ShapeMismatch k k2)" using assms by (simp add: matmul_def)
  assume k: "k = k2"
  define out where "out = fold (\<lambda>i out. fold (\<lambda>p out. matmul_inner n i (tn_data a ! (i * k + p)) p (tn_data b) out) [0..<k] out) [0..<m]
      (replicate (m * n) (Fin 0))"
  have len: "length out = m * n"
  proof (cases "m * n = 0")
    case True
    have "length (matmul_inner n i c p b out) = length out" for i c p b out
      unfolding matmul_inner_def by (rule fold_invariant [where Q = "\<lambda>_. True"]) simp_all
    then have inner: "length (fold (\<lambda>p out. matmul_inner n i (tn_data a ! (i * k + p)) p (tn_data b) out) ps out) = length out" for i ps out
      by (induction ps arbitrary: out) simp_all
    have "length (fold (\<lambda>i out. fold (\<lambda>p out. matmul_inner n i (tn_data a ! (i * k + p)) p (tn_data b) out) [0..<k] out) is xs) = length xs" for "is" xs
      by (induction "is" arbitrary: xs) (simp_all add: inner)
    then show ?thesis unfolding out_def by simp
  next
    case False
    then show ?thesis using matmul_rows_nth(2) [of "replicate (m * n) (Fin 0)" m n 0 m] by (simp add: out_def)
  qed
  have entry: "out ! (i * n + j) = foldl (\<lambda>s p. dadd s (dmul (tn_data a ! (i * k + p)) (tn_data b ! (p * n + j)))) (Fin 0) [0..<k]"
    if "i < m" "j < n" for i j
  proof -
    have "Suc i * n \<le> m * n" using that by (intro mult_right_mono) simp_all
    then have "i * n + j < m * n" using that by simp
    then show ?thesis using matmul_rows_nth(1) [of "replicate (m * n) (Fin 0)" m n "i * n + j" m] that
      by (simp add: out_def)
  qed
  have "matmul a b = Inr \<lparr>tn_data = out, tn_shape = [m, n]\<rparr>"
    using assms k len by (simp add: matmul_def Let_def tensor_new_def out_def)
  then show "\<exists>c. matmul a b = Inr c \<and> tn_shape c = [m, n] \<and> length (tn_data c) = m * n \<and>
       (\<forall>i < m. \<forall>j < n. tn_data c ! (i * n + j) =
          foldl (\<lambda>s p. dadd s (dmul (tn_data a ! (i * k + p)) (tn_data b ! (p * n + j)))) (Fin 0) [0..<k])"
    using len entry by simp
qed

section \<open>Inference\<close>

lemma fless_trans: "fless a b \<Longrightarrow> fless b c \<Longrightarrow> fless a c"
  by (cases a; cases b; cases c) auto

lemma fless_le_trans: "a \<noteq> NaN \<Longrightarrow> b \<noteq> NaN \<Longrightarrow> c \<noteq> NaN \<Longrightarrow> \<not> fless b a \<Longrightarrow> \<not> fless c b \<Longrightarrow> \<not> fless c a"
  by (cases a; cases b; cases c) auto

lemma fless_asym: "fless a b \<Longrightarrow> \<not> fless b a"
  by (cases a; cases b) auto

lemma last_max_None: "last_max b xs = None \<longleftrightarrow> xs \<noteq> [] \<and> (\<exists>x \<in> set (b # xs). snd x = NaN)"
proof (induction xs arbitrary: b)
  case (Cons x xs)
  then show ?case by (cases xs) auto
qed simp

text \<open>The result is one of the greatest, and greater than every later one.\<close>

lemma last_max_Some:
  assumes "last_max b xs = Some r" "\<forall>x \<in> set (b # xs). snd x \<noteq> NaN" "sorted_wrt (\<lambda>x y. fst x < fst y) (b # xs)"
  shows "r \<in> set (b # xs) \<and> (\<forall>x \<in> set (b # xs). \<not> fless (snd r) (snd x) \<and> (fst r < fst x \<longrightarrow> fless (snd x) (snd r)))"
  using assms
proof (induction xs arbitrary: b)
  case Nil
  then have "r = b" by simp
  then show ?case using fless_asym [of "snd b" "snd b"] by auto
next
  case (Cons x xs)
  show ?case
  proof (cases "fless (snd x) (snd b)")
    case True
    then have "last_max b xs = Some r" "\<forall>x \<in> set (b # xs). snd x \<noteq> NaN" "sorted_wrt (\<lambda>x y. fst x < fst y) (b # xs)"
      using Cons.prems by simp_all
    note ih = Cons.IH [OF this]
    have rb: "\<not> fless (snd r) (snd b)" using ih by simp
    have "snd r \<noteq> NaN" using ih Cons.prems(2) by auto
    then have "\<not> fless (snd r) (snd x)" using rb True fless_trans by blast
    moreover have "fless (snd x) (snd r)" if "fst r < fst x"
    proof -
      have "r = b" using that ih Cons.prems(3) by (auto dest: order.asym)
      then show ?thesis using True by simp
    qed
    ultimately show ?thesis using ih by auto
  next
    case False
    then have "last_max x xs = Some r" "\<forall>x \<in> set (x # xs). snd x \<noteq> NaN" "sorted_wrt (\<lambda>x y. fst x < fst y) (x # xs)"
      using Cons.prems by simp_all
    note ih = Cons.IH [OF this]
    have nn: "snd r \<noteq> NaN" "snd b \<noteq> NaN" "snd x \<noteq> NaN" using ih Cons.prems(2) by auto
    have "\<not> fless (snd r) (snd b)" by (rule fless_le_trans [OF nn(2,3,1) False]) (use ih in simp)
    moreover have "\<not> fst r < fst b" using ih Cons.prems(3) by (auto dest: order.asym)
    ultimately show ?thesis using ih by auto
  qed
qed

lemma predicted_class_None: "predicted_class ps = None \<longleftrightarrow> 2 \<le> length ps \<and> NaN \<in> set ps"
proof (cases ps)
  case (Cons p qs)
  have "(\<exists>x \<in> set (enumerate (Suc 0) qs). snd x = NaN) \<longleftrightarrow> NaN \<in> snd ` set (enumerate (Suc 0) qs)" by force
  also have "snd ` set (enumerate (Suc 0) qs) = set qs" by (metis map_snd_enumerate set_map)
  finally have q: "(\<exists>x \<in> set (enumerate (Suc 0) qs). snd x = NaN) \<longleftrightarrow> NaN \<in> set qs" .
  have ne: "enumerate (Suc 0) qs \<noteq> [] \<longleftrightarrow> qs \<noteq> []" by (cases qs) simp_all
  have "predicted_class ps = map_option fst (last_max (0, p) (enumerate (Suc 0) qs))"
    by (simp add: predicted_class_def Cons)
  then have "predicted_class ps = None \<longleftrightarrow> enumerate (Suc 0) qs \<noteq> [] \<and> (p = NaN \<or> (\<exists>x \<in> set (enumerate (Suc 0) qs). snd x = NaN))"
    by (simp add: last_max_None)
  also have "\<dots> \<longleftrightarrow> qs \<noteq> [] \<and> (p = NaN \<or> NaN \<in> set qs)" unfolding q ne ..
  finally show ?thesis by (cases qs) (auto simp: Cons)
qed (simp add: predicted_class_def)

lemma predicted_class_Some:
  assumes "predicted_class ps = Some k" "ps \<noteq> []" "NaN \<notin> set ps"
  shows "k < length ps \<and> (\<forall>j < length ps. \<not> fless (ps ! k) (ps ! j) \<and> (k < j \<longrightarrow> fless (ps ! j) (ps ! k)))"
proof -
  obtain p qs where ps: "ps = p # qs" using assms(2) by (cases ps) auto
  have en: "enumerate 0 ps = (0, p) # enumerate (Suc 0) qs" by (simp add: ps)
  obtain r where r: "last_max (0, p) (enumerate (Suc 0) qs) = Some r" "fst r = k"
    using assms(1) by (auto simp: predicted_class_def en)
  have "\<forall>x \<in> set ((0, p) # enumerate (Suc 0) qs). snd x \<noteq> NaN"
    unfolding en [symmetric] using assms(3) by (force simp: in_set_enumerate_eq dest: nth_mem)
  moreover have "sorted_wrt (\<lambda>x y. fst x < fst y) ((0, p) # enumerate (Suc 0) qs)"
    unfolding en [symmetric] by (simp add: sorted_wrt_iff_nth_less nth_enumerate_eq)
  ultimately have l: "r \<in> set (enumerate 0 ps) \<and>
      (\<forall>x \<in> set (enumerate 0 ps). \<not> fless (snd r) (snd x) \<and> (fst r < fst x \<longrightarrow> fless (snd x) (snd r)))"
    unfolding en by (rule last_max_Some [OF r(1)])
  then have k: "k < length ps" "snd r = ps ! k" using r(2) by (auto simp: in_set_enumerate_eq)
  show ?thesis
  proof (intro conjI allI impI)
    fix j assume "j < length ps"
    then have "(j, ps ! j) \<in> set (enumerate 0 ps)" by (simp add: in_set_enumerate_eq)
    then show "\<not> fless (ps ! k) (ps ! j)" "k < j \<Longrightarrow> fless (ps ! j) (ps ! k)" using l k r(2) by force+
  qed (rule k(1))
qed

text \<open>The cascade answers to one of three ranges of the confidence, and always goes on.\<close>

lemma brain_rules_cascade:
  "rule_apply brain_rules (confidence_context c) =
     [if fless (dlit (7 / 10)) c then ''accept_output'' else if fless c (dlit (4 / 10)) then ''flag_for_review'' else ''request_more_data'',
      ''log_and_continue'']"
  by (simp add: rule_apply_def brain_rules_def rule_compile_def rule_push_def confidence_context_def)

text \<open>
  An input of the right length makes the inference panic exactly when there are at least two probabilities and one is a NaN.
  Otherwise the predicted class is the last of the greatest probabilities, the rules are those of the confidence, and the
  log keeps at most ten thousand confidences.
\<close>

lemma infer_result:
  fixes L :: libm
  assumes "checked_input (bc_input_size (nb_config b)) input = Inr ()" and "nb_rules b = brain_rules"
    and "length (nb_log b) \<le> LOG_CAPACITY"
  defines "probs \<equiv> softmax L (layer_output L (nb_layers b) input)"
  shows "(infer L input b = None \<longleftrightarrow> 2 \<le> length probs \<and> NaN \<in> set probs) \<and>
    (\<forall>res b'. infer L input b = Some (res, b') \<longrightarrow> length (nb_log b') \<le> LOG_CAPACITY \<and>
       (\<exists>k. res = Inr \<lparr>bo_probabilities = probs, bo_predicted_class = k, bo_confidence = dmax_of probs,
          bo_rules_applied = rule_apply brain_rules (confidence_context (dmax_of probs))\<rparr> \<and>
          (2 \<le> length probs \<longrightarrow> k < length probs \<and>
             (\<forall>j < length probs. \<not> fless (probs ! k) (probs ! j) \<and> (k < j \<longrightarrow> fless (probs ! j) (probs ! k))))))"
proof (cases "predicted_class probs")
  case None
  then show ?thesis using assms(1) predicted_class_None [of probs]
    by (simp add: infer_def Let_def probs_def [symmetric])
next
  case (Some k)
  then have n: "\<not> (2 \<le> length probs \<and> NaN \<in> set probs)" using predicted_class_None [of probs] by simp
  have "k < length probs \<and> (\<forall>j < length probs. \<not> fless (probs ! k) (probs ! j) \<and> (k < j \<longrightarrow> fless (probs ! j) (probs ! k)))"
    if "2 \<le> length probs"
    by (rule predicted_class_Some [OF Some]) (use that n in auto)
  then show ?thesis using assms(1-3) Some n
    by (auto simp: infer_def Let_def probs_def [symmetric] LOG_CAPACITY_def)
qed

section \<open>Evidence from a brain\<close>

text \<open>Every translation draws its own weights: the seed it leaves is another one, so the next translation has other weights.\<close>

lemma evidence_brain_seed:
  "snd (nex_brain_new L (brain_config_new name) x) = x + 136 * GOLDEN_GAMMA"
proof -
  have "snd (nex_brain_new L (brain_config_new name) x) = snd (layers_new L (activation_of ''relu'') [3, 8, 4, 3] x)"
    by (simp only: nex_brain_new_def brain_config_new_def brain_config.select_convs Let_def case_prod_beta snd_conv append_Cons append_Nil)
  also have "\<dots> = x + of_nat (sum_list (map2 (*) (tl [3, 8, 4, 3]) [3, 8, 4, 3])) * (2 * GOLDEN_GAMMA)" by (rule layers_new_seed)
  finally show ?thesis by simp
qed

lemma translate_moves_seed:
  assumes "brain_translate L parse show_f64 hash raw x = Some (Inr a, y)"
  shows "y = x + 136 * GOLDEN_GAMMA \<and> y \<noteq> x"
proof -
  have "y = x + 136 * GOLDEN_GAMMA"
  proof -
    obtain b z where nb: "nex_brain_new L (brain_config_new ''evidence'') x = (b, z)" by (rule prod.exhaust)
    obtain j where j: "parse raw = Inr j" using assms by (cases "parse raw") (auto simp: brain_translate_def)
    have ne: "json_features j \<noteq> []" using assms by (auto simp: brain_translate_def j)
    have step: "(case infer L (three_features (json_features j)) b of None \<Rightarrow> None | Some (Inl e, _) \<Rightarrow> Some (Inl e, z)
        | Some (Inr out, _) \<Rightarrow> Some (Inr (g out), z)) = Some (Inr a, y) \<Longrightarrow> y = z" for g :: "brain_output \<Rightarrow> brain_assertion"
      by (simp split: option.splits prod.splits sum.splits)
    have "y = z" using assms unfolding brain_translate_def j sum.case Let_def if_not_P [OF ne] nb prod.case by (rule step)
    then show ?thesis using evidence_brain_seed [of L "''evidence''" x] by (simp only: nb snd_conv)
  qed
  moreover have "136 * GOLDEN_GAMMA \<noteq> 0" by (simp add: GOLDEN_GAMMA_def)
  ultimately show ?thesis by simp
qed

text \<open>Only the first three numbers of the object are read; what is missing is zero.\<close>

lemma translate_reads_three:
  assumes "parse raw = Inr j" "parse raw' = Inr j'" "json_features j \<noteq> []" "json_features j' \<noteq> []"
    and "three_features (json_features j) = three_features (json_features j')"
  shows "brain_translate L parse show_f64 hash raw x = brain_translate L parse show_f64 hash raw' x"
  using assms by (simp add: brain_translate_def)

text \<open>Three equal numbers are not normalised: they enter the first layer as they are, whatever their size.\<close>

lemma equal_inputs_not_normalized:
  assumes "lm_sqrt L (Fin 0) = Fin 0" "n < 2 ^ 51"
  shows "stats_normalize L [Fin (of_nat n), Fin (of_nat n), Fin (of_nat n)] = [Fin (of_nat n), Fin (of_nat n), Fin (of_nat n)]"
proof -
  let ?x = "Fin (of_nat n)"
  have d: "dround (of_nat n) = ?x" "dround (of_nat n + of_nat n) = Fin (of_nat (2 * n))"
    "dround (of_nat (2 * n) + of_nat n) = Fin (of_nat (3 * n))"
    using dround_nat [of n] dround_nat [of "2 * n"] dround_nat [of "3 * n"] assms(2) by (simp_all add: algebra_simps)
  have s: "dsum [?x, ?x, ?x] = Fin (of_nat (3 * n))" using d by (simp add: dsum_def)
  have c: "dcount (Suc (Suc (Suc 0))) = Fin 3" using dround_nat [of 3] by (simp add: dcount_def)
  have m: "stats_mean [?x, ?x, ?x] = ?x" using s c d(1) by (simp add: stats_mean_def)
  have z: "dround 0 = Fin 0" by (simp add: dround_def fp_to_def)
  have "stats_variance [?x, ?x, ?x] = Fin 0" using c z by (simp add: stats_variance_def m dsum_def sub_by_def)
  moreover have "fless (Fin 0) TINY"
  proof -
    have "pow2 (- 1022 - int 52) \<le> pow2 (- 60)" by (rule pow2_mono) simp
    also have "pow2 (- 60) \<le> 1 / 10 ^ 10" by (simp add: pow2_def)
    finally show ?thesis unfolding TINY_def dlit_def dround_def by (intro fp_to_pos) simp_all
  qed
  ultimately show ?thesis using assms(1) by (simp add: stats_normalize_def stats_std_dev_def)
qed

section \<open>The manifesto\<close>

text \<open>The hash of the manifesto does not cover its texts: principles, capabilities and limits can be replaced one for one.\<close>

lemma manifesto_hash_counts:
  "mf_titulo m = mf_titulo m' \<Longrightarrow> mf_proposta m = mf_proposta m' \<Longrightarrow> length (mf_principios m) = length (mf_principios m') \<Longrightarrow>
   length (mf_capacidades m) = length (mf_capacidades m') \<Longrightarrow> length (mf_limitacoes m) = length (mf_limitacoes m') \<Longrightarrow>
     calcular_hash hash m = calcular_hash hash m'"
  by (simp add: calcular_hash_def)

end
