(* ===== verification/Spec2Isabelle.thy ===== *)
theory Spec2Isabelle
  imports Mmr_Theorems Prov_Registry Wal_Theorems Zk_Theorems Peer_Theorems Peer_Table Transport
    Bio_Theorems Senses Supervisor_Theorems Executor Subconscious Provenance_Chain Decision_Theorems
    Evidence_Theorems Defense Assertion Nex_Theorems Session_Theorems Reputation Heartbeat Peer_Lists Secure_Message Listener_Theorems Pipeline Nex_Parser_Theorems Nex_Parser_Limits
    Nex_Reactive_Theorems Nex_Checkpoint_Theorems Api_Theorems Explain Nex_Learning_Theorems Identity Nex_Internet
    Awareness_Theorems Behavior_Theorems Nexus Brain
begin

text \<open>
  Verification of the core of NexoIA, a Rust workspace with two halves. \<^verbatim>\<open>nexoia-core\<close> is a local engine:
  an append-only Merkle Mountain Range with a provenance plane and a write-ahead log (\<^verbatim>\<open>epoch_mmr\<close>), a stub
  engine of inclusion proofs (\<^verbatim>\<open>zk_prover\<close>), a heart and a digestor that turn events into leaves under memory pressure
  (\<^verbatim>\<open>bio_loop\<close>), a peer protocol with an entry cost and a trust window (\<^verbatim>\<open>gossip\<close>), and a supervisor that runs them
  as threads over one shared state (\<^verbatim>\<open>supervisor\<close>). \<^verbatim>\<open>crates/host\<close> is the node: it scores a JSON state, takes a decision,
  writes evidence, verifies result directories, runs NEX programs, and talks to other nodes over UDP.

  How the parts interact. A digested event becomes a request of the supervisor; its consumer appends the
  leaf to the log (\<open>Wal\<close>) and to the range (\<open>Mmr\<close>) and notes it in the registry; a restart replays the log; a
  seal of an epoch feeds the proof worker. In the host a run (\<open>Pipeline\<close>) calls the input checks and the
  limiter (\<open>Defense\<close>), the engine (\<open>Assertion\<close>), the decision (\<open>Decision\<close>) and the records (\<open>Evidence\<close>), whose files the verifier
  reads back through the walk along provenance chains (\<open>Provenance_Chain\<close>). The message loop (\<open>Listener\<close>) holds
  sessions, pending handshakes, trusted peers, reputations, peer states and the packages it verified; the two heartbeat tasks share
  trusted peers, peer states, reputations and sessions with it, and the monitor runs the reactive rules (\<open>Nex_Reactive\<close>) on them.
\<close>

section \<open>Conventions\<close>

text \<open>
  Machine integers are words where they wrap (counters, scores, identifiers) and \<open>nat\<close> where the code
  indexes or counts below the memory size; \<^verbatim>\<open>i16\<close> and truncated division are written out in
  \<open>Nexo_Prelude\<close>. Floating point (\<open>F64\<close>) is exact: a value is a rational and each operation rounds to 53 or 24
  bits, ties to even; NaN and infinities do not arise in the expressions that use rationals alone. The packets of the cortex are arbitrary
  bytes and the brain computes with any number: they use the type \<open>fpval\<close> with NaN, infinities and subnormal numbers. A record stands for a struct, a
  datatype for an enum, an association list for a hash map (in the order in which it would be iterated), a sum or option type
  for a \<^verbatim>\<open>Result\<close> or a panic. Code outside the repository (SHA-256, BLAKE3, Ed25519, AES, JSON, UUIDs, the
  crossbeam channel) is a parameter; the hypotheses on it are named in the theorems that need them, such as
  \<open>decodes\<close>, collision freedom on the inputs that were hashed, or \<open>fifo\<close>. Random values, clocks, socket outcomes and
  write faults are inputs of the steps. Threads are interleavings of atomic steps.

  No fuel is used: loops are structural or have a measure (the walk along parents removes the
  parent it visits from those it may still visit, the expansion of imports shrinks the files not yet on the stack or loaded).

  The interfaces are the locales of \<open>Nexo_Prelude\<close>: \<open>preserved\<close> (a step keeps an invariant, hence every run does), interpreted on the
  peers, the peer table, the handshake of the entry cost, the sessions, the heartbeats, the message loop and the packets of the cortex;
  \<open>accumulator\<close> (a step appends to the list a state stands for), interpreted on the range, the log, the trust window and the
  vector store; and \<open>keyed_store\<close> (what a lookup returns after an insert), interpreted on the registry, the
  peer table and the patches of the executor. \<open>Tables\<close> holds the eviction that four tables of the host share.
\<close>

section \<open>The theories\<close>

text \<open>
  The core, under \<^verbatim>\<open>nexoia-core\<close>:

  \<^item> \<open>Mmr\<close>, \<^verbatim>\<open>epoch_mmr/src/mmr.rs\<close>: the flat node array and the peaks, append with its merge loop, seal, nullification,
    lookup, proofs. \<open>Mmr_Forest\<close> and \<open>Mmr_Climb\<close> relate the array to a forest of perfect trees, \<open>Mmr_Props\<close> keeps
    that relation through every call, \<open>Mmr_Theorems\<close> states it: refinement of the forest, lookups, proofs that
    reach their peak, and that they verify for a power of two of leaves but not for three.
  \<^item> \<open>Prov_Registry\<close>, \<^verbatim>\<open>epoch_mmr/src/provenance.rs\<close>: who inserted a leaf; the history of the registry.
  \<^item> \<open>Wal\<close>, \<^verbatim>\<open>epoch_mmr/src/wal.rs\<close>: records of 64 bytes, files with a cursor and an append mode, open, create, append,
    sync, replay. \<open>Wal_Props\<close>, \<open>Wal_Theorems\<close>: the record round trip, recovery over any number of
    sessions, and how \<^verbatim>\<open>sync\<close> overwrites the header or misaligns the log. \<open>Wal_Theorems\<close> also has
    \<^verbatim>\<open>host/src/provenance_bridge.rs\<close>: digests into the range and the log; a restart keeps the leaves and loses the epochs.
  \<^item> \<open>Zk_Prover\<close>, \<^verbatim>\<open>zk_prover/src\<close> (engine and worker); \<open>Zk_Theorems\<close>: completeness, soundness, what the
    statement does not check, the binding of the commitment.
  \<^item> \<open>Peer\<close>, \<^verbatim>\<open>gossip/src/peer.rs\<close>; \<open>Peer_Window\<close>, \<open>Peer_Theorems\<close>: the score is that of the last 64 samples, the connection
    state is a function of the score, silence lowers the score until it wraps to trust; \<open>Peer_Table\<close>: the table of 256 slots.
  \<^item> \<open>Transport\<close>, \<^verbatim>\<open>gossip/src/transport.rs\<close>: frames, ingestion over a FIFO channel, the emitter's account; \<^verbatim>\<open>vdf_guard.rs\<close>: the
    entry cost, and that the last proof decides admission.
  \<^item> \<open>Bio_Loop\<close>, \<open>Bio_Theorems\<close>, \<^verbatim>\<open>bio_loop/src\<close>: events handled or dropped, hysteresis, the rate of seals.
  \<^item> \<open>Supervisor\<close>, \<open>Supervisor_Theorems\<close>, \<^verbatim>\<open>supervisor/src/supervisor.rs\<close>: the threads as interleaved steps; recovery by
    restart, the leaf lost after a seal, the confidence score.
  \<^item> \<open>Senses\<close>, \<open>Executor\<close>, \<open>Subconscious\<close>, the other files of \<^verbatim>\<open>supervisor/src\<close>: the bound of the UDP listener, the slots of the
    executor that only run verified code, the file of vectors.

  The host, under \<^verbatim>\<open>crates/host/src\<close>:

  \<^item> \<open>Strength\<close>, \<^verbatim>\<open>types.rs\<close>, \<^verbatim>\<open>quality.rs\<close>, \<^verbatim>\<open>provenance/typed_node.rs\<close>, \<^verbatim>\<open>compose.rs\<close>, \<^verbatim>\<open>witness.rs\<close>: strengths, typed nodes, attestations.
  \<^item> \<open>Provenance_Chain\<close>, \<^verbatim>\<open>provenance/aggregator.rs\<close>: the walk (it ends, and what its chain is), blinding, the index of children.
  \<^item> \<open>Decision\<close>, \<open>Decision_Theorems\<close>, \<^verbatim>\<open>lgpd.rs\<close>, \<^verbatim>\<open>state.rs\<close>, \<^verbatim>\<open>decision.rs\<close>: the integer rule that the rounded score amounts to.
  \<^item> \<open>Evidence\<close>, \<open>Evidence_Theorems\<close>, \<^verbatim>\<open>evidence.rs\<close>, \<^verbatim>\<open>provenance/verify.rs\<close>: what a valid entry of a report means.
  \<^item> \<open>Defense\<close>, \<^verbatim>\<open>defense.rs\<close>: no window holds more accepted calls than the maximum, whatever the cleanup thread does between them,
    one shard after the other; its counter is ahead of the table by what a running cleanup has removed.
  \<^item> \<open>Assertion\<close>, \<^verbatim>\<open>ai.rs\<close>: factors, score and strength of a state.
  \<^item> \<open>Pipeline\<close>, \<^verbatim>\<open>pipeline.rs\<close>: a run and what the verifier says of its files.
  \<^item> \<open>Nex_Eval\<close>, \<open>Nex_Import\<close>, \<open>Nex_Theorems\<close>, \<^verbatim>\<open>nex/ast.rs\<close>, \<^verbatim>\<open>nex/eval.rs\<close>: execution and imports of NEX programs; expansion ends, no
    strength is gained, values do not matter, when an attestation succeeds.
  \<^item> \<open>Texts\<close>: trimming, lines and decimal numbers of the Rust library. \<open>Nex_Lexer\<close>, \<open>Nex_Parser\<close>, \<^verbatim>\<open>nex/parser.rs\<close>: every token and
    statement, with the messages of errors and the panics of unchecked indices; \<open>Nex_Printing\<close> is a canonical text of
    programs, \<open>Nex_Parser_Theorems\<close> its round trip, \<open>Nex_Parser_Limits\<close> what an accepted program looks like and when a source panics.
  \<^item> \<open>Nex_Reactive\<close>, \<open>Nex_Reactive_Theorems\<close>, \<^verbatim>\<open>nex/layers.rs\<close>, \<^verbatim>\<open>reactive.rs\<close>, \<^verbatim>\<open>action_executor.rs\<close>, the monitor of
    \<^verbatim>\<open>network/heartbeat.rs\<close>: which rules fire, what their actions do to membrane and reputations, that the default rules never fire.
  \<^item> \<open>Persistence\<close>, \<^verbatim>\<open>network/persistence.rs\<close>: the atomic replacement of a file with the fault as an argument, the network
    state; \<open>Nex_Checkpoint\<close>, \<open>Nex_Checkpoint_Theorems\<close>, \<^verbatim>\<open>nex/checkpoint.rs\<close>: snapshots of rules and what survives restarts.
  \<^item> \<open>Nex_Learning\<close>, \<open>Nex_Learning_Theorems\<close>, \<^verbatim>\<open>nex/iteration.rs\<close>, \<^verbatim>\<open>pattern_detector.rs\<close>, \<^verbatim>\<open>rule_adjuster.rs\<close>, \<^verbatim>\<open>feedback_loop.rs\<close>: the
    history across runs, the counts of the detector, and that no cycle changes a rule.
  \<^item> \<open>Dictionary\<close>, \<open>Dictionary_Theorems\<close>, \<^verbatim>\<open>nex/dictionary.rs\<close>: searches, learning, and what saving and loading give back;
    \<open>Nex_Internet\<close>, \<^verbatim>\<open>nex/internet.rs\<close>: the hosts that the list of domains admits, the cache of answers; \<open>Self_Awareness\<close>,
    \<open>Awareness_Theorems\<close>, \<^verbatim>\<open>nex/self_awareness.rs\<close>: what is read from the output of cargo, and the health report of
    \<^verbatim>\<open>bin/daemon.rs\<close>, which does not depend on the tests; \<open>Behavior\<close>, \<open>Behavior_Theorems\<close>,
    \<^verbatim>\<open>nex/behavior_engine.rs\<close>: the cycle, its successes and what it takes for verified.
  \<^item> \<open>Brain\<close>, \<^verbatim>\<open>nex/brain.rs\<close>: the random numbers, layers, products of tensors, statistics, rules and inference; when an inference
    panics and what it returns otherwise, that every translation draws other weights. It also has the hash of \<^verbatim>\<open>nex/manifesto.rs\<close>.
  \<^item> \<open>Identity\<close>, \<^verbatim>\<open>network/identity.rs\<close>, \<^verbatim>\<open>crypto_key.rs\<close>: keys under a passphrase, the file of an identity and restarts.
  \<^item> \<open>Lgpd_Rights\<close>, \<^verbatim>\<open>lgpd_rights.rs\<close>; \<open>Api\<close>, \<open>Api_Theorems\<close>, \<^verbatim>\<open>network/api.rs\<close>: the handlers on their shared state; what
    erasing a subject achieves, what revoking its consent prevents. \<open>Explain\<close>, \<^verbatim>\<open>explain.rs\<close>: diagnoses and conflicts.
  \<^item> \<open>Session\<close>, \<open>Session_Theorems\<close>, \<^verbatim>\<open>network/session.rs\<close>: the anti-replay window refines its specification.
  \<^item> \<open>Reputation\<close>, \<^verbatim>\<open>network/reputation.rs\<close>; \<open>Heartbeat\<close>, \<^verbatim>\<open>network/heartbeat.rs\<close>; \<open>Peer_Lists\<close>, \<^verbatim>\<open>network/transport.rs\<close> and
    \<^verbatim>\<open>persistence.rs\<close>; \<open>Secure_Message\<close>, \<^verbatim>\<open>network/secure_transport.rs\<close>, \<^verbatim>\<open>membrane.rs\<close>; \<open>Epa\<close>, \<^verbatim>\<open>network/epa.rs\<close>, \<^verbatim>\<open>verify.rs\<close>.
  \<^item> \<open>Listener\<close>, \<open>Listener_Theorems\<close>, \<^verbatim>\<open>network/handshake_runner.rs\<close>, \<^verbatim>\<open>handshake.rs\<close>, \<^verbatim>\<open>crypto.rs\<close>: the loop as one handler per message, and
    beside it the steps of the heartbeat tasks between their locks and of \<^verbatim>\<open>network/listener.rs\<close>; the
    invariant of all of them, and that one packet stops the loop, two make a peer trusted, and an honest handshake does not complete.

  The WebAssembly cortex and its host:

  \<^item> \<open>Cortex_Knowledge\<close>, \<^verbatim>\<open>wasm_cortex/src/knowledge.rs\<close>: the table of 64 fragments; its count and its distinct
    identifiers are kept, what insertion, decay and clearing do to an identifier, which entries are marked.
  \<^item> \<open>Cortex_Host\<close>, \<^verbatim>\<open>host/src/memory.rs\<close> and \<^verbatim>\<open>ffi.rs\<close>: the semantic memory and the functions the guest imports, over the bytes of its
    memory. \<open>Cortex\<close>, the rest of \<^verbatim>\<open>wasm_cortex/src\<close>: provenance, the contradiction score, the allocator, the life of a packet.
  \<^item> \<open>Cortex_Theorems\<close>: no packet traps the guest, a REM cycle against the host's memory, the score, a NaN
    stays, the blocks of the allocator, provenance of twelve fragments.
  \<^item> \<open>Storage\<close>, \<^verbatim>\<open>host/src/storage.rs\<close>: the mapped log, its recovery and the snapshot; \<open>Nexus\<close>, \<^verbatim>\<open>bin/nexus.rs\<close> with \<^verbatim>\<open>p2p.rs\<close> and
    \<^verbatim>\<open>bridge.rs\<close>: the events of the program around the cortex; it serves all of them and echoes what is typed, and never writes its log.
\<close>

section \<open>Not modelled\<close>

text \<open>
  Reading the environment, printing, starting and joining threads, and sockets: the programs under \<^verbatim>\<open>bin\<close> other than the loop of \<^verbatim>\<open>nexus.rs\<close> and the report of \<^verbatim>\<open>daemon.rs\<close>, \<^verbatim>\<open>main.rs\<close>,
  \<^verbatim>\<open>quic_engine.rs\<close> and the routing and TLS of \<^verbatim>\<open>api.rs\<close>. The texts of \<^verbatim>\<open>nex/manifesto.rs\<close> have no
  behaviour. The similarity search of \<^verbatim>\<open>subconscious.rs\<close> needs square roots of \<^verbatim>\<open>f32\<close>. Display texts of errors are constructors.
  The exponential, hyperbolic tangent and square root of \<^verbatim>\<open>nex/brain.rs\<close> are arguments; \<^verbatim>\<open>nex/observer.rs\<close> is not modelled.
\<close>

end
